(* ===== verification/Prelude.thy ===== *)
theory Prelude
  imports Main "HOL-Library.AList" "HOL-Library.Product_Lexorder"
begin

text \<open>
  Shared vocabulary of the development: the exception monad used by every command, Python
  dictionaries and JSON values, time, and the few table operations (select one row by key,
  conditional update, sum over a group) to which the SQL statements of the program reduce.
\<close>

named_theorems cmd_ok \<open>inversion of the success of a command\<close>
named_theorems table_simps \<open>what a table operation does to the observations of a table\<close>

section \<open>Failing computations\<close>

text \<open>
  A Python call either raises (\<open>Inl\<close>) or returns (\<open>Inr\<close>). \<open>bindE\<close> is sequencing: the rest of
  the body runs only when the call returned. \<open>requireE\<close> is a guard clause
  (\<^verbatim>\<open>if not ok: raise e\<close>), \<open>someE\<close> a lookup whose \<^verbatim>\<open>None\<close> raises.
\<close>

definition bindE :: "'e + 'a \<Rightarrow> ('a \<Rightarrow> 'e + 'b) \<Rightarrow> 'e + 'b" where
  "bindE r k = (case r of Inl e \<Rightarrow> Inl e | Inr x \<Rightarrow> k x)"

definition requireE :: "bool \<Rightarrow> 'e \<Rightarrow> 'e + unit" where
  "requireE ok e = (if ok then Inr () else Inl e)"

definition someE :: "'a option \<Rightarrow> 'e \<Rightarrow> 'e + 'a" where
  "someE v e = (case v of None \<Rightarrow> Inl e | Some x \<Rightarrow> Inr x)"

lemma bindE_simps [simp]:
  "bindE (Inl e) k = Inl e"
  "bindE (Inr x) k = k x"
  by (simp_all add: bindE_def)

lemma bindE_cong [fundef_cong]:
  assumes "r = r'" and "\<And>x. r' = Inr x \<Longrightarrow> k x = k' x"
  shows "bindE r k = bindE r' k'"
  using assms by (cases r') simp_all

lemma bindE_Inr_iff [cmd_ok]: "bindE r k = Inr y \<longleftrightarrow> (\<exists>x. r = Inr x \<and> k x = Inr y)"
  by (cases r) simp_all

lemma bindE_Inl_iff: "bindE r k = Inl e \<longleftrightarrow> r = Inl e \<or> (\<exists>x. r = Inr x \<and> k x = Inl e)"
  by (cases r) simp_all

lemma requireE_Inr_iff [cmd_ok]: "requireE ok e = Inr u \<longleftrightarrow> ok"
  by (simp add: requireE_def)

lemma requireE_simps [simp]:
  "requireE True e = Inr ()"
  "requireE False e = Inl e"
  by (simp_all add: requireE_def)

lemma someE_Inr_iff [cmd_ok]: "someE v e = Inr x \<longleftrightarrow> v = Some x"
  by (cases v) (simp_all add: someE_def)

lemma someE_simps [simp]:
  "someE None e = Inl e"
  "someE (Some x) e = Inr x"
  by (simp_all add: someE_def)

section \<open>Computations that change the session before they raise\<close>

text \<open>
  Inside one unit of work an exception does not undo what was already changed in the session; only
  leaving the block without a commit does. \<open>bindS\<close> sequences computations on the session, the
  changes made before the exception staying visible to the handler.
\<close>

definition bindS :: "('e + 'a) \<times> 's \<Rightarrow> ('a \<Rightarrow> 's \<Rightarrow> ('e + 'b) \<times> 's) \<Rightarrow> ('e + 'b) \<times> 's" where
  "bindS m k = (case m of (Inl e, s) \<Rightarrow> (Inl e, s) | (Inr x, s) \<Rightarrow> k x s)"

definition guardS :: "bool \<Rightarrow> 'e \<Rightarrow> 's \<Rightarrow> ('e + unit) \<times> 's" where
  "guardS ok e s = (if ok then (Inr (), s) else (Inl e, s))"

text \<open>A whole command: a result with the new session, or an exception and the session as it was.\<close>

definition liftS :: "('e + 's) \<Rightarrow> 's \<Rightarrow> ('e + unit) \<times> 's" where
  "liftS r s = (case r of Inl e \<Rightarrow> (Inl e, s) | Inr s' \<Rightarrow> (Inr (), s'))"

lemma bindS_simps [simp]:
  "bindS (Inl e, s) k = (Inl e, s)"
  "bindS (Inr x, s) k = k x s"
  by (simp_all add: bindS_def)

lemma bindS_Inr_iff [cmd_ok]:
  "bindS m k = (Inr y, s') \<longleftrightarrow> (\<exists>x s. m = (Inr x, s) \<and> k x s = (Inr y, s'))"
  by (cases m; cases "fst m") (auto simp: bindS_def)

lemma guardS_Inr_iff [cmd_ok]: "guardS ok e s = (Inr u, s') \<longleftrightarrow> ok \<and> s' = s"
  by (auto simp: guardS_def)

lemma liftS_Inr_iff [cmd_ok]: "liftS r s = (Inr u, s') \<longleftrightarrow> r = Inr s'"
  by (auto simp: liftS_def split: sum.splits)

text \<open>
  A whole unit of work: it commits its changes, or raises and leaves the tables as they were.
\<close>

definition transact :: "('e + 'a \<times> 's) \<Rightarrow> 's \<Rightarrow> ('e + 'a) \<times> 's" where
  "transact r s = (case r of Inl e \<Rightarrow> (Inl e, s) | Inr (x, s') \<Rightarrow> (Inr x, s'))"

lemma transact_simps [simp]:
  "transact (Inl e) s = (Inl e, s)"
  "transact (Inr (x, s')) s = (Inr x, s')"
  by (simp_all add: transact_def)

lemma transact_Inr_iff [cmd_ok]: "transact r s = (Inr x, s') \<longleftrightarrow> r = Inr (x, s')"
  by (auto simp: transact_def split: sum.splits)

lemma transact_state: "snd (transact r s) = s \<or> (\<exists>x. r = Inr (x, snd (transact r s)))"
  by (auto simp: transact_def split: sum.splits)

section \<open>Time\<close>

text \<open>
  Every persisted time is a UTC instant; an instant is its number of microseconds, the
  resolution of \<^verbatim>\<open>datetime\<close>. \<open>seconds\<close> and \<open>days\<close> are \<^verbatim>\<open>timedelta\<close> constructors.
\<close>

type_synonym time = int

definition seconds :: "int \<Rightarrow> time" where
  "seconds n = n * 1000000"

definition days :: "int \<Rightarrow> time" where
  "days n = n * 86400 * 1000000"

text \<open>\<^verbatim>\<open>datetime.min\<close>: 0001-01-01 as an offset from the epoch.\<close>

definition datetime_min :: time where
  "datetime_min = - 62135596800 * 1000000"

section \<open>JSON values and dictionaries\<close>

text \<open>
  A JSON column holds a dictionary: keys in insertion order, one value per key. A datetime
  stored with \<^verbatim>\<open>isoformat()\<close> and read with \<^verbatim>\<open>fromisoformat\<close> is the constructor
  \<open>JTime\<close>: the text determines the instant and the instant the text.
\<close>

datatype json =
    JNull
  | JBool bool
  | JInt int
  | JStr string
  | JTime time
  | JList "json list"
  | JObj "(string \<times> json) list"

type_synonym dict = "(string \<times> json) list"

text \<open>\<^verbatim>\<open>d[k] = v\<close> keeps the position of an existing key; \<^verbatim>\<open>{**a, **b}\<close> stores b over a.\<close>

definition dset :: "string \<Rightarrow> 'v \<Rightarrow> (string \<times> 'v) list \<Rightarrow> (string \<times> 'v) list" where
  "dset k v d = AList.update k v d"

definition dget :: "(string \<times> 'v) list \<Rightarrow> string \<Rightarrow> 'v option" where
  "dget d k = map_of d k"

definition dpop :: "string \<Rightarrow> (string \<times> 'v) list \<Rightarrow> (string \<times> 'v) list" where
  "dpop k d = AList.delete k d"

fun dmerge :: "(string \<times> 'v) list \<Rightarrow> (string \<times> 'v) list \<Rightarrow> (string \<times> 'v) list" where
  "dmerge a [] = a"
| "dmerge a ((k, v) # b) = dmerge (dset k v a) b"

lemma dget_Nil [simp]: "dget [] k = None"
  by (simp add: dget_def)

lemma dget_Cons [simp]: "dget ((k', v) # d) k = (if k = k' then Some v else dget d k)"
  by (simp add: dget_def)

lemma dget_dset [simp]: "dget (dset k v d) k' = (if k' = k then Some v else dget d k')"
  by (simp add: dget_def dset_def update_conv')

lemma dget_dpop [simp]: "dget (dpop k d) k' = (if k' = k then None else dget d k')"
  by (simp add: dget_def dpop_def delete_conv')

lemma dget_dmerge_other: "k \<notin> fst ` set b \<Longrightarrow> dget (dmerge a b) k = dget a k"
  by (induction a b rule: dmerge.induct) auto

section \<open>Tables\<close>

text \<open>
  A table is the list of its rows in insertion order. \<open>find\<close> is
  \<^verbatim>\<open>select(...).where(...)\<close> followed by \<^verbatim>\<open>.first()\<close>; \<open>update_where\<close> is
  \<^verbatim>\<open>update(...).where(...).values(...)\<close>; \<open>group_sum\<close> is \<^verbatim>\<open>select(sum(...)).where(...)\<close>.
\<close>

definition update_where :: "('r \<Rightarrow> bool) \<Rightarrow> ('r \<Rightarrow> 'r) \<Rightarrow> 'r list \<Rightarrow> 'r list" where
  "update_where p f t = map (\<lambda>r. if p r then f r else r) t"

definition group_sum :: "('r \<Rightarrow> bool) \<Rightarrow> ('r \<Rightarrow> int) \<Rightarrow> 'r list \<Rightarrow> int" where
  "group_sum p amt t = sum_list (map amt (filter p t))"

lemma update_where_Nil [simp]: "update_where p f [] = []"
  and update_where_Cons [simp]:
    "update_where p f (r # t) = (if p r then f r else r) # update_where p f t"
  by (simp_all add: update_where_def)

lemma set_update_where: "set (update_where p f t) = (\<lambda>r. if p r then f r else r) ` set t"
  by (simp add: update_where_def)

lemma length_update_where [simp]: "length (update_where p f t) = length t"
  by (simp add: update_where_def)

lemma update_where_none: "(\<And>r. r \<in> set t \<Longrightarrow> \<not> p r) \<Longrightarrow> update_where p f t = t"
  by (induction t) auto

lemma map_update_where [table_simps]:
  assumes "\<And>r. g (f r) = g r"
  shows "map g (update_where p f t) = map g t"
  using assms by (induction t) auto

lemma map_update_where':
  "(\<And>r. p r \<Longrightarrow> g (f r) = g r) \<Longrightarrow> map g (update_where p f t) = map g t"
  by (induction t) auto

lemma group_sum_Nil [simp]: "group_sum p amt [] = 0"
  and group_sum_Cons [simp]:
    "group_sum p amt (r # t) = (if p r then amt r else 0) + group_sum p amt t"
  and group_sum_append [simp]: "group_sum p amt (t @ u) = group_sum p amt t + group_sum p amt u"
  by (simp_all add: group_sum_def)

lemma group_sum_empty_group: "(\<And>r. r \<in> set t \<Longrightarrow> \<not> p r) \<Longrightarrow> group_sum p amt t = 0"
  by (induction t) auto

lemma group_sum_nonneg: "(\<And>r. r \<in> set t \<Longrightarrow> p r \<Longrightarrow> 0 \<le> amt r) \<Longrightarrow> 0 \<le> group_sum p amt t"
  by (induction t) auto

text \<open>
  Updating the single row with a given key changes the sum of its group by the change of that
  row, and the sum of no other group.
\<close>

lemma group_sum_update_key:
  assumes "distinct (map key t)" and "r \<in> set t" and "key r = k"
    and "\<And>x. x \<in> set t \<Longrightarrow> q x \<Longrightarrow> key x = k" and "q r"
    and "\<And>x. p (f x) = p x"
  shows "group_sum p amt (update_where q f t)
    = group_sum p amt t + (if p r then amt (f r) - amt r else 0)"
  using assms
proof (induction t)
  case (Cons a t)
  show ?case
  proof (cases "a = r")
    case True
    with Cons.prems have "\<And>x. x \<in> set t \<Longrightarrow> \<not> q x"
      by (auto simp: image_iff)
    then have "update_where q f t = t" by (rule update_where_none)
    with True Cons.prems show ?thesis by auto
  next
    case False
    with Cons.prems have "\<not> q a" by (auto simp: image_iff)
    with False Cons show ?thesis by auto
  qed
qed simp

lemma group_sum_replace:
  assumes "distinct (map key t)" and "r \<in> set t" and "key r' = key r"
  shows "group_sum p amt (update_where (\<lambda>x. key x = key r') (\<lambda>_. r') t)
    = group_sum p amt t + (if p r' then amt r' else 0) - (if p r then amt r else 0)"
  using assms
proof (induction t)
  case (Cons a t)
  show ?case
  proof (cases "a = r")
    case True
    with Cons.prems have "\<And>x. x \<in> set t \<Longrightarrow> key x \<noteq> key r'" by (auto simp: image_iff)
    then have "update_where (\<lambda>x. key x = key r') (\<lambda>_. r') t = t" by (rule update_where_none)
    with True Cons.prems show ?thesis by simp
  next
    case False
    with Cons.prems have "key a \<noteq> key r'" by (auto simp: image_iff)
    with False Cons show ?thesis by simp
  qed
qed simp

lemma find_key_unique:
  assumes "distinct (map key t)" and "r \<in> set t"
  shows "find (\<lambda>x. key x = key r) t = Some r"
  using assms by (induction t) (auto simp: image_iff)

lemma find_Some_mem: "find p t = Some r \<Longrightarrow> r \<in> set t \<and> p r"
  by (induction t) (auto split: if_splits)

lemma find_None_iff': "find p t = None \<longleftrightarrow> (\<forall>r\<in>set t. \<not> p r)"
  by (induction t) auto

lemma find_update_where:
  assumes "\<And>r. q (f r) = q r"
  shows "find q (update_where p f t) = map_option (\<lambda>r. if p r then f r else r) (find q t)"
  using assms by (induction t) auto

lemma find_update_where':
  assumes "\<And>r. p r \<Longrightarrow> q (f r) = q r"
  shows "find q (update_where p f t) = map_option (\<lambda>r. if p r then f r else r) (find q t)"
  using assms by (induction t) auto

lemma find_append: "find p (t @ u) = (case find p t of None \<Rightarrow> find p u | Some r \<Rightarrow> Some r)"
  by (induction t) auto

text \<open>Lookup by key as a map: a replaced row and an appended row update it at their key.\<close>

lemma find_key_replaced:
  assumes "find (\<lambda>x. key x = key r') t \<noteq> None"
  shows "(\<lambda>i. find (\<lambda>x. key x = i) (update_where (\<lambda>x. key x = key r') (\<lambda>_. r') t))
    = (\<lambda>i. find (\<lambda>x. key x = i) t)(key r' \<mapsto> r')"
proof
  fix i
  show "find (\<lambda>x. key x = i) (update_where (\<lambda>x. key x = key r') (\<lambda>_. r') t)
    = ((\<lambda>i. find (\<lambda>x. key x = i) t)(key r' \<mapsto> r')) i"
    using assms find_update_where'[of "\<lambda>x. key x = key r'" "\<lambda>x. key x = i" "\<lambda>_. r'" t]
    by (cases "find (\<lambda>x. key x = i) t") (auto dest: find_Some_mem)
qed

lemma find_key_appended:
  assumes "key r \<notin> key ` set t"
  shows "(\<lambda>i. find (\<lambda>x. key x = i) (t @ [r])) = (\<lambda>i. find (\<lambda>x. key x = i) t)(key r \<mapsto> r)"
proof
  fix i
  show "find (\<lambda>x. key x = i) (t @ [r]) = ((\<lambda>i. find (\<lambda>x. key x = i) t)(key r \<mapsto> r)) i"
    using assms by (induction t) auto
qed

lemma filter_update_where:
  assumes "\<And>r. r \<in> set t \<Longrightarrow> p r \<Longrightarrow> q (f r) = q r"
  shows "filter q (update_where p f t) = update_where p f (filter q t)"
  using assms by (induction t) auto

lemma kept_row: "r \<in> set t \<Longrightarrow> \<not> p r \<Longrightarrow> r \<in> set (update_where p f t)"
  by (force simp: set_update_where)

text \<open>The row with the key of \<open>r'\<close> is replaced: where it is, what stays, what can be found.\<close>

lemma replaced_rows:
  assumes "distinct (map key t)" and "r \<in> set t" and "key r' = key r"
    and "x \<in> set (update_where (\<lambda>y. key y = key r') (\<lambda>_. r') t)"
  shows "x = r' \<or> x \<in> set t \<and> key x \<noteq> key r"
  using assms by (auto simp: set_update_where)

lemma replaced_map:
  assumes "distinct (map key t)" and "r \<in> set t" and "key r' = key r" and "g r' = g r"
  shows "map g (update_where (\<lambda>y. key y = key r') (\<lambda>_. r') t) = map g t"
proof -
  have "x = r" if "x \<in> set t" "key x = key r'" for x
    using assms(1-3) that by (metis distinct_map inj_onD)
  with assms(4) show ?thesis by (auto simp: update_where_def)
qed

lemma replaced_last:
  assumes "distinct (map key (xs @ [r]))" and "key r' = key r"
  shows "update_where (\<lambda>y. key y = key r') (\<lambda>_. r') (xs @ [r]) = xs @ [r']"
  using assms by (induction xs) auto

lemma filter_unique:
  assumes "distinct t" and "r \<in> set t" and "p r" and "\<And>x. x \<in> set t \<Longrightarrow> p x \<Longrightarrow> x = r"
  shows "filter p t = [r]"
proof -
  have "set (filter p t) \<subseteq> {r}"
  proof
    fix x assume "x \<in> set (filter p t)"
    with assms(4)[of x] show "x \<in> {r}" by simp
  qed
  moreover have "r \<in> set (filter p t)" using assms(2,3) by simp
  ultimately have "set (filter p t) = {r}" by (simp add: subset_singleton_iff) blast
  moreover have "distinct (filter p t)" using assms(1) by simp
  moreover have "xs = [r]" if "set xs = {r}" "distinct xs" for xs
  proof (cases xs)
    case (Cons a ys)
    with that have "a = r" "set ys \<subseteq> {r}" "a \<notin> set ys" by auto
    then have "set ys = {}" by (auto simp: subset_singleton_iff)
    with Cons \<open>a = r\<close> show ?thesis by simp
  qed (use that in simp)
  ultimately show ?thesis by blast
qed

section \<open>Python string helpers\<close>

text \<open>Splitting at a separator, as the dotted keys of the program are read.\<close>

fun split_on :: "char \<Rightarrow> string \<Rightarrow> string list" where
  "split_on c [] = [[]]"
| "split_on c (x # xs) =
     (if x = c then [] # split_on c xs
      else (case split_on c xs of [] \<Rightarrow> [[x]] | s # ss \<Rightarrow> (x # s) # ss))"

definition lower_char :: "char \<Rightarrow> bool" where
  "lower_char c \<longleftrightarrow> 97 \<le> (of_char c :: nat) \<and> (of_char c :: nat) \<le> 122"

definition digit_char :: "char \<Rightarrow> bool" where
  "digit_char c \<longleftrightarrow> 48 \<le> (of_char c :: nat) \<and> (of_char c :: nat) \<le> 57"

definition key_char :: "char \<Rightarrow> bool" where
  "key_char c \<longleftrightarrow> lower_char c \<or> digit_char c \<or> c = CHR ''_''"

text \<open>
  \<^verbatim>\<open>[..]+(\.[..]+)+\<close>: at least two nonempty dot-separated segments over the given
  characters. \<^verbatim>\<open>re.match\<close> with a final \<^verbatim>\<open>$\<close> also accepts one trailing newline.
\<close>

definition dotted :: "(char \<Rightarrow> bool) \<Rightarrow> string \<Rightarrow> bool" where
  "dotted ok s = (let segs = split_on CHR ''.'' s in
     2 \<le> length segs \<and> list_all (\<lambda>seg. seg \<noteq> [] \<and> list_all ok seg) segs)"

definition re_match_dollar :: "(string \<Rightarrow> bool) \<Rightarrow> string \<Rightarrow> bool" where
  "re_match_dollar p s \<longleftrightarrow> p s \<or> (s \<noteq> [] \<and> last s = CHR 0x0A \<and> p (butlast s))"

text \<open>Lower-case words joined by single underscores: \<^verbatim>\<open>^[a-z0-9]+(?:_[a-z0-9]+)*$\<close>.\<close>

definition snake_key :: "string \<Rightarrow> bool" where
  "snake_key s = list_all (\<lambda>seg. seg \<noteq> [] \<and> list_all (\<lambda>c. lower_char c \<or> digit_char c) seg)
     (split_on CHR ''_'' s)"

text \<open>Decimal rendering; a row id printed into a string key.\<close>

fun show_nat :: "nat \<Rightarrow> string" where
  "show_nat n = (if n < 10 then [char_of (48 + n)] else show_nat (n div 10) @ [char_of (48 + n mod 10)])"

declare show_nat.simps [simp del]

text \<open>Reading the digits back; so equal renderings are renderings of the same id.\<close>

definition read_nat :: "string \<Rightarrow> nat" where
  "read_nat s = foldl (\<lambda>n c. 10 * n + (of_char c - 48)) 0 s"

lemma read_show_nat [simp]: "read_nat (show_nat n) = n"
proof (induction n rule: show_nat.induct)
  case (1 n)
  show ?case
  proof (cases "n < 10")
    case True
    then show ?thesis by (simp add: show_nat.simps[of n] read_nat_def)
  next
    case False
    have "read_nat (show_nat n) = 10 * read_nat (show_nat (n div 10)) + n mod 10"
      using False by (simp add: show_nat.simps[of n] read_nat_def)
    with 1[OF False] show ?thesis by simp
  qed
qed

lemma show_nat_inject [simp]: "show_nat m = show_nat n \<longleftrightarrow> m = n"
  by (metis read_show_nat)

lemma digits_show_nat [simp]: "show_nat n \<noteq> []" "list_all digit_char (show_nat n)"
proof (induction n rule: show_nat.induct)
  case (1 n)
  have d: "digit_char (char_of (48 + m :: nat))" if "m < 10" for m
    using that by (simp add: digit_char_def)
  { case 1 show ?case by (simp add: show_nat.simps[of n]) }
  { case 2
    from 1 d[of n] d[of "n mod 10"] show ?case by (cases "n < 10") (simp_all add: show_nat.simps[of n]) }
qed

text \<open>
  \<^verbatim>\<open>uuid.UUID(text)\<close>: an id is a number and its canonical text the numeral; a text that is no
  numeral raises \<^verbatim>\<open>ValueError\<close> (\<open>None\<close>), a numeral that is not canonical names the same id.
\<close>

definition read_id :: "string \<Rightarrow> nat option" where
  "read_id s = (if s \<noteq> [] \<and> list_all digit_char s then Some (read_nat s) else None)"

lemma read_id_show_nat [simp]: "read_id (show_nat n) = Some n"
  by (simp add: read_id_def)

definition show_int :: "int \<Rightarrow> string" where
  "show_int i = (if i < 0 then CHR ''-'' # show_nat (nat (- i)) else show_nat (nat i))"

text \<open>Ids and optional texts as JSON values.\<close>

definition id_json :: "nat \<Rightarrow> json" where
  "id_json i = JStr (show_nat i)"

definition opt_json :: "string option \<Rightarrow> json" where
  "opt_json s = (case s of None \<Rightarrow> JNull | Some x \<Rightarrow> JStr x)"

definition py_truthy :: "string option \<Rightarrow> bool" where
  "py_truthy v = (case v of None \<Rightarrow> False | Some s \<Rightarrow> s \<noteq> [])"

end
