(* ===== verification/Kernel_Errors.thy ===== *)
theory Kernel_Errors
  imports Prelude Complex_Main
begin

text \<open>
  Structured errors (\<^verbatim>\<open>inc/kernel/errors/__init__.py\<close>) and the retry policy shared by the
  outbox dispatcher, the workflow runner and the task worker
  (\<^verbatim>\<open>inc/kernel/workflow/spec.py\<close>). An exception is a \<open>KernelError\<close> with its stable code and
  category, or any other Python exception by class name. Messages, details and correlation
  ids are not modelled: no code path branches on them.
\<close>

section \<open>Errors\<close>

datatype error_category =
    VALIDATION | CONFLICT | NOT_FOUND | UNAUTHORIZED | FORBIDDEN
  | RATE_LIMITED | DEPENDENCY_UNAVAILABLE | INTERNAL

datatype retry_category =
    Retry_TRANSIENT | Retry_RATE_LIMITED | Retry_CONFLICT | Retry_PERMANENT | Retry_CANCELLED

datatype exn =
    KernelError (err_code: string) (err_category: error_category)
  | PyException (exn_class: string)

text \<open>\<^verbatim>\<open>_CATEGORY_TO_RETRY\<close> as a dictionary from category to retry category.\<close>

fun category_to_retry :: "error_category \<Rightarrow> retry_category" where
  "category_to_retry VALIDATION = Retry_PERMANENT"
| "category_to_retry CONFLICT = Retry_CONFLICT"
| "category_to_retry NOT_FOUND = Retry_PERMANENT"
| "category_to_retry UNAUTHORIZED = Retry_PERMANENT"
| "category_to_retry FORBIDDEN = Retry_PERMANENT"
| "category_to_retry RATE_LIMITED = Retry_RATE_LIMITED"
| "category_to_retry DEPENDENCY_UNAVAILABLE = Retry_TRANSIENT"
| "category_to_retry INTERNAL = Retry_TRANSIENT"

definition classify_retry :: "exn \<Rightarrow> retry_category" where
  "classify_retry e = (case e of
     KernelError _ cat \<Rightarrow> category_to_retry cat
   | PyException _ \<Rightarrow> Retry_TRANSIENT)"

text \<open>\<^verbatim>\<open>_ERROR_CODE.match\<close>: \<^verbatim>\<open>^[a-z0-9_]+(\.[a-z0-9_]+)+$\<close>.\<close>

definition validate_error_code :: "string \<Rightarrow> exn + unit" where
  "validate_error_code c =
     requireE (re_match_dollar (dotted key_char) c) (PyException ''ValueError'')"

text \<open>The constructor of \<open>KernelError\<close> raises \<open>ValueError\<close> for a code of the wrong shape.\<close>

definition make_kernel_error :: "string \<Rightarrow> error_category \<Rightarrow> exn" where
  "make_kernel_error c cat =
     (case validate_error_code c of Inl e \<Rightarrow> e | Inr _ \<Rightarrow> KernelError c cat)"

lemma classify_retry_permanent_iff:
  "classify_retry e = Retry_PERMANENT \<longleftrightarrow>
     (\<exists>c cat. e = KernelError c cat
       \<and> (cat = VALIDATION \<or> cat = NOT_FOUND \<or> cat = UNAUTHORIZED \<or> cat = FORBIDDEN))"
  by (cases e; cases "err_category e") (auto simp: classify_retry_def)

lemma classify_retry_never_cancelled: "classify_retry e \<noteq> Retry_CANCELLED"
  by (cases e; cases "err_category e") (auto simp: classify_retry_def)

section \<open>Retry policy\<close>

text \<open>
  Delays are seconds; Python's floats are taken as exact rationals. The jitter is drawn by
  \<^verbatim>\<open>random.uniform(0, jitter_seconds)\<close>: the model takes the draw as a fraction in [0,1].
\<close>

record retry_policy =
  max_attempts :: int
  base_delay_seconds :: rat
  max_delay_seconds :: rat
  factor :: rat
  jitter_seconds :: rat
  permanent_categories :: "retry_category list"

definition default_retry_policy :: retry_policy where
  "default_retry_policy = \<lparr>max_attempts = 5, base_delay_seconds = 1, max_delay_seconds = 300,
     factor = 2, jitter_seconds = 1 / 10,
     permanent_categories = [Retry_PERMANENT, Retry_CANCELLED]\<rparr>"

definition should_retry :: "retry_policy \<Rightarrow> retry_category \<Rightarrow> int \<Rightarrow> bool" where
  "should_retry p cat attempts =
     (if List.member (permanent_categories p) cat then False else attempts < max_attempts p)"

definition next_attempt_delay :: "retry_policy \<Rightarrow> retry_category \<Rightarrow> int \<Rightarrow> rat \<Rightarrow> rat" where
  "next_attempt_delay p cat attempts draw =
     (let base = (if cat = Retry_RATE_LIMITED then base_delay_seconds p * 4
                  else base_delay_seconds p);
          delay = min (base * factor p ^ nat (max 0 (attempts - 1))) (max_delay_seconds p)
      in if 0 < jitter_seconds p then delay + draw * jitter_seconds p else delay)"

text \<open>\<^verbatim>\<open>timedelta(seconds=x)\<close> rounds half to even at the microsecond.\<close>

definition timedelta_us :: "rat \<Rightarrow> time" where
  "timedelta_us x = (let y = x * 1000000; f = \<lfloor>y\<rfloor>; r = y - of_int f in
     if r < 1 / 2 then f else if 1 / 2 < r then f + 1 else if even f then f else f + 1)"

definition policy_wf :: "retry_policy \<Rightarrow> bool" where
  "policy_wf p \<longleftrightarrow> 0 \<le> base_delay_seconds p \<and> 0 \<le> max_delay_seconds p \<and> 0 \<le> factor p
     \<and> 0 \<le> jitter_seconds p"

lemma next_attempt_delay_bounds:
  assumes "policy_wf p" and "0 \<le> u" and "u \<le> 1"
  shows "0 \<le> next_attempt_delay p cat n u"
    and "next_attempt_delay p cat n u \<le> max_delay_seconds p + jitter_seconds p"
proof -
  have "0 \<le> (if cat = Retry_RATE_LIMITED then base_delay_seconds p * 4 else base_delay_seconds p)
      * factor p ^ nat (max 0 (n - 1))"
    using assms(1) by (simp add: policy_wf_def)
  moreover have "0 \<le> u * jitter_seconds p" and "u * jitter_seconds p \<le> jitter_seconds p"
    using assms by (simp_all add: policy_wf_def mult_left_le_one_le)
  ultimately show "0 \<le> next_attempt_delay p cat n u"
    and "next_attempt_delay p cat n u \<le> max_delay_seconds p + jitter_seconds p"
    using assms(1) by (auto simp: next_attempt_delay_def Let_def policy_wf_def min_def)
qed

lemma timedelta_us_nonneg: "0 \<le> x \<Longrightarrow> 0 \<le> timedelta_us x"
  by (auto simp: timedelta_us_def Let_def)

lemma should_retry_bounded: "should_retry p cat n \<Longrightarrow> n < max_attempts p"
  by (simp add: should_retry_def split: if_splits)

lemma should_retry_permanent: "cat \<in> set (permanent_categories p) \<Longrightarrow> \<not> should_retry p cat n"
  by (simp add: should_retry_def)

end
