(* ===== verification/Kernel_Registry.thy ===== *)
theory Kernel_Registry
  imports Kernel_Errors "HOL-Library.List_Lexorder" "HOL-Library.Char_ord"
begin

text \<open>
  Registries: a key is registered once before boot, the registry is frozen, and from then on
  it only answers lookups. The contract is the locale \<open>frozen_registry\<close>; this theory
  interprets it on the kernel's event, task and cron registries
  (\<^verbatim>\<open>inc/kernel/events/registry.py\<close>, \<^verbatim>\<open>inc/kernel/tasks/registry.py\<close>); the registries of the
  workflow runtime, of points and of membership interpret it in their own theories.
\<close>

section \<open>The contract\<close>

text \<open>A boot sequence: registrations in order, stopping at the first exception.\<close>

fun register_all ::
    "('k \<Rightarrow> 's \<Rightarrow> 'reg \<Rightarrow> exn + 'reg) \<Rightarrow> ('k \<times> 's) list \<Rightarrow> 'reg \<Rightarrow> exn + 'reg" where
  "register_all reg [] r = Inr r"
| "register_all reg ((k, s) # xs) r = bindE (reg k s r) (register_all reg xs)"

locale frozen_registry =
  fixes register :: "'k \<Rightarrow> 's \<Rightarrow> 'reg \<Rightarrow> exn + 'reg"
    and lookup :: "'reg \<Rightarrow> 'k \<Rightarrow> 's option"
    and is_frozen :: "'reg \<Rightarrow> bool"
    and freeze :: "'reg \<Rightarrow> 'reg"
  assumes register_unfrozen: "register k s r = Inr r' \<Longrightarrow> \<not> is_frozen r"
    and register_unused: "register k s r = Inr r' \<Longrightarrow> lookup r k = None"
    and register_lookup: "register k s r = Inr r' \<Longrightarrow> lookup r' = (lookup r)(k \<mapsto> s)"
    and freeze_frozen: "is_frozen (freeze r)"
    and freeze_lookup: "lookup (freeze r) = lookup r"
begin

lemma register_fresh: "register k s r = Inr r' \<Longrightarrow> lookup r k = None \<and> \<not> is_frozen r"
  by (simp add: register_unfrozen register_unused)

text \<open>A key, once registered, keeps its value through the rest of the boot sequence.\<close>

lemma register_all_stable:
  "register_all register xs r = Inr r' \<Longrightarrow> lookup r k = Some s \<Longrightarrow> lookup r' k = Some s"
proof (induction xs arbitrary: r)
  case (Cons x xs)
  obtain k' s' where x: "x = (k', s')" by (cases x)
  with Cons.prems obtain r1 where r1: "register k' s' r = Inr r1"
    and rest: "register_all register xs r1 = Inr r'"
    by (auto simp: cmd_ok)
  from register_fresh[OF r1] Cons.prems(2) have "k \<noteq> k'" by auto
  with register_lookup[OF r1] Cons.prems(2) have "lookup r1 k = Some s" by simp
  with Cons.IH[OF rest] show ?case by simp
qed simp

text \<open>A boot sequence that succeeds registered every declaration, each key once.\<close>

lemma register_all_complete:
  "register_all register xs r = Inr r' \<Longrightarrow> (k, s) \<in> set xs \<Longrightarrow> lookup r' k = Some s"
proof (induction xs arbitrary: r)
  case (Cons x xs)
  obtain k' s' where x: "x = (k', s')" by (cases x)
  with Cons.prems obtain r1 where r1: "register k' s' r = Inr r1"
    and rest: "register_all register xs r1 = Inr r'"
    by (auto simp: cmd_ok)
  show ?case
  proof (cases "(k, s) \<in> set xs")
    case True
    with Cons.IH[OF rest] show ?thesis by simp
  next
    case False
    with Cons.prems(2) x have "k = k'" "s = s'" by auto
    with register_lookup[OF r1] have "lookup r1 k = Some s" by simp
    then show ?thesis by (rule register_all_stable[OF rest])
  qed
qed simp

lemma register_all_absent:
  "register_all register xs r = Inr r' \<Longrightarrow> k \<in> fst ` set xs \<Longrightarrow> lookup r k = None"
proof (induction xs arbitrary: r)
  case (Cons x xs)
  obtain k' s' where x: "x = (k', s')" by (cases x)
  with Cons.prems obtain r1 where r1: "register k' s' r = Inr r1"
    and rest: "register_all register xs r1 = Inr r'"
    by (auto simp: cmd_ok)
  show ?case
  proof (cases "k = k'")
    case True
    with register_fresh[OF r1] show ?thesis by simp
  next
    case False
    with Cons.prems(2) x have "k \<in> fst ` set xs" by auto
    with Cons.IH[OF rest] have "lookup r1 k = None" by simp
    with register_lookup[OF r1] False show ?thesis by simp
  qed
qed simp

lemma register_all_distinct: "register_all register xs r = Inr r' \<Longrightarrow> distinct (map fst xs)"
proof (induction xs arbitrary: r)
  case (Cons x xs)
  obtain k s where x: "x = (k, s)" by (cases x)
  with Cons.prems obtain r1 where r1: "register k s r = Inr r1"
    and rest: "register_all register xs r1 = Inr r'"
    by (auto simp: cmd_ok)
  from register_lookup[OF r1] have "lookup r1 k = Some s" by simp
  with register_all_absent[OF rest, of k] have "k \<notin> fst ` set xs" by auto
  with Cons.IH[OF rest] x show ?case by simp
qed simp

lemma register_all_after_freeze:
  "xs \<noteq> [] \<Longrightarrow> register_all register xs (freeze r) \<noteq> Inr r'"
  using register_unfrozen freeze_frozen[of r] by (cases xs) (auto simp: cmd_ok)

end

section \<open>The dictionary registry\<close>

text \<open>\<^verbatim>\<open>self._specs\<close> / \<^verbatim>\<open>self._schemas\<close> and \<^verbatim>\<open>self._frozen\<close>.\<close>

record 's registry =
  reg_items :: "(string \<times> 's) list"
  reg_frozen :: bool

definition empty_registry :: "'s registry" where
  "empty_registry = \<lparr>reg_items = [], reg_frozen = False\<rparr>"

definition registry_lookup :: "'s registry \<Rightarrow> string \<Rightarrow> 's option" where
  "registry_lookup r k = dget (reg_items r) k"

definition registry_freeze :: "'s registry \<Rightarrow> 's registry" where
  "registry_freeze r = r\<lparr>reg_frozen := True\<rparr>"

definition registry_store :: "string \<Rightarrow> 's \<Rightarrow> 's registry \<Rightarrow> 's registry" where
  "registry_store k s r = r\<lparr>reg_items := dset k s (reg_items r)\<rparr>"

lemma registry_lookup_store [simp]:
  "registry_lookup (registry_store k s r) = (registry_lookup r)(k \<mapsto> s)"
  by (auto simp: registry_lookup_def registry_store_def)

lemma registry_lookup_freeze [simp]: "registry_lookup (registry_freeze r) = registry_lookup r"
  by (simp add: registry_lookup_def registry_freeze_def fun_eq_iff)

lemma reg_frozen_freeze [simp]: "reg_frozen (registry_freeze r)"
  by (simp add: registry_freeze_def)

definition frozen_error :: exn where
  "frozen_error = KernelError ''kernel.registry_frozen'' INTERNAL"

definition duplicate_error :: exn where
  "duplicate_error = KernelError ''kernel.registry_duplicate'' INTERNAL"

section \<open>Event schemas and handlers\<close>

text \<open>\<^verbatim>\<open>^[a-z0-9_]+(\.[a-z0-9_]+)+\.v\d+$\<close>: three segments at least, the last a version.\<close>

definition event_key_shape :: "string \<Rightarrow> bool" where
  "event_key_shape s = (let segs = split_on CHR ''.'' s; v = last segs in
     dotted key_char s \<and> 3 \<le> length segs \<and> 2 \<le> length v \<and> hd v = CHR ''v''
     \<and> list_all digit_char (tl v))"

definition validate_event_key :: "string \<Rightarrow> exn + unit" where
  "validate_event_key k = requireE (re_match_dollar event_key_shape k) (PyException ''ValueError'')"

definition schema_register :: "string \<Rightarrow> 's \<Rightarrow> 's registry \<Rightarrow> exn + 's registry" where
  "schema_register k s r =
     bindE (requireE (\<not> reg_frozen r) frozen_error) (\<lambda>_.
     bindE (validate_event_key k) (\<lambda>_.
     bindE (requireE (registry_lookup r k = None) duplicate_error) (\<lambda>_.
     Inr (registry_store k s r))))"

text \<open>
  \<^verbatim>\<open>validate_payload\<close>: unknown keys raise; a known key runs its Pydantic schema, which is a
  function from the payload to its validation result.
\<close>

definition validate_payload ::
    "(dict \<Rightarrow> exn + unit) registry \<Rightarrow> string \<Rightarrow> dict \<Rightarrow> exn + unit" where
  "validate_payload r k payload =
     bindE (someE (registry_lookup r k) (KernelError ''kernel.event_unknown_schema'' INTERNAL))
       (\<lambda>schema. schema payload)"

interpretation schemas: frozen_registry schema_register registry_lookup reg_frozen registry_freeze
  by unfold_locales (auto simp: schema_register_def cmd_ok)

text \<open>
  A handler registry keeps the ordered handlers of each event key; a handler is identified by
  its own key. Its lookup is by event key and handler key.
\<close>

type_synonym 'h handler_registry = "(string \<times> 'h) list registry"

definition handlers_for :: "'h handler_registry \<Rightarrow> string \<Rightarrow> (string \<times> 'h) list" where
  "handlers_for r k = (case registry_lookup r k of None \<Rightarrow> [] | Some hs \<Rightarrow> hs)"

definition handler_register ::
    "string \<Rightarrow> string \<Rightarrow> 'h \<Rightarrow> 'h handler_registry \<Rightarrow> exn + 'h handler_registry" where
  "handler_register k hkey h r =
     bindE (requireE (\<not> reg_frozen r) frozen_error) (\<lambda>_.
     bindE (validate_event_key k) (\<lambda>_.
     bindE (requireE (\<not> list_ex (\<lambda>x. fst x = hkey) (handlers_for r k)) duplicate_error) (\<lambda>_.
     Inr (registry_store k (handlers_for r k @ [(hkey, h)]) r))))"

definition handler_lookup :: "'h handler_registry \<Rightarrow> string \<times> string \<Rightarrow> 'h option" where
  "handler_lookup r kk = map_of (handlers_for r (fst kk)) (snd kk)"

lemma handlers_for_store [simp]:
  "handlers_for (registry_store k hs r) k' = (if k' = k then hs else handlers_for r k')"
  by (simp add: handlers_for_def)

interpretation handlers: frozen_registry
  "\<lambda>kk h. handler_register (fst kk) (snd kk) h" handler_lookup reg_frozen registry_freeze
proof (unfold_locales, goal_cases)
  case (2 k s r r')
  then show ?case
    by (auto simp: handler_register_def handler_lookup_def cmd_ok list_ex_iff map_of_eq_None_iff)
next
  case (3 k s r r')
  then have r': "r' = registry_store (fst k) (handlers_for r (fst k) @ [(snd k, s)]) r"
    and new: "\<not> list_ex (\<lambda>x. fst x = snd k) (handlers_for r (fst k))"
    by (auto simp: handler_register_def cmd_ok)
  show ?case
  proof
    fix kk
    show "handler_lookup r' kk = ((handler_lookup r)(k \<mapsto> s)) kk"
    proof (cases "kk = k")
      case True
      from new have "map_of (handlers_for r (fst k)) (snd k) = None"
        by (auto simp: list_ex_iff map_of_eq_None_iff)
      with True r' show ?thesis by (simp add: handler_lookup_def map_add_def)
    next
      case False
      with r' show ?thesis
        by (cases kk; cases k) (auto simp: handler_lookup_def map_add_def split: option.splits)
    qed
  qed
qed (auto simp: handler_register_def handler_lookup_def handlers_for_def cmd_ok)

section \<open>Tasks and cron\<close>

text \<open>\<^verbatim>\<open>^[a-z0-9]+(\.[a-z0-9]+)+$\<close>: no underscore in a task key.\<close>

definition task_key_char :: "char \<Rightarrow> bool" where
  "task_key_char c \<longleftrightarrow> lower_char c \<or> digit_char c"

definition validate_task_key :: "string \<Rightarrow> exn + unit" where
  "validate_task_key k =
     requireE (re_match_dollar (dotted task_key_char) k) (PyException ''ValueError'')"

definition task_register :: "string \<Rightarrow> 's \<Rightarrow> 's registry \<Rightarrow> exn + 's registry" where
  "task_register k s r =
     bindE (requireE (\<not> reg_frozen r) frozen_error) (\<lambda>_.
     bindE (validate_task_key k) (\<lambda>_.
     bindE (requireE (registry_lookup r k = None) duplicate_error) (\<lambda>_.
     Inr (registry_store k s r))))"

definition task_require :: "'s registry \<Rightarrow> string \<Rightarrow> exn + 's" where
  "task_require r k = someE (registry_lookup r k) (KernelError ''kernel.task_unknown'' INTERNAL)"

definition cron_register :: "string \<Rightarrow> 's \<Rightarrow> 's registry \<Rightarrow> exn + 's registry" where
  "cron_register k s r =
     bindE (requireE (\<not> reg_frozen r) frozen_error) (\<lambda>_.
     bindE (validate_task_key k) (\<lambda>_.
     bindE (requireE (registry_lookup r k = None) duplicate_error) (\<lambda>_.
     Inr (registry_store k s r))))"

interpretation tasks: frozen_registry task_register registry_lookup reg_frozen registry_freeze
  by unfold_locales (auto simp: task_register_def cmd_ok)

interpretation crons: frozen_registry cron_register registry_lookup reg_frozen registry_freeze
  by unfold_locales (auto simp: cron_register_def cmd_ok)

lemma task_key_shape_rejects_underscore:
  "task_register ''business_center.consume'' s r \<noteq> Inr r'"
  by (simp add: task_register_def validate_task_key_def re_match_dollar_def dotted_def
      task_key_char_def lower_char_def digit_char_def bindE_def requireE_def)

end
