(* ===== verification/Kernel_Lease.thy ===== *)
theory Kernel_Lease
  imports Kernel_Registry "HOL-Library.Option_ord"
begin

text \<open>
  Lease-based claiming. Outbox messages, tasks and workflow instances are claimed in the same
  way: select the ids of due rows in order, update those that are still due with an owner and
  an expiry, select the rows back. The contract a runtime relies on is the locale
  \<open>lease_queue\<close>; \<open>claim_with\<close> is the shared shape of the three \<^verbatim>\<open>claim_due\<close> methods.
\<close>

section \<open>The contract\<close>

locale lease_queue =
  fixes rid :: "'r \<Rightarrow> nat"
    and due :: "time \<Rightarrow> 'r \<Rightarrow> bool"
    and expires :: "'r \<Rightarrow> time option"
    and claim :: "nat \<Rightarrow> string \<Rightarrow> int \<Rightarrow> time \<Rightarrow> 'r list \<Rightarrow> 'r list \<times> 'r list"
  assumes due_unleased: "due now r \<Longrightarrow> expires r = Some e \<Longrightarrow> e < now"
    and claim_ids: "map rid (snd (claim n ow l now t)) = map rid t"
    and claim_was_due: "distinct (map rid t) \<Longrightarrow> r \<in> set (fst (claim n ow l now t)) \<Longrightarrow>
        \<exists>r0\<in>set t. rid r0 = rid r \<and> due now r0"
    and claim_leased: "distinct (map rid t) \<Longrightarrow> r \<in> set (fst (claim n ow l now t)) \<Longrightarrow>
        r \<in> set (snd (claim n ow l now t)) \<and> expires r = Some (now + seconds l)"
    and claim_frame: "r \<in> set t \<Longrightarrow> rid r \<notin> rid ` set (fst (claim n ow l now t)) \<Longrightarrow>
        distinct (map rid t) \<Longrightarrow> r \<in> set (snd (claim n ow l now t))"
    and claim_batch: "distinct (map rid t) \<Longrightarrow> length (fst (claim n ow l now t)) \<le> n"
    and claim_complete: "distinct (map rid t) \<Longrightarrow> length (filter (due now) t) \<le> n \<Longrightarrow>
        r0 \<in> set t \<Longrightarrow> due now r0 \<Longrightarrow> rid r0 \<in> rid ` set (fst (claim n ow l now t))"
begin

text \<open>Two claims within the lease of the first never hand out the same row.\<close>

lemma claims_disjoint:
  assumes t: "distinct (map rid t)"
    and c1: "claim n1 w1 l1 now1 t = (rows1, t1)"
    and c2: "claim n2 w2 l2 now2 t1 = (rows2, t2)"
    and lease: "now2 \<le> now1 + seconds l1"
  shows "rid ` set rows1 \<inter> rid ` set rows2 = {}"
proof (rule ccontr)
  assume "rid ` set rows1 \<inter> rid ` set rows2 \<noteq> {}"
  then obtain r1 r2 where r: "r1 \<in> set rows1" "r2 \<in> set rows2" "rid r1 = rid r2" by auto
  from claim_ids[of n1 w1 l1 now1 t] c1 t have t1: "distinct (map rid t1)" by simp
  from claim_leased[OF t, of r1 n1 w1 l1 now1] c1 r(1)
  have leased: "r1 \<in> set t1" "expires r1 = Some (now1 + seconds l1)" by simp_all
  from claim_was_due[OF t1, of r2 n2 w2 l2 now2] c2 r(2) obtain r0
    where r0: "r0 \<in> set t1" "rid r0 = rid r2" "due now2 r0" by auto
  from t1 leased(1) r0(1,2) r(3) have "r0 = r1"
    by (metis distinct_map inj_onD)
  with due_unleased[OF r0(3)] leased(2) lease show False by force
qed

lemma claim_distinct: "distinct (map rid t) \<Longrightarrow> distinct (map rid (snd (claim n w l now t)))"
  by (simp add: claim_ids)

end

section \<open>The shared shape of claim_due\<close>

definition select_due_ids ::
    "('r \<Rightarrow> nat) \<Rightarrow> ('r \<Rightarrow> 'k::linorder) \<Rightarrow> ('r \<Rightarrow> bool) \<Rightarrow> nat \<Rightarrow> 'r list \<Rightarrow> nat list" where
  "select_due_ids rid key due n t = map rid (take n (sort_key key (filter due t)))"

text \<open>
  The update and the re-select are separate statements from the first select; another worker
  may run its own update in between.
\<close>

definition claim_selected ::
    "('r \<Rightarrow> nat) \<Rightarrow> ('r \<Rightarrow> bool) \<Rightarrow> ('r \<Rightarrow> 'r) \<Rightarrow> ('r \<Rightarrow> bool) \<Rightarrow> nat list \<Rightarrow> 'r list
      \<Rightarrow> 'r list \<times> 'r list" where
  "claim_selected rid due mark own ids t =
     (if ids = [] then ([], t)
      else let t' = update_where (\<lambda>r. rid r \<in> set ids \<and> due r) mark t
           in (sort_key rid (filter (\<lambda>r. rid r \<in> set ids \<and> own r) t'), t'))"

definition claim_with ::
    "('r \<Rightarrow> nat) \<Rightarrow> ('r \<Rightarrow> 'k::linorder) \<Rightarrow> ('r \<Rightarrow> bool) \<Rightarrow> ('r \<Rightarrow> 'r) \<Rightarrow> ('r \<Rightarrow> bool)
      \<Rightarrow> nat \<Rightarrow> 'r list \<Rightarrow> 'r list \<times> 'r list" where
  "claim_with rid key due mark own n t =
     claim_selected rid due mark own (select_due_ids rid key due n t) t"

lemma select_due_ids_subset: "set (select_due_ids rid key due n t) \<subseteq> rid ` {r \<in> set t. due r}"
  by (auto simp: select_due_ids_def dest: in_set_takeD)

lemma length_select_due_ids: "length (select_due_ids rid key due n t) \<le> n"
  by (simp add: select_due_ids_def)

lemma distinct_select_due_ids:
  assumes "distinct (map rid t)"
  shows "distinct (select_due_ids rid key due n t)"
proof -
  from assms have "distinct (map rid (filter due t))" by (rule distinct_map_filter)
  then have "distinct (map rid (sort_key key (filter due t)))"
    by (simp add: distinct_map)
  then show ?thesis
    by (simp add: select_due_ids_def take_map[symmetric])
qed

lemma select_due_ids_complete:
  "length (filter due t) \<le> n \<Longrightarrow> set (select_due_ids rid key due n t) = rid ` {r \<in> set t. due r}"
  by (simp add: select_due_ids_def)

text \<open>Under distinct ids the selected rows are exactly the due rows with a selected id.\<close>

lemma selected_is_due:
  assumes "distinct (map rid t)" and "r \<in> set t" and "rid r \<in> set (select_due_ids rid key due n t)"
  shows "due r"
proof -
  from assms(3) obtain r' where "r' \<in> set t" "due r'" "rid r' = rid r"
    using select_due_ids_subset[of rid key due n t] by auto
  with assms(1,2) show ?thesis by (metis distinct_map inj_onD)
qed

lemma claim_with_table:
  "snd (claim_with rid key due mark own n t)
     = update_where (\<lambda>r. rid r \<in> set (select_due_ids rid key due n t) \<and> due r) mark t"
  by (auto simp: claim_with_def claim_selected_def Let_def update_where_none)

lemma claim_with_rows:
  "set (fst (claim_with rid key due mark own n t))
     = {r \<in> set (snd (claim_with rid key due mark own n t)).
          rid r \<in> set (select_due_ids rid key due n t) \<and> own r}"
  by (auto simp: claim_with_def claim_selected_def Let_def)

lemma claim_with_length:
  assumes "distinct (map rid t)" and "\<And>r. rid (mark r) = rid r"
  shows "length (fst (claim_with rid key due mark own n t)) \<le> n"
proof -
  let ?ids = "select_due_ids rid key due n t"
  let ?t = "update_where (\<lambda>r. rid r \<in> set ?ids \<and> due r) mark t"
  let ?rows = "filter (\<lambda>r. rid r \<in> set ?ids \<and> own r) ?t"
  have "map rid ?t = map rid t" using assms(2) by (rule map_update_where)
  with assms(1) have "distinct (map rid ?t)" by (simp only:)
  then have "distinct (map rid ?rows)" by (rule distinct_map_filter)
  then have "length ?rows = card (rid ` set ?rows)"
    using distinct_card[of "map rid ?rows"] by (simp only: length_map list.set_map)
  also have "\<dots> \<le> card (set ?ids)" by (rule card_mono) auto
  also have "\<dots> \<le> n"
    by (rule order_trans[OF card_length length_select_due_ids])
  finally show ?thesis by (simp add: claim_with_def claim_selected_def Let_def)
qed

lemma claim_with_row:
  assumes "distinct (map rid t)" and "\<And>r. rid (mark r) = rid r" and "\<And>r. own (mark r)"
  shows "r \<in> set (fst (claim_with rid key due mark own n t)) \<longleftrightarrow>
    (\<exists>r0\<in>set t. r = mark r0 \<and> due r0 \<and> rid r0 \<in> set (select_due_ids rid key due n t))"
  using assms selected_is_due[OF assms(1), of _ key due n]
  by (auto simp: claim_with_rows claim_with_table set_update_where)

text \<open>
  A claim of this shape is a lease queue as soon as marking keeps the id, takes ownership and
  sets the expiry, and a leased row is not due before its lease ran out.
\<close>

lemma claim_with_lease_queue:
  fixes rid :: "'r \<Rightarrow> nat" and key :: "'r \<Rightarrow> 'k::linorder"
  assumes mark_id: "\<And>ow e r. rid (mark ow e r) = rid r"
    and mark_own: "\<And>ow e r. own ow (mark ow e r)"
    and mark_expires: "\<And>ow e r. expires (mark ow e r) = Some e"
    and unleased: "\<And>now r e. due now r \<Longrightarrow> expires r = Some e \<Longrightarrow> e < now"
  shows "lease_queue rid due expires
    (\<lambda>n ow l now t. claim_with rid key (due now) (mark ow (now + seconds l)) (own ow) n t)"
proof (unfold_locales, goal_cases)
  case (2 n ow l now t)
  then show ?case by (simp add: claim_with_table map_update_where mark_id)
next
  case (3 t r n ow l now)
  then show ?case by (auto simp: claim_with_row mark_id mark_own)
next
  case (4 t r n ow l now)
  then obtain r0 where r0: "r0 \<in> set t" "r = mark ow (now + seconds l) r0" "due now r0"
      "rid r0 \<in> set (select_due_ids rid key (due now) n t)"
    by (auto simp: claim_with_row mark_id mark_own)
  then show ?case by (auto simp: claim_with_table set_update_where mark_expires)
next
  case (5 r t n ow l now)
  have "\<not> (rid r \<in> set (select_due_ids rid key (due now) n t) \<and> due now r)"
  proof
    assume "rid r \<in> set (select_due_ids rid key (due now) n t) \<and> due now r"
    with 5(1,3) have "mark ow (now + seconds l) r
        \<in> set (fst (claim_with rid key (due now) (mark ow (now + seconds l)) (own ow) n t))"
      by (auto simp: claim_with_row mark_id mark_own)
    with 5(2) show False by (metis image_eqI mark_id)
  qed
  with 5(1) show ?case by (auto simp: claim_with_table set_update_where)
next
  case (6 t n ow l now)
  then show ?case by (rule claim_with_length) (rule mark_id)
next
  case (7 t now n r0 ow l)
  then have "rid r0 \<in> set (select_due_ids rid key (due now) n t)"
    by (simp add: select_due_ids_complete)
  with 7 have "mark ow (now + seconds l) r0
      \<in> set (fst (claim_with rid key (due now) (mark ow (now + seconds l)) (own ow) n t))"
    by (auto simp: claim_with_row mark_id mark_own)
  then show ?case by (metis image_eqI mark_id)
qed (use unleased in blast)

text \<open>
  Interleaving: both workers selected the same ids before either updated. Once the first has
  claimed, its rows are no longer due, so an owner check on the re-select keeps them apart.
\<close>

lemma claim_selected_exclusive:
  assumes t: "distinct (map rid t)"
    and ids: "\<And>r. rid (mark1 r) = rid r" "\<And>r. rid (mark2 r) = rid r"
    and own: "\<And>r. own1 r \<Longrightarrow> \<not> own2 r" "\<And>r. own1 (mark1 r)"
    and not_due: "\<And>r. \<not> due2 (mark1 r)"
    and due: "\<And>r. r \<in> set t \<Longrightarrow> rid r \<in> set ids1 \<Longrightarrow> due1 r"
    and c1: "claim_selected rid due1 mark1 own1 ids1 t = (rows1, t1)"
    and c2: "claim_selected rid due2 mark2 own2 ids2 t1 = (rows2, t2)"
  shows "rid ` set rows1 \<inter> rid ` set rows2 = {}"
proof (cases "ids1 = [] \<or> ids2 = []")
  case False
  let ?p1 = "\<lambda>r. rid r \<in> set ids1 \<and> due1 r" and ?p2 = "\<lambda>r. rid r \<in> set ids2 \<and> due2 r"
  from False c1 c2 have t1: "t1 = update_where ?p1 mark1 t"
    and rows1: "set rows1 \<subseteq> {r \<in> set t1. rid r \<in> set ids1}"
    and rows2: "set rows2 = {r \<in> set (update_where ?p2 mark2 t1). rid r \<in> set ids2 \<and> own2 r}"
    by (auto simp: claim_selected_def Let_def)
  show ?thesis
  proof (rule ccontr)
    assume "rid ` set rows1 \<inter> rid ` set rows2 \<noteq> {}"
    then obtain r1 r2 where r: "r1 \<in> set rows1" "r2 \<in> set rows2" "rid r1 = rid r2" by auto
    from rows1 r(1) have r1: "r1 \<in> set t1" "rid r1 \<in> set ids1" by auto
    with t1 due ids(1) have "\<exists>x. r1 = mark1 x"
      by (fastforce simp: set_update_where split: if_splits)
    then have leased: "\<not> due2 r1" "own1 r1" using not_due own(2) by auto
    from rows2 r(2) obtain x where x: "x \<in> set t1" "r2 = (if ?p2 x then mark2 x else x)" "own2 r2"
      by (auto simp: set_update_where)
    from x(2) ids(2) have "rid r2 = rid x" by (auto split: if_splits)
    moreover have "distinct (map rid t1)" using t t1 ids(1) by (simp add: map_update_where)
    ultimately have "x = r1" using r(3) r1(1) x(1) by (metis distinct_map inj_onD)
    with x(2,3) leased own(1) show False by (auto split: if_splits)
  qed
qed (use c1 c2 in \<open>auto simp: claim_selected_def\<close>)

end
