(* ===== verification/Kernel_Outbox.thy ===== *)
theory Kernel_Outbox
  imports Kernel_Lease
begin

text \<open>
  The durable outbox (\<^verbatim>\<open>inc/kernel/events/outbox.py\<close>, \<^verbatim>\<open>envelope.py\<close>, \<^verbatim>\<open>models.py\<close>,
  \<^verbatim>\<open>inbox.py\<close>): the writer that appends an envelope inside the caller's transaction, the
  lease-based claim, the conditional status updates, the dispatcher that runs the handlers of
  one claimed message, and the inbox guard that makes a handler idempotent. A handler is a
  parameter: a function from the envelope and the committed world (the outbox table and
  everything else) to a failure, with its text, or a new world.
\<close>

section \<open>Rows\<close>

record envelope =
  ev_id :: nat
  ev_key :: string
  ev_occurred_at :: time
  ev_producer :: string
  ev_aggregate_type :: "string option"
  ev_aggregate_id :: "string option"
  ev_trace_id :: "string option"
  ev_payload :: dict

datatype outbox_status = OB_pending | OB_claimed | OB_delivered | OB_dead

record outbox_message =
  om_id :: nat
  om_event_key :: string
  om_event_id :: nat
  om_envelope :: envelope
  om_status :: outbox_status
  om_attempts :: int
  om_next_attempt_at :: "time option"
  om_lease_owner :: "string option"
  om_lease_expires_at :: "time option"
  om_last_error :: "retry_category option"
  om_error_summary :: "string option"

section \<open>Writer\<close>

text \<open>
  \<^verbatim>\<open>OutboxWriter.append\<close>: validate the payload against its registered schema, then add a
  pending row that is due at once. \<open>mid\<close> is the new row's id.
\<close>

definition new_message :: "nat \<Rightarrow> time \<Rightarrow> envelope \<Rightarrow> outbox_message" where
  "new_message mid now env = \<lparr>om_id = mid, om_event_key = ev_key env, om_event_id = ev_id env,
     om_envelope = env, om_status = OB_pending, om_attempts = 0, om_next_attempt_at = Some now,
     om_lease_owner = None, om_lease_expires_at = None, om_last_error = None,
     om_error_summary = None\<rparr>"

definition outbox_append ::
    "(dict \<Rightarrow> exn + unit) registry \<Rightarrow> nat \<Rightarrow> time \<Rightarrow> envelope \<Rightarrow> outbox_message list
      \<Rightarrow> exn + outbox_message list" where
  "outbox_append schemas mid now env box =
     bindE (validate_payload schemas (ev_key env) (ev_payload env)) (\<lambda>_.
     Inr (box @ [new_message mid now env]))"

section \<open>Repository\<close>

definition outbox_due :: "time \<Rightarrow> outbox_message \<Rightarrow> bool" where
  "outbox_due now m \<longleftrightarrow>
     (om_status m = OB_pending \<or> om_status m = OB_claimed)
     \<and> (case om_next_attempt_at m of None \<Rightarrow> False | Some t \<Rightarrow> t \<le> now)
     \<and> (case om_lease_expires_at m of None \<Rightarrow> True | Some e \<Rightarrow> e < now)"

definition outbox_mark_claimed :: "string \<Rightarrow> time \<Rightarrow> outbox_message \<Rightarrow> outbox_message" where
  "outbox_mark_claimed owner expires_at m =
     m\<lparr>om_status := OB_claimed, om_lease_owner := Some owner,
       om_lease_expires_at := Some expires_at\<rparr>"

text \<open>The two halves of \<open>claim_due\<close>: the select, and the update with the re-select.\<close>

definition outbox_select :: "nat \<Rightarrow> time \<Rightarrow> outbox_message list \<Rightarrow> nat list" where
  "outbox_select batch now box =
     select_due_ids om_id (\<lambda>m. (om_next_attempt_at m, om_id m)) (outbox_due now) batch box"

definition outbox_take ::
    "string \<Rightarrow> int \<Rightarrow> time \<Rightarrow> nat list \<Rightarrow> outbox_message list
      \<Rightarrow> outbox_message list \<times> outbox_message list" where
  "outbox_take owner lease now ids box =
     claim_selected om_id (outbox_due now) (outbox_mark_claimed owner (now + seconds lease))
       (\<lambda>m. om_lease_owner m = Some owner) ids box"

definition outbox_claim_due ::
    "nat \<Rightarrow> string \<Rightarrow> int \<Rightarrow> time \<Rightarrow> outbox_message list
      \<Rightarrow> outbox_message list \<times> outbox_message list" where
  "outbox_claim_due batch owner lease now box =
     outbox_take owner lease now (outbox_select batch now box) box"

text \<open>The three updates apply only to a row that is still claimed by the owner the caller saw.\<close>

definition owned_by :: "outbox_message \<Rightarrow> outbox_message \<Rightarrow> bool" where
  "owned_by message m \<longleftrightarrow> om_id m = om_id message \<and> om_status m = OB_claimed
     \<and> om_lease_owner m = om_lease_owner message"

definition mark_delivered :: "outbox_message \<Rightarrow> outbox_message list \<Rightarrow> outbox_message list" where
  "mark_delivered message = update_where (owned_by message)
     (\<lambda>m. m\<lparr>om_status := OB_delivered, om_lease_owner := None, om_lease_expires_at := None\<rparr>)"

definition mark_retry ::
    "outbox_message \<Rightarrow> time \<Rightarrow> retry_category \<Rightarrow> string \<Rightarrow> outbox_message list
      \<Rightarrow> outbox_message list" where
  "mark_retry message next_at cat summary = update_where (owned_by message)
     (\<lambda>m. m\<lparr>om_status := OB_pending, om_attempts := om_attempts m + 1,
        om_next_attempt_at := Some next_at, om_lease_owner := None,
        om_lease_expires_at := None, om_last_error := Some cat,
        om_error_summary := Some (take 500 summary)\<rparr>)"

definition mark_dead ::
    "outbox_message \<Rightarrow> retry_category \<Rightarrow> string \<Rightarrow> outbox_message list \<Rightarrow> outbox_message list" where
  "mark_dead message cat summary = update_where (owned_by message)
     (\<lambda>m. m\<lparr>om_status := OB_dead, om_attempts := om_attempts m + 1, om_lease_owner := None,
        om_lease_expires_at := None, om_last_error := Some cat,
        om_error_summary := Some (take 500 summary)\<rparr>)"

definition outbox_count_by_status :: "outbox_status \<Rightarrow> outbox_message list \<Rightarrow> nat" where
  "outbox_count_by_status st box = length (filter (\<lambda>m. om_status m = st) box)"

definition outbox_get :: "outbox_message list \<Rightarrow> nat \<Rightarrow> outbox_message option" where
  "outbox_get box i = find (\<lambda>m. om_id m = i) box"

section \<open>Dispatcher\<close>

type_synonym 'w outbox_world = "outbox_message list \<times> 'w"
type_synonym 'w event_handler = "envelope \<Rightarrow> 'w outbox_world \<Rightarrow> (exn \<times> string) + 'w outbox_world"

text \<open>
  Each handler runs in a transaction of its own and commits before the next one starts; the
  first failure stops the loop and leaves what the earlier handlers committed.
\<close>

fun run_handlers ::
    "(string \<times> 'w event_handler) list \<Rightarrow> envelope \<Rightarrow> 'w outbox_world
      \<Rightarrow> (exn \<times> string) option \<times> 'w outbox_world" where
  "run_handlers [] env s = (None, s)"
| "run_handlers ((k, h) # hs) env s =
     (case h env s of Inl f \<Rightarrow> (Some f, s) | Inr s' \<Rightarrow> run_handlers hs env s')"

text \<open>
  \<^verbatim>\<open>fresh = session.get(...)\<close> followed by a mark: reading an attribute of a missing row raises
  \<open>AttributeError\<close>. The result is the exception that escapes, if any, and the committed world.
\<close>

definition with_fresh ::
    "nat \<Rightarrow> (outbox_message \<Rightarrow> outbox_message list \<Rightarrow> outbox_message list) \<Rightarrow> 'w outbox_world
      \<Rightarrow> exn option \<times> 'w outbox_world" where
  "with_fresh i mark s = (case outbox_get (fst s) i of
     None \<Rightarrow> (Some (PyException ''AttributeError''), s)
   | Some fresh \<Rightarrow> (None, (mark fresh (fst s), snd s)))"

record dispatcher =
  dp_schemas :: "(dict \<Rightarrow> exn + unit) registry"
  dp_policy :: retry_policy

definition stale_claim :: "string \<Rightarrow> time \<Rightarrow> outbox_message \<Rightarrow> bool" where
  "stale_claim owner now cur \<longleftrightarrow> om_lease_owner cur \<noteq> Some owner \<or> om_status cur \<noteq> OB_claimed
     \<or> (case om_lease_expires_at cur of None \<Rightarrow> False | Some e \<Rightarrow> e < now)"

definition quarantine ::
    "outbox_message \<Rightarrow> string \<Rightarrow> 'w outbox_world \<Rightarrow> exn option \<times> 'w outbox_world" where
  "quarantine message summary =
     with_fresh (om_id message) (\<lambda>fresh. mark_dead fresh Retry_PERMANENT summary)"

definition settle_failure ::
    "retry_policy \<Rightarrow> outbox_message \<Rightarrow> exn \<times> string \<Rightarrow> time \<Rightarrow> rat \<Rightarrow> 'w outbox_world
      \<Rightarrow> exn option \<times> 'w outbox_world" where
  "settle_failure policy message failure now draw s =
     (let cat = classify_retry (fst failure); attempts = om_attempts message + 1 in
      if \<not> should_retry policy cat attempts
      then with_fresh (om_id message) (\<lambda>fresh. mark_dead fresh cat (snd failure)) s
      else let next_at = now + timedelta_us (next_attempt_delay policy cat attempts draw)
           in with_fresh (om_id message) (\<lambda>fresh. mark_retry fresh next_at cat (snd failure)) s)"

text \<open>
  \<^verbatim>\<open>_process\<close>: \<open>now1\<close> is the clock at the stale-claim check, \<open>now2\<close> after the handlers ran,
  \<open>draw\<close> the jitter draw. \<open>message\<close> is the row as the claim returned it.
\<close>

definition process_message ::
    "dispatcher \<Rightarrow> 'w event_handler handler_registry \<Rightarrow> string \<Rightarrow> time \<Rightarrow> time \<Rightarrow> rat
      \<Rightarrow> outbox_message \<Rightarrow> 'w outbox_world \<Rightarrow> exn option \<times> 'w outbox_world" where
  "process_message dp handlers owner now1 now2 draw message s =
     (case outbox_get (fst s) (om_id message) of
        None \<Rightarrow> (None, s)
      | Some cur \<Rightarrow>
          if stale_claim owner now1 cur then (None, s)
          else if registry_lookup (dp_schemas dp) (om_event_key message) = None
          then quarantine message ''unknown event schema or version'' s
          else (case run_handlers (handlers_for handlers (om_event_key message))
                       (om_envelope message) s of
                  (Some failure, s') \<Rightarrow>
                    settle_failure (dp_policy dp) message failure now2 draw s'
                | (None, s') \<Rightarrow> with_fresh (om_id message) mark_delivered s'))"

text \<open>One cycle: claim, commit, process each claimed message at its own clock readings.\<close>

fun process_all ::
    "dispatcher \<Rightarrow> 'w event_handler handler_registry \<Rightarrow> string
      \<Rightarrow> (outbox_message \<times> time \<times> time \<times> rat) list \<Rightarrow> 'w outbox_world
      \<Rightarrow> exn option \<times> 'w outbox_world" where
  "process_all dp handlers owner [] s = (None, s)"
| "process_all dp handlers owner ((m, now1, now2, draw) # ms) s =
     (case process_message dp handlers owner now1 now2 draw m s of
        (Some e, s') \<Rightarrow> (Some e, s')
      | (None, s') \<Rightarrow> process_all dp handlers owner ms s')"

definition dispatch_cycle ::
    "dispatcher \<Rightarrow> 'w event_handler handler_registry \<Rightarrow> nat \<Rightarrow> string \<Rightarrow> int \<Rightarrow> time
      \<Rightarrow> (nat \<Rightarrow> time \<times> time \<times> rat) \<Rightarrow> 'w outbox_world \<Rightarrow> (exn + nat) \<times> 'w outbox_world" where
  "dispatch_cycle dp handlers batch owner lease now clock s =
     (case outbox_claim_due batch owner lease now (fst s) of
        (messages, box) \<Rightarrow>
          (case process_all dp handlers owner
                  (map (\<lambda>m. (m, clock (om_id m))) messages) (box, snd s) of
             (Some e, s') \<Rightarrow> (Inl e, s')
           | (None, s') \<Rightarrow> (Inr (length messages), s')))"

section \<open>Inbox\<close>

record inbox_receipt =
  ir_handler_key :: string
  ir_event_id :: nat
  ir_processed_at :: time

definition already_processed :: "string \<Rightarrow> nat \<Rightarrow> inbox_receipt list \<Rightarrow> bool" where
  "already_processed hkey eid inbox =
     list_ex (\<lambda>r. ir_handler_key r = hkey \<and> ir_event_id r = eid) inbox"

text \<open>
  \<^verbatim>\<open>InboxGuard.process\<close>: insert the receipt; a collision with the unique
  \<open>(handler_key, event_id)\<close> rolls the transaction back and reports a duplicate; otherwise the
  work runs in the same transaction, so its exception discards the receipt too.
\<close>

definition inbox_process ::
    "string \<Rightarrow> nat \<Rightarrow> time \<Rightarrow> ('w \<Rightarrow> 'e + 'w) \<Rightarrow> inbox_receipt list \<times> 'w
      \<Rightarrow> 'e + (bool \<times> inbox_receipt list \<times> 'w)" where
  "inbox_process hkey eid now work s =
     (if already_processed hkey eid (fst s) then Inr (False, s)
      else bindE (work (snd s)) (\<lambda>w'.
        Inr (True, fst s @ [\<lparr>ir_handler_key = hkey, ir_event_id = eid, ir_processed_at = now\<rparr>],
             w')))"

section \<open>Facts\<close>

lemma outbox_claim_due_eq:
  "outbox_claim_due = (\<lambda>n ow l now t. claim_with om_id (\<lambda>m. (om_next_attempt_at m, om_id m))
     (outbox_due now) (outbox_mark_claimed ow (now + seconds l))
     (\<lambda>m. om_lease_owner m = Some ow) n t)"
  by (simp add: fun_eq_iff outbox_claim_due_def outbox_take_def outbox_select_def claim_with_def)

interpretation outbox_queue: lease_queue om_id outbox_due om_lease_expires_at outbox_claim_due
  unfolding outbox_claim_due_eq
  by (rule claim_with_lease_queue) (auto simp: outbox_mark_claimed_def outbox_due_def)

lemma outbox_get_update_where [table_simps]:
  "(\<And>m. om_id (f m) = om_id m) \<Longrightarrow> outbox_get (update_where p f box) i
     = map_option (\<lambda>m. if p m then f m else m) (outbox_get box i)"
  unfolding outbox_get_def by (rule find_update_where) simp

lemma outbox_get_id: "outbox_get box i = Some m \<Longrightarrow> om_id m = i"
  unfolding outbox_get_def by (auto dest: find_Some_mem)

lemma outbox_get_append: "outbox_get box i = Some m \<Longrightarrow> outbox_get (box @ new) i = Some m"
  by (simp add: outbox_get_def find_append)

text \<open>
  A handler writes to the outbox only through \<open>OutboxWriter.append\<close>: it adds rows and leaves
  the present ones as they are.
\<close>

definition appends_only :: "'w event_handler \<Rightarrow> bool" where
  "appends_only h \<longleftrightarrow> (\<forall>env s s'. h env s = Inr s' \<longrightarrow> (\<exists>new. fst s' = fst s @ new))"

definition all_append :: "'w event_handler handler_registry \<Rightarrow> bool" where
  "all_append handlers \<longleftrightarrow> (\<forall>k. \<forall>h\<in>snd ` set (handlers_for handlers k). appends_only h)"

lemma run_handlers_appends:
  "run_handlers hs env s = (f, s') \<Longrightarrow> (\<And>h. h \<in> snd ` set hs \<Longrightarrow> appends_only h) \<Longrightarrow>
     \<exists>new. fst s' = fst s @ new"
proof (induction hs env s rule: run_handlers.induct)
  case (2 k h hs env s)
  show ?case
  proof (cases "h env s")
    case (Inr s1)
    moreover have "appends_only h" using 2(3) by simp
    ultimately obtain new1 where "fst s1 = fst s @ new1" unfolding appends_only_def by blast
    moreover obtain new2 where "fst s' = fst s1 @ new2"
      using 2(1)[OF Inr] 2(2,3) Inr by auto
    ultimately show ?thesis by simp
  qed (use 2 in auto)
qed simp

text \<open>What the dispatcher owes a message: the row after its handlers ended with \<open>failure\<close>.\<close>

fun settled ::
    "retry_policy \<Rightarrow> time \<Rightarrow> rat \<Rightarrow> (exn \<times> string) option \<Rightarrow> outbox_message \<Rightarrow> outbox_message" where
  "settled policy now draw None m =
     m\<lparr>om_status := OB_delivered, om_lease_owner := None, om_lease_expires_at := None\<rparr>"
| "settled policy now draw (Some (e, text)) m =
     (let m' = m\<lparr>om_attempts := om_attempts m + 1, om_lease_owner := None,
            om_lease_expires_at := None, om_last_error := Some (classify_retry e),
            om_error_summary := Some (take 500 text)\<rparr>
      in if should_retry policy (classify_retry e) (om_attempts m + 1)
         then m'\<lparr>om_status := OB_pending, om_next_attempt_at :=
                  Some (now + timedelta_us
                    (next_attempt_delay policy (classify_retry e) (om_attempts m + 1) draw))\<rparr>
         else m'\<lparr>om_status := OB_dead\<rparr>)"

lemmas mark_defs = mark_delivered_def mark_retry_def mark_dead_def

lemma process_message_settled:
  assumes get: "outbox_get (fst s) (om_id m) = Some m"
    and live: "\<not> stale_claim owner now1 m"
    and schema: "registry_lookup (dp_schemas dp) (om_event_key m) \<noteq> None"
    and hs: "all_append handlers"
    and run: "run_handlers (handlers_for handlers (om_event_key m)) (om_envelope m) s = (failure, s')"
  shows "\<exists>box. process_message dp handlers owner now1 now2 draw m s = (None, (box, snd s'))
    \<and> outbox_get box (om_id m) = Some (settled (dp_policy dp) now2 draw failure m)"
proof -
  from run_handlers_appends[OF run] hs obtain new where "fst s' = fst s @ new"
    unfolding all_append_def by blast
  with get have get': "outbox_get (fst s') (om_id m) = Some m" by (simp add: outbox_get_append)
  have own: "owned_by m m" using live by (simp add: stale_claim_def owned_by_def)
  show ?thesis
  proof (cases failure)
    case None
    with get' own show ?thesis
      by (simp add: process_message_def get live schema run with_fresh_def mark_defs table_simps)
  next
    case (Some f)
    with get' own show ?thesis
      by (cases f) (simp add: process_message_def get live schema run with_fresh_def
        settle_failure_def Let_def mark_defs table_simps)
  qed
qed

text \<open>Rows that reached a final status keep it.\<close>

definition outbox_final :: "outbox_message \<Rightarrow> bool" where
  "outbox_final m \<longleftrightarrow> om_status m = OB_delivered \<or> om_status m = OB_dead"

lemma with_fresh_final:
  assumes "\<And>fresh box. outbox_get box i = Some m \<Longrightarrow> outbox_get (mark fresh box) i = Some m"
    and "outbox_get (fst s) i = Some m"
  shows "outbox_get (fst (snd (with_fresh j mark s))) i = Some m"
  using assms by (auto simp: with_fresh_def split: option.splits)

lemma mark_final:
  assumes "outbox_final m" and "outbox_get box i = Some m"
  shows "outbox_get (mark_delivered x box) i = Some m"
    and "outbox_get (mark_retry x t c txt box) i = Some m"
    and "outbox_get (mark_dead x c txt box) i = Some m"
  using assms by (auto simp: mark_defs table_simps owned_by_def outbox_final_def)

lemma process_message_final:
  assumes hs: "all_append handlers"
    and m: "outbox_final m" "outbox_get (fst s) i = Some m"
  shows "outbox_get (fst (snd (process_message dp handlers owner now1 now2 draw msg s))) i = Some m"
proof -
  obtain f s' where Pair:
    "run_handlers (handlers_for handlers (om_event_key msg)) (om_envelope msg) s = (f, s')"
    by (rule prod.exhaust)
  from run_handlers_appends[OF Pair] hs obtain new where "fst s' = fst s @ new"
    unfolding all_append_def by blast
  with m(2) have "outbox_get (fst s') i = Some m" by (simp add: outbox_get_append)
  with m Pair show ?thesis
    by (auto simp: process_message_def quarantine_def settle_failure_def Let_def mark_final
        intro!: with_fresh_final split: option.splits)
qed

lemma process_all_final:
  assumes hs: "all_append handlers"
    and m: "outbox_final m"
  shows "outbox_get (fst s) i = Some m \<Longrightarrow>
    outbox_get (fst (snd (process_all dp handlers owner ms s))) i = Some m"
proof (induction ms arbitrary: s)
  case (Cons x ms)
  obtain msg n1 n2 d where x: "x = (msg, n1, n2, d)" by (cases x)
  from process_message_final[OF hs m Cons.prems, where msg = msg and dp = dp and owner = owner
      and ?now1.0 = n1 and ?now2.0 = n2 and draw = d] Cons.IH x
  show ?case by (auto split: prod.splits option.splits)
qed simp

lemma claim_final:
  assumes "outbox_final m" and "outbox_get box i = Some m"
  shows "outbox_get (snd (outbox_claim_due n ow l now box)) i = Some m"
  using assms by (auto simp: outbox_claim_due_eq claim_with_table table_simps
      outbox_mark_claimed_def outbox_final_def outbox_due_def)

end
