(* ===== verification/Kernel_Tasks.thy ===== *)
theory Kernel_Tasks
  imports Kernel_Outbox
begin

text \<open>
  The task worker (\<^verbatim>\<open>inc/kernel/tasks/worker.py\<close>, \<^verbatim>\<open>models.py\<close>, \<^verbatim>\<open>spec.py\<close>) and the cron
  scheduler (\<^verbatim>\<open>inc/kernel/tasks/cron.py\<close>). A task handler is a parameter: it maps the payload,
  the attempt number and the state of the worker's transaction to an outcome and the state it
  left, also when it failed, because the worker commits that transaction in both cases. The
  handler stands for the call under \<^verbatim>\<open>asyncio.wait_for\<close>: a timeout is the failure \<open>TimeoutError\<close>.
\<close>

section \<open>Tasks\<close>

datatype task_status = TK_pending | TK_claimed | TK_completed | TK_failed | TK_dead | TK_cancelled

record task_instance =
  tk_id :: nat
  tk_key :: string
  tk_status :: task_status
  tk_attempt :: int
  tk_payload :: dict
  tk_next_run_at :: "time option"
  tk_timeout_seconds :: rat
  tk_lease_owner :: "string option"
  tk_lease_expires_at :: "time option"
  tk_result :: "dict option"
  tk_error_category :: "retry_category option"
  tk_error_summary :: "string option"

datatype task_outcome = Task_done dict | Task_raised exn string

type_synonym 'w task_handler = "dict \<Rightarrow> int \<Rightarrow> 'w \<Rightarrow> task_outcome \<times> 'w"

record 'w task_spec =
  ts_key :: string
  ts_handler :: "'w task_handler"
  ts_timeout_seconds :: rat
  ts_retry :: retry_policy

text \<open>\<^verbatim>\<open>TaskSpec.__post_init__\<close>.\<close>

definition make_task_spec ::
    "string \<Rightarrow> 'w task_handler \<Rightarrow> rat \<Rightarrow> retry_policy \<Rightarrow> exn + 'w task_spec" where
  "make_task_spec key h timeout retry =
     bindE (requireE (key \<noteq> []) (PyException ''ValueError'')) (\<lambda>_.
     Inr \<lparr>ts_key = key, ts_handler = h, ts_timeout_seconds = timeout, ts_retry = retry\<rparr>)"

section \<open>Repository\<close>

definition task_due :: "time \<Rightarrow> task_instance \<Rightarrow> bool" where
  "task_due now t \<longleftrightarrow> (tk_status t = TK_pending \<or> tk_status t = TK_claimed)
     \<and> (case tk_next_run_at t of None \<Rightarrow> False | Some x \<Rightarrow> x \<le> now)
     \<and> (case tk_lease_expires_at t of None \<Rightarrow> True | Some e \<Rightarrow> e < now)"

definition task_mark_claimed :: "string \<Rightarrow> time \<Rightarrow> task_instance \<Rightarrow> task_instance" where
  "task_mark_claimed owner expires_at t =
     t\<lparr>tk_status := TK_claimed, tk_lease_owner := Some owner, tk_lease_expires_at := Some expires_at\<rparr>"

text \<open>Unlike the outbox, the re-select of a task claim filters by id only.\<close>

definition task_select :: "nat \<Rightarrow> time \<Rightarrow> task_instance list \<Rightarrow> nat list" where
  "task_select batch now tasks =
     select_due_ids tk_id (\<lambda>t. (tk_next_run_at t, tk_id t)) (task_due now) batch tasks"

definition task_take ::
    "string \<Rightarrow> int \<Rightarrow> time \<Rightarrow> nat list \<Rightarrow> task_instance list \<Rightarrow> task_instance list \<times> task_instance list" where
  "task_take owner lease now ids tasks =
     claim_selected tk_id (task_due now) (task_mark_claimed owner (now + seconds lease))
       (\<lambda>t. True) ids tasks"

definition task_claim_due ::
    "nat \<Rightarrow> string \<Rightarrow> int \<Rightarrow> time \<Rightarrow> task_instance list \<Rightarrow> task_instance list \<times> task_instance list" where
  "task_claim_due batch owner lease now tasks =
     task_take owner lease now (task_select batch now tasks) tasks"

definition task_completed :: "dict \<Rightarrow> task_instance \<Rightarrow> task_instance" where
  "task_completed result t = t\<lparr>tk_status := TK_completed, tk_lease_owner := None,
     tk_lease_expires_at := None, tk_result := Some result, tk_error_category := None,
     tk_error_summary := None\<rparr>"

definition task_retried :: "time \<Rightarrow> retry_category \<Rightarrow> string \<Rightarrow> task_instance \<Rightarrow> task_instance" where
  "task_retried next_at cat summary t = t\<lparr>tk_status := TK_pending, tk_attempt := tk_attempt t + 1,
     tk_next_run_at := Some next_at, tk_lease_owner := None, tk_lease_expires_at := None,
     tk_error_category := Some cat, tk_error_summary := Some (take 500 summary)\<rparr>"

definition task_deadened :: "retry_category \<Rightarrow> string \<Rightarrow> task_instance \<Rightarrow> task_instance" where
  "task_deadened cat summary t = t\<lparr>tk_status := TK_dead, tk_attempt := tk_attempt t + 1,
     tk_lease_owner := None, tk_lease_expires_at := None, tk_error_category := Some cat,
     tk_error_summary := Some (take 500 summary)\<rparr>"

definition task_count_by_status :: "task_status \<Rightarrow> task_instance list \<Rightarrow> nat" where
  "task_count_by_status st tasks = length (filter (\<lambda>t. tk_status t = st) tasks)"

definition task_get :: "task_instance list \<Rightarrow> nat \<Rightarrow> task_instance option" where
  "task_get tasks i = find (\<lambda>t. tk_id t = i) tasks"

definition task_put ::
    "nat \<Rightarrow> (task_instance \<Rightarrow> task_instance) \<Rightarrow> task_instance list \<Rightarrow> task_instance list" where
  "task_put i f = update_where (\<lambda>t. tk_id t = i) f"

section \<open>Worker\<close>

text \<open>
  \<^verbatim>\<open>_execute\<close>. The row is re-read by id only; whatever the handler wrote is committed together
  with the new status of the row, whether it returned or raised.
\<close>

definition execute_task ::
    "'w task_spec registry \<Rightarrow> time \<Rightarrow> rat \<Rightarrow> task_instance \<Rightarrow> task_instance list \<times> 'w
      \<Rightarrow> task_instance list \<times> 'w" where
  "execute_task reg now draw task s =
     (case task_get (fst s) (tk_id task) of
        None \<Rightarrow> s
      | Some fresh \<Rightarrow>
         (case registry_lookup reg (tk_key task) of
            None \<Rightarrow>
              (task_put (tk_id fresh) (task_deadened Retry_PERMANENT ''unregistered task'') (fst s), snd s)
          | Some spec \<Rightarrow>
             (case ts_handler spec (tk_payload fresh) (tk_attempt fresh + 1) (snd s) of
                (Task_raised e text, w) \<Rightarrow>
                  (let cat = classify_retry e in
                   if \<not> should_retry (ts_retry spec) cat (tk_attempt fresh + 1)
                   then (task_put (tk_id fresh) (task_deadened cat text) (fst s), w)
                   else let delay = next_attempt_delay (ts_retry spec) cat (tk_attempt fresh + 1) draw
                        in (task_put (tk_id fresh) (task_retried (now + timedelta_us delay) cat text)
                              (fst s), w))
              | (Task_done result, w) \<Rightarrow>
                  (task_put (tk_id fresh) (task_completed result) (fst s), w))))"

fun execute_all ::
    "'w task_spec registry \<Rightarrow> (nat \<Rightarrow> time \<times> rat) \<Rightarrow> task_instance list
      \<Rightarrow> task_instance list \<times> 'w \<Rightarrow> task_instance list \<times> 'w" where
  "execute_all reg clock [] s = s"
| "execute_all reg clock (t # ts) s =
     execute_all reg clock ts
       (execute_task reg (fst (clock (tk_id t))) (snd (clock (tk_id t))) t s)"

definition run_cycle ::
    "'w task_spec registry \<Rightarrow> nat \<Rightarrow> string \<Rightarrow> int \<Rightarrow> time \<Rightarrow> (nat \<Rightarrow> time \<times> rat)
      \<Rightarrow> task_instance list \<times> 'w \<Rightarrow> nat \<times> task_instance list \<times> 'w" where
  "run_cycle reg batch owner lease now clock s =
     (case task_claim_due batch owner lease now (fst s) of
        (claimed, tasks) \<Rightarrow> (length claimed, execute_all reg clock claimed (tasks, snd s)))"

section \<open>Cron\<close>

record cron_state =
  cr_key :: string
  cr_next_run_at :: time

record cron_spec =
  cs_key :: string
  cs_schedule :: string
  cs_timezone :: string
  cs_timeout_seconds :: rat

definition make_cron_spec :: "string \<Rightarrow> string \<Rightarrow> string \<Rightarrow> rat \<Rightarrow> exn + cron_spec" where
  "make_cron_spec key schedule tz timeout =
     bindE (requireE (key \<noteq> []) (PyException ''ValueError'')) (\<lambda>_.
     bindE (requireE (schedule \<noteq> []) (PyException ''ValueError'')) (\<lambda>_.
     Inr \<lparr>cs_key = key, cs_schedule = schedule, cs_timezone = tz, cs_timeout_seconds = timeout\<rparr>))"

text \<open>
  \<^verbatim>\<open>CronTrigger\<close> is APScheduler's: parsing a schedule gives a trigger or a \<open>ValueError\<close>, a
  trigger maps the previous fire time and the current time to the next fire time. Both are
  parameters.
\<close>

type_synonym trigger = "time option \<Rightarrow> time \<Rightarrow> time option"
type_synonym crontab = "string \<Rightarrow> string \<Rightarrow> trigger option"

text \<open>\<^verbatim>\<open>while next_fire is not None and next_fire <= current\<close>; \<open>None\<close> outside: does not return.\<close>

partial_function (option) skip_past :: "trigger \<Rightarrow> time \<Rightarrow> time option \<Rightarrow> time option option" where
  "skip_past trig current next_fire =
     (case next_fire of
        None \<Rightarrow> Some None
      | Some n \<Rightarrow> if n \<le> current then skip_past trig current (trig (Some n) current)
                  else Some (Some n))"

record cron_world =
  cw_states :: "cron_state list"
  cw_tasks :: "task_instance list"
  cw_next_id :: nat

definition cron_task :: "nat \<Rightarrow> string \<Rightarrow> cron_spec \<Rightarrow> time \<Rightarrow> time \<Rightarrow> task_instance" where
  "cron_task i key spec anchor current = \<lparr>tk_id = i, tk_key = key @ ''.tick'', tk_status = TK_pending,
     tk_attempt = 0, tk_payload = [(''cron_key'', JStr key), (''scheduled_for'', JTime anchor)],
     tk_next_run_at = Some current, tk_timeout_seconds = cs_timeout_seconds spec,
     tk_lease_owner = None, tk_lease_expires_at = None, tk_result = None,
     tk_error_category = None, tk_error_summary = None\<rparr>"

text \<open>
  One key of the tick: the exception that escapes or whether it fired; \<open>None\<close> if it hangs. For
  a trigger that is exhausted the code calls \<^verbatim>\<open>uow.session.delete(state)\<close> without awaiting
  it; on SQLAlchemy's asynchronous session this call only creates a coroutine, so the commit
  that follows changes nothing and the row stays.
\<close>

definition cron_step ::
    "crontab \<Rightarrow> time \<Rightarrow> string \<Rightarrow> cron_spec \<Rightarrow> cron_world \<Rightarrow> ((exn + bool) \<times> cron_world) option" where
  "cron_step crontab current key spec w =
     (case find (\<lambda>c. cr_key c = key) (cw_states w) of
        None \<Rightarrow>
          (case crontab (cs_schedule spec) (cs_timezone spec) of
             None \<Rightarrow> Some (Inl (PyException ''ValueError''), w)
           | Some trig \<Rightarrow>
              (case trig None current of
                 None \<Rightarrow> Some (Inr False, w)
               | Some first_fire \<Rightarrow> Some (Inr False, w\<lparr>cw_states := cw_states w @
                    [\<lparr>cr_key = key, cr_next_run_at = first_fire\<rparr>]\<rparr>)))
      | Some st \<Rightarrow>
          (let anchor = cr_next_run_at st in
           if current < anchor then Some (Inr False, w)
           else case crontab (cs_schedule spec) (cs_timezone spec) of
             None \<Rightarrow> Some (Inl (PyException ''ValueError''), w)
           | Some trig \<Rightarrow>
              (case skip_past trig current (trig (Some anchor) current) of
                 None \<Rightarrow> None
               | Some None \<Rightarrow> Some (Inr False, w)
               | Some (Some next_fire) \<Rightarrow>
                  if list_ex (\<lambda>c. cr_key c = key \<and> cr_next_run_at c \<le> current) (cw_states w)
                  then Some (Inr True, w\<lparr>
                    cw_states := update_where (\<lambda>c. cr_key c = key \<and> cr_next_run_at c \<le> current)
                      (\<lambda>c. c\<lparr>cr_next_run_at := next_fire\<rparr>) (cw_states w),
                    cw_tasks := cw_tasks w @ [cron_task (cw_next_id w) key spec anchor current],
                    cw_next_id := Suc (cw_next_id w)\<rparr>)
                  else Some (Inr False, w))))"

text \<open>The tick goes through \<^verbatim>\<open>registry.items()\<close>, sorted by key; each key commits on its own.\<close>

fun cron_tick_over ::
    "crontab \<Rightarrow> time \<Rightarrow> (string \<times> cron_spec) list \<Rightarrow> nat \<Rightarrow> cron_world
      \<Rightarrow> ((exn + nat) \<times> cron_world) option" where
  "cron_tick_over crontab current [] fired w = Some (Inr fired, w)"
| "cron_tick_over crontab current ((key, spec) # items) fired w =
     (case cron_step crontab current key spec w of
        None \<Rightarrow> None
      | Some (Inl e, w') \<Rightarrow> Some (Inl e, w')
      | Some (Inr b, w') \<Rightarrow>
          cron_tick_over crontab current items (if b then Suc fired else fired) w')"

definition cron_tick ::
    "crontab \<Rightarrow> cron_spec registry \<Rightarrow> time \<Rightarrow> cron_world \<Rightarrow> ((exn + nat) \<times> cron_world) option" where
  "cron_tick crontab reg current w =
     cron_tick_over crontab current (sort_key fst (reg_items reg)) 0 w"

section \<open>Facts\<close>

lemma task_claim_due_eq:
  "task_claim_due = (\<lambda>n ow l now t. claim_with tk_id (\<lambda>t. (tk_next_run_at t, tk_id t))
     (task_due now) (task_mark_claimed ow (now + seconds l)) (\<lambda>t. True) n t)"
  by (simp add: fun_eq_iff task_claim_due_def task_take_def task_select_def claim_with_def)

interpretation task_queue: lease_queue tk_id task_due tk_lease_expires_at task_claim_due
  unfolding task_claim_due_eq
  by (rule claim_with_lease_queue [where own = "\<lambda>_ _. True"])
     (auto simp: task_mark_claimed_def task_due_def)

lemma task_get_put [table_simps]:
  "(\<And>t. tk_id (f t) = tk_id t) \<Longrightarrow> task_get (task_put i f tasks) j
     = map_option (\<lambda>t. if tk_id t = i then f t else t) (task_get tasks j)"
  unfolding task_get_def task_put_def by (rule find_update_where) simp

lemma task_get_id: "task_get tasks i = Some t \<Longrightarrow> tk_id t = i"
  unfolding task_get_def by (auto dest: find_Some_mem)

lemmas task_marks = task_completed_def task_retried_def task_deadened_def

text \<open>The row an execution leaves for its task, as a function of the handler's outcome.\<close>

fun task_settled ::
    "retry_policy \<Rightarrow> time \<Rightarrow> rat \<Rightarrow> task_outcome \<Rightarrow> task_instance \<Rightarrow> task_instance" where
  "task_settled policy now draw (Task_done result) t = task_completed result t"
| "task_settled policy now draw (Task_raised e text) t =
     (let cat = classify_retry e; n = tk_attempt t + 1 in
      if should_retry policy cat n
      then task_retried (now + timedelta_us (next_attempt_delay policy cat n draw)) cat text t
      else task_deadened cat text t)"

lemma execute_task_settled:
  assumes "task_get (fst s) (tk_id task) = Some fresh"
    and "registry_lookup reg (tk_key task) = Some spec"
    and "ts_handler spec (tk_payload fresh) (tk_attempt fresh + 1) (snd s) = (outcome, w)"
  shows "task_get (fst (execute_task reg now draw task s)) (tk_id task)
      = Some (task_settled (ts_retry spec) now draw outcome fresh)"
    and "snd (execute_task reg now draw task s) = w"
    and "i \<noteq> tk_id task \<Longrightarrow> task_get (fst (execute_task reg now draw task s)) i = task_get (fst s) i"
proof -
  have fresh: "tk_id fresh = tk_id task" using task_get_id[OF assms(1)] .
  show "task_get (fst (execute_task reg now draw task s)) (tk_id task)
      = Some (task_settled (ts_retry spec) now draw outcome fresh)"
    and "snd (execute_task reg now draw task s) = w"
    using assms fresh
    by (cases outcome; simp add: execute_task_def task_marks table_simps Let_def)+
  show "task_get (fst (execute_task reg now draw task s)) i = task_get (fst s) i"
    if "i \<noteq> tk_id task"
    using assms fresh that
    by (cases outcome; cases "task_get (fst s) i")
       (auto simp: execute_task_def task_marks table_simps Let_def dest: task_get_id)
qed

lemma skip_past_returns:
  assumes progress: "\<And>p now n. trig (Some p) now = Some n \<Longrightarrow> p < n"
  shows "\<exists>r. skip_past trig current next_fire = Some r \<and> (\<forall>n. r = Some n \<longrightarrow> current < n)"
proof (induction "case next_fire of None \<Rightarrow> 0 | Some n \<Rightarrow> nat (current - n + 1)"
    arbitrary: next_fire rule: less_induct)
  case less
  show ?case
  proof (cases next_fire)
    case None
    then show ?thesis by (simp add: skip_past.simps)
  next
    case (Some n)
    show ?thesis
    proof (cases "n \<le> current")
      case True
      have "(case trig (Some n) current of None \<Rightarrow> 0 | Some m \<Rightarrow> nat (current - m + 1))
          < nat (current - n + 1)"
        using True progress[of n current] by (auto split: option.splits)
      with less[of "trig (Some n) current"] Some True show ?thesis
        by (simp add: skip_past.simps [of trig current "Some n"])
    qed (use Some in \<open>simp add: skip_past.simps\<close>)
  qed
qed

lemma skip_past_future: "skip_past trig current nf = Some (Some n) \<Longrightarrow> current < n"
proof -
  assume ret: "skip_past trig current nf = Some (Some n)"
  have "\<forall>m. Some n = Some m \<longrightarrow> current < m"
    by (rule skip_past.raw_induct [where P = "\<lambda>trig current nf r. \<forall>m. r = Some m \<longrightarrow> current < m",
          OF _ ret]) (auto split: option.splits if_splits)
  then show ?thesis by simp
qed

text \<open>
  A due window fires exactly once: the step that enqueued the task moved the anchor past the
  current time, and until the new anchor no step of this key enqueues anything.
\<close>

lemma cron_step_fired:
  assumes "cron_step crontab current key spec w = Some (Inr True, w')"
  shows "\<exists>anchor next_fire. anchor \<le> current \<and> current < next_fire
    \<and> cw_tasks w' = cw_tasks w @ [cron_task (cw_next_id w) key spec anchor current]
    \<and> find (\<lambda>c. cr_key c = key) (cw_states w') = Some \<lparr>cr_key = key, cr_next_run_at = next_fire\<rparr>"
proof -
  from assms obtain st trig n where st: "find (\<lambda>c. cr_key c = key) (cw_states w) = Some st"
    and anchor: "cr_next_run_at st \<le> current"
    and n: "skip_past trig current (trig (Some (cr_next_run_at st)) current) = Some (Some n)"
    and w': "w' = w\<lparr>cw_states := update_where (\<lambda>c. cr_key c = key \<and> cr_next_run_at c \<le> current)
                      (\<lambda>c. c\<lparr>cr_next_run_at := n\<rparr>) (cw_states w),
                    cw_tasks := cw_tasks w @ [cron_task (cw_next_id w) key spec
                       (cr_next_run_at st) current],
                    cw_next_id := Suc (cw_next_id w)\<rparr>"
    by (auto simp: cron_step_def Let_def split: option.splits if_splits)
  have "st\<lparr>cr_next_run_at := n\<rparr> = \<lparr>cr_key = key, cr_next_run_at = n\<rparr>"
    using find_Some_mem[OF st] by simp
  moreover have "find (\<lambda>c. cr_key c = key) (cw_states w') = Some (st\<lparr>cr_next_run_at := n\<rparr>)"
    using st anchor find_Some_mem[OF st] by (simp add: w' find_update_where)
  ultimately show ?thesis using anchor skip_past_future[OF n] w' by auto
qed

lemma cron_step_quiet:
  assumes "find (\<lambda>c. cr_key c = key) (cw_states w) = Some st" and "now < cr_next_run_at st"
  shows "cron_step crontab now key spec w = Some (Inr False, w)"
  using assms by (simp add: cron_step_def)

lemma cron_step_returns:
  assumes "\<And>sch tz trig p now n. crontab sch tz = Some trig \<Longrightarrow> trig (Some p) now = Some n \<Longrightarrow> p < n"
  shows "cron_step crontab current key spec w \<noteq> None"
proof -
  have hang: False if "crontab sch tz = Some trig" "skip_past trig current nf = None"
    for sch tz trig nf
    using skip_past_returns[of trig current nf] assms[OF that(1)] that(2) by auto
  show ?thesis
    by (auto simp: cron_step_def Let_def split: option.splits dest: hang)
qed

end
