(* ===== verification/Kernel_Workflow.thy ===== *)
theory Kernel_Workflow
  imports Kernel_Tasks
begin

text \<open>
  The persistent workflow runner (\<^verbatim>\<open>inc/kernel/workflow/models.py\<close>, \<^verbatim>\<open>spec.py\<close>,
  \<^verbatim>\<open>registry.py\<close>, \<^verbatim>\<open>runner.py\<close>): the three tables as lists of rows, the registry, and every
  operation of \<^verbatim>\<open>WorkflowRunner\<close> as a function from the tables to an exception or a result with
  the new tables. A step of the runner commits its own transaction, so an exception leaves the
  tables as they were.
\<close>

section \<open>Declarations\<close>

datatype activity_outcome = Act_result dict | Act_raised exn string

text \<open>
  An activity handler is a parameter: from the step input, the attempt number and the state of the
  transaction (the tables of the other components) to an outcome and the state it left. It stands
  for the call under \<^verbatim>\<open>asyncio.wait_for\<close>, a timeout being the exception \<open>TimeoutError\<close>. The
  runner commits that transaction also when the handler failed.
\<close>

type_synonym 'w activity_handler = "dict \<Rightarrow> int \<Rightarrow> 'w \<Rightarrow> activity_outcome \<times> 'w"

record 'w activity_spec =
  ac_key :: string
  ac_timeout_seconds :: rat
  ac_retry :: retry_policy
  ac_handler :: "'w activity_handler option"

record 'w workflow_spec =
  wf_key :: string
  wf_version :: string
  wf_activities :: "'w activity_spec list"
  wf_signal_keys :: "string list"

definition make_activity_spec ::
    "string \<Rightarrow> rat \<Rightarrow> retry_policy \<Rightarrow> 'w activity_handler option \<Rightarrow> exn + 'w activity_spec" where
  "make_activity_spec key timeout retry h =
     bindE (requireE (key \<noteq> []) (PyException ''ValueError'')) (\<lambda>_.
     Inr \<lparr>ac_key = key, ac_timeout_seconds = timeout, ac_retry = retry, ac_handler = h\<rparr>)"

definition make_workflow_spec ::
    "string \<Rightarrow> string \<Rightarrow> 'w activity_spec list \<Rightarrow> string list \<Rightarrow> exn + 'w workflow_spec" where
  "make_workflow_spec key version acts sigs =
     bindE (requireE (key \<noteq> []) (PyException ''ValueError'')) (\<lambda>_.
     bindE (requireE (version \<noteq> []) (PyException ''ValueError'')) (\<lambda>_.
     bindE (requireE (distinct (map ac_key acts)) (PyException ''ValueError'')) (\<lambda>_.
     Inr \<lparr>wf_key = key, wf_version = version, wf_activities = acts, wf_signal_keys = sigs\<rparr>)))"

definition spec_activity :: "'w workflow_spec \<Rightarrow> string \<Rightarrow> 'w activity_spec option" where
  "spec_activity spec key = find (\<lambda>a. ac_key a = key) (wf_activities spec)"

section \<open>Registry\<close>

definition validate_workflow_key :: "string \<Rightarrow> exn + unit" where
  "validate_workflow_key k =
     requireE (re_match_dollar (dotted key_char) k) (PyException ''ValueError'')"

definition workflow_register ::
    "string \<Rightarrow> 'w workflow_spec \<Rightarrow> 'w workflow_spec registry \<Rightarrow> exn + 'w workflow_spec registry" where
  "workflow_register k spec r =
     bindE (requireE (\<not> reg_frozen r) frozen_error) (\<lambda>_.
     bindE (validate_workflow_key k) (\<lambda>_.
     bindE (requireE (registry_lookup r k = None) duplicate_error) (\<lambda>_.
     bindE (requireE (distinct (wf_signal_keys spec))
       (KernelError ''kernel.registry_invalid'' INTERNAL)) (\<lambda>_.
     Inr (registry_store k spec r)))))"

definition workflow_require :: "'w workflow_spec registry \<Rightarrow> string \<Rightarrow> exn + 'w workflow_spec" where
  "workflow_require r k =
     someE (registry_lookup r k) (KernelError ''kernel.workflow_unknown'' INTERNAL)"

definition workflow_keys :: "'w workflow_spec registry \<Rightarrow> string list" where
  "workflow_keys r = sort (map fst (reg_items r))"

interpretation workflows: frozen_registry workflow_register registry_lookup reg_frozen registry_freeze
  by unfold_locales (auto simp: workflow_register_def cmd_ok)

section \<open>Tables\<close>

datatype workflow_status = WF_pending | WF_waiting | WF_completed | WF_failed | WF_cancelled

record workflow_instance =
  wi_id :: nat
  wi_key :: string
  wi_version :: string
  wi_business_key :: string
  wi_status :: workflow_status
  wi_input :: dict
  wi_state :: dict
  wi_step :: "string option"
  wi_step_attempt :: int
  wi_wake_at :: "time option"
  wi_result :: "dict option"
  wi_trace_id :: "string option"
  wi_lease_owner :: "string option"
  wi_lease_expires_at :: "time option"

datatype attempt_status = SA_executed | SA_failed

record step_attempt =
  sa_workflow :: nat
  sa_step :: string
  sa_attempt :: int
  sa_status :: attempt_status
  sa_input :: dict
  sa_result :: "dict option"
  sa_error_category :: "retry_category option"
  sa_error_summary :: "string option"

text \<open>Signals are read in the order of \<^verbatim>\<open>(created_at, id)\<close>, which is insertion order.\<close>

record workflow_signal =
  sg_workflow :: nat
  sg_key :: string
  sg_signal :: nat
  sg_payload :: dict
  sg_delivered_at :: "time option"

record 'w workflow_db =
  wd_instances :: "workflow_instance list"
  wd_attempts :: "step_attempt list"
  wd_signals :: "workflow_signal list"
  wd_next_id :: nat
  wd_world :: 'w

definition terminal_status :: "workflow_status \<Rightarrow> bool" where
  "terminal_status st \<longleftrightarrow> st = WF_completed \<or> st = WF_failed \<or> st = WF_cancelled"

definition get_instance :: "'w workflow_db \<Rightarrow> nat \<Rightarrow> workflow_instance option" where
  "get_instance db i = find (\<lambda>x. wi_id x = i) (wd_instances db)"

text \<open>The session writes the changed object back to its row.\<close>

definition save_instance :: "workflow_instance \<Rightarrow> 'w workflow_db \<Rightarrow> 'w workflow_db" where
  "save_instance y db =
     db\<lparr>wd_instances := update_where (\<lambda>x. wi_id x = wi_id y) (\<lambda>_. y) (wd_instances db)\<rparr>"

section \<open>Repository\<close>

definition workflow_due :: "time \<Rightarrow> workflow_instance \<Rightarrow> bool" where
  "workflow_due now x \<longleftrightarrow> wi_status x = WF_pending
     \<and> (case wi_wake_at x of None \<Rightarrow> False | Some t \<Rightarrow> t \<le> now)
     \<and> (case wi_lease_expires_at x of None \<Rightarrow> True | Some e \<Rightarrow> e < now)"

definition workflow_mark_leased :: "string \<Rightarrow> time \<Rightarrow> workflow_instance \<Rightarrow> workflow_instance" where
  "workflow_mark_leased owner expires_at x =
     x\<lparr>wi_lease_owner := Some owner, wi_lease_expires_at := Some expires_at\<rparr>"

definition workflow_claim_due ::
    "nat \<Rightarrow> string \<Rightarrow> int \<Rightarrow> time \<Rightarrow> workflow_instance list
      \<Rightarrow> workflow_instance list \<times> workflow_instance list" where
  "workflow_claim_due batch owner lease now xs =
     claim_with wi_id (\<lambda>x. (wi_wake_at x, wi_id x)) (workflow_due now)
       (workflow_mark_leased owner (now + seconds lease)) (\<lambda>x. True) batch xs"

text \<open>\<^verbatim>\<open>order_by(attempt.desc()).limit(1)\<close>.\<close>

definition last_attempt :: "'w workflow_db \<Rightarrow> nat \<Rightarrow> string \<Rightarrow> step_attempt option" where
  "last_attempt db i step =
     (case sort_key (\<lambda>a. - sa_attempt a)
         (filter (\<lambda>a. sa_workflow a = i \<and> sa_step a = step) (wd_attempts db)) of
        [] \<Rightarrow> None | a # _ \<Rightarrow> Some a)"

text \<open>\<^verbatim>\<open>RetryCategory(previous.error_category or "transient")\<close>.\<close>

definition attempt_category :: "step_attempt \<Rightarrow> retry_category" where
  "attempt_category a = (case sa_error_category a of Some c \<Rightarrow> c | None \<Rightarrow> Retry_TRANSIENT)"

definition is_undelivered :: "nat \<Rightarrow> string \<Rightarrow> workflow_signal \<Rightarrow> bool" where
  "is_undelivered i key s \<longleftrightarrow> sg_workflow s = i \<and> sg_key s = key \<and> sg_delivered_at s = None"

definition undelivered_signals :: "'w workflow_db \<Rightarrow> nat \<Rightarrow> string \<Rightarrow> workflow_signal list" where
  "undelivered_signals db i key = filter (is_undelivered i key) (wd_signals db)"

section \<open>Starting and finding instances\<close>

definition find_by_business_key ::
    "'w workflow_db \<Rightarrow> string \<Rightarrow> string \<Rightarrow> workflow_instance option" where
  "find_by_business_key db key bkey =
     find (\<lambda>x. wi_key x = key \<and> wi_business_key x = bkey) (wd_instances db)"

definition new_instance ::
    "nat \<Rightarrow> 'w workflow_spec \<Rightarrow> string \<Rightarrow> string \<Rightarrow> dict \<Rightarrow> string option \<Rightarrow> time
      \<Rightarrow> workflow_instance" where
  "new_instance i spec key bkey input trace now = \<lparr>wi_id = i, wi_key = key,
     wi_version = wf_version spec, wi_business_key = bkey, wi_status = WF_pending,
     wi_input = input, wi_state = [], wi_step = Some (ac_key (hd (wf_activities spec))),
     wi_step_attempt = 0, wi_wake_at = Some now, wi_result = None, wi_trace_id = trace,
     wi_lease_owner = None, wi_lease_expires_at = None\<rparr>"

definition start_workflow ::
    "'w workflow_spec registry \<Rightarrow> time \<Rightarrow> string \<Rightarrow> string \<Rightarrow> dict \<Rightarrow> string option
      \<Rightarrow> 'w workflow_db \<Rightarrow> exn + workflow_instance \<times> 'w workflow_db" where
  "start_workflow reg now key bkey input trace db =
     bindE (workflow_require reg key) (\<lambda>spec.
     case find_by_business_key db key bkey of
       Some x \<Rightarrow> Inr (x, db)
     | None \<Rightarrow>
         bindE (requireE (wf_activities spec \<noteq> [])
           (KernelError ''kernel.workflow_invalid'' INTERNAL)) (\<lambda>_.
         let x = new_instance (wd_next_id db) spec key bkey input trace now
         in Inr (x, db\<lparr>wd_instances := wd_instances db @ [x], wd_next_id := Suc (wd_next_id db)\<rparr>)))"

section \<open>Signals\<close>

text \<open>\<^verbatim>\<open>dict(state.get("signals", {}))\<close>.\<close>

definition state_signals :: "dict \<Rightarrow> exn + dict" where
  "state_signals st = (case dget st ''signals'' of
     None \<Rightarrow> Inr [] | Some (JObj d) \<Rightarrow> Inr d | Some _ \<Rightarrow> Inl (PyException ''TypeError''))"

definition store_signal :: "string \<Rightarrow> dict \<Rightarrow> dict \<Rightarrow> exn + dict" where
  "store_signal key payload st =
     bindE (state_signals st) (\<lambda>sigs.
     Inr (dset ''signals'' (JObj (dset key (JObj payload) sigs)) st))"

fun next_key :: "string \<Rightarrow> string list \<Rightarrow> string option" where
  "next_key k [] = None"
| "next_key k (x # xs) = (if x = k then (case xs of [] \<Rightarrow> None | y # _ \<Rightarrow> Some y) else next_key k xs)"

definition next_step :: "'w workflow_spec \<Rightarrow> string option \<Rightarrow> string option" where
  "next_step spec cur = (case cur of
     None \<Rightarrow> None | Some k \<Rightarrow> next_key k (map ac_key (wf_activities spec)))"

definition waiting_on :: "workflow_instance \<Rightarrow> string \<Rightarrow> bool" where
  "waiting_on x key \<longleftrightarrow> wi_status x = WF_waiting \<and> dget (wi_state x) ''waiting_for'' = Some (JStr key)"

text \<open>
  \<^verbatim>\<open>signal_id or uuid.uuid7()\<close>: without an id the signal gets the generated one, the parameter
  \<open>uuid\<close>.
\<close>

definition deliver_signal ::
    "'w workflow_spec registry \<Rightarrow> time \<Rightarrow> nat \<Rightarrow> nat \<Rightarrow> string \<Rightarrow> nat option \<Rightarrow> dict
      \<Rightarrow> 'w workflow_db \<Rightarrow> exn + bool \<times> 'w workflow_db" where
  "deliver_signal reg now uuid i key sid payload db =
     bindE (someE (get_instance db i) (KernelError ''kernel.workflow_not_found'' NOT_FOUND)) (\<lambda>x.
     if terminal_status (wi_status x) then Inr (False, db)
     else
       bindE (if wi_key x = [] then Inr () else
         bindE (workflow_require reg (wi_key x)) (\<lambda>spec.
           requireE (key \<in> set (wf_signal_keys spec))
             (KernelError ''kernel.workflow_unknown_signal'' INTERNAL))) (\<lambda>_.
       let uid = (case sid of Some s \<Rightarrow> s | None \<Rightarrow> uuid) in
       if list_ex (\<lambda>s. sg_workflow s = i \<and> sg_key s = key \<and> sg_signal s = uid) (wd_signals db)
       then Inr (False, db)
       else
         let db1 = db\<lparr>wd_signals := wd_signals db @ [\<lparr>sg_workflow = i, sg_key = key,
               sg_signal = uid, sg_payload = payload, sg_delivered_at = None\<rparr>]\<rparr> in
         if \<not> waiting_on x key then Inr (True, db1)
         else
           bindE (store_signal key payload (wi_state x)) (\<lambda>st.
           bindE (workflow_require reg (wi_key x)) (\<lambda>spec.
           Inr (True, save_instance (x\<lparr>wi_state := dpop ''waiting_for'' st,
             wi_step := next_step spec (wi_step x), wi_status := WF_pending,
             wi_wake_at := Some now\<rparr>) db1)))))"

section \<open>One step\<close>

definition release_lease :: "workflow_instance \<Rightarrow> workflow_instance" where
  "release_lease x = x\<lparr>wi_lease_owner := None, wi_lease_expires_at := None\<rparr>"

definition finish_with :: "workflow_status \<Rightarrow> dict \<Rightarrow> workflow_instance \<Rightarrow> workflow_instance" where
  "finish_with st result x = x\<lparr>wi_status := st, wi_result := Some result\<rparr>"

text \<open>\<^verbatim>\<open>_advance_step\<close> for an instance whose current step is a step of the workflow.\<close>

definition advance_step :: "'w workflow_spec \<Rightarrow> time \<Rightarrow> workflow_instance \<Rightarrow> workflow_instance" where
  "advance_step spec now x = (case wi_step x of
     None \<Rightarrow> x\<lparr>wi_status := WF_completed\<rparr>
   | Some _ \<Rightarrow> x\<lparr>wi_step := next_step spec (wi_step x), wi_wake_at := Some now\<rparr>)"

definition new_attempt ::
    "nat \<Rightarrow> string \<Rightarrow> int \<Rightarrow> dict \<Rightarrow> activity_outcome \<Rightarrow> step_attempt" where
  "new_attempt i step n input out = (case out of
     Act_result d \<Rightarrow> \<lparr>sa_workflow = i, sa_step = step, sa_attempt = n, sa_status = SA_executed,
       sa_input = input, sa_result = Some d, sa_error_category = None, sa_error_summary = None\<rparr>
   | Act_raised e text \<Rightarrow> \<lparr>sa_workflow = i, sa_step = step, sa_attempt = n, sa_status = SA_failed,
       sa_input = input, sa_result = None, sa_error_category = Some (classify_retry e),
       sa_error_summary = Some (take 500 text)\<rparr>)"

definition run_activity ::
    "'w activity_spec \<Rightarrow> dict \<Rightarrow> int \<Rightarrow> 'w \<Rightarrow> activity_outcome \<times> 'w" where
  "run_activity act input n w = (case ac_handler act of
     None \<Rightarrow> (Act_result [(''noop'', JBool True)], w) | Some h \<Rightarrow> h input n w)"

text \<open>The failure branch: record the attempt, then fail the instance or schedule a retry.\<close>

definition settle_step_failure ::
    "retry_policy \<Rightarrow> time \<Rightarrow> rat \<Rightarrow> int \<Rightarrow> exn \<Rightarrow> string \<Rightarrow> workflow_instance \<Rightarrow> workflow_instance" where
  "settle_step_failure policy now draw n e text x =
     (let cat = classify_retry e; y = x\<lparr>wi_step_attempt := n\<rparr> in
      if \<not> should_retry policy cat n
      then release_lease (finish_with WF_failed [(''error'', JStr (take 500 text))] y)
      else release_lease (y\<lparr>wi_wake_at :=
        Some (now + timedelta_us (next_attempt_delay policy cat n draw))\<rparr>))"

text \<open>
  What a step result asks for: no wait, or a wait for a signal key. A value that is not a string
  cannot be compared with the key column, which is an error of the database driver.
\<close>

definition wait_request :: "dict \<Rightarrow> exn + string option" where
  "wait_request result = (case dget result ''wait_for_signal'' of
     None \<Rightarrow> Inr None | Some JNull \<Rightarrow> Inr None | Some (JStr k) \<Rightarrow> Inr (Some k)
   | Some _ \<Rightarrow> Inl (PyException ''DBAPIError''))"

text \<open>The first undelivered signal of the key is marked delivered.\<close>

fun mark_first :: "('r \<Rightarrow> bool) \<Rightarrow> ('r \<Rightarrow> 'r) \<Rightarrow> 'r list \<Rightarrow> 'r list" where
  "mark_first p f [] = []"
| "mark_first p f (r # rs) = (if p r then f r # rs else r # mark_first p f rs)"

definition settle_step_success ::
    "'w workflow_spec \<Rightarrow> time \<Rightarrow> int \<Rightarrow> string \<Rightarrow> dict \<Rightarrow> workflow_instance
      \<Rightarrow> 'w workflow_db \<Rightarrow> exn + workflow_status option \<times> 'w workflow_db" where
  "settle_step_success spec now n step result x db =
     (let st = dset step (JObj result) (wi_state x);
          y = x\<lparr>wi_state := st, wi_step_attempt := n\<rparr> in
      bindE (wait_request result) (\<lambda>req. case req of
        None \<Rightarrow> Inr (None, save_instance (advance_step spec now y) db)
      | Some key \<Rightarrow>
         (case undelivered_signals db (wi_id x) key of
            s # _ \<Rightarrow>
              bindE (store_signal key (sg_payload s) st) (\<lambda>st'.
              Inr (None, save_instance (advance_step spec now (y\<lparr>wi_state := st'\<rparr>))
                (db\<lparr>wd_signals := mark_first (is_undelivered (wi_id x) key)
                  (\<lambda>s. s\<lparr>sg_delivered_at := Some now\<rparr>) (wd_signals db)\<rparr>)))
          | [] \<Rightarrow>
              Inr (Some WF_waiting, save_instance (release_lease
                (y\<lparr>wi_status := WF_waiting, wi_wake_at := None,
                   wi_state := dset ''waiting_for'' (JStr key) st\<rparr>)) db))))"

text \<open>Running the current activity: attempt number and input from the last failed attempt, if any.\<close>

definition execute_step ::
    "'w workflow_spec \<Rightarrow> 'w activity_spec \<Rightarrow> time \<Rightarrow> rat \<Rightarrow> string \<Rightarrow> int \<Rightarrow> dict
      \<Rightarrow> workflow_instance \<Rightarrow> 'w workflow_db \<Rightarrow> exn + workflow_status option \<times> 'w workflow_db" where
  "execute_step spec act now draw step n input x db =
     (case run_activity act input n (wd_world db) of
        (out, w) \<Rightarrow>
          (let db1 = db\<lparr>wd_attempts := wd_attempts db @ [new_attempt (wi_id x) step n input out],
                        wd_world := w\<rparr> in
           case out of
             Act_raised e text \<Rightarrow>
               (let y = settle_step_failure (ac_retry act) now draw n e text x
                in Inr (Some (wi_status y), save_instance y db1))
           | Act_result result \<Rightarrow> settle_step_success spec now n step result x db1))"

definition first_input :: "workflow_instance \<Rightarrow> dict" where
  "first_input x = [(''workflow'', JObj (wi_input x)), (''state'', JObj (wi_state x))]"

text \<open>
  \<^verbatim>\<open>_step_once\<close>: \<open>None\<close> means that the loop goes on. The category of a failed attempt is never
  missing. The clock is read once per step here.
\<close>

definition step_once ::
    "'w workflow_spec registry \<Rightarrow> time \<Rightarrow> rat \<Rightarrow> nat \<Rightarrow> 'w workflow_db
      \<Rightarrow> exn + workflow_status option \<times> 'w workflow_db" where
  "step_once reg now draw i db =
     bindE (someE (get_instance db i) (KernelError ''kernel.workflow_not_found'' NOT_FOUND)) (\<lambda>x.
     if terminal_status (wi_status x) then Inr (Some (wi_status x), db)
     else bindE (workflow_require reg (wi_key x)) (\<lambda>spec.
       case wi_step x of
         None \<Rightarrow> Inr (Some WF_completed, save_instance (release_lease
           (finish_with WF_completed [(''final'', JBool True)] x)) db)
       | Some step \<Rightarrow>
          (case spec_activity spec step of
             None \<Rightarrow> Inr (Some WF_failed, save_instance
               (finish_with WF_failed [(''error'', JStr (''unknown step '' @ step))] x) db)
           | Some act \<Rightarrow>
              (case last_attempt db i step of
                 None \<Rightarrow> execute_step spec act now draw step 1 (first_input x) x db
               | Some a \<Rightarrow>
                   if sa_status a = SA_executed
                   then Inr (None, save_instance (advance_step spec now x) db)
                   else if \<not> should_retry (ac_retry act) (attempt_category a) (sa_attempt a)
                     then Inr (Some WF_failed, save_instance (release_lease
                       (finish_with WF_failed [(''error'', JStr (case sa_error_summary a of
                          Some t \<Rightarrow> (if t = [] then ''step failed'' else t)
                        | None \<Rightarrow> ''step failed''))] x)) db)
                     else execute_step spec act now draw step (sa_attempt a + 1) (sa_input a) x db))))"

section \<open>The loops\<close>

text \<open>
  \<^verbatim>\<open>advance\<close> loops until a step returns a status; \<open>None\<close> outside: it does not return. The clock
  gives the time and the jitter draw of each step. An exception keeps what earlier steps committed.
\<close>

partial_function (option) advance_loop ::
    "'w workflow_spec registry \<Rightarrow> (nat \<Rightarrow> time \<times> rat) \<Rightarrow> nat \<Rightarrow> nat \<Rightarrow> 'w workflow_db
      \<Rightarrow> ((exn + workflow_status) \<times> 'w workflow_db) option" where
  "advance_loop reg clock n i db =
     (case step_once reg (fst (clock n)) (snd (clock n)) i db of
        Inl e \<Rightarrow> Some (Inl e, db)
      | Inr (Some st, db') \<Rightarrow> Some (Inr st, db')
      | Inr (None, db') \<Rightarrow> advance_loop reg clock (Suc n) i db')"

definition advance ::
    "'w workflow_spec registry \<Rightarrow> (nat \<Rightarrow> time \<times> rat) \<Rightarrow> nat \<Rightarrow> 'w workflow_db
      \<Rightarrow> ((exn + workflow_status) \<times> 'w workflow_db) option" where
  "advance reg clock i db = advance_loop reg clock 0 i db"

text \<open>The body of \<^verbatim>\<open>run_due\<close> after the claim committed; an exception stops the cycle.\<close>

fun advance_all ::
    "'w workflow_spec registry \<Rightarrow> (nat \<Rightarrow> nat \<Rightarrow> time \<times> rat) \<Rightarrow> string option
      \<Rightarrow> workflow_instance list \<Rightarrow> nat \<Rightarrow> 'w workflow_db
      \<Rightarrow> ((exn + nat) \<times> 'w workflow_db) option" where
  "advance_all reg clock key [] advanced db = Some (Inr advanced, db)"
| "advance_all reg clock key (x # xs) advanced db =
     (if (case key of Some k \<Rightarrow> wi_key x \<noteq> k | None \<Rightarrow> False)
      then advance_all reg clock key xs advanced db
      else case advance reg (clock (wi_id x)) (wi_id x) db of
        None \<Rightarrow> None
      | Some (Inl e, db') \<Rightarrow> Some (Inl e, db')
      | Some (Inr _, db') \<Rightarrow> advance_all reg clock key xs (Suc advanced) db')"

definition run_due ::
    "'w workflow_spec registry \<Rightarrow> (nat \<Rightarrow> nat \<Rightarrow> time \<times> rat) \<Rightarrow> string option \<Rightarrow> nat \<Rightarrow> string
      \<Rightarrow> int \<Rightarrow> time \<Rightarrow> 'w workflow_db \<Rightarrow> ((exn + nat) \<times> 'w workflow_db) option" where
  "run_due reg clock key batch owner lease now db =
     (case workflow_claim_due batch owner lease now (wd_instances db) of
        (claimed, xs) \<Rightarrow> advance_all reg clock key claimed 0 (db\<lparr>wd_instances := xs\<rparr>))"

interpretation workflow_queue: lease_queue wi_id workflow_due wi_lease_expires_at workflow_claim_due
  unfolding workflow_claim_due_def [abs_def]
  by (rule claim_with_lease_queue [where own = "\<lambda>_ _. True"])
     (auto simp: workflow_mark_leased_def workflow_due_def)

end
