(* ===== verification/Workflow_Runs.thy ===== *)
theory Workflow_Runs
  imports Kernel_Workflow
begin

text \<open>
  The effect of every operation of the workflow runner on the three tables, the step relation of
  a deployment (any mixture of starts, signals, claims and steps of any instance) and the
  invariant it keeps: row identity, the shape of the attempt history of every step, and no
  instance waiting for a signal that has arrived.
\<close>

section \<open>What a step does\<close>

definition runs_step ::
    "'w workflow_spec registry \<Rightarrow> 'w workflow_db \<Rightarrow> workflow_instance \<Rightarrow> 'w workflow_spec \<Rightarrow> string
      \<Rightarrow> 'w activity_spec \<Rightarrow> int \<Rightarrow> dict \<Rightarrow> bool" where
  "runs_step reg db x spec step act n input \<longleftrightarrow>
     registry_lookup reg (wi_key x) = Some spec \<and> wi_step x = Some step
     \<and> spec_activity spec step = Some act
     \<and> (case last_attempt db (wi_id x) step of
          None \<Rightarrow> n = 1 \<and> input = first_input x
        | Some a \<Rightarrow> sa_status a = SA_failed
            \<and> should_retry (ac_retry act) (attempt_category a) (sa_attempt a)
            \<and> n = sa_attempt a + 1 \<and> input = sa_input a)"

definition same_instance :: "workflow_instance \<Rightarrow> workflow_instance \<Rightarrow> bool" where
  "same_instance x y \<longleftrightarrow> wi_id y = wi_id x \<and> wi_key y = wi_key x
     \<and> wi_business_key y = wi_business_key x \<and> wi_input y = wi_input x"

lemma same_instance_refl [simp]: "same_instance x x"
  by (simp add: same_instance_def)

lemma get_instance_id: "get_instance db i = Some x \<Longrightarrow> wi_id x = i \<and> x \<in> set (wd_instances db)"
  unfolding get_instance_def by (auto dest: find_Some_mem)

lemma get_save_instance [table_simps]:
  "get_instance (save_instance y db) i
     = map_option (\<lambda>x. if wi_id x = wi_id y then y else x) (get_instance db i)"
  unfolding get_instance_def save_instance_def
  by (simp, subst find_update_where') auto

lemma get_instance_tables [table_simps]:
  "get_instance (db\<lparr>wd_attempts := ats\<rparr>) i = get_instance db i"
  "get_instance (db\<lparr>wd_signals := sigs\<rparr>) i = get_instance db i"
  "get_instance (db\<lparr>wd_world := w\<rparr>) i = get_instance db i"
  by (simp_all add: get_instance_def)

lemma save_instance_tables [table_simps]:
  "wd_attempts (save_instance y db) = wd_attempts db"
  "wd_signals (save_instance y db) = wd_signals db"
  "wd_next_id (save_instance y db) = wd_next_id db"
  "wd_world (save_instance y db) = wd_world db"
  "map wi_id (wd_instances (save_instance y db)) = map wi_id (wd_instances db)"
  by (simp_all add: save_instance_def, rule map_update_where', simp)

lemma new_attempt_simps [simp]:
  "sa_workflow (new_attempt i step n input out) = i"
  "sa_step (new_attempt i step n input out) = step"
  "sa_attempt (new_attempt i step n input out) = n"
  "sa_input (new_attempt i step n input out) = input"
  by (cases out; simp add: new_attempt_def)+

lemma step_once_cases:
  assumes "step_once reg now draw i db = Inr (r, db')"
  obtains (terminal) x where "get_instance db i = Some x" "terminal_status (wi_status x)"
      "db' = db" "r = Some (wi_status x)"
    | (quiet) x y where "get_instance db i = Some x" "\<not> terminal_status (wi_status x)"
      "db' = save_instance y db" "same_instance x y" "wi_state y = wi_state x"
      "wi_status y = wi_status x \<and> r = None
        \<and> (\<exists>spec. registry_lookup reg (wi_key x) = Some spec \<and> wi_step x \<noteq> None
            \<and> wi_step y = next_step spec (wi_step x))
       \<or> terminal_status (wi_status y) \<and> wi_step y = wi_step x \<and> r = Some (wi_status y)"
    | (run) x spec step act n input where "get_instance db i = Some x"
      "\<not> terminal_status (wi_status x)" "runs_step reg db x spec step act n input"
      "execute_step spec act now draw step n input x db = Inr (r, db')"
proof -
  from assms obtain x where x: "get_instance db i = Some x"
    by (auto simp: step_once_def cmd_ok)
  note step = assms[unfolded step_once_def x someE_simps bindE_simps workflow_require_def]
  from get_instance_id[OF x] have i: "wi_id x = i" by simp
  show thesis
  proof (cases "terminal_status (wi_status x)")
    case True
    with step terminal[OF x True] show thesis by simp
  next
    case live: False
    with step obtain spec where spec: "registry_lookup reg (wi_key x) = Some spec"
      by (auto simp: cmd_ok)
    show thesis
    proof (cases "wi_step x")
      case None
      with step live spec show thesis
        by (intro quiet[OF x live, of "release_lease
              (finish_with WF_completed [(''final'', JBool True)] x)"])
           (auto simp: finish_with_def release_lease_def same_instance_def terminal_status_def)
    next
      case (Some s)
      show thesis
      proof (cases "spec_activity spec s")
        case None
        with step live spec Some show thesis
          by (intro quiet[OF x live, of "finish_with WF_failed
                [(''error'', JStr (''unknown step '' @ s))] x"])
             (auto simp: finish_with_def same_instance_def terminal_status_def)
      next
        case act: (Some act)
        note step' = step[simplified live spec Some act someE_simps bindE_simps option.case if_False]
        show thesis
        proof (cases "last_attempt db i s")
          case None
          with step' spec Some act i show thesis
            by (intro run[OF x live, of spec s act 1 "first_input x"]) (auto simp: runs_step_def)
        next
          case last: (Some a)
          consider (executed) "sa_status a = SA_executed"
            | (giveup) "sa_status a = SA_failed" "\<not> should_retry (ac_retry act) (attempt_category a) (sa_attempt a)"
            | (again) "sa_status a = SA_failed" "should_retry (ac_retry act) (attempt_category a) (sa_attempt a)"
            by (cases "sa_status a") auto
          then show thesis
          proof cases
            case executed
            with step' last Some spec show thesis
              by (intro quiet[OF x live, of "advance_step spec now x"])
                 (auto simp: advance_step_def same_instance_def)
          next
            case giveup
            with step' last show thesis
              by (intro quiet[OF x live, of "release_lease (finish_with WF_failed [(''error'',
                    JStr (case sa_error_summary a of Some t \<Rightarrow> (if t = [] then ''step failed'' else t)
                          | None \<Rightarrow> ''step failed''))] x)"])
                 (auto simp: finish_with_def release_lease_def same_instance_def
                   terminal_status_def Let_def)
          next
            case again
            with step' last spec Some act i show thesis
              by (intro run[OF x live, of spec s act "sa_attempt a + 1" "sa_input a"])
                 (auto simp: runs_step_def Let_def)
          qed
        qed
      qed
    qed
  qed
qed

definition marked_signals :: "nat \<Rightarrow> workflow_signal list \<Rightarrow> workflow_signal list \<Rightarrow> bool" where
  "marked_signals i sigs sigs' \<longleftrightarrow> sigs' = sigs
     \<or> (\<exists>key t. sigs' = mark_first (is_undelivered i key) (\<lambda>s. s\<lparr>sg_delivered_at := Some t\<rparr>) sigs)"

definition no_lost_signal :: "'w workflow_db \<Rightarrow> workflow_instance \<Rightarrow> bool" where
  "no_lost_signal db x \<longleftrightarrow>
     (\<forall>key. waiting_on x key \<longrightarrow> undelivered_signals db (wi_id x) key = [])"

lemma store_signal_waiting:
  "store_signal key p st = Inr st' \<Longrightarrow> dget st' ''waiting_for'' = dget st ''waiting_for''"
  by (auto simp: store_signal_def cmd_ok)

text \<open>
  The instance belongs to a registered workflow, its step is one of the workflow's, and its state
  can hold signals.
\<close>

definition instance_ok :: "'w workflow_spec registry \<Rightarrow> workflow_instance \<Rightarrow> bool" where
  "instance_ok reg x \<longleftrightarrow> (case registry_lookup reg (wi_key x) of
       None \<Rightarrow> False
     | Some spec \<Rightarrow> (case wi_step x of
         None \<Rightarrow> True | Some k \<Rightarrow> k \<in> set (map ac_key (wf_activities spec))))
     \<and> \<not> isl (state_signals (wi_state x))"

lemma next_step_known:
  "next_step spec cur = Some k \<Longrightarrow> k \<in> ac_key ` set (wf_activities spec)"
proof -
  have "next_key c ks = Some k \<Longrightarrow> k \<in> set ks" for c ks
    by (induction ks) (auto split: if_splits list.splits)
  then show "next_step spec cur = Some k \<Longrightarrow> k \<in> ac_key ` set (wf_activities spec)"
    by (fastforce simp: next_step_def split: option.splits)
qed

lemma instance_ok_next:
  assumes "instance_ok reg x" and "wi_key y = wi_key x" and "\<not> isl (state_signals (wi_state y))"
    and "registry_lookup reg (wi_key x) = Some spec"
    and "wi_step y = wi_step x \<or> wi_step y = next_step spec c"
  shows "instance_ok reg y"
proof (cases "wi_step y")
  case (Some k)
  have "k \<in> ac_key ` set (wf_activities spec)"
    using assms(5)
  proof
    assume "wi_step y = wi_step x"
    with assms(1,4) Some show ?thesis by (simp add: instance_ok_def)
  next
    assume "wi_step y = next_step spec c"
    with Some show ?thesis by (intro next_step_known[of spec c]) simp
  qed
  with Some assms(2-4) show ?thesis by (simp add: instance_ok_def)
qed (use assms(2-4) in \<open>simp add: instance_ok_def\<close>)

lemma instance_ok_registered: "instance_ok reg x \<Longrightarrow> \<exists>spec. registry_lookup reg (wi_key x) = Some spec"
  by (auto simp: instance_ok_def split: option.splits)

lemma instance_ok_cong:
  "wi_key y = wi_key x \<Longrightarrow> wi_state y = wi_state x \<Longrightarrow> wi_step y = wi_step x
    \<Longrightarrow> instance_ok reg y = instance_ok reg x"
  unfolding instance_ok_def by (simp only:)

lemma state_signals_dset:
  "\<not> isl (state_signals st) \<Longrightarrow> \<not> isl (state_signals (dset k (JObj d) st))"
  "k \<noteq> ''signals'' \<Longrightarrow> state_signals (dset k v st) = state_signals st"
  "state_signals (dpop ''waiting_for'' st) = state_signals st"
  by (auto simp: state_signals_def)

lemma state_signals_store: "store_signal key p st = Inr st' \<Longrightarrow> \<not> isl (state_signals st')"
  by (auto simp: store_signal_def state_signals_def cmd_ok)

lemma execute_step_effect:
  assumes "execute_step spec act now draw step n input x db = Inr (r, db')"
    and "\<not> terminal_status (wi_status x)"
  obtains y out w sigs where
    "run_activity act input n (wd_world db) = (out, w)"
    "db' = save_instance y (db\<lparr>wd_attempts := wd_attempts db @ [new_attempt (wi_id x) step n input out],
       wd_world := w, wd_signals := sigs\<rparr>)"
    "same_instance x y" "marked_signals (wi_id x) (wd_signals db) sigs"
    "\<And>key. waiting_on y key \<Longrightarrow> waiting_on x key \<or> undelivered_signals db (wi_id x) key = []"
    "r = None \<Longrightarrow> wi_step x \<noteq> None \<Longrightarrow> wi_step y = next_step spec (wi_step x)"
    "r = None \<Longrightarrow> wi_step x \<noteq> None \<Longrightarrow> wi_status y = wi_status x"
    "\<not> isl (state_signals (wi_state x)) \<Longrightarrow> \<not> isl (state_signals (wi_state y))"
    "wi_step x \<noteq> None \<Longrightarrow> wi_step y = wi_step x \<or> wi_step y = next_step spec (wi_step x)"
proof -
  obtain out w where run: "run_activity act input n (wd_world db) = (out, w)"
    by (rule prod.exhaust)
  let ?db1 = "db\<lparr>wd_attempts := wd_attempts db @ [new_attempt (wi_id x) step n input out],
       wd_world := w\<rparr>"
  show thesis
  proof (cases out)
    case (Act_raised e msg)
    let ?y = "settle_step_failure (ac_retry act) now draw n e msg x"
    from Act_raised assms(1) run have "db' = save_instance ?y ?db1" "r = Some (wi_status ?y)"
      by (simp_all add: execute_step_def Let_def)
    then show thesis
      by (intro that[OF run, of ?y "wd_signals db"])
         (auto simp: settle_step_failure_def Let_def finish_with_def release_lease_def
            same_instance_def marked_signals_def waiting_on_def state_signals_dset split: if_splits)
  next
    case (Act_result result)
    let ?y = "x\<lparr>wi_state := dset step (JObj result) (wi_state x), wi_step_attempt := n\<rparr>"
    note settle = assms(1)[unfolded execute_step_def run Act_result, simplified]
    from settle obtain req where req: "wait_request result = Inr req"
      by (auto simp: settle_step_success_def Let_def cmd_ok)
    have und: "undelivered_signals (db\<lparr>wd_attempts := ats, wd_world := w'\<rparr>) = undelivered_signals db"
      for ats w' by (simp add: undelivered_signals_def fun_eq_iff)
    note settle = settle[unfolded settle_step_success_def Let_def req bindE_simps und]
    show thesis
    proof (cases req)
      case None
      with settle have "db' = save_instance (advance_step spec now ?y) ?db1" "r = None"
        by (simp_all add: Act_result)
      then show thesis
        by (intro that[OF run, of "advance_step spec now ?y" "wd_signals db"])
           (auto simp: advance_step_def same_instance_def marked_signals_def waiting_on_def state_signals_dset
              split: option.splits if_splits)
    next
      case (Some key)
      show thesis
      proof (cases "undelivered_signals db (wi_id x) key")
        case Nil
        with settle Some show thesis
          by (intro that[OF run, of "release_lease (?y\<lparr>wi_status := WF_waiting, wi_wake_at := None,
                wi_state := dset ''waiting_for'' (JStr key) (wi_state ?y)\<rparr>)" "wd_signals db"])
             (auto simp: Act_result release_lease_def same_instance_def marked_signals_def
                waiting_on_def state_signals_dset)
      next
        case (Cons s ss)
        let ?sigs = "mark_first (is_undelivered (wi_id x) key)
            (\<lambda>s. s\<lparr>sg_delivered_at := Some now\<rparr>) (wd_signals db)"
        from Cons settle Some obtain st' where
            st': "store_signal key (sg_payload s) (dset step (JObj result) (wi_state x)) = Inr st'"
          and db': "db' = save_instance (advance_step spec now (?y\<lparr>wi_state := st'\<rparr>))
            (?db1\<lparr>wd_signals := ?sigs\<rparr>)" and "r = None"
          by (auto simp: cmd_ok Act_result)
        note sig = state_signals_store[OF st']
        from store_signal_waiting[OF st'] have "dget st' ''waiting_for'' = Some (JStr k)
            \<Longrightarrow> dget (wi_state x) ''waiting_for'' = Some (JStr k)" for k
          by (auto split: if_splits)
        with db' sig show thesis
          by (intro that[OF run, of "advance_step spec now (?y\<lparr>wi_state := st'\<rparr>)" ?sigs])
             (auto simp: advance_step_def same_instance_def marked_signals_def waiting_on_def state_signals_dset
                split: option.splits)
      qed
    qed
  qed
qed

section \<open>Attempt histories\<close>

definition history :: "'w workflow_db \<Rightarrow> nat \<Rightarrow> string \<Rightarrow> step_attempt list" where
  "history db i step = filter (\<lambda>a. sa_workflow a = i \<and> sa_step a = step) (wd_attempts db)"

text \<open>
  The attempts of a step are numbered from one, all run on the input of the first, and every
  attempt but the last failed in a way its policy retries.
\<close>

definition history_ok ::
    "'w workflow_spec registry \<Rightarrow> string \<Rightarrow> string \<Rightarrow> step_attempt list \<Rightarrow> bool" where
  "history_ok reg key step h \<longleftrightarrow>
     map sa_attempt h = map int [1..<Suc (length h)]
     \<and> (\<exists>input. \<forall>a\<in>set h. sa_input a = input)
     \<and> (\<forall>spec act. registry_lookup reg key = Some spec \<longrightarrow> spec_activity spec step = Some act \<longrightarrow>
          (\<forall>a\<in>set (butlast h). sa_status a = SA_failed
             \<and> should_retry (ac_retry act) (attempt_category a) (sa_attempt a)))"

lemma history_ok_Nil [simp]: "history_ok reg key step []"
  by (simp add: history_ok_def)

lemma set_butlast_last: "h \<noteq> [] \<Longrightarrow> set h = insert (last h) (set (butlast h))"
  by (induction h) auto

lemma numbered_nth:
  assumes "map sa_attempt h = map int [1..<Suc (length h)]" and "k < length h"
  shows "sa_attempt (h ! k) = int (Suc k)"
proof -
  from assms(2) have "sa_attempt (h ! k) = map sa_attempt h ! k" by simp
  also have "\<dots> = int (Suc k)" using assms(2) by (simp add: assms(1) del: upt_Suc)
  finally show ?thesis .
qed

lemma numbered_last:
  assumes "map sa_attempt h = map int [1..<Suc (length h)]" and "h \<noteq> []"
  shows "sa_attempt (last h) = int (length h)"
  using numbered_nth[OF assms(1), of "length h - 1"] assms(2) by (simp add: last_conv_nth)

lemma last_attempt_history:
  assumes num: "map sa_attempt (history db i step) = map int [1..<Suc (length (history db i step))]"
  shows "last_attempt db i step
    = (if history db i step = [] then None else Some (last (history db i step)))"
proof (cases "history db i step = []")
  case True
  then show ?thesis by (simp add: last_attempt_def history_def)
next
  case False
  let ?h = "history db i step" and ?f = "\<lambda>a. - sa_attempt a"
  let ?s = "sort_key ?f ?h"
  from False obtain a as' where s: "?s = a # as'" by (cases ?s) (auto dest: arg_cong[of _ _ set])
  then have "set (a # as') = set ?h" by (metis set_sort)
  moreover have "sorted (map ?f (a # as'))" using s sorted_sort_key[of ?f ?h] by simp
  ultimately have a: "a \<in> set ?h" "\<And>b. b \<in> set ?h \<Longrightarrow> sa_attempt b \<le> sa_attempt a" by auto
  from a(1) obtain k where k: "k < length ?h" "a = ?h ! k" by (auto simp: in_set_conv_nth)
  have "sa_attempt (last ?h) \<le> sa_attempt a" using False by (intro a(2)) simp
  with k numbered_last[OF num False] numbered_nth[OF num k(1)] have "Suc k = length ?h" by simp
  with k have "a = last ?h" using False by (metis diff_Suc_1 last_conv_nth)
  with s False show ?thesis by (simp add: last_attempt_def history_def)
qed

lemma history_ok_snoc:
  assumes h: "history_ok reg key step (history db i step)"
    and runs: "runs_step reg db x spec step act n input" "wi_id x = i" "wi_key x = key"
    and a: "sa_attempt a = n" "sa_input a = input"
  shows "history_ok reg key step (history db i step @ [a])"
proof -
  let ?h = "history db i step"
  from h have num: "map sa_attempt ?h = map int [1..<Suc (length ?h)]" by (simp add: history_ok_def)
  note last = last_attempt_history[OF num]
  show ?thesis
  proof (cases "?h = []")
    case True
    with last runs a show ?thesis by (simp add: runs_step_def history_ok_def)
  next
    case False
    with last runs have fail: "sa_status (last ?h) = SA_failed"
      "should_retry (ac_retry act) (attempt_category (last ?h)) (sa_attempt (last ?h))"
      "n = sa_attempt (last ?h) + 1" "input = sa_input (last ?h)"
      and act: "registry_lookup reg key = Some spec" "spec_activity spec step = Some act"
      by (simp_all add: runs_step_def)
    have n: "n = int (Suc (length ?h))" using fail(3) numbered_last[OF num False] by simp
    have "map sa_attempt (?h @ [a]) = map int [1..<Suc (length (?h @ [a]))]"
      by (simp only: map_append num length_append list.size upt_Suc_append) (simp add: a n)
    moreover from h obtain inp where "\<forall>b\<in>set ?h. sa_input b = inp" by (auto simp: history_ok_def)
    then have "\<forall>b\<in>set (?h @ [a]). sa_input b = inp"
      using False a(2) fail(4) by simp
    moreover have "set (butlast (?h @ [a])) = insert (last ?h) (set (butlast ?h))"
      using set_butlast_last[OF False] by (simp only: butlast_snoc)
    ultimately show ?thesis
      using h fail(1,2) act unfolding history_ok_def by auto
  qed
qed

text \<open>Consequences: at most one executed attempt, the last; no more attempts than allowed.\<close>

lemma history_ok_executed:
  assumes "history_ok reg key step h" and "registry_lookup reg key = Some spec"
    and "spec_activity spec step = Some act" and "a \<in> set h" and "sa_status a = SA_executed"
  shows "h \<noteq> [] \<and> a = last h"
proof -
  from assms(4) have "h \<noteq> []" by auto
  from set_butlast_last[OF this] assms \<open>h \<noteq> []\<close> show ?thesis by (auto simp: history_ok_def)
qed

lemma history_ok_bound:
  assumes "history_ok reg key step h" and "registry_lookup reg key = Some spec"
    and "spec_activity spec step = Some act"
  shows "int (length h) \<le> max 1 (max_attempts (ac_retry act))"
proof (cases "length h \<le> 1")
  case False
  let ?k = "length h - 2"
  from False have k: "?k < length (butlast h)" by simp
  then have "butlast h ! ?k \<in> set (butlast h)" by (rule nth_mem)
  with assms have "should_retry (ac_retry act) (attempt_category (butlast h ! ?k))
      (sa_attempt (butlast h ! ?k))" unfolding history_ok_def by blast
  then have "sa_attempt (butlast h ! ?k) < max_attempts (ac_retry act)" by (rule should_retry_bounded)
  moreover have "sa_attempt (h ! ?k) = int (Suc ?k)"
    using assms(1) False by (intro numbered_nth) (auto simp: history_ok_def)
  ultimately show ?thesis using False k by (simp add: nth_butlast)
qed (simp add: max_def)

section \<open>Runs and their invariant\<close>

definition empty_workflow_db :: "'w \<Rightarrow> 'w workflow_db" where
  "empty_workflow_db w = \<lparr>wd_instances = [], wd_attempts = [], wd_signals = [], wd_next_id = 0,
     wd_world = w\<rparr>"

text \<open>Committed transactions: the runner's own and those of other components.\<close>

inductive workflow_step ::
    "'w workflow_spec registry \<Rightarrow> 'w workflow_db \<Rightarrow> 'w workflow_db \<Rightarrow> bool"
  for reg :: "'w workflow_spec registry" where
  ws_start: "start_workflow reg now key bkey input trace db = Inr (x, db')
    \<Longrightarrow> workflow_step reg db db'"
| ws_signal: "deliver_signal reg now uuid i key sid payload db = Inr (b, db')
    \<Longrightarrow> workflow_step reg db db'"
| ws_claim: "workflow_claim_due batch owner lease now (wd_instances db) = (claimed, xs)
    \<Longrightarrow> workflow_step reg db (db\<lparr>wd_instances := xs\<rparr>)"
| ws_once: "step_once reg now draw i db = Inr (r, db') \<Longrightarrow> workflow_step reg db db'"
| ws_world: "workflow_step reg db (db\<lparr>wd_world := w\<rparr>)"

inductive_cases workflow_stepE: "workflow_step reg db db'"

abbreviation workflow_steps ::
    "'w workflow_spec registry \<Rightarrow> 'w workflow_db \<Rightarrow> 'w workflow_db \<Rightarrow> bool" where
  "workflow_steps reg \<equiv> (workflow_step reg)\<^sup>*\<^sup>*"

definition workflow_inv :: "'w workflow_spec registry \<Rightarrow> 'w workflow_db \<Rightarrow> bool" where
  "workflow_inv reg db \<longleftrightarrow>
     distinct (map wi_id (wd_instances db))
     \<and> (\<forall>x\<in>set (wd_instances db). wi_id x < wd_next_id db)
     \<and> (\<forall>a\<in>set (wd_attempts db). sa_workflow a < wd_next_id db)
     \<and> (\<forall>x\<in>set (wd_instances db). no_lost_signal db x
          \<and> (\<forall>step. history_ok reg (wi_key x) step (history db (wi_id x) step))
          \<and> instance_ok reg x)"

lemma workflow_invD:
  assumes "workflow_inv reg db"
  shows "distinct (map wi_id (wd_instances db))"
    and "x \<in> set (wd_instances db) \<Longrightarrow> wi_id x < wd_next_id db"
    and "a \<in> set (wd_attempts db) \<Longrightarrow> sa_workflow a < wd_next_id db"
    and "x \<in> set (wd_instances db) \<Longrightarrow> no_lost_signal db x"
    and "x \<in> set (wd_instances db) \<Longrightarrow> history_ok reg (wi_key x) step (history db (wi_id x) step)"
    and "x \<in> set (wd_instances db) \<Longrightarrow> instance_ok reg x"
  using assms by (simp_all add: workflow_inv_def)

lemma workflow_inv_empty: "workflow_inv reg (empty_workflow_db w)"
  by (simp add: workflow_inv_def empty_workflow_db_def)

lemma history_cong: "wd_attempts db' = wd_attempts db \<Longrightarrow> history db' i step = history db i step"
  by (simp add: history_def)

lemma undelivered_cong:
  "wd_signals db' = wd_signals db \<Longrightarrow> undelivered_signals db' i key = undelivered_signals db i key"
  by (simp add: undelivered_signals_def)

lemma undelivered_marked:
  assumes "marked_signals i (wd_signals db) (wd_signals db')" and "undelivered_signals db j key = []"
  shows "undelivered_signals db' j key = []"
proof -
  have mark: "filter (is_undelivered j key) (mark_first (is_undelivered i k)
      (\<lambda>s. s\<lparr>sg_delivered_at := Some t\<rparr>) sigs) = []"
    if "filter (is_undelivered j key) sigs = []" for k t sigs
    using that by (induction sigs) (auto simp: is_undelivered_def split: if_splits)
  from assms show ?thesis
    by (auto simp: marked_signals_def undelivered_signals_def mark)
qed

text \<open>One instance is written back; attempts and signals change only for that instance.\<close>

lemma workflow_inv_save:
  assumes inv: "workflow_inv reg db" and x: "get_instance db i = Some x" and y: "same_instance x y"
    and tables: "wd_instances db' = wd_instances db" "wd_next_id db' = wd_next_id db"
      "wd_attempts db' = wd_attempts db @ new" "\<And>a. a \<in> set new \<Longrightarrow> sa_workflow a = i"
    and hist: "\<And>step. history_ok reg (wi_key x) step (history db' i step)"
    and others: "\<And>j key. j \<noteq> i \<Longrightarrow> undelivered_signals db j key = []
        \<Longrightarrow> undelivered_signals db' j key = []"
    and wait: "no_lost_signal db' y" and ok: "instance_ok reg y"
  shows "workflow_inv reg (save_instance y db')"
proof -
  from get_instance_id[OF x] y have i: "wi_id x = i" "wi_id y = i" "wi_key y = wi_key x"
    and xmem: "x \<in> set (wd_instances db)" by (simp_all add: same_instance_def)
  have hist_other: "history db' j step = history db j step" if "j \<noteq> i" for j step
  proof -
    have "filter (\<lambda>a. sa_workflow a = j \<and> sa_step a = step) new = []"
      using tables(4) that by (auto simp: filter_empty_conv)
    then show ?thesis by (simp add: history_def tables(3))
  qed
  have row: "no_lost_signal (save_instance y db') z \<and>
      (\<forall>step. history_ok reg (wi_key z) step (history (save_instance y db') (wi_id z) step))
      \<and> instance_ok reg z"
    if "z \<in> set (wd_instances (save_instance y db'))" for z
  proof (cases "wi_id z = i")
    case True
    with that i have "z = y"
      by (auto simp: save_instance_def set_update_where tables split: if_splits)
    with hist wait ok i show ?thesis
      by (simp add: no_lost_signal_def history_cong[OF save_instance_tables(1)]
          undelivered_cong[OF save_instance_tables(2)])
  next
    case False
    with that i have z: "z \<in> set (wd_instances db)"
      by (auto simp: save_instance_def set_update_where tables split: if_splits)
    with False show ?thesis
      using workflow_invD(4,5,6)[OF inv z] others
      by (simp add: no_lost_signal_def history_cong[OF save_instance_tables(1)] hist_other
          undelivered_cong[OF save_instance_tables(2)])
  qed
  have ids: "map wi_id (wd_instances (save_instance y db')) = map wi_id (wd_instances db)"
    by (simp add: save_instance_tables tables)
  then have "set (map wi_id (wd_instances (save_instance y db'))) = set (map wi_id (wd_instances db))"
    by (simp only:)
  then have "\<forall>z\<in>set (wd_instances (save_instance y db')). wi_id z < wd_next_id db"
    using workflow_invD(2)[OF inv] by (metis (no_types, lifting) imageE image_eqI list.set_map)
  moreover have "\<forall>a\<in>set (wd_attempts db'). sa_workflow a < wd_next_id db"
    using workflow_invD(2,3)[OF inv] tables(3,4) i(1) xmem by auto
  ultimately show ?thesis
    using workflow_invD(1)[OF inv] row ids unfolding workflow_inv_def
    by (simp add: save_instance_tables tables)
qed

lemma workflow_inv_once:
  assumes inv: "workflow_inv reg db" and step: "step_once reg now draw i db = Inr (r, db')"
  shows "workflow_inv reg db'"
  using step
proof (cases rule: step_once_cases)
  case (terminal x)
  with inv show ?thesis by simp
next
  case (quiet x y)
  have "waiting_on y key \<Longrightarrow> waiting_on x key" for key
    using quiet(5,6) by (auto simp: waiting_on_def terminal_status_def)
  then have "no_lost_signal db y"
    using workflow_invD(4)[OF inv, of x] get_instance_id[OF quiet(1)] quiet(4)
    by (auto simp: no_lost_signal_def same_instance_def)
  moreover have "instance_ok reg y"
  proof -
    have x: "instance_ok reg x" using workflow_invD(6)[OF inv] get_instance_id[OF quiet(1)] by simp
    then obtain spec where "registry_lookup reg (wi_key x) = Some spec"
      using instance_ok_registered by blast
    with instance_ok_next[OF x, of y spec "wi_step x"] x quiet(4,5,6) show ?thesis
      by (auto simp: same_instance_def instance_ok_def)
  qed
  ultimately show ?thesis
    using quiet workflow_invD(5)[OF inv, of x] get_instance_id[OF quiet(1)]
    by (auto intro!: workflow_inv_save[OF inv quiet(1,4), of db "[]"])
next
  case (run x spec step act n input)
  from get_instance_id[OF run(1)] have i: "wi_id x = i" "x \<in> set (wd_instances db)" by auto
  show ?thesis using run(4,2)
  proof (cases rule: execute_step_effect)
    case (1 y out w sigs)
    let ?a = "new_attempt (wi_id x) step n input out"
    let ?db1 = "db\<lparr>wd_attempts := wd_attempts db @ [?a], wd_world := w, wd_signals := sigs\<rparr>"
    have a: "sa_workflow ?a = i" "sa_step ?a = step" "sa_attempt ?a = n" "sa_input ?a = input"
      by (simp_all add: i)
    have "history_ok reg (wi_key x) s (history ?db1 i s)" for s
    proof (cases "s = step")
      case True
      have "history ?db1 i s = history db i s @ [?a]" using a True by (simp add: history_def)
      then show ?thesis
        using history_ok_snoc[OF _ run(3) i(1) refl a(3,4)] workflow_invD(5)[OF inv i(2)] i True
        by simp
    next
      case False
      then have "history ?db1 i s = history db i s" using a by (simp add: history_def)
      then show ?thesis using workflow_invD(5)[OF inv i(2)] i by simp
    qed
    moreover have "no_lost_signal ?db1 y"
      using workflow_invD(4)[OF inv i(2)] 1(3,4,5) i undelivered_marked[of i db ?db1]
      by (auto simp: no_lost_signal_def same_instance_def)
    moreover have "instance_ok reg y"
      using instance_ok_next[OF workflow_invD(6)[OF inv i(2)], of y spec "wi_step x"] 1(3,8,9) run(3)
        workflow_invD(6)[OF inv i(2)]
      by (auto simp: same_instance_def instance_ok_def runs_step_def)
    ultimately show ?thesis
      unfolding 1(2)
      using a(1) 1(4) i undelivered_marked[of i db ?db1]
      by (intro workflow_inv_save[OF inv run(1) 1(3)]) auto
  qed
qed

lemma start_workflow_cases:
  assumes "start_workflow reg now key bkey input trace db = Inr (x, db')"
  obtains (existing) "find_by_business_key db key bkey = Some x" "db' = db"
    | (fresh) spec where "find_by_business_key db key bkey = None"
      "registry_lookup reg key = Some spec" "wf_activities spec \<noteq> []"
      "x = new_instance (wd_next_id db) spec key bkey input trace now"
      "db' = db\<lparr>wd_instances := wd_instances db @ [x], wd_next_id := Suc (wd_next_id db)\<rparr>"
proof (cases "find_by_business_key db key bkey")
  case None
  with assms show thesis
    by (auto simp: start_workflow_def workflow_require_def cmd_ok Let_def intro: fresh)
next
  case (Some y)
  with assms show thesis
    by (auto simp: start_workflow_def workflow_require_def cmd_ok intro: existing)
qed

lemma workflow_inv_start:
  assumes inv: "workflow_inv reg db"
    and start: "start_workflow reg now key bkey input trace db = Inr (x, db')"
  shows "workflow_inv reg db'"
  using start
proof (cases rule: start_workflow_cases)
  case (fresh spec)
  have old: "\<And>z. z \<in> set (wd_instances db) \<Longrightarrow> wi_id z < wd_next_id db"
    and oldatt: "\<And>a. a \<in> set (wd_attempts db) \<Longrightarrow> sa_workflow a < wd_next_id db"
    using workflow_invD(2,3)[OF inv] by auto
  have x: "wi_id x = wd_next_id db" "wi_status x = WF_pending" by (simp_all add: fresh new_instance_def)
  have tables: "history db' j step = history db j step"
    "undelivered_signals db' j k = undelivered_signals db j k" for j step k
    by (simp_all add: history_def undelivered_signals_def fresh(5))
  have "history db (wd_next_id db) step = []" for step
    by (auto simp: history_def filter_empty_conv dest: oldatt)
  then have "\<And>step. history_ok reg (wi_key x) step (history db' (wi_id x) step)"
    by (simp add: x tables)
  moreover have "instance_ok reg x"
    using fresh(2,3) by (simp add: fresh(4) instance_ok_def new_instance_def state_signals_def)
  ultimately have "no_lost_signal db' x \<and> instance_ok reg x
      \<and> (\<forall>step. history_ok reg (wi_key x) step (history db' (wi_id x) step))"
    by (simp add: no_lost_signal_def waiting_on_def x tables)
  moreover have "no_lost_signal db' z \<and> instance_ok reg z
      \<and> (\<forall>step. history_ok reg (wi_key z) step (history db' (wi_id z) step))"
    if "z \<in> set (wd_instances db)" for z
    using workflow_invD(4,5,6)[OF inv that] by (simp add: no_lost_signal_def tables)
  ultimately have "\<forall>z\<in>set (wd_instances db'). no_lost_signal db' z \<and> instance_ok reg z
      \<and> (\<forall>step. history_ok reg (wi_key z) step (history db' (wi_id z) step))"
    by (auto simp: fresh(5))
  then show ?thesis
    using old oldatt workflow_invD(1)[OF inv] x(1) less_SucI
    unfolding workflow_inv_def by (fastforce simp: fresh(5))
qed (use inv in simp)

lemma deliver_signal_cases:
  assumes "deliver_signal reg now uuid i key sid payload db = Inr (b, db')"
  obtains (ignored) "\<not> b" "db' = db"
    | (stored) x uid db1 where "b" "get_instance db i = Some x" "\<not> terminal_status (wi_status x)"
      "uid = (case sid of Some s \<Rightarrow> s | None \<Rightarrow> uuid)"
      "\<not> list_ex (\<lambda>s. sg_workflow s = i \<and> sg_key s = key \<and> sg_signal s = uid) (wd_signals db)"
      "db1 = db\<lparr>wd_signals := wd_signals db @ [\<lparr>sg_workflow = i, sg_key = key,
         sg_signal = uid, sg_payload = payload, sg_delivered_at = None\<rparr>]\<rparr>"
      "\<not> waiting_on x key \<and> db' = db1
       \<or> waiting_on x key \<and> (\<exists>spec st. registry_lookup reg (wi_key x) = Some spec
           \<and> store_signal key payload (wi_state x) = Inr st
           \<and> db' = save_instance (x\<lparr>wi_state := dpop ''waiting_for'' st,
               wi_step := next_step spec (wi_step x), wi_status := WF_pending,
               wi_wake_at := Some now\<rparr>) db1)"
proof -
  from assms obtain x where x: "get_instance db i = Some x"
    by (auto simp: deliver_signal_def cmd_ok)
  note deliver = assms[unfolded deliver_signal_def x someE_simps bindE_simps]
  let ?uid = "case sid of Some s \<Rightarrow> s | None \<Rightarrow> uuid"
  show thesis
  proof (cases "terminal_status (wi_status x)
      \<or> list_ex (\<lambda>s. sg_workflow s = i \<and> sg_key s = key \<and> sg_signal s = ?uid) (wd_signals db)")
    case True
    with deliver show thesis by (intro ignored) (auto simp: cmd_ok Let_def split: if_splits)
  next
    case False
    with deliver show thesis
      by (intro stored[OF _ x _ refl _ refl])
         (auto simp: cmd_ok Let_def workflow_require_def split: if_splits)
  qed
qed

lemma workflow_inv_signal:
  assumes inv: "workflow_inv reg db"
    and deliver: "deliver_signal reg now uuid i key sid payload db = Inr (b, db')"
  shows "workflow_inv reg db'"
  using deliver
proof (cases rule: deliver_signal_cases)
  case (stored x uid db1)
  from get_instance_id[OF stored(2)] have i: "wi_id x = i" "x \<in> set (wd_instances db)" by auto
  have und: "undelivered_signals db1 j k = undelivered_signals db j k
      @ (if j = i \<and> k = key then [\<lparr>sg_workflow = i, sg_key = key,
         sg_signal = uid, sg_payload = payload, sg_delivered_at = None\<rparr>] else [])" for j k
    by (auto simp: undelivered_signals_def is_undelivered_def stored(6))
  have "workflow_inv reg (save_instance y db1)"
    if "same_instance x y" "\<And>k. waiting_on y k \<Longrightarrow> waiting_on x k \<and> k \<noteq> key"
      "instance_ok reg y" for y
    using workflow_invD(4,5)[OF inv i(2)] that i
    by (intro workflow_inv_save[OF inv stored(2) that(1), of db1 "[]"])
       (auto simp: stored(6) history_def no_lost_signal_def und[unfolded stored(6)] same_instance_def)
  moreover have "save_instance x db1 = db1"
  proof -
    have "update_where (\<lambda>z. wi_id z = wi_id x) (\<lambda>_. x) (wd_instances db1) = wd_instances db1"
      unfolding update_where_def stored(6)
      using workflow_invD(1)[OF inv] i(2)
      by (auto intro!: map_idI simp: distinct_map inj_on_def)
    then show ?thesis by (simp add: save_instance_def)
  qed
  moreover have "instance_ok reg (x\<lparr>wi_state := dpop ''waiting_for'' st,
       wi_step := next_step spec (wi_step x), wi_status := WF_pending, wi_wake_at := Some now\<rparr>)"
    if "registry_lookup reg (wi_key x) = Some spec" "store_signal key payload (wi_state x) = Inr st"
    for spec st
    using that state_signals_store[OF that(2)]
    by (intro instance_ok_next[OF workflow_invD(6)[OF inv i(2)]]) (auto simp: state_signals_dset)
  ultimately show ?thesis
    using stored(7) workflow_invD(6)[OF inv i(2)] by (fastforce simp: same_instance_def waiting_on_def)
qed (use inv in simp)

lemma workflow_inv_claim:
  assumes inv: "workflow_inv reg db"
    and claim: "workflow_claim_due batch owner lease now (wd_instances db) = (claimed, xs)"
  shows "workflow_inv reg (db\<lparr>wd_instances := xs\<rparr>)"
proof -
  from claim obtain p where xs: "xs = update_where p
      (workflow_mark_leased owner (now + seconds lease)) (wd_instances db)"
    using claim_with_table by (metis snd_conv workflow_claim_due_def)
  let ?db = "db\<lparr>wd_instances := xs\<rparr>"
  have ids: "map wi_id xs = map wi_id (wd_instances db)"
    unfolding xs by (rule map_update_where') (simp add: workflow_mark_leased_def)
  have row: "\<exists>x0\<in>set (wd_instances db). wi_id x = wi_id x0 \<and> wi_key x = wi_key x0
      \<and> wi_status x = wi_status x0 \<and> wi_state x = wi_state x0 \<and> wi_step x = wi_step x0" if "x \<in> set xs" for x
    using that by (auto simp: xs set_update_where workflow_mark_leased_def)
  have "no_lost_signal ?db x \<and> wi_id x < wd_next_id db \<and> instance_ok reg x
      \<and> (\<forall>step. history_ok reg (wi_key x) step (history ?db (wi_id x) step))" if "x \<in> set xs" for x
  proof -
    from row[OF that] obtain x0 where x0: "x0 \<in> set (wd_instances db)" "wi_id x = wi_id x0"
      "wi_key x = wi_key x0" "wi_status x = wi_status x0" "wi_state x = wi_state x0"
      "wi_step x = wi_step x0"
      by blast
    then have "waiting_on x = waiting_on x0" "instance_ok reg x = instance_ok reg x0"
      by (simp add: waiting_on_def fun_eq_iff) (rule instance_ok_cong[OF x0(3,5,6)])
    with workflow_invD(2,4,5,6)[OF inv x0(1)] x0(2,3) show ?thesis
      by (simp add: no_lost_signal_def history_def undelivered_signals_def)
  qed
  then show ?thesis
    using ids workflow_invD(1,3)[OF inv] unfolding workflow_inv_def by simp
qed

theorem workflow_inv_step:
  assumes "workflow_inv reg db" and "workflow_step reg db db'"
  shows "workflow_inv reg db'"
  using assms(2)
proof cases
  case (ws_world w)
  with assms(1) show ?thesis
    by (simp add: workflow_inv_def no_lost_signal_def undelivered_signals_def history_def)
qed (use assms(1) in \<open>auto intro: workflow_inv_start workflow_inv_signal workflow_inv_claim
      workflow_inv_once\<close>)

lemma workflow_inv_steps:
  "workflow_steps reg db db' \<Longrightarrow> workflow_inv reg db \<Longrightarrow> workflow_inv reg db'"
  by (induction rule: rtranclp_induct) (auto intro: workflow_inv_step)

end
