(* ===== verification/Workflow_Correct.thy ===== *)
theory Workflow_Correct
  imports Workflow_Runs
begin

text \<open>
  What stays and what progresses in the workflow runner: rows that no later transaction changes,
  the return of the advance loop for registered workflows, and the run of a workflow whose
  activities succeed.
\<close>

section \<open>What later transactions keep\<close>

lemma step_keeps_instance:
  assumes "workflow_step reg db db'" and x: "get_instance db i = Some x"
  shows "\<exists>x'. get_instance db' i = Some x' \<and> same_instance x x'
    \<and> (terminal_status (wi_status x) \<longrightarrow> x' = x)"
proof -
  have save: "\<exists>x'. get_instance (save_instance y db1) i = Some x' \<and> same_instance x x'
      \<and> (terminal_status (wi_status x) \<longrightarrow> x' = x)"
    if "get_instance db1 i = get_instance db i" "get_instance db j = Some z" "same_instance z y"
      "\<not> terminal_status (wi_status z)" for y z j db1
    using that x get_instance_id[OF that(2)] get_instance_id[OF x]
    by (auto simp: table_simps same_instance_def)
  from assms(1) show ?thesis
  proof cases
    case (ws_start now key bkey input trace y)
    from ws_start(1) show ?thesis
      by (cases rule: start_workflow_cases) (use x in \<open>auto simp: get_instance_def find_append\<close>)
  next
    case (ws_signal now uuid j key sid payload b)
    from ws_signal(1) show ?thesis
    proof (cases rule: deliver_signal_cases)
      case (stored z uid db1)
      have get: "get_instance db1 i = get_instance db i" by (simp add: get_instance_def stored(6))
      show ?thesis
      proof (cases "waiting_on z key")
        case True
        with stored(7) obtain y where "db' = save_instance y db1" "same_instance z y"
          by (auto simp: same_instance_def)
        with save[OF get stored(2) _ stored(3)] show ?thesis by blast
      qed (use stored(7) x get in simp)
    qed (use x in simp)
  next
    case (ws_claim batch owner lease now claimed xs)
    have t: "snd (workflow_claim_due batch owner lease now (wd_instances db)) = xs"
      using ws_claim(2) by simp
    obtain ids where xs: "xs = update_where (\<lambda>r. wi_id r \<in> ids \<and> workflow_due now r)
        (workflow_mark_leased owner (now + seconds lease)) (wd_instances db)"
      using t unfolding workflow_claim_due_def claim_with_table by blast
    have "get_instance db' i = map_option (\<lambda>r. if wi_id r \<in> ids \<and> workflow_due now r
        then workflow_mark_leased owner (now + seconds lease) r else r) (get_instance db i)"
      by (simp add: ws_claim(1) get_instance_def xs find_update_where workflow_mark_leased_def)
    with x show ?thesis
      by (auto simp: same_instance_def workflow_mark_leased_def workflow_due_def terminal_status_def)
  next
    case (ws_once now draw j r)
    from ws_once show ?thesis
    proof (cases rule: step_once_cases)
      case (quiet z y)
      with save[OF refl quiet(1,4,2)] show ?thesis by simp
    next
      case (run z spec step act n input)
      from run(4,2) show ?thesis
      proof (cases rule: execute_step_effect)
        case (1 y out w sigs)
        show ?thesis unfolding 1(2)
          by (rule save[OF _ run(1) 1(3) run(2)]) (simp add: get_instance_def)
      qed
    qed (use x in simp)
  next
    case (ws_world w)
    with x show ?thesis by (simp add: get_instance_def)
  qed
qed

lemma steps_keep_instance:
  assumes "workflow_steps reg db db'" and "get_instance db i = Some x"
  shows "\<exists>x'. get_instance db' i = Some x' \<and> same_instance x x'
    \<and> (terminal_status (wi_status x) \<longrightarrow> x' = x)"
  using assms
proof (induction rule: rtranclp_induct)
  case (step db1 db2)
  then obtain x1 where x1: "get_instance db1 i = Some x1" "same_instance x x1"
    "terminal_status (wi_status x) \<longrightarrow> x1 = x" by auto
  from step_keeps_instance[OF step(2) x1(1)] x1 show ?case by (auto simp: same_instance_def)
qed simp

definition signal_stored :: "'w workflow_db \<Rightarrow> nat \<Rightarrow> string \<Rightarrow> nat \<Rightarrow> bool" where
  "signal_stored db i key uid \<longleftrightarrow>
     list_ex (\<lambda>s. sg_workflow s = i \<and> sg_key s = key \<and> sg_signal s = uid) (wd_signals db)"

lemma list_ex_mark_first: "(\<And>r. q (f r) = q r) \<Longrightarrow> list_ex q (mark_first p f rs) = list_ex q rs"
  by (induction rs) auto

lemma step_once_signals:
  assumes "step_once reg now draw i db = Inr (r, db')"
  shows "\<exists>j. marked_signals j (wd_signals db) (wd_signals db')"
  using assms
proof (cases rule: step_once_cases)
  case (run z spec step act n input)
  from run(4,2) show ?thesis
    by (cases rule: execute_step_effect) (auto simp: table_simps)
qed (auto simp: table_simps marked_signals_def)

lemma step_keeps_signal:
  assumes "workflow_step reg db db'" and "signal_stored db i key uid"
  shows "signal_stored db' i key uid"
  using assms(1)
proof cases
  case (ws_start now k bkey input trace y)
  from ws_start(1) show ?thesis
    by (cases rule: start_workflow_cases) (use assms(2) in \<open>auto simp: signal_stored_def\<close>)
next
  case (ws_signal now uuid j k sid payload b)
  from ws_signal(1) show ?thesis
    by (cases rule: deliver_signal_cases)
       (use assms(2) in \<open>auto simp: signal_stored_def table_simps\<close>)
next
  case (ws_once now draw j r)
  from step_once_signals[OF ws_once] show ?thesis
    using assms(2) by (auto simp: marked_signals_def signal_stored_def list_ex_mark_first)
qed (use assms(2) in \<open>auto simp: signal_stored_def\<close>)

lemma steps_keep_signal:
  "workflow_steps reg db db' \<Longrightarrow> signal_stored db i key uid \<Longrightarrow> signal_stored db' i key uid"
  by (induction rule: rtranclp_induct) (auto intro: step_keeps_signal)

text \<open>
  The history of a step grows by one attempt at a time, and not at all once an attempt was executed.
\<close>

lemma step_keeps_history:
  assumes inv: "workflow_inv reg db" and "workflow_step reg db db'"
    and last: "history db i step \<noteq> []" "sa_status (last (history db i step)) = SA_executed"
    and mem: "get_instance db i = Some x"
  shows "history db' i step = history db i step"
  using assms(2)
proof cases
  case (ws_start now key bkey input trace y)
  from ws_start(1) show ?thesis by (cases rule: start_workflow_cases) (auto simp: history_def)
next
  case (ws_signal now uuid j key sid payload b)
  from ws_signal(1) show ?thesis
    by (cases rule: deliver_signal_cases) (auto simp: history_def table_simps)
next
  case (ws_once now draw j r)
  from ws_once show ?thesis
  proof (cases rule: step_once_cases)
    case (run z spec s act n input)
    from get_instance_id[OF run(1)] have j: "wi_id z = j" and z: "z \<in> set (wd_instances db)" by auto
    from workflow_invD(5)[OF inv z, of s] have
      "map sa_attempt (history db j s) = map int [1..<Suc (length (history db j s))]"
      by (simp add: history_ok_def j)
    from last_attempt_history[OF this] run(3) last have "\<not> (j = i \<and> s = step)"
      by (auto simp: runs_step_def j)
    moreover have "\<exists>out. wd_attempts db' = wd_attempts db @ [new_attempt j s n input out]"
      using run(4,2) by (cases rule: execute_step_effect) (auto simp: table_simps j)
    ultimately show ?thesis
      by (auto simp: history_def)
  qed (auto simp: history_def table_simps)
qed (auto simp: history_def)

lemma steps_keep_history:
  assumes "workflow_steps reg db db'" and "workflow_inv reg db" and "get_instance db i = Some x"
    and "history db i step \<noteq> []" "sa_status (last (history db i step)) = SA_executed"
  shows "history db' i step = history db i step"
  using assms
proof (induction rule: rtranclp_induct)
  case (step db1 db2)
  then have "history db1 i step = history db i step" by blast
  moreover obtain x1 where "get_instance db1 i = Some x1"
    using steps_keep_instance[OF step(1,5)] by auto
  moreover have "workflow_inv reg db1" by (rule workflow_inv_steps[OF step(1,4)])
  ultimately show ?case using step_keeps_history[OF _ step(2)] step(6,7) by simp
qed simp

section \<open>The advance loop\<close>

text \<open>Every registered workflow has distinct activity keys, as \<open>make_workflow_spec\<close> demands.\<close>

definition registry_wf :: "'w workflow_spec registry \<Rightarrow> bool" where
  "registry_wf reg \<longleftrightarrow> list_all (\<lambda>kv. distinct (map ac_key (wf_activities (snd kv)))) (reg_items reg)"

lemma registry_wf_lookup:
  "registry_wf reg \<Longrightarrow> registry_lookup reg k = Some spec \<Longrightarrow> distinct (map ac_key (wf_activities spec))"
  by (auto simp: registry_wf_def registry_lookup_def dget_def list_all_iff dest!: map_of_SomeD)

text \<open>Boot builds such a registry from specs that were constructed.\<close>

lemma registry_wf_boot:
  assumes "register_all workflow_register xs reg0 = Inr reg" and "registry_wf reg0"
    and "\<And>k spec. (k, spec) \<in> set xs \<Longrightarrow> \<exists>key ver acts sigs. make_workflow_spec key ver acts sigs = Inr spec"
  shows "registry_wf reg"
  using assms
proof (induction xs arbitrary: reg0)
  case (Cons x xs)
  obtain k spec where x: "x = (k, spec)" by (cases x)
  with Cons.prems obtain reg1 where r: "workflow_register k spec reg0 = Inr reg1"
    "register_all workflow_register xs reg1 = Inr reg"
    by (auto simp: cmd_ok)
  from Cons.prems(3)[of k spec] x have "distinct (map ac_key (wf_activities spec))"
    by (auto simp: make_workflow_spec_def cmd_ok)
  moreover have "reg1 = registry_store k spec reg0" using r(1) by (auto simp: workflow_register_def cmd_ok)
  moreover have "set (AList.update k spec its) \<subseteq> insert (k, spec) (set its)" for its
    by (induction its) auto
  ultimately have "registry_wf reg1"
    using Cons.prems(2) unfolding registry_wf_def registry_store_def dset_def list_all_iff
    by fastforce
  show ?case by (rule Cons.IH[OF r(2) \<open>registry_wf reg1\<close>]) (meson Cons.prems(3) list.set_intros(2))
qed simp

text \<open>Steps still ahead; the measure of the loop.\<close>

definition steps_ahead :: "'w workflow_spec \<Rightarrow> string option \<Rightarrow> nat" where
  "steps_ahead spec cur = (case cur of
     None \<Rightarrow> 0 | Some k \<Rightarrow> Suc (length (dropWhile (\<lambda>x. x \<noteq> k) (map ac_key (wf_activities spec)))))"

lemma next_key_ahead:
  assumes "distinct ks" and "next_key k ks = Some k'"
  shows "length (dropWhile (\<lambda>x. x \<noteq> k') ks) < length (dropWhile (\<lambda>x. x \<noteq> k) ks)"
  using assms
proof (induction ks)
  case (Cons x xs)
  show ?case
  proof (cases "x = k")
    case True
    with Cons.prems show ?thesis by (auto split: list.splits)
  next
    case False
    have "next_key k xs = Some k' \<Longrightarrow> k' \<in> set xs"
      by (induction xs) (auto split: if_splits list.splits)
    with False Cons show ?thesis by auto
  qed
qed simp

lemma next_step_ahead:
  assumes "distinct (map ac_key (wf_activities spec))" and "cur \<noteq> None"
  shows "steps_ahead spec (next_step spec cur) < steps_ahead spec cur"
  using next_key_ahead[OF assms(1)] assms(2)
  by (auto simp: steps_ahead_def next_step_def split: option.splits)

lemma step_once_continues:
  assumes "step_once reg now draw i db = Inr (None, db')"
  obtains x y spec where "get_instance db i = Some x" "get_instance db' i = Some y"
    "wi_key y = wi_key x" "registry_lookup reg (wi_key x) = Some spec" "wi_step x \<noteq> None"
    "wi_step y = next_step spec (wi_step x)" "wi_status y = wi_status x"
  using assms
proof (cases rule: step_once_cases)
  case (terminal x)
  from terminal(4) show thesis by simp
next
  case (quiet x y)
  then obtain spec where "registry_lookup reg (wi_key x) = Some spec" "wi_step x \<noteq> None"
    "wi_step y = next_step spec (wi_step x)" "wi_status y = wi_status x" by auto
  with quiet(1,3,4) that show thesis by (auto simp: table_simps same_instance_def)
next
  case (run x spec step act n input)
  from run(3) have step: "registry_lookup reg (wi_key x) = Some spec" "wi_step x \<noteq> None"
    by (auto simp: runs_step_def)
  from run(4,2) show thesis
  proof (cases rule: execute_step_effect)
    case (1 y out w sigs)
    have "get_instance db' i = Some y"
      using run(1) 1(2,3) get_instance_id[OF run(1)] by (simp add: table_simps same_instance_def)
    with that run(1) step 1(3,6,7) show thesis by (auto simp: same_instance_def)
  qed
qed

lemma advance_loop_returns:
  assumes "registry_wf reg"
  shows "\<exists>r. advance_loop reg clock n i db = Some r"
proof (induction "case get_instance db i of None \<Rightarrow> 0 | Some x \<Rightarrow>
      (case registry_lookup reg (wi_key x) of None \<Rightarrow> 0 | Some spec \<Rightarrow> steps_ahead spec (wi_step x))"
    arbitrary: n db rule: less_induct)
  case less
  let ?step = "step_once reg (fst (clock n)) (snd (clock n)) i db"
  show ?case
  proof (cases "\<exists>db'. ?step = Inr (None, db')")
    case True
    then obtain db' where db': "?step = Inr (None, db')" ..
    then obtain x y spec where *: "get_instance db i = Some x" "get_instance db' i = Some y"
      "wi_key y = wi_key x" "registry_lookup reg (wi_key x) = Some spec" "wi_step x \<noteq> None"
      "wi_step y = next_step spec (wi_step x)"
      by (rule step_once_continues)
    from next_step_ahead[OF registry_wf_lookup[OF assms *(4)] *(5)] * 
    have "\<exists>r. advance_loop reg clock (Suc n) i db' = Some r" by (intro less) simp
    then show ?thesis by (simp add: advance_loop.simps[of reg clock n] db')
  next
    case False
    then show ?thesis
      by (cases ?step) (auto simp: advance_loop.simps[of reg clock n] split: option.splits)
  qed
qed

lemma advance_loop_steps:
  assumes "advance_loop reg clock n i db = Some (r, db')"
  shows "workflow_steps reg db db'"
proof -
  have "\<forall>r db'. z = (r, db') \<longrightarrow> workflow_steps reg db db'"
    if "advance_loop reg clock n i db = Some z" for z
  proof (rule advance_loop.raw_induct[where P = "\<lambda>reg clock n i db z.
      \<forall>r db'. z = (r, db') \<longrightarrow> workflow_steps reg db db'", OF _ that], intro allI impI)
    fix f and reg :: "'b workflow_spec registry" and clock n i db z r db'
    assume ih: "\<And>reg clock n i db z. f reg clock n i db = Some z \<Longrightarrow>
        \<forall>r db'. z = (r, db') \<longrightarrow> workflow_steps (reg :: 'b workflow_spec registry) db db'"
      and ret: "(case step_once reg (fst (clock n)) (snd (clock n)) i db of
          Inl e \<Rightarrow> Some (Inl e, db) | Inr (Some st, db') \<Rightarrow> Some (Inr st, db')
        | Inr (None, db') \<Rightarrow> f reg clock (Suc n) i db') = Some z" and z: "z = (r, db')"
    show "workflow_steps reg db db'"
    proof (cases "step_once reg (fst (clock n)) (snd (clock n)) i db")
      case (Inl e)
      with ret z show ?thesis by simp
    next
      case (Inr p)
      obtain st db1 where p: "p = (st, db1)" by (cases p)
      with Inr have "workflow_step reg db db1" by (auto intro: ws_once)
      moreover have "workflow_steps reg db1 db'"
        using ret z Inr p ih[of reg clock "Suc n" i db1] by (cases st) auto
      ultimately show ?thesis by (rule converse_rtranclp_into_rtranclp)
    qed
  qed
  with assms show ?thesis by blast
qed

lemma advance_all_returns:
  assumes "registry_wf reg"
  shows "\<exists>r db'. advance_all reg clock key xs n db = Some (r, db') \<and> workflow_steps reg db db'"
proof (induction xs arbitrary: n db)
  case (Cons x xs)
  obtain r db1 where adv: "advance reg (clock (wi_id x)) (wi_id x) db = Some (r, db1)"
    using advance_loop_returns[OF assms] unfolding advance_def by fast
  then have steps: "workflow_steps reg db db1" unfolding advance_def by (rule advance_loop_steps)
  from Cons.IH[of n db] Cons.IH[of "Suc n" db1] show ?case
    by (cases r) (auto simp: adv steps intro: rtranclp_trans[OF steps])
qed simp

lemma run_due_returns:
  assumes "registry_wf reg"
  shows "\<exists>r db'. run_due reg clock key batch owner lease now db = Some (r, db') \<and> workflow_steps reg db db'"
proof -
  obtain claimed xs where c: "workflow_claim_due batch owner lease now (wd_instances db) = (claimed, xs)"
    by (rule prod.exhaust)
  let ?db = "db\<lparr>wd_instances := xs\<rparr>"
  from advance_all_returns[OF assms, of clock key claimed 0 ?db] obtain r db'
    where run: "advance_all reg clock key claimed 0 ?db = Some (r, db')" "workflow_steps reg ?db db'"
    by blast
  have "workflow_step reg db ?db" by (rule ws_claim[OF c])
  from this run(2) have "workflow_steps reg db db'" by (rule converse_rtranclp_into_rtranclp)
  with run(1) c show ?thesis by (simp add: run_due_def)
qed

section \<open>Workflows whose activities succeed\<close>

definition activity_succeeds :: "'w activity_spec \<Rightarrow> bool" where
  "activity_succeeds act \<longleftrightarrow> (\<forall>input n w. \<exists>d w'.
     run_activity act input n w = (Act_result d, w') \<and> wait_request d = Inr None)"

definition attempt_key :: "step_attempt \<Rightarrow> nat \<times> string \<times> int \<times> attempt_status" where
  "attempt_key a = (sa_workflow a, sa_step a, sa_attempt a, sa_status a)"

lemma next_key_append:
  "distinct (ks @ k # ks') \<Longrightarrow> next_key k (ks @ k # ks') = (case ks' of [] \<Rightarrow> None | k' # _ \<Rightarrow> Some k')"
  by (induction ks) auto

lemma spec_activity_append:
  assumes "distinct (map ac_key (pre @ act # rest))" and "wf_activities spec = pre @ act # rest"
  shows "spec_activity spec (ac_key act) = Some act"
  using find_key_unique[of ac_key "pre @ act # rest" act] assms by (simp add: spec_activity_def)

lemma step_once_success:
  assumes x: "get_instance db i = Some x" "\<not> terminal_status (wi_status x)"
      "wi_step x = Some (ac_key act)"
    and spec: "registry_lookup reg (wi_key x) = Some spec"
      "spec_activity spec (ac_key act) = Some act" "activity_succeeds act"
    and none: "last_attempt db i (ac_key act) = None"
  shows "\<exists>db' a y. step_once reg now draw i db = Inr (None, db')
    \<and> wd_attempts db' = wd_attempts db @ [a] \<and> attempt_key a = (i, ac_key act, 1, SA_executed)
    \<and> get_instance db' i = Some y \<and> wi_key y = wi_key x \<and> wi_status y = wi_status x
    \<and> wi_step y = next_step spec (wi_step x)"
proof -
  from get_instance_id[OF x(1)] have i: "wi_id x = i" by simp
  from spec(3) obtain d w' where run: "run_activity act (first_input x) 1 (wd_world db) = (Act_result d, w')"
    "wait_request d = Inr None" unfolding activity_succeeds_def by blast
  let ?a = "new_attempt i (ac_key act) 1 (first_input x) (Act_result d)"
  let ?y = "advance_step spec now (x\<lparr>wi_state := dset (ac_key act) (JObj d) (wi_state x),
      wi_step_attempt := 1\<rparr>)"
  let ?db = "save_instance ?y (db\<lparr>wd_attempts := wd_attempts db @ [?a], wd_world := w'\<rparr>)"
  have "step_once reg now draw i db = Inr (None, ?db)"
    by (simp add: step_once_def x spec none workflow_require_def execute_step_def run i
        settle_step_success_def Let_def)
  moreover have "attempt_key ?a = (i, ac_key act, 1, SA_executed)"
    by (simp add: attempt_key_def new_attempt_def)
  moreover have "get_instance ?db i = Some ?y"
    using x i by (simp add: table_simps advance_step_def)
  moreover have "wi_key ?y = wi_key x" "wi_status ?y = wi_status x"
    "wi_step ?y = next_step spec (wi_step x)"
    using x(3) by (simp_all add: advance_step_def)
  moreover have "wd_attempts ?db = wd_attempts db @ [?a]" by (simp add: save_instance_tables)
  ultimately show ?thesis by blast
qed

lemma sort_key_Nil_iff: "sort_key f xs = [] \<longleftrightarrow> xs = []"
  by (simp only: length_0_conv[symmetric] length_sort)

lemma case_hd_None: "(case xs of [] \<Rightarrow> None | a # _ \<Rightarrow> Some a) = None \<longleftrightarrow> xs = []"
  by (cases xs) simp_all

lemma last_attempt_None: "last_attempt db i step = None \<longleftrightarrow> history db i step = []"
  unfolding last_attempt_def history_def case_hd_None sort_key_Nil_iff by (rule refl)

lemma advance_loop_completes:
  assumes "get_instance db i = Some x" "\<not> terminal_status (wi_status x)"
      "registry_lookup reg (wi_key x) = Some spec"
      "wf_activities spec = pre @ rest" "distinct (map ac_key (pre @ rest))"
      "wi_step x = (case rest of [] \<Rightarrow> None | act # _ \<Rightarrow> Some (ac_key act))"
      "\<And>act. act \<in> set rest \<Longrightarrow> activity_succeeds act \<and> history db i (ac_key act) = []"
  shows "\<exists>db' x'. advance_loop reg clock n i db = Some (Inr WF_completed, db')
    \<and> get_instance db' i = Some x' \<and> wi_status x' = WF_completed
    \<and> map attempt_key (wd_attempts db')
        = map attempt_key (wd_attempts db) @ map (\<lambda>act. (i, ac_key act, 1, SA_executed)) rest"
  using assms
proof (induction rest arbitrary: pre db x n)
  case Nil
  then show ?case
    by (simp add: advance_loop.simps[of reg clock n] step_once_def workflow_require_def table_simps
        finish_with_def release_lease_def get_instance_id)
next
  case (Cons act rest)
  from Cons.prems(6) have cur: "wi_step x = Some (ac_key act)" by simp
  have act: "spec_activity spec (ac_key act) = Some act"
    by (rule spec_activity_append[OF Cons.prems(5,4)])
  from Cons.prems(7)[of act] have ok: "activity_succeeds act" "last_attempt db i (ac_key act) = None"
    by (simp_all add: last_attempt_None)
  obtain db1 a y where step: "step_once reg (fst (clock n)) (snd (clock n)) i db = Inr (None, db1)"
    and a: "wd_attempts db1 = wd_attempts db @ [a]" "attempt_key a = (i, ac_key act, 1, SA_executed)"
    and y: "get_instance db1 i = Some y" "wi_key y = wi_key x" "wi_status y = wi_status x"
      "wi_step y = next_step spec (wi_step x)"
    using step_once_success[OF Cons.prems(1,2) cur Cons.prems(3) act ok] by metis
  have nxt: "wi_step y = (case rest of [] \<Rightarrow> None | act # _ \<Rightarrow> Some (ac_key act))"
    using Cons.prems(4,5) next_key_append[of "map ac_key pre" "ac_key act" "map ac_key rest"]
    by (simp add: y(4) cur next_step_def split: list.splits)
  have fresh: "activity_succeeds b \<and> history db1 i (ac_key b) = []" if "b \<in> set rest" for b
  proof -
    have "ac_key b \<in> ac_key ` set rest" using that by simp
    then have "ac_key b \<noteq> ac_key act" using Cons.prems(5) by auto
    with Cons.prems(7)[of b] that a show ?thesis by (simp add: history_def attempt_key_def)
  qed
  have "\<exists>db' x'. advance_loop reg clock (Suc n) i db1 = Some (Inr WF_completed, db')
    \<and> get_instance db' i = Some x' \<and> wi_status x' = WF_completed
    \<and> map attempt_key (wd_attempts db')
        = map attempt_key (wd_attempts db1) @ map (\<lambda>act. (i, ac_key act, 1, SA_executed)) rest"
    by (rule Cons.IH[of db1 y "pre @ [act]"])
      (use Cons.prems y nxt fresh in \<open>simp_all add: terminal_status_def\<close>)
  with step a show ?case by (auto simp: advance_loop.simps[of reg clock n])
qed

end
