(* ===== verification/Workflow_Properties.thy ===== *)
theory Workflow_Properties
  imports Workflow_Correct
begin

text \<open>
  The properties of the workflow runner, each with a run of a small workflow as witness: a
  two-step order workflow and a workflow that waits for an approval before its last step.
\<close>

section \<open>Sample workflows\<close>

definition count_step :: "string \<Rightarrow> nat activity_spec" where
  "count_step key = \<lparr>ac_key = key, ac_timeout_seconds = 60, ac_retry = default_retry_policy,
     ac_handler = Some (\<lambda>input n w. (Act_result [(''count'', JInt (int w))], Suc w))\<rparr>"

definition ask_step :: "nat activity_spec" where
  "ask_step = \<lparr>ac_key = ''ask'', ac_timeout_seconds = 60, ac_retry = default_retry_policy,
     ac_handler = Some (\<lambda>input n w. (Act_result [(''wait_for_signal'', JStr ''approval'')], w))\<rparr>"

definition order_flow :: "nat workflow_spec" where
  "order_flow = \<lparr>wf_key = ''shop.order.v1'', wf_version = ''1'',
     wf_activities = [count_step ''reserve'', count_step ''charge''], wf_signal_keys = []\<rparr>"

definition approval_flow :: "nat workflow_spec" where
  "approval_flow = \<lparr>wf_key = ''shop.approval.v1'', wf_version = ''1'',
     wf_activities = [ask_step, count_step ''publish''], wf_signal_keys = [''approval'']\<rparr>"

definition sample_flows :: "nat workflow_spec registry" where
  "sample_flows = \<lparr>reg_items = [(''shop.order.v1'', order_flow), (''shop.approval.v1'', approval_flow)],
     reg_frozen = True\<rparr>"

text \<open>The tables after \<^verbatim>\<open>start\<close>, and after the first step of each workflow.\<close>

definition started :: "string \<Rightarrow> nat workflow_db" where
  "started key = (case start_workflow sample_flows 10 key ''b-1'' [] None (empty_workflow_db 0) of
     Inr (_, db) \<Rightarrow> db | Inl _ \<Rightarrow> empty_workflow_db 0)"

definition stepped :: "nat workflow_db \<Rightarrow> nat workflow_db" where
  "stepped db = (case step_once sample_flows 20 0 0 db of Inr (_, db') \<Rightarrow> db' | Inl _ \<Rightarrow> db)"

lemma sample_flows_wf: "registry_wf sample_flows"
  by (simp add: registry_wf_def sample_flows_def order_flow_def approval_flow_def count_step_def
      ask_step_def)

lemma sample_flows_lookup [simp]:
  "registry_lookup sample_flows ''shop.order.v1'' = Some order_flow"
  "registry_lookup sample_flows ''shop.approval.v1'' = Some approval_flow"
  by (simp_all add: registry_lookup_def sample_flows_def)

lemma started_steps:
  assumes "key = ''shop.order.v1'' \<or> key = ''shop.approval.v1''"
  shows "workflow_steps sample_flows (empty_workflow_db 0) (started key)"
proof -
  have "\<exists>x db. start_workflow sample_flows 10 key ''b-1'' [] None (empty_workflow_db 0) = Inr (x, db)"
    using assms
    by (auto simp: start_workflow_def workflow_require_def find_by_business_key_def
        empty_workflow_db_def order_flow_def approval_flow_def Let_def)
  then obtain x where "start_workflow sample_flows 10 key ''b-1'' [] None (empty_workflow_db 0)
      = Inr (x, started key)"
    by (auto simp: started_def)
  then show ?thesis by (intro r_into_rtranclp) (rule ws_start)
qed

lemma stepped_steps: "workflow_steps sample_flows db (stepped db)"
proof (cases "step_once sample_flows 20 0 0 db")
  case (Inr p)
  obtain r db' where "p = (r, db')" by (cases p)
  with Inr have "workflow_step sample_flows db (stepped db)"
    by (auto simp: stepped_def intro: ws_once)
  then show ?thesis by (rule r_into_rtranclp)
qed (simp add: stepped_def)

lemma sample_steps:
  "workflow_steps sample_flows (empty_workflow_db 0) (stepped (started ''shop.order.v1''))"
  "workflow_steps sample_flows (empty_workflow_db 0) (stepped (started ''shop.approval.v1''))"
  by (rule rtranclp_trans[OF started_steps stepped_steps], simp)+

section \<open>Attempts\<close>

text \<open>
  C21. The attempts recorded for a step of a workflow instance, in every reachable state: they are
  numbered 1, 2, ... without a gap, all ran on the same persisted input, there are at most as many
  as the activity's policy allows, and an attempt that is not the last failed with a category the
  policy retries; so at most one attempt of a step was executed, and it is the last.
\<close>

theorem workflow_attempts_ok:
  assumes "workflow_steps reg (empty_workflow_db w) db" and "x \<in> set (wd_instances db)"
    and "registry_lookup reg (wi_key x) = Some spec" and "spec_activity spec step = Some act"
    and "h = history db (wi_id x) step"
  shows "map sa_attempt h = map int [1..<Suc (length h)]
    \<and> (\<exists>input. \<forall>a\<in>set h. sa_input a = input)
    \<and> int (length h) \<le> max 1 (max_attempts (ac_retry act))
    \<and> (\<forall>a\<in>set (butlast h). sa_status a = SA_failed
         \<and> should_retry (ac_retry act) (attempt_category a) (sa_attempt a))
    \<and> (\<forall>a\<in>set h. sa_status a = SA_executed \<longrightarrow> a = last h)"
proof -
  have "workflow_inv reg db" by (rule workflow_inv_steps[OF assms(1) workflow_inv_empty])
  then have ok: "history_ok reg (wi_key x) step h"
    using workflow_invD(5) assms(2,5) by blast
  show ?thesis
    using ok assms(3,4) history_ok_bound[OF ok assms(3,4)] history_ok_executed[OF ok assms(3,4)]
    unfolding history_ok_def by blast
qed

theorem workflow_attempts_ok_witness:
  "let db = stepped (started ''shop.order.v1'') in
     map attempt_key (history db 0 ''reserve'') = [(0, ''reserve'', 1, SA_executed)]
     \<and> (\<forall>a\<in>set (history db 0 ''reserve''). sa_status a = SA_executed
           \<longrightarrow> a = last (history db 0 ''reserve''))"
proof -
  let ?db = "stepped (started ''shop.order.v1'')"
  let ?x = "hd (wd_instances ?db)"
  have "?x \<in> set (wd_instances ?db)" "wi_key ?x = ''shop.order.v1''" "wi_id ?x = 0" by code_simp+
  then have x: "?x \<in> set (wd_instances ?db)" "registry_lookup sample_flows (wi_key ?x) = Some order_flow"
    "wi_id ?x = 0" by simp_all
  have "spec_activity order_flow ''reserve'' = Some (count_step ''reserve'')"
    by (simp add: spec_activity_def order_flow_def count_step_def)
  note ok = workflow_attempts_ok[OF sample_steps(1) x(1,2) this refl]
  have "map attempt_key (history ?db 0 ''reserve'') = [(0, ''reserve'', 1, SA_executed)]" by code_simp
  with ok x(3) show ?thesis unfolding Let_def by simp
qed

text \<open>
  C22. A step that was executed is never executed again: whatever transactions follow (restarts,
  signals, other claims, advances of this or other instances), its recorded attempts stay as they
  are.
\<close>

theorem executed_step_final:
  assumes "workflow_steps reg (empty_workflow_db w) db" and "get_instance db i = Some x"
    and "last_attempt db i step = Some a" and "sa_status a = SA_executed"
    and "workflow_steps reg db db'"
  shows "history db' i step = history db i step \<and> last_attempt db' i step = Some a"
proof -
  have inv: "workflow_inv reg db" by (rule workflow_inv_steps[OF assms(1) workflow_inv_empty])
  from get_instance_id[OF assms(2)] workflow_invD(5)[OF inv, of x step]
  have num: "map sa_attempt (history db i step) = map int [1..<Suc (length (history db i step))]"
    by (simp add: history_ok_def)
  note last = last_attempt_history[OF num]
  with assms(3) have h: "history db i step \<noteq> []" "a = last (history db i step)"
    by (auto split: if_splits)
  have same: "history db' i step = history db i step"
    by (rule steps_keep_history[OF assms(5) inv assms(2) h(1)]) (use assms(4) h(2) in simp)
  then have "last_attempt db' i step = last_attempt db i step"
    by (simp add: last_attempt_def history_def)
  with same assms(3) show ?thesis by simp
qed

theorem executed_step_final_witness:
  "let db = stepped (started ''shop.order.v1''); db' = stepped (stepped db) in
     history db' 0 ''reserve'' = history db 0 ''reserve'' \<and> length (wd_attempts db') = 2"
proof -
  let ?db = "stepped (started ''shop.order.v1'')"
  have x: "get_instance ?db 0 = Some (hd (wd_instances ?db))"
    "last_attempt ?db 0 ''reserve'' = Some (hd (wd_attempts ?db))"
    "sa_status (hd (wd_attempts ?db)) = SA_executed"
    and two: "length (wd_attempts (stepped (stepped ?db))) = 2"
    by code_simp+
  have "workflow_steps sample_flows ?db (stepped (stepped ?db))"
    by (rule rtranclp_trans[OF stepped_steps stepped_steps])
  from executed_step_final[OF sample_steps(1) x this] two show ?thesis
    unfolding Let_def by (rule conjI[OF conjunct1])
qed

section \<open>Termination and progress\<close>

text \<open>
  C23. \<^verbatim>\<open>advance\<close> and \<^verbatim>\<open>run_due\<close> return: for registered workflows (distinct activity keys) the
  loops end for every instance, in every state of the tables, whatever the handlers do; they do no
  more than committed steps.
\<close>

theorem advance_returns:
  assumes "registry_wf reg"
  shows "(\<exists>r db'. advance reg clock i db = Some (r, db') \<and> workflow_steps reg db db')
    \<and> (\<exists>r db'. run_due reg clocks key batch owner lease now db = Some (r, db')
         \<and> workflow_steps reg db db')"
proof -
  from advance_loop_returns[OF assms] obtain r db'
    where "advance_loop reg clock 0 i db = Some (r, db')" by fast
  with advance_loop_steps have "\<exists>r db'. advance reg clock i db = Some (r, db') \<and> workflow_steps reg db db'"
    unfolding advance_def by blast
  with run_due_returns[OF assms] show ?thesis by blast
qed

theorem advance_returns_witness:
  "\<exists>r db'. advance sample_flows (\<lambda>n. (int n, 0)) 0 (started ''shop.order.v1'') = Some (r, db')
     \<and> workflow_steps sample_flows (started ''shop.order.v1'') db'"
  using advance_returns[OF sample_flows_wf] by blast

text \<open>
  A workflow whose activities succeed runs to its end: starting it under a new business key
  and advancing it once completes the instance and records exactly one executed attempt for every
  activity, in the declared order.
\<close>

theorem workflow_completes:
  assumes "workflow_steps reg (empty_workflow_db w) db" and "registry_wf reg"
    and "registry_lookup reg key = Some spec"
    and "list_all activity_succeeds (wf_activities spec)"
    and "find_by_business_key db key bkey = None"
    and "start_workflow reg now key bkey input trace db = Inr (x, db1)"
  shows "\<exists>db' x'. advance reg clock (wi_id x) db1 = Some (Inr WF_completed, db')
    \<and> get_instance db' (wi_id x) = Some x' \<and> wi_status x' = WF_completed
    \<and> map attempt_key (wd_attempts db') = map attempt_key (wd_attempts db)
        @ map (\<lambda>act. (wi_id x, ac_key act, 1, SA_executed)) (wf_activities spec)"
proof -
  have inv: "workflow_inv reg db" by (rule workflow_inv_steps[OF assms(1) workflow_inv_empty])
  from assms(6) show ?thesis
  proof (cases rule: start_workflow_cases)
    case (fresh spec')
    have spec: "spec' = spec" using fresh(2) assms(3) by simp
    have x: "wi_id x = wd_next_id db" "wi_key x = key" "\<not> terminal_status (wi_status x)"
      "wi_step x = (case wf_activities spec of [] \<Rightarrow> None | act # _ \<Rightarrow> Some (ac_key act))"
      using fresh(3) spec
      by (simp_all add: fresh(4) new_instance_def terminal_status_def split: list.splits)
    have "get_instance db (wi_id x) = None"
      using workflow_invD(2)[OF inv] by (fastforce simp: get_instance_def find_None_iff' x(1))
    then have get: "get_instance db1 (wi_id x) = Some x"
      by (simp add: get_instance_def fresh(5) find_append)
    have hist: "history db1 (wi_id x) step = []" for step
      using workflow_invD(3)[OF inv] by (fastforce simp: history_def fresh(5) filter_empty_conv x(1))
    have dist: "distinct (map ac_key ([] @ wf_activities spec))"
      using registry_wf_lookup[OF assms(2,3)] by simp
    have "registry_lookup reg (wi_key x) = Some spec" using x(2) assms(3) by simp
    from advance_loop_completes[OF get x(3) this _ dist x(4), of clock 0] hist assms(4)
    show ?thesis unfolding advance_def by (simp add: list_all_iff fresh(5))
  qed (use assms(5) in simp)
qed

theorem workflow_completes_witness:
  "\<exists>x db1 db' x'. start_workflow sample_flows 10 ''shop.order.v1'' ''b-1'' [] None
        (empty_workflow_db 0) = Inr (x, db1)
    \<and> advance sample_flows (\<lambda>n. (int n, 0)) (wi_id x) db1 = Some (Inr WF_completed, db')
    \<and> get_instance db' (wi_id x) = Some x' \<and> wi_status x' = WF_completed
    \<and> map attempt_key (wd_attempts db')
        = [(wi_id x, ''reserve'', 1, SA_executed), (wi_id x, ''charge'', 1, SA_executed)]"
proof -
  let ?db = "empty_workflow_db (0 :: nat)"
  have none: "find_by_business_key ?db ''shop.order.v1'' ''b-1'' = None"
    by (simp add: find_by_business_key_def empty_workflow_db_def)
  obtain x db1 where start: "start_workflow sample_flows 10 ''shop.order.v1'' ''b-1'' [] None ?db
      = Inr (x, db1)"
    using none by (auto simp: start_workflow_def workflow_require_def order_flow_def Let_def)
  have "list_all activity_succeeds (wf_activities order_flow)"
    by (simp add: order_flow_def activity_succeeds_def count_step_def run_activity_def
        wait_request_def)
  from workflow_completes[OF rtranclp.rtrancl_refl sample_flows_wf sample_flows_lookup(1) this none
      start, of "\<lambda>n. (int n, 0)"] start
  show ?thesis by (simp add: order_flow_def count_step_def empty_workflow_db_def)
qed

text \<open>
  C24. A completed, failed or cancelled instance is final: no later transaction changes its row.
\<close>

theorem workflow_terminal_final:
  assumes "get_instance db i = Some x" and "terminal_status (wi_status x)"
    and "workflow_steps reg db db'"
  shows "get_instance db' i = Some x"
  using steps_keep_instance[OF assms(3,1)] assms(2) by auto

theorem workflow_terminal_final_witness:
  "let db = stepped (stepped (stepped (started ''shop.order.v1''))) in
     map_option wi_status (get_instance db 0) = Some WF_completed
     \<and> get_instance (stepped db) 0 = get_instance db 0"
proof -
  let ?db = "stepped (stepped (stepped (started ''shop.order.v1'')))"
  have x: "get_instance ?db 0 = Some (hd (wd_instances ?db))"
    "wi_status (hd (wd_instances ?db)) = WF_completed"
    by code_simp+
  then have "terminal_status (wi_status (hd (wd_instances ?db)))" by (simp add: terminal_status_def)
  from workflow_terminal_final[OF x(1) this stepped_steps] x show ?thesis
    unfolding Let_def by simp
qed

section \<open>Signals\<close>

lemma deliver_declared:
  assumes "deliver_signal reg now uuid i key sid payload db = Inr (True, db1)"
  shows "\<exists>x. get_instance db i = Some x \<and> (wi_key x = [] \<or> (\<exists>spec.
    registry_lookup reg (wi_key x) = Some spec \<and> key \<in> set (wf_signal_keys spec)))"
  using assms
  by (auto simp: deliver_signal_def workflow_require_def cmd_ok requireE_def split: if_splits)

text \<open>
  A signal is stored once: after a delivery that stored it, a delivery with the same signal id
  reports \<^verbatim>\<open>False\<close> and changes nothing, in every later state and whatever its payload.
\<close>

theorem signal_deduplicated:
  assumes "deliver_signal reg now uuid i key (Some uid) payload db = Inr (True, db1)"
    and "workflow_steps reg db1 db'"
  shows "deliver_signal reg now' uuid' i key (Some uid) payload' db' = Inr (False, db')"
proof -
  from deliver_declared[OF assms(1)] obtain x where x: "get_instance db i = Some x"
    "wi_key x = [] \<or> (\<exists>spec. registry_lookup reg (wi_key x) = Some spec
       \<and> key \<in> set (wf_signal_keys spec))" by blast
  have "workflow_steps reg db db'"
    by (rule converse_rtranclp_into_rtranclp[OF ws_signal[OF assms(1)] assms(2)])
  from steps_keep_instance[OF this x(1)] obtain x' where x': "get_instance db' i = Some x'"
    "wi_key x' = wi_key x" by (auto simp: same_instance_def)
  from assms(1) have "signal_stored db1 i key uid"
    by (cases rule: deliver_signal_cases) (auto simp: signal_stored_def table_simps)
  from steps_keep_signal[OF assms(2) this] x' x(2) show ?thesis
    by (auto simp: deliver_signal_def signal_stored_def workflow_require_def)
qed

theorem signal_deduplicated_witness:
  "\<exists>db1. deliver_signal sample_flows 30 99 0 ''approval'' (Some 7) [] (stepped (started ''shop.approval.v1''))
      = Inr (True, db1)
    \<and> deliver_signal sample_flows 40 99 0 ''approval'' (Some 7) [(''x'', JNull)] (stepped db1)
      = Inr (False, stepped db1)"
proof -
  let ?db = "stepped (started ''shop.approval.v1'')"
  let ?r = "deliver_signal sample_flows 30 99 0 ''approval'' (Some 7) [] ?db"
  have "(case ?r of Inr (b, _) \<Rightarrow> b | Inl _ \<Rightarrow> False)" by code_simp
  then obtain db1 where "?r = Inr (True, db1)" by (auto split: sum.splits)
  with signal_deduplicated[OF this stepped_steps] show ?thesis by blast
qed



text \<open>
  A wait is not enforced by \<^verbatim>\<open>advance\<close>: stepping an instance that is waiting moves it past
  the step that waits although no signal was delivered, since \<^verbatim>\<open>_step_once\<close> never looks at the
  status \<^verbatim>\<open>waiting\<close> and takes the executed attempt for a completed step; the instance even keeps
  the status \<^verbatim>\<open>waiting\<close> while its later steps run.
\<close>

theorem wait_not_enforced:
  assumes "get_instance db i = Some x" and "wi_status x = WF_waiting"
    and "registry_lookup reg (wi_key x) = Some spec" and "wi_step x = Some step"
    and "spec_activity spec step = Some act"
    and "last_attempt db i step = Some a" and "sa_status a = SA_executed"
  shows "\<exists>db' y. step_once reg now draw i db = Inr (None, db') \<and> wd_signals db' = wd_signals db
    \<and> get_instance db' i = Some y \<and> wi_status y = WF_waiting
    \<and> wi_step y = next_step spec (Some step)"
proof -
  from get_instance_id[OF assms(1)] have "wi_id x = i" by simp
  with assms show ?thesis
    by (simp add: step_once_def terminal_status_def workflow_require_def advance_step_def table_simps)
qed

text \<open>The approval workflow publishes without approval when it is advanced while it waits.\<close>

theorem wait_not_enforced_witness:
  "let db = stepped (started ''shop.approval.v1''); db' = stepped (stepped db) in
     map_option wi_status (get_instance db 0) = Some WF_waiting \<and> wd_world db = 0
     \<and> wd_signals db' = [] \<and> wd_world db' = 1
     \<and> (\<exists>y. get_instance (stepped db) 0 = Some y \<and> wi_step y = Some ''publish'')"
proof -
  let ?db = "stepped (started ''shop.approval.v1'')"
  let ?x = "hd (wd_instances ?db)" and ?a = "hd (wd_attempts ?db)"
  have x: "get_instance ?db 0 = Some ?x" "wi_status ?x = WF_waiting"
    "wi_key ?x = ''shop.approval.v1''" "wi_step ?x = Some ''ask''"
    "last_attempt ?db 0 ''ask'' = Some ?a" "sa_status ?a = SA_executed" by code_simp+
  have act: "spec_activity approval_flow ''ask'' = Some ask_step"
    "next_step approval_flow (Some ''ask'') = Some ''publish''"
    by (simp_all add: spec_activity_def next_step_def approval_flow_def ask_step_def count_step_def)
  have "registry_lookup sample_flows (wi_key ?x) = Some approval_flow" by (simp add: x(3))
  from wait_not_enforced[OF x(1,2) this x(4) act(1) x(5,6), of 20 0] act(2)
  have "\<exists>y. get_instance (stepped ?db) 0 = Some y \<and> wi_step y = Some ''publish''"
    by (auto simp: stepped_def[of ?db])
  moreover have "wd_world ?db = 0" "wd_signals (stepped (stepped ?db)) = []"
    "wd_world (stepped (stepped ?db)) = 1" by code_simp+
  ultimately show ?thesis using x(1,2) unfolding Let_def by simp
qed

text \<open>
  C26. The rows of the runner are well formed in every reachable state: instance ids are unique,
  every instance belongs to a registered workflow, and its current step is one of that workflow's
  activities or none, so the branch for an unknown step is dead while the registry is unchanged.
\<close>

theorem workflow_rows_well_formed:
  assumes "workflow_steps reg (empty_workflow_db w) db"
  shows "distinct (map wi_id (wd_instances db))
    \<and> (\<forall>x\<in>set (wd_instances db). \<exists>spec. registry_lookup reg (wi_key x) = Some spec
        \<and> (case wi_step x of None \<Rightarrow> True | Some k \<Rightarrow> spec_activity spec k \<noteq> None))"
proof -
  from workflow_inv_steps[OF assms workflow_inv_empty] have inv: "workflow_inv reg db" .
  have "\<exists>spec. registry_lookup reg (wi_key x) = Some spec
      \<and> (case wi_step x of None \<Rightarrow> True | Some k \<Rightarrow> spec_activity spec k \<noteq> None)"
    if "x \<in> set (wd_instances db)" for x
    using workflow_invD(6)[OF inv that]
    by (auto simp: instance_ok_def spec_activity_def find_None_iff' split: option.splits)
  with workflow_invD(1)[OF inv] show ?thesis by blast
qed

theorem workflow_rows_well_formed_witness:
  "distinct (map wi_id (wd_instances (stepped (started ''shop.order.v1''))))
   \<and> length (wd_instances (stepped (started ''shop.order.v1''))) = 1"
proof -
  have "length (wd_instances (stepped (started ''shop.order.v1''))) = 1" by code_simp
  with workflow_rows_well_formed[OF sample_steps(1)] show ?thesis by simp
qed

end
