(* ===== verification/Kernel_Properties.thy ===== *)
theory Kernel_Properties
  imports Kernel_Tasks
begin

text \<open>
  The properties of the kernel's runtimes: exclusive claims and the outcome of every outbox
  message, exactly-once inbox processing, task execution and retries, cron windows, registries.
\<close>

section \<open>Outbox\<close>

text \<open>
  C18. Outbox claims are exclusive even when two dispatchers interleave: both may have selected the
  same ids before either wrote; the rows they end up with are disjoint, and each gets only
  rows it holds the lease of.
\<close>

theorem outbox_claims_exclusive:
  assumes "distinct (map om_id box)" and "owner1 \<noteq> owner2" and "now2 \<le> now1 + seconds lease"
    and "outbox_take owner1 lease now1 (outbox_select n now1 box) box = (rows1, box1)"
    and "outbox_take owner2 lease' now2 ids2 box1 = (rows2, box2)"
  shows "om_id ` set rows1 \<inter> om_id ` set rows2 = {}
    \<and> (\<forall>m\<in>set rows2. om_lease_owner m = Some owner2)"
proof (intro conjI)
  show "om_id ` set rows1 \<inter> om_id ` set rows2 = {}"
  proof (rule claim_selected_exclusive[OF assms(1) _ _ _ _ _ _ assms(4)[unfolded outbox_take_def]
        assms(5)[unfolded outbox_take_def]])
    show "outbox_due now1 r" if "r \<in> set box" "om_id r \<in> set (outbox_select n now1 box)" for r
      using selected_is_due[OF assms(1)] that by (simp add: outbox_select_def)
  qed (use assms(2,3) in \<open>auto simp: outbox_mark_claimed_def outbox_due_def\<close>)
  show "\<forall>m\<in>set rows2. om_lease_owner m = Some owner2"
    using assms(5) by (auto simp: outbox_take_def claim_selected_def Let_def split: if_splits)
qed

definition sample_message :: "nat \<Rightarrow> outbox_message" where
  "sample_message i = new_message i 0 \<lparr>ev_id = i, ev_key = ''points.credited.v1'', ev_occurred_at = 0,
     ev_producer = ''points'', ev_aggregate_type = None, ev_aggregate_id = None, ev_trace_id = None,
     ev_payload = []\<rparr>"

definition sample_box :: "outbox_message list" where
  "sample_box = [sample_message 1, sample_message 2]"

theorem outbox_claims_exclusive_witness:
  "om_id ` set (fst (outbox_take ''a'' 30 5 (outbox_select 10 5 sample_box) sample_box))
   \<inter> om_id ` set (fst (outbox_take ''b'' 30 6 (outbox_select 10 6 sample_box)
       (snd (outbox_take ''a'' 30 5 (outbox_select 10 5 sample_box) sample_box)))) = {}
   \<and> length (fst (outbox_take ''a'' 30 5 (outbox_select 10 5 sample_box) sample_box)) = 2"
proof -
  let ?r1 = "outbox_take ''a'' 30 5 (outbox_select 10 5 sample_box) sample_box"
  let ?r2 = "outbox_take ''b'' 30 6 (outbox_select 10 6 sample_box) (snd ?r1)"
  have box: "distinct (map om_id sample_box)" by code_simp
  have owners: "(''a'' :: string) \<noteq> ''b''" and lease: "(6 :: time) \<le> 5 + seconds 30"
    by (simp_all add: seconds_def)
  have c1: "?r1 = (fst ?r1, snd ?r1)" and c2: "?r2 = (fst ?r2, snd ?r2)" by simp_all
  have "length (fst ?r1) = 2" by code_simp
  with outbox_claims_exclusive[OF box owners lease c1 c2] show ?thesis by blast
qed

text \<open>
  What becomes of a claimed message: if the dispatcher still holds the lease and the event key
  is known, the message ends delivered when every handler returned, pending again with one
  more attempt and a later due time when a handler failed and the policy allows a retry, dead
  otherwise; the effects of the handlers that committed stay.
\<close>

theorem outbox_message_outcome:
  assumes "outbox_get (fst s) (om_id m) = Some m" and "\<not> stale_claim owner now1 m"
    and "registry_lookup (dp_schemas dp) (om_event_key m) \<noteq> None" and "all_append handlers"
    and "run_handlers (handlers_for handlers (om_event_key m)) (om_envelope m) s = (failure, s')"
  shows "\<exists>box. process_message dp handlers owner now1 now2 draw m s = (None, (box, snd s'))
    \<and> outbox_get box (om_id m) = Some (settled (dp_policy dp) now2 draw failure m)"
  by (rule process_message_settled[OF assms])

definition sample_claimed :: outbox_message where
  "sample_claimed = outbox_mark_claimed ''w'' 100 (sample_message 1)"

definition sample_dispatcher :: dispatcher where
  "sample_dispatcher = \<lparr>dp_schemas = \<lparr>reg_items = [(''points.credited.v1'', \<lambda>_. Inr ())],
     reg_frozen = True\<rparr>, dp_policy = default_retry_policy\<rparr>"

text \<open>Two handlers: the first counts the event, the second fails.\<close>

definition sample_handlers :: "nat event_handler handler_registry" where
  "sample_handlers = \<lparr>reg_items = [(''points.credited.v1'',
     [(''count'', \<lambda>env s. Inr (fst s, Suc (snd s))),
      (''fail'', \<lambda>env s. Inl (PyException ''OSError'', ''down''))])], reg_frozen = True\<rparr>"

lemma sample_handlers_append: "all_append sample_handlers"
  by (auto simp: all_append_def appends_only_def sample_handlers_def handlers_for_def
      registry_lookup_def)

theorem outbox_message_outcome_witness:
  "\<exists>box. process_message sample_dispatcher sample_handlers ''w'' 5 7 0 sample_claimed ([sample_claimed], 0)
      = (None, (box, 1))
    \<and> map_option om_status (outbox_get box 1) = Some OB_pending
    \<and> map_option om_attempts (outbox_get box 1) = Some 1"
proof -
  have get: "outbox_get (fst ([sample_claimed], 0 :: nat)) (om_id sample_claimed) = Some sample_claimed"
    by (simp add: outbox_get_def)
  have live: "\<not> stale_claim ''w'' 5 sample_claimed"
    by (simp add: stale_claim_def sample_claimed_def outbox_mark_claimed_def)
  have schema: "registry_lookup (dp_schemas sample_dispatcher) (om_event_key sample_claimed) \<noteq> None"
    by (simp add: sample_dispatcher_def sample_claimed_def outbox_mark_claimed_def sample_message_def
        new_message_def registry_lookup_def)
  have run: "run_handlers (handlers_for sample_handlers (om_event_key sample_claimed))
      (om_envelope sample_claimed) ([sample_claimed], 0)
      = (Some (PyException ''OSError'', ''down''), ([sample_claimed], 1))"
    by (simp add: sample_handlers_def handlers_for_def registry_lookup_def sample_claimed_def
        outbox_mark_claimed_def sample_message_def new_message_def)
  have settled: "om_status (settled (dp_policy sample_dispatcher) 7 0
      (Some (PyException ''OSError'', ''down'')) sample_claimed) = OB_pending
    \<and> om_attempts (settled (dp_policy sample_dispatcher) 7 0
      (Some (PyException ''OSError'', ''down'')) sample_claimed) = 1"
    by code_simp
  have "om_id sample_claimed = 1" by code_simp
  with outbox_message_outcome[OF get live schema sample_handlers_append run, of 7 0] settled
  show ?thesis by auto
qed

text \<open>
  Delivered and dead are final: no dispatch cycle of any dispatcher, whatever its handlers do
  through the outbox writer, changes such a message again.
\<close>

theorem outbox_final_states:
  assumes "all_append handlers" and "outbox_final m" and "outbox_get (fst s) i = Some m"
  shows "outbox_get (fst (snd (dispatch_cycle dp handlers batch owner lease now clock s))) i = Some m"
proof -
  obtain ms box where claim: "outbox_claim_due batch owner lease now (fst s) = (ms, box)"
    by (rule prod.exhaust)
  have "outbox_get (fst (box, snd s)) i = Some m"
    using claim_final[OF assms(2,3), of batch owner lease now] claim by simp
  from process_all_final[OF assms(1,2) this, of dp owner "map (\<lambda>m. (m, clock (om_id m))) ms"]
  show ?thesis by (auto simp: dispatch_cycle_def claim split: prod.split option.split)
qed

theorem outbox_final_states_witness:
  "outbox_get (fst (snd (dispatch_cycle sample_dispatcher sample_handlers 10 ''w'' 30 9 (\<lambda>_. (9, 9, 0))
     ([sample_message 1, sample_message 2\<lparr>om_status := OB_dead\<rparr>], 0)))) 2
   = Some (sample_message 2\<lparr>om_status := OB_dead\<rparr>)"
  by (rule outbox_final_states[OF sample_handlers_append])
    (simp_all add: outbox_final_def outbox_get_def sample_message_def new_message_def)

text \<open>
  C19. The inbox makes a handler's effect exactly-once: a second processing of the same event by the
  same handler reports a duplicate and changes nothing, and a failed processing leaves neither
  receipt nor effect, so that it can be repeated.
\<close>

theorem inbox_exactly_once:
  "inbox_process hkey eid now work s = Inr (fresh, s') \<Longrightarrow>
     inbox_process hkey eid now' work' s' = Inr (False, s')
     \<and> (fresh \<longrightarrow> \<not> already_processed hkey eid (fst s) \<and> work (snd s) = Inr (snd s'))
     \<and> (\<not> fresh \<longrightarrow> s' = s \<and> already_processed hkey eid (fst s))"
  by (auto simp: inbox_process_def already_processed_def cmd_ok split: if_splits)

theorem inbox_exactly_once_witness:
  "inbox_process ''h'' 7 6 (\<lambda>n :: nat. Inr (n + 1)) ([\<lparr>ir_handler_key = ''h'', ir_event_id = 7,
      ir_processed_at = 5\<rparr>], 1) = (Inr (False, [\<lparr>ir_handler_key = ''h'', ir_event_id = 7,
      ir_processed_at = 5\<rparr>], 1) :: exn + _)"
  by (rule inbox_exactly_once[of "''h''" 7 5 "\<lambda>n. Inr (n + 1)" "([], 0)" True, THEN conjunct1])
    (simp add: inbox_process_def already_processed_def)

section \<open>Tasks\<close>

text \<open>
  The worker settles the task it executed and no other: completed with its result, pending with
  one more attempt when the failure is retryable and attempts are left, dead otherwise. What the
  handler wrote is committed in every case, also when it failed.
\<close>

theorem task_execution_outcome:
  assumes "task_get (fst s) (tk_id task) = Some fresh" and "registry_lookup reg (tk_key task) = Some spec"
    and "ts_handler spec (tk_payload fresh) (tk_attempt fresh + 1) (snd s) = (outcome, w)"
  shows "task_get (fst (execute_task reg now draw task s)) (tk_id task)
      = Some (task_settled (ts_retry spec) now draw outcome fresh)
    \<and> snd (execute_task reg now draw task s) = w
    \<and> (\<forall>i. i \<noteq> tk_id task \<longrightarrow>
        task_get (fst (execute_task reg now draw task s)) i = task_get (fst s) i)"
  using execute_task_settled[OF assms] by blast

definition sample_task :: "nat \<Rightarrow> int \<Rightarrow> task_instance" where
  "sample_task i attempt = \<lparr>tk_id = i, tk_key = ''demo'', tk_status = TK_pending, tk_attempt = attempt,
     tk_payload = [], tk_next_run_at = Some 0, tk_timeout_seconds = 30, tk_lease_owner = None,
     tk_lease_expires_at = None, tk_result = None, tk_error_category = None, tk_error_summary = None\<rparr>"

definition sample_task_registry :: "nat task_spec registry" where
  "sample_task_registry = \<lparr>reg_items = [(''demo'', \<lparr>ts_key = ''demo'',
     ts_handler = (\<lambda>payload n w. (Task_raised (PyException ''OSError'') ''down'', w + 1)),
     ts_timeout_seconds = 30, ts_retry = default_retry_policy\<rparr>)], reg_frozen = True\<rparr>"

theorem task_execution_outcome_witness:
  "map_option tk_status (task_get (fst (execute_task sample_task_registry 5 0 (sample_task 1 4)
      ([sample_task 1 4, sample_task 2 0], 0))) 1) = Some TK_dead
   \<and> snd (execute_task sample_task_registry 5 0 (sample_task 1 4)
      ([sample_task 1 4, sample_task 2 0], 0)) = 1"
proof -
  let ?s = "([sample_task 1 4, sample_task 2 0], 0 :: nat)"
  have id: "tk_id (sample_task 1 4) = 1" by (simp add: sample_task_def)
  have "task_get (fst ?s) (tk_id (sample_task 1 4)) = Some (sample_task 1 4)"
    by (simp add: task_get_def)
  moreover have "registry_lookup sample_task_registry (tk_key (sample_task 1 4)) = Some
     \<lparr>ts_key = ''demo'', ts_handler = (\<lambda>payload n w. (Task_raised (PyException ''OSError'') ''down'', w + 1)),
      ts_timeout_seconds = 30, ts_retry = default_retry_policy\<rparr>"
    by (simp add: sample_task_registry_def sample_task_def registry_lookup_def)
  moreover have "tk_status (task_settled default_retry_policy 5 0
      (Task_raised (PyException ''OSError'') ''down'') (sample_task 1 4)) = TK_dead" by code_simp
  ultimately show ?thesis
    using task_execution_outcome[of ?s "sample_task 1 4" "sample_task 1 4" sample_task_registry _ _ 1 5 0] id
    by simp
qed



text \<open>
  Unlike the outbox, the task repository re-selects by id only: two workers that selected the
  same due ids before either updated both receive the row, although the second does not hold
  its lease.
\<close>

theorem task_claims_overlap:
  "\<exists>tasks rows1 tasks1 rows2 tasks2 t. distinct (map tk_id tasks)
     \<and> task_take ''a'' 30 5 (task_select 10 5 tasks) tasks = (rows1, tasks1)
     \<and> task_take ''b'' 30 5 (task_select 10 5 tasks) tasks1 = (rows2, tasks2)
     \<and> t \<in> set rows1 \<and> t \<in> set rows2 \<and> tk_lease_owner t = Some ''a''"
proof (intro exI conjI)
  let ?ts = "[sample_task 1 0]"
  let ?r1 = "task_take ''a'' 30 5 (task_select 10 5 ?ts) ?ts"
  let ?r2 = "task_take ''b'' 30 5 (task_select 10 5 ?ts) (snd ?r1)"
  show "distinct (map tk_id ?ts)" by simp
  show "?r1 = (fst ?r1, snd ?r1)" and "?r2 = (fst ?r2, snd ?r2)" by simp_all
  show "task_mark_claimed ''a'' (5 + seconds 30) (sample_task 1 0) \<in> set (fst ?r1)" by code_simp
  show "task_mark_claimed ''a'' (5 + seconds 30) (sample_task 1 0) \<in> set (fst ?r2)" by code_simp
  show "tk_lease_owner (task_mark_claimed ''a'' (5 + seconds 30) (sample_task 1 0)) = Some ''a''"
    by (simp add: task_mark_claimed_def)
qed

section \<open>Cron\<close>

text \<open>A trigger never answers with a fire time that is not after the previous one.\<close>

definition progressing :: "crontab \<Rightarrow> bool" where
  "progressing crontab \<longleftrightarrow> (\<forall>sch tz trig p now n. crontab sch tz = Some trig \<longrightarrow>
     trig (Some p) now = Some n \<longrightarrow> p < n)"

text \<open>
  A due cron window enqueues one task: the tick that fires moves the anchor past the current
  time and appends exactly one task, and no tick of that key before the new anchor fires again,
  whatever other keys did; every tick returns when the trigger makes progress.
\<close>

theorem cron_window_fires_once:
  assumes "progressing crontab"
    and "cron_step crontab current key spec w = Some (Inr True, w')"
  shows "\<exists>anchor next_fire. anchor \<le> current \<and> current < next_fire
    \<and> cw_tasks w' = cw_tasks w @ [cron_task (cw_next_id w) key spec anchor current]
    \<and> (\<forall>later < next_fire. cron_step crontab later key spec w' = Some (Inr False, w'))
    \<and> (\<forall>now k sp. cron_step crontab now k sp w' \<noteq> None)"
proof -
  obtain anchor n where f: "anchor \<le> current" "current < n"
    "cw_tasks w' = cw_tasks w @ [cron_task (cw_next_id w) key spec anchor current]"
    "find (\<lambda>c. cr_key c = key) (cw_states w') = Some \<lparr>cr_key = key, cr_next_run_at = n\<rparr>"
    using cron_step_fired[OF assms(2)] by blast
  have "cron_step crontab later key spec w' = Some (Inr False, w')" if "later < n" for later
    using cron_step_quiet[OF f(4)] that by simp
  moreover have "cron_step crontab now k sp w' \<noteq> None" for now k sp
    by (rule cron_step_returns) (use assms(1) in \<open>auto simp: progressing_def\<close>)
  ultimately show ?thesis using f by blast
qed

text \<open>A trigger of one hour, for the witness.\<close>

definition hourly :: crontab where
  "hourly sch tz = Some (\<lambda>prev now. Some (case prev of None \<Rightarrow> now + seconds 3600
     | Some p \<Rightarrow> p + seconds 3600))"

definition sample_cron :: cron_spec where
  "sample_cron = \<lparr>cs_key = ''sweep'', cs_schedule = ''0 * * * *'', cs_timezone = ''UTC'',
     cs_timeout_seconds = 30\<rparr>"

definition sample_cron_world :: cron_world where
  "sample_cron_world = \<lparr>cw_states = [\<lparr>cr_key = ''sweep'', cr_next_run_at = 0\<rparr>], cw_tasks = [],
     cw_next_id = 1\<rparr>"

theorem cron_window_fires_once_witness:
  "\<exists>w'. cron_step hourly 5 ''sweep'' sample_cron sample_cron_world = Some (Inr True, w')
    \<and> length (cw_tasks w') = 1"
proof -
  have skip: "skip_past (\<lambda>prev now. Some (case prev of None \<Rightarrow> now + seconds 3600
     | Some p \<Rightarrow> p + seconds 3600)) 5 (Some (seconds 3600)) = Some (Some (seconds 3600))"
    by (simp add: skip_past.simps seconds_def)
  then obtain w' where step: "cron_step hourly 5 ''sweep'' sample_cron sample_cron_world
      = Some (Inr True, w')"
    by (simp add: cron_step_def hourly_def sample_cron_world_def Let_def)
  have "progressing hourly" by (auto simp: progressing_def hourly_def seconds_def)
  from cron_window_fires_once[OF this step] step show ?thesis by (auto simp: sample_cron_world_def)
qed

section \<open>Registries\<close>

text \<open>
  A boot sequence of task registrations that succeeds registered every task under its key, no
  key twice; freezing keeps the lookups and no later registration succeeds.
\<close>

theorem task_boot_complete:
  assumes "register_all task_register specs r = Inr r'"
  shows "distinct (map fst specs) \<and> (\<forall>(k, spec)\<in>set specs.
      task_require (registry_freeze r') k = Inr spec)
    \<and> (\<forall>k spec r''. task_register k spec (registry_freeze r') \<noteq> Inr r'')"
  using tasks.register_all_distinct[OF assms] tasks.register_all_complete[OF assms]
    tasks.register_unfrozen[of _ _ "registry_freeze r'"]
  by (auto simp: task_require_def)

theorem task_boot_complete_witness:
  "\<forall>r''. task_register ''b.c'' (2 :: nat)
     (registry_freeze \<lparr>reg_items = [(''a.b'', 1)], reg_frozen = False\<rparr>) \<noteq> Inr r''"
proof -
  have "register_all task_register [(''a.b'', 1 :: nat)] empty_registry
      = Inr \<lparr>reg_items = [(''a.b'', 1)], reg_frozen = False\<rparr>"
    by code_simp
  from task_boot_complete[OF this] show ?thesis by blast
qed

end
