(* ===== verification/Points_Model.thy ===== *)
theory Points_Model
  imports Kernel_Outbox
begin

text \<open>
  Points: behavior declarations (\<^verbatim>\<open>inc/capabilities/points/behaviors.py\<close>) and the persisted
  tables (\<^verbatim>\<open>models.py\<close>), inputs and DTOs (\<^verbatim>\<open>schemas.py\<close>), events (\<^verbatim>\<open>events.py\<close>). One value of
  \<open>points_db\<close> is the committed content of the capability's tables and of the outbox; row ids
  (UUIDv7, unique and increasing) are natural numbers drawn from \<open>pd_next_id\<close>.
\<close>

section \<open>Behaviors\<close>

datatype direction = Dir_credit | Dir_debit

record behavior_spec =
  bs_key :: string
  bs_version :: string
  bs_program_key :: string
  bs_direction :: direction
  bs_fixed_amount :: "int option"
  bs_min_amount :: int
  bs_max_amount :: int
  bs_cooldown_seconds :: "int option"
  bs_daily_limit :: "int option"
  bs_business_timezone :: string
  bs_expiration_days :: "int option"
  bs_allowed_source_types :: "string list"

definition optional_positive :: "int option \<Rightarrow> bool" where
  "optional_positive v = (case v of None \<Rightarrow> True | Some x \<Rightarrow> 0 < x)"

text \<open>\<^verbatim>\<open>PointBehaviorSpec.__post_init__\<close>, for a spec whose direction is one of \<open>DIRECTIONS\<close>.\<close>

definition check_behavior_spec :: "behavior_spec \<Rightarrow> exn + behavior_spec" where
  "check_behavior_spec b =
     (let bad = PyException ''ValueError'' in
      bindE (requireE (re_match_dollar (dotted key_char) (bs_key b)) bad) (\<lambda>_.
      bindE (requireE (bs_version b \<noteq> []) bad) (\<lambda>_.
      bindE (requireE (re_match_dollar snake_key (bs_program_key b)) bad) (\<lambda>_.
      bindE (requireE (optional_positive (bs_fixed_amount b)) bad) (\<lambda>_.
      bindE (requireE (1 \<le> bs_min_amount b \<and> bs_min_amount b \<le> bs_max_amount b) bad) (\<lambda>_.
      bindE (requireE (optional_positive (bs_cooldown_seconds b)) bad) (\<lambda>_.
      bindE (requireE (optional_positive (bs_daily_limit b)) bad) (\<lambda>_.
      bindE (requireE (optional_positive (bs_expiration_days b)) bad) (\<lambda>_.
      bindE (requireE (bs_direction b = Dir_debit \<longrightarrow> bs_expiration_days b = None) bad) (\<lambda>_.
      Inr b))))))))))"

definition behavior_register :: "string \<Rightarrow> behavior_spec \<Rightarrow> behavior_spec registry
    \<Rightarrow> exn + behavior_spec registry" where
  "behavior_register k b r =
     bindE (requireE (\<not> reg_frozen r) frozen_error) (\<lambda>_.
     bindE (requireE (registry_lookup r k = None)
       (KernelError ''points.duplicate_behavior'' INTERNAL)) (\<lambda>_.
     Inr (registry_store k b r)))"

definition behavior_require :: "behavior_spec registry \<Rightarrow> string \<Rightarrow> exn + behavior_spec" where
  "behavior_require r k =
     someE (registry_lookup r k) (KernelError ''points.unknown_behavior'' INTERNAL)"

interpretation behaviors: frozen_registry
  behavior_register registry_lookup reg_frozen registry_freeze
  by unfold_locales (auto simp: behavior_register_def cmd_ok)

section \<open>Tables\<close>

datatype account_state = AC_active | AC_frozen | AC_debt
datatype entry_type = EN_credit | EN_debit | EN_adjustment | EN_reversal | EN_expiration

record points_program =
  pr_id :: nat
  pr_key :: string
  pr_display_name :: string
  pr_unit :: string
  pr_active :: bool
  pr_allow_reversal :: bool
  pr_version :: int

record points_account =
  ac_id :: nat
  ac_program :: nat
  ac_subject_type :: string
  ac_subject_id :: string
  ac_state :: account_state
  ac_version :: int

record points_balance =
  bl_account :: nat
  bl_balance :: int
  bl_version :: int

record points_bucket =
  bk_id :: nat
  bk_account :: nat
  bk_type :: string
  bk_identity :: "string option"
  bk_expires_at :: "time option"
  bk_amount :: int
  bk_version :: int
  bk_created_at :: time

record debit_allocation =
  al_entry :: nat
  al_bucket :: nat
  al_amount :: int

record ledger_entry =
  en_id :: nat
  en_program :: nat
  en_account :: nat
  en_amount :: int
  en_type :: entry_type
  en_behavior_key :: "string option"
  en_behavior_version :: "string option"
  en_source_type :: "string option"
  en_source_id :: "string option"
  en_idempotency_key :: "string option"
  en_actor_type :: "string option"
  en_actor_id :: "string option"
  en_metadata :: dict
  en_reversal_of :: "nat option"
  en_created_at :: time

record points_db =
  pd_programs :: "points_program list"
  pd_accounts :: "points_account list"
  pd_balances :: "points_balance list"
  pd_buckets :: "points_bucket list"
  pd_allocations :: "debit_allocation list"
  pd_entries :: "ledger_entry list"
  pd_outbox :: "outbox_message list"
  pd_next_id :: nat

definition entry_type_of :: "direction \<Rightarrow> entry_type" where
  "entry_type_of d = (case d of Dir_credit \<Rightarrow> EN_credit | Dir_debit \<Rightarrow> EN_debit)"

section \<open>Inputs and DTOs\<close>

record credit_debit_input =
  ci_subject_type :: string
  ci_subject_id :: string
  ci_amount :: int
  ci_source_type :: string
  ci_source_id :: string
  ci_idempotency_key :: string
  ci_actor_type :: string
  ci_actor_id :: "string option"
  ci_metadata :: dict
  ci_expires_at :: "time option"

text \<open>The field constraints of \<open>CreditDebitInput\<close> that Pydantic enforces.\<close>

definition valid_credit_debit_input :: "credit_debit_input \<Rightarrow> bool" where
  "valid_credit_debit_input i \<longleftrightarrow> 0 < ci_amount i \<and> ci_idempotency_key i \<noteq> []
     \<and> length (ci_idempotency_key i) \<le> 200"

record adjust_input =
  ai_subject_type :: string
  ai_subject_id :: string
  ai_program_key :: "string option"
  ai_amount :: int
  ai_reason :: string
  ai_idempotency_key :: string
  ai_metadata :: dict

record reverse_input =
  ri_reason :: string
  ri_idempotency_key :: string

record balance_dto =
  bd_account_id :: nat
  bd_program_key :: string
  bd_subject_type :: string
  bd_subject_id :: string
  bd_state :: account_state
  bd_balance :: int
  bd_version :: int

record ledger_entry_dto =
  ld_id :: nat
  ld_account_id :: nat
  ld_program_key :: string
  ld_amount :: int
  ld_entry_type :: entry_type
  ld_behavior_key :: "string option"
  ld_behavior_version :: "string option"
  ld_source_type :: "string option"
  ld_source_id :: "string option"
  ld_actor_type :: "string option"
  ld_actor_id :: "string option"
  ld_metadata :: dict
  ld_reversal_of :: "nat option"
  ld_created_at :: time

definition to_balance :: "points_account \<Rightarrow> points_balance \<Rightarrow> string \<Rightarrow> balance_dto" where
  "to_balance a b key = \<lparr>bd_account_id = ac_id a, bd_program_key = key,
     bd_subject_type = ac_subject_type a, bd_subject_id = ac_subject_id a, bd_state = ac_state a,
     bd_balance = bl_balance b, bd_version = bl_version b\<rparr>"

definition to_entry :: "ledger_entry \<Rightarrow> string \<Rightarrow> ledger_entry_dto" where
  "to_entry e key = \<lparr>ld_id = en_id e, ld_account_id = en_account e, ld_program_key = key,
     ld_amount = en_amount e, ld_entry_type = en_type e, ld_behavior_key = en_behavior_key e,
     ld_behavior_version = en_behavior_version e, ld_source_type = en_source_type e,
     ld_source_id = en_source_id e, ld_actor_type = en_actor_type e,
     ld_actor_id = en_actor_id e, ld_metadata = en_metadata e,
     ld_reversal_of = en_reversal_of e, ld_created_at = en_created_at e\<rparr>"

section \<open>Events\<close>

text \<open>
  The payload schemas: the fields each event key declares beyond the four base fields. A
  declared field without a value is dumped with its default, \<open>None\<close>.
\<close>

definition points_event_fields :: "(string \<times> string list) list" where
  "points_event_fields = [
     (''points.account_opened.v1'', []),
     (''points.credited.v1'', [''entry_id'', ''amount'', ''balance'', ''behavior_key'',
        ''source_type'', ''source_id'']),
     (''points.debited.v1'', [''entry_id'', ''amount'', ''balance'', ''behavior_key'',
        ''source_type'', ''source_id'']),
     (''points.entry_reversed.v1'', [''entry_id'', ''reversal_id'', ''amount'', ''balance'']),
     (''points.bucket_expired.v1'', [''entry_id'', ''bucket_id'', ''expiration_identity'',
        ''amount'', ''balance'']),
     (''points.account_frozen.v1'', [''state''])]"

definition points_payload :: "string \<Rightarrow> dict \<Rightarrow> dict \<Rightarrow> exn + dict" where
  "points_payload key base values =
     bindE (someE (dget points_event_fields key) (PyException ''KeyError'')) (\<lambda>fields.
     bindE (requireE (list_all (\<lambda>kv. List.member fields (fst kv)) values)
       (PyException ''ValidationError'')) (\<lambda>_.
     Inr (base @ map (\<lambda>f. (f, case dget values f of None \<Rightarrow> JNull | Some v \<Rightarrow> v)) fields)))"

section \<open>Context\<close>

text \<open>
  \<open>px_day_start\<close> is the start of the local day of an instant in a named time zone, converted
  to UTC (\<^verbatim>\<open>zoneinfo\<close> and its database); the clock is read once per command.
\<close>

record points_ctx =
  px_now :: time
  px_schemas :: "(dict \<Rightarrow> exn + unit) registry"
  px_behaviors :: "behavior_spec registry"
  px_permissions :: "string list"
  px_actor_id :: "string option"
  px_trace_id :: "string option"
  px_day_start :: "string \<Rightarrow> time \<Rightarrow> time"

definition points_conflict :: "string \<Rightarrow> exn" where
  "points_conflict code = KernelError code CONFLICT"

definition points_validation :: "string \<Rightarrow> exn" where
  "points_validation code = KernelError code VALIDATION"

definition points_not_found :: "string \<Rightarrow> exn" where
  "points_not_found code = KernelError code NOT_FOUND"

definition points_require_permission :: "points_ctx \<Rightarrow> string \<Rightarrow> exn + unit" where
  "points_require_permission ctx key =
     requireE (List.member (px_permissions ctx) key) (KernelError ''points.forbidden'' FORBIDDEN)"

definition points_append ::
    "points_ctx \<Rightarrow> string \<Rightarrow> string \<Rightarrow> dict \<Rightarrow> points_db \<Rightarrow> exn + points_db" where
  "points_append ctx key aggregate payload db =
     bindE (outbox_append (px_schemas ctx) (pd_next_id db + 1) (px_now ctx)
        \<lparr>ev_id = pd_next_id db, ev_key = key, ev_occurred_at = px_now ctx,
         ev_producer = ''points'', ev_aggregate_type = Some ''points'',
         ev_aggregate_id = Some aggregate, ev_trace_id = px_trace_id ctx, ev_payload = payload\<rparr>
        (pd_outbox db)) (\<lambda>box.
     Inr (db\<lparr>pd_outbox := box, pd_next_id := pd_next_id db + 2\<rparr>))"

definition points_emit ::
    "points_ctx \<Rightarrow> string \<Rightarrow> points_account \<Rightarrow> points_program \<Rightarrow> dict \<Rightarrow> points_db \<Rightarrow> exn + points_db" where
  "points_emit ctx key acc prog values db =
     bindE (points_payload key
        [(''account_id'', id_json (ac_id acc)), (''program_key'', JStr (pr_key prog)),
         (''subject_type'', JStr (ac_subject_type acc)),
         (''subject_id'', JStr (ac_subject_id acc))] values) (\<lambda>payload.
     points_append ctx key (show_nat (ac_id acc)) payload db)"

definition points_append_audit ::
    "points_ctx \<Rightarrow> string \<Rightarrow> string \<Rightarrow> string \<Rightarrow> dict \<Rightarrow> points_db \<Rightarrow> exn + points_db" where
  "points_append_audit ctx action target_type target_id details db =
     points_append ctx ''audit.entry.recorded.v1'' target_id
       [(''action'', JStr action), (''outcome'', JStr ''success''),
        (''occurred_at'', JTime (px_now ctx)),
        (''actor_type'', if px_actor_id ctx = None \<or> px_actor_id ctx = Some [] then JNull
           else JStr ''user''),
        (''actor_id'', opt_json (px_actor_id ctx)), (''target_type'', JStr target_type),
        (''target_id'', JStr target_id), (''trace_id'', opt_json (px_trace_id ctx)),
        (''details'', JObj details)] db"

definition require_behavior :: "points_ctx \<Rightarrow> string \<Rightarrow> exn + behavior_spec" where
  "require_behavior ctx key = (case behavior_require (px_behaviors ctx) key of
     Inl e \<Rightarrow> Inl (if err_code e = ''points.unknown_behavior''
                   then points_validation ''points.unknown_behavior'' else e)
   | Inr b \<Rightarrow> Inr b)"

end
