(* ===== verification/Points_Commands.thy ===== *)
theory Points_Commands
  imports Points_Model
begin

text \<open>
  The points commands (\<^verbatim>\<open>inc/capabilities/points/commands.py\<close>). A command maps the committed
  tables to an exception (the transaction is rolled back) or a result and the new tables. A
  row read into an ORM object is passed on as a snapshot: the optimistic updates compare the
  version in the snapshot with the version in the table, and \<open>None\<close> is a row count of zero.
\<close>

section \<open>Reading rows\<close>

definition find_program :: "points_db \<Rightarrow> string \<Rightarrow> points_program option" where
  "find_program db key = find (\<lambda>p. pr_key p = key) (pd_programs db)"

definition require_program :: "points_db \<Rightarrow> string \<Rightarrow> exn + points_program" where
  "require_program db key = (case find_program db key of
     None \<Rightarrow> Inl (points_validation ''points.program_inactive'')
   | Some p \<Rightarrow> if \<not> pr_active p then Inl (points_validation ''points.program_inactive'') else Inr p)"

definition find_account :: "points_db \<Rightarrow> nat \<Rightarrow> string \<Rightarrow> string \<Rightarrow> points_account option" where
  "find_account db prog st sid = find (\<lambda>a. ac_program a = prog \<and> ac_subject_type a = st
     \<and> ac_subject_id a = sid) (pd_accounts db)"

definition get_account :: "points_db \<Rightarrow> nat \<Rightarrow> string \<Rightarrow> string \<Rightarrow> exn + points_account" where
  "get_account db prog st sid =
     someE (find_account db prog st sid) (points_not_found ''points.account_not_opened'')"

definition account_by_id :: "points_db \<Rightarrow> nat \<Rightarrow> points_account option" where
  "account_by_id db i = find (\<lambda>a. ac_id a = i) (pd_accounts db)"

definition program_by_id :: "points_db \<Rightarrow> nat \<Rightarrow> points_program option" where
  "program_by_id db i = find (\<lambda>p. pr_id p = i) (pd_programs db)"

definition bucket_by_id :: "points_db \<Rightarrow> nat \<Rightarrow> points_bucket option" where
  "bucket_by_id db i = find (\<lambda>b. bk_id b = i) (pd_buckets db)"

definition entry_by_id :: "points_db \<Rightarrow> nat \<Rightarrow> ledger_entry option" where
  "entry_by_id db i = find (\<lambda>e. en_id e = i) (pd_entries db)"

definition find_balance :: "points_db \<Rightarrow> nat \<Rightarrow> points_balance option" where
  "find_balance db acc = find (\<lambda>b. bl_account b = acc) (pd_balances db)"

definition get_balance :: "points_db \<Rightarrow> nat \<Rightarrow> exn + points_balance" where
  "get_balance db acc = someE (find_balance db acc) (KernelError ''points.balance_missing'' INTERNAL)"

definition get_buckets :: "points_db \<Rightarrow> nat \<Rightarrow> points_bucket list" where
  "get_buckets db acc = filter (\<lambda>b. bk_account b = acc \<and> 0 < bk_amount b) (pd_buckets db)"

definition find_idempotent :: "points_db \<Rightarrow> nat \<Rightarrow> string \<Rightarrow> ledger_entry option" where
  "find_idempotent db prog key =
     find (\<lambda>e. en_program e = prog \<and> en_idempotency_key e = Some key) (pd_entries db)"

definition entry_allocations :: "points_db \<Rightarrow> nat \<Rightarrow> (points_bucket \<times> int) list" where
  "entry_allocations db eid = List.map_filter
     (\<lambda>al. map_option (\<lambda>b. (b, al_amount al)) (bucket_by_id db (al_bucket al)))
     (filter (\<lambda>al. al_entry al = eid) (pd_allocations db))"

section \<open>Balance\<close>

text \<open>\<^verbatim>\<open>update(PointsBalance).where(account_id, version == snapshot.version)\<close>.\<close>

definition cas_balance :: "points_balance \<Rightarrow> int \<Rightarrow> points_db \<Rightarrow> points_db option" where
  "cas_balance snap v db =
     (let hit = (\<lambda>r. bl_account r = bl_account snap \<and> bl_version r = bl_version snap) in
      if list_ex hit (pd_balances db)
      then Some (db\<lparr>pd_balances := update_where hit
             (\<lambda>r. r\<lparr>bl_balance := v, bl_version := bl_version r + 1\<rparr>) (pd_balances db)\<rparr>)
      else None)"

definition next_state :: "int \<Rightarrow> account_state \<Rightarrow> account_state" where
  "next_state new_balance st =
     (if new_balance < 0 then AC_debt else if st = AC_debt then AC_active else st)"

definition sync_account_state :: "nat \<Rightarrow> int \<Rightarrow> points_db \<Rightarrow> points_db" where
  "sync_account_state acc new_balance db = db\<lparr>pd_accounts :=
     update_where (\<lambda>a. ac_id a = acc \<and> next_state new_balance (ac_state a) \<noteq> ac_state a)
       (\<lambda>a. a\<lparr>ac_state := next_state new_balance (ac_state a), ac_version := ac_version a + 1\<rparr>)
       (pd_accounts db)\<rparr>"

text \<open>The shared tail of every balance change: conditional update, then the account state.\<close>

definition write_balance :: "points_balance \<Rightarrow> int \<Rightarrow> points_db \<Rightarrow> exn + points_db" where
  "write_balance snap v db =
     bindE (someE (cas_balance snap v db) (points_conflict ''points.balance_conflict'')) (\<lambda>db1.
     Inr (sync_account_state (bl_account snap) v db1))"

definition apply_balance :: "nat \<Rightarrow> int \<Rightarrow> bool \<Rightarrow> points_db \<Rightarrow> exn + (int \<times> points_db)" where
  "apply_balance acc amount allow_negative db =
     bindE (get_balance db acc) (\<lambda>balance.
     let new_balance = bl_balance balance + amount in
     bindE (requireE (allow_negative \<or> 0 \<le> new_balance)
       (points_conflict ''points.insufficient_balance'')) (\<lambda>_.
     bindE (write_balance balance new_balance db) (\<lambda>db1. Inr (new_balance, db1))))"

section \<open>Buckets\<close>

definition bucket_matches ::
    "nat \<Rightarrow> string \<Rightarrow> string option \<Rightarrow> time option \<Rightarrow> points_bucket \<Rightarrow> bool" where
  "bucket_matches acc bt ident expires b \<longleftrightarrow> bk_account b = acc \<and> bk_type b = bt
     \<and> (if bt = ''expiring'' then bk_identity b = ident \<and> bk_expires_at b = expires
        else bk_identity b = None \<and> bk_expires_at b = None)"

text \<open>The CHECK constraints and the two partial unique indexes of \<open>points_buckets\<close>.\<close>

definition bucket_insertable :: "points_bucket \<Rightarrow> points_bucket list \<Rightarrow> bool" where
  "bucket_insertable b t \<longleftrightarrow> 0 \<le> bk_amount b
     \<and> (bk_type b = ''perpetual'' \<or> bk_type b = ''expiring'')
     \<and> ((bk_type b = ''perpetual'') = (bk_identity b = None \<and> bk_expires_at b = None))
     \<and> \<not> list_ex (\<lambda>x. bk_type b = ''perpetual'' \<and> bk_type x = ''perpetual''
           \<and> bk_account x = bk_account b) t
     \<and> \<not> list_ex (\<lambda>x. bk_type b = ''expiring'' \<and> bk_type x = ''expiring''
           \<and> bk_account x = bk_account b \<and> bk_identity b \<noteq> None \<and> bk_expires_at b \<noteq> None
           \<and> bk_identity x = bk_identity b \<and> bk_expires_at x = bk_expires_at b) t"

definition bucket_target ::
    "time \<Rightarrow> nat \<Rightarrow> string \<Rightarrow> string option \<Rightarrow> time option \<Rightarrow> points_db
      \<Rightarrow> exn + (points_bucket \<times> points_db)" where
  "bucket_target now acc bt ident expires db =
     (case find (bucket_matches acc bt ident expires) (pd_buckets db) of
        Some b \<Rightarrow> Inr (b, db)
      | None \<Rightarrow>
          (let b = \<lparr>bk_id = pd_next_id db, bk_account = acc, bk_type = bt,
                    bk_identity = (if bt = ''expiring'' then ident else None),
                    bk_expires_at = (if bt = ''expiring'' then expires else None),
                    bk_amount = 0, bk_version = 1, bk_created_at = now\<rparr>
           in bindE (requireE (bucket_insertable b (pd_buckets db))
                (points_conflict ''points.bucket_conflict'')) (\<lambda>_.
              Inr (b, db\<lparr>pd_buckets := pd_buckets db @ [b],
                         pd_next_id := Suc (pd_next_id db)\<rparr>))))"

text \<open>
  \<^verbatim>\<open>update(PointsBucket).where(id, version == snapshot.version, guard).values(amount=...)\<close>.
  The allocations of one entry name distinct buckets (unique constraint on the entry and the
  bucket), so that no snapshot in a list of targets is made stale by an earlier element.
\<close>

definition cas_bucket ::
    "points_bucket \<Rightarrow> (points_bucket \<Rightarrow> bool) \<Rightarrow> (int \<Rightarrow> int) \<Rightarrow> points_db \<Rightarrow> points_db option" where
  "cas_bucket snap guard f db =
     (let hit = (\<lambda>r. bk_id r = bk_id snap \<and> bk_version r = bk_version snap \<and> guard r) in
      if list_ex hit (pd_buckets db)
      then Some (db\<lparr>pd_buckets := update_where hit
             (\<lambda>r. r\<lparr>bk_amount := f (bk_amount r), bk_version := bk_version r + 1\<rparr>)
             (pd_buckets db)\<rparr>)
      else None)"

definition add_to_bucket :: "points_bucket \<Rightarrow> int \<Rightarrow> points_db \<Rightarrow> exn + points_db" where
  "add_to_bucket snap amount db =
     someE (cas_bucket snap (\<lambda>_. True) (\<lambda>x. x + amount) db)
       (points_conflict ''points.bucket_conflict'')"

text \<open>Expiry first, perpetual last, then age.\<close>

definition bucket_sort_key :: "points_bucket \<Rightarrow> bool \<times> time \<times> time" where
  "bucket_sort_key b = (bk_expires_at b = None,
     case bk_expires_at b of None \<Rightarrow> datetime_min | Some t \<Rightarrow> t, bk_created_at b)"

fun consume_loop ::
    "points_bucket list \<Rightarrow> int \<Rightarrow> points_db \<Rightarrow> exn + ((points_bucket \<times> int) list \<times> points_db)" where
  "consume_loop [] remaining db = Inr ([], db)"
| "consume_loop (b # bs) remaining db =
     (if remaining \<le> 0 then Inr ([], db)
      else let take = min (bk_amount b) remaining in
        bindE (someE (cas_bucket b (\<lambda>r. take \<le> bk_amount r) (\<lambda>x. x - take) db)
          (points_conflict ''points.bucket_conflict'')) (\<lambda>db1.
        bindE (consume_loop bs (remaining - take) db1) (\<lambda>(allocs, db2).
        Inr ((b, take) # allocs, db2))))"

definition consume_buckets ::
    "nat \<Rightarrow> int \<Rightarrow> bool \<Rightarrow> points_db \<Rightarrow> exn + (int \<times> (points_bucket \<times> int) list \<times> points_db)" where
  "consume_buckets acc amount allow_negative db =
     (let buckets = sort_key bucket_sort_key (get_buckets db acc) in
      bindE (get_balance db acc) (\<lambda>balance.
      let available = sum_list (map bk_amount buckets) in
      bindE (requireE (amount \<le> available \<or> allow_negative)
        (points_conflict ''points.insufficient_balance'')) (\<lambda>_.
      bindE (consume_loop buckets amount db) (\<lambda>(allocs, db1).
      let new_balance = bl_balance balance - amount in
      bindE (write_balance balance new_balance db1) (\<lambda>db2.
      Inr (new_balance, allocs, db2))))))"

fun restore_loop ::
    "(points_bucket \<times> int) list \<Rightarrow> int \<Rightarrow> points_db \<Rightarrow> exn + (int \<times> points_db)" where
  "restore_loop [] remaining db = Inr (remaining, db)"
| "restore_loop ((b, capacity) # ts) remaining db =
     (if remaining \<le> 0 then Inr (remaining, db)
      else let give = min capacity remaining in
        bindE (add_to_bucket b give db) (\<lambda>db1. restore_loop ts (remaining - give) db1))"

text \<open>What a restore does with the buckets once \<open>remaining\<close> is left after paying down debt.\<close>

definition restore_remaining ::
    "time \<Rightarrow> nat \<Rightarrow> (points_bucket \<times> int) list \<Rightarrow> int \<Rightarrow> points_db \<Rightarrow> exn + points_db" where
  "restore_remaining now acc targets remaining db =
     bindE (restore_loop targets remaining db) (\<lambda>(rest, db1).
     if 0 < rest then
       bindE (bucket_target now acc ''perpetual'' None None db1) (\<lambda>(fallback, db2).
       add_to_bucket fallback rest db2)
     else Inr db1)"

definition after_pay_down :: "int \<Rightarrow> int \<Rightarrow> int" where
  "after_pay_down balance amount =
     (if balance < 0 then amount - min (- balance) amount else amount)"

definition restore_buckets ::
    "time \<Rightarrow> nat \<Rightarrow> int \<Rightarrow> (points_bucket \<times> int) list \<Rightarrow> points_db \<Rightarrow> exn + (int \<times> points_db)" where
  "restore_buckets now acc amount targets db =
     bindE (get_balance db acc) (\<lambda>balance.
     let new_balance = bl_balance balance + amount in
     bindE (restore_remaining now acc targets (after_pay_down (bl_balance balance) amount) db) (\<lambda>db1.
     bindE (write_balance balance new_balance db1) (\<lambda>db2.
     Inr (new_balance, db2))))"

definition restore_into ::
    "time \<Rightarrow> nat \<Rightarrow> (points_bucket \<times> int) list \<Rightarrow> int \<Rightarrow> int \<Rightarrow> points_db \<Rightarrow> exn + points_db" where
  "restore_into now acc targets running amount db =
     restore_remaining now acc targets (after_pay_down running amount) db"

definition add_allocations :: "nat \<Rightarrow> (points_bucket \<times> int) list \<Rightarrow> points_db \<Rightarrow> points_db" where
  "add_allocations eid allocs db = db\<lparr>pd_allocations := pd_allocations db @
     map (\<lambda>(b, amt). \<lparr>al_entry = eid, al_bucket = bk_id b, al_amount = amt\<rparr>) allocs\<rparr>"

section \<open>Accounts and entries\<close>

definition new_account :: "points_db \<Rightarrow> nat \<Rightarrow> string \<Rightarrow> string \<Rightarrow> points_account" where
  "new_account db prog st sid = \<lparr>ac_id = pd_next_id db, ac_program = prog, ac_subject_type = st,
     ac_subject_id = sid, ac_state = AC_active, ac_version = 1\<rparr>"

definition insert_account :: "points_account \<Rightarrow> points_db \<Rightarrow> exn + points_db" where
  "insert_account a db =
     bindE (requireE (find_account db (ac_program a) (ac_subject_type a) (ac_subject_id a) = None)
       (points_conflict ''points.account_exists'')) (\<lambda>_.
     Inr (db\<lparr>pd_accounts := pd_accounts db @ [a], pd_next_id := Suc (pd_next_id db)\<rparr>))"

definition insert_balance :: "nat \<Rightarrow> points_db \<Rightarrow> points_db" where
  "insert_balance acc db = db\<lparr>pd_balances := pd_balances db @
     [\<lparr>bl_account = acc, bl_balance = 0, bl_version = 1\<rparr>]\<rparr>"

definition ensure_account ::
    "points_ctx \<Rightarrow> points_program \<Rightarrow> string \<Rightarrow> string \<Rightarrow> points_db
      \<Rightarrow> exn + (points_account \<times> points_db)" where
  "ensure_account ctx prog st sid db =
     (case find_account db (pr_id prog) st sid of
        Some acc \<Rightarrow>
          bindE (bucket_target (px_now ctx) (ac_id acc) ''perpetual'' None None db) (\<lambda>(_, db1).
          Inr (acc, db1))
      | None \<Rightarrow>
          (let acc = new_account db (pr_id prog) st sid in
           bindE (insert_account acc db) (\<lambda>db1.
           bindE (bucket_target (px_now ctx) (ac_id acc) ''perpetual'' None None
             (insert_balance (ac_id acc) db1)) (\<lambda>(_, db2).
           bindE (points_emit ctx ''points.account_opened.v1'' acc prog [] db2) (\<lambda>db3.
           Inr (acc, db3))))))"

text \<open>
  Adding a ledger row and flushing: the unique \<open>(program_id, idempotency_key)\<close> raises the
  command's own conflict.
\<close>

definition insert_entry :: "string \<Rightarrow> ledger_entry \<Rightarrow> points_db \<Rightarrow> exn + points_db" where
  "insert_entry dup e db =
     bindE (requireE (case en_idempotency_key e of None \<Rightarrow> True
         | Some k \<Rightarrow> find_idempotent db (en_program e) k = None) (points_conflict dup)) (\<lambda>_.
     Inr (db\<lparr>pd_entries := pd_entries db @ [e], pd_next_id := Suc (pd_next_id db)\<rparr>))"

definition py_or :: "string option \<Rightarrow> string option \<Rightarrow> string option" where
  "py_or a b = (if a = None \<or> a = Some [] then b else a)"

definition credit_routing ::
    "behavior_spec \<Rightarrow> time \<Rightarrow> time option \<Rightarrow> string \<times> string option \<times> time option" where
  "credit_routing spec occurred_at expires_at =
     (case expires_at of
        Some t \<Rightarrow> (''expiring'', Some (bs_key spec), Some t)
      | None \<Rightarrow> (case bs_expiration_days spec of
          None \<Rightarrow> (''perpetual'', None, None)
        | Some d \<Rightarrow> (''expiring'', Some (bs_key spec), Some (occurred_at + days d))))"

definition validate_limits ::
    "points_ctx \<Rightarrow> behavior_spec \<Rightarrow> points_account \<Rightarrow> int \<Rightarrow> points_db \<Rightarrow> exn + unit" where
  "validate_limits ctx spec acc amount db =
     (let mine = (\<lambda>e. en_account e = ac_id acc \<and> en_behavior_key e = Some (bs_key spec)
                      \<and> en_type e = entry_type_of (bs_direction spec)) in
      bindE (requireE (bs_direction spec = Dir_credit \<longrightarrow>
          (case bs_fixed_amount spec of None \<Rightarrow> True | Some f \<Rightarrow> amount = f))
        (points_validation ''points.amount_mismatch'')) (\<lambda>_.
      bindE (requireE (bs_min_amount spec \<le> amount \<and> amount \<le> bs_max_amount spec)
        (points_validation ''points.amount_out_of_range'')) (\<lambda>_.
      bindE (requireE (case bs_cooldown_seconds spec of None \<Rightarrow> True | Some c \<Rightarrow>
          length (filter (\<lambda>e. mine e \<and> px_now ctx - seconds c \<le> en_created_at e) (pd_entries db)) = 0)
        (points_conflict ''points.cooldown'')) (\<lambda>_.
      requireE (case bs_daily_limit spec of None \<Rightarrow> True | Some lmt \<Rightarrow>
          (let day_start = px_day_start ctx (bs_business_timezone spec) (px_now ctx);
               day_end = day_start + days 1;
               today = length (filter (\<lambda>e. mine e \<and> day_start \<le> en_created_at e
                         \<and> en_created_at e < day_end) (pd_entries db))
           in int today < lmt))
        (points_conflict ''points.daily_limit'')))))"

section \<open>Commands\<close>

definition open_points_account ::
    "points_ctx \<Rightarrow> string \<Rightarrow> string \<Rightarrow> string \<Rightarrow> points_db \<Rightarrow> exn + (balance_dto \<times> points_db)" where
  "open_points_account ctx key st sid db =
     bindE (require_program db key) (\<lambda>prog.
     bindE (ensure_account ctx prog st sid db) (\<lambda>(acc, db1).
     bindE (get_balance db1 (ac_id acc)) (\<lambda>balance.
     Inr (to_balance acc balance key, db1))))"

text \<open>The metadata of a credit: the routing, overridden by the caller's metadata.\<close>

definition credit_metadata ::
    "string \<Rightarrow> string option \<Rightarrow> time option \<Rightarrow> dict \<Rightarrow> dict" where
  "credit_metadata bt ident expires meta = dmerge
     ((''bucket_type'', JStr bt) # (case ident of None \<Rightarrow> [] | Some i \<Rightarrow>
        [(''expiration_identity'', JStr i),
         (''expires_at'', case expires of None \<Rightarrow> JNull | Some t \<Rightarrow> JTime t)])) meta"

definition replay_entry ::
    "entry_type \<Rightarrow> ledger_entry \<Rightarrow> points_program \<Rightarrow> 'd \<Rightarrow> exn + (ledger_entry_dto \<times> 'd)" where
  "replay_entry ty existing prog db =
     bindE (requireE (en_type existing = ty) (points_conflict ''points.idempotency_mismatch'')) (\<lambda>_.
     Inr (to_entry existing (pr_key prog), db))"

text \<open>The change a positive amount makes to the buckets: it pays down debt first.\<close>

definition bucket_delta :: "int \<Rightarrow> int \<Rightarrow> int" where
  "bucket_delta new_balance amount = max 0 new_balance - max 0 (new_balance - amount)"

definition credit_entry ::
    "points_ctx \<Rightarrow> behavior_spec \<Rightarrow> points_program \<Rightarrow> points_account \<Rightarrow> credit_debit_input
      \<Rightarrow> string \<Rightarrow> string option \<Rightarrow> time option \<Rightarrow> points_db \<Rightarrow> ledger_entry" where
  "credit_entry ctx spec prog acc i bt ident expires db =
     \<lparr>en_id = pd_next_id db, en_program = pr_id prog, en_account = ac_id acc,
      en_amount = ci_amount i, en_type = EN_credit, en_behavior_key = Some (bs_key spec),
      en_behavior_version = Some (bs_version spec), en_source_type = Some (ci_source_type i),
      en_source_id = Some (ci_source_id i), en_idempotency_key = Some (ci_idempotency_key i),
      en_actor_type = Some (ci_actor_type i), en_actor_id = py_or (ci_actor_id i) (px_actor_id ctx),
      en_metadata = credit_metadata bt ident expires (ci_metadata i), en_reversal_of = None,
      en_created_at = px_now ctx\<rparr>"

definition source_values :: "behavior_spec \<Rightarrow> credit_debit_input \<Rightarrow> dict" where
  "source_values spec i = [(''behavior_key'', JStr (bs_key spec)),
     (''source_type'', JStr (ci_source_type i)), (''source_id'', JStr (ci_source_id i))]"

definition amount_values :: "ledger_entry \<Rightarrow> int \<Rightarrow> dict" where
  "amount_values e new_balance = [(''entry_id'', id_json (en_id e)),
     (''amount'', JInt (en_amount e)), (''balance'', JInt new_balance)]"

definition credit_in_uow ::
    "points_ctx \<Rightarrow> string \<Rightarrow> credit_debit_input \<Rightarrow> points_db \<Rightarrow> exn + (ledger_entry_dto \<times> points_db)" where
  "credit_in_uow ctx behavior_key i db =
     bindE (require_behavior ctx behavior_key) (\<lambda>spec.
     bindE (requireE (bs_direction spec = Dir_credit)
       (points_validation ''points.behavior_direction'')) (\<lambda>_.
     bindE (requireE (List.member (bs_allowed_source_types spec) (ci_source_type i))
       (points_validation ''points.source_type_not_allowed'')) (\<lambda>_.
     bindE (require_program db (bs_program_key spec)) (\<lambda>prog.
     (case find_idempotent db (pr_id prog) (ci_idempotency_key i) of
        Some existing \<Rightarrow> replay_entry EN_credit existing prog db
      | None \<Rightarrow>
          bindE (ensure_account ctx prog (ci_subject_type i) (ci_subject_id i) db) (\<lambda>(acc, db1).
          bindE (requireE (ac_state acc \<noteq> AC_frozen)
            (points_conflict ''points.account_frozen'')) (\<lambda>_.
          bindE (validate_limits ctx spec acc (ci_amount i) db1) (\<lambda>_.
          (case credit_routing spec (px_now ctx) (ci_expires_at i) of (bt, ident, expires) \<Rightarrow>
          bindE (bucket_target (px_now ctx) (ac_id acc) bt ident expires db1) (\<lambda>(bucket, db2).
          bindE (apply_balance (ac_id acc) (ci_amount i) True db2) (\<lambda>(new_balance, db3).
          bindE (let delta = bucket_delta new_balance (ci_amount i) in
                 if 0 < delta then add_to_bucket bucket delta db3 else Inr db3) (\<lambda>db4.
          (let e = credit_entry ctx spec prog acc i bt ident expires db4 in
          bindE (insert_entry ''points.duplicate_credit'' e db4) (\<lambda>db5.
          bindE (points_emit ctx ''points.credited.v1'' acc prog
            (amount_values e new_balance @ source_values spec i) db5) (\<lambda>db6.
          Inr (to_entry e (pr_key prog), db6))))))))))))))))"

text \<open>\<open>CreditPoints.__call__\<close>: the same in a transaction of its own, committed.\<close>

definition credit_points ::
    "points_ctx \<Rightarrow> string \<Rightarrow> credit_debit_input \<Rightarrow> points_db \<Rightarrow> exn + (ledger_entry_dto \<times> points_db)" where
  "credit_points ctx behavior_key i db = credit_in_uow ctx behavior_key i db"

definition debit_entry ::
    "points_ctx \<Rightarrow> behavior_spec \<Rightarrow> points_program \<Rightarrow> points_account \<Rightarrow> credit_debit_input
      \<Rightarrow> points_db \<Rightarrow> ledger_entry" where
  "debit_entry ctx spec prog acc i db =
     \<lparr>en_id = pd_next_id db, en_program = pr_id prog, en_account = ac_id acc,
      en_amount = - ci_amount i, en_type = EN_debit, en_behavior_key = Some (bs_key spec),
      en_behavior_version = Some (bs_version spec), en_source_type = Some (ci_source_type i),
      en_source_id = Some (ci_source_id i), en_idempotency_key = Some (ci_idempotency_key i),
      en_actor_type = Some (ci_actor_type i), en_actor_id = py_or (ci_actor_id i) (px_actor_id ctx),
      en_metadata = ci_metadata i, en_reversal_of = None, en_created_at = px_now ctx\<rparr>"

definition debit_points ::
    "points_ctx \<Rightarrow> string \<Rightarrow> credit_debit_input \<Rightarrow> points_db \<Rightarrow> exn + (ledger_entry_dto \<times> points_db)" where
  "debit_points ctx behavior_key i db =
     bindE (require_behavior ctx behavior_key) (\<lambda>spec.
     bindE (requireE (bs_direction spec = Dir_debit)
       (points_validation ''points.behavior_direction'')) (\<lambda>_.
     bindE (require_program db (bs_program_key spec)) (\<lambda>prog.
     (case find_idempotent db (pr_id prog) (ci_idempotency_key i) of
        Some existing \<Rightarrow> replay_entry EN_debit existing prog db
      | None \<Rightarrow>
          bindE (ensure_account ctx prog (ci_subject_type i) (ci_subject_id i) db) (\<lambda>(acc, db1).
          bindE (requireE (ac_state acc \<noteq> AC_frozen \<and> ac_state acc \<noteq> AC_debt)
            (points_conflict ''points.account_not_debitable'')) (\<lambda>_.
          bindE (validate_limits ctx spec acc (ci_amount i) db1) (\<lambda>_.
          bindE (consume_buckets (ac_id acc) (ci_amount i) False db1) (\<lambda>(new_balance, allocs, db2).
          (let e = debit_entry ctx spec prog acc i db2 in
          bindE (insert_entry ''points.duplicate_debit'' e db2) (\<lambda>db3.
          bindE (points_emit ctx ''points.debited.v1'' acc prog
            (amount_values e new_balance @ source_values spec i)
            (add_allocations (en_id e) allocs db3)) (\<lambda>db4.
          Inr (to_entry e (pr_key prog), db4)))))))))))) "

definition reversal_entry ::
    "points_ctx \<Rightarrow> ledger_entry \<Rightarrow> reverse_input \<Rightarrow> points_db \<Rightarrow> ledger_entry" where
  "reversal_entry ctx e i db =
     \<lparr>en_id = pd_next_id db, en_program = en_program e, en_account = en_account e,
      en_amount = - en_amount e, en_type = EN_reversal, en_behavior_key = en_behavior_key e,
      en_behavior_version = en_behavior_version e, en_source_type = en_source_type e,
      en_source_id = en_source_id e, en_idempotency_key = Some (ri_idempotency_key i),
      en_actor_type = Some ''user'', en_actor_id = px_actor_id ctx,
      en_metadata = [(''reason'', JStr (ri_reason i))], en_reversal_of = Some (en_id e),
      en_created_at = px_now ctx\<rparr>"

text \<open>
  Undoing the effect of an entry on the buckets: spend a credit back, or give back what a
  debit or an expiration took. The allocations to record are those of the spending case.
\<close>

definition undo_entry ::
    "points_ctx \<Rightarrow> ledger_entry \<Rightarrow> points_db \<Rightarrow> exn + (int \<times> (points_bucket \<times> int) list \<times> points_db)" where
  "undo_entry ctx e db =
     (if 0 < en_amount e then consume_buckets (en_account e) (en_amount e) True db
      else bindE (restore_buckets (px_now ctx) (en_account e) (- en_amount e)
             (entry_allocations db (en_id e)) db) (\<lambda>(new_balance, db1).
           Inr (new_balance, [], db1)))"

definition reverse_ledger_entry ::
    "points_ctx \<Rightarrow> nat \<Rightarrow> reverse_input \<Rightarrow> points_db \<Rightarrow> exn + (ledger_entry_dto \<times> points_db)" where
  "reverse_ledger_entry ctx entry_id i db =
     bindE (someE (entry_by_id db entry_id) (points_not_found ''points.entry_not_found'')) (\<lambda>e.
     bindE (case program_by_id db (en_program e) of
         None \<Rightarrow> Inl (points_conflict ''points.reversal_not_allowed'')
       | Some p \<Rightarrow> if \<not> pr_allow_reversal p then Inl (points_conflict ''points.reversal_not_allowed'')
                  else Inr p) (\<lambda>prog.
     bindE (requireE (en_type e \<noteq> EN_reversal)
       (points_conflict ''points.reversal_of_reversal'')) (\<lambda>_.
     (case find_idempotent db (en_program e) (ri_idempotency_key i) of
        Some existing \<Rightarrow> replay_entry EN_reversal existing prog db
      | None \<Rightarrow>
          bindE (requireE (length (filter (\<lambda>x. en_reversal_of x = Some (en_id e)) (pd_entries db)) = 0)
            (points_conflict ''points.already_reversed'')) (\<lambda>_.
          bindE (someE (account_by_id db (en_account e))
            (points_not_found ''points.account_not_found'')) (\<lambda>acc.
          bindE (undo_entry ctx e db) (\<lambda>(new_balance, allocs, db1).
          (let r = reversal_entry ctx e i db1 in
          bindE (insert_entry ''points.duplicate_reversal'' r db1) (\<lambda>db2.
          bindE (points_emit ctx ''points.entry_reversed.v1'' acc prog
            [(''entry_id'', id_json (en_id e)), (''reversal_id'', id_json (en_id r)),
             (''amount'', JInt (- en_amount e)), (''balance'', JInt new_balance)]
            (add_allocations (en_id r) allocs db2)) (\<lambda>db3.
          Inr (to_entry r (pr_key prog), db3)))))))))))"

definition adjustment_entry ::
    "points_ctx \<Rightarrow> points_program \<Rightarrow> points_account \<Rightarrow> adjust_input \<Rightarrow> points_db \<Rightarrow> ledger_entry" where
  "adjustment_entry ctx prog acc i db =
     \<lparr>en_id = pd_next_id db, en_program = pr_id prog, en_account = ac_id acc,
      en_amount = ai_amount i, en_type = EN_adjustment, en_behavior_key = None,
      en_behavior_version = None, en_source_type = None, en_source_id = None,
      en_idempotency_key = Some (ai_idempotency_key i), en_actor_type = Some ''user'',
      en_actor_id = px_actor_id ctx,
      en_metadata = dmerge [(''reason'', JStr (ai_reason i))] (ai_metadata i),
      en_reversal_of = None, en_created_at = px_now ctx\<rparr>"

definition adjust_balance ::
    "points_ctx \<Rightarrow> nat \<Rightarrow> int \<Rightarrow> points_db \<Rightarrow> exn + (int \<times> (points_bucket \<times> int) list \<times> points_db)" where
  "adjust_balance ctx acc amount db =
     (if 0 < amount then
        bindE (apply_balance acc amount True db) (\<lambda>(new_balance, db1).
        bindE (let delta = bucket_delta new_balance amount in
               if 0 < delta then
                 bindE (bucket_target (px_now ctx) acc ''perpetual'' None None db1) (\<lambda>(bucket, db2).
                 add_to_bucket bucket delta db2)
               else Inr db1) (\<lambda>db3.
        Inr (new_balance, [], db3)))
      else consume_buckets acc (- amount) True db)"

definition adjust_points ::
    "points_ctx \<Rightarrow> adjust_input \<Rightarrow> points_db \<Rightarrow> exn + (ledger_entry_dto \<times> points_db)" where
  "adjust_points ctx i db =
     bindE (points_require_permission ctx ''points.adjust'') (\<lambda>_.
     bindE (requireE (ai_amount i \<noteq> 0) (points_validation ''points.zero_amount'')) (\<lambda>_.
     bindE (require_program db (case ai_program_key i of None \<Rightarrow> ''credit''
              | Some k \<Rightarrow> if k = [] then ''credit'' else k)) (\<lambda>prog.
     bindE (ensure_account ctx prog (ai_subject_type i) (ai_subject_id i) db) (\<lambda>(acc, db1).
     (case find_idempotent db1 (pr_id prog) (ai_idempotency_key i) of
        Some existing \<Rightarrow>
          bindE (replay_entry EN_adjustment existing prog db1) (\<lambda>(dto, _). Inr (dto, db))
      | None \<Rightarrow>
          bindE (adjust_balance ctx (ac_id acc) (ai_amount i) db1) (\<lambda>(new_balance, allocs, db2).
          (let e = adjustment_entry ctx prog acc i db2 in
          bindE (insert_entry ''points.duplicate_adjustment'' e db2) (\<lambda>db3.
          bindE (points_emit ctx
            (if ai_amount i < 0 then ''points.debited.v1'' else ''points.credited.v1'') acc prog
            (amount_values e new_balance) (add_allocations (en_id e) allocs db3)) (\<lambda>db4.
          bindE (points_append_audit ctx ''points.adjusted'' ''points_account''
            (show_nat (ac_id acc))
            [(''program_key'', JStr (pr_key prog)), (''amount'', JInt (ai_amount i)),
             (''reason'', JStr (ai_reason i)), (''entry_id'', id_json (en_id e))] db4) (\<lambda>db5.
          Inr (to_entry e (pr_key prog), db5)))))))))))"

definition bucket_expired :: "time \<Rightarrow> points_bucket \<Rightarrow> bool" where
  "bucket_expired now b \<longleftrightarrow> bk_type b = ''expiring''
     \<and> (case bk_expires_at b of None \<Rightarrow> False | Some t \<Rightarrow> t \<le> now) \<and> 0 < bk_amount b"

definition expiration_key :: "points_bucket \<Rightarrow> string" where
  "expiration_key b = ''expiration:'' @ show_nat (bk_id b) @ '':'' @ show_int (bk_version b)"

definition expiration_entry ::
    "points_ctx \<Rightarrow> points_program \<Rightarrow> points_account \<Rightarrow> points_bucket \<Rightarrow> points_db \<Rightarrow> ledger_entry" where
  "expiration_entry ctx prog acc b db =
     \<lparr>en_id = pd_next_id db, en_program = pr_id prog, en_account = ac_id acc,
      en_amount = - bk_amount b, en_type = EN_expiration, en_behavior_key = bk_identity b,
      en_behavior_version = None, en_source_type = Some ''system'',
      en_source_id = Some (''bucket:'' @ show_nat (bk_id b)),
      en_idempotency_key = Some (expiration_key b), en_actor_type = Some ''system'',
      en_actor_id = None, en_metadata = [], en_reversal_of = None, en_created_at = px_now ctx\<rparr>"

text \<open>One due bucket of the sweep; a bucket without account or program is skipped.\<close>

definition expire_bucket ::
    "points_ctx \<Rightarrow> points_bucket \<Rightarrow> points_db \<Rightarrow> exn + (ledger_entry_dto list \<times> points_db)" where
  "expire_bucket ctx b db =
     (case account_by_id db (bk_account b) of
        None \<Rightarrow> Inr ([], db)
      | Some acc \<Rightarrow> (case program_by_id db (ac_program acc) of
          None \<Rightarrow> Inr ([], db)
        | Some prog \<Rightarrow>
            (let e = expiration_entry ctx prog acc b db in
             bindE (insert_entry ''points.expiration_conflict'' e db) (\<lambda>db1.
             let db2 = add_allocations (en_id e) [(b, bk_amount b)] db1 in
             bindE (get_balance db2 (ac_id acc)) (\<lambda>balance.
             let new_balance = bl_balance balance - bk_amount b in
             bindE (write_balance balance new_balance db2) (\<lambda>db3.
             bindE (someE (cas_bucket b (\<lambda>_. True) (\<lambda>_. 0) db3)
               (points_conflict ''points.bucket_conflict'')) (\<lambda>db4.
             bindE (points_emit ctx ''points.bucket_expired.v1'' acc prog
               [(''entry_id'', id_json (en_id e)), (''bucket_id'', id_json (bk_id b)),
                (''expiration_identity'', JStr (case bk_identity b of None \<Rightarrow> [] | Some x \<Rightarrow> x)),
                (''amount'', JInt (- en_amount e)), (''balance'', JInt new_balance)] db4) (\<lambda>db5.
             Inr ([to_entry e (pr_key prog)], db5)))))))))"

fun expire_all ::
    "points_ctx \<Rightarrow> points_bucket list \<Rightarrow> points_db \<Rightarrow> exn + (ledger_entry_dto list \<times> points_db)" where
  "expire_all ctx [] db = Inr ([], db)"
| "expire_all ctx (b # bs) db =
     bindE (expire_bucket ctx b db) (\<lambda>(e, db1).
     bindE (expire_all ctx bs db1) (\<lambda>(es, db2). Inr (e @ es, db2)))"

definition due_buckets :: "time \<Rightarrow> points_db \<Rightarrow> points_bucket list" where
  "due_buckets now db = sort_key (\<lambda>b. case bk_expires_at b of None \<Rightarrow> 0 | Some t \<Rightarrow> t)
     (filter (bucket_expired now) (pd_buckets db))"

definition expire_buckets ::
    "points_ctx \<Rightarrow> points_db \<Rightarrow> exn + (ledger_entry_dto list \<times> points_db)" where
  "expire_buckets ctx db = expire_all ctx (due_buckets (px_now ctx) db) db"

definition freeze_target :: "bool \<Rightarrow> int \<Rightarrow> account_state \<Rightarrow> account_state" where
  "freeze_target frozen balance st =
     (if frozen then AC_frozen
      else if st = AC_frozen then (if 0 \<le> balance then AC_active else AC_debt)
      else st)"

definition state_name :: "account_state \<Rightarrow> string" where
  "state_name st = (case st of AC_active \<Rightarrow> ''active'' | AC_frozen \<Rightarrow> ''frozen'' | AC_debt \<Rightarrow> ''debt'')"

definition set_account_state :: "nat \<Rightarrow> account_state \<Rightarrow> points_db \<Rightarrow> points_db" where
  "set_account_state acc st db = db\<lparr>pd_accounts := update_where (\<lambda>a. ac_id a = acc)
     (\<lambda>a. a\<lparr>ac_state := st, ac_version := ac_version a + 1\<rparr>) (pd_accounts db)\<rparr>"

definition freeze_points_account ::
    "points_ctx \<Rightarrow> string \<Rightarrow> string \<Rightarrow> string \<Rightarrow> bool \<Rightarrow> string option \<Rightarrow> points_db
      \<Rightarrow> exn + (balance_dto \<times> points_db)" where
  "freeze_points_account ctx key st sid frozen reason db =
     bindE (points_require_permission ctx ''points.freeze'') (\<lambda>_.
     bindE (require_program db key) (\<lambda>prog.
     bindE (get_account db (pr_id prog) st sid) (\<lambda>acc.
     bindE (get_balance db (ac_id acc)) (\<lambda>balance.
     (let target = freeze_target frozen (bl_balance balance) (ac_state acc) in
      if ac_state acc = target then Inr (to_balance acc balance key, db)
      else
        (let acc' = acc\<lparr>ac_state := target, ac_version := ac_version acc + 1\<rparr> in
         bindE (points_emit ctx ''points.account_frozen.v1'' acc' prog
           [(''state'', JStr (state_name target))] (set_account_state (ac_id acc) target db)) (\<lambda>db1.
         bindE (points_append_audit ctx
           (if frozen then ''points.account.frozen'' else ''points.account.unfrozen'')
           ''points_account'' (show_nat (ac_id acc))
           [(''program_key'', JStr key),
            (''reason'', JStr (case reason of None \<Rightarrow> ''admin state change''
               | Some r \<Rightarrow> if r = [] then ''admin state change'' else r))] db1) (\<lambda>db2.
         Inr (to_balance acc' balance key, db2))))))))) "

section \<open>Rebuilding a balance\<close>

text \<open>
  \<open>RebuildBalance._rebuild_buckets\<close>. The routing of a replayed credit is read back from the
  metadata of its entry; a value of the wrong type fails in \<^verbatim>\<open>fromisoformat\<close> or in the driver.
\<close>

definition zero_buckets :: "nat \<Rightarrow> points_db \<Rightarrow> points_db" where
  "zero_buckets acc db = db\<lparr>pd_buckets := update_where (\<lambda>b. bk_account b = acc)
     (\<lambda>b. b\<lparr>bk_amount := 0, bk_version := bk_version b + 1\<rparr>) (pd_buckets db)\<rparr>"

definition stored_text :: "json option \<Rightarrow> exn + string option" where
  "stored_text v = (case v of None \<Rightarrow> Inr None | Some JNull \<Rightarrow> Inr None
     | Some (JStr s) \<Rightarrow> Inr (Some s) | Some _ \<Rightarrow> Inl (PyException ''DBAPIError''))"

definition stored_time :: "json option \<Rightarrow> exn + time option" where
  "stored_time v = (case v of None \<Rightarrow> Inr None | Some JNull \<Rightarrow> Inr None
     | Some (JTime t) \<Rightarrow> Inr (Some t) | Some (JStr _) \<Rightarrow> Inl (PyException ''ValueError'')
     | Some _ \<Rightarrow> Inl (PyException ''TypeError''))"

definition replay_routing :: "dict \<Rightarrow> exn + (string \<times> string option \<times> time option)" where
  "replay_routing meta =
     bindE (stored_time (dget meta ''expires_at'')) (\<lambda>expires.
     bindE (case dget meta ''bucket_type'' of None \<Rightarrow> Inr ''perpetual'' | Some (JStr s) \<Rightarrow> Inr s
       | Some _ \<Rightarrow> Inl (PyException ''DBAPIError'')) (\<lambda>bt.
     bindE (if bt = ''expiring'' then stored_text (dget meta ''expiration_identity'')
            else Inr None) (\<lambda>ident.
     Inr (bt, ident, expires))))"

definition replay_bucket ::
    "points_ctx \<Rightarrow> nat \<Rightarrow> ledger_entry \<Rightarrow> points_db \<Rightarrow> exn + (points_bucket \<times> points_db)" where
  "replay_bucket ctx acc e db =
     (if en_type e = EN_adjustment then bucket_target (px_now ctx) acc ''perpetual'' None None db
      else bindE (replay_routing (en_metadata e)) (\<lambda>(bt, ident, expires).
           bucket_target (px_now ctx) acc bt ident expires db))"

fun replay_consume :: "(points_bucket \<times> int) list \<Rightarrow> points_db \<Rightarrow> exn + points_db" where
  "replay_consume [] db = Inr db"
| "replay_consume ((b, amount) # ts) db =
     bindE (requireE (amount \<le> bk_amount b) (points_conflict ''points.rebuild_inconsistent'')) (\<lambda>_.
     bindE (add_to_bucket b (- amount) db) (\<lambda>db1. replay_consume ts db1))"

definition replay_step ::
    "points_ctx \<Rightarrow> nat \<Rightarrow> int \<Rightarrow> ledger_entry \<Rightarrow> points_db \<Rightarrow> exn + points_db" where
  "replay_step ctx acc running e db =
     (if (en_type e = EN_credit \<or> en_type e = EN_adjustment) \<and> 0 < en_amount e then
        (let delta = max 0 (running + en_amount e) - max 0 running in
         if 0 < delta then
           bindE (replay_bucket ctx acc e db) (\<lambda>(b, db1). add_to_bucket b delta db1)
         else Inr db)
      else if en_type e = EN_reversal \<and> \<not> en_amount e < 0 then
        (case Option.bind (en_reversal_of e) (entry_by_id db) of
           None \<Rightarrow> Inr db
         | Some original \<Rightarrow> restore_into (px_now ctx) acc
             (entry_allocations db (en_id original)) running (en_amount e) db)
      else replay_consume (entry_allocations db (en_id e)) db)"

fun replay_entries ::
    "points_ctx \<Rightarrow> nat \<Rightarrow> int \<Rightarrow> ledger_entry list \<Rightarrow> points_db \<Rightarrow> exn + points_db" where
  "replay_entries ctx acc running [] db = Inr db"
| "replay_entries ctx acc running (e # es) db =
     bindE (replay_step ctx acc running e db) (\<lambda>db1.
     replay_entries ctx acc (running + en_amount e) es db1)"

definition account_entries :: "nat \<Rightarrow> points_db \<Rightarrow> ledger_entry list" where
  "account_entries acc db = sort_key (\<lambda>e. (en_created_at e, en_id e))
     (filter (\<lambda>e. en_account e = acc) (pd_entries db))"

definition rebuild_buckets :: "points_ctx \<Rightarrow> nat \<Rightarrow> points_db \<Rightarrow> exn + points_db" where
  "rebuild_buckets ctx acc db =
     replay_entries ctx acc 0 (account_entries acc db) (zero_buckets acc db)"

record rebuild_report =
  rb_account_id :: nat
  rb_ledger_sum :: int
  rb_current_balance :: int
  rb_bucket_sum :: int
  rb_match :: bool
  rb_dry_run :: bool

definition ledger_sum :: "points_db \<Rightarrow> nat \<Rightarrow> int" where
  "ledger_sum db acc = group_sum (\<lambda>e. en_account e = acc) en_amount (pd_entries db)"

definition bucket_sum :: "points_db \<Rightarrow> nat \<Rightarrow> int" where
  "bucket_sum db acc = group_sum (\<lambda>b. bk_account b = acc) bk_amount (pd_buckets db)"

text \<open>The balance row and the state are ORM objects: they are written without a version guard.\<close>

definition rebuild_balance_row :: "nat \<Rightarrow> int \<Rightarrow> points_db \<Rightarrow> points_db" where
  "rebuild_balance_row acc v db = db\<lparr>pd_balances :=
     update_where (\<lambda>r. bl_account r = acc \<and> bl_balance r \<noteq> v)
       (\<lambda>r. r\<lparr>bl_balance := v, bl_version := bl_version r + 1\<rparr>) (pd_balances db)\<rparr>"

definition rebuild_state :: "nat \<Rightarrow> int \<Rightarrow> points_db \<Rightarrow> points_db" where
  "rebuild_state acc v db = db\<lparr>pd_accounts := update_where (\<lambda>a. ac_id a = acc)
     (\<lambda>a. a\<lparr>ac_state := next_state v (ac_state a)\<rparr>) (pd_accounts db)\<rparr>"

text \<open>The reported bucket sum is that of the bucket objects loaded at the start.\<close>

definition loaded_bucket_sum :: "points_db \<Rightarrow> points_bucket list \<Rightarrow> int" where
  "loaded_bucket_sum db loaded =
     group_sum (\<lambda>b. List.member (map bk_id loaded) (bk_id b)) bk_amount (pd_buckets db)"

definition rebuild_balance ::
    "points_ctx \<Rightarrow> nat \<Rightarrow> bool \<Rightarrow> points_db \<Rightarrow> exn + (rebuild_report \<times> points_db)" where
  "rebuild_balance ctx account_id dry_run db =
     bindE (points_require_permission ctx ''points.rebuild'') (\<lambda>_.
     bindE (someE (account_by_id db account_id) (points_not_found ''points.account_not_found'')) (\<lambda>acc.
     bindE (get_balance db (ac_id acc)) (\<lambda>balance.
     let lsum = ledger_sum db (ac_id acc);
         loaded = filter (\<lambda>b. bk_account b = ac_id acc) (pd_buckets db);
         bsum = bucket_sum db (ac_id acc)
     in bindE
       (if dry_run then Inr (bl_balance balance, bsum, db)
        else
          (let db1 = rebuild_state (ac_id acc) lsum (rebuild_balance_row (ac_id acc) lsum db) in
           if bsum \<noteq> max 0 lsum then
             bindE (rebuild_buckets ctx (ac_id acc) db1) (\<lambda>db2.
             Inr (lsum, loaded_bucket_sum db2 loaded, db2))
           else Inr (lsum, bsum, db1))) (\<lambda>(current, bsum', db').
     Inr (\<lparr>rb_account_id = ac_id acc, rb_ledger_sum = lsum, rb_current_balance = current,
           rb_bucket_sum = bsum', rb_match = (lsum = current \<and> bsum' = max 0 lsum),
           rb_dry_run = dry_run\<rparr>, db')))))"

end
