(* ===== verification/Points_Invariant.thy ===== *)
theory Points_Invariant
  imports Points_Commands "HOL-Library.Multiset"
begin

text \<open>
  The invariant of the points tables and what each primitive of the commands does to the four
  observations of an account: its balance, its state, the sum of its buckets and the sum of
  its ledger entries. Every command is a sequence of primitives, so that its effect is
  obtained by composing these lemmas; the commands are treated in
  \<^verbatim>\<open>Points_Correct.thy\<close>.
\<close>

section \<open>Observations and invariant\<close>

definition balance_of :: "points_db \<Rightarrow> nat \<Rightarrow> int" where
  "balance_of db a = (case find_balance db a of None \<Rightarrow> 0 | Some r \<Rightarrow> bl_balance r)"

definition state_of :: "points_db \<Rightarrow> nat \<Rightarrow> account_state option" where
  "state_of db a = map_option ac_state (account_by_id db a)"

definition account_ids :: "points_db \<Rightarrow> nat set" where
  "account_ids db = ac_id ` set (pd_accounts db)"

definition rows_ok :: "('r \<Rightarrow> nat) \<Rightarrow> nat \<Rightarrow> 'r list \<Rightarrow> bool" where
  "rows_ok key n t \<longleftrightarrow> distinct (map key t) \<and> (\<forall>r\<in>set t. key r < n)"

definition buckets_ok :: "nat set \<Rightarrow> points_bucket list \<Rightarrow> bool" where
  "buckets_ok ids bs \<longleftrightarrow> (\<forall>b\<in>set bs. 0 \<le> bk_amount b \<and> bk_account b \<in> ids)"

definition entries_ok :: "nat set \<Rightarrow> ledger_entry list \<Rightarrow> bool" where
  "entries_ok ids es \<longleftrightarrow> (\<forall>e\<in>set es. en_account e \<in> ids)"

text \<open>An allocation is positive and draws from a bucket of the account of its entry.\<close>

definition allocs_ok ::
    "nat \<Rightarrow> debit_allocation list \<Rightarrow> ledger_entry list \<Rightarrow> points_bucket list \<Rightarrow> bool" where
  "allocs_ok n als es bs \<longleftrightarrow> distinct (map (\<lambda>al. (al_entry al, al_bucket al)) als)
     \<and> (\<forall>al\<in>set als. 0 < al_amount al \<and> al_entry al < n \<and> al_bucket al < n
     \<and> (\<forall>e\<in>set es. \<forall>b\<in>set bs. en_id e = al_entry al \<longrightarrow> bk_id b = al_bucket al
          \<longrightarrow> bk_account b = en_account e))"

definition points_wf :: "points_db \<Rightarrow> bool" where
  "points_wf db \<longleftrightarrow>
     rows_ok ac_id (pd_next_id db) (pd_accounts db)
   \<and> rows_ok bk_id (pd_next_id db) (pd_buckets db)
   \<and> rows_ok en_id (pd_next_id db) (pd_entries db)
   \<and> distinct (map bl_account (pd_balances db))
   \<and> bl_account ` set (pd_balances db) = account_ids db
   \<and> buckets_ok (account_ids db) (pd_buckets db)
   \<and> entries_ok (account_ids db) (pd_entries db)
   \<and> allocs_ok (pd_next_id db) (pd_allocations db) (pd_entries db) (pd_buckets db)"

definition state_fits :: "account_state option \<Rightarrow> int \<Rightarrow> bool" where
  "state_fits st v \<longleftrightarrow> (st = Some AC_debt \<longrightarrow> v < 0) \<and> (st = Some AC_active \<longrightarrow> 0 \<le> v)"

text \<open>The balance is the ledger sum, the buckets hold its positive part, debt is named as such.\<close>

definition points_inv :: "points_db \<Rightarrow> bool" where
  "points_inv db \<longleftrightarrow> points_wf db
     \<and> balance_of db = ledger_sum db
     \<and> bucket_sum db = (\<lambda>a. max 0 (balance_of db a))
     \<and> (\<forall>a. state_fits (state_of db a) (balance_of db a))"

lemma rows_ok_mono: "rows_ok key n t \<Longrightarrow> n \<le> m \<Longrightarrow> rows_ok key m t"
  unfolding rows_ok_def by (blast intro: less_le_trans)

lemma rows_ok_snoc: "rows_ok key n t \<Longrightarrow> key r = n \<Longrightarrow> rows_ok key (Suc n) (t @ [r])"
  unfolding rows_ok_def by (auto simp: less_Suc_eq)

lemma rows_ok_update [simp]:
  assumes "\<And>r. key (f r) = key r"
  shows "rows_ok key n (update_where p f t) = rows_ok key n t"
proof -
  have "rows_ok key n t' \<longleftrightarrow> distinct (map key t') \<and> (\<forall>k\<in>set (map key t'). k < n)" for t'
    by (auto simp: rows_ok_def)
  then show ?thesis by (simp only: map_update_where[where g = key, OF assms])
qed

lemma allocs_ok_mono: "allocs_ok n als es bs \<Longrightarrow> n \<le> m \<Longrightarrow> allocs_ok m als es bs"
  unfolding allocs_ok_def by (blast intro: less_le_trans)

lemma key_image_update [simp]:
  assumes "\<And>r. key (f r) = key r"
  shows "key ` set (update_where p f t) = key ` set t"
  using map_update_where[where g = key, OF assms, of p t] by (metis list.set_map)

lemma points_wf_parts:
  assumes "points_wf db"
  shows "distinct (map ac_id (pd_accounts db))" and "distinct (map bl_account (pd_balances db))"
    and "distinct (map bk_id (pd_buckets db))" and "distinct (map en_id (pd_entries db))"
    and "bl_account ` set (pd_balances db) = account_ids db"
    and "\<And>b. b \<in> set (pd_buckets db) \<Longrightarrow> 0 \<le> bk_amount b"
  using assms by (auto simp: points_wf_def rows_ok_def buckets_ok_def)

subsection \<open>Primitives that leave the observations alone\<close>

text \<open>Two databases that differ in the outbox and the row id counter only.\<close>

definition same_tables :: "points_db \<Rightarrow> points_db \<Rightarrow> bool" where
  "same_tables db db' \<longleftrightarrow> pd_programs db' = pd_programs db \<and> pd_accounts db' = pd_accounts db
     \<and> pd_balances db' = pd_balances db \<and> pd_buckets db' = pd_buckets db
     \<and> pd_allocations db' = pd_allocations db \<and> pd_entries db' = pd_entries db
     \<and> pd_next_id db \<le> pd_next_id db'"

lemma same_tables_obs:
  assumes "same_tables db db'"
  shows "balance_of db' = balance_of db" and "state_of db' = state_of db"
    and "bucket_sum db' = bucket_sum db" and "ledger_sum db' = ledger_sum db"
    and "pd_entries db' = pd_entries db" and "account_ids db' = account_ids db"
  using assms
  by (simp_all add: same_tables_def balance_of_def state_of_def bucket_sum_def ledger_sum_def
      find_balance_def account_by_id_def account_ids_def fun_eq_iff)

lemma same_tables_wf: "same_tables db db' \<Longrightarrow> points_wf db \<Longrightarrow> points_wf db'"
  unfolding same_tables_def points_wf_def account_ids_def
  by (elim conjE) (simp add: rows_ok_mono allocs_ok_mono)

lemma same_tables_inv: "same_tables db db' \<Longrightarrow> points_inv db \<Longrightarrow> points_inv db'"
  unfolding points_inv_def by (elim conjE) (simp add: same_tables_obs same_tables_wf)

lemma same_tables_trans: "same_tables a b \<Longrightarrow> same_tables b c \<Longrightarrow> same_tables a c"
  unfolding same_tables_def by simp

lemma points_append_same: "points_append ctx key agg payload db = Inr db' \<Longrightarrow> same_tables db db'"
  unfolding points_append_def same_tables_def by (auto simp: cmd_ok)

lemma points_emit_same: "points_emit ctx key acc prog values db = Inr db' \<Longrightarrow> same_tables db db'"
  unfolding points_emit_def by (auto simp: cmd_ok dest: points_append_same)

lemma points_append_audit_same:
  "points_append_audit ctx action ty target details db = Inr db' \<Longrightarrow> same_tables db db'"
  unfolding points_append_audit_def by (auto dest: points_append_same)

subsection \<open>The conditional balance update\<close>

text \<open>Two databases with the same buckets, allocations and entries.\<close>

definition same_rows :: "points_db \<Rightarrow> points_db \<Rightarrow> bool" where
  "same_rows db db' \<longleftrightarrow> pd_programs db' = pd_programs db \<and> pd_buckets db' = pd_buckets db
     \<and> pd_allocations db' = pd_allocations db \<and> pd_entries db' = pd_entries db
     \<and> pd_next_id db' = pd_next_id db \<and> account_ids db' = account_ids db"

lemma same_rows_obs:
  assumes "same_rows db db'"
  shows "bucket_sum db' = bucket_sum db" and "ledger_sum db' = ledger_sum db"
  using assms by (simp_all add: same_rows_def bucket_sum_def ledger_sum_def fun_eq_iff)

lemma find_balance_mem:
  assumes "points_wf db" and "a \<in> account_ids db"
  obtains r where "find_balance db a = Some r" and "r \<in> set (pd_balances db)" and "bl_account r = a"
proof -
  obtain r where r: "r \<in> set (pd_balances db)" "bl_account r = a"
    using assms points_wf_parts(5)[OF assms(1)] by (metis imageE)
  have "find (\<lambda>x. bl_account x = bl_account r) (pd_balances db) = Some r"
    using points_wf_parts(2)[OF assms(1)] r(1) by (rule find_key_unique)
  with r show thesis by (intro that) (simp_all add: find_balance_def)
qed

lemma get_balance_Inr:
  assumes "get_balance db a = Inr r"
  shows "r \<in> set (pd_balances db)" and "bl_account r = a" and "balance_of db a = bl_balance r"
  using assms by (auto simp: get_balance_def find_balance_def balance_of_def cmd_ok
      dest: find_Some_mem)

lemma cas_balance_Some:
  assumes "points_wf db" and "cas_balance snap v db = Some db'"
  shows "points_wf db' \<and> same_rows db db' \<and> pd_accounts db' = pd_accounts db
    \<and> balance_of db' = (balance_of db)(bl_account snap := v) \<and> bl_account snap \<in> account_ids db"
proof -
  let ?hit = "\<lambda>r. bl_account r = bl_account snap \<and> bl_version r = bl_version snap"
  let ?f = "\<lambda>r. r\<lparr>bl_balance := v, bl_version := bl_version r + 1\<rparr>"
  obtain r where r: "r \<in> set (pd_balances db)" "?hit r"
    and db': "db' = db\<lparr>pd_balances := update_where ?hit ?f (pd_balances db)\<rparr>"
    using assms(2) by (auto simp: cas_balance_def Let_def list_ex_iff split: if_splits)
  have found: "find (\<lambda>x. bl_account x = bl_account snap) (pd_balances db) = Some r"
    using find_key_unique[OF points_wf_parts(2)[OF assms(1)] r(1)] r(2) by simp
  have other: "find (\<lambda>x. bl_account x = a) (update_where ?hit ?f (pd_balances db))
      = map_option (\<lambda>r. if ?hit r then ?f r else r) (find (\<lambda>x. bl_account x = a) (pd_balances db))" for a
    by (rule find_update_where) simp
  have "balance_of db' = (balance_of db)(bl_account snap := v)"
  proof
    fix a
    show "balance_of db' a = ((balance_of db)(bl_account snap := v)) a"
      using found r(2) unfolding db' balance_of_def find_balance_def
      by (auto simp: other split: option.splits dest!: find_Some_mem)
  qed
  moreover have "points_wf db'"
    using assms(1) unfolding db' points_wf_def
    by (simp add: account_ids_def map_update_where[where g = bl_account])
  moreover have "bl_account snap \<in> account_ids db"
    using r points_wf_parts(5)[OF assms(1)] by (metis image_eqI)
  ultimately show ?thesis by (simp add: same_rows_def db' account_ids_def)
qed

lemma sync_account_state_effect:
  assumes "points_wf db"
  shows "points_wf (sync_account_state acc v db) \<and> same_rows db (sync_account_state acc v db)
    \<and> balance_of (sync_account_state acc v db) = balance_of db
    \<and> state_of (sync_account_state acc v db)
        = (state_of db)(acc := map_option (next_state v) (state_of db acc))"
proof (intro conjI)
  show "points_wf (sync_account_state acc v db)"
    using assms by (simp add: sync_account_state_def points_wf_def account_ids_def)
  show "same_rows db (sync_account_state acc v db)"
    by (simp add: sync_account_state_def same_rows_def account_ids_def)
  show "balance_of (sync_account_state acc v db) = balance_of db"
    by (simp add: sync_account_state_def balance_of_def find_balance_def fun_eq_iff)
  show "state_of (sync_account_state acc v db)
      = (state_of db)(acc := map_option (next_state v) (state_of db acc))"
    unfolding sync_account_state_def state_of_def account_by_id_def
    by (auto simp: fun_eq_iff find_update_where option.map_comp comp_def
        intro!: option.map_cong0 dest!: find_Some_mem)
qed

lemma write_balance_Inr:
  assumes "points_wf db" and "write_balance snap v db = Inr db'"
  shows "points_wf db'" and "same_rows db db'"
    and "balance_of db' = (balance_of db)(bl_account snap := v)"
    and "state_of db' = (state_of db)(bl_account snap
           := map_option (next_state v) (state_of db (bl_account snap)))"
    and "bl_account snap \<in> account_ids db"
proof -
  obtain db1 where 1: "cas_balance snap v db = Some db1"
    and 2: "db' = sync_account_state (bl_account snap) v db1"
    using assms(2) by (auto simp: write_balance_def cmd_ok)
  note c = cas_balance_Some[OF assms(1) 1]
  note s = sync_account_state_effect[of db1 "bl_account snap" v]
  from c s 2 show "points_wf db'" and "same_rows db db'"
    and "balance_of db' = (balance_of db)(bl_account snap := v)"
    and "state_of db' = (state_of db)(bl_account snap
           := map_option (next_state v) (state_of db (bl_account snap)))"
    and "bl_account snap \<in> account_ids db"
    by (auto simp: same_rows_def state_of_def account_by_id_def)
qed

lemma state_fits_next: "state_fits (map_option (next_state v) st) v"
  by (cases st) (auto simp: state_fits_def next_state_def split: if_splits)

subsection \<open>Buckets\<close>

text \<open>Two databases that differ in the buckets (and the row id counter) only.\<close>

definition only_buckets :: "points_db \<Rightarrow> points_db \<Rightarrow> bool" where
  "only_buckets db db' \<longleftrightarrow> pd_programs db' = pd_programs db \<and> pd_accounts db' = pd_accounts db
     \<and> pd_balances db' = pd_balances db \<and> pd_entries db' = pd_entries db
     \<and> pd_allocations db' = pd_allocations db \<and> pd_next_id db \<le> pd_next_id db'
     \<and> bk_id ` set (pd_buckets db) \<subseteq> bk_id ` set (pd_buckets db')
     \<and> (\<forall>b'\<in>set (pd_buckets db'). (\<exists>b\<in>set (pd_buckets db). bk_id b = bk_id b'
           \<and> bk_account b = bk_account b') \<or> pd_next_id db \<le> bk_id b')"

lemma only_buckets_refl [simp]: "only_buckets db db"
  unfolding only_buckets_def by blast

lemma only_buckets_trans: "only_buckets a b \<Longrightarrow> only_buckets b c \<Longrightarrow> only_buckets a c"
  unfolding only_buckets_def by (elim conjE, intro conjI) (simp_all, metis le_trans)

lemma only_buckets_obs:
  assumes "only_buckets db db'"
  shows "balance_of db' = balance_of db" and "state_of db' = state_of db"
    and "ledger_sum db' = ledger_sum db" and "account_ids db' = account_ids db"
    and "pd_entries db' = pd_entries db"
  using assms
  by (simp_all add: only_buckets_def balance_of_def state_of_def ledger_sum_def
      find_balance_def account_by_id_def account_ids_def fun_eq_iff)

lemma bucket_unique:
  assumes "points_wf db" and "b \<in> set (pd_buckets db)" and "c \<in> set (pd_buckets db)"
    and "bk_id b = bk_id c"
  shows "b = c"
  using points_wf_parts(3)[OF assms(1)] assms(2-4) by (metis distinct_map inj_onD)

lemma cas_bucket_Some:
  assumes wf: "points_wf db" and snap: "snap \<in> set (pd_buckets db)"
    and cas: "cas_bucket snap guard f db = Some db'" and nonneg: "0 \<le> f (bk_amount snap)"
  shows "guard snap" and "points_wf db'" and "only_buckets db db'"
    and "pd_next_id db' = pd_next_id db"
    and "bucket_sum db' = (bucket_sum db)(bk_account snap :=
           bucket_sum db (bk_account snap) + f (bk_amount snap) - bk_amount snap)"
    and "\<And>x. x \<in> set (pd_buckets db) \<Longrightarrow> bk_id x \<noteq> bk_id snap \<Longrightarrow> x \<in> set (pd_buckets db')"
proof -
  let ?hit = "\<lambda>r. bk_id r = bk_id snap \<and> bk_version r = bk_version snap \<and> guard r"
  let ?f = "\<lambda>r. r\<lparr>bk_amount := f (bk_amount r), bk_version := bk_version r + 1\<rparr>"
  obtain r where r: "r \<in> set (pd_buckets db)" "?hit r"
    and db': "db' = db\<lparr>pd_buckets := update_where ?hit ?f (pd_buckets db)\<rparr>"
    using cas by (auto simp: cas_bucket_def Let_def list_ex_iff split: if_splits)
  have r_snap: "r = snap" using bucket_unique[OF wf r(1) snap] r(2) by simp
  have only: "x = snap" if "x \<in> set (pd_buckets db)" "?hit x" for x
    using bucket_unique[OF wf that(1) snap] that(2) by simp
  show "guard snap" using r(2) r_snap by simp
  have ids: "bk_id ` set (pd_buckets db') = bk_id ` set (pd_buckets db)" by (simp add: db')
  have "\<forall>b'\<in>set (pd_buckets db'). \<exists>b\<in>set (pd_buckets db). bk_id b = bk_id b'
      \<and> bk_account b = bk_account b'"
    by (auto simp: db' set_update_where)
  with ids show "only_buckets db db'" by (simp add: only_buckets_def db')
  show "pd_next_id db' = pd_next_id db" by (simp add: db')
  show "x \<in> set (pd_buckets db')" if "x \<in> set (pd_buckets db)" "bk_id x \<noteq> bk_id snap" for x
    using that by (auto simp: db' set_update_where image_iff intro!: bexI[of _ x])
  have "buckets_ok (account_ids db) (update_where ?hit ?f (pd_buckets db))"
    using wf nonneg only by (fastforce simp: points_wf_def buckets_ok_def set_update_where)
  moreover have "allocs_ok (pd_next_id db) (pd_allocations db) (pd_entries db)
      (update_where ?hit ?f (pd_buckets db))"
    using wf by (fastforce simp: points_wf_def allocs_ok_def set_update_where)
  ultimately show "points_wf db'"
    using wf by (simp add: points_wf_def db' account_ids_def)
  show "bucket_sum db' = (bucket_sum db)(bk_account snap :=
      bucket_sum db (bk_account snap) + f (bk_amount snap) - bk_amount snap)"
  proof
    fix a
    have "group_sum (\<lambda>b. bk_account b = a) bk_amount (update_where ?hit ?f (pd_buckets db))
        = group_sum (\<lambda>b. bk_account b = a) bk_amount (pd_buckets db)
          + (if bk_account snap = a then bk_amount (?f snap) - bk_amount snap else 0)"
      using r r_snap by (intro group_sum_update_key[OF points_wf_parts(3)[OF wf] snap]) auto
    then show "bucket_sum db' a = ((bucket_sum db)(bk_account snap :=
      bucket_sum db (bk_account snap) + f (bk_amount snap) - bk_amount snap)) a"
      by (simp add: bucket_sum_def db')
  qed
qed

lemma bucket_target_Inr:
  assumes wf: "points_wf db" and acc: "acc \<in> account_ids db"
    and ok: "bucket_target now acc bt ident expires db = Inr (b, db')"
  shows "points_wf db'" and "only_buckets db db'" and "bucket_sum db' = bucket_sum db"
    and "b \<in> set (pd_buckets db')" and "bk_account b = acc"
    and "set (pd_buckets db) \<subseteq> set (pd_buckets db')"
proof -
  have "points_wf db' \<and> only_buckets db db' \<and> bucket_sum db' = bucket_sum db
    \<and> b \<in> set (pd_buckets db') \<and> bk_account b = acc \<and> set (pd_buckets db) \<subseteq> set (pd_buckets db')"
  proof (cases "find (bucket_matches acc bt ident expires) (pd_buckets db)")
    case (Some c)
    with ok have "b = c" "db' = db" by (simp_all add: bucket_target_def)
    with Some wf show ?thesis by (auto simp: bucket_matches_def dest: find_Some_mem)
  next
    case None
    have b: "bk_id b = pd_next_id db" "bk_account b = acc" "bk_amount b = 0"
      and db': "db' = db\<lparr>pd_buckets := pd_buckets db @ [b], pd_next_id := Suc (pd_next_id db)\<rparr>"
      using ok None by (auto simp: bucket_target_def Let_def cmd_ok)
    have "rows_ok bk_id (Suc (pd_next_id db)) (pd_buckets db @ [b])"
      using wf b by (intro rows_ok_snoc) (simp_all add: points_wf_def)
    moreover have "rows_ok ac_id (Suc (pd_next_id db)) (pd_accounts db)"
      and "rows_ok en_id (Suc (pd_next_id db)) (pd_entries db)"
      using wf by (auto simp: points_wf_def intro: rows_ok_mono)
    moreover have "buckets_ok (account_ids db) (pd_buckets db @ [b])"
      using wf b acc by (auto simp: points_wf_def buckets_ok_def)
    moreover have "allocs_ok (Suc (pd_next_id db)) (pd_allocations db) (pd_entries db)
        (pd_buckets db @ [b])"
      using wf b by (fastforce simp: points_wf_def allocs_ok_def)
    ultimately have "points_wf db'"
      using wf by (simp add: points_wf_def db' account_ids_def)
    moreover have "bucket_sum db' = bucket_sum db"
      using b by (simp add: bucket_sum_def db' fun_eq_iff)
    moreover have "only_buckets db db'"
      using b by (auto simp: only_buckets_def db')
    ultimately show ?thesis using b by (auto simp: db')
  qed
  then show "points_wf db'" and "only_buckets db db'" and "bucket_sum db' = bucket_sum db"
    and "b \<in> set (pd_buckets db')" and "bk_account b = acc"
    and "set (pd_buckets db) \<subseteq> set (pd_buckets db')" by simp_all
qed

lemma add_to_bucket_Inr:
  assumes "points_wf db" and "b \<in> set (pd_buckets db)" and "0 \<le> bk_amount b + amount"
    and "add_to_bucket b amount db = Inr db'"
  shows "points_wf db'" and "only_buckets db db'"
    and "bucket_sum db' = (bucket_sum db)(bk_account b := bucket_sum db (bk_account b) + amount)"
    and "\<And>x. x \<in> set (pd_buckets db) \<Longrightarrow> bk_id x \<noteq> bk_id b \<Longrightarrow> x \<in> set (pd_buckets db')"
proof -
  have cas: "cas_bucket b (\<lambda>_. True) (\<lambda>x. x + amount) db = Some db'"
    using assms(4) by (simp add: add_to_bucket_def cmd_ok)
  note c = cas_bucket_Some[OF assms(1,2) cas assms(3)]
  from c show "points_wf db'" and "only_buckets db db'" by simp_all
  show "bucket_sum db' = (bucket_sum db)(bk_account b := bucket_sum db (bk_account b) + amount)"
    using c(5) by (simp add: algebra_simps)
  show "\<And>x. x \<in> set (pd_buckets db) \<Longrightarrow> bk_id x \<noteq> bk_id b \<Longrightarrow> x \<in> set (pd_buckets db')"
    by (rule c(6))
qed

subsection \<open>Consumption and restoration\<close>

text \<open>Distinct buckets of one account, as they stand in the table.\<close>

definition snapshots :: "nat \<Rightarrow> points_db \<Rightarrow> points_bucket list \<Rightarrow> bool" where
  "snapshots acc db bs \<longleftrightarrow> set bs \<subseteq> set (pd_buckets db) \<and> distinct (map bk_id bs)
     \<and> (\<forall>b\<in>set bs. bk_account b = acc)"

text \<open>Allocations that may be recorded for an entry of the account.\<close>

definition drawn :: "nat \<Rightarrow> (points_bucket \<times> int) list \<Rightarrow> points_db \<Rightarrow> bool" where
  "drawn acc allocs db \<longleftrightarrow> distinct (map (bk_id \<circ> fst) allocs) \<and> (\<forall>(b, amt)\<in>set allocs. 0 < amt \<and> bk_id b < pd_next_id db
     \<and> bk_id b \<in> bk_id ` set (pd_buckets db) \<and> (\<forall>x\<in>set (pd_buckets db). bk_id x = bk_id b \<longrightarrow> bk_account x = acc))"

lemma snapshots_Cons:
  "snapshots acc db (b # bs) \<longleftrightarrow> b \<in> set (pd_buckets db) \<and> bk_account b = acc
     \<and> bk_id b \<notin> bk_id ` set bs \<and> snapshots acc db bs"
  by (auto simp: snapshots_def)

lemma snapshots_keep:
  assumes "snapshots acc db bs" and "bk_id b \<notin> bk_id ` set bs"
    and "\<And>x. x \<in> set (pd_buckets db) \<Longrightarrow> bk_id x \<noteq> bk_id b \<Longrightarrow> x \<in> set (pd_buckets db')"
  shows "snapshots acc db' bs"
  using assms unfolding snapshots_def by (metis imageI subset_iff)

lemma drawn_later:
  assumes "drawn acc allocs db" and "only_buckets db db'" and "points_wf db"
  shows "drawn acc allocs db'"
proof -
  have "0 < amt \<and> bk_id b < pd_next_id db' \<and> bk_id b \<in> bk_id ` set (pd_buckets db')
      \<and> (\<forall>x\<in>set (pd_buckets db'). bk_id x = bk_id b \<longrightarrow> bk_account x = acc)"
    if "(b, amt) \<in> set allocs" for b amt
  proof -
    have b: "0 < amt" "bk_id b < pd_next_id db" "bk_id b \<in> bk_id ` set (pd_buckets db)"
      "\<forall>x\<in>set (pd_buckets db). bk_id x = bk_id b \<longrightarrow> bk_account x = acc"
      using assms(1) that by (auto simp: drawn_def)
    have "bk_account x = acc" if "x \<in> set (pd_buckets db')" "bk_id x = bk_id b" for x
      using assms(2) that b(2,4) unfolding only_buckets_def by (metis not_less)
    with b(1-3) assms(2) show ?thesis by (auto simp: only_buckets_def)
  qed
  with assms(1) show ?thesis by (auto simp: drawn_def)
qed

lemma drawn_member:
  assumes "points_wf db" and "b \<in> set (pd_buckets db)" and "0 < amt"
  shows "drawn (bk_account b) [(b, amt)] db"
  using assms bucket_unique[OF assms(1) _ assms(2)]
  by (auto simp: drawn_def points_wf_def rows_ok_def)

lemma consume_loop_Inr:
  assumes "consume_loop bs remaining db = Inr (allocs, db')"
    and "points_wf db" and "snapshots acc db bs" and "\<forall>b\<in>set bs. 0 < bk_amount b" and "0 \<le> remaining"
  shows "points_wf db' \<and> only_buckets db db' \<and> drawn acc allocs db'
    \<and> set (map fst allocs) \<subseteq> set bs
    \<and> sum_list (map snd allocs) = min (sum_list (map bk_amount bs)) remaining
    \<and> bucket_sum db' = (bucket_sum db)(acc := bucket_sum db acc - sum_list (map snd allocs))"
  using assms
proof (induction bs remaining db arbitrary: allocs rule: consume_loop.induct)
  case (1 remaining db)
  then show ?case by (simp add: drawn_def)
next
  case (2 b bs remaining db)
  have pos: "0 \<le> sum_list (map bk_amount bs)" using 2(5) by (intro sum_list_nonneg) (auto simp: less_imp_le)
  show ?case
  proof (cases "remaining \<le> 0")
    case True
    with 2 pos show ?thesis by (auto simp: drawn_def)
  next
    case False
    let ?take = "min (bk_amount b) remaining"
    obtain db1 as where cas: "cas_bucket b (\<lambda>r. ?take \<le> bk_amount r) (\<lambda>x. x - ?take) db = Some db1"
      and rest: "consume_loop bs (remaining - ?take) db1 = Inr (as, db')"
      and allocs: "allocs = (b, ?take) # as"
      using 2(2) False by (auto simp: Let_def cmd_ok)
    have b: "b \<in> set (pd_buckets db)" "bk_account b = acc" "0 < bk_amount b"
      using 2(4,5) by (auto simp: snapshots_Cons)
    have nonneg: "0 \<le> bk_amount b - ?take" by simp
    note c = cas_bucket_Some[OF 2(3) b(1) cas nonneg]
    have IH: "points_wf db' \<and> only_buckets db1 db' \<and> drawn acc as db'
      \<and> set (map fst as) \<subseteq> set bs
      \<and> sum_list (map snd as) = min (sum_list (map bk_amount bs)) (remaining - ?take)
      \<and> bucket_sum db' = (bucket_sum db1)(acc := bucket_sum db1 acc - sum_list (map snd as))"
    proof (rule 2(1)[OF False refl _ rest])
      have "snapshots acc db bs" and "bk_id b \<notin> bk_id ` set bs"
        using 2(4) by (simp_all add: snapshots_Cons)
      then show "snapshots acc db1 bs" using c(6) by (rule snapshots_keep)
    qed (use c(2) 2(5) cas in \<open>auto simp: cmd_ok\<close>)
    have "drawn acc [(b, ?take)] db'"
      using drawn_later[OF drawn_member[OF 2(3) b(1)] only_buckets_trans[OF c(3)] 2(3)] IH b False
      by simp
    moreover have "bk_id b \<notin> set (map (bk_id \<circ> fst) as)"
      using IH 2(4) by (auto simp: snapshots_Cons)
    ultimately have "drawn acc allocs db'" using IH by (simp add: drawn_def allocs)
    then show ?thesis
      using IH c(5) b False only_buckets_trans[OF c(3)] pos by (auto simp: allocs min_def)
  qed
qed

lemma restore_loop_Inr:
  assumes "restore_loop targets remaining db = Inr (rest, db')"
    and "points_wf db" and "snapshots acc db (map fst targets)" and "\<forall>t\<in>set targets. 0 < snd t"
    and "0 \<le> remaining"
  shows "points_wf db' \<and> only_buckets db db' \<and> 0 \<le> rest
    \<and> bucket_sum db' = (bucket_sum db)(acc := bucket_sum db acc + remaining - rest)"
  using assms
proof (induction targets remaining db rule: restore_loop.induct)
  case (1 remaining db)
  then show ?case by simp
next
  case (2 b capacity ts remaining db)
  show ?case
  proof (cases "remaining \<le> 0")
    case True
    with 2 show ?thesis by auto
  next
    case False
    let ?give = "min capacity remaining"
    obtain db1 where add: "add_to_bucket b ?give db = Inr db1"
      and rest: "restore_loop ts (remaining - ?give) db1 = Inr (rest, db')"
      using 2(2) False by (auto simp: Let_def cmd_ok)
    have b: "b \<in> set (pd_buckets db)" "bk_account b = acc"
      and keep: "snapshots acc db (map fst ts)" "bk_id b \<notin> bk_id ` set (map fst ts)"
      using 2(4) by (auto simp: snapshots_Cons)
    have nonneg: "0 \<le> bk_amount b + ?give"
      using points_wf_parts(6)[OF 2(3) b(1)] 2(5) False by auto
    note a = add_to_bucket_Inr[OF 2(3) b(1) nonneg add]
    have "points_wf db' \<and> only_buckets db1 db' \<and> 0 \<le> rest
      \<and> bucket_sum db' = (bucket_sum db1)(acc := bucket_sum db1 acc + (remaining - ?give) - rest)"
    proof (rule 2(1)[OF False refl _ rest])
      show "snapshots acc db1 (map fst ts)" using keep a(4) by (rule snapshots_keep)
    qed (use a(1) 2(5) add in \<open>auto\<close>)
    with a(3) b(2) only_buckets_trans[OF a(2)] show ?thesis by auto
  qed
qed

lemma restore_remaining_Inr:
  assumes "restore_remaining now acc targets remaining db = Inr db'"
    and "points_wf db" and "snapshots acc db (map fst targets)" and "\<forall>t\<in>set targets. 0 < snd t"
    and "0 \<le> remaining" and "acc \<in> account_ids db"
  shows "points_wf db' \<and> only_buckets db db'
    \<and> bucket_sum db' = (bucket_sum db)(acc := bucket_sum db acc + remaining)"
proof -
  obtain rest db1 where loop: "restore_loop targets remaining db = Inr (rest, db1)"
    and tail: "(if 0 < rest then bindE (bucket_target now acc ''perpetual'' None None db1)
        (\<lambda>(fallback, db2). add_to_bucket fallback rest db2) else Inr db1) = Inr db'"
    using assms(1) by (auto simp: restore_remaining_def cmd_ok)
  note l = restore_loop_Inr[OF loop assms(2-5)]
  show ?thesis
  proof (cases "0 < rest")
    case False
    with tail l show ?thesis by auto
  next
    case True
    then obtain b db2 where target: "bucket_target now acc ''perpetual'' None None db1 = Inr (b, db2)"
      and add: "add_to_bucket b rest db2 = Inr db'"
      using tail by (auto simp: cmd_ok)
    have acc1: "acc \<in> account_ids db1" using l assms(6) only_buckets_obs(4)[of db db1] by simp
    note t = bucket_target_Inr[OF _ acc1 target]
    have "0 \<le> bk_amount b + rest"
      using points_wf_parts(6)[of db2 b] t(1,4) l True by auto
    note a = add_to_bucket_Inr[OF t(1) t(4) this add]
    have "only_buckets db db'"
      using l t(2) a(2) by (blast intro: only_buckets_trans)
    with l t a show ?thesis by auto
  qed
qed

lemma get_buckets_snapshots:
  assumes "points_wf db"
  shows "snapshots acc db (sort_key f (get_buckets db acc))"
    and "\<forall>b\<in>set (sort_key f (get_buckets db acc)). 0 < bk_amount b"
  using points_wf_parts(3)[OF assms]
  by (auto simp: snapshots_def get_buckets_def distinct_map inj_on_def)

lemma get_buckets_sum:
  assumes "points_wf db"
  shows "sum_list (map bk_amount (sort_key f (get_buckets db acc))) = bucket_sum db acc"
proof -
  have "group_sum (\<lambda>b. bk_account b = acc) bk_amount t
      = sum_list (map bk_amount (filter (\<lambda>b. bk_account b = acc \<and> 0 < bk_amount b) t))"
    if "\<forall>b\<in>set t. 0 \<le> bk_amount b" for t
    using that by (induction t) auto
  from this[of "pd_buckets db"] have "sum_list (map bk_amount (get_buckets db acc)) = bucket_sum db acc"
    using points_wf_parts(6)[OF assms] by (simp add: bucket_sum_def get_buckets_def)
  moreover have "sum_list (map bk_amount (sort_key f t)) = sum_list (map bk_amount t)" for t
    by (metis mset_sort sum_mset_sum_list mset_map)
  ultimately show ?thesis by simp
qed

subsection \<open>A balance change that is not in the ledger yet\<close>

text \<open>
  Between the balance update and the insertion of the entry, the balance of one account is
  ahead of its ledger sum by the amount of that entry; everything else holds.
\<close>

definition points_pending :: "nat \<Rightarrow> int \<Rightarrow> points_db \<Rightarrow> bool" where
  "points_pending acc d db \<longleftrightarrow> points_wf db \<and> acc \<in> account_ids db
     \<and> balance_of db = (ledger_sum db)(acc := ledger_sum db acc + d)
     \<and> bucket_sum db = (\<lambda>a. max 0 (balance_of db a))
     \<and> (\<forall>a. state_fits (state_of db a) (balance_of db a))"

text \<open>What a balance change shows to the rest of the command.\<close>

definition moved :: "nat \<Rightarrow> int \<Rightarrow> points_db \<Rightarrow> points_db \<Rightarrow> bool" where
  "moved acc v db db' \<longleftrightarrow> points_wf db' \<and> acc \<in> account_ids db'
     \<and> balance_of db' = (balance_of db)(acc := v)
     \<and> bucket_sum db' = (bucket_sum db)(acc := max 0 v)
     \<and> state_of db' = (state_of db)(acc := map_option (next_state v) (state_of db acc))
     \<and> pd_entries db' = pd_entries db \<and> pd_allocations db' = pd_allocations db
     \<and> pd_programs db' = pd_programs db \<and> account_ids db' = account_ids db"

lemma moved_pending:
  assumes "moved acc v db db'" and "points_inv db"
  shows "points_pending acc (v - balance_of db acc) db'"
proof -
  have "ledger_sum db' = ledger_sum db"
    using assms(1) by (simp add: moved_def ledger_sum_def fun_eq_iff)
  then show ?thesis
    using assms unfolding moved_def points_inv_def points_pending_def
    by (elim conjE) (auto simp: fun_eq_iff state_fits_next)
qed

lemma write_after_buckets:
  assumes "points_wf db1" and "only_buckets db db1" and "bl_account snap = acc"
    and "bucket_sum db1 = (bucket_sum db)(acc := max 0 v)"
    and "write_balance snap v db1 = Inr db2"
  shows "moved acc v db db2" and "same_rows db1 db2"
proof -
  note w = write_balance_Inr[OF assms(1,5)]
  note o = only_buckets_obs[OF assms(2)]
  show "same_rows db1 db2" by (rule w(2))
  show "moved acc v db db2"
    using w o assms(2-4) same_rows_obs[OF w(2)]
    by (simp add: moved_def same_rows_def only_buckets_def)
qed

lemma consume_buckets_Inr:
  assumes inv: "points_inv db" and amt: "0 \<le> amount"
    and ok: "consume_buckets acc amount allow db = Inr (v, allocs, db')"
  shows "moved acc v db db'" and "v = balance_of db acc - amount" and "drawn acc allocs db'"
    and "sum_list (map snd allocs) = min (max 0 (balance_of db acc)) amount"
    and "allow \<or> amount \<le> max 0 (balance_of db acc)"
proof -
  let ?bs = "sort_key bucket_sort_key (get_buckets db acc)"
  have wf: "points_wf db" and sum: "bucket_sum db acc = max 0 (balance_of db acc)"
    using inv by (simp_all add: points_inv_def)
  obtain balance db1 where bal: "get_balance db acc = Inr balance"
    and enough: "amount \<le> sum_list (map bk_amount ?bs) \<or> allow"
    and loop: "consume_loop ?bs amount db = Inr (allocs, db1)"
    and v: "v = bl_balance balance - amount"
    and wr: "write_balance balance v db1 = Inr db'"
    using ok by (auto simp: consume_buckets_def Let_def cmd_ok)
  note snaps = get_buckets_snapshots[OF wf, where f = bucket_sort_key and acc = acc]
  note total = get_buckets_sum[OF wf, where f = bucket_sort_key and acc = acc]
  note b = get_balance_Inr[OF bal]
  show v': "v = balance_of db acc - amount" using v b(3) by simp
  note l = consume_loop_Inr[OF loop wf snaps amt]
  show "sum_list (map snd allocs) = min (max 0 (balance_of db acc)) amount"
    using l total sum by simp
  have "bucket_sum db1 = (bucket_sum db)(acc := max 0 v)"
    using l total sum v' amt by (auto simp: fun_eq_iff max_def min_def)
  note m = write_after_buckets[OF _ _ b(2) this wr]
  show "moved acc v db db'" using m l by simp
  show "drawn acc allocs db'"
    using m(2) l by (simp add: drawn_def same_rows_def)
  show "allow \<or> amount \<le> max 0 (balance_of db acc)"
    using enough total sum by auto
qed

lemma restore_buckets_Inr:
  assumes inv: "points_inv db" and amt: "0 \<le> amount"
    and targets: "snapshots acc db (map fst targets)" "\<forall>t\<in>set targets. 0 < snd t"
    and ok: "restore_buckets now acc amount targets db = Inr (v, db')"
  shows "moved acc v db db'" and "v = balance_of db acc + amount"
proof -
  have wf: "points_wf db" and sum: "bucket_sum db acc = max 0 (balance_of db acc)"
    using inv by (simp_all add: points_inv_def)
  obtain balance db1 where bal: "get_balance db acc = Inr balance"
    and restore: "restore_remaining now acc targets (after_pay_down (bl_balance balance) amount) db
        = Inr db1"
    and v: "v = bl_balance balance + amount"
    and wr: "write_balance balance v db1 = Inr db'"
    using ok by (auto simp: restore_buckets_def Let_def cmd_ok)
  note b = get_balance_Inr[OF bal]
  have acc: "acc \<in> account_ids db"
    using b points_wf_parts(5)[OF wf] by (metis image_eqI)
  have left: "0 \<le> after_pay_down (bl_balance balance) amount"
    using amt by (simp add: after_pay_down_def)
  show v': "v = balance_of db acc + amount" using v b(3) by simp
  note r = restore_remaining_Inr[OF restore wf targets left acc]
  have "bucket_sum db1 = (bucket_sum db)(acc := max 0 v)"
    using r sum v' b(3) amt by (auto simp: fun_eq_iff after_pay_down_def)
  note m = write_after_buckets[OF _ _ b(2) this wr]
  show "moved acc v db db'" using m r by simp
qed

lemma apply_balance_Inr:
  assumes "points_wf db" and "apply_balance acc amount allow db = Inr (v, db')"
  shows "points_wf db'" and "same_rows db db'" and "balance_of db' = (balance_of db)(acc := v)"
    and "state_of db' = (state_of db)(acc := map_option (next_state v) (state_of db acc))"
    and "acc \<in> account_ids db" and "v = balance_of db acc + amount" and "allow \<or> 0 \<le> v"
proof -
  obtain balance where bal: "get_balance db acc = Inr balance"
    and v: "v = bl_balance balance + amount" and guard: "allow \<or> 0 \<le> v"
    and wr: "write_balance balance v db = Inr db'"
    using assms(2) by (auto simp: apply_balance_def Let_def cmd_ok)
  note b = get_balance_Inr[OF bal]
  note w = write_balance_Inr[OF assms(1) wr, unfolded b(2)]
  from w b(3) v guard show "points_wf db'" and "same_rows db db'"
    and "balance_of db' = (balance_of db)(acc := v)"
    and "state_of db' = (state_of db)(acc := map_option (next_state v) (state_of db acc))"
    and "acc \<in> account_ids db" and "v = balance_of db acc + amount" and "allow \<or> 0 \<le> v"
    by simp_all
qed

text \<open>A credit or positive adjustment: the balance first, then the excess over the debt.\<close>

lemma buckets_after_balance:
  assumes inv: "points_inv db" and amt: "0 < amount"
    and bal: "apply_balance acc amount True db = Inr (v, db1)"
    and db2: "points_wf db2" "only_buckets db1 db2"
      "bucket_sum db2 = (bucket_sum db1)(acc := bucket_sum db1 acc + bucket_delta v amount)"
  shows "moved acc v db db2"
proof -
  have wf: "points_wf db" and sum: "bucket_sum db acc = max 0 (balance_of db acc)"
    using inv by (simp_all add: points_inv_def)
  note a = apply_balance_Inr[OF wf bal]
  note o = only_buckets_obs[OF db2(2)]
  have "bucket_sum db acc + bucket_delta v amount = max 0 v"
    using sum a(6) amt by (simp add: bucket_delta_def)
  then show ?thesis
    using a o db2 same_rows_obs[OF a(2)]
    by (simp add: moved_def same_rows_def only_buckets_def)
qed

lemma bucket_delta_nonneg: "0 \<le> amount \<Longrightarrow> 0 \<le> bucket_delta v amount"
  by (simp add: bucket_delta_def)

lemma fun_upd_add_zero: "(f :: nat \<Rightarrow> int)(a := f a + 0) = f"
  by simp

lemma credit_moved:
  assumes inv: "points_inv db" and amt: "0 < amount"
    and b: "b \<in> set (pd_buckets db)" "bk_account b = acc"
    and bal: "apply_balance acc amount True db = Inr (v, db1)"
    and add: "(if 0 < bucket_delta v amount then add_to_bucket b (bucket_delta v amount) db1
       else Inr db1) = Inr db2"
  shows "moved acc v db db2"
proof -
  have wf: "points_wf db" using inv by (simp add: points_inv_def)
  note a = apply_balance_Inr[OF wf bal]
  show ?thesis
  proof (cases "0 < bucket_delta v amount")
    case True
    have "b \<in> set (pd_buckets db1)" using b(1) a(2) by (simp add: same_rows_def)
    moreover have "0 \<le> bk_amount b + bucket_delta v amount"
      using points_wf_parts(6)[OF wf b(1)] True by simp
    ultimately have "points_wf db2 \<and> only_buckets db1 db2
      \<and> bucket_sum db2 = (bucket_sum db1)(acc := bucket_sum db1 acc + bucket_delta v amount)"
      using add_to_bucket_Inr[OF a(1), of b "bucket_delta v amount" db2] add True b(2) by simp
    then show ?thesis by (intro buckets_after_balance[OF inv amt bal]) simp_all
  next
    case False
    then have "bucket_delta v amount = 0" using bucket_delta_nonneg[of amount v] amt by simp
    with add a(1) show ?thesis by (intro buckets_after_balance[OF inv amt bal]) simp_all
  qed
qed

lemma adjust_up_moved:
  assumes inv: "points_inv db" and amt: "0 < amount"
    and ok: "adjust_balance ctx acc amount db = Inr (v, allocs, db2)"
  shows "moved acc v db db2" and "v = balance_of db acc + amount" and "allocs = []"
proof -
  have wf: "points_wf db" using inv by (simp add: points_inv_def)
  obtain db1 where bal: "apply_balance acc amount True db = Inr (v, db1)" and "allocs = []"
    and add: "(if 0 < bucket_delta v amount then
        bindE (bucket_target (px_now ctx) acc ''perpetual'' None None db1) (\<lambda>(bucket, db2).
          add_to_bucket bucket (bucket_delta v amount) db2)
       else Inr db1) = Inr db2"
    using ok amt by (auto simp: adjust_balance_def Let_def cmd_ok)
  note a = apply_balance_Inr[OF wf bal]
  show "allocs = []" by fact
  show "v = balance_of db acc + amount" by (rule a(6))
  show "moved acc v db db2"
  proof (cases "0 < bucket_delta v amount")
    case True
    obtain b dbt where t: "bucket_target (px_now ctx) acc ''perpetual'' None None db1 = Inr (b, dbt)"
      and add': "add_to_bucket b (bucket_delta v amount) dbt = Inr db2"
      using add True by (auto simp: cmd_ok)
    have "acc \<in> account_ids db1" using a(2,5) by (simp add: same_rows_def)
    note t' = bucket_target_Inr[OF a(1) this t]
    have "0 \<le> bk_amount b + bucket_delta v amount"
      using points_wf_parts(6)[OF t'(1,4)] True by simp
    note ad = add_to_bucket_Inr[OF t'(1,4) this add']
    show ?thesis
      using ad t' only_buckets_trans[OF t'(2) ad(2)]
      by (intro buckets_after_balance[OF inv amt bal]) simp_all
  next
    case False
    then have "bucket_delta v amount = 0" using bucket_delta_nonneg[of amount v] amt by simp
    with add a(1) show ?thesis by (intro buckets_after_balance[OF inv amt bal]) simp_all
  qed
qed

section \<open>Recording the entry\<close>

lemma insert_entry_Inr:
  assumes wf: "points_wf db" and acc: "en_account e \<in> account_ids db" and "en_id e = pd_next_id db"
    and ins: "insert_entry dup e db = Inr db'"
  shows "points_wf db'"
    and "ledger_sum db' = (ledger_sum db)(en_account e := ledger_sum db (en_account e) + en_amount e)"
    and "pd_accounts db' = pd_accounts db" and "pd_balances db' = pd_balances db"
    and "pd_entries db' = pd_entries db @ [e]"
    and "balance_of db' = balance_of db" and "state_of db' = state_of db"
    and "bucket_sum db' = bucket_sum db" and "pd_buckets db' = pd_buckets db"
    and "account_ids db' = account_ids db" and "pd_next_id db' = Suc (pd_next_id db)"
    and "pd_allocations db' = pd_allocations db" and "pd_programs db' = pd_programs db"
    and "\<And>k. en_idempotency_key e = Some k \<Longrightarrow> find_idempotent db (en_program e) k = None"
proof -
  have db': "db' = db\<lparr>pd_entries := pd_entries db @ [e], pd_next_id := Suc (pd_next_id db)\<rparr>"
    and fresh: "case en_idempotency_key e of None \<Rightarrow> True
        | Some k \<Rightarrow> find_idempotent db (en_program e) k = None"
    using ins by (auto simp: insert_entry_def cmd_ok)
  have obs: "balance_of db' = balance_of db" "state_of db' = state_of db"
    "bucket_sum db' = bucket_sum db" "account_ids db' = account_ids db"
    by (simp_all add: db' balance_of_def state_of_def find_balance_def account_by_id_def
        bucket_sum_def account_ids_def fun_eq_iff)
  have ledger: "ledger_sum db' = (ledger_sum db)(en_account e := ledger_sum db (en_account e) + en_amount e)"
    by (simp add: db' ledger_sum_def fun_eq_iff)
  have "rows_ok en_id (Suc (pd_next_id db)) (pd_entries db @ [e])"
    using wf assms(3) by (intro rows_ok_snoc) (simp_all add: points_wf_def)
  moreover have "rows_ok ac_id (Suc (pd_next_id db)) (pd_accounts db)"
    and "rows_ok bk_id (Suc (pd_next_id db)) (pd_buckets db)"
    using wf by (auto simp: points_wf_def intro: rows_ok_mono)
  moreover have "entries_ok (account_ids db) (pd_entries db @ [e])"
    using wf acc by (auto simp: points_wf_def entries_ok_def)
  moreover have "allocs_ok (Suc (pd_next_id db)) (pd_allocations db) (pd_entries db @ [e])
      (pd_buckets db)"
    using wf assms(3) by (fastforce simp: points_wf_def allocs_ok_def)
  ultimately show "points_wf db'"
    using wf by (simp add: points_wf_def db' account_ids_def)
  show "ledger_sum db' = (ledger_sum db)(en_account e := ledger_sum db (en_account e) + en_amount e)"
    by (rule ledger)
  show "\<And>k. en_idempotency_key e = Some k \<Longrightarrow> find_idempotent db (en_program e) k = None"
    using fresh by simp
  show "pd_entries db' = pd_entries db @ [e]"
    and "pd_accounts db' = pd_accounts db" and "pd_balances db' = pd_balances db"
    and "balance_of db' = balance_of db" and "state_of db' = state_of db"
    and "bucket_sum db' = bucket_sum db" and "pd_buckets db' = pd_buckets db"
    and "account_ids db' = account_ids db" and "pd_next_id db' = Suc (pd_next_id db)"
    and "pd_allocations db' = pd_allocations db" and "pd_programs db' = pd_programs db"
    using obs by (simp_all add: db')
qed

lemma add_allocations_obs:
  shows "balance_of (add_allocations eid allocs db) = balance_of db"
    and "state_of (add_allocations eid allocs db) = state_of db"
    and "bucket_sum (add_allocations eid allocs db) = bucket_sum db"
    and "ledger_sum (add_allocations eid allocs db) = ledger_sum db"
    and "account_ids (add_allocations eid allocs db) = account_ids db"
    and "pd_entries (add_allocations eid allocs db) = pd_entries db"
    and "pd_buckets (add_allocations eid allocs db) = pd_buckets db"
    and "pd_programs (add_allocations eid allocs db) = pd_programs db"
  by (simp_all add: add_allocations_def balance_of_def state_of_def find_balance_def
      account_by_id_def bucket_sum_def ledger_sum_def account_ids_def fun_eq_iff)

text \<open>The entry and its allocations: the ledger catches up with the balance.\<close>

lemma record_entry_wf:
  assumes wf: "points_wf db" and acc: "en_account e \<in> account_ids db" and id: "en_id e = pd_next_id db" and ok: "insert_entry dup e db = Inr db1"
    and drawn: "drawn (en_account e) allocs db"
  shows "points_wf (add_allocations (en_id e) allocs db1)"
proof -
  note i = insert_entry_Inr[OF wf acc id ok]
  let ?new = "map (\<lambda>(b, amt). \<lparr>al_entry = en_id e, al_bucket = bk_id b, al_amount = amt\<rparr>) allocs"
  have wf1: "points_wf db1" by (rule i(1))
  have old: "\<forall>al\<in>set (pd_allocations db). al_entry al < en_id e"
    using wf id by (simp add: points_wf_def allocs_ok_def)
  have ids: "\<forall>x\<in>set (pd_entries db). en_id x < en_id e"
    using wf id by (simp add: points_wf_def rows_ok_def)
  have "map al_bucket ?new = map (bk_id \<circ> fst) allocs" by (simp add: comp_def case_prod_beta')
  then have "distinct (map al_bucket ?new)" using drawn by (simp only: drawn_def)
  then have "distinct (map (\<lambda>al. (al_entry al, al_bucket al)) ?new)"
    by (auto simp: distinct_map inj_on_def)
  then have "distinct (map (\<lambda>al. (al_entry al, al_bucket al)) (pd_allocations db1 @ ?new))"
    using wf1 old by (fastforce simp: points_wf_def allocs_ok_def i(12))
  moreover have "\<forall>al\<in>set ?new. 0 < al_amount al \<and> al_entry al < pd_next_id db1
      \<and> al_bucket al < pd_next_id db1"
    using drawn id by (fastforce simp: drawn_def i(11))
  moreover have "\<forall>al\<in>set ?new. \<forall>x\<in>set (pd_entries db1). \<forall>b\<in>set (pd_buckets db1).
      en_id x = al_entry al \<longrightarrow> bk_id b = al_bucket al \<longrightarrow> bk_account b = en_account x"
    using drawn ids by (fastforce simp: drawn_def i(5,9))
  ultimately have "allocs_ok (pd_next_id db1) (pd_allocations db1 @ ?new) (pd_entries db1)
      (pd_buckets db1)"
    using wf1 unfolding points_wf_def allocs_ok_def by auto
  then show ?thesis
    using wf1 by (simp add: points_wf_def add_allocations_def account_ids_def)
qed

lemma record_entry:
  assumes pending: "points_pending (en_account e) (en_amount e) db"
    and id: "en_id e = pd_next_id db" and ok: "insert_entry dup e db = Inr db1"
    and drawn: "drawn (en_account e) allocs db"
  shows "points_inv (add_allocations (en_id e) allocs db1)"
proof -
  have wf: "points_wf db" and acc: "en_account e \<in> account_ids db"
    using pending by (simp_all add: points_pending_def)
  note i = insert_entry_Inr[OF wf acc id ok]
  note w = record_entry_wf[OF wf acc id ok drawn]
  show ?thesis
    using pending w unfolding points_inv_def points_pending_def add_allocations_obs i(2) i(6-8)
    by blast
qed

lemma entry_allocations_snapshots:
  assumes inv: "points_inv db" and e: "e \<in> set (pd_entries db)"
  shows "snapshots (en_account e) db (map fst (entry_allocations db (en_id e)))"
    and "\<forall>t\<in>set (entry_allocations db (en_id e)). 0 < snd t"
proof -
  have wf: "allocs_ok (pd_next_id db) (pd_allocations db) (pd_entries db) (pd_buckets db)"
    using inv by (simp add: points_inv_def points_wf_def)
  let ?ea = "\<lambda>als. List.map_filter
     (\<lambda>al. map_option (\<lambda>b. (b, al_amount al)) (bucket_by_id db (al_bucket al)))
     (filter (\<lambda>al. al_entry al = en_id e) als)"
  have mem: "(b, amt) \<in> set (?ea als) \<longleftrightarrow> (\<exists>al\<in>set als. al_entry al = en_id e
      \<and> amt = al_amount al \<and> bucket_by_id db (al_bucket al) = Some b)" for b amt als
    by (auto simp: map_filter_def split: option.splits) force
  have found: "b \<in> set (pd_buckets db) \<and> bk_id b = i" if "bucket_by_id db i = Some b" for b i
    using that by (auto simp: bucket_by_id_def dest: find_Some_mem)
  have "distinct (map bk_id (map fst (?ea als)))"
    if "distinct (map (\<lambda>al. (al_entry al, al_bucket al)) als)" for als
    using that
  proof (induction als)
    case (Cons al als)
    then show ?case
      using mem[of _ _ als] found
      by (auto simp: map_filter_simps image_iff split: option.splits) (metis found)
  qed (simp add: map_filter_simps)
  from this[of "pd_allocations db"]
  have "distinct (map bk_id (map fst (entry_allocations db (en_id e))))"
    using wf by (simp add: allocs_ok_def entry_allocations_def)
  moreover have "b \<in> set (pd_buckets db) \<and> bk_account b = en_account e \<and> 0 < amt"
    if drawn: "(b, amt) \<in> set (entry_allocations db (en_id e))" for b amt
  proof -
    obtain al where al: "al \<in> set (pd_allocations db)" "al_entry al = en_id e" "amt = al_amount al"
      and b: "bucket_by_id db (al_bucket al) = Some b"
      using drawn mem[of b amt "pd_allocations db"] unfolding entry_allocations_def by blast
    from found[OF b] al wf e show ?thesis by (simp add: allocs_ok_def)
  qed
  ultimately show "snapshots (en_account e) db (map fst (entry_allocations db (en_id e)))"
    and "\<forall>t\<in>set (entry_allocations db (en_id e)). 0 < snd t"
    by (auto simp: snapshots_def)
qed

section \<open>Opening an account\<close>

lemma find_account_mem:
  assumes "find_account db prog st sid = Some acc"
  shows "acc \<in> set (pd_accounts db)" and "ac_id acc \<in> account_ids db" and "ac_program acc = prog"
    and "ac_subject_type acc = st" and "ac_subject_id acc = sid"
  using assms by (auto simp: find_account_def account_ids_def dest: find_Some_mem)

lemma open_rows_inv:
  assumes inv: "points_inv db" and id: "ac_id acc = pd_next_id db" and st: "ac_state acc = AC_active"
    and ins: "insert_account acc db = Inr db1"
  defines "db2 \<equiv> insert_balance (ac_id acc) db1"
  shows "points_inv db2" and "balance_of db2 = balance_of db" and "bucket_sum db2 = bucket_sum db"
    and "state_of db2 = (state_of db)(ac_id acc \<mapsto> AC_active)"
    and "pd_entries db2 = pd_entries db" and "pd_allocations db2 = pd_allocations db"
    and "account_ids db2 = insert (ac_id acc) (account_ids db)" and "pd_programs db2 = pd_programs db"
proof -
  have db1: "db1 = db\<lparr>pd_accounts := pd_accounts db @ [acc], pd_next_id := Suc (pd_next_id db)\<rparr>"
    using ins by (auto simp: insert_account_def cmd_ok)
  have wf: "points_wf db" using inv by (simp add: points_inv_def)
  have fresh: "\<forall>a\<in>set (pd_accounts db). ac_id a < ac_id acc"
    using wf id by (simp add: points_wf_def rows_ok_def)
  then have new: "ac_id acc \<notin> account_ids db" by (auto simp: account_ids_def)
  then have newb: "\<forall>b\<in>set (pd_balances db). bl_account b \<noteq> ac_id acc"
    using points_wf_parts(5)[OF wf] by (metis image_eqI)
  have rows: "pd_balances db2 = pd_balances db @ [\<lparr>bl_account = ac_id acc, bl_balance = 0, bl_version = 1\<rparr>]"
    "pd_accounts db2 = pd_accounts db @ [acc]"
    by (simp_all add: db2_def db1 insert_balance_def)
  show bal: "balance_of db2 = balance_of db"
    unfolding balance_of_def find_balance_def rows
    by (rule ext) (simp add: find_append split: option.split)
  show bsum: "bucket_sum db2 = bucket_sum db" and ent: "pd_entries db2 = pd_entries db"
    and "pd_allocations db2 = pd_allocations db" and "pd_programs db2 = pd_programs db"
    by (simp_all add: db2_def db1 insert_balance_def bucket_sum_def fun_eq_iff)
  have lsum: "ledger_sum db2 = ledger_sum db" by (simp add: ledger_sum_def ent fun_eq_iff)
  show st2: "state_of db2 = (state_of db)(ac_id acc \<mapsto> AC_active)"
    using fresh st unfolding state_of_def account_by_id_def rows
    by (intro ext) (auto simp: find_append split: option.split dest!: find_Some_mem)
  show ids: "account_ids db2 = insert (ac_id acc) (account_ids db)"
    by (auto simp: account_ids_def rows)
  have zero: "balance_of db (ac_id acc) = 0"
    using newb by (auto simp: balance_of_def find_balance_def split: option.splits dest: find_Some_mem)
  have "rows_ok ac_id (Suc (pd_next_id db)) (pd_accounts db @ [acc])"
    using wf id by (intro rows_ok_snoc) (simp_all add: points_wf_def)
  moreover have "rows_ok bk_id (Suc (pd_next_id db)) (pd_buckets db)"
    and "rows_ok en_id (Suc (pd_next_id db)) (pd_entries db)"
    and "allocs_ok (Suc (pd_next_id db)) (pd_allocations db) (pd_entries db) (pd_buckets db)"
    using wf by (auto simp: points_wf_def intro: rows_ok_mono allocs_ok_mono)
  moreover have "buckets_ok (account_ids db2) (pd_buckets db)"
    and "entries_ok (account_ids db2) (pd_entries db)"
    using wf unfolding ids by (auto simp: points_wf_def buckets_ok_def entries_ok_def)
  moreover have "distinct (map bl_account (pd_balances db2))"
    and "bl_account ` set (pd_balances db2) = account_ids db2"
    using wf newb new unfolding ids
    by (auto simp: points_wf_def db2_def db1 insert_balance_def)
  ultimately have "points_wf db2"
    by (simp add: points_wf_def db2_def db1 insert_balance_def)
  then show "points_inv db2"
    using inv zero unfolding points_inv_def bal bsum lsum st2 by (auto simp: state_fits_def)
qed

lemma account_by_id_mem:
  assumes "points_wf db" and "acc \<in> set (pd_accounts db)"
  shows "account_by_id db (ac_id acc) = Some acc"
  unfolding account_by_id_def by (rule find_key_unique[OF points_wf_parts(1)[OF assms(1)] assms(2)])

text \<open>What the commands know after opening or finding the account.\<close>

definition opened :: "points_account \<Rightarrow> points_db \<Rightarrow> points_db \<Rightarrow> bool" where
  "opened acc db db' \<longleftrightarrow> points_inv db' \<and> acc \<in> set (pd_accounts db')
     \<and> balance_of db' = balance_of db \<and> bucket_sum db' = bucket_sum db
     \<and> pd_entries db' = pd_entries db \<and> pd_allocations db' = pd_allocations db
     \<and> pd_programs db' = pd_programs db \<and> account_ids db \<subseteq> account_ids db'
     \<and> (\<forall>a\<in>account_ids db. state_of db' a = state_of db a)"

lemma bucket_target_opened:
  assumes "points_inv db" and "acc \<in> set (pd_accounts db)"
    and "bucket_target now (ac_id acc) bt ident expires db = Inr (b, db')"
  shows "opened acc db db'" and "b \<in> set (pd_buckets db')" and "bk_account b = ac_id acc"
proof -
  have wf: "points_wf db" and ids: "ac_id acc \<in> account_ids db"
    using assms(1,2) by (simp_all add: points_inv_def account_ids_def)
  note t = bucket_target_Inr[OF wf ids assms(3)]
  note o = only_buckets_obs[OF t(2)]
  show "b \<in> set (pd_buckets db')" and "bk_account b = ac_id acc" by fact+
  have "points_inv db'"
    using assms(1) t(1) unfolding points_inv_def o t(3) by blast
  with assms(2) t o show "opened acc db db'"
    by (simp add: opened_def only_buckets_def)
qed

lemma opened_trans:
  assumes "opened acc db db1" and "opened acc db1 db2"
  shows "opened acc db db2"
  using assms unfolding opened_def by (elim conjE, intro conjI) (auto dest: subsetD)

lemma opened_same_tables:
  assumes "opened acc db db1" and "same_tables db1 db2"
  shows "opened acc db db2"
  using assms same_tables_obs[OF assms(2)] same_tables_inv[OF assms(2)]
  unfolding opened_def same_tables_def by simp

lemma ensure_account_Inr:
  assumes inv: "points_inv db" and ok: "ensure_account ctx prog st sid db = Inr (acc, db')"
  shows "opened acc db db'" and "ac_subject_type acc = st" and "ac_subject_id acc = sid"
    and "ac_program acc = pr_id prog"
proof -
  have "opened acc db db' \<and> ac_subject_type acc = st \<and> ac_subject_id acc = sid
    \<and> ac_program acc = pr_id prog"
  proof (cases "find_account db (pr_id prog) st sid")
    case (Some a)
    then obtain b where "acc = a"
      and t: "bucket_target (px_now ctx) (ac_id a) ''perpetual'' None None db = Inr (b, db')"
      using ok by (auto simp: ensure_account_def cmd_ok)
    with find_account_mem[OF Some] bucket_target_opened(1)[OF inv _ t] show ?thesis by simp
  next
    case None
    obtain db1 db2 b where acc: "acc = new_account db (pr_id prog) st sid"
      and ins: "insert_account acc db = Inr db1"
      and t: "bucket_target (px_now ctx) (ac_id acc) ''perpetual'' None None
          (insert_balance (ac_id acc) db1) = Inr (b, db2)"
      and emit: "points_emit ctx ''points.account_opened.v1'' acc prog [] db2 = Inr db'"
      using ok None by (auto simp: ensure_account_def Let_def cmd_ok)
    have id: "ac_id acc = pd_next_id db" and active: "ac_state acc = AC_active"
      and mem: "acc \<in> set (pd_accounts (insert_balance (ac_id acc) db1))"
      using ins by (auto simp: acc new_account_def insert_account_def insert_balance_def cmd_ok)
    note o = open_rows_inv[OF inv id active ins]
    have "pd_next_id db \<notin> account_ids db"
      using inv by (auto simp: points_inv_def points_wf_def rows_ok_def account_ids_def)
    then have "opened acc db (insert_balance (ac_id acc) db1)"
      using o mem id unfolding opened_def by auto
    from opened_same_tables[OF opened_trans[OF this bucket_target_opened(1)[OF o(1) mem t]]
        points_emit_same[OF emit]]
    show ?thesis by (simp add: acc new_account_def)
  qed
  then show "opened acc db db'" and "ac_subject_type acc = st" and "ac_subject_id acc = sid"
    and "ac_program acc = pr_id prog" by simp_all
qed

lemma opened_state:
  assumes "opened acc db db'"
  shows "state_of db' (ac_id acc) = Some (ac_state acc)" and "ac_id acc \<in> account_ids db'"
    and "points_wf db'" and "points_inv db'"
  using assms account_by_id_mem[of db' acc]
  by (auto simp: opened_def points_inv_def state_of_def account_ids_def)

end
