(* ===== verification/Points_Correct.thy ===== *)
theory Points_Correct
  imports Points_Invariant
begin

text \<open>
  Correctness of the points commands: what each command posts to the ledger, the invariant on
  every reachable database, idempotent replay, the overdraft guard, reversal and the
  expiration sweep.
\<close>

section \<open>Posting one entry\<close>

text \<open>The whole effect of a command that adds one entry to the ledger.\<close>

definition posted :: "ledger_entry \<Rightarrow> points_db \<Rightarrow> points_db \<Rightarrow> bool" where
  "posted e db db' \<longleftrightarrow> points_inv db' \<and> pd_entries db' = pd_entries db @ [e]
     \<and> balance_of db' = (balance_of db)(en_account e := balance_of db (en_account e) + en_amount e)
     \<and> pd_programs db' = pd_programs db \<and> account_ids db \<subseteq> account_ids db'
     \<and> en_account e \<in> account_ids db'
     \<and> (\<forall>k. en_idempotency_key e = Some k \<longrightarrow> find_idempotent db (en_program e) k = None)
     \<and> (\<forall>a\<in>account_ids db. state_of db' a = (if a = en_account e
          then map_option (next_state (balance_of db' a)) (state_of db a) else state_of db a))"

lemma posted_intro:
  assumes inv: "points_inv db" and moved: "moved (en_account e) v db db1"
    and amount: "en_amount e = v - balance_of db (en_account e)" and id: "en_id e = pd_next_id db1"
    and ins: "insert_entry dup e db1 = Inr db2" and drawn: "drawn (en_account e) allocs db1"
    and tail: "same_tables (add_allocations (en_id e) allocs db2) db3"
  shows "posted e db db3"
proof -
  have pending: "points_pending (en_account e) (en_amount e) db1"
    using moved_pending[OF moved inv] amount by simp
  have wf: "points_wf db1" and acc: "en_account e \<in> account_ids db1"
    using pending by (simp_all add: points_pending_def)
  note i = insert_entry_Inr[OF wf acc id ins]
  note r = same_tables_inv[OF tail record_entry[OF pending id ins drawn]]
  note t = same_tables_obs[OF tail, unfolded add_allocations_obs]
  have idem: "find_idempotent db1 prog k = find_idempotent db prog k" for prog k
    using moved by (simp add: find_idempotent_def moved_def)
  have "en_account e \<in> account_ids db" using moved by (auto simp: moved_def)
  then show ?thesis
    using moved r i t tail amount idem
    unfolding posted_def moved_def same_tables_def add_allocations_obs by simp
qed

lemma posted_opened:
  assumes "opened acc db db1" and "posted e db1 db2"
  shows "posted e db db2"
  using assms unfolding posted_def opened_def find_idempotent_def by auto

text \<open>A sequence of entries posted one after the other.\<close>

fun posted_list :: "ledger_entry list \<Rightarrow> points_db \<Rightarrow> points_db \<Rightarrow> bool" where
  "posted_list [] db db' \<longleftrightarrow> db' = db"
| "posted_list (e # es) db db' \<longleftrightarrow> (\<exists>db1. posted e db db1 \<and> posted_list es db1 db')"

lemma posted_list_inv: "posted_list es db db' \<Longrightarrow> points_inv db \<Longrightarrow> points_inv db'"
  by (induction es arbitrary: db) (auto simp: posted_def)

lemma posted_list_entries: "posted_list es db db' \<Longrightarrow> pd_entries db' = pd_entries db @ es"
  by (induction es arbitrary: db) (auto simp: posted_def)

lemma no_drawn [simp]: "drawn acc [] db"
  by (simp add: drawn_def)

lemma add_no_allocations [simp]: "add_allocations eid [] db = db"
  by (simp add: add_allocations_def)

section \<open>Credits and debits\<close>

text \<open>A successful credit either replays the entry of its idempotency key or posts a new one.\<close>

lemma credit_effect:
  assumes inv: "points_inv db" and valid: "0 < ci_amount i"
    and ok: "credit_in_uow ctx key i db = Inr (dto, db')"
  obtains (replay) spec prog e where "require_behavior ctx key = Inr spec"
      and "find_program db (bs_program_key spec) = Some prog"
      and "find_idempotent db (pr_id prog) (ci_idempotency_key i) = Some e"
      and "en_type e = EN_credit" and "dto = to_entry e (pr_key prog)" and "db' = db"
  | (fresh) spec prog acc db1 e where "require_behavior ctx key = Inr spec"
      and "find_program db (bs_program_key spec) = Some prog"
      and "find_idempotent db (pr_id prog) (ci_idempotency_key i) = None"
      and "posted e db db'" and "dto = to_entry e (pr_key prog)"
      and "en_type e = EN_credit" and "en_amount e = ci_amount i" and "en_program e = pr_id prog"
      and "en_idempotency_key e = Some (ci_idempotency_key i)" and "en_reversal_of e = None"
      and "ac_id acc = en_account e" and "ac_subject_type acc = ci_subject_type i"
      and "ac_subject_id acc = ci_subject_id i" and "ac_program acc = pr_id prog"
      and "ac_state acc \<noteq> AC_frozen" and "opened acc db db1" and "state_of db1 (en_account e) = Some (ac_state acc)"
proof -
  obtain spec prog where spec: "require_behavior ctx key = Inr spec"
    and prog: "require_program db (bs_program_key spec) = Inr prog"
    and dir: "bs_direction spec = Dir_credit"
    and src: "List.member (bs_allowed_source_types spec) (ci_source_type i)"
    using ok by (auto simp: credit_in_uow_def cmd_ok)
  have found: "find_program db (bs_program_key spec) = Some prog"
    using prog by (auto simp: require_program_def split: option.splits if_splits)
  show thesis
  proof (cases "find_idempotent db (pr_id prog) (ci_idempotency_key i)")
    case (Some e)
    then show thesis
      using replay[OF spec found Some] ok spec prog dir src
      by (auto simp: credit_in_uow_def replay_entry_def cmd_ok)
  next
    case None
    obtain acc db1 where ens: "ensure_account ctx prog (ci_subject_type i) (ci_subject_id i) db
        = Inr (acc, db1)" and active: "ac_state acc \<noteq> AC_frozen"
      using ok spec prog dir src None by (auto simp: credit_in_uow_def cmd_ok)
    note en = ensure_account_Inr[OF inv ens]
    obtain bt ident expires bucket db2 v db3 db4 e db5 where
      routing: "credit_routing spec (px_now ctx) (ci_expires_at i) = (bt, ident, expires)"
      and target: "bucket_target (px_now ctx) (ac_id acc) bt ident expires db1 = Inr (bucket, db2)"
      and bal: "apply_balance (ac_id acc) (ci_amount i) True db2 = Inr (v, db3)"
      and add: "(if 0 < bucket_delta v (ci_amount i)
          then add_to_bucket bucket (bucket_delta v (ci_amount i)) db3 else Inr db3) = Inr db4"
      and e: "e = credit_entry ctx spec prog acc i bt ident expires db4"
      and ins: "insert_entry ''points.duplicate_credit'' e db4 = Inr db5"
      and emit: "points_emit ctx ''points.credited.v1'' acc prog
          (amount_values e v @ source_values spec i) db5 = Inr db'"
      and dto: "dto = to_entry e (pr_key prog)"
      using ok spec prog dir src None ens active
      by (auto simp: credit_in_uow_def cmd_ok Let_def split: prod.splits)
    note op = opened_state[OF en(1)]
    have mem: "acc \<in> set (pd_accounts db1)" using en(1) by (simp add: opened_def)
    note t = bucket_target_opened[OF op(4) mem target]
    note m = credit_moved[OF opened_state(4)[OF t(1)] valid t(2,3) bal add]
    have v: "v = balance_of db2 (ac_id acc) + ci_amount i"
      using apply_balance_Inr(6)[OF opened_state(3)[OF t(1)] bal] .
    have eid: "en_account e = ac_id acc" "en_id e = pd_next_id db4" "en_amount e = ci_amount i"
      by (simp_all add: e credit_entry_def)
    have "posted e db2 db'"
      by (rule posted_intro[OF opened_state(4)[OF t(1)], where v = v and allocs = "[]"])
        (use m v eid ins points_emit_same[OF emit] in simp_all)
    then have "posted e db db'"
      using posted_opened[OF opened_trans[OF en(1) t(1)]] by simp
    moreover have "en_type e = EN_credit" "en_program e = pr_id prog" "en_reversal_of e = None"
      "en_idempotency_key e = Some (ci_idempotency_key i)"
      by (simp_all add: e credit_entry_def)
    ultimately show thesis
      using eid(1,3) en active op(1) by (intro fresh[OF spec found None _ dto]) simp_all
  qed
qed

lemma debit_effect:
  assumes inv: "points_inv db" and valid: "0 < ci_amount i"
    and ok: "debit_points ctx key i db = Inr (dto, db')"
  obtains (replay) spec prog e where "require_behavior ctx key = Inr spec"
      and "find_program db (bs_program_key spec) = Some prog"
      and "find_idempotent db (pr_id prog) (ci_idempotency_key i) = Some e"
      and "en_type e = EN_debit" and "dto = to_entry e (pr_key prog)" and "db' = db"
  | (fresh) spec prog acc db1 e where "require_behavior ctx key = Inr spec"
      and "find_program db (bs_program_key spec) = Some prog"
      and "find_idempotent db (pr_id prog) (ci_idempotency_key i) = None"
      and "posted e db db'" and "dto = to_entry e (pr_key prog)"
      and "en_type e = EN_debit" and "en_amount e = - ci_amount i" and "en_program e = pr_id prog"
      and "en_idempotency_key e = Some (ci_idempotency_key i)" and "en_reversal_of e = None"
      and "ac_id acc = en_account e" and "ac_subject_type acc = ci_subject_type i"
      and "ac_subject_id acc = ci_subject_id i" and "ac_program acc = pr_id prog"
      and "ac_state acc = AC_active" and "opened acc db db1"
      and "state_of db1 (en_account e) = Some AC_active"
      and "ci_amount i \<le> balance_of db (en_account e)"
proof -
  obtain spec prog where spec: "require_behavior ctx key = Inr spec"
    and prog: "require_program db (bs_program_key spec) = Inr prog"
    and dir: "bs_direction spec = Dir_debit"
    using ok by (auto simp: debit_points_def cmd_ok)
  have found: "find_program db (bs_program_key spec) = Some prog"
    using prog by (auto simp: require_program_def split: option.splits if_splits)
  show thesis
  proof (cases "find_idempotent db (pr_id prog) (ci_idempotency_key i)")
    case (Some e)
    then show thesis
      using replay[OF spec found Some] ok spec prog dir
      by (auto simp: debit_points_def replay_entry_def cmd_ok)
  next
    case None
    obtain acc db1 where ens: "ensure_account ctx prog (ci_subject_type i) (ci_subject_id i) db
        = Inr (acc, db1)" and st: "ac_state acc \<noteq> AC_frozen \<and> ac_state acc \<noteq> AC_debt"
      using ok spec prog dir None by (auto simp: debit_points_def cmd_ok)
    have active: "ac_state acc = AC_active" using st by (cases "ac_state acc") simp_all
    note en = ensure_account_Inr[OF inv ens]
    note op = opened_state[OF en(1)]
    obtain v allocs db2 e db3 where
      consume: "consume_buckets (ac_id acc) (ci_amount i) False db1 = Inr (v, allocs, db2)"
      and e: "e = debit_entry ctx spec prog acc i db2"
      and ins: "insert_entry ''points.duplicate_debit'' e db2 = Inr db3"
      and emit: "points_emit ctx ''points.debited.v1'' acc prog
          (amount_values e v @ source_values spec i) (add_allocations (en_id e) allocs db3) = Inr db'"
      and dto: "dto = to_entry e (pr_key prog)"
      using ok spec prog dir None ens active
      by (auto simp: debit_points_def cmd_ok Let_def)
    note c = consume_buckets_Inr[OF op(4) less_imp_le[OF valid] consume]
    have eid: "en_account e = ac_id acc" "en_id e = pd_next_id db2" "en_amount e = - ci_amount i"
      by (simp_all add: e debit_entry_def)
    have "posted e db1 db'"
      by (rule posted_intro[OF op(4), where v = v and allocs = allocs])
        (use c eid ins points_emit_same[OF emit] in simp_all)
    then have "posted e db db'" using posted_opened[OF en(1)] by simp
    moreover have "ci_amount i \<le> balance_of db (en_account e)"
      using c(5) valid en(1) eid(1) by (auto simp: opened_def)
    moreover have "en_type e = EN_debit" "en_program e = pr_id prog" "en_reversal_of e = None"
      "en_idempotency_key e = Some (ci_idempotency_key i)"
      by (simp_all add: e debit_entry_def)
    ultimately show thesis
      using eid(1,3) en active op(1) by (intro fresh[OF spec found None _ dto]) simp_all
  qed
qed

section \<open>Reversals and adjustments\<close>

lemma undo_entry_Inr:
  assumes inv: "points_inv db" and e: "e \<in> set (pd_entries db)"
    and ok: "undo_entry ctx e db = Inr (v, allocs, db')"
  shows "moved (en_account e) v db db'" and "v = balance_of db (en_account e) - en_amount e"
    and "drawn (en_account e) allocs db'"
proof -
  have "moved (en_account e) v db db' \<and> v = balance_of db (en_account e) - en_amount e
    \<and> drawn (en_account e) allocs db'"
  proof (cases "0 < en_amount e")
    case True
    then have "consume_buckets (en_account e) (en_amount e) True db = Inr (v, allocs, db')"
      using ok by (simp add: undo_entry_def)
    from consume_buckets_Inr[OF inv _ this] True show ?thesis by simp
  next
    case False
    then have restore: "restore_buckets (px_now ctx) (en_account e) (- en_amount e)
        (entry_allocations db (en_id e)) db = Inr (v, db')" and "allocs = []"
      using ok by (auto simp: undo_entry_def cmd_ok)
    from restore_buckets_Inr[OF inv _ entry_allocations_snapshots[OF inv e] restore] False this(2)
    show ?thesis by simp
  qed
  then show "moved (en_account e) v db db'" and "v = balance_of db (en_account e) - en_amount e"
    and "drawn (en_account e) allocs db'" by blast+
qed

lemma reverse_effect:
  assumes inv: "points_inv db"
    and ok: "reverse_ledger_entry ctx entry_id i db = Inr (dto, db')"
  obtains (replay) e prog r where "entry_by_id db entry_id = Some e"
      and "program_by_id db (en_program e) = Some prog"
      and "find_idempotent db (en_program e) (ri_idempotency_key i) = Some r"
      and "en_type r = EN_reversal" and "dto = to_entry r (pr_key prog)" and "db' = db"
  | (fresh) e prog r where "entry_by_id db entry_id = Some e"
      and "program_by_id db (en_program e) = Some prog"
      and "find_idempotent db (en_program e) (ri_idempotency_key i) = None"
      and "\<forall>x\<in>set (pd_entries db). en_reversal_of x \<noteq> Some (en_id e)"
      and "posted r db db'" and "dto = to_entry r (pr_key prog)"
      and "en_type e \<noteq> EN_reversal" and "en_type r = EN_reversal" and "en_amount r = - en_amount e"
      and "en_account r = en_account e" and "en_program r = en_program e"
      and "en_idempotency_key r = Some (ri_idempotency_key i)" and "en_reversal_of r = Some (en_id e)"
proof -
  obtain e prog where e: "entry_by_id db entry_id = Some e"
    and prog: "program_by_id db (en_program e) = Some prog" and allow: "pr_allow_reversal prog"
    and type: "en_type e \<noteq> EN_reversal"
    using ok by (auto simp: reverse_ledger_entry_def cmd_ok split: option.splits if_splits)
  have mem: "e \<in> set (pd_entries db)" "en_id e = entry_id"
    using e by (auto simp: entry_by_id_def dest: find_Some_mem)
  show thesis
  proof (cases "find_idempotent db (en_program e) (ri_idempotency_key i)")
    case (Some r)
    then show thesis
      using replay[OF e prog Some] ok e prog allow type
      by (auto simp: reverse_ledger_entry_def replay_entry_def cmd_ok)
  next
    case None
    obtain acc v allocs db1 r db2 where
      once: "filter (\<lambda>x. en_reversal_of x = Some (en_id e)) (pd_entries db) = []"
      and undo: "undo_entry ctx e db = Inr (v, allocs, db1)" and r: "r = reversal_entry ctx e i db1"
      and ins: "insert_entry ''points.duplicate_reversal'' r db1 = Inr db2"
      and emit: "points_emit ctx ''points.entry_reversed.v1'' acc prog
            [(''entry_id'', id_json (en_id e)), (''reversal_id'', id_json (en_id r)),
             (''amount'', JInt (- en_amount e)), (''balance'', JInt v)]
            (add_allocations (en_id r) allocs db2) = Inr db'"
      and dto: "dto = to_entry r (pr_key prog)"
      using ok e prog allow type None
      by (auto simp: reverse_ledger_entry_def cmd_ok Let_def)
    note u = undo_entry_Inr[OF inv mem(1) undo]
    have rid: "en_account r = en_account e" "en_id r = pd_next_id db1" "en_amount r = - en_amount e"
      by (simp_all add: r reversal_entry_def)
    have "posted r db db'"
      by (rule posted_intro[OF inv, where v = v and allocs = allocs])
        (use u rid ins points_emit_same[OF emit] in simp_all)
    moreover have "en_type r = EN_reversal" "en_program r = en_program e"
      "en_reversal_of r = Some (en_id e)" "en_idempotency_key r = Some (ri_idempotency_key i)"
      by (simp_all add: r reversal_entry_def)
    moreover have "\<forall>x\<in>set (pd_entries db). en_reversal_of x \<noteq> Some (en_id e)"
      using once by (simp add: filter_empty_conv)
    ultimately show thesis
      using rid type by (intro fresh[OF e prog None _ _ dto]) simp_all
  qed
qed

lemma adjust_balance_Inr:
  assumes inv: "points_inv db" and nz: "amount \<noteq> 0"
    and ok: "adjust_balance ctx acc amount db = Inr (v, allocs, db')"
  shows "moved acc v db db'" and "v = balance_of db acc + amount" and "drawn acc allocs db'"
proof -
  have "moved acc v db db' \<and> v = balance_of db acc + amount \<and> drawn acc allocs db'"
  proof (cases "0 < amount")
    case True
    from adjust_up_moved[OF inv this ok] show ?thesis by simp
  next
    case False
    then have "consume_buckets acc (- amount) True db = Inr (v, allocs, db')"
      using ok by (simp add: adjust_balance_def)
    from consume_buckets_Inr[OF inv _ this] False show ?thesis by simp
  qed
  then show "moved acc v db db'" and "v = balance_of db acc + amount" and "drawn acc allocs db'"
    by blast+
qed

lemma adjust_effect:
  assumes inv: "points_inv db" and ok: "adjust_points ctx i db = Inr (dto, db')"
  obtains (replay) prog :: points_program and e where "find_idempotent db (pr_id prog) (ai_idempotency_key i) = Some e"
      and "en_type e = EN_adjustment" and "dto = to_entry e (pr_key prog)" and "db' = db"
  | (fresh) prog :: points_program and e where "posted e db db'" and "dto = to_entry e (pr_key prog)"
      and "find_idempotent db (pr_id prog) (ai_idempotency_key i) = None"
      and "en_type e = EN_adjustment" and "en_amount e = ai_amount i" and "en_program e = pr_id prog"
      and "en_idempotency_key e = Some (ai_idempotency_key i)" and "en_reversal_of e = None"
      and "List.member (px_permissions ctx) ''points.adjust''"
proof -
  obtain prog acc db1 where perm: "points_require_permission ctx ''points.adjust'' = Inr ()"
    and nz: "ai_amount i \<noteq> 0"
    and prog: "require_program db (case ai_program_key i of None \<Rightarrow> ''credit''
              | Some k \<Rightarrow> if k = [] then ''credit'' else k) = Inr prog"
    and ens: "ensure_account ctx prog (ai_subject_type i) (ai_subject_id i) db = Inr (acc, db1)"
    using ok by (auto simp: adjust_points_def cmd_ok)
  note en = ensure_account_Inr[OF inv ens]
  note op = opened_state[OF en(1)]
  have idem: "find_idempotent db1 prog k = find_idempotent db prog k" for prog k
    using en(1) by (simp add: opened_def find_idempotent_def)
  have member: "List.member (px_permissions ctx) ''points.adjust''"
    using perm by (simp add: points_require_permission_def cmd_ok)
  show thesis
  proof (cases "find_idempotent db1 (pr_id prog) (ai_idempotency_key i)")
    case (Some e)
    then show thesis
      using replay[of prog e] ok perm nz prog ens idem
      by (auto simp: adjust_points_def replay_entry_def cmd_ok)
  next
    case None
    obtain v allocs db2 e db3 db4 where
      bal: "adjust_balance ctx (ac_id acc) (ai_amount i) db1 = Inr (v, allocs, db2)"
      and e: "e = adjustment_entry ctx prog acc i db2"
      and ins: "insert_entry ''points.duplicate_adjustment'' e db2 = Inr db3"
      and emit: "points_emit ctx
            (if ai_amount i < 0 then ''points.debited.v1'' else ''points.credited.v1'') acc prog
            (amount_values e v) (add_allocations (en_id e) allocs db3) = Inr db4"
      and audit: "points_append_audit ctx ''points.adjusted'' ''points_account''
            (show_nat (ac_id acc))
            [(''program_key'', JStr (pr_key prog)), (''amount'', JInt (ai_amount i)),
             (''reason'', JStr (ai_reason i)), (''entry_id'', id_json (en_id e))] db4 = Inr db'"
      and dto: "dto = to_entry e (pr_key prog)"
      using ok perm nz prog ens None by (auto simp: adjust_points_def cmd_ok Let_def)
    note b = adjust_balance_Inr[OF op(4) nz bal]
    note tail = same_tables_trans[OF points_emit_same[OF emit] points_append_audit_same[OF audit]]
    have eid: "en_account e = ac_id acc" "en_id e = pd_next_id db2" "en_amount e = ai_amount i"
      by (simp_all add: e adjustment_entry_def)
    have "posted e db1 db'"
      by (rule posted_intro[OF op(4), where v = v and allocs = allocs])
        (use b eid ins tail in simp_all)
    then have "posted e db db'" using posted_opened[OF en(1)] by simp
    moreover have "en_type e = EN_adjustment" "en_program e = pr_id prog" "en_reversal_of e = None"
      "en_idempotency_key e = Some (ai_idempotency_key i)"
      by (simp_all add: e adjustment_entry_def)
    ultimately show thesis
      using eid(3) None idem member by (intro fresh[OF _ dto]) simp_all
  qed
qed

section \<open>Expiration\<close>

lemma expire_bucket_Inr:
  assumes inv: "points_inv db" and b: "b \<in> set (pd_buckets db)" and pos: "0 < bk_amount b"
    and ok: "expire_bucket ctx b db = Inr (es, db')"
  obtains (skip) "es = []" and "db' = db"
      and "account_by_id db (bk_account b) = None
        \<or> (\<exists>a. account_by_id db (bk_account b) = Some a \<and> program_by_id db (ac_program a) = None)"
  | (expired) e and prog :: points_program where "posted e db db'" and "es = [to_entry e (pr_key prog)]"
      and "en_account e = bk_account b" and "en_amount e = - bk_amount b"
      and "en_type e = EN_expiration" and "en_idempotency_key e = Some (expiration_key b)"
      and "bk_amount b \<le> balance_of db (bk_account b)"
      and "\<And>x. x \<in> set (pd_buckets db) \<Longrightarrow> bk_id x \<noteq> bk_id b \<Longrightarrow> x \<in> set (pd_buckets db')"
      and "en_reversal_of e = None"
proof (cases "account_by_id db (bk_account b)")
  case None
  then show thesis using skip ok by (simp add: expire_bucket_def)
next
  case (Some acc)
  have wf: "points_wf db" using inv by (simp add: points_inv_def)
  have acc: "ac_id acc = bk_account b" "acc \<in> set (pd_accounts db)"
    using Some by (auto simp: account_by_id_def dest: find_Some_mem)
  show thesis
  proof (cases "program_by_id db (ac_program acc)")
    case None
    then show thesis using skip ok Some by (simp add: expire_bucket_def)
  next
    case prog: (Some prog)
    obtain e db1 balance db3 db4 where e: "e = expiration_entry ctx prog acc b db"
      and ins: "insert_entry ''points.expiration_conflict'' e db = Inr db1"
      and bal: "get_balance (add_allocations (en_id e) [(b, bk_amount b)] db1) (ac_id acc) = Inr balance"
      and wr: "write_balance balance (bl_balance balance - bk_amount b)
          (add_allocations (en_id e) [(b, bk_amount b)] db1) = Inr db3"
      and cas: "cas_bucket b (\<lambda>_. True) (\<lambda>_. 0) db3 = Some db4"
      and emit: "points_emit ctx ''points.bucket_expired.v1'' acc prog
               [(''entry_id'', id_json (en_id e)), (''bucket_id'', id_json (bk_id b)),
                (''expiration_identity'', JStr (case bk_identity b of None \<Rightarrow> [] | Some x \<Rightarrow> x)),
                (''amount'', JInt (- en_amount e)),
                (''balance'', JInt (bl_balance balance - bk_amount b))] db4 = Inr db'"
      and es: "es = [to_entry e (pr_key prog)]"
      using ok Some prog by (auto simp: expire_bucket_def cmd_ok Let_def)
    have eid: "en_account e = bk_account b" "en_id e = pd_next_id db" "en_amount e = - bk_amount b"
      "en_type e = EN_expiration" "en_idempotency_key e = Some (expiration_key b)"
      "en_reversal_of e = None"
      by (simp_all add: e expiration_entry_def acc)
    have ids: "bk_account b \<in> account_ids db" using acc by (metis account_ids_def image_eqI)
    let ?db2 = "add_allocations (en_id e) [(b, bk_amount b)] db1"
    let ?v = "balance_of db (bk_account b) - bk_amount b"
    note i = insert_entry_Inr[OF wf _ eid(2) ins, unfolded eid(1), OF ids]
    have dr: "drawn (en_account e) [(b, bk_amount b)] db"
      using drawn_member[OF wf b pos] eid(1) by simp
    have wf2: "points_wf ?db2"
      using record_entry_wf[OF wf _ eid(2) ins dr] ids eid(1) by simp
    note gb = get_balance_Inr[OF bal]
    have bv: "bl_balance balance - bk_amount b = ?v" and ba: "bl_account balance = bk_account b"
      using gb acc(1) i(6) by (simp_all add: add_allocations_obs)
    note w = write_balance_Inr[OF wf2 wr, unfolded bv ba add_allocations_obs i(6)]
    have b3: "b \<in> set (pd_buckets db3)"
      using b w(2) i(9) by (simp add: same_rows_def add_allocations_obs)
    note c = cas_bucket_Some[OF w(1) b3 cas order_refl]
    note o = only_buckets_obs[OF c(3)]
    note t = same_tables_obs[OF points_emit_same[OF emit]]
    have bs: "bucket_sum db (bk_account b) = max 0 (balance_of db (bk_account b))"
      using inv by (simp add: points_inv_def)
    have "bk_amount b \<le> bucket_sum db (bk_account b)"
    proof -
      have "group_sum (\<lambda>x. bk_account x = bk_account b) bk_amount t \<ge> bk_amount b"
        if "b \<in> set t" "\<forall>x\<in>set t. 0 \<le> bk_amount x" for t
        using that
      proof (induction t)
        case (Cons x t)
        then show ?case
          using group_sum_nonneg[of t "\<lambda>x. bk_account x = bk_account b" bk_amount] by fastforce
      qed simp
      then show ?thesis using b points_wf_parts(6)[OF wf] by (simp add: bucket_sum_def)
    qed
    then have enough: "bk_amount b \<le> balance_of db (bk_account b)" using bs pos by simp
    have bsum4: "bucket_sum db4 = (bucket_sum db)(bk_account b := max 0 ?v)"
      using c(5) same_rows_obs[OF w(2)] i(8) bs enough pos by (simp add: add_allocations_obs fun_eq_iff)
    have lsum4: "ledger_sum db4 = (ledger_sum db)(bk_account b := ledger_sum db (bk_account b) - bk_amount b)"
      using o(3) same_rows_obs(2)[OF w(2)] i(2) eid(1,3) by (simp add: add_allocations_obs)
    have bal4: "balance_of db4 = (balance_of db)(bk_account b := ?v)"
      using o(1) w(3) by simp
    have st4: "state_of db4 = (state_of db)(bk_account b := map_option (next_state ?v) (state_of db (bk_account b)))"
      using o(2) w(4) i(7) by simp
    have inv4: "points_inv db4"
      using inv c(2) unfolding points_inv_def bsum4 lsum4 bal4 st4
      by (auto simp: fun_eq_iff state_fits_next)
    have "posted e db db'"
      unfolding posted_def
      using same_tables_inv[OF points_emit_same[OF emit] inv4] t bal4 st4 eid o w(2) i ids c(3)
        points_emit_same[OF emit]
      by (simp add: same_rows_def add_allocations_obs only_buckets_def same_tables_def)
    moreover have "x \<in> set (pd_buckets db')" if "x \<in> set (pd_buckets db)" "bk_id x \<noteq> bk_id b" for x
      using c(6)[of x] that w(2) i(9) points_emit_same[OF emit]
      by (simp add: same_rows_def add_allocations_obs same_tables_def)
    ultimately show thesis
      using es eid enough by (intro expired[where e = e and prog = prog]) auto
  qed
qed

lemma due_buckets_mem:
  "b \<in> set (due_buckets now db) \<longleftrightarrow> b \<in> set (pd_buckets db) \<and> bucket_expired now b"
  by (auto simp: due_buckets_def)

lemma due_buckets_distinct: "points_wf db \<Longrightarrow> distinct (map bk_id (due_buckets now db))"
  using points_wf_parts(3)[of db] by (auto simp: due_buckets_def distinct_map inj_on_def)

text \<open>
  The sweep posts expiration entries only, one for each due bucket with an account and a
  program, of the whole amount of the bucket; no expiration exceeds the balance.
\<close>

lemma expire_all_Inr:
  assumes "points_inv db" and "set bs \<subseteq> set (pd_buckets db)" and "distinct (map bk_id bs)"
    and "\<forall>b\<in>set bs. 0 < bk_amount b" and "expire_all ctx bs db = Inr (es, db')"
  shows "\<exists>new. posted_list new db db' \<and> (\<forall>e\<in>set new. en_type e = EN_expiration
      \<and> en_reversal_of e = None \<and> (\<exists>b\<in>set bs. en_account e = bk_account b
          \<and> en_amount e = - bk_amount b \<and> en_idempotency_key e = Some (expiration_key b)))
    \<and> (\<forall>a. 0 \<le> balance_of db a \<longrightarrow> 0 \<le> balance_of db' a)"
  using assms
proof (induction bs arbitrary: db es)
  case Nil
  then show ?case by (intro exI[of _ "[]"]) simp
next
  case (Cons b bs)
  obtain es1 db1 es2 where 1: "expire_bucket ctx b db = Inr (es1, db1)"
    and 2: "expire_all ctx bs db1 = Inr (es2, db')"
    using Cons.prems(5) by (auto simp: cmd_ok)
  have b: "b \<in> set (pd_buckets db)" "0 < bk_amount b" using Cons.prems by auto
  from Cons.prems(1) b 1 show ?case
  proof (cases rule: expire_bucket_Inr)
    case skip
    from Cons.IH[OF Cons.prems(1) _ _ _ 2[unfolded skip(2)]] Cons.prems(2-4)
    show ?thesis by (simp add: skip(2)) (meson)
  next
    case (expired e prog)
    have "set bs \<subseteq> set (pd_buckets db1)"
      using Cons.prems(2,3) expired(8) by (auto simp: image_iff) (metis subsetD)
    with Cons.IH[OF _ this _ _ 2] expired(1) Cons.prems(3,4)
    obtain new where new: "posted_list new db1 db'"
      "\<forall>e\<in>set new. en_type e = EN_expiration \<and> en_reversal_of e = None \<and> (\<exists>b\<in>set bs.
         en_account e = bk_account b \<and> en_amount e = - bk_amount b
         \<and> en_idempotency_key e = Some (expiration_key b))"
      "\<forall>a. 0 \<le> balance_of db1 a \<longrightarrow> 0 \<le> balance_of db' a"
      by (auto simp: posted_def)
    have "posted_list (e # new) db db'" using new(1) expired(1) by auto
    moreover have "\<forall>x\<in>set (e # new). en_type x = EN_expiration \<and> en_reversal_of x = None
        \<and> (\<exists>c\<in>set (b # bs). en_account x = bk_account c \<and> en_amount x = - bk_amount c
         \<and> en_idempotency_key x = Some (expiration_key c))"
      using new(2) expired(3-6,9) by auto
    moreover have "\<forall>a. 0 \<le> balance_of db a \<longrightarrow> 0 \<le> balance_of db' a"
      using expired(1,3,4,7) new(3) by (auto simp: posted_def)
    ultimately show ?thesis by blast
  qed
qed

lemma expire_buckets_Inr:
  assumes inv: "points_inv db" and ok: "expire_buckets ctx db = Inr (es, db')"
  obtains new where "posted_list new db db'" and "\<forall>e\<in>set new. en_type e = EN_expiration
      \<and> en_reversal_of e = None \<and> en_amount e < 0"
    and "\<forall>a. 0 \<le> balance_of db a \<longrightarrow> 0 \<le> balance_of db' a"
proof -
  have due: "set (due_buckets (px_now ctx) db) \<subseteq> set (pd_buckets db)"
    "\<forall>b\<in>set (due_buckets (px_now ctx) db). 0 < bk_amount b"
    by (auto simp: due_buckets_mem bucket_expired_def)
  have "distinct (map bk_id (due_buckets (px_now ctx) db))"
    using inv by (simp add: points_inv_def due_buckets_distinct)
  from expire_all_Inr[OF inv due(1) this due(2) ok[unfolded expire_buckets_def]] due(2) that
  show thesis by fastforce
qed

section \<open>Opening, freezing, rebuilding\<close>

lemma open_effect:
  assumes "points_inv db" and "open_points_account ctx key st sid db = Inr (dto, db')"
  obtains acc where "opened acc db db'" and "ac_subject_type acc = st" and "ac_subject_id acc = sid"
    and "dto = to_balance acc \<lparr>bl_account = ac_id acc, bl_balance = bd_balance dto,
           bl_version = bd_version dto\<rparr> key" and "bd_balance dto = balance_of db' (ac_id acc)"
proof -
  obtain prog acc balance where ens: "ensure_account ctx prog st sid db = Inr (acc, db')"
    and bal: "get_balance db' (ac_id acc) = Inr balance" and dto: "dto = to_balance acc balance key"
    using assms(2) by (auto simp: open_points_account_def cmd_ok)
  note en = ensure_account_Inr[OF assms(1) ens]
  from en dto get_balance_Inr[OF bal] show thesis
    by (intro that) (auto simp: to_balance_def)
qed

lemma set_account_state_inv:
  assumes inv: "points_inv db" and fits: "state_fits (Some st) (balance_of db acc)"
  shows "points_inv (set_account_state acc st db)"
    and "balance_of (set_account_state acc st db) = balance_of db"
    and "state_of (set_account_state acc st db)
      = (state_of db)(acc := map_option (\<lambda>_. st) (state_of db acc))"
    and "pd_entries (set_account_state acc st db) = pd_entries db"
proof -
  show bal: "balance_of (set_account_state acc st db) = balance_of db"
    by (simp add: set_account_state_def balance_of_def find_balance_def fun_eq_iff)
  show "pd_entries (set_account_state acc st db) = pd_entries db"
    by (simp add: set_account_state_def)
  have sums: "bucket_sum (set_account_state acc st db) = bucket_sum db"
    "ledger_sum (set_account_state acc st db) = ledger_sum db"
    by (simp_all add: set_account_state_def bucket_sum_def ledger_sum_def fun_eq_iff)
  show st2: "state_of (set_account_state acc st db)
      = (state_of db)(acc := map_option (\<lambda>_. st) (state_of db acc))"
    unfolding set_account_state_def state_of_def account_by_id_def
    by (auto simp: fun_eq_iff find_update_where option.map_comp comp_def
        intro!: option.map_cong0 dest!: find_Some_mem)
  have "points_wf (set_account_state acc st db)"
    using inv by (simp add: points_inv_def points_wf_def set_account_state_def account_ids_def)
  then show "points_inv (set_account_state acc st db)"
    using inv fits unfolding points_inv_def bal sums st2
    by (auto simp: state_fits_def split: if_splits)
qed

lemma freeze_effect:
  assumes inv: "points_inv db"
    and ok: "freeze_points_account ctx key st sid frozen reason db = Inr (dto, db')"
  shows "points_inv db'" and "balance_of db' = balance_of db" and "pd_entries db' = pd_entries db"
    and "\<exists>acc\<in>account_ids db. bd_account_id dto = acc \<and> bd_balance dto = balance_of db acc
      \<and> state_of db' = (state_of db)(acc \<mapsto> bd_state dto) \<and> (frozen \<longleftrightarrow> bd_state dto = AC_frozen)"
proof -
  obtain prog acc balance where acc: "find_account db (pr_id prog) st sid = Some acc"
    and bal: "get_balance db (ac_id acc) = Inr balance"
    and rest: "(let target = freeze_target frozen (bl_balance balance) (ac_state acc) in
      if ac_state acc = target then Inr (to_balance acc balance key, db)
      else
        (let acc' = acc\<lparr>ac_state := target, ac_version := ac_version acc + 1\<rparr> in
         bindE (points_emit ctx ''points.account_frozen.v1'' acc' prog
           [(''state'', JStr (state_name target))] (set_account_state (ac_id acc) target db)) (\<lambda>db1.
         bindE (points_append_audit ctx
           (if frozen then ''points.account.frozen'' else ''points.account.unfrozen'')
           ''points_account'' (show_nat (ac_id acc))
           [(''program_key'', JStr key),
            (''reason'', JStr (case reason of None \<Rightarrow> ''admin state change''
               | Some r \<Rightarrow> if r = [] then ''admin state change'' else r))] db1) (\<lambda>db2.
         Inr (to_balance acc' balance key, db2))))) = Inr (dto, db')"
    using ok by (auto simp: freeze_points_account_def get_account_def cmd_ok)
  note m = find_account_mem[OF acc]
  note g = get_balance_Inr[OF bal]
  let ?t = "freeze_target frozen (bl_balance balance) (ac_state acc)"
  have wf: "points_wf db" using inv by (simp add: points_inv_def)
  have st0: "state_of db (ac_id acc) = Some (ac_state acc)"
    using account_by_id_mem[OF wf m(1)] by (simp add: state_of_def)
  have fits0: "state_fits (Some (ac_state acc)) (balance_of db (ac_id acc))"
    using inv st0 unfolding points_inv_def by metis
  have fits: "state_fits (Some ?t) (balance_of db (ac_id acc))"
    using fits0 g(3) by (auto simp: state_fits_def freeze_target_def)
  have froz: "frozen \<longleftrightarrow> ?t = AC_frozen"
    by (auto simp: freeze_target_def)
  note s = set_account_state_inv[OF inv fits]
  have "points_inv db' \<and> balance_of db' = balance_of db \<and> pd_entries db' = pd_entries db
    \<and> bd_account_id dto = ac_id acc \<and> bd_balance dto = balance_of db (ac_id acc)
    \<and> state_of db' = (state_of db)(ac_id acc \<mapsto> bd_state dto) \<and> bd_state dto = ?t"
  proof (cases "ac_state acc = ?t")
    case True
    with rest have "dto = to_balance acc balance key" "db' = db" by (simp_all add: Let_def)
    with inv st0 g True show ?thesis by (auto simp: to_balance_def fun_upd_idem)
  next
    case False
    then have same: "same_tables (set_account_state (ac_id acc) ?t db) db'"
      and dto: "bd_account_id dto = ac_id acc" "bd_state dto = ?t" "bd_balance dto = bl_balance balance"
      using rest by (auto simp: Let_def cmd_ok to_balance_def
          intro: same_tables_trans points_emit_same points_append_audit_same)
    show ?thesis
      using same_tables_inv[OF same s(1)] same_tables_obs[OF same] s dto g st0 by simp
  qed
  then show "points_inv db'" and "balance_of db' = balance_of db" and "pd_entries db' = pd_entries db"
    and "\<exists>acc\<in>account_ids db. bd_account_id dto = acc \<and> bd_balance dto = balance_of db acc
      \<and> state_of db' = (state_of db)(acc \<mapsto> bd_state dto) \<and> (frozen \<longleftrightarrow> bd_state dto = AC_frozen)"
    using m(2) froz by auto
qed

end
