(* ===== verification/Points_Reachable.thy ===== *)
theory Points_Reachable
  imports Points_Correct
begin

text \<open>
  The points tables as a state machine: one step is one committed command. The invariant of
  \<^verbatim>\<open>Points_Invariant.thy\<close> and the uniqueness of idempotency keys and reversals hold in
  every reachable state.
\<close>

section \<open>Steps\<close>

inductive points_step :: "points_db \<Rightarrow> points_db \<Rightarrow> bool" where
  open_account: "open_points_account ctx key st sid db = Inr (dto, db') \<Longrightarrow> points_step db db'"
| credit: "valid_credit_debit_input i \<Longrightarrow> credit_points ctx key i db = Inr (entry, db')
    \<Longrightarrow> points_step db db'"
| debit: "valid_credit_debit_input i \<Longrightarrow> debit_points ctx key i db = Inr (entry, db')
    \<Longrightarrow> points_step db db'"
| reverse: "reverse_ledger_entry ctx eid r db = Inr (entry, db') \<Longrightarrow> points_step db db'"
| adjust: "adjust_points ctx a db = Inr (entry, db') \<Longrightarrow> points_step db db'"
| expire: "expire_buckets ctx db = Inr (entries, db') \<Longrightarrow> points_step db db'"
| freeze: "freeze_points_account ctx key st sid frozen reason db = Inr (dto, db')
    \<Longrightarrow> points_step db db'"
| rebuild: "rebuild_balance ctx acc dry db = Inr (report, db') \<Longrightarrow> points_step db db'"

text \<open>A database with programs and no account.\<close>

definition points_initial :: "points_db \<Rightarrow> bool" where
  "points_initial db \<longleftrightarrow> pd_accounts db = [] \<and> pd_balances db = [] \<and> pd_buckets db = []
     \<and> pd_allocations db = [] \<and> pd_entries db = []"

inductive points_reachable :: "points_db \<Rightarrow> bool" where
  init: "points_initial db \<Longrightarrow> points_reachable db"
| step: "points_reachable db \<Longrightarrow> points_step db db' \<Longrightarrow> points_reachable db'"

section \<open>Keys of the ledger\<close>

definition keyed :: "ledger_entry list \<Rightarrow> (nat \<times> string option) list" where
  "keyed es = map (\<lambda>e. (en_program e, en_idempotency_key e))
     (filter (\<lambda>e. en_idempotency_key e \<noteq> None) es)"

definition reversal_marks :: "ledger_entry list \<Rightarrow> nat option list" where
  "reversal_marks es = filter (\<lambda>r. r \<noteq> None) (map en_reversal_of es)"

text \<open>A reversal undoes one entry of its account that is no reversal itself.\<close>

definition reverses :: "ledger_entry \<Rightarrow> ledger_entry \<Rightarrow> bool" where
  "reverses x e \<longleftrightarrow> en_reversal_of x = Some (en_id e) \<and> en_account x = en_account e
     \<and> en_amount x = - en_amount e \<and> en_type e \<noteq> EN_reversal"

definition reversals_match :: "ledger_entry list \<Rightarrow> bool" where
  "reversals_match es \<longleftrightarrow> (\<forall>x\<in>set es. en_reversal_of x \<noteq> None \<longrightarrow> (\<exists>e\<in>set es. reverses x e))"

text \<open>No key is used twice in a program, no entry is reversed twice.\<close>

definition ledger_once :: "points_db \<Rightarrow> bool" where
  "ledger_once db \<longleftrightarrow> distinct (keyed (pd_entries db)) \<and> distinct (reversal_marks (pd_entries db))
     \<and> reversals_match (pd_entries db)"

lemma posted_keyed:
  assumes "posted e db db'" and "distinct (keyed (pd_entries db))"
  shows "distinct (keyed (pd_entries db'))"
proof (cases "en_idempotency_key e")
  case None
  with assms show ?thesis by (simp add: posted_def keyed_def)
next
  case (Some k)
  then have "find_idempotent db (en_program e) k = None" using assms(1) by (simp add: posted_def)
  then have "(en_program e, Some k) \<notin> set (keyed (pd_entries db))"
    by (auto simp: find_idempotent_def find_None_iff' keyed_def)
  with assms Some show ?thesis by (simp add: posted_def keyed_def)
qed

lemma posted_once:
  assumes "posted e db db'" and "ledger_once db"
    and "\<And>i. en_reversal_of e = Some i \<Longrightarrow> (\<forall>x\<in>set (pd_entries db). en_reversal_of x \<noteq> Some i)
      \<and> (\<exists>x\<in>set (pd_entries db). reverses e x)"
  shows "ledger_once db'"
proof -
  have es: "pd_entries db' = pd_entries db @ [e]" using assms(1) by (simp add: posted_def)
  have "distinct (reversal_marks (pd_entries db'))"
    using assms(2,3) by (cases "en_reversal_of e") (auto simp: es ledger_once_def reversal_marks_def)
  moreover have "reversals_match (pd_entries db')"
    using assms(2,3) by (cases "en_reversal_of e") (auto simp: es ledger_once_def reversals_match_def)
  ultimately show ?thesis
    using posted_keyed[OF assms(1)] assms(2) by (simp add: ledger_once_def)
qed

lemma posted_plain:
  assumes "posted e db db'" and "ledger_once db" and "en_reversal_of e = None"
  shows "points_inv db' \<and> ledger_once db'"
  using assms(1) posted_once[OF assms(1,2)] assms(3) by (simp add: posted_def)

lemma posted_list_once:
  assumes "posted_list es db db'" and "ledger_once db" and "\<forall>e\<in>set es. en_reversal_of e = None"
  shows "ledger_once db'"
  using assms by (induction es arbitrary: db) (auto dest: posted_plain)

lemma same_entries_once: "pd_entries db' = pd_entries db \<Longrightarrow> ledger_once db \<Longrightarrow> ledger_once db'"
  by (simp add: ledger_once_def)

section \<open>Rebuilding a consistent account\<close>

lemma rebuild_row_noop:
  assumes "points_inv db"
  shows "rebuild_balance_row acc (ledger_sum db acc) db = db"
proof -
  have "update_where (\<lambda>r. bl_account r = acc \<and> bl_balance r \<noteq> ledger_sum db acc)
       (\<lambda>r. r\<lparr>bl_balance := ledger_sum db acc, bl_version := bl_version r + 1\<rparr>) (pd_balances db)
      = pd_balances db"
  proof (rule update_where_none)
    fix r assume r: "r \<in> set (pd_balances db)"
    have "find (\<lambda>x. bl_account x = bl_account r) (pd_balances db) = Some r"
      using assms r by (intro find_key_unique) (auto simp: points_inv_def dest: points_wf_parts(2))
    then have "balance_of db (bl_account r) = bl_balance r"
      by (simp add: balance_of_def find_balance_def)
    then show "\<not> (bl_account r = acc \<and> bl_balance r \<noteq> ledger_sum db acc)"
      using assms by (auto simp: points_inv_def)
  qed
  then show ?thesis by (simp add: rebuild_balance_row_def)
qed

lemma rebuild_state_inv:
  assumes "points_inv db"
  shows "points_inv (rebuild_state acc (balance_of db acc) db)"
    and "balance_of (rebuild_state acc (balance_of db acc) db) = balance_of db"
    and "pd_entries (rebuild_state acc (balance_of db acc) db) = pd_entries db"
proof -
  let ?db = "rebuild_state acc (balance_of db acc) db"
  show bal: "balance_of ?db = balance_of db"
    by (simp add: rebuild_state_def balance_of_def find_balance_def fun_eq_iff)
  have sums: "bucket_sum ?db = bucket_sum db" "ledger_sum ?db = ledger_sum db"
    by (simp_all add: rebuild_state_def bucket_sum_def ledger_sum_def fun_eq_iff)
  show "pd_entries ?db = pd_entries db" by (simp add: rebuild_state_def)
  have st: "state_of ?db = (state_of db)(acc :=
      map_option (next_state (balance_of db acc)) (state_of db acc))"
    unfolding rebuild_state_def state_of_def account_by_id_def
    by (auto simp: fun_eq_iff find_update_where option.map_comp comp_def
        intro!: option.map_cong0 dest!: find_Some_mem)
  have "points_wf ?db"
    using assms by (simp add: points_inv_def points_wf_def rebuild_state_def account_ids_def)
  then show "points_inv ?db"
    using assms unfolding points_inv_def bal sums st by (auto simp: state_fits_next)
qed

lemma rebuild_consistent:
  assumes inv: "points_inv db" and ok: "rebuild_balance ctx acc dry db = Inr (report, db')"
  shows "db' = (if dry then db else rebuild_state acc (balance_of db acc) db)"
    and "rb_match report" and "rb_ledger_sum report = balance_of db acc"
    and "rb_bucket_sum report = max 0 (balance_of db acc)"
proof -
  obtain a where a: "account_by_id db acc = Some a" "ac_id a = acc"
    using ok by (auto simp: rebuild_balance_def account_by_id_def cmd_ok dest: find_Some_mem)
  have sums: "bucket_sum db acc = max 0 (ledger_sum db acc)" "balance_of db acc = ledger_sum db acc"
    using inv by (simp_all add: points_inv_def)
  obtain r where "get_balance db acc = Inr r" "bl_balance r = ledger_sum db acc"
    using ok a sums(2) get_balance_Inr(3)[of db acc] by (fastforce simp: rebuild_balance_def cmd_ok)
  then have "db' = (if dry then db else rebuild_state acc (balance_of db acc) db)
    \<and> rb_match report \<and> rb_ledger_sum report = balance_of db acc
    \<and> rb_bucket_sum report = max 0 (balance_of db acc)"
    using ok a sums rebuild_row_noop[OF inv]
    by (auto simp: rebuild_balance_def cmd_ok Let_def split: if_splits)
  then show "db' = (if dry then db else rebuild_state acc (balance_of db acc) db)"
    and "rb_match report" and "rb_ledger_sum report = balance_of db acc"
    and "rb_bucket_sum report = max 0 (balance_of db acc)" by blast+
qed

section \<open>The invariant of every reachable state\<close>

lemma points_step_inv:
  assumes "points_step db db'" and inv: "points_inv db" and once: "ledger_once db"
  shows "points_inv db' \<and> ledger_once db'"
  using assms(1)
proof cases
  case (open_account ctx key st sid dto)
  from open_effect[OF inv this] obtain acc where "opened acc db db'" by blast
  with once show ?thesis by (auto simp: opened_def intro: same_entries_once)
next
  case (credit i ctx key entry)
  have pos: "0 < ci_amount i" using credit(1) by (simp add: valid_credit_debit_input_def)
  from inv pos credit(2)[unfolded credit_points_def] show ?thesis
    by (cases rule: credit_effect)
      (use inv once in \<open>auto dest: posted_plain\<close>)
next
  case (debit i ctx key entry)
  have pos: "0 < ci_amount i" using debit(1) by (simp add: valid_credit_debit_input_def)
  from inv pos debit(2) show ?thesis
    by (cases rule: debit_effect)
      (use inv once in \<open>auto dest: posted_plain\<close>)
next
  case (reverse ctx eid r entry)
  from inv reverse show ?thesis
  proof (cases rule: reverse_effect)
    case (fresh e prog x)
    have "e \<in> set (pd_entries db)" using fresh(1) by (auto simp: entry_by_id_def dest: find_Some_mem)
    moreover have "reverses x e" using fresh by (simp add: reverses_def)
    ultimately show ?thesis using fresh posted_once[OF fresh(5) once] by (auto simp: posted_def)
  qed (use inv once in simp)
next
  case (adjust ctx a entry)
  from inv adjust show ?thesis
    by (cases rule: adjust_effect)
      (use inv once in \<open>auto dest: posted_plain\<close>)
next
  case (expire ctx entries)
  from inv expire obtain new where "posted_list new db db'"
    "\<forall>e\<in>set new. en_type e = EN_expiration \<and> en_reversal_of e = None \<and> en_amount e < 0"
    by (rule expire_buckets_Inr)
  with posted_list_inv[OF this(1) inv] posted_list_once[OF this(1) once] show ?thesis by blast
next
  case (freeze ctx key st sid frozen reason dto)
  from freeze_effect(1,3)[OF inv this] once show ?thesis by (auto intro: same_entries_once)
next
  case (rebuild ctx acc dry report)
  from rebuild_consistent(1)[OF inv this] rebuild_state_inv[OF inv, of acc] inv once
  show ?thesis by (auto intro: same_entries_once)
qed

text \<open>The ledger is append-only and programs are fixed.\<close>

definition extends :: "points_db \<Rightarrow> points_db \<Rightarrow> bool" where
  "extends db db' \<longleftrightarrow> (\<exists>new. pd_entries db' = pd_entries db @ new) \<and> pd_programs db' = pd_programs db"

lemma extends_refl [simp]: "extends db db"
  by (simp add: extends_def)

lemma extends_trans: "extends a b \<Longrightarrow> extends b c \<Longrightarrow> extends a c"
  by (auto simp: extends_def)

lemma posted_extends: "posted e db db' \<Longrightarrow> extends db db'"
  by (auto simp: extends_def posted_def)

lemma posted_list_extends: "posted_list es db db' \<Longrightarrow> extends db db'"
  by (induction es arbitrary: db) (auto dest: posted_extends intro: extends_trans)

lemma points_step_extends:
  assumes "points_step db db'" and inv: "points_inv db"
  shows "extends db db'"
  using assms(1)
proof cases
  case (open_account ctx key st sid dto)
  from open_effect[OF inv this] obtain acc where "opened acc db db'" by blast
  then show ?thesis by (simp add: extends_def opened_def)
next
  case (credit i ctx key entry)
  have pos: "0 < ci_amount i" using credit(1) by (simp add: valid_credit_debit_input_def)
  from inv pos credit(2)[unfolded credit_points_def] show ?thesis
    by (cases rule: credit_effect) (auto intro: posted_extends)
next
  case (debit i ctx key entry)
  have pos: "0 < ci_amount i" using debit(1) by (simp add: valid_credit_debit_input_def)
  from inv pos debit(2) show ?thesis
    by (cases rule: debit_effect) (auto intro: posted_extends)
next
  case (reverse ctx eid r entry)
  from inv reverse show ?thesis by (cases rule: reverse_effect) (auto intro: posted_extends)
next
  case (adjust ctx a entry)
  from inv adjust show ?thesis by (cases rule: adjust_effect) (auto intro: posted_extends)
next
  case (expire ctx entries)
  from inv expire obtain new where "posted_list new db db'" by (rule expire_buckets_Inr)
  then show ?thesis by (rule posted_list_extends)
next
  case (freeze ctx key st sid frozen reason dto)
  have "pd_programs db' = pd_programs db"
    using freeze by (auto simp: freeze_points_account_def Let_def set_account_state_def cmd_ok
        same_tables_def split: if_splits dest!: points_emit_same points_append_audit_same)
  with freeze_effect(3)[OF inv freeze] show ?thesis by (simp add: extends_def)
next
  case (rebuild ctx acc dry report)
  from rebuild_consistent(1)[OF inv this] show ?thesis
    by (simp add: extends_def rebuild_state_def)
qed

lemma points_initial_inv: "points_initial db \<Longrightarrow> points_inv db \<and> ledger_once db"
  by (auto simp: points_initial_def points_inv_def points_wf_def rows_ok_def buckets_ok_def
      entries_ok_def allocs_ok_def account_ids_def balance_of_def find_balance_def ledger_sum_def
      bucket_sum_def state_of_def account_by_id_def state_fits_def ledger_once_def keyed_def
      reversal_marks_def reversals_match_def fun_eq_iff)

lemma points_reachable_inv: "points_reachable db \<Longrightarrow> points_inv db \<and> ledger_once db"
  by (induction rule: points_reachable.induct) (auto dest: points_initial_inv points_step_inv)

lemma points_run:
  assumes "points_step\<^sup>*\<^sup>* db db'" and "points_reachable db"
  shows "points_reachable db' \<and> extends db db'"
  using assms
proof (induction rule: rtranclp_induct)
  case (step y z)
  then show ?case
    using points_step_extends[OF step(2)] points_reachable_inv[of y] points_reachable.step[OF _ step(2)]
      extends_trans[of db y z] by simp
qed simp

end
