(* ===== verification/Points_Buckets.thy ===== *)
theory Points_Buckets
  imports Points_Reachable
begin

text \<open>
  The buckets one by one: what consumption takes from each, in which order, that reversing a
  debit puts every amount back, and that the expiration sweep empties every due bucket.
\<close>

section \<open>The amount of a bucket\<close>

definition bucket_amount :: "points_db \<Rightarrow> nat \<Rightarrow> int" where
  "bucket_amount db i = (case bucket_by_id db i of None \<Rightarrow> 0 | Some b \<Rightarrow> bk_amount b)"

text \<open>What a list of allocations draws from a bucket.\<close>

definition drawn_from :: "(points_bucket \<times> int) list \<Rightarrow> nat \<Rightarrow> int" where
  "drawn_from allocs i = group_sum (\<lambda>t. bk_id (fst t) = i) snd allocs"

lemma drawn_from_simps [simp]:
  "drawn_from [] i = 0"
  "drawn_from ((b, x) # allocs) i = (if bk_id b = i then x else 0) + drawn_from allocs i"
  by (simp_all add: drawn_from_def)

lemma drawn_from_other: "i \<notin> bk_id ` fst ` set allocs \<Longrightarrow> drawn_from allocs i = 0"
  unfolding drawn_from_def by (rule group_sum_empty_group) auto

lemma bucket_amount_row:
  assumes "points_wf db" and "b \<in> set (pd_buckets db)"
  shows "bucket_amount db (bk_id b) = bk_amount b"
  using find_key_unique[OF points_wf_parts(3)[OF assms(1)] assms(2)]
  by (simp add: bucket_amount_def bucket_by_id_def)

lemma bucket_amount_absent:
  "i \<notin> bk_id ` set (pd_buckets db) \<Longrightarrow> bucket_amount db i = 0"
  by (auto simp: bucket_amount_def bucket_by_id_def split: option.splits dest: find_Some_mem)

lemma cas_bucket_amount:
  assumes wf: "points_wf db" and snap: "snap \<in> set (pd_buckets db)"
    and cas: "cas_bucket snap guard f db = Some db'"
  shows "bucket_amount db' = (bucket_amount db)(bk_id snap := f (bk_amount snap))"
proof
  fix i
  let ?hit = "\<lambda>r. bk_id r = bk_id snap \<and> bk_version r = bk_version snap \<and> guard r"
  let ?f = "\<lambda>r. r\<lparr>bk_amount := f (bk_amount r), bk_version := bk_version r + 1\<rparr>"
  obtain r where r: "r \<in> set (pd_buckets db)" "?hit r"
    and db': "db' = db\<lparr>pd_buckets := update_where ?hit ?f (pd_buckets db)\<rparr>"
    using cas by (auto simp: cas_bucket_def Let_def list_ex_iff split: if_splits)
  have hit: "?hit snap" using bucket_unique[OF wf r(1) snap] r(2) by simp
  have "find (\<lambda>b. bk_id b = i) (update_where ?hit ?f (pd_buckets db))
      = map_option (\<lambda>r. if ?hit r then ?f r else r) (find (\<lambda>b. bk_id b = i) (pd_buckets db))"
    by (rule find_update_where) simp
  moreover have "find (\<lambda>b. bk_id b = bk_id snap) (pd_buckets db) = Some snap"
    using find_key_unique[OF points_wf_parts(3)[OF wf] snap] .
  ultimately show "bucket_amount db' i = ((bucket_amount db)(bk_id snap := f (bk_amount snap))) i"
    using hit by (auto simp: db' bucket_amount_def bucket_by_id_def split: option.splits
        dest!: find_Some_mem)
qed

lemma bucket_target_amount:
  assumes "points_wf db" and "bucket_target now acc bt ident expires db = Inr (b, db')"
  shows "bucket_amount db' = bucket_amount db"
proof (cases "find (bucket_matches acc bt ident expires) (pd_buckets db)")
  case None
  have b: "bk_amount b = 0" "bk_id b = pd_next_id db"
    and db': "db' = db\<lparr>pd_buckets := pd_buckets db @ [b], pd_next_id := Suc (pd_next_id db)\<rparr>"
    using assms(2) None by (auto simp: bucket_target_def Let_def cmd_ok)
  show ?thesis
    using b unfolding db' bucket_amount_def bucket_by_id_def
    by (intro ext) (auto simp: find_append split: option.split)
qed (use assms(2) in \<open>simp add: bucket_target_def\<close>)

lemma consume_loop_amounts:
  assumes "consume_loop bs remaining db = Inr (allocs, db')"
    and "points_wf db" and "snapshots acc db bs" and "\<forall>b\<in>set bs. 0 < bk_amount b" and "0 \<le> remaining"
  shows "bucket_amount db' = (\<lambda>i. bucket_amount db i - drawn_from allocs i)"
  using assms
proof (induction bs remaining db arbitrary: allocs rule: consume_loop.induct)
  case (2 b bs remaining db)
  show ?case
  proof (cases "remaining \<le> 0")
    case False
    let ?take = "min (bk_amount b) remaining"
    obtain db1 as where cas: "cas_bucket b (\<lambda>r. ?take \<le> bk_amount r) (\<lambda>x. x - ?take) db = Some db1"
      and rest: "consume_loop bs (remaining - ?take) db1 = Inr (as, db')"
      and allocs: "allocs = (b, ?take) # as"
      using 2(2) False by (auto simp: Let_def cmd_ok)
    have b: "b \<in> set (pd_buckets db)" "bk_id b \<notin> bk_id ` set bs" "snapshots acc db bs"
      using 2(4) by (auto simp: snapshots_Cons)
    have nonneg: "0 \<le> bk_amount b - ?take" by simp
    note c = cas_bucket_Some[OF 2(3) b(1) cas nonneg]
    have "bucket_amount db' = (\<lambda>i. bucket_amount db1 i - drawn_from as i)"
    proof (rule 2(1)[OF False refl _ rest])
      show "snapshots acc db1 bs" using b(3,2) c(6) by (rule snapshots_keep)
    qed (use c(2) 2(5) cas in \<open>auto simp: cmd_ok\<close>)
    with cas_bucket_amount[OF 2(3) b(1) cas] bucket_amount_row[OF 2(3) b(1)] show ?thesis
      by (auto simp: allocs fun_eq_iff)
  qed (use 2(2) in simp)
qed simp

text \<open>
  Consumption is greedy: whatever stands before a touched bucket in the list is used up.
\<close>

lemma consume_loop_greedy:
  assumes "consume_loop bs remaining db = Inr (allocs, db')" and "distinct (map bk_id bs)"
    and "bs = xs @ c # ys" and "drawn_from allocs (bk_id c) \<noteq> 0" and "b \<in> set xs"
  shows "drawn_from allocs (bk_id b) = bk_amount b"
  using assms
proof (induction bs remaining db arbitrary: allocs xs rule: consume_loop.induct)
  case (2 d bs remaining db)
  show ?case
  proof (cases "remaining \<le> 0")
    case False
    let ?take = "min (bk_amount d) remaining"
    obtain db1 as where cas: "cas_bucket d (\<lambda>r. ?take \<le> bk_amount r) (\<lambda>x. x - ?take) db = Some db1"
      and rest: "consume_loop bs (remaining - ?take) db1 = Inr (as, db')"
      and allocs: "allocs = (d, ?take) # as"
      using 2(2) False by (auto simp: Let_def cmd_ok)
    obtain xs' where xs: "xs = d # xs'" "bs = xs' @ c # ys"
      using 2(4,6) by (cases xs) auto
    have dc: "bk_id d \<noteq> bk_id c" using 2(3) xs by auto
    then have touched: "drawn_from as (bk_id c) \<noteq> 0" using 2(5) allocs by simp
    have from_list: "fst ` set as \<subseteq> set bs" if "consume_loop bs n x = Inr (as, y)" for n as x y
      using that
    proof (induction bs n x arbitrary: as rule: consume_loop.induct)
      case (2 e es n x)
      then show ?case by (fastforce simp: Let_def cmd_ok split: if_splits)
    qed simp
    have "drawn_from as (bk_id d) = 0"
      using from_list[OF rest] 2(3) by (intro drawn_from_other) (auto simp: image_iff)
    moreover have "?take = bk_amount d"
    proof (rule ccontr)
      assume "?take \<noteq> bk_amount d"
      then have "remaining - ?take = 0" by (auto simp: min_def)
      with rest have "as = []" by (cases bs) auto
      with touched show False by simp
    qed
    moreover have "drawn_from as (bk_id b) = bk_amount b" if "b \<in> set xs'"
      using 2(1)[OF False refl _ rest _ xs(2) touched that] 2(3) cas by (simp add: cmd_ok)
    moreover have "bk_id b \<noteq> bk_id d" if "b \<in> set xs'"
      using 2(3) xs that by (auto simp: image_iff)
    ultimately show ?thesis using 2(6) xs(1) by (auto simp: allocs)
  qed (use 2(2,5) in simp)
qed simp

lemma restore_loop_amounts:
  assumes "restore_loop targets remaining db = Inr (rest, db')"
    and "points_wf db" and "snapshots acc db (map fst targets)" and "\<forall>t\<in>set targets. 0 < snd t"
    and "remaining = sum_list (map snd targets)"
  shows "rest = 0 \<and> bucket_amount db' = (\<lambda>i. bucket_amount db i + drawn_from targets i)"
  using assms
proof (induction targets remaining db rule: restore_loop.induct)
  case (2 b capacity ts remaining db)
  have pos: "0 \<le> sum_list (map snd ts)" using 2(5) by (intro sum_list_nonneg) (auto simp: less_imp_le)
  have cap: "0 < capacity" "min capacity remaining = capacity" using 2(5,6) pos by auto
  obtain db1 where add: "add_to_bucket b capacity db = Inr db1"
    and rest: "restore_loop ts (remaining - capacity) db1 = Inr (rest, db')"
    using 2(2,6) cap pos by (auto simp: Let_def cmd_ok split: if_splits)
  have b: "b \<in> set (pd_buckets db)" and keep: "snapshots acc db (map fst ts)"
    "bk_id b \<notin> bk_id ` set (map fst ts)"
    using 2(4) by (auto simp: snapshots_Cons)
  have nonneg: "0 \<le> bk_amount b + capacity" using points_wf_parts(6)[OF 2(3) b] cap by simp
  note a = add_to_bucket_Inr[OF 2(3) b nonneg add]
  have cas: "cas_bucket b (\<lambda>_. True) (\<lambda>x. x + capacity) db = Some db1"
    using add by (simp add: add_to_bucket_def cmd_ok)
  have "rest = 0 \<and> bucket_amount db' = (\<lambda>i. bucket_amount db1 i + drawn_from ts i)"
  proof (rule 2(1))
    show "snapshots acc db1 (map fst ts)" using keep a(4) by (rule snapshots_keep)
  qed (use a(1) 2(5,6) cap pos add rest in auto)
  with cas_bucket_amount[OF 2(3) b cas] bucket_amount_row[OF 2(3) b] show ?case
    by (auto simp: fun_eq_iff)
qed simp

lemma bucket_amount_cong: "pd_buckets db' = pd_buckets db \<Longrightarrow> bucket_amount db' = bucket_amount db"
  by (simp add: bucket_amount_def bucket_by_id_def fun_eq_iff)

lemma opened_amounts:
  assumes inv: "points_inv db" and ok: "ensure_account ctx prog st sid db = Inr (acc, db')"
  shows "bucket_amount db' = bucket_amount db" and "set (pd_buckets db) \<subseteq> set (pd_buckets db')"
proof -
  have "bucket_amount db' = bucket_amount db \<and> set (pd_buckets db) \<subseteq> set (pd_buckets db')"
  proof (cases "find_account db (pr_id prog) st sid")
    case (Some a)
    then obtain b where t: "bucket_target (px_now ctx) (ac_id a) ''perpetual'' None None db = Inr (b, db')"
      using ok by (auto simp: ensure_account_def cmd_ok)
    have wf: "points_wf db" using inv by (simp add: points_inv_def)
    from bucket_target_amount[OF wf t] bucket_target_Inr(6)[OF wf find_account_mem(2)[OF Some] t]
    show ?thesis by simp
  next
    case None
    obtain db1 db2 b where acc: "acc = new_account db (pr_id prog) st sid"
      and ins: "insert_account acc db = Inr db1"
      and t: "bucket_target (px_now ctx) (ac_id acc) ''perpetual'' None None
          (insert_balance (ac_id acc) db1) = Inr (b, db2)"
      and emit: "points_emit ctx ''points.account_opened.v1'' acc prog [] db2 = Inr db'"
      using ok None by (auto simp: ensure_account_def Let_def cmd_ok)
    have id: "ac_id acc = pd_next_id db" and active: "ac_state acc = AC_active"
      by (simp_all add: acc new_account_def)
    note o = open_rows_inv[OF inv id active ins]
    have wf: "points_wf (insert_balance (ac_id acc) db1)"
      using o(1) by (simp add: points_inv_def)
    have ids: "ac_id acc \<in> account_ids (insert_balance (ac_id acc) db1)" by (simp add: o(7))
    have rows: "pd_buckets (insert_balance (ac_id acc) db1) = pd_buckets db"
      using ins by (auto simp: insert_account_def insert_balance_def cmd_ok)
    have "pd_buckets db' = pd_buckets db2"
      using points_emit_same[OF emit] by (simp add: same_tables_def)
    with bucket_target_amount[OF wf t] bucket_target_Inr(6)[OF wf ids t] rows bucket_amount_cong[OF rows]
      bucket_amount_cong[of db' db2]
    show ?thesis by simp
  qed
  then show "bucket_amount db' = bucket_amount db" and "set (pd_buckets db) \<subseteq> set (pd_buckets db')"
    by simp_all
qed

lemma consume_buckets_amounts:
  assumes wf: "points_wf db" and amt: "0 \<le> amount"
    and ok: "consume_buckets acc amount allow db = Inr (v, allocs, db')"
  shows "bucket_amount db' = (\<lambda>i. bucket_amount db i - drawn_from allocs i)"
    and "pd_allocations db' = pd_allocations db"
proof -
  let ?bs = "sort_key bucket_sort_key (get_buckets db acc)"
  obtain balance db1 where loop: "consume_loop ?bs amount db = Inr (allocs, db1)"
    and wr: "write_balance balance v db1 = Inr db'"
    using ok by (auto simp: consume_buckets_def Let_def cmd_ok)
  note snaps = get_buckets_snapshots[OF wf, where f = bucket_sort_key and acc = acc]
  note l = consume_loop_Inr[OF loop wf snaps amt]
  have "points_wf db1" using l by simp
  note w = write_balance_Inr(2)[OF this wr]
  show "bucket_amount db' = (\<lambda>i. bucket_amount db i - drawn_from allocs i)"
    using consume_loop_amounts[OF loop wf snaps amt] bucket_amount_cong[of db' db1] w
    by (simp add: same_rows_def)
  show "pd_allocations db' = pd_allocations db"
    using l w by (simp add: same_rows_def only_buckets_def)
qed

text \<open>First expiry first: a later bucket is touched only when every earlier one is used up.\<close>

lemma consume_buckets_fifo:
  assumes wf: "points_wf db" and amt: "0 \<le> amount"
    and ok: "consume_buckets acc amount allow db = Inr (v, allocs, db')"
    and b: "b \<in> set (get_buckets db acc)" and c: "c \<in> set (get_buckets db acc)"
    and order: "bucket_sort_key b < bucket_sort_key c"
    and touched: "bucket_amount db' (bk_id c) \<noteq> bk_amount c"
  shows "bucket_amount db' (bk_id b) = 0"
proof -
  let ?bs = "sort_key bucket_sort_key (get_buckets db acc)"
  obtain db1 where loop: "consume_loop ?bs amount db = Inr (allocs, db1)"
    using ok by (auto simp: consume_buckets_def Let_def cmd_ok)
  note a = consume_buckets_amounts(1)[OF wf amt ok]
  have rows: "b \<in> set (pd_buckets db)" "c \<in> set (pd_buckets db)"
    using b c by (auto simp: get_buckets_def)
  have c_drawn: "drawn_from allocs (bk_id c) \<noteq> 0"
    using touched a bucket_amount_row[OF wf rows(2)] by auto
  obtain xs ys where split: "?bs = xs @ c # ys"
    using c by (metis set_sort split_list)
  have "sorted (map bucket_sort_key (xs @ c # ys))"
    unfolding split[symmetric] by simp
  then have "\<forall>y\<in>set ys. bucket_sort_key c \<le> bucket_sort_key y"
    by (simp add: sorted_append)
  with order have "b \<notin> set ys" "b \<noteq> c" by (auto simp: leD)
  moreover have "b \<in> set (xs @ c # ys)" using b unfolding split[symmetric] by simp
  ultimately have "b \<in> set xs" by simp
  moreover have "distinct (map bk_id ?bs)"
    using get_buckets_snapshots(1)[OF wf, where f = bucket_sort_key and acc = acc]
    by (simp add: snapshots_def)
  ultimately have "drawn_from allocs (bk_id b) = bk_amount b"
    by (rule consume_loop_greedy[OF loop _ split c_drawn, rotated])
  with a bucket_amount_row[OF wf rows(1)] show ?thesis by simp
qed

section \<open>Debit and its reversal\<close>

definition allocation_rows :: "nat \<Rightarrow> (points_bucket \<times> int) list \<Rightarrow> debit_allocation list" where
  "allocation_rows eid allocs =
     map (\<lambda>(b, amt). \<lparr>al_entry = eid, al_bucket = bk_id b, al_amount = amt\<rparr>) allocs"

text \<open>The buckets and the allocations after a debit that posted an entry.\<close>

lemma debit_buckets:
  assumes inv: "points_inv db" and valid: "0 < ci_amount i"
    and ok: "debit_points ctx key i db = Inr (dto, db')" and changed: "db' \<noteq> db"
  obtains e allocs where "posted e db db'" and "ld_id dto = en_id e" and "en_amount e = - ci_amount i"
    and "en_type e = EN_debit" and "ld_account_id dto = en_account e"
    and "pd_allocations db' = pd_allocations db @ allocation_rows (en_id e) allocs"
    and "drawn (en_account e) allocs db'" and "\<forall>al\<in>set (pd_allocations db). al_entry al \<noteq> en_id e"
    and "bucket_amount db' = (\<lambda>i. bucket_amount db i - drawn_from allocs i)"
    and "sum_list (map snd allocs) = ci_amount i" and "ci_amount i \<le> balance_of db (en_account e)"
    and "\<And>b c. b \<in> set (get_buckets db (en_account e)) \<Longrightarrow> c \<in> set (get_buckets db (en_account e))
      \<Longrightarrow> bucket_sort_key b < bucket_sort_key c \<Longrightarrow> bucket_amount db' (bk_id c) \<noteq> bk_amount c
      \<Longrightarrow> bucket_amount db' (bk_id b) = 0"
proof -
  obtain spec prog where spec: "require_behavior ctx key = Inr spec"
    and prog: "require_program db (bs_program_key spec) = Inr prog"
    and dir: "bs_direction spec = Dir_debit"
    using ok by (auto simp: debit_points_def cmd_ok)
  have None: "find_idempotent db (pr_id prog) (ci_idempotency_key i) = None"
    using ok spec prog dir changed
    by (auto simp: debit_points_def replay_entry_def cmd_ok split: option.splits)
  obtain acc db1 where ens: "ensure_account ctx prog (ci_subject_type i) (ci_subject_id i) db
      = Inr (acc, db1)" and st: "ac_state acc \<noteq> AC_frozen \<and> ac_state acc \<noteq> AC_debt"
    using ok spec prog dir None by (auto simp: debit_points_def cmd_ok)
  note en = ensure_account_Inr[OF inv ens]
  note op = opened_state[OF en(1)]
  obtain v allocs db2 e db3 where
    consume: "consume_buckets (ac_id acc) (ci_amount i) False db1 = Inr (v, allocs, db2)"
    and e: "e = debit_entry ctx spec prog acc i db2"
    and ins: "insert_entry ''points.duplicate_debit'' e db2 = Inr db3"
    and emit: "points_emit ctx ''points.debited.v1'' acc prog
        (amount_values e v @ source_values spec i) (add_allocations (en_id e) allocs db3) = Inr db'"
    and dto: "dto = to_entry e (pr_key prog)"
    using ok spec prog dir None ens st by (auto simp: debit_points_def cmd_ok Let_def)
  have pos: "0 \<le> ci_amount i" using valid by simp
  note c = consume_buckets_Inr[OF op(4) pos consume]
  note ca = consume_buckets_amounts[OF op(3) pos consume]
  have eid: "en_account e = ac_id acc" "en_id e = pd_next_id db2" "en_amount e = - ci_amount i"
    "en_type e = EN_debit"
    by (simp_all add: e debit_entry_def)
  have same: "same_tables (add_allocations (en_id e) allocs db3) db'" by (rule points_emit_same[OF emit])
  have "posted e db1 db'"
    by (rule posted_intro[OF op(4), where v = v and allocs = allocs]) (use c eid ins same in simp_all)
  then have posted: "posted e db db'" using posted_opened[OF en(1)] by simp
  have wf2: "points_wf db2" and acc2: "en_account e \<in> account_ids db2"
    using c(1) eid(1) by (auto simp: moved_def)
  note i3 = insert_entry_Inr[OF wf2 acc2 eid(2) ins]
  have old: "pd_allocations db2 = pd_allocations db"
    using ca(2) en(1) by (simp add: opened_def)
  have rows: "pd_buckets db' = pd_buckets db2"
    using same i3(9) by (simp add: same_tables_def add_allocations_def)
  have amounts: "bucket_amount db' = (\<lambda>i. bucket_amount db i - drawn_from allocs i)"
    using ca(1) opened_amounts(1)[OF inv ens] bucket_amount_cong[OF rows] by simp
  show thesis
  proof (rule that[OF posted])
    show "pd_allocations db' = pd_allocations db @ allocation_rows (en_id e) allocs"
      using same i3(12) old by (simp add: same_tables_def add_allocations_def allocation_rows_def)
    show "\<forall>al\<in>set (pd_allocations db). al_entry al \<noteq> en_id e"
      using wf2 old eid(2) by (fastforce simp: points_wf_def allocs_ok_def)
    show "drawn (en_account e) allocs db'"
      using c(3) same i3(9,11) eid(1) by (fastforce simp: drawn_def same_tables_def add_allocations_def)
    show "sum_list (map snd allocs) = ci_amount i"
      using c(4,5) pos by (auto simp: min_def max_def split: if_splits)
    show "ci_amount i \<le> balance_of db (en_account e)"
      using c(5) valid en(1) eid(1) by (auto simp: opened_def)
    show "bucket_amount db' (bk_id y) = 0"
      if "y \<in> set (get_buckets db (en_account e))" "z \<in> set (get_buckets db (en_account e))"
        "bucket_sort_key y < bucket_sort_key z" "bucket_amount db' (bk_id z) \<noteq> bk_amount z" for y z
    proof -
      have "set (get_buckets db (en_account e)) \<subseteq> set (get_buckets db1 (ac_id acc))"
        using opened_amounts(2)[OF inv ens] eid(1) by (auto simp: get_buckets_def)
      with consume_buckets_fifo[OF op(3) pos consume _ _ that(3)] that bucket_amount_cong[OF rows]
      show ?thesis by auto
    qed
  qed (use eid amounts dto in \<open>simp_all add: to_entry_def\<close>)
qed

text \<open>The targets of a reversal, when the allocations of the entry are known.\<close>

lemma entry_allocations_of:
  assumes alloc: "pd_allocations db = old @ allocation_rows eid allocs"
    and old: "\<forall>al\<in>set old. al_entry al \<noteq> eid"
    and rows: "\<forall>t\<in>set allocs. bk_id (fst t) \<in> bk_id ` set (pd_buckets db)"
  shows "drawn_from (entry_allocations db eid) = drawn_from allocs"
    and "map snd (entry_allocations db eid) = map snd allocs"
proof -
  have "filter (\<lambda>al. al_entry al = eid) old = []" using old by (simp add: filter_empty_conv)
  moreover have "filter (\<lambda>al. al_entry al = eid) (allocation_rows eid as) = allocation_rows eid as" for as
    by (auto simp: allocation_rows_def filter_id_conv)
  ultimately have ea: "entry_allocations db eid = List.map_filter
     (\<lambda>al. map_option (\<lambda>b. (b, al_amount al)) (bucket_by_id db (al_bucket al)))
     (allocation_rows eid allocs)"
    by (simp add: entry_allocations_def alloc)
  have found: "\<exists>b. bucket_by_id db j = Some b \<and> bk_id b = j" if "j \<in> bk_id ` set (pd_buckets db)" for j
    using that by (cases "bucket_by_id db j")
      (auto simp: bucket_by_id_def find_None_iff' dest: find_Some_mem)
  have "(\<forall>i. drawn_from (List.map_filter
       (\<lambda>al. map_option (\<lambda>b. (b, al_amount al)) (bucket_by_id db (al_bucket al)))
       (allocation_rows eid as)) i = drawn_from as i)
    \<and> map snd (List.map_filter
       (\<lambda>al. map_option (\<lambda>b. (b, al_amount al)) (bucket_by_id db (al_bucket al)))
       (allocation_rows eid as)) = map snd as"
    if "\<forall>t\<in>set as. bk_id (fst t) \<in> bk_id ` set (pd_buckets db)" for as
    using that
  proof (induction as)
    case (Cons t as)
    obtain b x where t: "t = (b, x)" by (cases t)
    with Cons.prems obtain c where "bucket_by_id db (bk_id b) = Some c" "bk_id c = bk_id b"
      using found[of "bk_id b"] by auto
    with Cons t show ?case by (simp add: allocation_rows_def map_filter_simps)
  qed (simp add: allocation_rows_def map_filter_simps)
  from this[OF rows] show "drawn_from (entry_allocations db eid) = drawn_from allocs"
    and "map snd (entry_allocations db eid) = map snd allocs"
    by (auto simp: ea)
qed

lemma restore_buckets_amounts:
  assumes inv: "points_inv db" and targets: "snapshots acc db (map fst targets)" "\<forall>t\<in>set targets. 0 < snd t"
    and bal: "0 \<le> balance_of db acc" and sum: "amount = sum_list (map snd targets)"
    and ok: "restore_buckets now acc amount targets db = Inr (v, db')"
  shows "bucket_amount db' = (\<lambda>i. bucket_amount db i + drawn_from targets i)"
proof -
  have wf: "points_wf db" using inv by (simp add: points_inv_def)
  obtain balance db1 where gb: "get_balance db acc = Inr balance"
    and restore: "restore_remaining now acc targets (after_pay_down (bl_balance balance) amount) db
        = Inr db1" and wr: "write_balance balance v db1 = Inr db'"
    using ok by (auto simp: restore_buckets_def Let_def cmd_ok)
  note g = get_balance_Inr[OF gb]
  have all: "after_pay_down (bl_balance balance) amount = amount"
    using bal g(3) by (simp add: after_pay_down_def)
  obtain rest db0 where loop: "restore_loop targets amount db = Inr (rest, db0)"
    and tail: "(if 0 < rest then bindE (bucket_target now acc ''perpetual'' None None db0)
        (\<lambda>(fallback, db2). add_to_bucket fallback rest db2) else Inr db0) = Inr db1"
    using restore all by (auto simp: restore_remaining_def cmd_ok)
  note l = restore_loop_amounts[OF loop wf targets sum]
  have pos: "0 \<le> amount" unfolding sum using targets(2) by (intro sum_list_nonneg) (auto simp: less_imp_le)
  have "db1 = db0" using l tail by simp
  moreover have "points_wf db0" using restore_loop_Inr[OF loop wf targets pos] by simp
  ultimately have "pd_buckets db' = pd_buckets db0"
    using write_balance_Inr(2)[of db1, OF _ wr] by (simp add: same_rows_def)
  then show ?thesis using bucket_amount_cong[of db' db0] l by simp
qed

text \<open>Reversing a debit right away: the balance and every bucket are as before it.\<close>

lemma debit_reverse_restores:
  assumes inv: "points_inv db" and valid: "0 < ci_amount i"
    and debit: "debit_points ctx key i db = Inr (dto, db1)" and posted: "db1 \<noteq> db"
    and reverse: "reverse_ledger_entry ctx' (ld_id dto) r db1 = Inr (dto', db2)" and changed: "db2 \<noteq> db1"
  shows "balance_of db2 = balance_of db" and "bucket_amount db2 = bucket_amount db"
proof -
  obtain e allocs where d: "posted e db db1" "ld_id dto = en_id e" "en_amount e = - ci_amount i"
    "en_type e = EN_debit" "pd_allocations db1 = pd_allocations db @ allocation_rows (en_id e) allocs"
    "drawn (en_account e) allocs db1" "\<forall>al\<in>set (pd_allocations db). al_entry al \<noteq> en_id e"
    "bucket_amount db1 = (\<lambda>i. bucket_amount db i - drawn_from allocs i)"
    "sum_list (map snd allocs) = ci_amount i" "ci_amount i \<le> balance_of db (en_account e)"
    by (rule debit_buckets[OF inv valid debit posted]) (rule that; assumption)
  have inv1: "points_inv db1" and mem: "e \<in> set (pd_entries db1)"
    and bal1: "balance_of db1 = (balance_of db)(en_account e := balance_of db (en_account e) - ci_amount i)"
    using d(1,3) by (auto simp: posted_def)
  have wf1: "points_wf db1" using inv1 by (simp add: points_inv_def)
  have by_id: "entry_by_id db1 (en_id e) = Some e"
    unfolding entry_by_id_def by (rule find_key_unique[OF points_wf_parts(4)[OF wf1] mem])
  have undone: "\<exists>x. posted x db1 db2 \<and> en_account x = en_account e \<and> en_amount x = ci_amount i"
    using inv1 reverse
  proof (cases rule: reverse_effect)
    case (fresh e' prog x)
    have "e' = e" using fresh(1) by_id d(2) by simp
    with fresh d(3) show ?thesis by auto
  qed (use changed in simp)
  then show "balance_of db2 = balance_of db"
    using bal1 by (auto simp: posted_def)
  obtain v as dbu where undo: "undo_entry ctx' e db1 = Inr (v, as, dbu)" and tail: "pd_buckets db2 = pd_buckets dbu"
  proof -
    obtain prog where e: "entry_by_id db1 (ld_id dto) = Some e"
      and prog: "program_by_id db1 (en_program e) = Some prog" and allow: "pr_allow_reversal prog"
      and type: "en_type e \<noteq> EN_reversal"
      using reverse by_id d(2)
      by (auto simp: reverse_ledger_entry_def cmd_ok split: option.splits if_splits)
    have None: "find_idempotent db1 (en_program e) (ri_idempotency_key r) = None"
      using reverse e prog allow type changed
      by (auto simp: reverse_ledger_entry_def replay_entry_def cmd_ok split: option.splits)
    obtain acc v as dbu dbi where undo: "undo_entry ctx' e db1 = Inr (v, as, dbu)"
      and ins: "insert_entry ''points.duplicate_reversal'' (reversal_entry ctx' e r dbu) dbu = Inr dbi"
      and emit: "points_emit ctx' ''points.entry_reversed.v1'' acc prog
            [(''entry_id'', id_json (en_id e)),
             (''reversal_id'', id_json (en_id (reversal_entry ctx' e r dbu))),
             (''amount'', JInt (- en_amount e)), (''balance'', JInt v)]
            (add_allocations (en_id (reversal_entry ctx' e r dbu)) as dbi) = Inr db2"
      using reverse e prog allow type None
      by (auto simp: reverse_ledger_entry_def cmd_ok Let_def)
    have "pd_buckets db2 = pd_buckets dbu"
      using points_emit_same[OF emit] ins
      by (auto simp: same_tables_def add_allocations_def insert_entry_def cmd_ok)
    with undo show thesis by (rule that)
  qed
  have rows: "\<forall>t\<in>set allocs. bk_id (fst t) \<in> bk_id ` set (pd_buckets db1)"
    using d(6) by (auto simp: drawn_def)
  note ea = entry_allocations_of[OF d(5,7) rows]
  note sn = entry_allocations_snapshots[OF inv1 mem]
  have restore: "restore_buckets (px_now ctx') (en_account e) (ci_amount i)
      (entry_allocations db1 (en_id e)) db1 = Inr (v, dbu)"
    using undo d(3) valid by (auto simp: undo_entry_def cmd_ok)
  have "0 \<le> balance_of db1 (en_account e)" using bal1 d(10) by simp
  from restore_buckets_amounts[OF inv1 sn this _ restore] ea d(9)
  have "bucket_amount dbu = (\<lambda>i. bucket_amount db1 i + drawn_from allocs i)" by simp
  then show "bucket_amount db2 = bucket_amount db"
    using d(8) bucket_amount_cong[OF tail] by simp
qed

section \<open>The expiration sweep empties every due bucket\<close>

text \<open>What no command changes in a bucket row, and the account and program the sweep looks up.\<close>

definition bucket_shape :: "points_bucket \<Rightarrow> nat \<times> nat \<times> string \<times> time option" where
  "bucket_shape b = (bk_id b, bk_account b, bk_type b, bk_expires_at b)"

definition owner_program :: "points_db \<Rightarrow> nat \<Rightarrow> points_program option" where
  "owner_program db acc = Option.bind (account_by_id db acc) (\<lambda>a. program_by_id db (ac_program a))"

lemma write_balance_owner:
  assumes "write_balance snap v db = Inr db'"
  shows "owner_program db' = owner_program db"
proof -
  obtain db1 where 1: "cas_balance snap v db = Some db1"
    and 2: "db' = sync_account_state (bl_account snap) v db1"
    using assms by (auto simp: write_balance_def cmd_ok)
  have "owner_program db1 = owner_program db"
    using 1 by (auto simp: cas_balance_def owner_program_def account_by_id_def program_by_id_def
        Let_def fun_eq_iff split: if_splits)
  moreover have "owner_program db' = owner_program db1"
    by (auto simp: 2 sync_account_state_def owner_program_def account_by_id_def program_by_id_def
        find_update_where fun_eq_iff split: Option.bind_split)
  ultimately show ?thesis by simp
qed

lemma cas_bucket_shape:
  "cas_bucket snap guard f db = Some db' \<Longrightarrow>
    map bucket_shape (pd_buckets db') = map bucket_shape (pd_buckets db)
    \<and> owner_program db' = owner_program db"
  by (auto simp: cas_bucket_def Let_def map_update_where bucket_shape_def owner_program_def
      account_by_id_def program_by_id_def fun_eq_iff split: if_splits)

lemma expire_bucket_rows:
  assumes inv: "points_inv db" and b: "b \<in> set (pd_buckets db)" and pos: "0 < bk_amount b"
    and ok: "expire_bucket ctx b db = Inr (es, db')"
  shows "map bucket_shape (pd_buckets db') = map bucket_shape (pd_buckets db)
    \<and> owner_program db' = owner_program db
    \<and> (if owner_program db (bk_account b) = None then db' = db \<and> es = []
       else bucket_amount db' = (bucket_amount db)(bk_id b := 0))"
proof (cases "owner_program db (bk_account b)")
  case None
  then show ?thesis
    using ok by (auto simp: owner_program_def expire_bucket_def split: option.splits)
next
  case (Some prog)
  obtain acc where acc: "account_by_id db (bk_account b) = Some acc"
    and prog: "program_by_id db (ac_program acc) = Some prog"
    using Some by (auto simp: owner_program_def bind_eq_Some_conv)
  have wf: "points_wf db" using inv by (simp add: points_inv_def)
  obtain e db1 balance db3 db4 key vals where
    ins: "insert_entry ''points.expiration_conflict'' e db = Inr db1"
    and bal: "get_balance (add_allocations (en_id e) [(b, bk_amount b)] db1) (ac_id acc) = Inr balance"
    and wr: "write_balance balance (bl_balance balance - bk_amount b)
        (add_allocations (en_id e) [(b, bk_amount b)] db1) = Inr db3"
    and cas: "cas_bucket b (\<lambda>_. True) (\<lambda>_. 0) db3 = Some db4"
    and emit: "points_emit ctx key acc prog vals db4 = Inr db'"
    and e: "e = expiration_entry ctx prog acc b db"
    using ok acc prog by (auto simp: expire_bucket_def cmd_ok Let_def)
  let ?db2 = "add_allocations (en_id e) [(b, bk_amount b)] db1"
  have mem: "acc \<in> set (pd_accounts db)" "ac_id acc = bk_account b"
    using acc by (auto simp: account_by_id_def dest: find_Some_mem)
  have eid: "en_id e = pd_next_id db" "en_account e = bk_account b"
    by (simp_all add: e expiration_entry_def mem)
  have ids: "en_account e \<in> account_ids db" using mem eid(2) by (metis account_ids_def image_eqI)
  have dr: "drawn (en_account e) [(b, bk_amount b)] db"
    using drawn_member[OF wf b pos] eid(2) by simp
  note wf2 = record_entry_wf[OF wf ids eid(1) ins dr]
  note w = write_balance_Inr(1,2)[OF wf2 wr]
  have rows2: "pd_buckets ?db2 = pd_buckets db" "owner_program ?db2 = owner_program db"
    using ins by (auto simp: insert_entry_def add_allocations_def owner_program_def account_by_id_def
        program_by_id_def fun_eq_iff cmd_ok)
  have rows3: "pd_buckets db3 = pd_buckets db" "owner_program db3 = owner_program db"
    using w(2) rows2 write_balance_owner[OF wr] by (simp_all add: same_rows_def)
  have b3: "b \<in> set (pd_buckets db3)" using b rows3 by simp
  have "pd_buckets db' = pd_buckets db4" "owner_program db' = owner_program db4"
    using points_emit_same[OF emit] by (simp_all add: same_tables_def owner_program_def
        account_by_id_def program_by_id_def fun_eq_iff)
  with cas_bucket_shape[OF cas] cas_bucket_amount[OF w(1) b3 cas] rows3 bucket_amount_cong[of db3 db]
    bucket_amount_cong[of db' db4] Some
  show ?thesis by simp
qed

lemma expire_all_rows:
  assumes "points_inv db" and "set bs \<subseteq> set (pd_buckets db)" and "distinct (map bk_id bs)"
    and "\<forall>b\<in>set bs. 0 < bk_amount b" and "expire_all ctx bs db = Inr (es, db')"
  shows "map bucket_shape (pd_buckets db') = map bucket_shape (pd_buckets db)
    \<and> owner_program db' = owner_program db
    \<and> (\<forall>i. bucket_amount db' i =
         (if \<exists>b\<in>set bs. bk_id b = i \<and> owner_program db (bk_account b) \<noteq> None then 0
          else bucket_amount db i))"
  using assms
proof (induction bs arbitrary: db es)
  case Nil
  then show ?case by simp
next
  case (Cons b bs)
  obtain es1 db1 es2 where 1: "expire_bucket ctx b db = Inr (es1, db1)"
    and 2: "expire_all ctx bs db1 = Inr (es2, db')"
    using Cons.prems(5) by (auto simp: cmd_ok)
  have b: "b \<in> set (pd_buckets db)" "0 < bk_amount b" using Cons.prems by auto
  note r = expire_bucket_rows[OF Cons.prems(1) b 1]
  have "points_inv db1 \<and> (\<forall>x. x \<in> set (pd_buckets db) \<longrightarrow> bk_id x \<noteq> bk_id b \<longrightarrow> x \<in> set (pd_buckets db1))"
    using Cons.prems(1) b 1
    by (cases rule: expire_bucket_Inr) (use Cons.prems(1) in \<open>auto simp: posted_def\<close>)
  moreover from this have "set bs \<subseteq> set (pd_buckets db1)"
    using Cons.prems(2,3) by (auto simp: image_iff) (metis subsetD)
  ultimately have "map bucket_shape (pd_buckets db') = map bucket_shape (pd_buckets db1)
    \<and> owner_program db' = owner_program db1
    \<and> (\<forall>i. bucket_amount db' i =
         (if \<exists>b\<in>set bs. bk_id b = i \<and> owner_program db1 (bk_account b) \<noteq> None then 0
          else bucket_amount db1 i))"
    using Cons.IH[OF _ _ _ _ 2] Cons.prems(3,4) by simp
  with r show ?case by (auto split: if_splits)
qed

lemma expire_all_skips:
  assumes "\<forall>b\<in>set bs. owner_program db (bk_account b) = None"
  shows "expire_all ctx bs db = Inr ([], db)"
proof -
  have "expire_bucket ctx b db = Inr ([], db)" if "owner_program db (bk_account b) = None" for b
    using that by (auto simp: owner_program_def expire_bucket_def split: option.splits)
  with assms show ?thesis by (induction bs) simp_all
qed

text \<open>After the sweep every due bucket left has no program, and a second sweep does nothing.\<close>

lemma expire_buckets_complete:
  assumes inv: "points_inv db" and ok: "expire_buckets ctx db = Inr (es, db')"
    and b: "b \<in> set (pd_buckets db')" and due: "bucket_expired (px_now ctx) b"
  shows "owner_program db' (bk_account b) = None"
proof -
  let ?due = "due_buckets (px_now ctx) db"
  have sub: "set ?due \<subseteq> set (pd_buckets db)" "\<forall>b\<in>set ?due. 0 < bk_amount b"
    by (auto simp: due_buckets_mem bucket_expired_def)
  have wf: "points_wf db" using inv by (simp add: points_inv_def)
  from expire_all_rows[OF inv sub(1) due_buckets_distinct[OF wf] sub(2) ok[unfolded expire_buckets_def]]
  have shape: "map bucket_shape (pd_buckets db') = map bucket_shape (pd_buckets db)"
    and owner: "owner_program db' = owner_program db"
    and amount: "bucket_amount db' (bk_id b) =
         (if \<exists>c\<in>set ?due. bk_id c = bk_id b \<and> owner_program db (bk_account c) \<noteq> None then 0
          else bucket_amount db (bk_id b))" by simp_all
  obtain new where chain: "posted_list new db db'"
    using expire_buckets_Inr[OF inv ok] by blast
  have wf': "points_wf db'" using posted_list_inv[OF chain inv] by (simp add: points_inv_def)
  have "bucket_shape b \<in> set (map bucket_shape (pd_buckets db))"
    unfolding shape[symmetric] using b by simp
  then obtain c where c: "c \<in> set (pd_buckets db)" "bucket_shape c = bucket_shape b" by auto
  have "0 < bk_amount b" using due by (simp add: bucket_expired_def)
  moreover note bucket_amount_row[OF wf' b] bucket_amount_row[OF wf c(1)]
  ultimately have same: "bk_amount c = bk_amount b"
    and skipped: "\<not> (\<exists>c\<in>set ?due. bk_id c = bk_id b \<and> owner_program db (bk_account c) \<noteq> None)"
    using amount c(2) by (auto simp: bucket_shape_def split: if_splits)
  have "bucket_expired (px_now ctx) c"
    using due c(2) same by (auto simp: bucket_expired_def bucket_shape_def)
  with c(1) have "c \<in> set ?due" by (simp add: due_buckets_mem)
  with skipped c(2) owner show ?thesis by (auto simp: bucket_shape_def)
qed

lemma expire_buckets_again:
  assumes "points_inv db" and "expire_buckets ctx db = Inr (es, db')"
    and "px_now ctx' = px_now ctx"
  shows "expire_buckets ctx' db' = Inr ([], db')"
  unfolding expire_buckets_def
  by (rule expire_all_skips) (auto simp: due_buckets_mem assms(3) intro: expire_buckets_complete[OF assms(1,2)])

end
