(* ===== verification/Points_Samples.thy ===== *)
theory Points_Samples
  imports Points_Reachable
begin

text \<open>
  A small concrete run of the points commands, on which the properties are instantiated: one
  program, three behaviors, one subject that is credited twice, debited and reversed.
\<close>

definition sample_behavior :: "string \<Rightarrow> direction \<Rightarrow> int option \<Rightarrow> behavior_spec" where
  "sample_behavior key dir expiry = \<lparr>bs_key = key, bs_version = ''1'', bs_program_key = ''credit'',
     bs_direction = dir, bs_fixed_amount = None, bs_min_amount = 1, bs_max_amount = 1000,
     bs_cooldown_seconds = None, bs_daily_limit = Some 5, bs_business_timezone = ''UTC'',
     bs_expiration_days = expiry, bs_allowed_source_types = [''order'']\<rparr>"

definition sample_behaviors :: "behavior_spec registry" where
  "sample_behaviors = \<lparr>reg_items =
     [(''quest.done'', sample_behavior ''quest.done'' Dir_credit None),
      (''event.bonus'', sample_behavior ''event.bonus'' Dir_credit (Some 30)),
      (''shop.buy'', sample_behavior ''shop.buy'' Dir_debit None)], reg_frozen = True\<rparr>"

definition sample_schemas :: "(dict \<Rightarrow> exn + unit) registry" where
  "sample_schemas = \<lparr>reg_items = map (\<lambda>k. (k, \<lambda>_. Inr ()))
     (''audit.entry.recorded.v1'' # map fst points_event_fields), reg_frozen = True\<rparr>"

definition sample_ctx :: "time \<Rightarrow> points_ctx" where
  "sample_ctx t = \<lparr>px_now = t, px_schemas = sample_schemas, px_behaviors = sample_behaviors,
     px_permissions = [''points.adjust'', ''points.freeze'', ''points.rebuild''],
     px_actor_id = Some ''u1'', px_trace_id = None,
     px_day_start = (\<lambda>_ now. now - now mod days 1)\<rparr>"

definition sample_db :: points_db where
  "sample_db = \<lparr>pd_programs = [\<lparr>pr_id = 0, pr_key = ''credit'', pr_display_name = ''Credit'',
       pr_unit = ''points'', pr_active = True, pr_allow_reversal = True, pr_version = 1\<rparr>], pd_accounts = [], pd_balances = [], pd_buckets = [],
     pd_allocations = [], pd_entries = [], pd_outbox = [], pd_next_id = 1\<rparr>"

definition sample_input :: "int \<Rightarrow> string \<Rightarrow> credit_debit_input" where
  "sample_input n key = \<lparr>ci_subject_type = ''user'', ci_subject_id = ''u1'', ci_amount = n,
     ci_source_type = ''order'', ci_source_id = ''o1'', ci_idempotency_key = key,
     ci_actor_type = ''user'', ci_actor_id = None, ci_metadata = [], ci_expires_at = None\<rparr>"

text \<open>The database after a command, for a command that succeeds.\<close>

definition after :: "exn + ('r \<times> points_db) \<Rightarrow> points_db" where
  "after r = (case r of Inr (_, db) \<Rightarrow> db | Inl _ \<Rightarrow> sample_db)"

definition result :: "exn + ('r \<times> points_db) \<Rightarrow> 'r option" where
  "result r = (case r of Inr (x, _) \<Rightarrow> Some x | Inl _ \<Rightarrow> None)"

definition sample_credited :: points_db where
  "sample_credited = after (credit_points (sample_ctx 0) ''quest.done'' (sample_input 50 ''k1'')
     sample_db)"

definition sample_bonus :: points_db where
  "sample_bonus = after (credit_points (sample_ctx 1000) ''event.bonus'' (sample_input 30 ''k2'')
     sample_credited)"

definition sample_debited :: points_db where
  "sample_debited = after (debit_points (sample_ctx 2000) ''shop.buy'' (sample_input 60 ''k3'')
     sample_bonus)"

lemma result_Inr: "result r = Some x \<Longrightarrow> r = Inr (x, after r)"
  by (cases r) (auto simp: result_def after_def)

lemma sample_steps_run:
  "result (credit_points (sample_ctx 0) ''quest.done'' (sample_input 50 ''k1'') sample_db) \<noteq> None
   \<and> result (credit_points (sample_ctx 1000) ''event.bonus'' (sample_input 30 ''k2'') sample_credited) \<noteq> None
   \<and> result (debit_points (sample_ctx 2000) ''shop.buy'' (sample_input 60 ''k3'') sample_bonus) \<noteq> None"
  by code_simp

end
