(* ===== verification/Kernel_Page.thy ===== *)
theory Kernel_Page
  imports Kernel_Errors
begin

text \<open>
  Pagination (\<^verbatim>\<open>inc/kernel/db/page.py\<close>). The statement of the caller, with its filter and its
  final ordering, is the list of the rows it selects.
\<close>

record 'r result_page =
  page_items :: "'r list"
  page_total :: nat
  page_number :: int
  page_size :: int

definition max_page_size :: int where
  "max_page_size = 200"

definition fetch_page :: "'r list \<Rightarrow> int \<Rightarrow> int \<Rightarrow> exn + 'r result_page" where
  "fetch_page rows page n =
     bindE (requireE (1 \<le> page) (PyException ''ValueError'')) (\<lambda>_.
     bindE (requireE (1 \<le> n \<and> n \<le> max_page_size) (PyException ''ValueError'')) (\<lambda>_.
     Inr \<lparr>page_items = take (nat n) (drop (nat ((page - 1) * n)) rows), page_total = length rows,
       page_number = page, page_size = n\<rparr>))"

text \<open>The number of pages a reader derives from the total.\<close>

definition page_count :: "nat \<Rightarrow> int \<Rightarrow> nat" where
  "page_count cnt n = (cnt + nat n - 1) div nat n"

text \<open>Cutting a list into consecutive pieces.\<close>

lemma concat_pieces: "concat (map (\<lambda>i. take n (drop (i * n) xs)) [0..<k]) = take (k * n) xs"
proof (induction k)
  case (Suc k)
  with take_add[of "k * n" n xs] show ?case by (simp add: add.commute)
qed simp

lemma page_count_covers: "0 < n \<Longrightarrow> cnt \<le> page_count cnt n * nat n"
proof -
  assume "0 < n"
  then have n: "0 < nat n" by simp
  have "cnt + nat n - 1 = page_count cnt n * nat n + (cnt + nat n - 1) mod nat n"
    by (simp add: page_count_def)
  moreover have "(cnt + nat n - 1) mod nat n < nat n" using n by simp
  ultimately show ?thesis by linarith
qed

lemma fetch_page_Inr [cmd_ok]:
  "fetch_page rows page n = Inr p \<longleftrightarrow> 1 \<le> page \<and> 1 \<le> n \<and> n \<le> max_page_size
     \<and> p = \<lparr>page_items = take (nat n) (drop (nat ((page - 1) * n)) rows), page_total = length rows,
         page_number = page, page_size = n\<rparr>"
  by (auto simp: fetch_page_def cmd_ok)

text \<open>The pages of a reader that starts at one and stops at \<open>page_count\<close> are the whole list.\<close>

lemma pages_are_the_list:
  assumes "1 \<le> n" and "n \<le> max_page_size"
  shows "concat (map (\<lambda>i. page_items (projr (fetch_page rows (int i + 1) n)))
           [0..<page_count (length rows) n]) = rows"
proof -
  have "nat (int i * n) = i * nat n" for i
    using assms(1) by (simp add: nat_mult_distrib)
  then have "page_items (projr (fetch_page rows (int i + 1) n)) = take (nat n) (drop (i * nat n) rows)" for i
    using assms by (simp add: fetch_page_def)
  then have "concat (map (\<lambda>i. page_items (projr (fetch_page rows (int i + 1) n)))
      [0..<page_count (length rows) n]) = take (page_count (length rows) n * nat n) rows"
    by (simp add: concat_pieces)
  with page_count_covers[of n "length rows"] assms(1) show ?thesis by simp
qed

section \<open>Statistics\<close>

text \<open>
  The counts every statistics provider of a capability answers
  (\<^verbatim>\<open>inc/kernel/observability/statistics.py\<close>), and the windows it accepts.
\<close>

definition count_created :: "('r \<Rightarrow> time) \<Rightarrow> time \<Rightarrow> int \<Rightarrow> 'r list \<Rightarrow> nat \<times> nat" where
  "count_created created now window rows =
     (length rows, length (filter (\<lambda>r. now - days window \<le> created r) rows))"

definition window_days :: "string \<Rightarrow> exn + int" where
  "window_days window =
     someE (dget [(''24h'', 1), (''7d'', 7), (''30d'', 30)] window) (PyException ''KeyError'')"

end
