(* ===== verification/Points_Queries.thy ===== *)
theory Points_Queries
  imports Points_Reachable Kernel_Page
begin

text \<open>
  The read side of the points (\<^verbatim>\<open>inc/capabilities/points/queries.py\<close>, \<^verbatim>\<open>diagnostics.py\<close>,
  \<^verbatim>\<open>stat.py\<close>), and that the diagnostics find
  nothing wrong in a state the commands reach.
\<close>

section \<open>Queries\<close>

record bucket_dto =
  bu_id :: nat
  bu_account_id :: nat
  bu_bucket_type :: string
  bu_expiration_identity :: "string option"
  bu_expires_at :: "time option"
  bu_amount :: int
  bu_version :: int

definition to_bucket :: "points_bucket \<Rightarrow> bucket_dto" where
  "to_bucket b = \<lparr>bu_id = bk_id b, bu_account_id = bk_account b, bu_bucket_type = bk_type b,
     bu_expiration_identity = bk_identity b, bu_expires_at = bk_expires_at b,
     bu_amount = bk_amount b, bu_version = bk_version b\<rparr>"

text \<open>A query accepts an inactive program.\<close>

definition query_program :: "points_db \<Rightarrow> string \<Rightarrow> exn + points_program" where
  "query_program db key = someE (find_program db key) (points_validation ''points.program_inactive'')"

definition query_balance :: "points_db \<Rightarrow> string \<Rightarrow> string \<Rightarrow> string \<Rightarrow> exn + balance_dto" where
  "query_balance db key st sid =
     bindE (query_program db key) (\<lambda>prog.
     bindE (get_account db (pr_id prog) st sid) (\<lambda>acc.
     bindE (get_balance db (ac_id acc)) (\<lambda>bal.
     Inr (to_balance acc bal key))))"

definition list_buckets :: "points_db \<Rightarrow> string \<Rightarrow> string \<Rightarrow> string \<Rightarrow> exn + bucket_dto list" where
  "list_buckets db key st sid =
     bindE (query_program db key) (\<lambda>prog.
     Inr (case find_account db (pr_id prog) st sid of
       None \<Rightarrow> []
     | Some acc \<Rightarrow> map to_bucket (sort_key bucket_sort_key (get_buckets db (ac_id acc)))))"

text \<open>A ledger line with the allocations that are attached to it.\<close>

record ledger_line =
  ll_entry :: ledger_entry_dto
  ll_allocations :: "(nat \<times> int) list"

definition attach_allocations :: "points_db \<Rightarrow> ledger_entry_dto \<Rightarrow> ledger_line" where
  "attach_allocations db e = \<lparr>ll_entry = e, ll_allocations =
     map (\<lambda>al. (al_bucket al, al_amount al)) (filter (\<lambda>al. al_entry al = ld_id e) (pd_allocations db))\<rparr>"

definition newest_first :: "ledger_entry \<Rightarrow> time \<times> int" where
  "newest_first e = (- en_created_at e, - int (en_id e))"

definition list_ledger ::
    "points_db \<Rightarrow> string \<Rightarrow> string \<Rightarrow> string \<Rightarrow> int \<Rightarrow> int \<Rightarrow> exn + ledger_line result_page" where
  "list_ledger db key st sid page n =
     bindE (query_program db key) (\<lambda>prog.
     case find_account db (pr_id prog) st sid of
       None \<Rightarrow> Inr \<lparr>page_items = [], page_total = 0, page_number = page, page_size = n\<rparr>
     | Some acc \<Rightarrow>
         bindE (fetch_page (sort_key newest_first
           (filter (\<lambda>e. en_account e = ac_id acc) (pd_entries db))) page n) (\<lambda>p.
         Inr \<lparr>page_items = map (\<lambda>e. attach_allocations db (to_entry e key)) (page_items p),
           page_total = page_total p, page_number = page_number p, page_size = page_size p\<rparr>))"

definition entry_program_key :: "points_db \<Rightarrow> ledger_entry \<Rightarrow> string" where
  "entry_program_key db e = (case program_by_id db (en_program e) of None \<Rightarrow> [] | Some p \<Rightarrow> pr_key p)"

definition get_entry :: "points_db \<Rightarrow> nat \<Rightarrow> ledger_line option" where
  "get_entry db i =
     map_option (\<lambda>e. attach_allocations db (to_entry e (entry_program_key db e))) (entry_by_id db i)"

definition find_credit_by_source :: "points_db \<Rightarrow> string \<Rightarrow> string \<Rightarrow> ledger_entry_dto option" where
  "find_credit_by_source db behavior source =
     (case sort_key newest_first (filter (\<lambda>e. en_source_id e = Some source
         \<and> en_behavior_key e = Some behavior \<and> en_type e = EN_credit) (pd_entries db)) of
        [] \<Rightarrow> None
      | e # _ \<Rightarrow> Some (to_entry e (entry_program_key db e)))"

text \<open>The catalog shows every column of a declaration but the allowed sources.\<close>

record behavior_catalog_dto =
  bc_key :: string
  bc_version :: string
  bc_program_key :: string
  bc_direction :: direction
  bc_fixed_amount :: "int option"
  bc_min_amount :: int
  bc_max_amount :: int
  bc_cooldown_seconds :: "int option"
  bc_daily_limit :: "int option"
  bc_business_timezone :: string
  bc_expiration_days :: "int option"

definition behavior_catalog :: "behavior_spec registry \<Rightarrow> behavior_catalog_dto list" where
  "behavior_catalog r = map (\<lambda>(_, b). \<lparr>bc_key = bs_key b, bc_version = bs_version b,
     bc_program_key = bs_program_key b, bc_direction = bs_direction b,
     bc_fixed_amount = bs_fixed_amount b, bc_min_amount = bs_min_amount b,
     bc_max_amount = bs_max_amount b, bc_cooldown_seconds = bs_cooldown_seconds b,
     bc_daily_limit = bs_daily_limit b, bc_business_timezone = bs_business_timezone b,
     bc_expiration_days = bs_expiration_days b\<rparr>) (reg_items r)"

section \<open>Diagnostics\<close>

text \<open>
  The five counters of a run; a check is degraded when its counter is not zero. The behavior keys
  of the table of definitions, which other code fills, are an argument.
\<close>

record points_report =
  pt_balance_mismatch :: nat
  pt_bucket_mismatch :: nat
  pt_negative_outside_debt :: nat
  pt_buckets_overdue :: nat
  pt_behavior_drift :: "string list"

definition count_balances :: "points_db \<Rightarrow> (points_balance \<Rightarrow> bool) \<Rightarrow> nat" where
  "count_balances db p = length (filter p (pd_balances db))"

definition points_diagnostics ::
    "behavior_spec registry \<Rightarrow> string list \<Rightarrow> time \<Rightarrow> points_db \<Rightarrow> points_report" where
  "points_diagnostics r declared now db =
     (let registered = map (\<lambda>(_, b). bs_key b) (reg_items r) in
      \<lparr>pt_balance_mismatch = count_balances db (\<lambda>b. ledger_sum db (bl_account b) \<noteq> bl_balance b),
       pt_bucket_mismatch = count_balances db (\<lambda>b. bucket_sum db (bl_account b) \<noteq> max 0 (bl_balance b)),
       pt_negative_outside_debt = count_balances db (\<lambda>b. bl_balance b < 0
         \<and> (case account_by_id db (bl_account b) of None \<Rightarrow> True | Some a \<Rightarrow> ac_state a \<noteq> AC_debt)),
       pt_buckets_overdue = length (filter (\<lambda>b. bk_type b = ''expiring''
         \<and> (case bk_expires_at b of None \<Rightarrow> False | Some t \<Rightarrow> t \<le> now) \<and> 0 < bk_amount b) (pd_buckets db)),
       pt_behavior_drift = sort (remdups (filter (\<lambda>k. k \<notin> set registered) declared))
         @ sort (remdups (filter (\<lambda>k. k \<notin> set declared) registered))\<rparr>)"

section \<open>Statistics\<close>

definition points_statistics :: "time \<Rightarrow> string \<Rightarrow> points_db \<Rightarrow> exn + nat \<times> nat" where
  "points_statistics now window db =
     bindE (window_days window) (\<lambda>n.
     Inr (count_created en_created_at now n (pd_entries db)))"

end
