(* ===== verification/Points_Admin.thy ===== *)
theory Points_Admin
  imports Points_Queries
begin

text \<open>
  The administration of the points (\<^verbatim>\<open>inc/capabilities/points/admin.py\<close>): programs, their
  activation, the summary and the list of accounts. Row ids grow with the creation times, so that
  the accounts are ordered by their ids.
\<close>

section \<open>Programs\<close>

record program_dto =
  pg_id :: nat
  pg_program_key :: string
  pg_display_name :: string
  pg_unit :: string
  pg_active :: bool
  pg_allow_admin_reversal :: bool
  pg_version :: int

definition to_program :: "points_program \<Rightarrow> program_dto" where
  "to_program p = \<lparr>pg_id = pr_id p, pg_program_key = pr_key p, pg_display_name = pr_display_name p,
     pg_unit = pr_unit p, pg_active = pr_active p, pg_allow_admin_reversal = pr_allow_reversal p,
     pg_version = pr_version p\<rparr>"

record program_input =
  pc_program_key :: string
  pc_display_name :: string
  pc_unit :: string
  pc_allow_admin_reversal :: bool

definition program_key_ok :: "string \<Rightarrow> bool" where
  "program_key_ok k \<longleftrightarrow> k \<noteq> [] \<and> length k \<le> 100 \<and> (lower_char (hd k) \<or> digit_char (hd k))
     \<and> list_all (\<lambda>c. key_char c \<or> c = CHR ''-'') k"

definition program_input_ok :: "program_input \<Rightarrow> bool" where
  "program_input_ok i \<longleftrightarrow> program_key_ok (pc_program_key i)
     \<and> 1 \<le> length (pc_display_name i) \<and> length (pc_display_name i) \<le> 200
     \<and> 1 \<le> length (pc_unit i) \<and> length (pc_unit i) \<le> 32"

text \<open>A patch names the fields it sets; an explicit null is refused by the validator.\<close>

record program_patch =
  pp_display_name :: "string option"
  pp_unit :: "string option"
  pp_allow_admin_reversal :: "bool option"
  pp_expected_version :: int

definition program_patch_ok :: "program_patch \<Rightarrow> bool" where
  "program_patch_ok b \<longleftrightarrow> 1 \<le> pp_expected_version b
     \<and> (case pp_display_name b of None \<Rightarrow> True | Some n \<Rightarrow> 1 \<le> length n \<and> length n \<le> 200)
     \<and> (case pp_unit b of None \<Rightarrow> True | Some u \<Rightarrow> 1 \<le> length u \<and> length u \<le> 32)"

definition patched_fields :: "program_patch \<Rightarrow> string list" where
  "patched_fields b = (if pp_allow_admin_reversal b = None then [] else [''allow_admin_reversal''])
     @ (if pp_display_name b = None then [] else [''display_name''])
     @ (if pp_unit b = None then [] else [''unit''])"

definition patch_program :: "program_patch \<Rightarrow> points_program \<Rightarrow> points_program" where
  "patch_program b p = p\<lparr>
     pr_display_name := (case pp_display_name b of None \<Rightarrow> pr_display_name p | Some n \<Rightarrow> n),
     pr_unit := (case pp_unit b of None \<Rightarrow> pr_unit p | Some u \<Rightarrow> u),
     pr_allow_reversal := (case pp_allow_admin_reversal b of None \<Rightarrow> pr_allow_reversal p | Some v \<Rightarrow> v),
     pr_version := pr_version p + 1\<rparr>"

definition list_programs :: "points_db \<Rightarrow> program_dto list" where
  "list_programs db = map to_program (sort_key pr_key (pd_programs db))"

definition program_error :: "string \<Rightarrow> exn" where
  "program_error c = KernelError c (if c = ''points.program_not_found'' then NOT_FOUND else CONFLICT)"

definition save_program :: "points_program \<Rightarrow> points_db \<Rightarrow> points_db" where
  "save_program p db =
     db\<lparr>pd_programs := update_where (\<lambda>x. pr_id x = pr_id p) (\<lambda>_. p) (pd_programs db)\<rparr>"

definition admin_audit ::
    "points_ctx \<Rightarrow> string \<Rightarrow> string \<Rightarrow> string \<Rightarrow> dict \<Rightarrow> points_db \<Rightarrow> exn + points_db" where
  "admin_audit ctx actor action target details db =
     points_append ctx ''audit.entry.recorded.v1'' target
       [(''action'', JStr action), (''outcome'', JStr ''success''),
        (''occurred_at'', JTime (px_now ctx)), (''actor_type'', JStr ''user''),
        (''actor_id'', JStr actor), (''target_type'', JStr ''points_program''),
        (''target_id'', JStr target), (''trace_id'', opt_json (px_trace_id ctx)),
        (''details'', JObj details)] db"

definition create_program ::
    "points_ctx \<Rightarrow> string \<Rightarrow> program_input \<Rightarrow> points_db \<Rightarrow> exn + program_dto \<times> points_db" where
  "create_program ctx actor i db =
     (let p = \<lparr>pr_id = pd_next_id db, pr_key = pc_program_key i, pr_display_name = pc_display_name i,
           pr_unit = pc_unit i, pr_active = True, pr_allow_reversal = pc_allow_admin_reversal i,
           pr_version = 1\<rparr> in
      bindE (requireE (find_program db (pr_key p) = None) (program_error ''points.program_exists'')) (\<lambda>_.
      bindE (admin_audit ctx actor ''points.program.created'' (show_nat (pr_id p))
        [(''program_key'', JStr (pr_key p))]
        (db\<lparr>pd_programs := pd_programs db @ [p], pd_next_id := Suc (pd_next_id db)\<rparr>)) (\<lambda>db1.
      Inr (to_program p, db1))))"

definition has_accounts :: "points_db \<Rightarrow> nat \<Rightarrow> bool" where
  "has_accounts db i = list_ex (\<lambda>a. ac_program a = i) (pd_accounts db)"

definition update_program ::
    "points_ctx \<Rightarrow> string \<Rightarrow> string \<Rightarrow> program_patch \<Rightarrow> points_db \<Rightarrow> exn + program_dto \<times> points_db" where
  "update_program ctx actor key b db =
     bindE (someE (find_program db key) (program_error ''points.program_not_found'')) (\<lambda>p.
     bindE (requireE (pp_expected_version b = pr_version p)
       (program_error ''points.program_version_conflict'')) (\<lambda>_.
     bindE (requireE (\<not> ((case pp_unit b of None \<Rightarrow> False | Some u \<Rightarrow> u \<noteq> pr_unit p)
         \<and> has_accounts db (pr_id p))) (program_error ''points.program_unit_immutable'')) (\<lambda>_.
     let p' = patch_program b p in
     bindE (admin_audit ctx actor ''points.program.updated'' (show_nat (pr_id p))
       [(''program_key'', JStr (pr_key p)), (''changed'', JList (map JStr (patched_fields b)))]
       (save_program p' db)) (\<lambda>db1.
     Inr (to_program p', db1)))))"

definition nonzero_balance :: "points_db \<Rightarrow> nat \<Rightarrow> bool" where
  "nonzero_balance db i = list_ex (\<lambda>b. bl_balance b \<noteq> 0
     \<and> list_ex (\<lambda>a. ac_id a = bl_account b \<and> ac_program a = i) (pd_accounts db)) (pd_balances db)"

definition set_program_status ::
    "points_ctx \<Rightarrow> string \<Rightarrow> string \<Rightarrow> bool \<Rightarrow> int \<Rightarrow> string \<Rightarrow> string \<Rightarrow> points_db
      \<Rightarrow> exn + program_dto \<times> points_db" where
  "set_program_status ctx actor key active v reason protected db =
     bindE (requireE (\<not> (key = protected \<and> \<not> active)) (program_error ''points.credit_protected'')) (\<lambda>_.
     bindE (someE (find_program db key) (program_error ''points.program_not_found'')) (\<lambda>p.
     bindE (requireE (pr_version p = v) (program_error ''points.program_version_conflict'')) (\<lambda>_.
     bindE (if active then Inr () else
        bindE (requireE (\<not> list_ex (\<lambda>(_, s). bs_program_key s = pr_key p) (reg_items (px_behaviors ctx)))
          (program_error ''points.program_behavior_active'')) (\<lambda>_.
        requireE (\<not> nonzero_balance db (pr_id p)) (program_error ''points.program_nonzero_balance''))) (\<lambda>_.
     let p' = p\<lparr>pr_active := active, pr_version := pr_version p + 1\<rparr> in
     bindE (admin_audit ctx actor (''points.program.'' @ (if active then ''active'' else ''inactive''))
       (show_nat (pr_id p)) [(''program_key'', JStr key), (''reason'', JStr reason)]
       (save_program p' db)) (\<lambda>db1.
     Inr (to_program p', db1))))))"

section \<open>Reports\<close>

record points_summary =
  pv_program_count :: nat
  pv_account_count :: nat
  pv_active_count :: nat
  pv_frozen_count :: nat
  pv_debt_count :: nat
  pv_total_balance :: int

definition count_accounts :: "points_db \<Rightarrow> account_state \<Rightarrow> nat" where
  "count_accounts db st = length (filter (\<lambda>a. ac_state a = st) (pd_accounts db))"

definition points_summary_of :: "points_db \<Rightarrow> points_summary" where
  "points_summary_of db = \<lparr>pv_program_count = length (pd_programs db),
     pv_account_count = length (pd_accounts db), pv_active_count = count_accounts db AC_active,
     pv_frozen_count = count_accounts db AC_frozen, pv_debt_count = count_accounts db AC_debt,
     pv_total_balance = sum_list (map bl_balance (pd_balances db))\<rparr>"

text \<open>The joins drop an account without a program or a balance.\<close>

definition account_records :: "points_db \<Rightarrow> string option \<Rightarrow> account_state option \<Rightarrow> balance_dto list" where
  "account_records db key st = List.map_filter (\<lambda>a.
     case program_by_id db (ac_program a) of
       None \<Rightarrow> None
     | Some p \<Rightarrow> (case find_balance db (ac_id a) of
         None \<Rightarrow> None
       | Some b \<Rightarrow> if (case key of None \<Rightarrow> True | Some k \<Rightarrow> k = [] \<or> pr_key p = k)
             \<and> (case st of None \<Rightarrow> True | Some s \<Rightarrow> ac_state a = s)
           then Some (to_balance a b (pr_key p)) else None)) (pd_accounts db)"

text \<open>The page is cut by \<^verbatim>\<open>offset\<close> and \<^verbatim>\<open>limit\<close> without a check; a negative number is an error.\<close>

definition list_accounts ::
    "points_db \<Rightarrow> string option \<Rightarrow> account_state option \<Rightarrow> int \<Rightarrow> int \<Rightarrow> exn + balance_dto result_page" where
  "list_accounts db key st page n =
     (let rows = sort_key (\<lambda>r. - int (bd_account_id r)) (account_records db key st) in
      bindE (requireE (0 \<le> (page - 1) * n \<and> 0 \<le> n) (PyException ''DBAPIError'')) (\<lambda>_.
      Inr \<lparr>page_items = take (nat n) (drop (nat ((page - 1) * n)) rows), page_total = length rows,
        page_number = page, page_size = n\<rparr>))"

definition program_summary :: "points_db \<Rightarrow> string \<Rightarrow> exn + program_dto \<times> nat" where
  "program_summary db key =
     bindE (someE (find_program db key) (program_error ''points.program_not_found'')) (\<lambda>p.
     Inr (to_program p, length (filter (\<lambda>a. ac_program a = pr_id p) (pd_accounts db))))"

definition account_target :: "points_db \<Rightarrow> nat \<Rightarrow> exn + string \<times> string \<times> string" where
  "account_target db i =
     bindE (someE (account_by_id db i) (KernelError ''points.account_not_found'' NOT_FOUND)) (\<lambda>a.
     bindE (someE (program_by_id db (ac_program a)) (program_error ''points.program_not_found'')) (\<lambda>p.
     Inr (pr_key p, ac_subject_type a, ac_subject_id a)))"

section \<open>What administration keeps\<close>

text \<open>
  An administrative transaction changes no account, balance, bucket or entry, so the books stay
  balanced.
\<close>

lemma points_append_programs:
  "points_append ctx key agg payload db = Inr db' \<Longrightarrow> pd_programs db' = pd_programs db"
  by (auto simp: points_append_def cmd_ok)

lemma points_inv_programs:
  assumes "points_inv db" and "pd_next_id db \<le> n"
  shows "points_inv (db\<lparr>pd_programs := ps, pd_next_id := n\<rparr>)"
proof -
  have obs: "balance_of (db\<lparr>pd_programs := ps, pd_next_id := n\<rparr>) = balance_of db"
    "ledger_sum (db\<lparr>pd_programs := ps, pd_next_id := n\<rparr>) = ledger_sum db"
    "bucket_sum (db\<lparr>pd_programs := ps, pd_next_id := n\<rparr>) = bucket_sum db"
    "state_of (db\<lparr>pd_programs := ps, pd_next_id := n\<rparr>) = state_of db"
    by (simp_all add: fun_eq_iff balance_of_def find_balance_def ledger_sum_def bucket_sum_def
        state_of_def account_by_id_def)
  have "points_wf (db\<lparr>pd_programs := ps, pd_next_id := n\<rparr>)"
    using assms by (auto simp: points_inv_def points_wf_def account_ids_def
        intro: rows_ok_mono allocs_ok_mono)
  with assms(1) show ?thesis unfolding points_inv_def obs by blast
qed

lemma admin_audit_inv:
  "admin_audit ctx actor action target details db = Inr db' \<Longrightarrow> points_inv db \<Longrightarrow> points_inv db'"
  unfolding admin_audit_def by (blast dest: points_append_same same_tables_inv)

lemma administration_keeps_books:
  assumes "points_inv db"
  shows "create_program ctx actor i db = Inr (dto, db') \<Longrightarrow> points_inv db'"
    and "update_program ctx actor key b db = Inr (dto, db') \<Longrightarrow> points_inv db'"
    and "set_program_status ctx actor key active v reason protected db = Inr (dto, db') \<Longrightarrow> points_inv db'"
proof -
  have save: "points_inv (save_program p db)" for p
    using points_inv_programs[OF assms, of "pd_next_id db"] by (simp add: save_program_def)
  show "points_inv db'" if "create_program ctx actor i db = Inr (dto, db')"
    using that points_inv_programs[OF assms, of "Suc (pd_next_id db)"]
    by (auto simp: create_program_def Let_def cmd_ok intro: admin_audit_inv)
  show "points_inv db'" if "update_program ctx actor key b db = Inr (dto, db')"
    using that save by (auto simp: update_program_def Let_def cmd_ok intro: admin_audit_inv)
  show "points_inv db'" if "set_program_status ctx actor key active v reason protected db = Inr (dto, db')"
    using that save by (auto simp: set_program_status_def Let_def cmd_ok intro: admin_audit_inv)
qed

section \<open>What the diagnostics find\<close>

text \<open>A balance row is the balance of its account.\<close>

lemma balance_row:
  assumes "points_wf db" and "b \<in> set (pd_balances db)"
  shows "balance_of db (bl_account b) = bl_balance b"
  using assms find_key_unique[of bl_account "pd_balances db" b]
  by (simp add: points_wf_def balance_of_def find_balance_def)

lemma diagnostics_counts:
  assumes "points_inv db"
  shows "pt_balance_mismatch (points_diagnostics r declared now db) = 0"
    and "pt_bucket_mismatch (points_diagnostics r declared now db) = 0"
    and "pt_negative_outside_debt (points_diagnostics r declared now db)
      = count_balances db (\<lambda>b. bl_balance b < 0 \<and> state_of db (bl_account b) = Some AC_frozen)"
proof -
  from assms have wf: "points_wf db" and bal: "balance_of db = ledger_sum db"
    and buck: "bucket_sum db = (\<lambda>a. max 0 (balance_of db a))"
    and fits: "\<And>a. state_fits (state_of db a) (balance_of db a)"
    unfolding points_inv_def by blast+
  show "pt_balance_mismatch (points_diagnostics r declared now db) = 0"
    using balance_row[OF wf] bal
    by (auto simp: points_diagnostics_def Let_def count_balances_def filter_empty_conv)
  show "pt_bucket_mismatch (points_diagnostics r declared now db) = 0"
    using balance_row[OF wf] buck
    by (auto simp: points_diagnostics_def Let_def count_balances_def filter_empty_conv)
  have "filter (\<lambda>b. bl_balance b < 0 \<and> (case account_by_id db (bl_account b) of None \<Rightarrow> True
      | Some a \<Rightarrow> ac_state a \<noteq> AC_debt)) (pd_balances db)
    = filter (\<lambda>b. bl_balance b < 0 \<and> state_of db (bl_account b) = Some AC_frozen) (pd_balances db)"
  proof (rule filter_cong[OF refl])
    fix b assume b: "b \<in> set (pd_balances db)"
    then have "bl_account b \<in> account_ids db" using wf by (auto simp: points_wf_def)
    then obtain a where a: "account_by_id db (bl_account b) = Some a"
      by (auto simp: account_ids_def account_by_id_def) (metis (mono_tags, lifting) find_None_iff' not_None_eq)
    with fits[of "bl_account b"] balance_row[OF wf b]
    show "(bl_balance b < 0 \<and> (case account_by_id db (bl_account b) of None \<Rightarrow> True
        | Some a \<Rightarrow> ac_state a \<noteq> AC_debt))
      = (bl_balance b < 0 \<and> state_of db (bl_account b) = Some AC_frozen)"
      by (cases "ac_state a") (auto simp: state_of_def state_fits_def)
  qed
  then show "pt_negative_outside_debt (points_diagnostics r declared now db)
      = count_balances db (\<lambda>b. bl_balance b < 0 \<and> state_of db (bl_account b) = Some AC_frozen)"
    by (simp add: points_diagnostics_def Let_def count_balances_def)
qed

end
