(* ===== verification/Points_Properties.thy ===== *)
theory Points_Properties
  imports Points_Buckets Points_Samples Points_Admin
begin

text \<open>
  The properties of the points capability: the books balance in every reachable state, a debit
  never overdraws and consumes the earliest expiry first, retries are safe for ever, a reversal
  is unique and exact, the sweep is complete, stale writes lose.
\<close>

section \<open>Shared facts\<close>

lemma reachable_parts:
  assumes "points_reachable db"
  shows "points_inv db" and "points_wf db" and "ledger_once db"
proof -
  show inv: "points_inv db" and "ledger_once db" using points_reachable_inv[OF assms] by blast+
  show "points_wf db" using inv by (simp add: points_inv_def)
qed

lemma valid_amount: "valid_credit_debit_input i \<Longrightarrow> 0 < ci_amount i"
  by (simp add: valid_credit_debit_input_def)

lemma find_idempotent_extends:
  assumes "extends db db'" and "find_idempotent db prog k = Some e"
  shows "find_idempotent db' prog k = Some e"
  using assms by (auto simp: extends_def find_idempotent_def find_append)

lemma find_idempotent_posted:
  assumes "posted e db db'" and "en_program e = prog" and "en_idempotency_key e = Some k"
  shows "find_idempotent db' prog k = Some e"
  using assms by (auto simp: posted_def find_idempotent_def find_append)

lemma require_program_extends:
  "extends db db' \<Longrightarrow> require_program db' k = require_program db k"
  by (simp add: require_program_def find_program_def extends_def)

lemma require_behavior_cong:
  "px_behaviors ctx' = px_behaviors ctx \<Longrightarrow> require_behavior ctx' k = require_behavior ctx k"
  by (simp add: require_behavior_def)

lemma credit_replays:
  assumes inv: "points_inv db" and valid: "0 < ci_amount i"
    and ok: "credit_points ctx key i db = Inr (entry, db1)" and ext: "extends db1 db2"
    and same: "px_behaviors ctx' = px_behaviors ctx"
  shows "credit_points ctx' key i db2 = Inr (entry, db2)"
proof -
  obtain spec prog where spec: "require_behavior ctx key = Inr spec"
    and prog: "require_program db (bs_program_key spec) = Inr prog"
    and dir: "bs_direction spec = Dir_credit"
    and src: "List.member (bs_allowed_source_types spec) (ci_source_type i)"
    using ok by (auto simp: credit_points_def credit_in_uow_def cmd_ok)
  have found: "find_program db (bs_program_key spec) = Some prog"
    using prog by (auto simp: require_program_def split: option.splits if_splits)
  have "\<exists>e. find_idempotent db1 (pr_id prog) (ci_idempotency_key i) = Some e
      \<and> en_type e = EN_credit \<and> entry = to_entry e (pr_key prog) \<and> extends db db1"
    using inv valid ok[unfolded credit_points_def]
  proof (cases rule: credit_effect)
    case (replay spec' prog' e)
    with spec found show ?thesis by auto
  next
    case (fresh spec' prog' acc db' e)
    with spec found show ?thesis
      using find_idempotent_posted[OF fresh(4)] posted_extends[OF fresh(4)] by auto
  qed
  then obtain e where e: "find_idempotent db1 (pr_id prog) (ci_idempotency_key i) = Some e"
    "en_type e = EN_credit" "entry = to_entry e (pr_key prog)" "extends db db1" by blast
  have "require_program db2 (bs_program_key spec) = Inr prog"
    using require_program_extends[OF extends_trans[OF e(4) ext]] prog by simp
  then show ?thesis
    using spec dir src e find_idempotent_extends[OF ext e(1)] require_behavior_cong[OF same]
    by (simp add: credit_points_def credit_in_uow_def replay_entry_def)
qed

lemma debit_replays:
  assumes inv: "points_inv db" and valid: "0 < ci_amount i"
    and ok: "debit_points ctx key i db = Inr (entry, db1)" and ext: "extends db1 db2"
    and same: "px_behaviors ctx' = px_behaviors ctx"
  shows "debit_points ctx' key i db2 = Inr (entry, db2)"
proof -
  obtain spec prog where spec: "require_behavior ctx key = Inr spec"
    and prog: "require_program db (bs_program_key spec) = Inr prog"
    and dir: "bs_direction spec = Dir_debit"
    using ok by (auto simp: debit_points_def cmd_ok)
  have found: "find_program db (bs_program_key spec) = Some prog"
    using prog by (auto simp: require_program_def split: option.splits if_splits)
  have "\<exists>e. find_idempotent db1 (pr_id prog) (ci_idempotency_key i) = Some e
      \<and> en_type e = EN_debit \<and> entry = to_entry e (pr_key prog) \<and> extends db db1"
    using inv valid ok
  proof (cases rule: debit_effect)
    case (replay spec' prog' e)
    with spec found show ?thesis by auto
  next
    case (fresh spec' prog' acc db' e)
    with spec found show ?thesis
      using find_idempotent_posted[OF fresh(4)] posted_extends[OF fresh(4)] by auto
  qed
  then obtain e where e: "find_idempotent db1 (pr_id prog) (ci_idempotency_key i) = Some e"
    "en_type e = EN_debit" "entry = to_entry e (pr_key prog)" "extends db db1" by blast
  have "require_program db2 (bs_program_key spec) = Inr prog"
    using require_program_extends[OF extends_trans[OF e(4) ext]] prog by simp
  then show ?thesis
    using spec dir e find_idempotent_extends[OF ext e(1)] require_behavior_cong[OF same]
    by (simp add: debit_points_def replay_entry_def)
qed

lemma stale_write_conflicts:
  assumes wf: "points_wf db" and r: "get_balance db acc = Inr r" and ok: "write_balance r v db = Inr db1"
  shows "write_balance r v' db1 = Inl (points_conflict ''points.balance_conflict'')"
proof -
  note g = get_balance_Inr[OF r]
  let ?f = "\<lambda>x. x\<lparr>bl_balance := v, bl_version := bl_version x + 1\<rparr>"
  have rows: "pd_balances db1 = update_where (\<lambda>x. bl_account x = bl_account r
      \<and> bl_version x = bl_version r) ?f (pd_balances db)"
    using ok by (auto simp: write_balance_def cas_balance_def sync_account_state_def Let_def cmd_ok
        split: if_splits)
  have "x = r" if "x \<in> set (pd_balances db)" "bl_account x = bl_account r" for x
    using that g(1) points_wf_parts(2)[OF wf] by (metis distinct_map inj_onD)
  then have "\<not> list_ex (\<lambda>x. bl_account x = bl_account r \<and> bl_version x = bl_version r) (pd_balances db1)"
    by (auto simp: rows list_ex_iff set_update_where)
  then show ?thesis by (simp add: write_balance_def cas_balance_def Let_def)
qed

lemma reversal_unique:
  assumes "ledger_once db" and "x \<in> set (pd_entries db)" and "y \<in> set (pd_entries db)"
    and "en_reversal_of x = Some i" and "en_reversal_of y = Some i"
  shows "x = y"
proof -
  have "x = y" if "distinct (reversal_marks es)" "x \<in> set es" "y \<in> set es" for es
    using that
  proof (induction es)
    case (Cons a es)
    have marked: "Some i \<in> set (reversal_marks es)" if "z \<in> set es" "en_reversal_of z = Some i" for z
      using that by (force simp: reversal_marks_def)
    from Cons assms(4,5) marked[of x] marked[of y] show ?case
      by (auto simp: reversal_marks_def split: if_splits)
  qed simp
  with assms(1-3) show ?thesis by (auto simp: ledger_once_def)
qed

lemma balance_of_account: "points_wf db \<Longrightarrow> balance_of db a \<noteq> 0 \<Longrightarrow> a \<in> account_ids db"
  using points_wf_parts(5)[of db]
  by (auto simp: balance_of_def find_balance_def split: option.splits dest!: find_Some_mem)

lemma state_of_account: "state_of db a = Some s \<Longrightarrow> a \<in> account_ids db"
  by (auto simp: state_of_def account_by_id_def account_ids_def dest!: find_Some_mem)

lemma opened_states:
  "opened acc db db1 \<Longrightarrow> state_of db a = Some s \<Longrightarrow> state_of db1 a = Some s"
  using state_of_account[of db a s] by (simp add: opened_def)

section \<open>Samples\<close>

lemma sample_reachable:
  "points_reachable sample_db" "points_reachable sample_credited"
  "points_reachable sample_bonus" "points_reachable sample_debited"
proof -
  have valid: "valid_credit_debit_input (sample_input 50 ''k1'')"
    "valid_credit_debit_input (sample_input 30 ''k2'')"
    "valid_credit_debit_input (sample_input 60 ''k3'')" by code_simp+
  have runs: "\<exists>x. credit_points (sample_ctx 0) ''quest.done'' (sample_input 50 ''k1'') sample_db
      = Inr (x, sample_credited)"
    "\<exists>x. credit_points (sample_ctx 1000) ''event.bonus'' (sample_input 30 ''k2'') sample_credited
      = Inr (x, sample_bonus)"
    "\<exists>x. debit_points (sample_ctx 2000) ''shop.buy'' (sample_input 60 ''k3'') sample_bonus
      = Inr (x, sample_debited)"
    using sample_steps_run unfolding sample_credited_def[symmetric] sample_bonus_def sample_debited_def
    by (auto dest: result_Inr simp: sample_credited_def[symmetric])
  show 0: "points_reachable sample_db"
    by (rule points_reachable.init) (simp add: points_initial_def sample_db_def)
  show 1: "points_reachable sample_credited"
    using runs(1) valid(1) by (auto intro: points_reachable.step[OF 0] points_step.credit)
  show 2: "points_reachable sample_bonus"
    using runs(2) valid(2) by (auto intro: points_reachable.step[OF 1] points_step.credit)
  show "points_reachable sample_debited"
    using runs(3) valid(3) by (auto intro: points_reachable.step[OF 2] points_step.debit)
qed

definition sample_reverse :: reverse_input where
  "sample_reverse = \<lparr>ri_reason = ''wrong order'', ri_idempotency_key = ''k4''\<rparr>"

definition sample_reversed :: points_db where
  "sample_reversed = after (reverse_ledger_entry (sample_ctx 3000) 12 sample_reverse sample_debited)"

definition sample_swept :: points_db where
  "sample_swept = after (expire_buckets (sample_ctx (1000 + days 30)) sample_bonus)"

section \<open>Accounting\<close>

text \<open>
  C1. In every state reachable by committed commands the books balance: the balance of an account
  is the sum of its ledger entries, its buckets hold exactly the positive part of it, no bucket
  is negative, an account in debt has a negative balance and an active one does not.
\<close>

theorem points_books_balance:
  assumes "points_reachable db"
  shows "balance_of db acc = ledger_sum db acc
    \<and> bucket_sum db acc = max 0 (balance_of db acc)
    \<and> (\<forall>b\<in>set (pd_buckets db). 0 \<le> bk_amount b)
    \<and> (state_of db acc = Some AC_debt \<longrightarrow> balance_of db acc < 0)
    \<and> (state_of db acc = Some AC_active \<longrightarrow> 0 \<le> balance_of db acc)"
  using reachable_parts(1)[OF assms] points_wf_parts(6)[OF reachable_parts(2)[OF assms]]
  unfolding points_inv_def state_fits_def by (metis (no_types, lifting))

theorem points_books_balance_witness:
  "ledger_sum sample_debited 1 = 20 \<and> bucket_sum sample_debited 1 = 20"
proof -
  have "balance_of sample_debited 1 = 20" by code_simp
  with points_books_balance[OF sample_reachable(4), of 1] show ?thesis by simp
qed

text \<open>
  C13. A debit that succeeds either replays the entry stored under its key and changes nothing, or
  lowers the balance of its account by exactly its amount and leaves it nonnegative; no other
  account moves. It therefore never overdraws.
\<close>

theorem debit_never_overdraws:
  assumes "points_reachable db" and "valid_credit_debit_input i"
    and "debit_points ctx key i db = Inr (entry, db')"
  shows "(db' = db \<and> ld_id entry \<in> en_id ` set (pd_entries db))
    \<or> (balance_of db' = (balance_of db)(ld_account_id entry :=
           balance_of db (ld_account_id entry) - ci_amount i)
       \<and> 0 \<le> balance_of db' (ld_account_id entry) \<and> ld_amount entry = - ci_amount i)"
  using reachable_parts(1)[OF assms(1)] valid_amount[OF assms(2)] assms(3)
proof (cases rule: debit_effect)
  case (replay spec prog e)
  then have "e \<in> set (pd_entries db)" by (auto simp: find_idempotent_def dest: find_Some_mem)
  with replay show ?thesis by (simp add: to_entry_def)
next
  case (fresh spec prog acc db1 e)
  then show ?thesis by (auto simp: posted_def to_entry_def)
qed

lemma sample_debit_run:
  obtains x where "debit_points (sample_ctx 2000) ''shop.buy'' (sample_input 60 ''k3'') sample_bonus
      = Inr (x, sample_debited)" and "ld_id x = 12" and "ld_account_id x = 1"
    and "valid_credit_debit_input (sample_input 60 ''k3'')" and "sample_debited \<noteq> sample_bonus"
proof -
  let ?run = "debit_points (sample_ctx 2000) ''shop.buy'' (sample_input 60 ''k3'') sample_bonus"
  obtain x where x: "?run = Inr (x, sample_debited)"
    using sample_steps_run unfolding sample_debited_def by (auto dest: result_Inr)
  have "map_option (\<lambda>e. (ld_id e, ld_account_id e)) (result ?run) = Some (12, 1)" by code_simp
  then have ids: "ld_id x = 12" "ld_account_id x = 1" by (simp_all add: x result_def)
  have "length (pd_entries sample_bonus) \<noteq> length (pd_entries sample_debited)" by code_simp
  then have "sample_debited \<noteq> sample_bonus" by metis
  moreover have "valid_credit_debit_input (sample_input 60 ''k3'')" by code_simp
  ultimately show thesis using x ids that by blast
qed

theorem debit_never_overdraws_witness:
  "balance_of sample_debited 1 = balance_of sample_bonus 1 - 60 \<and> 0 \<le> balance_of sample_debited 1"
proof -
  obtain x where x: "debit_points (sample_ctx 2000) ''shop.buy'' (sample_input 60 ''k3'') sample_bonus
      = Inr (x, sample_debited)" "ld_account_id x = 1"
    "valid_credit_debit_input (sample_input 60 ''k3'')" "sample_debited \<noteq> sample_bonus"
    by (rule sample_debit_run)
  from debit_never_overdraws[OF sample_reachable(3) x(3,1)] x(2,4) show ?thesis
    by (auto simp: sample_input_def)
qed

section \<open>Retries\<close>

text \<open>
  A credit is idempotent for ever: once it has succeeded, repeating it in any later state, with
  any clock and actor, returns the same entry and changes nothing.
\<close>

theorem credit_retry_safe:
  assumes "points_reachable db" and "valid_credit_debit_input i"
    and "credit_points ctx key i db = Inr (entry, db1)" and "points_step\<^sup>*\<^sup>* db1 db2"
    and "px_behaviors ctx' = px_behaviors ctx"
  shows "credit_points ctx' key i db2 = Inr (entry, db2)"
proof (rule credit_replays[OF reachable_parts(1)[OF assms(1)] valid_amount[OF assms(2)] assms(3) _ assms(5)])
  have "points_reachable db1"
    using assms(1-3) by (blast intro: points_reachable.step points_step.credit)
  with points_run[OF assms(4)] show "extends db1 db2" by blast
qed

theorem credit_retry_safe_witness:
  "\<exists>entry. credit_points (sample_ctx 5) ''quest.done'' (sample_input 50 ''k1'') sample_db
      = Inr (entry, after (credit_points (sample_ctx 5) ''quest.done'' (sample_input 50 ''k1'') sample_db))
    \<and> credit_points (sample_ctx 9) ''quest.done'' (sample_input 50 ''k1'')
        (after (credit_points (sample_ctx 5) ''quest.done'' (sample_input 50 ''k1'') sample_db))
      = Inr (entry, after (credit_points (sample_ctx 5) ''quest.done'' (sample_input 50 ''k1'') sample_db))"
proof -
  have "result (credit_points (sample_ctx 5) ''quest.done'' (sample_input 50 ''k1'') sample_db) \<noteq> None"
    by code_simp
  then obtain x where x: "credit_points (sample_ctx 5) ''quest.done'' (sample_input 50 ''k1'') sample_db
      = Inr (x, after (credit_points (sample_ctx 5) ''quest.done'' (sample_input 50 ''k1'') sample_db))"
    by (auto dest: result_Inr)
  have valid: "valid_credit_debit_input (sample_input 50 ''k1'')" by code_simp
  have "px_behaviors (sample_ctx 9) = px_behaviors (sample_ctx 5)" by (simp add: sample_ctx_def)
  from credit_retry_safe[OF sample_reachable(1) valid x rtranclp.rtrancl_refl this] x show ?thesis by blast
qed

text \<open>The same for debits.\<close>

theorem debit_retry_safe:
  assumes "points_reachable db" and "valid_credit_debit_input i"
    and "debit_points ctx key i db = Inr (entry, db1)" and "points_step\<^sup>*\<^sup>* db1 db2"
    and "px_behaviors ctx' = px_behaviors ctx"
  shows "debit_points ctx' key i db2 = Inr (entry, db2)"
proof (rule debit_replays[OF reachable_parts(1)[OF assms(1)] valid_amount[OF assms(2)] assms(3) _ assms(5)])
  have "points_reachable db1"
    using assms(1-3) by (blast intro: points_reachable.step points_step.debit)
  with points_run[OF assms(4)] show "extends db1 db2" by blast
qed

theorem debit_retry_safe_witness:
  "\<exists>entry. debit_points (sample_ctx 7000) ''shop.buy'' (sample_input 60 ''k3'') sample_debited
     = Inr (entry, sample_debited)"
proof -
  obtain x where x: "debit_points (sample_ctx 2000) ''shop.buy'' (sample_input 60 ''k3'') sample_bonus
      = Inr (x, sample_debited)" "valid_credit_debit_input (sample_input 60 ''k3'')"
    by (rule sample_debit_run)
  have "px_behaviors (sample_ctx 7000) = px_behaviors (sample_ctx 2000)" by (simp add: sample_ctx_def)
  from debit_retry_safe[OF sample_reachable(3) x(2,1) rtranclp.rtrancl_refl this] show ?thesis by blast
qed

section \<open>Reversal\<close>

text \<open>
  C14. Reversing a debit right away is exact: every account balance and the amount of every single
  bucket are what they were before the debit.
\<close>

theorem debit_reversal_exact:
  assumes "points_reachable db" and "valid_credit_debit_input i"
    and "debit_points ctx key i db = Inr (entry, db1)" and "db1 \<noteq> db"
    and "reverse_ledger_entry ctx' (ld_id entry) r db1 = Inr (entry', db2)" and "db2 \<noteq> db1"
  shows "balance_of db2 = balance_of db \<and> bucket_amount db2 = bucket_amount db"
  using debit_reverse_restores[OF reachable_parts(1)[OF assms(1)] valid_amount[OF assms(2)] assms(3-6)]
  by blast

lemma sample_reverse_run:
  obtains y where "reverse_ledger_entry (sample_ctx 3000) 12 sample_reverse sample_debited
      = Inr (y, sample_reversed)" and "sample_reversed \<noteq> sample_debited"
proof -
  let ?run = "reverse_ledger_entry (sample_ctx 3000) 12 sample_reverse sample_debited"
  have "result ?run \<noteq> None" by code_simp
  then obtain y where "?run = Inr (y, sample_reversed)"
    unfolding sample_reversed_def by (auto dest: result_Inr)
  moreover have "length (pd_entries sample_reversed) \<noteq> length (pd_entries sample_debited)" by code_simp
  then have "sample_reversed \<noteq> sample_debited" by metis
  ultimately show thesis by (rule that)
qed

theorem debit_reversal_exact_witness:
  "balance_of sample_reversed = balance_of sample_bonus
   \<and> bucket_amount sample_reversed = bucket_amount sample_bonus"
proof -
  obtain x where x: "debit_points (sample_ctx 2000) ''shop.buy'' (sample_input 60 ''k3'') sample_bonus
      = Inr (x, sample_debited)" "ld_id x = 12" "valid_credit_debit_input (sample_input 60 ''k3'')"
    "sample_debited \<noteq> sample_bonus"
    by (rule sample_debit_run)
  obtain y where y: "reverse_ledger_entry (sample_ctx 3000) 12 sample_reverse sample_debited
      = Inr (y, sample_reversed)" "sample_reversed \<noteq> sample_debited"
    by (rule sample_reverse_run)
  from debit_reversal_exact[OF sample_reachable(3) x(3,1,4)] x(2) y show ?thesis by simp
qed

text \<open>
  C15. An entry is reversed at most once, by an entry of its account with the opposite amount, and it
  is not a reversal itself: a reversal that was posted cannot be posted again in any later state.
\<close>

theorem reversal_at_most_once:
  assumes "points_reachable db" and "x \<in> set (pd_entries db)" and "en_reversal_of x = Some i"
  shows "(\<exists>e\<in>set (pd_entries db). en_id e = i \<and> en_account x = en_account e
      \<and> en_amount x + en_amount e = 0 \<and> en_type e \<noteq> EN_reversal)
    \<and> filter (\<lambda>y. en_reversal_of y = Some i) (pd_entries db) = [x]
    \<and> (\<forall>ctx r entry db'. reverse_ledger_entry ctx i r db = Inr (entry, db') \<longrightarrow> db' = db)"
proof (intro conjI allI impI)
  note once = reachable_parts(3)[OF assms(1)]
  show "\<exists>e\<in>set (pd_entries db). en_id e = i \<and> en_account x = en_account e
      \<and> en_amount x + en_amount e = 0 \<and> en_type e \<noteq> EN_reversal"
    using once assms(2,3) by (fastforce simp: ledger_once_def reversals_match_def reverses_def)
  have "distinct (pd_entries db)"
    using points_wf_parts(4)[OF reachable_parts(2)[OF assms(1)]] by (simp add: distinct_map)
  then show "filter (\<lambda>y. en_reversal_of y = Some i) (pd_entries db) = [x]"
    using assms(2,3) by (rule filter_unique) (rule reversal_unique[OF once _ assms(2) _ assms(3)])
  fix ctx r entry db'
  assume ok: "reverse_ledger_entry ctx i r db = Inr (entry, db')"
  from reachable_parts(1)[OF assms(1)] ok show "db' = db"
  proof (cases rule: reverse_effect)
    case (fresh e prog y)
    then have "en_id e = i" by (auto simp: entry_by_id_def dest: find_Some_mem)
    with fresh(4) assms(2,3) show ?thesis by auto
  qed simp
qed

theorem reversal_at_most_once_witness:
  "length (filter (\<lambda>y. en_reversal_of y = Some 12) (pd_entries sample_reversed)) = 1"
proof -
  obtain y where y: "reverse_ledger_entry (sample_ctx 3000) 12 sample_reverse sample_debited
      = Inr (y, sample_reversed)"
    by (rule sample_reverse_run)
  have r: "points_reachable sample_reversed"
    using sample_reachable(4) points_step.reverse[OF y] by (rule points_reachable.step)
  have "list_ex (\<lambda>e. en_reversal_of e = Some 12) (pd_entries sample_reversed)" by code_simp
  then obtain e where "e \<in> set (pd_entries sample_reversed)" "en_reversal_of e = Some 12"
    by (auto simp: list_ex_iff)
  from reversal_at_most_once[OF r this] show ?thesis by simp
qed

section \<open>Consumption order, expiration\<close>

text \<open>
  C16. A debit consumes first what expires first: if it took anything from a bucket, every bucket of
  the account that comes before it (by expiry, perpetual last, then age) is empty afterwards.
\<close>

theorem debit_consumes_fifo:
  assumes "points_reachable db" and "valid_credit_debit_input i"
    and "debit_points ctx key i db = Inr (entry, db')" and "db' \<noteq> db"
    and "b \<in> set (get_buckets db (ld_account_id entry))"
    and "c \<in> set (get_buckets db (ld_account_id entry))"
    and "bucket_sort_key b < bucket_sort_key c" and "bucket_amount db' (bk_id c) \<noteq> bk_amount c"
  shows "bucket_amount db' (bk_id b) = 0"
  using reachable_parts(1)[OF assms(1)] valid_amount[OF assms(2)] assms(3,4)
  by (rule debit_buckets) (use assms(5-8) in auto)

theorem debit_consumes_fifo_witness:
  "bucket_amount sample_debited 8 = 0"
proof -
  obtain x where x: "debit_points (sample_ctx 2000) ''shop.buy'' (sample_input 60 ''k3'') sample_bonus
      = Inr (x, sample_debited)" "ld_account_id x = 1"
    "valid_credit_debit_input (sample_input 60 ''k3'')" "sample_debited \<noteq> sample_bonus"
    by (rule sample_debit_run)
  let ?b = "pd_buckets sample_bonus ! 1" and ?c = "pd_buckets sample_bonus ! 0"
  have "length (pd_buckets sample_bonus) = 2" by code_simp
  moreover have "bk_account ?b = 1 \<and> 0 < bk_amount ?b \<and> bk_account ?c = 1 \<and> 0 < bk_amount ?c" by code_simp
  ultimately have mem: "?b \<in> set (get_buckets sample_bonus (ld_account_id x))"
    "?c \<in> set (get_buckets sample_bonus (ld_account_id x))"
    using nth_mem[of 1 "pd_buckets sample_bonus"] nth_mem[of 0 "pd_buckets sample_bonus"]
    by (simp_all add: get_buckets_def x(2))
  have "bucket_sort_key ?b < bucket_sort_key ?c" by code_simp
  moreover have "bucket_amount sample_debited (bk_id ?c) \<noteq> bk_amount ?c" by code_simp
  moreover have "bk_id ?b = 8" by code_simp
  ultimately show ?thesis
    using debit_consumes_fifo[OF sample_reachable(3) x(3,1,4) mem] by simp
qed

text \<open>
  The expiration sweep is complete and idempotent: after it, a bucket whose expiry has passed
  still holds points only if its account or program row is missing; no balance that was
  nonnegative becomes negative; a second sweep at the same instant posts nothing.
\<close>

theorem expiration_sweep_complete:
  assumes "points_reachable db" and "expire_buckets ctx db = Inr (entries, db')"
  shows "(\<forall>b\<in>set (pd_buckets db'). bucket_expired (px_now ctx) b \<longrightarrow> owner_program db' (bk_account b) = None)
    \<and> (\<forall>acc. 0 \<le> balance_of db acc \<longrightarrow> 0 \<le> balance_of db' acc)
    \<and> expire_buckets ctx db' = Inr ([], db')"
proof (intro conjI)
  note inv = reachable_parts(1)[OF assms(1)]
  show "\<forall>b\<in>set (pd_buckets db'). bucket_expired (px_now ctx) b \<longrightarrow> owner_program db' (bk_account b) = None"
    using expire_buckets_complete[OF inv assms(2)] by blast
  show "\<forall>acc. 0 \<le> balance_of db acc \<longrightarrow> 0 \<le> balance_of db' acc"
    using inv assms(2) by (rule expire_buckets_Inr)
  show "expire_buckets ctx db' = Inr ([], db')"
    by (rule expire_buckets_again[OF inv assms(2) refl])
qed

theorem expiration_sweep_complete_witness:
  "bucket_amount sample_swept 8 = 0
   \<and> expire_buckets (sample_ctx (1000 + days 30)) sample_swept = Inr ([], sample_swept)"
proof -
  have "result (expire_buckets (sample_ctx (1000 + days 30)) sample_bonus) \<noteq> None" by code_simp
  then obtain es where "expire_buckets (sample_ctx (1000 + days 30)) sample_bonus = Inr (es, sample_swept)"
    unfolding sample_swept_def by (auto dest: result_Inr)
  moreover have "bucket_amount sample_swept 8 = 0" by code_simp
  ultimately show ?thesis
    using expiration_sweep_complete[OF sample_reachable(3)] by blast
qed

section \<open>Concurrency and account states\<close>

text \<open>
  Optimistic locking: of two writers that read the same balance row, the second to write fails
  with \<open>points.balance_conflict\<close>, whatever values they write, so no update is lost.
\<close>

theorem second_writer_conflicts:
  assumes "points_reachable db" and "get_balance db acc = Inr r" and "write_balance r v db = Inr db1"
  shows "write_balance r v' db1 = Inl (points_conflict ''points.balance_conflict'')"
  by (rule stale_write_conflicts[OF reachable_parts(2)[OF assms(1)] assms(2,3)])

theorem second_writer_conflicts_witness:
  "\<exists>r db1. get_balance sample_bonus 1 = Inr r \<and> write_balance r 70 sample_bonus = Inr db1
    \<and> write_balance r 75 db1 = Inl (points_conflict ''points.balance_conflict'')"
proof -
  have "\<not> isl (bindE (get_balance sample_bonus 1) (\<lambda>r. write_balance r 70 sample_bonus))" by code_simp
  then obtain r db1 where r: "get_balance sample_bonus 1 = Inr r" "write_balance r 70 sample_bonus = Inr db1"
    by (cases "get_balance sample_bonus 1") (auto simp: isl_def, metis sum.exhaust)
  from second_writer_conflicts[OF sample_reachable(3) r] r show ?thesis by blast
qed

text \<open>
  Account states guard the writes: a credit is posted only to an account that is not frozen, a
  debit only to an active one.
\<close>

theorem posting_respects_state:
  assumes "points_reachable db" and "valid_credit_debit_input i" and "db' \<noteq> db"
  shows "(credit_points ctx key i db = Inr (entry, db')
      \<longrightarrow> state_of db (ld_account_id entry) \<noteq> Some AC_frozen)
    \<and> (debit_points ctx key i db = Inr (entry, db')
      \<longrightarrow> state_of db (ld_account_id entry) = Some AC_active)"
proof (intro conjI impI)
  note inv = reachable_parts(1)[OF assms(1)]
  note valid = valid_amount[OF assms(2)]
  {
    assume "credit_points ctx key i db = Inr (entry, db')"
    with inv valid show "state_of db (ld_account_id entry) \<noteq> Some AC_frozen"
      unfolding credit_points_def
    proof (cases rule: credit_effect)
      case (fresh spec prog acc db1 e)
      then have "state_of db (en_account e) = Some s \<Longrightarrow> s = ac_state acc" for s
        using opened_states[of acc db db1 "en_account e"] by auto
      with fresh show ?thesis by (auto simp: to_entry_def)
    qed (use assms(3) in simp)
  }
  {
    assume "debit_points ctx key i db = Inr (entry, db')"
    with inv valid show "state_of db (ld_account_id entry) = Some AC_active"
    proof (cases rule: debit_effect)
      case (fresh spec prog acc db1 e)
      then have "en_account e \<in> account_ids db"
        using balance_of_account[OF reachable_parts(2)[OF assms(1)], of "en_account e"] valid by fastforce
      then show ?thesis using fresh by (simp add: opened_def to_entry_def)
    qed (use assms(3) in simp)
  }
qed

theorem posting_respects_state_witness:
  "state_of sample_bonus 1 = Some AC_active"
proof -
  obtain x where x: "debit_points (sample_ctx 2000) ''shop.buy'' (sample_input 60 ''k3'') sample_bonus
      = Inr (x, sample_debited)" "ld_account_id x = 1"
    "valid_credit_debit_input (sample_input 60 ''k3'')" "sample_debited \<noteq> sample_bonus"
    by (rule sample_debit_run)
  from posting_respects_state[OF sample_reachable(3) x(3,4)] x(1,2) show ?thesis by metis
qed

text \<open>
  C17. A reversal ignores the freeze: reversing an entry of a frozen account so that its balance
  becomes negative moves the account from frozen to debt, from where the next credit makes it
  active again. The freeze is lost without an unfreeze command.
\<close>

theorem reversal_lifts_freeze:
  assumes "points_reachable db" and "reverse_ledger_entry ctx eid r db = Inr (entry, db')" and "db' \<noteq> db"
    and "state_of db (ld_account_id entry) = Some AC_frozen"
    and "balance_of db (ld_account_id entry) + ld_amount entry < 0"
  shows "state_of db' (ld_account_id entry) = Some AC_debt"
  using reachable_parts(1)[OF assms(1)] assms(2)
proof (cases rule: reverse_effect)
  case (fresh e prog x)
  have dto: "ld_account_id entry = en_account x" "ld_amount entry = en_amount x"
    using fresh(6) by (simp_all add: to_entry_def)
  have "en_account x \<in> account_ids db"
    using assms(4) unfolding dto by (rule state_of_account)
  with fresh(5) assms(4,5) show ?thesis
    unfolding dto posted_def by (simp add: next_state_def)
qed (use assms(3) in simp)

text \<open>The same account frozen after its debit; then its first credit is reversed.\<close>

definition sample_frozen :: points_db where
  "sample_frozen = after (freeze_points_account (sample_ctx 2500) ''credit'' ''user'' ''u1'' True None
     sample_debited)"

definition sample_thawed :: points_db where
  "sample_thawed = after (reverse_ledger_entry (sample_ctx 3000) 5 sample_reverse sample_frozen)"

theorem reversal_lifts_freeze_witness:
  "state_of sample_frozen 1 = Some AC_frozen \<and> state_of sample_thawed 1 = Some AC_debt"
proof -
  let ?freeze = "freeze_points_account (sample_ctx 2500) ''credit'' ''user'' ''u1'' True None sample_debited"
  let ?rev = "reverse_ledger_entry (sample_ctx 3000) 5 sample_reverse sample_frozen"
  have "result ?freeze \<noteq> None" by code_simp
  then obtain d where "?freeze = Inr (d, sample_frozen)"
    unfolding sample_frozen_def by (auto dest: result_Inr)
  then have reach: "points_reachable sample_frozen"
    by (intro points_reachable.step[OF sample_reachable(4)] points_step.freeze)
  have dto: "map_option (\<lambda>e. (ld_account_id e, ld_amount e)) (result ?rev) = Some (1, - 50)" by code_simp
  then have "result ?rev \<noteq> None" by (metis option.simps(3) option.map_disc_iff)
  then obtain y where y: "?rev = Inr (y, sample_thawed)"
    unfolding sample_thawed_def by (auto dest: result_Inr)
  have ids: "ld_account_id y = 1" "ld_amount y = - 50" using dto by (simp_all add: y result_def)
  have "length (pd_entries sample_thawed) \<noteq> length (pd_entries sample_frozen)" by code_simp
  then have ne: "sample_thawed \<noteq> sample_frozen" by metis
  have st: "state_of sample_frozen 1 = Some AC_frozen" by code_simp
  have "balance_of sample_frozen 1 = 20" by code_simp
  with reversal_lifts_freeze[OF reach y ne] st ids show ?thesis by simp
qed

text \<open>
  An account in debt that is frozen is frozen with a negative balance; the diagnostics report it as
  a negative balance outside debt, the only kind they find (lemma \<open>diagnostics_counts\<close>).
\<close>

definition sample_refrozen :: points_db where
  "sample_refrozen = after (freeze_points_account (sample_ctx 3500) ''credit'' ''user'' ''u1'' True None
     sample_thawed)"

lemma frozen_debt_degraded:
  "state_of sample_refrozen 1 = Some AC_frozen
    \<and> pt_negative_outside_debt (points_diagnostics sample_behaviors [] 0 sample_refrozen) = 1"
  by code_simp

text \<open>
  Rebuilding a balance is a check in every reachable state: the report says that ledger, balance
  and buckets match, and neither a balance, a bucket nor an entry changes, dry run or not.
\<close>

theorem rebuild_confirms:
  assumes "points_reachable db" and "rebuild_balance ctx acc dry db = Inr (report, db')"
  shows "rb_match report \<and> rb_ledger_sum report = balance_of db acc
    \<and> rb_bucket_sum report = max 0 (balance_of db acc)
    \<and> pd_balances db' = pd_balances db \<and> pd_buckets db' = pd_buckets db
    \<and> pd_entries db' = pd_entries db \<and> (dry \<longrightarrow> db' = db)"
  using rebuild_consistent[OF reachable_parts(1)[OF assms(1)] assms(2)]
  by (simp add: rebuild_state_def)

theorem rebuild_confirms_witness:
  "map_option rb_match (result (rebuild_balance (sample_ctx 9) 1 False sample_debited)) = Some True"
proof -
  have "result (rebuild_balance (sample_ctx 9) 1 False sample_debited) \<noteq> None" by code_simp
  then obtain x y where x: "rebuild_balance (sample_ctx 9) 1 False sample_debited = Inr (x, y)"
    by (auto dest: result_Inr)
  from rebuild_confirms[OF sample_reachable(4) this] show ?thesis by (simp only: x) (simp add: result_def)
qed

end
