(* ===== verification/Payments_Model.thy ===== *)
theory Payments_Model
  imports Kernel_Outbox
begin

text \<open>
  The data of the payments capability (\<^verbatim>\<open>inc/capabilities/payments/models.py\<close>, \<^verbatim>\<open>schemas.py\<close>,
  \<^verbatim>\<open>ports.py\<close>): the four tables with the outbox, the order state machine, the provider port and
  the event emitter. A payment provider is a parameter, a record of the functions of the port; a
  provider's exception is either a \<open>ProviderError\<close> with its code and category or anything else.
  Amounts are whole cents; the width of the integer columns is not modelled.
\<close>

section \<open>The order state machine\<close>

datatype order_state =
    OS_created | OS_pending | OS_captured | OS_partially_refunded | OS_refunded
  | OS_cancelled | OS_failed

fun allowed_transitions :: "order_state \<Rightarrow> order_state list" where
  "allowed_transitions OS_created = [OS_pending, OS_cancelled, OS_failed]"
| "allowed_transitions OS_pending = [OS_captured, OS_cancelled, OS_failed]"
| "allowed_transitions OS_captured = [OS_partially_refunded, OS_refunded]"
| "allowed_transitions OS_partially_refunded = [OS_refunded]"
| "allowed_transitions OS_refunded = []"
| "allowed_transitions OS_cancelled = []"
| "allowed_transitions OS_failed = []"

text \<open>The order of the states along the life of an order.\<close>

fun state_rank :: "order_state \<Rightarrow> nat" where
  "state_rank OS_created = 0"
| "state_rank OS_pending = 1"
| "state_rank OS_captured = 2"
| "state_rank OS_partially_refunded = 3"
| "state_rank OS_refunded = 4"
| "state_rank OS_cancelled = 5"
| "state_rank OS_failed = 6"

instantiation order_state :: linorder
begin

definition less_eq_order_state :: "order_state \<Rightarrow> order_state \<Rightarrow> bool" where
  "less_eq_order_state a b \<longleftrightarrow> state_rank a \<le> state_rank b"

definition less_order_state :: "order_state \<Rightarrow> order_state \<Rightarrow> bool" where
  "less_order_state a b \<longleftrightarrow> state_rank a < state_rank b"

instance
proof
  fix x y :: order_state
  show "x \<le> y \<Longrightarrow> y \<le> x \<Longrightarrow> x = y"
    by (cases x; cases y) (simp_all add: less_eq_order_state_def)
qed (auto simp: less_eq_order_state_def less_order_state_def)

end

lemma allowed_transitions_increase: "b \<in> set (allowed_transitions a) \<Longrightarrow> a < b"
  by (cases a) (auto simp: less_order_state_def)

definition paid_state :: "order_state \<Rightarrow> bool" where
  "paid_state st \<longleftrightarrow> st = OS_captured \<or> st = OS_partially_refunded \<or> st = OS_refunded"

section \<open>Rows\<close>

record payment_order =
  po_id :: nat
  po_subject_type :: string
  po_subject_id :: string
  po_provider_key :: string
  po_order_reference :: string
  po_offer_key :: string
  po_offer_version :: string
  po_description :: string
  po_amount :: int
  po_currency :: string
  po_state :: order_state
  po_idempotency_key :: string
  po_expires_at :: "time option"
  po_captured_amount :: int
  po_refunded_amount :: int
  po_captured_at :: "time option"
  po_cancelled_at :: "time option"
  po_failed_at :: "time option"
  po_provider_ref :: "string option"
  po_created_at :: time

record payment_attempt =
  pa_id :: nat
  pa_order :: nat
  pa_provider_ref :: string
  pa_attempt :: int
  pa_state :: string
  pa_created_at :: time

datatype receipt_state = RS_verified | RS_rejected
datatype failure_reason =
    FR_unknown_order | FR_amount_mismatch | FR_unsupported string | FR_invalid_transition string

record webhook_receipt =
  wr_id :: nat
  wr_provider_key :: string
  wr_event_id :: string
  wr_payload_digest :: string
  wr_verified_at :: time
  wr_state :: receipt_state
  wr_failure_reason :: "failure_reason option"
  wr_order :: "nat option"

datatype refund_state = RF_completed | RF_pending | RF_failed

record payment_refund =
  rf_id :: nat
  rf_order :: nat
  rf_ref :: string
  rf_amount :: int
  rf_currency :: string
  rf_state :: refund_state
  rf_idempotency_key :: string
  rf_reason :: string
  rf_completed_at :: "time option"
  rf_created_at :: time

record payments_db =
  pm_orders :: "payment_order list"
  pm_attempts :: "payment_attempt list"
  pm_receipts :: "webhook_receipt list"
  pm_refunds :: "payment_refund list"
  pm_outbox :: "outbox_message list"
  pm_next_id :: nat

definition empty_payments_db :: payments_db where
  "empty_payments_db = \<lparr>pm_orders = [], pm_attempts = [], pm_receipts = [], pm_refunds = [],
     pm_outbox = [], pm_next_id = 1\<rparr>"

section \<open>Command inputs and results\<close>

record create_order_input =
  co_subject_type :: string
  co_subject_id :: string
  co_provider_key :: string
  co_offer_key :: string
  co_offer_version :: string
  co_description :: string
  co_amount :: int
  co_currency :: string
  co_idempotency_key :: string

definition create_input_ok :: "create_order_input \<Rightarrow> bool" where
  "create_input_ok c \<longleftrightarrow> length (co_description c) \<le> 500 \<and> 0 < co_amount c
     \<and> co_currency c = ''CNY'' \<and> 1 \<le> length (co_idempotency_key c)
     \<and> length (co_idempotency_key c) \<le> 200"

record refund_input =
  rq_amount :: int
  rq_reason :: string
  rq_idempotency_key :: string

definition refund_input_ok :: "refund_input \<Rightarrow> bool" where
  "refund_input_ok c \<longleftrightarrow> 0 < rq_amount c \<and> 1 \<le> length (rq_reason c) \<and> length (rq_reason c) \<le> 500
     \<and> 1 \<le> length (rq_idempotency_key c) \<and> length (rq_idempotency_key c) \<le> 200"

record order_dto =
  od_id :: string
  od_subject_type :: string
  od_subject_id :: string
  od_provider_key :: string
  od_order_reference :: string
  od_idempotency_key :: string
  od_offer_key :: string
  od_offer_version :: string
  od_description :: string
  od_amount :: int
  od_state :: order_state
  od_captured_amount :: int
  od_refunded_amount :: int
  od_created_at :: time

record refund_dto =
  rd_id :: string
  rd_order_id :: string
  rd_ref :: string
  rd_amount :: int
  rd_state :: refund_state
  rd_reason :: string

definition internal_currency_error :: exn where
  "internal_currency_error = KernelError ''payments.invalid_currency'' INTERNAL"

definition to_order :: "payment_order \<Rightarrow> exn + order_dto" where
  "to_order po =
     bindE (requireE (po_currency po = ''CNY'') internal_currency_error) (\<lambda>_.
     Inr \<lparr>od_id = show_nat (po_id po), od_subject_type = po_subject_type po,
       od_subject_id = po_subject_id po, od_provider_key = po_provider_key po,
       od_order_reference = po_order_reference po, od_idempotency_key = po_idempotency_key po,
       od_offer_key = po_offer_key po, od_offer_version = po_offer_version po,
       od_description = po_description po, od_amount = po_amount po, od_state = po_state po,
       od_captured_amount = po_captured_amount po, od_refunded_amount = po_refunded_amount po,
       od_created_at = po_created_at po\<rparr>)"

definition to_refund :: "payment_refund \<Rightarrow> exn + refund_dto" where
  "to_refund r =
     bindE (requireE (rf_currency r = ''CNY'') internal_currency_error) (\<lambda>_.
     Inr \<lparr>rd_id = show_nat (rf_id r), rd_order_id = show_nat (rf_order r), rd_ref = rf_ref r,
       rd_amount = rf_amount r, rd_state = rf_state r, rd_reason = rf_reason r\<rparr>)"

section \<open>The provider port\<close>

datatype provider_failure = Provider_error string error_category | Provider_other

record provider_session =
  ps_provider_ref :: string
  ps_redirect_url :: "string option"
  ps_qr_code_payload :: "string option"
  ps_app_url :: "string option"
  ps_requires_action :: bool

definition make_provider_session ::
    "string \<Rightarrow> string option \<Rightarrow> string option \<Rightarrow> string option \<Rightarrow> bool \<Rightarrow> exn + provider_session" where
  "make_provider_session ref url qr app action =
     bindE (requireE (py_truthy url \<or> py_truthy qr \<or> py_truthy app) (PyException ''ValueError'')) (\<lambda>_.
     Inr \<lparr>ps_provider_ref = ref, ps_redirect_url = url, ps_qr_code_payload = qr, ps_app_url = app,
       ps_requires_action = action\<rparr>)"

definition session_url :: "provider_session \<Rightarrow> string" where
  "session_url s =
     (if py_truthy (ps_redirect_url s) then the (ps_redirect_url s)
      else if py_truthy (ps_app_url s) then the (ps_app_url s)
      else if py_truthy (ps_qr_code_payload s) then the (ps_qr_code_payload s) else [])"

datatype provider_state = PS_captured | PS_failed | PS_pending | PS_unknown

record payment_status =
  pst_state :: provider_state
  pst_captured_amount :: "int option"
  pst_currency :: "string option"

datatype webhook_kind = WK_capture | WK_failure | WK_refund | WK_other string

record webhook_event =
  we_event_id :: string
  we_kind :: webhook_kind
  we_order_reference :: string
  we_amount :: int
  we_currency :: string

record webhook_request =
  wq_method :: string
  wq_raw_body :: string
  wq_headers :: "(string \<times> string) list"
  wq_query_params :: "(string \<times> string) list"

record provider_refund =
  pr_ref :: string
  pr_state :: refund_state

text \<open>
  The arguments: \<open>create_payment\<close> order reference, amount, currency, idempotency key, description;
  \<open>get_payment\<close> provider reference; \<open>create_refund\<close> payment reference, amount, currency,
  idempotency key, reason.
\<close>

record payment_provider =
  pv_create_payment :: "string \<Rightarrow> int \<Rightarrow> string \<Rightarrow> string \<Rightarrow> string \<Rightarrow> provider_failure + provider_session"
  pv_get_payment :: "string \<Rightarrow> provider_failure + payment_status"
  pv_verify_webhook :: "webhook_request \<Rightarrow> provider_failure + webhook_event"
  pv_create_refund :: "string \<Rightarrow> int \<Rightarrow> string \<Rightarrow> string \<Rightarrow> string \<Rightarrow> provider_failure + provider_refund"

definition provider_exn :: "provider_failure \<Rightarrow> exn" where
  "provider_exn f = (case f of
     Provider_error c cat \<Rightarrow> KernelError c cat
   | Provider_other \<Rightarrow> KernelError ''payments.provider_error'' DEPENDENCY_UNAVAILABLE)"

definition webhook_invalid :: exn where
  "webhook_invalid = KernelError ''payments.webhook_invalid'' VALIDATION"

definition call_provider :: "provider_failure + 'a \<Rightarrow> exn + 'a" where
  "call_provider r = (case r of Inl f \<Rightarrow> Inl (provider_exn f) | Inr x \<Rightarrow> Inr x)"

section \<open>Command context and helpers\<close>

text \<open>
  \<open>pc_digest\<close> is SHA-256 in hexadecimal, \<open>pc_reference\<close> the random order reference of the call.
\<close>

record payments_ctx =
  pc_now :: time
  pc_providers :: "(string \<times> payment_provider) list"
  pc_permissions :: "string list"
  pc_trace_id :: "string option"
  pc_schemas :: "(dict \<Rightarrow> exn + unit) registry"
  pc_digest :: "string \<Rightarrow> string"
  pc_reference :: string

definition payments_conflict :: "string \<Rightarrow> exn" where
  "payments_conflict c = KernelError c CONFLICT"

definition payments_require :: "payments_ctx \<Rightarrow> string \<Rightarrow> exn + unit" where
  "payments_require ctx perm =
     requireE (perm \<in> set (pc_permissions ctx)) (KernelError ''payments.forbidden'' FORBIDDEN)"

definition get_provider :: "payments_ctx \<Rightarrow> string \<Rightarrow> exn + payment_provider" where
  "get_provider ctx key =
     someE (dget (pc_providers ctx) key) (KernelError ''payments.unknown_provider'' VALIDATION)"

definition transition_ok :: "payment_order \<Rightarrow> order_state \<Rightarrow> exn + unit" where
  "transition_ok po target =
     requireE (target \<in> set (allowed_transitions (po_state po)))
       (payments_conflict ''payments.invalid_transition'')"

text \<open>
  The payload of an event, checked by its Pydantic schema: all keys of the program's calls match
  their schemas, so the check reduces to the literal currency. The failed payload has an optional
  reason, dumped as null.
\<close>

definition payment_payload :: "string \<Rightarrow> payment_order \<Rightarrow> dict \<Rightarrow> exn + dict" where
  "payment_payload key po values =
     bindE (requireE (po_currency po = ''CNY'') (PyException ''ValidationError'')) (\<lambda>_.
     Inr ([(''order_id'', JStr (show_nat (po_id po))),
       (''order_reference'', JStr (po_order_reference po)),
       (''subject_type'', JStr (po_subject_type po)), (''subject_id'', JStr (po_subject_id po)),
       (''amount'', JInt (po_amount po)), (''currency'', JStr (po_currency po))] @ values
       @ (if key = ''payment.failed.v1'' then [(''reason'', JNull)] else [])))"

definition payments_emit ::
    "payments_ctx \<Rightarrow> string \<Rightarrow> payment_order \<Rightarrow> dict \<Rightarrow> payments_db \<Rightarrow> exn + payments_db" where
  "payments_emit ctx key po values db =
     bindE (payment_payload key po values) (\<lambda>payload.
     bindE (outbox_append (pc_schemas ctx) (pm_next_id db + 1) (pc_now ctx)
        \<lparr>ev_id = pm_next_id db, ev_key = key, ev_occurred_at = pc_now ctx, ev_producer = ''payments'',
          ev_aggregate_type = Some ''payments'', ev_aggregate_id = Some (show_nat (po_id po)),
          ev_trace_id = pc_trace_id ctx, ev_payload = payload\<rparr> (pm_outbox db)) (\<lambda>box.
     Inr (db\<lparr>pm_outbox := box, pm_next_id := pm_next_id db + 2\<rparr>)))"

definition get_order :: "payments_db \<Rightarrow> nat \<Rightarrow> payment_order option" where
  "get_order db i = find (\<lambda>x. po_id x = i) (pm_orders db)"

definition save_order :: "payment_order \<Rightarrow> payments_db \<Rightarrow> payments_db" where
  "save_order po db =
     db\<lparr>pm_orders := update_where (\<lambda>x. po_id x = po_id po) (\<lambda>_. po) (pm_orders db)\<rparr>"

definition require_order :: "payments_db \<Rightarrow> nat \<Rightarrow> exn + payment_order" where
  "require_order db i = someE (get_order db i) (KernelError ''payments.order_not_found'' NOT_FOUND)"

end
