(* ===== verification/Payments_Commands.thy ===== *)
theory Payments_Commands
  imports Payments_Model
begin

text \<open>
  The commands of \<^verbatim>\<open>inc/capabilities/payments/commands.py\<close>, the queries of \<^verbatim>\<open>queries.py\<close> and the
  probes of \<^verbatim>\<open>diagnostics.py\<close>. A command that talks to a provider between two units of work is
  modelled by its parts (\<open>_read\<close>, the provider call, \<open>_commit\<close>), so that other transactions can
  come in between, and by their composition.
\<close>

section \<open>Creating an order\<close>

definition order_ttl_seconds :: int where
  "order_ttl_seconds = 30 * 60"

definition find_order_by_key :: "payments_db \<Rightarrow> string \<Rightarrow> string \<Rightarrow> payment_order option" where
  "find_order_by_key db prov key =
     find (\<lambda>x. po_provider_key x = prov \<and> po_idempotency_key x = key) (pm_orders db)"

definition new_order :: "payments_ctx \<Rightarrow> nat \<Rightarrow> create_order_input \<Rightarrow> payment_order" where
  "new_order ctx i c = \<lparr>po_id = i, po_subject_type = co_subject_type c,
     po_subject_id = co_subject_id c, po_provider_key = co_provider_key c,
     po_order_reference = ''ord_'' @ pc_reference ctx, po_offer_key = co_offer_key c,
     po_offer_version = co_offer_version c, po_description = co_description c,
     po_amount = co_amount c, po_currency = co_currency c, po_state = OS_created,
     po_idempotency_key = co_idempotency_key c,
     po_expires_at = Some (pc_now ctx + seconds order_ttl_seconds), po_captured_amount = 0,
     po_refunded_amount = 0, po_captured_at = None, po_cancelled_at = None, po_failed_at = None,
     po_provider_ref = None, po_created_at = pc_now ctx\<rparr>"

text \<open>The flush violates a unique constraint when the reference or the pair of keys is taken.\<close>

definition insert_order :: "payment_order \<Rightarrow> payments_db \<Rightarrow> exn + payments_db" where
  "insert_order po db =
     bindE (requireE (\<not> list_ex (\<lambda>x. po_order_reference x = po_order_reference po
         \<or> po_provider_key x = po_provider_key po \<and> po_idempotency_key x = po_idempotency_key po)
         (pm_orders db)) (payments_conflict ''payments.duplicate_order'')) (\<lambda>_.
     Inr (db\<lparr>pm_orders := pm_orders db @ [po], pm_next_id := Suc (pm_next_id db)\<rparr>))"

definition create_payment_order ::
    "payments_ctx \<Rightarrow> create_order_input \<Rightarrow> payments_db \<Rightarrow> exn + order_dto \<times> payments_db" where
  "create_payment_order ctx c db =
     bindE (payments_require ctx ''payments.create'') (\<lambda>_.
     bindE (get_provider ctx (co_provider_key c)) (\<lambda>_.
     case find_order_by_key db (co_provider_key c) (co_idempotency_key c) of
       Some po \<Rightarrow> bindE (to_order po) (\<lambda>dto. Inr (dto, db))
     | None \<Rightarrow>
         let po = new_order ctx (pm_next_id db) c in
         bindE (insert_order po db) (\<lambda>db1.
         bindE (payments_emit ctx ''payment.order_created.v1'' po
           [(''provider_key'', JStr (po_provider_key po)), (''offer_key'', JStr (po_offer_key po))]
           db1) (\<lambda>db2.
         bindE (to_order po) (\<lambda>dto. Inr (dto, db2))))))"

section \<open>Starting a payment attempt\<close>

record start_attempt_result =
  sr_order :: order_dto
  sr_checkout_url :: "string option"
  sr_redirect_url :: "string option"
  sr_qr_code_payload :: "string option"
  sr_app_url :: "string option"
  sr_requires_action :: bool

text \<open>
  The read phase: an order that is already pending with a provider reference is answered at once
  (\<open>Inl\<close> of the inner sum), otherwise the provider opens a session.
\<close>

definition start_attempt_read ::
    "payments_ctx \<Rightarrow> nat \<Rightarrow> payments_db \<Rightarrow> exn + (start_attempt_result + provider_session)" where
  "start_attempt_read ctx i db =
     bindE (payments_require ctx ''payments.create'') (\<lambda>_.
     bindE (require_order db i) (\<lambda>po.
     bindE (get_provider ctx (po_provider_key po)) (\<lambda>prov.
     bindE (someE (po_expires_at po) (PyException ''AttributeError'')) (\<lambda>expires.
     bindE (requireE (\<not> expires < pc_now ctx) (payments_conflict ''payments.order_expired'')) (\<lambda>_.
     if po_state po = OS_pending \<and> py_truthy (po_provider_ref po)
     then bindE (to_order po) (\<lambda>dto. Inr (Inl \<lparr>sr_order = dto, sr_checkout_url = None,
       sr_redirect_url = None, sr_qr_code_payload = None, sr_app_url = None,
       sr_requires_action = False\<rparr>))
     else bindE (call_provider (pv_create_payment prov (po_order_reference po) (po_amount po)
         (po_currency po) (''order:'' @ show_nat (po_id po)) (po_description po))) (\<lambda>session.
       Inr (Inr session)))))))"

definition start_attempt_commit ::
    "payments_ctx \<Rightarrow> nat \<Rightarrow> provider_session \<Rightarrow> payments_db
      \<Rightarrow> exn + start_attempt_result \<times> payments_db" where
  "start_attempt_commit ctx i session db =
     bindE (require_order db i) (\<lambda>po.
     bindE (transition_ok po OS_pending) (\<lambda>_.
     let po' = po\<lparr>po_state := OS_pending, po_provider_ref := Some (ps_provider_ref session)\<rparr>;
         db1 = save_order po' db;
         db2 = db1\<lparr>pm_attempts := pm_attempts db1 @ [\<lparr>pa_id = pm_next_id db1, pa_order = i,
           pa_provider_ref = ps_provider_ref session, pa_attempt = 1, pa_state = ''pending'',
           pa_created_at = pc_now ctx\<rparr>], pm_next_id := Suc (pm_next_id db1)\<rparr> in
     bindE (payments_emit ctx ''payment.pending.v1'' po'
       [(''provider_ref'', JStr (ps_provider_ref session))] db2) (\<lambda>db3.
     bindE (to_order po') (\<lambda>dto.
     Inr (\<lparr>sr_order = dto, sr_checkout_url = Some (session_url session),
       sr_redirect_url = ps_redirect_url session, sr_qr_code_payload = ps_qr_code_payload session,
       sr_app_url = ps_app_url session, sr_requires_action = ps_requires_action session\<rparr>, db3)))))"

definition start_payment_attempt ::
    "payments_ctx \<Rightarrow> nat \<Rightarrow> payments_db \<Rightarrow> exn + start_attempt_result \<times> payments_db" where
  "start_payment_attempt ctx i db =
     bindE (start_attempt_read ctx i db) (\<lambda>r. case r of
       Inl result \<Rightarrow> Inr (result, db)
     | Inr session \<Rightarrow> start_attempt_commit ctx i session db)"

section \<open>Cancelling\<close>

definition cancel_payment_order ::
    "payments_ctx \<Rightarrow> nat \<Rightarrow> payments_db \<Rightarrow> exn + order_dto \<times> payments_db" where
  "cancel_payment_order ctx i db =
     bindE (payments_require ctx ''payments.cancel'') (\<lambda>_.
     bindE (require_order db i) (\<lambda>po.
     bindE (transition_ok po OS_cancelled) (\<lambda>_.
     let po' = po\<lparr>po_state := OS_cancelled, po_cancelled_at := Some (pc_now ctx)\<rparr> in
     bindE (payments_emit ctx ''payment.cancelled.v1'' po' [] (save_order po' db)) (\<lambda>db1.
     bindE (to_order po') (\<lambda>dto. Inr (dto, db1))))))"

section \<open>Webhooks\<close>

definition find_receipt :: "payments_db \<Rightarrow> string \<Rightarrow> string \<Rightarrow> webhook_receipt option" where
  "find_receipt db prov ev =
     find (\<lambda>r. wr_provider_key r = prov \<and> wr_event_id r = ev) (pm_receipts db)"

definition capture_order :: "payments_ctx \<Rightarrow> int \<Rightarrow> payment_order \<Rightarrow> payments_db
      \<Rightarrow> (exn + unit) \<times> payments_db" where
  "capture_order ctx amount po db =
     bindS (liftS (bindE (transition_ok po OS_captured) (\<lambda>_. Inr db)) db) (\<lambda>_ db.
     let po' = po\<lparr>po_state := OS_captured, po_captured_amount := amount,
           po_captured_at := Some (pc_now ctx)\<rparr>;
         db1 = save_order po' db in
     liftS (payments_emit ctx ''payment.captured.v1'' po'
       [(''provider_ref'', JStr (case po_provider_ref po' of None \<Rightarrow> [] | Some r \<Rightarrow> r))] db1) db1)"

definition fail_order :: "payments_ctx \<Rightarrow> payment_order \<Rightarrow> payments_db
      \<Rightarrow> (exn + unit) \<times> payments_db" where
  "fail_order ctx po db =
     bindS (liftS (bindE (transition_ok po OS_failed) (\<lambda>_. Inr db)) db) (\<lambda>_ db.
     let po' = po\<lparr>po_state := OS_failed, po_failed_at := Some (pc_now ctx)\<rparr>;
         db1 = save_order po' db in
     liftS (payments_emit ctx ''payment.failed.v1'' po' [] db1) db1)"

definition refund_target :: "payment_order \<Rightarrow> order_state" where
  "refund_target po =
     (if po_captured_amount po \<le> po_refunded_amount po then OS_refunded else OS_partially_refunded)"

definition save_refund :: "payment_refund \<Rightarrow> payments_db \<Rightarrow> payments_db" where
  "save_refund r db =
     db\<lparr>pm_refunds := update_where (\<lambda>x. rf_id x = rf_id r) (\<lambda>_. r) (pm_refunds db)\<rparr>"

text \<open>The pending refunds of an order, newest first.\<close>

definition pending_refunds :: "payments_db \<Rightarrow> nat \<Rightarrow> payment_refund list" where
  "pending_refunds db i =
     rev (filter (\<lambda>r. rf_order r = i \<and> rf_state r = RF_pending) (pm_refunds db))"

definition apply_refund_event ::
    "payments_ctx \<Rightarrow> webhook_event \<Rightarrow> payment_order \<Rightarrow> payments_db \<Rightarrow> (exn + unit) \<times> payments_db" where
  "apply_refund_event ctx ev po db =
     bindS (guardS (po_state po = OS_captured \<or> po_state po = OS_partially_refunded)
       (payments_conflict ''payments.invalid_transition'') db) (\<lambda>_ db.
     case find (\<lambda>r. rf_amount r = we_amount ev) (pending_refunds db (po_id po)) of
       None \<Rightarrow> (Inl (payments_conflict ''payments.refund_mismatch''), db)
     | Some r \<Rightarrow>
         let r' = r\<lparr>rf_state := RF_completed, rf_completed_at := Some (pc_now ctx)\<rparr>;
             po1 = po\<lparr>po_refunded_amount := po_refunded_amount po + rf_amount r'\<rparr>;
             target = refund_target po1;
             db1 = save_order po1 (save_refund r' db) in
         bindS (if target = po_state po1 then (Inr po1, db1)
           else bindS (liftS (bindE (transition_ok po1 target) (\<lambda>_. Inr db1)) db1) (\<lambda>_ db.
             (Inr (po1\<lparr>po_state := target\<rparr>), save_order (po1\<lparr>po_state := target\<rparr>) db))) (\<lambda>po2 db2.
         liftS (payments_emit ctx ''payment.refund_completed.v1'' po2
           [(''refund_ref'', JStr (rf_ref r')), (''refund_amount'', JInt (rf_amount r'))] db2) db2))"

definition apply_webhook ::
    "payments_ctx \<Rightarrow> webhook_event \<Rightarrow> payment_order \<Rightarrow> payments_db \<Rightarrow> (exn + unit) \<times> payments_db" where
  "apply_webhook ctx ev po db = (case we_kind ev of
     WK_capture \<Rightarrow> capture_order ctx (we_amount ev) po db
   | WK_failure \<Rightarrow> fail_order ctx po db
   | WK_refund \<Rightarrow> apply_refund_event ctx ev po db
   | WK_other k \<Rightarrow> (Inl webhook_invalid, db))"

definition reject_receipt :: "nat \<Rightarrow> failure_reason \<Rightarrow> payments_db \<Rightarrow> payments_db" where
  "reject_receipt rid reason db = db\<lparr>pm_receipts := update_where (\<lambda>r. wr_id r = rid)
     (\<lambda>r. r\<lparr>wr_state := RS_rejected, wr_failure_reason := Some reason\<rparr>) (pm_receipts db)\<rparr>"

record webhook_result =
  wx_duplicate :: bool
  wx_event_id :: string
  wx_order_id :: "string option"

fun kind_name :: "webhook_kind \<Rightarrow> string" where
  "kind_name WK_capture = ''capture''"
| "kind_name WK_failure = ''failure''"
| "kind_name WK_refund = ''refund''"
| "kind_name (WK_other k) = k"

text \<open>
  The transaction of a verified event. A receipt that another worker inserted after the check makes
  the flush fail, and the code answers as for a receipt found at once. A kernel error while the
  event is applied commits the session as it is, with the receipt marked rejected, and is raised;
  any other exception leaves nothing.
\<close>

definition webhook_transaction ::
    "payments_ctx \<Rightarrow> string \<Rightarrow> string \<Rightarrow> webhook_event \<Rightarrow> payments_db
      \<Rightarrow> (exn + webhook_result) \<times> payments_db" where
  "webhook_transaction ctx prov digest ev db =
     (case find_receipt db prov (we_event_id ev) of
        Some r \<Rightarrow> (Inr \<lparr>wx_duplicate = True, wx_event_id = we_event_id ev,
          wx_order_id = map_option show_nat (wr_order r)\<rparr>, db)
      | None \<Rightarrow>
         let found = find (\<lambda>x. po_order_reference x = we_order_reference ev
               \<and> po_provider_key x = prov) (pm_orders db);
             rid = pm_next_id db;
             receipt = \<lparr>wr_id = rid, wr_provider_key = prov, wr_event_id = we_event_id ev,
               wr_payload_digest = digest, wr_verified_at = pc_now ctx, wr_state = RS_verified,
               wr_failure_reason = None, wr_order = map_option po_id found\<rparr>;
             db1 = db\<lparr>pm_receipts := pm_receipts db @ [receipt], pm_next_id := Suc rid\<rparr> in
         (case found of
            None \<Rightarrow> (Inl (payments_conflict ''payments.unknown_order''),
              reject_receipt rid FR_unknown_order db1)
          | Some po \<Rightarrow>
              if we_currency ev \<noteq> ''CNY'' \<or> po_amount po \<noteq> we_amount ev
                \<or> po_currency po \<noteq> we_currency ev
              then (Inl (payments_conflict ''payments.amount_mismatch''),
                reject_receipt rid FR_amount_mismatch db1)
              else
                (case apply_webhook ctx ev po db1 of
                   (Inr _, db2) \<Rightarrow> (Inr \<lparr>wx_duplicate = False, wx_event_id = we_event_id ev,
                     wx_order_id = Some (show_nat (po_id po))\<rparr>, db2)
                 | (Inl (PyException c), db2) \<Rightarrow> (Inl (PyException c), db)
                 | (Inl e, db2) \<Rightarrow> (Inl e, reject_receipt rid
                     (if e = webhook_invalid then FR_unsupported (kind_name (we_kind ev))
                      else FR_invalid_transition (kind_name (we_kind ev))) db2))))"

definition process_verified_webhook ::
    "payments_ctx \<Rightarrow> string \<Rightarrow> webhook_request \<Rightarrow> payments_db
      \<Rightarrow> (exn + webhook_result) \<times> payments_db" where
  "process_verified_webhook ctx prov req db =
     (case get_provider ctx prov of
        Inl e \<Rightarrow> (Inl e, db)
      | Inr p \<Rightarrow> (case pv_verify_webhook p req of
          Inl _ \<Rightarrow> (Inl webhook_invalid, db)
        | Inr ev \<Rightarrow> webhook_transaction ctx prov (pc_digest ctx (wq_raw_body req)) ev db))"

section \<open>Reconciliation\<close>

text \<open>Orders in these states are answered without asking the provider.\<close>

definition settled_state :: "order_state \<Rightarrow> bool" where
  "settled_state st \<longleftrightarrow> st = OS_captured \<or> st = OS_refunded \<or> st = OS_cancelled \<or> st = OS_failed"

definition reconcile_read ::
    "payments_ctx \<Rightarrow> nat \<Rightarrow> payments_db \<Rightarrow> exn + (order_dto + payment_status)" where
  "reconcile_read ctx i db =
     bindE (payments_require ctx ''payments.reconcile'') (\<lambda>_.
     bindE (require_order db i) (\<lambda>po.
     if settled_state (po_state po) then bindE (to_order po) (\<lambda>dto. Inr (Inl dto))
     else bindE (get_provider ctx (po_provider_key po)) (\<lambda>prov.
       bindE (call_provider (pv_get_payment prov (case po_provider_ref po of None \<Rightarrow> [] | Some r \<Rightarrow> r)))
         (\<lambda>status. Inr (Inr status)))))"

definition session_result :: "(exn + 'a) \<times> 's \<Rightarrow> exn + 's" where
  "session_result m = (case m of (Inl e, _) \<Rightarrow> Inl e | (Inr _, s) \<Rightarrow> Inr s)"

definition reconcile_commit ::
    "payments_ctx \<Rightarrow> nat \<Rightarrow> payment_status \<Rightarrow> payments_db \<Rightarrow> exn + order_dto \<times> payments_db" where
  "reconcile_commit ctx i status db =
     bindE (require_order db i) (\<lambda>po.
     bindE (case pst_state status of
       PS_captured \<Rightarrow>
         bindE (requireE (pst_currency status = Some ''CNY''
             \<and> pst_captured_amount status = Some (po_amount po))
           (payments_conflict ''payments.amount_mismatch'')) (\<lambda>_.
         session_result (capture_order ctx (po_amount po) po db))
     | PS_failed \<Rightarrow> session_result (fail_order ctx po db)
     | PS_unknown \<Rightarrow> Inr db
     | PS_pending \<Rightarrow> Inr db) (\<lambda>db1.
     bindE (require_order db1 i) (\<lambda>po'.
     bindE (to_order po') (\<lambda>dto. Inr (dto, db1)))))"

definition reconcile_payment_order ::
    "payments_ctx \<Rightarrow> nat \<Rightarrow> payments_db \<Rightarrow> exn + order_dto \<times> payments_db" where
  "reconcile_payment_order ctx i db =
     bindE (reconcile_read ctx i db) (\<lambda>r. case r of
       Inl dto \<Rightarrow> Inr (dto, db)
     | Inr status \<Rightarrow> reconcile_commit ctx i status db)"

section \<open>Refunds\<close>

definition find_refund :: "payments_db \<Rightarrow> nat \<Rightarrow> string \<Rightarrow> payment_refund option" where
  "find_refund db i key = find (\<lambda>r. rf_order r = i \<and> rf_idempotency_key r = key) (pm_refunds db)"

definition refund_fits :: "payment_order \<Rightarrow> refund_input \<Rightarrow> exn + unit" where
  "refund_fits po c = requireE (\<not> po_captured_amount po < po_refunded_amount po + rq_amount c)
     (KernelError ''payments.refund_exceeds_captured'' VALIDATION)"

definition request_refund_read ::
    "payments_ctx \<Rightarrow> nat \<Rightarrow> refund_input \<Rightarrow> payments_db \<Rightarrow> exn + (refund_dto + provider_refund)" where
  "request_refund_read ctx i c db =
     bindE (payments_require ctx ''payments.refund'') (\<lambda>_.
     bindE (require_order db i) (\<lambda>po.
     bindE (requireE (paid_state (po_state po)) (payments_conflict ''payments.not_refundable'')) (\<lambda>_.
     case find_refund db (po_id po) (rq_idempotency_key c) of
       Some r \<Rightarrow> bindE (to_refund r) (\<lambda>dto. Inr (Inl dto))
     | None \<Rightarrow>
         bindE (refund_fits po c) (\<lambda>_.
         bindE (get_provider ctx (po_provider_key po)) (\<lambda>prov.
         bindE (call_provider (pv_create_refund prov
             (case po_provider_ref po of None \<Rightarrow> [] | Some r \<Rightarrow> r) (rq_amount c) (po_currency po)
             (''refund:'' @ show_nat (po_id po) @ '':'' @ rq_idempotency_key c) (rq_reason c)))
           (\<lambda>pr. Inr (Inr pr)))))))"

definition request_refund_commit ::
    "payments_ctx \<Rightarrow> nat \<Rightarrow> refund_input \<Rightarrow> provider_refund \<Rightarrow> payments_db
      \<Rightarrow> exn + refund_dto \<times> payments_db" where
  "request_refund_commit ctx i c pr db =
     bindE (require_order db i) (\<lambda>po.
     bindE (refund_fits po c) (\<lambda>_.
     bindE (requireE (find_refund db (po_id po) (rq_idempotency_key c) = None)
       (payments_conflict ''payments.duplicate_refund'')) (\<lambda>_.
     let r = \<lparr>rf_id = pm_next_id db, rf_order = po_id po, rf_ref = pr_ref pr, rf_amount = rq_amount c,
           rf_currency = po_currency po, rf_state = pr_state pr,
           rf_idempotency_key = rq_idempotency_key c, rf_reason = rq_reason c,
           rf_completed_at = (if pr_state pr = RF_completed then Some (pc_now ctx) else None),
           rf_created_at = pc_now ctx\<rparr>;
         db1 = db\<lparr>pm_refunds := pm_refunds db @ [r], pm_next_id := Suc (pm_next_id db)\<rparr> in
     if pr_state pr \<noteq> RF_completed then bindE (to_refund r) (\<lambda>dto. Inr (dto, db1))
     else
       let po1 = po\<lparr>po_refunded_amount := po_refunded_amount po + rq_amount c\<rparr>;
           target = refund_target po1 in
       bindE (transition_ok po1 target) (\<lambda>_.
       let po2 = po1\<lparr>po_state := target\<rparr> in
       bindE (payments_emit ctx ''payment.refund_completed.v1'' po2
         [(''refund_ref'', JStr (rf_ref r)), (''refund_amount'', JInt (rf_amount r))]
         (save_order po2 db1)) (\<lambda>db2.
       bindE (to_refund r) (\<lambda>dto. Inr (dto, db2)))))))"

definition request_refund ::
    "payments_ctx \<Rightarrow> nat \<Rightarrow> refund_input \<Rightarrow> payments_db \<Rightarrow> exn + refund_dto \<times> payments_db" where
  "request_refund ctx i c db =
     bindE (request_refund_read ctx i c db) (\<lambda>r. case r of
       Inl dto \<Rightarrow> Inr (dto, db)
     | Inr pr \<Rightarrow> request_refund_commit ctx i c pr db)"

section \<open>Queries\<close>

fun traverseE :: "('a \<Rightarrow> 'e + 'b) \<Rightarrow> 'a list \<Rightarrow> 'e + 'b list" where
  "traverseE f [] = Inr []"
| "traverseE f (x # xs) = bindE (f x) (\<lambda>y. bindE (traverseE f xs) (\<lambda>ys. Inr (y # ys)))"

definition optional_dto :: "('a \<Rightarrow> exn + 'b) \<Rightarrow> 'a option \<Rightarrow> exn + 'b option" where
  "optional_dto f v = (case v of None \<Rightarrow> Inr None | Some x \<Rightarrow> bindE (f x) (\<lambda>y. Inr (Some y)))"

definition get_order_by_reference :: "payments_db \<Rightarrow> string \<Rightarrow> exn + order_dto option" where
  "get_order_by_reference db ref =
     optional_dto to_order (find (\<lambda>x. po_order_reference x = ref) (pm_orders db))"

definition get_order_dto :: "payments_db \<Rightarrow> nat \<Rightarrow> exn + order_dto option" where
  "get_order_dto db i = optional_dto to_order (get_order db i)"

record order_filter =
  qf_state :: "order_state option"
  qf_provider_key :: "string option"
  qf_subject_type :: "string option"
  qf_subject_id :: "string option"

definition opt_eq :: "'a option \<Rightarrow> 'a \<Rightarrow> bool" where
  "opt_eq v x = (case v of None \<Rightarrow> True | Some y \<Rightarrow> x = y)"

definition order_matches :: "order_filter \<Rightarrow> payment_order \<Rightarrow> bool" where
  "order_matches f po \<longleftrightarrow> opt_eq (qf_state f) (po_state po)
     \<and> opt_eq (qf_provider_key f) (po_provider_key po)
     \<and> opt_eq (qf_subject_type f) (po_subject_type po)
     \<and> opt_eq (qf_subject_id f) (po_subject_id po)"

record order_page =
  pg_items :: "order_dto list"
  pg_page :: int
  pg_size :: int
  pg_total :: nat

text \<open>A negative OFFSET or LIMIT is an error of the database.\<close>

definition list_orders ::
    "order_filter \<Rightarrow> int \<Rightarrow> int \<Rightarrow> payments_db \<Rightarrow> exn + order_page" where
  "list_orders f page n db =
     (let rows = filter (order_matches f) (pm_orders db);
          sorted_rows = sort_key (\<lambda>x. (- po_created_at x, - int (po_id x))) rows;
          offset = (page - 1) * n in
      bindE (requireE (0 \<le> offset \<and> 0 \<le> n) (PyException ''DBAPIError'')) (\<lambda>_.
      bindE (traverseE to_order (take (nat n) (drop (nat offset) sorted_rows))) (\<lambda>items.
      Inr \<lparr>pg_items = items, pg_page = page, pg_size = n, pg_total = length rows\<rparr>)))"

record order_detail =
  dt_order :: order_dto
  dt_attempts :: "payment_attempt list"
  dt_refunds :: "refund_dto list"

definition detail_refund :: "payment_refund \<Rightarrow> exn + refund_dto" where
  "detail_refund r =
     bindE (requireE (rf_currency r = ''CNY'') (PyException ''ValidationError'')) (\<lambda>_. to_refund r)"

definition get_order_detail :: "payments_db \<Rightarrow> nat \<Rightarrow> exn + order_detail option" where
  "get_order_detail db i = (case get_order db i of
     None \<Rightarrow> Inr None
   | Some po \<Rightarrow>
       bindE (to_order po) (\<lambda>dto.
       bindE (traverseE detail_refund (sort_key (\<lambda>r. (rf_created_at r, rf_id r))
         (filter (\<lambda>r. rf_order r = po_id po) (pm_refunds db)))) (\<lambda>refunds.
       Inr (Some \<lparr>dt_order = dto,
         dt_attempts = sort_key (\<lambda>a. (pa_attempt a, pa_id a))
           (filter (\<lambda>a. pa_order a = po_id po) (pm_attempts db)),
         dt_refunds = refunds\<rparr>))))"

section \<open>Diagnostics\<close>

datatype probe_status = Probe_ok | Probe_degraded

definition probe :: "string \<Rightarrow> nat \<Rightarrow> string \<times> probe_status \<times> nat" where
  "probe code n = (code, if n = 0 then Probe_ok else Probe_degraded, n)"

definition count_rows :: "('r \<Rightarrow> bool) \<Rightarrow> 'r list \<Rightarrow> nat" where
  "count_rows p t = length (filter p t)"

definition payments_diagnostics :: "time \<Rightarrow> payments_db \<Rightarrow> (string \<times> probe_status \<times> nat) list" where
  "payments_diagnostics now db =
    [probe ''payments.stale_orders'' (count_rows (\<lambda>x. (po_state x = OS_created \<or> po_state x = OS_pending)
       \<and> po_created_at x < now - seconds (24 * 3600)) (pm_orders db)),
     probe ''payments.captured_amount_mismatch'' (count_rows (\<lambda>x. po_state x = OS_captured
       \<and> po_captured_amount x \<noteq> po_amount x) (pm_orders db)),
     probe ''payments.stale_refunds'' (count_rows (\<lambda>r. rf_state r \<noteq> RF_completed
       \<and> rf_created_at r < now - seconds (24 * 3600)) (pm_refunds db)),
     probe ''payments.orphan_webhooks'' (count_rows (\<lambda>r. wr_state r = RS_verified
       \<and> wr_order r = None) (pm_receipts db))]"

end
