(* ===== verification/Payments_Invariant.thy ===== *)
theory Payments_Invariant
  imports Payments_Commands
begin

text \<open>
  The transactions of the payments capability as a step relation, and the invariant they keep:
  what an order's state says about the money captured and refunded, about the refund rows and
  about the captured events in the outbox.
\<close>

section \<open>Transactions\<close>

definition payment_event_keys :: "string list" where
  "payment_event_keys = [''payment.order_created.v1'', ''payment.pending.v1'',
     ''payment.captured.v1'', ''payment.failed.v1'', ''payment.cancelled.v1'',
     ''payment.refund_completed.v1'']"

text \<open>The capability's event schemas are registered and accept the payloads they dumped.\<close>

definition payment_events_ok :: "payments_ctx \<Rightarrow> bool" where
  "payment_events_ok ctx \<longleftrightarrow>
     (\<forall>key\<in>set payment_event_keys. \<forall>payload. validate_payload (pc_schemas ctx) key payload = Inr ())"

inductive payments_step :: "payments_db \<Rightarrow> payments_db \<Rightarrow> bool" where
  py_create: "payment_events_ok ctx \<Longrightarrow> create_input_ok c
    \<Longrightarrow> create_payment_order ctx c db = Inr (dto, db') \<Longrightarrow> payments_step db db'"
| py_start: "payment_events_ok ctx \<Longrightarrow> start_attempt_commit ctx i session db = Inr (res, db')
    \<Longrightarrow> payments_step db db'"
| py_cancel: "payment_events_ok ctx \<Longrightarrow> cancel_payment_order ctx i db = Inr (dto, db')
    \<Longrightarrow> payments_step db db'"
| py_webhook: "payment_events_ok ctx \<Longrightarrow> webhook_transaction ctx prov digest ev db = (r, db')
    \<Longrightarrow> payments_step db db'"
| py_reconcile: "payment_events_ok ctx \<Longrightarrow> reconcile_commit ctx i status db = Inr (dto, db')
    \<Longrightarrow> payments_step db db'"
| py_refund: "payment_events_ok ctx \<Longrightarrow> refund_input_ok rc
    \<Longrightarrow> request_refund_commit ctx i rc pr db = Inr (rdto, db') \<Longrightarrow> payments_step db db'"
| py_dispatch: "map om_envelope box = map om_envelope (pm_outbox db)
    \<Longrightarrow> payments_step db (db\<lparr>pm_outbox := box\<rparr>)"

abbreviation payments_steps :: "payments_db \<Rightarrow> payments_db \<Rightarrow> bool" where
  "payments_steps \<equiv> payments_step\<^sup>*\<^sup>*"

section \<open>The invariant\<close>

definition completed_sum :: "payments_db \<Rightarrow> nat \<Rightarrow> int" where
  "completed_sum db i =
     group_sum (\<lambda>r. rf_order r = i \<and> rf_state r = RF_completed) rf_amount (pm_refunds db)"

definition is_capture_of :: "nat \<Rightarrow> outbox_message \<Rightarrow> bool" where
  "is_capture_of i m \<longleftrightarrow> ev_key (om_envelope m) = ''payment.captured.v1''
     \<and> ev_aggregate_id (om_envelope m) = Some (show_nat i)"

definition capture_events :: "payments_db \<Rightarrow> nat \<Rightarrow> nat" where
  "capture_events db i = length (filter (is_capture_of i) (pm_outbox db))"

definition money_ok :: "payment_order \<Rightarrow> int \<Rightarrow> nat \<Rightarrow> bool" where
  "money_ok po refunded captures \<longleftrightarrow> po_currency po = ''CNY'' \<and> 0 < po_amount po
     \<and> po_captured_amount po = (if paid_state (po_state po) then po_amount po else 0)
     \<and> po_refunded_amount po = refunded
     \<and> captures = (if paid_state (po_state po) then 1 else 0)
     \<and> (case po_state po of
          OS_partially_refunded \<Rightarrow> 0 < refunded \<and> refunded < po_amount po
        | OS_refunded \<Rightarrow> po_amount po \<le> refunded \<and> refunded < 2 * po_amount po
        | _ \<Rightarrow> refunded = 0)"

definition refund_row_ok :: "payment_order list \<Rightarrow> payment_refund \<Rightarrow> bool" where
  "refund_row_ok orders r \<longleftrightarrow> 0 < rf_amount r \<and> rf_currency r = ''CNY''
     \<and> list_ex (\<lambda>x. po_id x = rf_order r \<and> rf_amount r \<le> po_amount x) orders"

definition payments_inv :: "payments_db \<Rightarrow> bool" where
  "payments_inv db \<longleftrightarrow>
     distinct (map po_id (pm_orders db)) \<and> distinct (map rf_id (pm_refunds db))
     \<and> (\<forall>x\<in>set (pm_orders db). po_id x < pm_next_id db
          \<and> money_ok x (completed_sum db (po_id x)) (capture_events db (po_id x)))
     \<and> (\<forall>r\<in>set (pm_refunds db). rf_id r < pm_next_id db \<and> refund_row_ok (pm_orders db) r)
     \<and> (\<forall>i. i \<notin> po_id ` set (pm_orders db) \<longrightarrow> capture_events db i = 0)"

lemma payments_invD:
  assumes "payments_inv db"
  shows "distinct (map po_id (pm_orders db))" and "distinct (map rf_id (pm_refunds db))"
    and "x \<in> set (pm_orders db) \<Longrightarrow> po_id x < pm_next_id db"
    and "x \<in> set (pm_orders db) \<Longrightarrow> money_ok x (completed_sum db (po_id x)) (capture_events db (po_id x))"
    and "r \<in> set (pm_refunds db) \<Longrightarrow> rf_id r < pm_next_id db"
    and "r \<in> set (pm_refunds db) \<Longrightarrow> refund_row_ok (pm_orders db) r"
    and "i \<notin> po_id ` set (pm_orders db) \<Longrightarrow> capture_events db i = 0"
  using assms by (auto simp: payments_inv_def)

lemma payments_inv_empty: "payments_inv empty_payments_db"
  by (simp add: payments_inv_def empty_payments_db_def capture_events_def)

lemma get_order_id: "get_order db i = Some po \<Longrightarrow> po_id po = i \<and> po \<in> set (pm_orders db)"
  unfolding get_order_def by (auto dest: find_Some_mem)

lemma get_order_mem: "distinct (map po_id (pm_orders db)) \<Longrightarrow> po \<in> set (pm_orders db)
    \<Longrightarrow> get_order db (po_id po) = Some po"
  unfolding get_order_def by (rule find_key_unique)

lemma save_order_tables [table_simps]:
  "pm_attempts (save_order po db) = pm_attempts db"
  "pm_receipts (save_order po db) = pm_receipts db"
  "pm_refunds (save_order po db) = pm_refunds db"
  "pm_outbox (save_order po db) = pm_outbox db"
  "pm_next_id (save_order po db) = pm_next_id db"
  by (simp_all add: save_order_def)

lemma get_save_order [table_simps]:
  "get_order (save_order po db) i
     = map_option (\<lambda>x. if po_id x = po_id po then po else x) (get_order db i)"
  unfolding get_order_def save_order_def
  by (simp, subst find_update_where') auto

text \<open>Fields an order never changes.\<close>

definition same_order :: "payment_order \<Rightarrow> payment_order \<Rightarrow> bool" where
  "same_order a b \<longleftrightarrow> po_id b = po_id a \<and> po_amount b = po_amount a \<and> po_currency b = po_currency a
     \<and> po_provider_key b = po_provider_key a \<and> po_order_reference b = po_order_reference a
     \<and> po_idempotency_key b = po_idempotency_key a \<and> po_subject_id b = po_subject_id a
     \<and> po_offer_key b = po_offer_key a"

section \<open>Events\<close>

lemma payment_event_keysI: "payment_events_ok ctx \<Longrightarrow> key \<in> set payment_event_keys
    \<Longrightarrow> validate_payload (pc_schemas ctx) key payload = Inr ()"
  by (simp add: payment_events_ok_def)

lemma payments_emit_appends:
  assumes "payment_events_ok ctx" and "key \<in> set payment_event_keys" and "po_currency po = ''CNY''"
  obtains m where "payments_emit ctx key po values db
      = Inr (db\<lparr>pm_outbox := pm_outbox db @ [m], pm_next_id := pm_next_id db + 2\<rparr>)"
    and "\<And>i. is_capture_of i m \<longleftrightarrow> key = ''payment.captured.v1'' \<and> i = po_id po"
proof -
  from assms(3) obtain payload where payload: "payment_payload key po values = Inr payload"
    by (simp add: payment_payload_def)
  show thesis
    by (rule that, simp add: payments_emit_def payload outbox_append_def
        payment_event_keysI[OF assms(1,2)])
      (auto simp: is_capture_of_def new_message_def)
qed

lemma payments_emit_cases:
  assumes "payments_emit ctx key po values db = Inr db'"
  shows "\<exists>m. db' = db\<lparr>pm_outbox := pm_outbox db @ [m], pm_next_id := pm_next_id db + 2\<rparr>
    \<and> (\<forall>i. is_capture_of i m \<longleftrightarrow> key = ''payment.captured.v1'' \<and> i = po_id po)"
proof -
  from assms obtain payload where payload: "payment_payload key po values = Inr payload"
    and valid: "validate_payload (pc_schemas ctx) key payload = Inr ()"
    by (auto simp: payments_emit_def outbox_append_def cmd_ok)
  let ?m = "new_message (pm_next_id db + 1) (pc_now ctx)
    \<lparr>ev_id = pm_next_id db, ev_key = key, ev_occurred_at = pc_now ctx, ev_producer = ''payments'',
      ev_aggregate_type = Some ''payments'', ev_aggregate_id = Some (show_nat (po_id po)),
      ev_trace_id = pc_trace_id ctx, ev_payload = payload\<rparr>"
  from assms payload valid
  have "db' = db\<lparr>pm_outbox := pm_outbox db @ [?m], pm_next_id := pm_next_id db + 2\<rparr>"
    by (simp add: payments_emit_def outbox_append_def)
  moreover have "\<forall>i. is_capture_of i ?m \<longleftrightarrow> key = ''payment.captured.v1'' \<and> i = po_id po"
    by (auto simp: is_capture_of_def new_message_def)
  ultimately show ?thesis by blast
qed

section \<open>Preservation\<close>

lemma payments_inv_cong:
  assumes "payments_inv db" and "pm_orders db' = pm_orders db" and "pm_refunds db' = pm_refunds db"
    and "map om_envelope (pm_outbox db') = map om_envelope (pm_outbox db)"
    and "pm_next_id db \<le> pm_next_id db'"
  shows "payments_inv db'"
proof -
  have "capture_events db' i = capture_events db i" for i
  proof -
    have "length (filter (is_capture_of i) box) = length (filter (\<lambda>e. ev_key e = ''payment.captured.v1''
        \<and> ev_aggregate_id e = Some (show_nat i)) (map om_envelope box))" for box
      by (induction box) (auto simp: is_capture_of_def)
    then show ?thesis by (simp only: capture_events_def assms(4))
  qed
  moreover have "completed_sum db' i = completed_sum db i" for i
    using assms(3) by (simp add: completed_sum_def)
  ultimately show ?thesis
    using assms(1,2,3,5) by (fastforce simp: payments_inv_def)
qed

text \<open>One order is written back with the refund rows, events and money that go with it.\<close>

lemma payments_inv_save:
  assumes inv: "payments_inv db" and po: "get_order db i = Some po" and same: "same_order po po'"
    and orders: "pm_orders db' = pm_orders (save_order po' db)"
    and nxt: "pm_next_id db \<le> pm_next_id db'"
    and money: "money_ok po' (completed_sum db' i) (capture_events db' i)"
    and others: "\<And>j. j \<noteq> i \<Longrightarrow> completed_sum db' j = completed_sum db j
        \<and> capture_events db' j = capture_events db j"
    and refunds: "distinct (map rf_id (pm_refunds db'))"
      "\<And>r. r \<in> set (pm_refunds db') \<Longrightarrow> rf_id r < pm_next_id db' \<and> refund_row_ok (pm_orders db) r"
  shows "payments_inv db'"
proof -
  from get_order_id[OF po] have i: "po_id po = i" "po \<in> set (pm_orders db)" by auto
  with same have i': "po_id po' = i" by (simp add: same_order_def)
  have ids: "map po_id (pm_orders db') = map po_id (pm_orders db)"
    unfolding orders save_order_def using i' by (simp, intro map_update_where') simp
  have rows: "x = po' \<or> x \<in> set (pm_orders db) \<and> po_id x \<noteq> i" if "x \<in> set (pm_orders db')" for x
    using that i' by (auto simp: orders save_order_def set_update_where split: if_splits)
  have "refund_row_ok (pm_orders db') r" if "refund_row_ok (pm_orders db) r" for r
  proof -
    from that obtain x where x: "x \<in> set (pm_orders db)" "po_id x = rf_order r"
        "rf_amount r \<le> po_amount x" "0 < rf_amount r" "rf_currency r = ''CNY''"
      by (auto simp: refund_row_ok_def list_ex_iff)
    show ?thesis
    proof (cases "po_id x = i")
      case True
      then have "x = po" using payments_invD(1)[OF inv] x(1) i by (metis distinct_map inj_onD)
      with same have "rf_amount r \<le> po_amount po'" "po_id po' = rf_order r"
        using x by (simp_all add: same_order_def)
      moreover have "po' \<in> set (pm_orders db')"
        using i i' by (auto simp: orders save_order_def set_update_where image_iff)
      ultimately show ?thesis using x by (auto simp: refund_row_ok_def list_ex_iff)
    next
      case False
      then have "x \<in> set (pm_orders db')"
        using x(1) i' by (auto simp: orders save_order_def set_update_where image_iff)
      with x show ?thesis by (auto simp: refund_row_ok_def list_ex_iff)
    qed
  qed
  moreover have "po_id x < pm_next_id db'
      \<and> money_ok x (completed_sum db' (po_id x)) (capture_events db' (po_id x))"
    if "x \<in> set (pm_orders db')" for x
    using rows[OF that] payments_invD(3,4)[OF inv, of x] payments_invD(3)[OF inv i(2)] i i' money
      others[of "po_id x"] nxt by auto
  moreover have "i \<in> po_id ` set (pm_orders db)" using i by force
  then have "capture_events db' j = 0" if "j \<notin> po_id ` set (pm_orders db')" for j
    using that ids payments_invD(7)[OF inv, of j] others[of j]
    by (metis list.set_map)
  ultimately show ?thesis
    using ids payments_invD(1)[OF inv] refunds unfolding payments_inv_def by auto
qed

text \<open>An order changes and an event is appended; refunds stay.\<close>

lemma capture_events_append:
  "pm_outbox db' = pm_outbox db @ [m] \<Longrightarrow>
     capture_events db' j = capture_events db j + (if is_capture_of j m then 1 else 0)"
  by (simp add: capture_events_def)

lemma payments_inv_event:
  assumes inv: "payments_inv db" and po: "get_order db i = Some po" and same: "same_order po po'"
    and orders: "pm_orders db' = pm_orders (save_order po' db)" "pm_refunds db' = pm_refunds db"
      "pm_outbox db' = pm_outbox db @ [m]" "pm_next_id db \<le> pm_next_id db'"
    and m: "\<And>j. is_capture_of j m \<longleftrightarrow> capture \<and> j = i"
    and money: "money_ok po' (completed_sum db i) (capture_events db i + (if capture then 1 else 0))"
  shows "payments_inv db'"
proof (rule payments_inv_save[OF inv po same orders(1,4)])
  have c: "completed_sum db' j = completed_sum db j" for j
    using orders(2) by (simp add: completed_sum_def)
  note e = capture_events_append[OF orders(3)]
  show "money_ok po' (completed_sum db' i) (capture_events db' i)"
    using money m by (simp add: c e)
  show "completed_sum db' j = completed_sum db j \<and> capture_events db' j = capture_events db j"
    if "j \<noteq> i" for j
    using that m by (simp add: c e)
qed (use payments_invD[OF inv] orders in \<open>auto intro: less_le_trans\<close>)

lemma money_unpaid_move:
  assumes "money_ok po c n" and "\<not> paid_state (po_state po)" and "\<not> paid_state (po_state po')"
    and "same_order po po'" and "po_captured_amount po' = po_captured_amount po"
    and "po_refunded_amount po' = po_refunded_amount po"
  shows "money_ok po' c n"
  using assms
  by (cases "po_state po"; cases "po_state po'") (auto simp: money_ok_def same_order_def paid_state_def)

lemma transition_okD [cmd_ok]:
  "transition_ok po st = Inr u \<longleftrightarrow> st \<in> set (allowed_transitions (po_state po))"
  by (simp add: transition_ok_def cmd_ok)

lemma to_unpaid_from_unpaid:
  assumes "st \<in> set (allowed_transitions old)" and "\<not> paid_state st"
  shows "\<not> paid_state old"
  using assms by (cases old) (auto simp: paid_state_def)

lemma payments_inv_create:
  assumes inv: "payments_inv db" and c: "create_input_ok c"
    and run: "create_payment_order ctx c db = Inr (dto, db')"
  shows "payments_inv db'"
proof (cases "find_order_by_key db (co_provider_key c) (co_idempotency_key c)")
  case (Some po)
  with run inv show ?thesis by (auto simp: create_payment_order_def cmd_ok)
next
  case None
  let ?po = "new_order ctx (pm_next_id db) c"
  let ?db1 = "db\<lparr>pm_orders := pm_orders db @ [?po], pm_next_id := Suc (pm_next_id db)\<rparr>"
  from run None obtain vals where emit: "payments_emit ctx ''payment.order_created.v1'' ?po vals ?db1
      = Inr db'"
    by (auto simp: create_payment_order_def insert_order_def Let_def cmd_ok)
  from payments_emit_cases[OF emit] obtain m where
    db': "db' = ?db1\<lparr>pm_outbox := pm_outbox db @ [m], pm_next_id := Suc (pm_next_id db) + 2\<rparr>"
    and m: "\<And>j. \<not> is_capture_of j m" by auto
  have sums: "completed_sum db' j = completed_sum db j" "capture_events db' j = capture_events db j" for j
    using m by (simp_all add: db' completed_sum_def capture_events_def)
  have fresh: "pm_next_id db \<notin> po_id ` set (pm_orders db)"
    using payments_invD(3)[OF inv] by force
  have "completed_sum db (pm_next_id db) = 0"
  proof -
    have "rf_order r \<noteq> pm_next_id db" if r: "r \<in> set (pm_refunds db)" for r
    proof -
      from payments_invD(6)[OF inv r] have "rf_order r \<in> po_id ` set (pm_orders db)"
        by (auto simp: refund_row_ok_def list_ex_iff intro: rev_image_eqI)
      with fresh show ?thesis by metis
    qed
    then show ?thesis by (auto simp: completed_sum_def intro: group_sum_empty_group)
  qed
  then have new: "money_ok ?po (completed_sum db (pm_next_id db)) (capture_events db (pm_next_id db))"
    using c payments_invD(7)[OF inv fresh]
    by (simp add: money_ok_def new_order_def create_input_ok_def paid_state_def)
  have refs: "refund_row_ok (pm_orders db') r" if "refund_row_ok (pm_orders db) r" for r
    using that by (auto simp: refund_row_ok_def db')
  show ?thesis
    unfolding payments_inv_def
  proof (intro conjI ballI allI impI)
    show "distinct (map po_id (pm_orders db'))"
      using payments_invD(1)[OF inv] fresh by (simp add: db' new_order_def)
    show "po_id x < pm_next_id db'" if "x \<in> set (pm_orders db')" for x
      using that payments_invD(3)[OF inv, of x] by (auto simp: db' new_order_def)
    show "money_ok x (completed_sum db' (po_id x)) (capture_events db' (po_id x))"
      if "x \<in> set (pm_orders db')" for x
      using that payments_invD(4)[OF inv, of x] new unfolding sums
      by (auto simp: db' new_order_def)
    show "capture_events db' i = 0" if "i \<notin> po_id ` set (pm_orders db')" for i
      using that payments_invD(7)[OF inv, of i] unfolding sums by (auto simp: db')
  qed (use payments_invD(2,5,6)[OF inv] refs in \<open>auto simp: db' less_SucI\<close>)
qed

section \<open>Order transitions\<close>

definition captured_order :: "payments_ctx \<Rightarrow> int \<Rightarrow> payment_order \<Rightarrow> payment_order" where
  "captured_order ctx amount po = po\<lparr>po_state := OS_captured, po_captured_amount := amount,
     po_captured_at := Some (pc_now ctx)\<rparr>"

definition failed_order :: "payments_ctx \<Rightarrow> payment_order \<Rightarrow> payment_order" where
  "failed_order ctx po = po\<lparr>po_state := OS_failed, po_failed_at := Some (pc_now ctx)\<rparr>"

text \<open>Under registered schemas the only exception of a capture is the transition's.\<close>

lemma capture_order_cases:
  assumes "payment_events_ok ctx" and "po_currency po = ''CNY''"
  shows "(po_state po \<noteq> OS_pending \<and> capture_order ctx amount po db
            = (Inl (payments_conflict ''payments.invalid_transition''), db))
    \<or> (po_state po = OS_pending \<and> (\<exists>m. (\<forall>j. is_capture_of j m \<longleftrightarrow> j = po_id po)
        \<and> capture_order ctx amount po db = (Inr (), (save_order (captured_order ctx amount po) db)
            \<lparr>pm_outbox := pm_outbox db @ [m], pm_next_id := pm_next_id db + 2\<rparr>)))"
proof -
  let ?po = "captured_order ctx amount po"
  have "po_currency ?po = ''CNY''" "po_id ?po = po_id po"
    using assms(2) by (simp_all add: captured_order_def)
  with payments_emit_appends[OF assms(1), of "''payment.captured.v1''" ?po
      "[(''provider_ref'', JStr (case po_provider_ref ?po of None \<Rightarrow> [] | Some r \<Rightarrow> r))]"
      "save_order ?po db"] obtain m where
    emit: "payments_emit ctx ''payment.captured.v1'' ?po
        [(''provider_ref'', JStr (case po_provider_ref ?po of None \<Rightarrow> [] | Some r \<Rightarrow> r))] (save_order ?po db)
      = Inr ((save_order ?po db)\<lparr>pm_outbox := pm_outbox db @ [m], pm_next_id := pm_next_id db + 2\<rparr>)"
    and m: "\<And>j. is_capture_of j m \<longleftrightarrow> j = po_id po"
    by (auto simp: payment_event_keys_def table_simps)
  show ?thesis
  proof (cases "po_state po = OS_pending")
    case True
    then have "capture_order ctx amount po db = (Inr (), (save_order ?po db)
        \<lparr>pm_outbox := pm_outbox db @ [m], pm_next_id := pm_next_id db + 2\<rparr>)"
      using emit by (simp add: capture_order_def transition_ok_def requireE_def liftS_def Let_def
          captured_order_def)
    with True m show ?thesis by blast
  next
    case False
    then show ?thesis
      by (cases "po_state po")
        (simp_all add: capture_order_def transition_ok_def requireE_def liftS_def)
  qed
qed

lemma fail_order_cases:
  assumes "payment_events_ok ctx" and "po_currency po = ''CNY''"
  shows "(po_state po \<noteq> OS_created \<and> po_state po \<noteq> OS_pending \<and> fail_order ctx po db
            = (Inl (payments_conflict ''payments.invalid_transition''), db))
    \<or> ((po_state po = OS_created \<or> po_state po = OS_pending) \<and> (\<exists>m. (\<forall>j. \<not> is_capture_of j m)
        \<and> fail_order ctx po db = (Inr (), (save_order (failed_order ctx po) db)
            \<lparr>pm_outbox := pm_outbox db @ [m], pm_next_id := pm_next_id db + 2\<rparr>)))"
proof -
  let ?po = "failed_order ctx po"
  have "po_currency ?po = ''CNY''" using assms(2) by (simp add: failed_order_def)
  with payments_emit_appends[OF assms(1), of "''payment.failed.v1''" ?po "[]" "save_order ?po db"]
  obtain m where emit: "payments_emit ctx ''payment.failed.v1'' ?po [] (save_order ?po db)
      = Inr ((save_order ?po db)\<lparr>pm_outbox := pm_outbox db @ [m], pm_next_id := pm_next_id db + 2\<rparr>)"
    and m: "\<And>j. \<not> is_capture_of j m"
    by (auto simp: payment_event_keys_def table_simps)
  show ?thesis
  proof (cases "po_state po = OS_created \<or> po_state po = OS_pending")
    case True
    then have "fail_order ctx po db = (Inr (), (save_order ?po db)
        \<lparr>pm_outbox := pm_outbox db @ [m], pm_next_id := pm_next_id db + 2\<rparr>)"
      using emit by (auto simp: fail_order_def transition_ok_def requireE_def liftS_def Let_def
          failed_order_def)
    with True m show ?thesis by blast
  next
    case False
    then show ?thesis
      by (cases "po_state po")
        (simp_all add: fail_order_def transition_ok_def requireE_def liftS_def)
  qed
qed

lemma payments_inv_money:
  "payments_inv db \<Longrightarrow> get_order db i = Some po \<Longrightarrow> money_ok po (completed_sum db i) (capture_events db i)"
  using get_order_id[of db i po] payments_invD(4)[of db po] by auto

lemma payments_inv_currency:
  "payments_inv db \<Longrightarrow> get_order db i = Some po \<Longrightarrow> po_currency po = ''CNY''"
  using payments_inv_money[of db i po] by (simp add: money_ok_def)

lemma payments_inv_capture:
  assumes inv: "payments_inv db" and ctx: "payment_events_ok ctx" and po: "get_order db i = Some po"
    and run: "capture_order ctx (po_amount po) po db = (r, db')"
  shows "payments_inv db' \<and> (isl r \<longrightarrow> db' = db)"
proof -
  from get_order_id[OF po] have i: "po_id po = i" by simp
  note money = payments_inv_money[OF inv po]
  from capture_order_cases[OF ctx payments_inv_currency[OF inv po], of "po_amount po" db] run
  consider (no) "r = Inl (payments_conflict ''payments.invalid_transition'')" "db' = db"
    | (yes) m where "po_state po = OS_pending" "r = Inr ()" "\<And>j. is_capture_of j m \<longleftrightarrow> j = i"
      "db' = (save_order (captured_order ctx (po_amount po) po) db)
            \<lparr>pm_outbox := pm_outbox db @ [m], pm_next_id := pm_next_id db + 2\<rparr>"
    using i by auto
  then show ?thesis
  proof cases
    case yes
    have "payments_inv db'"
    proof (rule payments_inv_event[OF inv po])
      show "same_order po (captured_order ctx (po_amount po) po)"
        by (simp add: same_order_def captured_order_def)
      show "is_capture_of j m \<longleftrightarrow> True \<and> j = i" for j using yes(3) by simp
      show "money_ok (captured_order ctx (po_amount po) po) (completed_sum db i)
          (capture_events db i + (if True then 1 else 0))"
        using money yes(1) by (simp add: money_ok_def captured_order_def paid_state_def)
    qed (simp_all add: yes(4) table_simps)
    with yes(2) show ?thesis by simp
  qed (use inv in simp)
qed

lemma payments_inv_fail:
  assumes inv: "payments_inv db" and ctx: "payment_events_ok ctx" and po: "get_order db i = Some po"
    and run: "fail_order ctx po db = (r, db')"
  shows "payments_inv db' \<and> (isl r \<longrightarrow> db' = db)"
proof -
  note money = payments_inv_money[OF inv po]
  from fail_order_cases[OF ctx payments_inv_currency[OF inv po], of db] run
  consider (no) "r = Inl (payments_conflict ''payments.invalid_transition'')" "db' = db"
    | (yes) m where "po_state po = OS_created \<or> po_state po = OS_pending" "r = Inr ()"
      "\<And>j. \<not> is_capture_of j m" "db' = (save_order (failed_order ctx po) db)
            \<lparr>pm_outbox := pm_outbox db @ [m], pm_next_id := pm_next_id db + 2\<rparr>"
    by auto
  then show ?thesis
  proof cases
    case yes
    have same: "same_order po (failed_order ctx po)" by (simp add: same_order_def failed_order_def)
    have "payments_inv db'"
    proof (rule payments_inv_event[OF inv po same])
      show "is_capture_of j m \<longleftrightarrow> False \<and> j = i" for j using yes(3) by simp
      show "money_ok (failed_order ctx po) (completed_sum db i)
          (capture_events db i + (if False then 1 else 0))"
        using money_unpaid_move[OF money _ _ same] yes(1)
        by (auto simp: failed_order_def paid_state_def)
    qed (simp_all add: yes(4) table_simps)
    with yes(2) show ?thesis by simp
  qed (use inv in simp)
qed

lemma payments_inv_unpaid_event:
  assumes inv: "payments_inv db" and po: "get_order db i = Some po" and same: "same_order po po'"
    and move: "po_state po' \<in> set (allowed_transitions (po_state po))" "\<not> paid_state (po_state po')"
      "po_captured_amount po' = po_captured_amount po" "po_refunded_amount po' = po_refunded_amount po"
    and emit: "payments_emit ctx key po' vals db1 = Inr db'" "key \<noteq> ''payment.captured.v1''"
      "pm_orders db1 = pm_orders (save_order po' db)" "pm_refunds db1 = pm_refunds db"
      "pm_outbox db1 = pm_outbox db" "pm_next_id db \<le> pm_next_id db1"
  shows "payments_inv db'"
proof -
  from payments_emit_cases[OF emit(1)] emit(2) obtain m where
    db': "db' = db1\<lparr>pm_outbox := pm_outbox db1 @ [m], pm_next_id := pm_next_id db1 + 2\<rparr>"
    and m: "\<And>j. \<not> is_capture_of j m" by auto
  show ?thesis
  proof (rule payments_inv_event[OF inv po same])
    show "is_capture_of j m \<longleftrightarrow> False \<and> j = i" for j using m by simp
    show "money_ok po' (completed_sum db i) (capture_events db i + (if False then 1 else 0))"
      using money_unpaid_move[OF payments_inv_money[OF inv po]
          to_unpaid_from_unpaid[OF move(1,2)] move(2) same move(3,4)] by simp
  qed (use emit in \<open>simp_all add: db'\<close>)
qed

lemma payments_inv_start:
  assumes inv: "payments_inv db" and run: "start_attempt_commit ctx i session db = Inr (res, db')"
  shows "payments_inv db'"
proof -
  from run obtain po where po: "get_order db i = Some po"
    and move: "OS_pending \<in> set (allowed_transitions (po_state po))"
    by (auto simp: start_attempt_commit_def require_order_def cmd_ok)
  let ?po = "po\<lparr>po_state := OS_pending, po_provider_ref := Some (ps_provider_ref session)\<rparr>"
  let ?db1 = "save_order ?po db"
  let ?db2 = "?db1\<lparr>pm_attempts := pm_attempts ?db1 @ [\<lparr>pa_id = pm_next_id ?db1, pa_order = i,
           pa_provider_ref = ps_provider_ref session, pa_attempt = 1, pa_state = ''pending'',
           pa_created_at = pc_now ctx\<rparr>], pm_next_id := Suc (pm_next_id ?db1)\<rparr>"
  from run po obtain vals where emit: "payments_emit ctx ''payment.pending.v1'' ?po vals ?db2 = Inr db'"
    by (auto simp: start_attempt_commit_def require_order_def cmd_ok Let_def)
  show ?thesis
    by (rule payments_inv_unpaid_event[OF inv po _ _ _ _ _ emit])
      (use move in \<open>simp_all add: same_order_def paid_state_def table_simps\<close>)
qed

lemma payments_inv_cancel:
  assumes inv: "payments_inv db" and run: "cancel_payment_order ctx i db = Inr (dto, db')"
  shows "payments_inv db'"
proof -
  from run obtain po where po: "get_order db i = Some po"
    and move: "OS_cancelled \<in> set (allowed_transitions (po_state po))"
    and emit: "payments_emit ctx ''payment.cancelled.v1'' (po\<lparr>po_state := OS_cancelled,
        po_cancelled_at := Some (pc_now ctx)\<rparr>) [] (save_order (po\<lparr>po_state := OS_cancelled,
        po_cancelled_at := Some (pc_now ctx)\<rparr>) db) = Inr db'"
    by (auto simp: cancel_payment_order_def require_order_def cmd_ok Let_def)
  show ?thesis
    by (rule payments_inv_unpaid_event[OF inv po _ _ _ _ _ emit])
      (use move in \<open>simp_all add: same_order_def paid_state_def table_simps\<close>)
qed

section \<open>Refunds\<close>

text \<open>The order after a completed refund of the amount.\<close>

definition refunded_order :: "int \<Rightarrow> payment_order \<Rightarrow> payment_order" where
  "refunded_order amount po =
     (let po1 = po\<lparr>po_refunded_amount := po_refunded_amount po + amount\<rparr>
      in po1\<lparr>po_state := refund_target po1\<rparr>)"

lemma money_refunded:
  assumes "money_ok po c n" and "po_state po = OS_captured \<or> po_state po = OS_partially_refunded"
    and "0 < amount" and "amount \<le> po_amount po"
  shows "money_ok (refunded_order amount po) (c + amount) n"
  using assms
  by (auto simp: money_ok_def refunded_order_def Let_def refund_target_def paid_state_def)

lemma refunded_order_same: "same_order po (refunded_order amount po)"
  by (simp add: same_order_def refunded_order_def Let_def)

lemma refund_event_cases:
  assumes inv: "payments_inv db" and ctx: "payment_events_ok ctx" and po: "get_order db i = Some po"
  shows "(\<not> ((po_state po = OS_captured \<or> po_state po = OS_partially_refunded)
        \<and> find (\<lambda>r. rf_amount r = we_amount ev) (pending_refunds db i) \<noteq> None)
      \<and> (\<exists>e. apply_refund_event ctx ev po db = (Inl (payments_conflict e), db)))
    \<or> ((po_state po = OS_captured \<or> po_state po = OS_partially_refunded)
      \<and> (\<exists>r m. r \<in> set (pm_refunds db) \<and> rf_order r = i \<and> rf_state r = RF_pending
        \<and> rf_amount r = we_amount ev \<and> (\<forall>j. \<not> is_capture_of j m)
        \<and> apply_refund_event ctx ev po db = (Inr (), (save_order (refunded_order (rf_amount r) po)
             (save_refund (r\<lparr>rf_state := RF_completed, rf_completed_at := Some (pc_now ctx)\<rparr>) db))
             \<lparr>pm_outbox := pm_outbox db @ [m], pm_next_id := pm_next_id db + 2\<rparr>)))"
proof -
  from get_order_id[OF po] have i: "po_id po = i" by simp
  have cny: "po_currency po = ''CNY''" by (rule payments_inv_currency[OF inv po])
  show ?thesis
  proof (cases "(po_state po = OS_captured \<or> po_state po = OS_partially_refunded)
      \<and> find (\<lambda>r. rf_amount r = we_amount ev) (pending_refunds db i) \<noteq> None")
    case True
    then obtain r where f: "find (\<lambda>r. rf_amount r = we_amount ev) (pending_refunds db i) = Some r"
      and st: "po_state po = OS_captured \<or> po_state po = OS_partially_refunded" by auto
    from find_Some_mem[OF f] have r: "r \<in> set (pm_refunds db)" "rf_order r = i"
      "rf_state r = RF_pending" "rf_amount r = we_amount ev"
      by (auto simp: pending_refunds_def)
    let ?po1 = "po\<lparr>po_refunded_amount := po_refunded_amount po + rf_amount r\<rparr>"
    let ?po = "refunded_order (rf_amount r) po"
    let ?r = "r\<lparr>rf_state := RF_completed, rf_completed_at := Some (pc_now ctx)\<rparr>"
    let ?db = "save_order ?po (save_refund ?r db)"
    have twice: "save_order ?po (save_order ?po1 d) = save_order ?po d" for d
      by (simp add: save_order_def update_where_def refunded_order_def Let_def comp_def)
    have stay: "?po1 = ?po" if "refund_target ?po1 = po_state ?po1"
      using that by (simp add: refunded_order_def Let_def)
    have ok: "transition_ok ?po1 (refund_target ?po1) = Inr ()"
      if "refund_target ?po1 \<noteq> po_state ?po1"
      using st that by (auto simp: transition_ok_def requireE_def refund_target_def)
    have po2: "?po1\<lparr>po_state := refund_target ?po1\<rparr> = ?po" by (simp add: refunded_order_def Let_def)
    have "po_currency ?po = ''CNY''" using cny by (simp add: refunded_order_def Let_def)
    with payments_emit_appends[OF ctx, of "''payment.refund_completed.v1''" ?po
        "[(''refund_ref'', JStr (rf_ref ?r)), (''refund_amount'', JInt (rf_amount ?r))]" ?db]
    obtain m where emit: "payments_emit ctx ''payment.refund_completed.v1'' ?po
        [(''refund_ref'', JStr (rf_ref ?r)), (''refund_amount'', JInt (rf_amount ?r))] ?db
      = Inr (?db\<lparr>pm_outbox := pm_outbox db @ [m], pm_next_id := pm_next_id db + 2\<rparr>)"
      and m: "\<And>j. \<not> is_capture_of j m"
      by (auto simp: payment_event_keys_def table_simps save_refund_def)
    have "apply_refund_event ctx ev po db
        = (Inr (), ?db\<lparr>pm_outbox := pm_outbox db @ [m], pm_next_id := pm_next_id db + 2\<rparr>)"
    proof (cases "refund_target ?po1 = po_state ?po1")
      case True
      have e: "?po = ?po1" using stay[OF True] by (rule sym)
      from emit have emit: "payments_emit ctx ''payment.refund_completed.v1'' ?po1
          [(''refund_ref'', JStr (rf_ref ?r)), (''refund_amount'', JInt (rf_amount ?r))]
          (save_order ?po1 (save_refund ?r db)) = Inr ((save_order ?po1 (save_refund ?r db))
            \<lparr>pm_outbox := pm_outbox db @ [m], pm_next_id := pm_next_id db + 2\<rparr>)"
        unfolding e .
      show ?thesis
        unfolding e using st f i emit True
        by (simp add: apply_refund_event_def guardS_def Let_def liftS_def)
    next
      case False
      with st f i emit ok[OF False] po2 twice show ?thesis
        by (simp add: apply_refund_event_def guardS_def Let_def liftS_def)
    qed
    with st r m show ?thesis by blast
  next
    case False
    then show ?thesis using i by (auto simp: apply_refund_event_def guardS_def)
  qed
qed

lemma payments_inv_refund_event:
  assumes inv: "payments_inv db" and ctx: "payment_events_ok ctx" and po: "get_order db i = Some po"
    and amount: "we_amount ev \<le> po_amount po"
    and run: "apply_refund_event ctx ev po db = (res, db')"
  shows "payments_inv db' \<and> (isl res \<longrightarrow> db' = db)"
proof (cases "isl res")
  case True
  with refund_event_cases[OF inv ctx po, of ev] run inv show ?thesis by auto
next
  case False
  with refund_event_cases[OF inv ctx po, of ev] run obtain r m where st: "po_state po = OS_captured \<or> po_state po = OS_partially_refunded"
    and r: "r \<in> set (pm_refunds db)" "rf_order r = i" "rf_state r = RF_pending"
      "rf_amount r = we_amount ev" and m: "\<forall>j. \<not> is_capture_of j m"
    and res: "apply_refund_event ctx ev po db = (Inr (), (save_order (refunded_order (rf_amount r) po)
       (save_refund (r\<lparr>rf_state := RF_completed, rf_completed_at := Some (pc_now ctx)\<rparr>) db))
       \<lparr>pm_outbox := pm_outbox db @ [m], pm_next_id := pm_next_id db + 2\<rparr>)"
    by auto
  let ?po = "refunded_order (rf_amount r) po"
  let ?r = "r\<lparr>rf_state := RF_completed, rf_completed_at := Some (pc_now ctx)\<rparr>"
  have db': "db' = (save_order ?po (save_refund ?r db))
      \<lparr>pm_outbox := pm_outbox db @ [m], pm_next_id := pm_next_id db + 2\<rparr>" "res = Inr ()"
    using run res by simp_all
  have refunds: "pm_refunds db' = update_where (\<lambda>x. rf_id x = rf_id ?r) (\<lambda>_. ?r) (pm_refunds db)"
    by (simp add: db' save_order_def save_refund_def)
  have sums: "completed_sum db' j = completed_sum db j + (if j = i then rf_amount r else 0)" for j
    unfolding completed_sum_def refunds
    using r by (subst group_sum_replace[OF payments_invD(2)[OF inv] r(1)]) auto
  have caps: "capture_events db' j = capture_events db j" for j
    using m by (simp add: db' capture_events_def)
  from payments_invD(6)[OF inv r(1)] have pos: "0 < rf_amount r" by (simp add: refund_row_ok_def)
  have "payments_inv db'"
  proof (rule payments_inv_save[OF inv po refunded_order_same])
    show "pm_orders db' = pm_orders (save_order ?po db)"
      by (simp add: db' save_order_def save_refund_def)
    show "money_ok ?po (completed_sum db' i) (capture_events db' i)"
      unfolding sums caps
      using money_refunded[OF payments_inv_money[OF inv po] st pos] r(4) amount by simp
    show "distinct (map rf_id (pm_refunds db'))"
      unfolding refunds using payments_invD(2)[OF inv] by (subst map_update_where') auto
    show "rf_id x < pm_next_id db' \<and> refund_row_ok (pm_orders db) x" if "x \<in> set (pm_refunds db')" for x
    proof -
      have "x = ?r \<or> x \<in> set (pm_refunds db)"
        using that by (auto simp: refunds set_update_where split: if_splits)
      then show ?thesis
        using payments_invD(5,6)[OF inv, of x] payments_invD(5,6)[OF inv r(1)]
        by (auto simp: db'(1) refund_row_ok_def)
    qed
    show "completed_sum db' j = completed_sum db j \<and> capture_events db' j = capture_events db j"
      if "j \<noteq> i" for j using that by (simp add: sums caps)
    show "pm_next_id db \<le> pm_next_id db'" by (simp add: db' save_order_def save_refund_def)
  qed
  with db'(2) show ?thesis by simp
qed

section \<open>Webhooks, reconciliation and refund requests\<close>

text \<open>An event that raises while it is applied has changed nothing by then.\<close>

lemma payments_inv_apply:
  assumes inv: "payments_inv db" and ctx: "payment_events_ok ctx" and po: "get_order db i = Some po"
    and amount: "we_amount ev = po_amount po" and run: "apply_webhook ctx ev po db = (r, db')"
  shows "payments_inv db' \<and> (isl r \<longrightarrow> db' = db)"
proof (cases "we_kind ev")
  case WK_capture
  with run amount show ?thesis
    by (intro payments_inv_capture[OF inv ctx po]) (simp add: apply_webhook_def)
next
  case WK_failure
  with run show ?thesis by (intro payments_inv_fail[OF inv ctx po]) (simp add: apply_webhook_def)
next
  case WK_refund
  with run amount show ?thesis
    by (intro payments_inv_refund_event[OF inv ctx po]) (simp_all add: apply_webhook_def)
next
  case (WK_other k)
  with run inv show ?thesis by (simp add: apply_webhook_def)
qed

lemma apply_webhook_kernel_error:
  assumes "payments_inv db" and "payment_events_ok ctx" and "get_order db i = Some po"
    and "apply_webhook ctx ev po db = (Inl e, db')"
  shows "\<exists>c cat. e = KernelError c cat"
proof (cases "we_kind ev")
  case WK_capture
  with capture_order_cases[OF assms(2) payments_inv_currency[OF assms(1,3)], of "we_amount ev" db] assms(4)
  show ?thesis by (auto simp: apply_webhook_def payments_conflict_def)
next
  case WK_failure
  with fail_order_cases[OF assms(2) payments_inv_currency[OF assms(1,3)], of db] assms(4)
  show ?thesis by (auto simp: apply_webhook_def payments_conflict_def)
next
  case WK_refund
  with refund_event_cases[OF assms(1-3), of ev] assms(4)
  show ?thesis by (auto simp: apply_webhook_def payments_conflict_def)
qed (use assms in \<open>auto simp: apply_webhook_def webhook_invalid_def\<close>)

definition with_receipt ::
    "payments_ctx \<Rightarrow> string \<Rightarrow> string \<Rightarrow> webhook_event \<Rightarrow> payments_db \<Rightarrow> payments_db" where
  "with_receipt ctx prov digest ev db = db\<lparr>pm_receipts := pm_receipts db @
     [\<lparr>wr_id = pm_next_id db, wr_provider_key = prov, wr_event_id = we_event_id ev,
       wr_payload_digest = digest, wr_verified_at = pc_now ctx, wr_state = RS_verified,
       wr_failure_reason = None, wr_order = map_option po_id
         (find (\<lambda>x. po_order_reference x = we_order_reference ev \<and> po_provider_key x = prov)
           (pm_orders db))\<rparr>], pm_next_id := Suc (pm_next_id db)\<rparr>"

lemma webhook_cases:
  assumes "webhook_transaction ctx prov digest ev db = (r, db')"
  obtains (duplicate) rc where "find_receipt db prov (we_event_id ev) = Some rc" "db' = db"
      "\<exists>oid. r = Inr \<lparr>wx_duplicate = True, wx_event_id = we_event_id ev, wx_order_id = oid\<rparr>"
    | (unknown) "find_receipt db prov (we_event_id ev) = None" "isl r"
      "db' = reject_receipt (pm_next_id db) FR_unknown_order (with_receipt ctx prov digest ev db)"
    | (mismatch) po where "find_receipt db prov (we_event_id ev) = None"
      "r = Inl (payments_conflict ''payments.amount_mismatch'')" "po \<in> set (pm_orders db)"
      "db' = reject_receipt (pm_next_id db) FR_amount_mismatch (with_receipt ctx prov digest ev db)"
    | (applied) po where "find_receipt db prov (we_event_id ev) = None" "po \<in> set (pm_orders db)"
      "we_amount ev = po_amount po" "\<not> isl r"
      "apply_webhook ctx ev po (with_receipt ctx prov digest ev db) = (Inr (), db')"
    | (refused) po e db2 reason where "find_receipt db prov (we_event_id ev) = None"
      "po \<in> set (pm_orders db)" "we_amount ev = po_amount po" "r = Inl e"
      "apply_webhook ctx ev po (with_receipt ctx prov digest ev db) = (Inl e, db2)"
      "case e of PyException _ \<Rightarrow> db' = db
        | KernelError _ _ \<Rightarrow> db' = reject_receipt (pm_next_id db) reason db2"
proof (cases "find_receipt db prov (we_event_id ev)")
  case (Some rc)
  with assms show thesis by (intro duplicate) (auto simp: webhook_transaction_def)
next
  case None
  note wh = assms[unfolded webhook_transaction_def None option.case Let_def with_receipt_def[symmetric]]
  let ?found = "find (\<lambda>x. po_order_reference x = we_order_reference ev \<and> po_provider_key x = prov)
      (pm_orders db)"
  show thesis
  proof (cases ?found)
    case N: None
    with wh None show thesis by (intro unknown) (auto simp: isl_def)
  next
    case (Some po)
    then have mem: "po \<in> set (pm_orders db)" by (auto dest: find_Some_mem)
    show thesis
    proof (cases "we_currency ev \<noteq> ''CNY'' \<or> po_amount po \<noteq> we_amount ev
        \<or> po_currency po \<noteq> we_currency ev")
      case True
      with wh Some None mem show thesis by (intro mismatch) auto
    next
      case False
      note wh = wh[unfolded Some option.case if_not_P[OF False]]
      from False have amount: "we_amount ev = po_amount po" by simp
      obtain x db2 where ap: "apply_webhook ctx ev po (with_receipt ctx prov digest ev db) = (x, db2)"
        by (rule prod.exhaust)
      show thesis
      proof (cases x)
        case (Inr u)
        with wh ap mem amount None show thesis by (intro applied) auto
      next
        case (Inl e)
        with wh ap have "\<exists>reason. r = Inl e \<and> (case e of PyException _ \<Rightarrow> db' = db
            | KernelError _ _ \<Rightarrow> db' = reject_receipt (pm_next_id db) reason db2)"
          by (cases e) auto
        then obtain reason where "r = Inl e" "case e of PyException _ \<Rightarrow> db' = db
            | KernelError _ _ \<Rightarrow> db' = reject_receipt (pm_next_id db) reason db2"
          by blast
        with ap Inl mem amount None show thesis by (intro refused) auto
      qed
    qed
  qed
qed

lemma with_receipt_tables [table_simps]:
  "pm_orders (with_receipt ctx prov digest ev db) = pm_orders db"
  "pm_refunds (with_receipt ctx prov digest ev db) = pm_refunds db"
  "pm_outbox (with_receipt ctx prov digest ev db) = pm_outbox db"
  "pm_next_id (with_receipt ctx prov digest ev db) = Suc (pm_next_id db)"
  "get_order (with_receipt ctx prov digest ev db) = get_order db"
  by (simp_all add: with_receipt_def get_order_def fun_eq_iff)

lemma reject_receipt_tables [table_simps]:
  "pm_orders (reject_receipt i reason db) = pm_orders db"
  "pm_refunds (reject_receipt i reason db) = pm_refunds db"
  "pm_outbox (reject_receipt i reason db) = pm_outbox db"
  "pm_next_id (reject_receipt i reason db) = pm_next_id db"
  "pm_attempts (reject_receipt i reason db) = pm_attempts db"
  by (simp_all add: reject_receipt_def)

lemma payments_inv_webhook:
  assumes inv: "payments_inv db" and ctx: "payment_events_ok ctx"
    and run: "webhook_transaction ctx prov digest ev db = (r, db')"
  shows "payments_inv db'"
proof -
  let ?db = "with_receipt ctx prov digest ev db"
  have inv1: "payments_inv ?db" by (rule payments_inv_cong[OF inv]) (simp_all add: table_simps)
  have reject: "payments_inv (reject_receipt i reason d)" if "payments_inv d" for i reason d
    by (rule payments_inv_cong[OF that]) (simp_all add: table_simps)
  have app: "payments_inv db2 \<and> (isl x \<longrightarrow> db2 = ?db)"
    if "po \<in> set (pm_orders db)" "we_amount ev = po_amount po" "apply_webhook ctx ev po ?db = (x, db2)"
    for po x db2
    using get_order_mem[OF payments_invD(1)[OF inv] that(1)]
    by (intro payments_inv_apply[OF inv1 ctx _ that(2,3), of "po_id po"]) (simp add: table_simps)
  from run show ?thesis
  proof (cases rule: webhook_cases)
    case (refused po e db2 reason)
    with app[OF refused(2,3,5)] inv1 reject inv show ?thesis by (cases e) auto
  next
    case (applied po)
    with app[OF applied(2,3,5)] show ?thesis by simp
  qed (use inv inv1 reject in auto)
qed

lemma session_result_Inr [cmd_ok]: "session_result m = Inr s \<longleftrightarrow> (\<exists>u. m = (Inr u, s))"
  by (cases m; cases "fst m") (auto simp: session_result_def)

lemma payments_inv_reconcile:
  assumes inv: "payments_inv db" and ctx: "payment_events_ok ctx"
    and run: "reconcile_commit ctx i status db = Inr (dto, db')"
  shows "payments_inv db'"
proof -
  from run obtain po where po: "get_order db i = Some po"
    by (auto simp: reconcile_commit_def require_order_def cmd_ok)
  note run' = run[unfolded reconcile_commit_def require_order_def po someE_simps bindE_simps]
  show ?thesis
  proof (cases "pst_state status")
    case PS_captured
    with run' obtain u where "capture_order ctx (po_amount po) po db = (Inr u, db')"
      by (auto simp: cmd_ok)
    with payments_inv_capture[OF inv ctx po] show ?thesis by blast
  next
    case PS_failed
    with run' obtain u where "fail_order ctx po db = (Inr u, db')" by (auto simp: cmd_ok)
    with payments_inv_fail[OF inv ctx po] show ?thesis by blast
  qed (use run' inv in \<open>auto simp: cmd_ok\<close>)
qed

definition refund_row ::
    "payments_ctx \<Rightarrow> nat \<Rightarrow> payment_order \<Rightarrow> refund_input \<Rightarrow> provider_refund \<Rightarrow> payment_refund" where
  "refund_row ctx rid po c pr = \<lparr>rf_id = rid, rf_order = po_id po, rf_ref = pr_ref pr,
     rf_amount = rq_amount c, rf_currency = po_currency po, rf_state = pr_state pr,
     rf_idempotency_key = rq_idempotency_key c, rf_reason = rq_reason c,
     rf_completed_at = (if pr_state pr = RF_completed then Some (pc_now ctx) else None),
     rf_created_at = pc_now ctx\<rparr>"

lemma refund_commit_cases:
  assumes "request_refund_commit ctx i c pr db = Inr (dto, db')"
  obtains (stored) po where "get_order db i = Some po" "pr_state pr \<noteq> RF_completed"
      "po_refunded_amount po + rq_amount c \<le> po_captured_amount po"
      "find_refund db i (rq_idempotency_key c) = None"
      "to_refund (refund_row ctx (pm_next_id db) po c pr) = Inr dto"
      "db' = db\<lparr>pm_refunds := pm_refunds db @ [refund_row ctx (pm_next_id db) po c pr],
         pm_next_id := Suc (pm_next_id db)\<rparr>"
    | (completed) po m where "get_order db i = Some po" "pr_state pr = RF_completed"
      "po_refunded_amount po + rq_amount c \<le> po_captured_amount po"
      "find_refund db i (rq_idempotency_key c) = None"
      "to_refund (refund_row ctx (pm_next_id db) po c pr) = Inr dto"
      "po_state (refunded_order (rq_amount c) po) \<in> set (allowed_transitions (po_state po))"
      "\<And>j. \<not> is_capture_of j m"
      "db' = (save_order (refunded_order (rq_amount c) po)
         (db\<lparr>pm_refunds := pm_refunds db @ [refund_row ctx (pm_next_id db) po c pr],
             pm_next_id := Suc (pm_next_id db)\<rparr>))
         \<lparr>pm_outbox := pm_outbox db @ [m], pm_next_id := Suc (pm_next_id db) + 2\<rparr>"
proof -
  from assms obtain po where po: "get_order db i = Some po"
    by (auto simp: request_refund_commit_def require_order_def cmd_ok)
  from get_order_id[OF po] have i: "po_id po = i" by simp
  let ?r = "refund_row ctx (pm_next_id db) po c pr"
  let ?db1 = "db\<lparr>pm_refunds := pm_refunds db @ [?r], pm_next_id := Suc (pm_next_id db)\<rparr>"
  let ?po1 = "po\<lparr>po_refunded_amount := po_refunded_amount po + rq_amount c\<rparr>"
  have fits: "po_refunded_amount po + rq_amount c \<le> po_captured_amount po"
    and new: "find_refund db i (rq_idempotency_key c) = None"
    using assms po i
    by (auto simp: request_refund_commit_def require_order_def refund_fits_def cmd_ok)
  note run = assms[unfolded request_refund_commit_def require_order_def po someE_simps bindE_simps
      refund_row_def[symmetric] Let_def, folded i]
  show thesis
  proof (cases "pr_state pr = RF_completed")
    case False
    with assms po have "to_refund ?r = Inr dto" "db' = ?db1"
      by (auto simp: request_refund_commit_def require_order_def cmd_ok refund_row_def Let_def)
    with stored po fits new False show thesis by blast
  next
    case True
    with assms po have to: "to_refund ?r = Inr dto"
      and move: "refund_target ?po1 \<in> set (allowed_transitions (po_state po))"
      and emit: "payments_emit ctx ''payment.refund_completed.v1''
        (?po1\<lparr>po_state := refund_target ?po1\<rparr>)
        [(''refund_ref'', JStr (rf_ref ?r)), (''refund_amount'', JInt (rf_amount ?r))]
        (save_order (?po1\<lparr>po_state := refund_target ?po1\<rparr>) ?db1) = Inr db'"
      by (auto simp: request_refund_commit_def require_order_def cmd_ok refund_row_def Let_def)
    have po2: "?po1\<lparr>po_state := refund_target ?po1\<rparr> = refunded_order (rq_amount c) po"
      by (simp add: refunded_order_def Let_def)
    from payments_emit_cases[OF emit] obtain m where
      "db' = (save_order (refunded_order (rq_amount c) po) ?db1)
         \<lparr>pm_outbox := pm_outbox db @ [m], pm_next_id := Suc (pm_next_id db) + 2\<rparr>"
      "\<And>j. \<not> is_capture_of j m"
      unfolding po2 by (auto simp: table_simps)
    moreover have "po_state (refunded_order (rq_amount c) po) \<in> set (allowed_transitions (po_state po))"
      using move by (simp add: refunded_order_def Let_def)
    ultimately show thesis using completed[OF po True fits new to] by blast
  qed
qed

lemma payments_inv_refund:
  assumes inv: "payments_inv db" and c: "refund_input_ok c"
    and run: "request_refund_commit ctx i c pr db = Inr (dto, db')"
  shows "payments_inv db'"
proof -
  have general: "payments_inv db'"
    if po: "get_order db i = Some po" and po': "same_order po po'"
      and fits: "po_refunded_amount po + rq_amount c \<le> po_captured_amount po"
      and tables: "pm_orders db' = pm_orders (save_order po' db)" "pm_next_id db < pm_next_id db'"
        "pm_refunds db' = pm_refunds db @ [refund_row ctx (pm_next_id db) po c pr]"
      and caps: "\<And>j. capture_events db' j = capture_events db j"
      and money: "money_ok po' (completed_sum db i + (if pr_state pr = RF_completed then rq_amount c else 0))
        (capture_events db i)"
    for po po'
  proof -
    let ?r = "refund_row ctx (pm_next_id db) po c pr"
    from get_order_id[OF po] have i: "po_id po = i" "po \<in> set (pm_orders db)" by auto
    have sums: "completed_sum db' j = completed_sum db j
        + (if j = i \<and> pr_state pr = RF_completed then rq_amount c else 0)" for j
      using i by (simp add: completed_sum_def tables(3) refund_row_def)
    from payments_inv_money[OF inv po] have m: "po_currency po = ''CNY''" "0 \<le> po_refunded_amount po"
      "po_captured_amount po \<le> po_amount po"
      by (auto simp: money_ok_def split: order_state.splits if_splits)
    have "refund_row_ok (pm_orders db) ?r"
      using c m i fits by (auto simp: refund_row_ok_def refund_row_def refund_input_ok_def list_ex_iff)
    then have rows: "rf_id r < pm_next_id db' \<and> refund_row_ok (pm_orders db) r"
      if "r \<in> set (pm_refunds db')" for r
      using that payments_invD(5,6)[OF inv, of r] tables(2,3) by (auto simp: refund_row_def)
    have "pm_next_id db \<notin> rf_id ` set (pm_refunds db)" using payments_invD(5)[OF inv] by force
    then have "distinct (map rf_id (pm_refunds db'))"
      using payments_invD(2)[OF inv] by (simp add: tables(3) refund_row_def)
    from payments_inv_save[OF inv po po' tables(1) _ _ _ this rows] money tables(2)
    show ?thesis by (simp add: sums caps)
  qed
  from run show ?thesis
  proof (cases rule: refund_commit_cases)
    case (stored po)
    have id: "save_order po db = db"
    proof -
      have "update_where (\<lambda>x. po_id x = po_id po) (\<lambda>_. po) (pm_orders db) = pm_orders db"
        unfolding update_where_def
        using payments_invD(1)[OF inv] get_order_id[OF stored(1)]
        by (auto intro!: map_idI simp: distinct_map inj_on_def)
      then show ?thesis by (simp add: save_order_def)
    qed
    show ?thesis
      by (rule general[OF stored(1) _ stored(3)])
        (use stored payments_inv_money[OF inv stored(1)] in
          \<open>simp_all add: same_order_def id capture_events_def\<close>)
  next
    case (completed po m)
    have st: "po_state po = OS_captured \<or> po_state po = OS_partially_refunded"
      using completed(6) by (cases "po_state po")
        (auto simp: refunded_order_def Let_def refund_target_def split: if_splits)
    from payments_inv_money[OF inv completed(1)] completed(3)
    have "rq_amount c \<le> po_amount po"
      by (auto simp: money_ok_def split: order_state.splits if_splits)
    with money_refunded[OF payments_inv_money[OF inv completed(1)] st] c
    have "money_ok (refunded_order (rq_amount c) po) (completed_sum db i + rq_amount c)
        (capture_events db i)" by (simp add: refund_input_ok_def)
    then have money: "money_ok (refunded_order (rq_amount c) po) (completed_sum db i
        + (if pr_state pr = RF_completed then rq_amount c else 0)) (capture_events db i)"
      using completed(2) by simp
    have "pm_outbox db' = pm_outbox db @ [m]" by (simp add: completed(8))
    then have caps: "capture_events db' j = capture_events db j" for j
      using capture_events_append completed(7) by simp
    show ?thesis
    proof (rule general[OF completed(1) refunded_order_same completed(3) _ _ _ caps money])
      show "pm_orders db' = pm_orders (save_order (refunded_order (rq_amount c) po) db)"
        "pm_next_id db < pm_next_id db'"
        "pm_refunds db' = pm_refunds db @ [refund_row ctx (pm_next_id db) po c pr]"
        by (simp_all add: completed(8) save_order_def)
    qed
  qed
qed

theorem payments_inv_step:
  assumes inv: "payments_inv db" and "payments_step db db'"
  shows "payments_inv db'"
  using assms(2)
proof cases
  case (py_create ctx c dto)
  then show ?thesis by (intro payments_inv_create[OF inv])
next
  case (py_start ctx i session res)
  then show ?thesis by (intro payments_inv_start[OF inv])
next
  case (py_cancel ctx i dto)
  then show ?thesis by (intro payments_inv_cancel[OF inv])
next
  case (py_webhook ctx prov digest ev r)
  then show ?thesis by (intro payments_inv_webhook[OF inv])
next
  case (py_reconcile ctx i status dto)
  then show ?thesis by (intro payments_inv_reconcile[OF inv])
next
  case (py_refund ctx rc i pr rdto)
  then show ?thesis by (intro payments_inv_refund[OF inv])
next
  case (py_dispatch box)
  then show ?thesis by (intro payments_inv_cong[OF inv]) simp_all
qed

lemma payments_inv_steps: "payments_steps db db' \<Longrightarrow> payments_inv db \<Longrightarrow> payments_inv db'"
  by (induction rule: rtranclp_induct) (auto intro: payments_inv_step)

end
