(* ===== verification/Idempotent_Commands.thy ===== *)
theory Idempotent_Commands
  imports Prelude
begin

text \<open>
  Commands with an idempotency key. The contract is the locale \<open>keyed_command\<close>: what a command
  recorded under a key stays recorded through every later transaction, and a command that finds its
  key recorded returns the recorded result and changes nothing. Starting a workflow, creating a
  payment order, requesting a refund and processing a webhook interpret it.
\<close>

section \<open>Tables that only grow\<close>

text \<open>The identifying columns of the old rows stay, in place, and rows are added at the end.\<close>

definition extends_by :: "('a \<Rightarrow> 'k) \<Rightarrow> 'a list \<Rightarrow> 'a list \<Rightarrow> bool" where
  "extends_by key t t' \<longleftrightarrow> (\<exists>extra. map key t' = map key t @ extra)"

lemma extends_by_same: "map key t' = map key t \<Longrightarrow> extends_by key t t'"
  by (simp add: extends_by_def)

lemma extends_by_append [simp]: "extends_by key t (t @ u)" "extends_by key t t"
  by (simp_all add: extends_by_def)

lemma extends_by_trans: "extends_by key a b \<Longrightarrow> extends_by key b c \<Longrightarrow> extends_by key a c"
  by (auto simp: extends_by_def)

text \<open>What is found under a key is found ever after.\<close>

lemma extends_by_find:
  assumes "extends_by key t t'" and "find (q \<circ> key) t = Some x"
  shows "\<exists>x'. find (q \<circ> key) t' = Some x' \<and> key x' = key x"
proof -
  have f: "map_option key (find (q \<circ> key) u) = find q (map key u)" for u
    by (induction u) auto
  from assms obtain extra where "map key t' = map key t @ extra" by (auto simp: extends_by_def)
  then have "map_option key (find (q \<circ> key) t') = find q (map key t @ extra)" using f[of t'] by simp
  moreover have "find q (map key t) = Some (key x)" using f[of t] assms(2) by simp
  ultimately have "map_option key (find (q \<circ> key) t') = Some (key x)" by (simp add: find_append)
  then show ?thesis by auto
qed

lemma replace_keeps:
  assumes "distinct (map rid t)" and "r \<in> set t" and "rid r' = rid r" and "key r' = key r"
  shows "map key (update_where (\<lambda>x. rid x = rid r') (\<lambda>_. r') t) = map key t"
proof -
  have "key r' = key x" if "x \<in> set t" "rid x = rid r'" for x
    using assms that by (metis distinct_map inj_onD)
  then show ?thesis by (auto simp: update_where_def)
qed

section \<open>The contract\<close>

locale keyed_command =
  fixes later :: "'s \<Rightarrow> 's \<Rightarrow> bool"
    and wf :: "'s \<Rightarrow> bool"
    and recorded :: "'s \<Rightarrow> 'k \<Rightarrow> 'r \<Rightarrow> bool"
    and run :: "'k \<Rightarrow> 'i \<Rightarrow> 's \<Rightarrow> 'e + 'r \<times> 's"
    and admitted :: "'k \<Rightarrow> 'i \<Rightarrow> 's \<Rightarrow> bool"
  assumes wf_later: "wf s \<Longrightarrow> later s s' \<Longrightarrow> wf s'"
    and recorded_later: "wf s \<Longrightarrow> later s s' \<Longrightarrow> recorded s k r \<Longrightarrow> recorded s' k r"
    and run_records: "wf s \<Longrightarrow> admitted k i s \<Longrightarrow> run k i s = Inr (r, s') \<Longrightarrow> wf s' \<and> recorded s' k r"
    and run_recorded: "wf s \<Longrightarrow> recorded s k r \<Longrightarrow> admitted k i s \<Longrightarrow> run k i s = Inr (r, s)"
begin

lemma recorded_steps: "later\<^sup>*\<^sup>* s s' \<Longrightarrow> wf s \<Longrightarrow> recorded s k r \<Longrightarrow> wf s' \<and> recorded s' k r"
  by (induction rule: rtranclp_induct) (auto intro: recorded_later wf_later)

text \<open>A repetition, with any other input under the same key, in any later state.\<close>

lemma repeat_returns_recorded:
  assumes "wf s" and "admitted k i s" and "run k i s = Inr (r, s1)" and "later\<^sup>*\<^sup>* s1 s2"
    and "admitted k i' s2"
  shows "run k i' s2 = Inr (r, s2)"
proof -
  from run_records[OF assms(1-3)] have "wf s1" "recorded s1 k r" by auto
  from recorded_steps[OF assms(4) this] run_recorded assms(5) show ?thesis by blast
qed

text \<open>Two commands of the same key agree, whatever happened in between.\<close>

lemma same_key_same_result:
  assumes "wf s" and "admitted k i s" and "run k i s = Inr (r, s1)" and "later\<^sup>*\<^sup>* s1 s2"
    and "admitted k i' s2" and "run k i' s2 = Inr (r', s3)"
  shows "r' = r \<and> s3 = s2"
  using repeat_returns_recorded[OF assms(1-5)] assms(6) by simp

end

end
