(* ===== verification/Payments_Correct.thy ===== *)
theory Payments_Correct
  imports Payments_Invariant Idempotent_Commands
begin

text \<open>
  What every payment transaction does to an order, against an abstract account of one payment: the
  order is unpaid, paid with an amount refunded so far, or closed. And what later transactions keep:
  orders, webhook receipts, refund rows, which makes the commands safe to repeat.
\<close>

section \<open>The abstract payment\<close>

datatype money = Unpaid | Paid int int | Closed

definition abs_money :: "payment_order \<Rightarrow> money" where
  "abs_money po = (case po_state po of
     OS_created \<Rightarrow> Unpaid | OS_pending \<Rightarrow> Unpaid
   | OS_cancelled \<Rightarrow> Closed | OS_failed \<Rightarrow> Closed
   | _ \<Rightarrow> Paid (po_captured_amount po) (po_refunded_amount po))"

text \<open>A payment is captured once, in full; refunds are positive and stop when all is refunded.\<close>

inductive money_step :: "int \<Rightarrow> money \<Rightarrow> money \<Rightarrow> bool" for price :: int where
  ms_stay: "money_step price m m"
| ms_capture: "money_step price Unpaid (Paid price 0)"
| ms_close: "money_step price Unpaid Closed"
| ms_refund: "0 < x \<Longrightarrow> x \<le> price \<Longrightarrow> r < price \<Longrightarrow> money_step price (Paid price r) (Paid price (r + x))"

inductive_simps money_step_Closed: "money_step price Closed m"
inductive_simps money_step_Paid: "money_step price (Paid a r) m"

definition order_moves :: "payment_order \<Rightarrow> payment_order \<Rightarrow> bool" where
  "order_moves po po' \<longleftrightarrow> same_order po po' \<and> po_state po \<le> po_state po'
     \<and> money_step (po_amount po) (abs_money po) (abs_money po')"

lemma order_moves_refl: "order_moves po po"
  by (simp add: order_moves_def same_order_def ms_stay)

lemma order_moves_unpaid:
  assumes "same_order po po'" and "po_state po' \<in> set (allowed_transitions (po_state po))"
    and "\<not> paid_state (po_state po')"
  shows "order_moves po po'"
proof -
  have "po_state po < po_state po'" by (rule allowed_transitions_increase[OF assms(2)])
  moreover have "money_step (po_amount po) (abs_money po) (abs_money po')"
    using assms(2,3)
    by (cases "po_state po") (auto simp: abs_money_def paid_state_def intro: money_step.intros)
  ultimately show ?thesis using assms(1) by (simp add: order_moves_def)
qed

lemma order_moves_capture:
  assumes "money_ok po c n" and "po_state po = OS_pending"
  shows "order_moves po (captured_order ctx (po_amount po) po)"
  using assms
  by (auto simp: order_moves_def same_order_def captured_order_def abs_money_def money_ok_def
      paid_state_def less_eq_order_state_def intro: money_step.intros)

lemma order_moves_refund:
  assumes "money_ok po c n" and "po_state po = OS_captured \<or> po_state po = OS_partially_refunded"
    and "0 < amount" and "amount \<le> po_amount po"
  shows "order_moves po (refunded_order amount po)"
  using assms
  by (auto simp: order_moves_def same_order_def refunded_order_def Let_def refund_target_def
      abs_money_def money_ok_def paid_state_def less_eq_order_state_def intro: money_step.intros)

section \<open>Every transaction moves every order by an abstract step\<close>

lemma save_moves:
  assumes "get_order db i = Some po" and "order_moves po po'" and "get_order db j = Some x"
    and "pm_orders db' = pm_orders (save_order po' db)"
  shows "\<exists>x'. get_order db' j = Some x' \<and> order_moves x x'"
proof -
  have "get_order db' j = get_order (save_order po' db) j" by (simp add: get_order_def assms(4))
  moreover have "po_id po = i" "po_id x = j" "po_id po' = po_id po"
    using get_order_id[OF assms(1)] get_order_id[OF assms(3)] assms(2)
    by (simp_all add: order_moves_def same_order_def)
  ultimately show ?thesis
    using assms(1-3) by (cases "i = j") (auto simp: table_simps order_moves_refl)
qed

lemma keep_moves:
  "get_order db j = Some x \<Longrightarrow> pm_orders db' = pm_orders db
    \<Longrightarrow> \<exists>x'. get_order db' j = Some x' \<and> order_moves x x'"
  by (simp add: get_order_def order_moves_refl)

lemma apply_moves:
  assumes inv: "payments_inv db" and ctx: "payment_events_ok ctx" and po: "get_order db i = Some po"
    and amount: "we_amount ev = po_amount po" and x: "get_order db j = Some x"
    and run: "apply_webhook ctx ev po db = (Inr u, db')"
  shows "\<exists>x'. get_order db' j = Some x' \<and> order_moves x x'"
proof (cases "we_kind ev")
  case WK_capture
  with run amount have "capture_order ctx (po_amount po) po db = (Inr u, db')"
    by (simp add: apply_webhook_def)
  with capture_order_cases[OF ctx payments_inv_currency[OF inv po], of "po_amount po" db]
  have "po_state po = OS_pending"
    "pm_orders db' = pm_orders (save_order (captured_order ctx (po_amount po) po) db)" by auto
  with save_moves[OF po order_moves_capture[OF payments_inv_money[OF inv po]] x] show ?thesis by blast
next
  case WK_failure
  with run have "fail_order ctx po db = (Inr u, db')" by (simp add: apply_webhook_def)
  with fail_order_cases[OF ctx payments_inv_currency[OF inv po], of db]
  have st: "po_state po = OS_created \<or> po_state po = OS_pending"
    and db': "pm_orders db' = pm_orders (save_order (failed_order ctx po) db)" by auto
  have "order_moves po (failed_order ctx po)"
    using st by (intro order_moves_unpaid) (auto simp: same_order_def failed_order_def paid_state_def)
  from save_moves[OF po this x db'] show ?thesis .
next
  case WK_refund
  with run have "apply_refund_event ctx ev po db = (Inr u, db')" by (simp add: apply_webhook_def)
  with refund_event_cases[OF inv ctx po, of ev] obtain r m where
    st: "po_state po = OS_captured \<or> po_state po = OS_partially_refunded"
    and r: "r \<in> set (pm_refunds db)" "rf_amount r = we_amount ev"
    and db': "db' = (save_order (refunded_order (rf_amount r) po)
             (save_refund (r\<lparr>rf_state := RF_completed, rf_completed_at := Some (pc_now ctx)\<rparr>) db))
             \<lparr>pm_outbox := pm_outbox db @ [m], pm_next_id := pm_next_id db + 2\<rparr>"
    by auto
  have "0 < rf_amount r" using payments_invD(6)[OF inv r(1)] by (simp add: refund_row_ok_def)
  with order_moves_refund[OF payments_inv_money[OF inv po] st] r amount
  have "order_moves po (refunded_order (rf_amount r) po)" by simp
  from save_moves[OF po this x] db' show ?thesis by (simp add: save_order_def save_refund_def)
next
  case (WK_other k)
  with run show ?thesis by (simp add: apply_webhook_def)
qed

theorem step_moves_orders:
  assumes inv: "payments_inv db" and "payments_step db db'" and x: "get_order db j = Some x"
  shows "\<exists>x'. get_order db' j = Some x' \<and> order_moves x x'"
  using assms(2)
proof cases
  case (py_create ctx c dto)
  show ?thesis
  proof (cases "find_order_by_key db (co_provider_key c) (co_idempotency_key c)")
    case None
    with py_create obtain po vals db1 where "insert_order po db = Inr db1"
      "payments_emit ctx ''payment.order_created.v1'' po vals db1 = Inr db'"
      by (auto simp: create_payment_order_def Let_def cmd_ok)
    then have "pm_orders db' = pm_orders db @ [po]"
      using payments_emit_cases by (fastforce simp: insert_order_def cmd_ok)
    with x show ?thesis by (simp add: get_order_def find_append order_moves_refl)
  qed (use py_create x in \<open>auto simp: create_payment_order_def cmd_ok order_moves_refl\<close>)
next
  case (py_start ctx i session res)
  then obtain po vals db1 where po: "get_order db i = Some po"
    and move: "OS_pending \<in> set (allowed_transitions (po_state po))"
    and emit: "payments_emit ctx ''payment.pending.v1'' (po\<lparr>po_state := OS_pending,
        po_provider_ref := Some (ps_provider_ref session)\<rparr>) vals db1 = Inr db'"
    and db1: "pm_orders db1 = pm_orders (save_order (po\<lparr>po_state := OS_pending,
        po_provider_ref := Some (ps_provider_ref session)\<rparr>) db)"
    by (auto simp: start_attempt_commit_def require_order_def cmd_ok Let_def)
  have "order_moves po (po\<lparr>po_state := OS_pending, po_provider_ref := Some (ps_provider_ref session)\<rparr>)"
    by (rule order_moves_unpaid) (use move in \<open>auto simp: same_order_def paid_state_def\<close>)
  from save_moves[OF po this x] payments_emit_cases[OF emit] db1 show ?thesis by auto
next
  case (py_cancel ctx i dto)
  then obtain po where po: "get_order db i = Some po"
    and move: "OS_cancelled \<in> set (allowed_transitions (po_state po))"
    and emit: "payments_emit ctx ''payment.cancelled.v1'' (po\<lparr>po_state := OS_cancelled,
        po_cancelled_at := Some (pc_now ctx)\<rparr>) [] (save_order (po\<lparr>po_state := OS_cancelled,
        po_cancelled_at := Some (pc_now ctx)\<rparr>) db) = Inr db'"
    by (auto simp: cancel_payment_order_def require_order_def cmd_ok Let_def)
  have "order_moves po (po\<lparr>po_state := OS_cancelled, po_cancelled_at := Some (pc_now ctx)\<rparr>)"
    by (rule order_moves_unpaid) (use move in \<open>auto simp: same_order_def paid_state_def\<close>)
  from save_moves[OF po this x] payments_emit_cases[OF emit] show ?thesis by auto
next
  case (py_webhook ctx prov digest ev r)
  let ?db = "with_receipt ctx prov digest ev db"
  have inv1: "payments_inv ?db" by (rule payments_inv_cong[OF inv]) (simp_all add: table_simps)
  from py_webhook(2) show ?thesis
  proof (cases rule: webhook_cases)
    case (applied po)
    from get_order_mem[OF payments_invD(1)[OF inv] applied(2)]
    have po: "get_order ?db (po_id po) = Some po" by (simp add: table_simps)
    from x have "get_order ?db j = Some x" by (simp add: table_simps)
    from apply_moves[OF inv1 py_webhook(1) po applied(3) this applied(5)] show ?thesis .
  next
    case (refused po e db2 reason)
    from get_order_mem[OF payments_invD(1)[OF inv] refused(2)]
    have po: "get_order ?db (po_id po) = Some po" by (simp add: table_simps)
    from payments_inv_apply[OF inv1 py_webhook(1) po refused(3,5)] have "db2 = ?db" by simp
    with refused(6) have "pm_orders db' = pm_orders db" by (cases e) (auto simp: table_simps)
    with keep_moves[OF x] show ?thesis by blast
  qed (use x keep_moves[OF x] in \<open>auto simp: table_simps order_moves_refl\<close>)
next
  case (py_reconcile ctx i status dto)
  then obtain po where po: "get_order db i = Some po"
    by (auto simp: reconcile_commit_def require_order_def cmd_ok)
  note run = py_reconcile(2)[unfolded reconcile_commit_def require_order_def po someE_simps bindE_simps]
  show ?thesis
  proof (cases "pst_state status")
    case PS_captured
    with run obtain u where "capture_order ctx (po_amount po) po db = (Inr u, db')"
      by (auto simp: cmd_ok)
    with capture_order_cases[OF py_reconcile(1) payments_inv_currency[OF inv po], of "po_amount po" db]
    have "po_state po = OS_pending"
      "pm_orders db' = pm_orders (save_order (captured_order ctx (po_amount po) po) db)" by auto
    with save_moves[OF po order_moves_capture[OF payments_inv_money[OF inv po]] x] show ?thesis by blast
  next
    case PS_failed
    with run obtain u where "fail_order ctx po db = (Inr u, db')" by (auto simp: cmd_ok)
    with fail_order_cases[OF py_reconcile(1) payments_inv_currency[OF inv po], of db]
    have st: "po_state po = OS_created \<or> po_state po = OS_pending"
      and db': "pm_orders db' = pm_orders (save_order (failed_order ctx po) db)" by auto
    have "order_moves po (failed_order ctx po)"
      using st by (intro order_moves_unpaid) (auto simp: same_order_def failed_order_def paid_state_def)
    from save_moves[OF po this x db'] show ?thesis .
  qed (use run x in \<open>auto simp: cmd_ok order_moves_refl\<close>)
next
  case (py_refund ctx rc i pr rdto)
  from py_refund(3) show ?thesis
  proof (cases rule: refund_commit_cases)
    case (stored po)
    with x show ?thesis by (intro keep_moves) simp_all
  next
    case (completed po m)
    have st: "po_state po = OS_captured \<or> po_state po = OS_partially_refunded"
      using completed(6) by (cases "po_state po")
        (auto simp: refunded_order_def Let_def refund_target_def split: if_splits)
    from payments_inv_money[OF inv completed(1)] completed(3)
    have "rq_amount rc \<le> po_amount po"
      by (auto simp: money_ok_def split: order_state.splits if_splits)
    with order_moves_refund[OF payments_inv_money[OF inv completed(1)] st, of "rq_amount rc"] py_refund(2)
    have "order_moves po (refunded_order (rq_amount rc) po)" by (simp add: refund_input_ok_def)
    from save_moves[OF completed(1) this x] completed(8) show ?thesis by (simp add: save_order_def)
  qed
next
  case (py_dispatch box)
  with x show ?thesis by (intro keep_moves) simp_all
qed

lemma order_moves_trans_state: "order_moves a b \<Longrightarrow> order_moves b c \<Longrightarrow> po_state a \<le> po_state c"
  by (auto simp: order_moves_def)

text \<open>Along a run the order keeps its identity, its state never goes back, and its money moves by
  abstract steps.\<close>

lemma steps_move_orders:
  assumes "payments_steps db db'" and "payments_inv db" and "get_order db j = Some x"
  shows "\<exists>x'. get_order db' j = Some x' \<and> same_order x x' \<and> po_state x \<le> po_state x'
    \<and> (money_step (po_amount x))\<^sup>*\<^sup>* (abs_money x) (abs_money x')"
  using assms
proof (induction rule: rtranclp_induct)
  case base
  then show ?case by (auto simp: same_order_def)
next
  case (step db1 db2)
  then obtain x1 where x1: "get_order db1 j = Some x1" "same_order x x1" "po_state x \<le> po_state x1"
    "(money_step (po_amount x))\<^sup>*\<^sup>* (abs_money x) (abs_money x1)" by blast
  from step_moves_orders[OF payments_inv_steps[OF step(1,4)] step(2) x1(1)] obtain x2
    where x2: "get_order db2 j = Some x2" "same_order x1 x2" "po_state x1 \<le> po_state x2"
      "money_step (po_amount x1) (abs_money x1) (abs_money x2)"
    by (auto simp: order_moves_def)
  moreover have "po_amount x1 = po_amount x" using x1(2) by (simp add: same_order_def)
  ultimately show ?case
    using x1 by (auto simp: same_order_def intro: rtranclp.rtrancl_into_rtrancl order_trans)
qed

section \<open>Tables only grow\<close>

text \<open>The identifying columns of the three tables with an idempotency key.\<close>

definition order_key :: "payment_order \<Rightarrow> string \<times> string \<times> nat" where
  "order_key x = (po_provider_key x, po_idempotency_key x, po_id x)"

definition refund_key :: "payment_refund \<Rightarrow> nat \<times> string \<times> nat" where
  "refund_key r = (rf_order r, rf_idempotency_key r, rf_id r)"

definition receipt_key :: "webhook_receipt \<Rightarrow> string \<times> string \<times> nat option" where
  "receipt_key r = (wr_provider_key r, wr_event_id r, wr_order r)"

definition tables_grow :: "payments_db \<Rightarrow> payments_db \<Rightarrow> bool" where
  "tables_grow db db' \<longleftrightarrow> extends_by order_key (pm_orders db) (pm_orders db')
     \<and> extends_by refund_key (pm_refunds db) (pm_refunds db')
     \<and> extends_by receipt_key (pm_receipts db) (pm_receipts db')"

lemma tables_grow_trans: "tables_grow a b \<Longrightarrow> tables_grow b c \<Longrightarrow> tables_grow a c"
  by (auto simp: tables_grow_def intro: extends_by_trans)

lemma save_order_keys:
  assumes "payments_inv db" and "get_order db i = Some po" and "same_order po po'"
  shows "map order_key (pm_orders (save_order po' db)) = map order_key (pm_orders db)"
  unfolding save_order_def
  using replace_keeps[OF payments_invD(1)[OF assms(1)], of po po' order_key] get_order_id[OF assms(2)]
    assms(3) by (simp add: same_order_def order_key_def)

lemma grow_save:
  assumes "payments_inv db" and "get_order db i = Some po" and "same_order po po'"
    and "pm_orders db' = pm_orders (save_order po' db)"
    and "extends_by refund_key (pm_refunds db) (pm_refunds db')" and "pm_receipts db' = pm_receipts db"
  shows "tables_grow db db'"
  using save_order_keys[OF assms(1-3)] assms(4-6)
  by (auto simp: tables_grow_def intro: extends_by_same)

lemma grow_emit:
  assumes "payments_emit ctx key x vals db1 = Inr db'" and "tables_grow db db1"
  shows "tables_grow db db'"
  using payments_emit_cases[OF assms(1)] assms(2) by (auto simp: tables_grow_def)

lemma grow_apply:
  assumes inv: "payments_inv db" and ctx: "payment_events_ok ctx" and po: "get_order db i = Some po"
    and run: "apply_webhook ctx ev po db = (r, db')"
  shows "tables_grow db db' \<and> pm_receipts db' = pm_receipts db"
proof (cases "we_kind ev")
  case WK_capture
  have "same_order po (captured_order ctx (we_amount ev) po)"
    by (simp add: same_order_def captured_order_def)
  from grow_save[OF inv po this] WK_capture run
    capture_order_cases[OF ctx payments_inv_currency[OF inv po], of "we_amount ev" db]
  show ?thesis by (auto simp: apply_webhook_def table_simps tables_grow_def)
next
  case WK_failure
  have "same_order po (failed_order ctx po)" by (simp add: same_order_def failed_order_def)
  from grow_save[OF inv po this] WK_failure run
    fail_order_cases[OF ctx payments_inv_currency[OF inv po], of db]
  show ?thesis by (auto simp: apply_webhook_def table_simps tables_grow_def)
next
  case WK_refund
  have keep: "extends_by refund_key (pm_refunds db) (pm_refunds (save_refund
      (x\<lparr>rf_state := RF_completed, rf_completed_at := Some (pc_now ctx)\<rparr>) db))"
    if "x \<in> set (pm_refunds db)" for x
    using replace_keeps[OF payments_invD(2)[OF inv] that, of "x\<lparr>rf_state := RF_completed,
      rf_completed_at := Some (pc_now ctx)\<rparr>" refund_key]
    by (simp add: save_refund_def refund_key_def extends_by_same)
  show ?thesis
  proof (cases r)
    case (Inl e)
    with refund_event_cases[OF inv ctx po, of ev] run WK_refund
    show ?thesis by (auto simp: apply_webhook_def tables_grow_def)
  next
    case (Inr u)
    with refund_event_cases[OF inv ctx po, of ev] run WK_refund obtain x m where
      x: "x \<in> set (pm_refunds db)" and db': "db' = (save_order (refunded_order (rf_amount x) po)
        (save_refund (x\<lparr>rf_state := RF_completed, rf_completed_at := Some (pc_now ctx)\<rparr>) db))
        \<lparr>pm_outbox := pm_outbox db @ [m], pm_next_id := pm_next_id db + 2\<rparr>"
      by (auto simp: apply_webhook_def)
    have "tables_grow db db'"
      by (rule grow_save[OF inv po refunded_order_same[of po "rf_amount x"]])
        (use keep[OF x] in \<open>simp_all add: db' save_order_def save_refund_def\<close>)
    then show ?thesis by (simp add: db' save_order_def save_refund_def)
  qed
qed (use run in \<open>auto simp: apply_webhook_def tables_grow_def\<close>)

text \<open>After a webhook transaction there is a receipt for the event.\<close>

lemma grow_receipt: "tables_grow db (with_receipt ctx prov digest ev db)"
  by (simp add: tables_grow_def with_receipt_def)

lemma grow_reject: "tables_grow db db1 \<Longrightarrow> tables_grow db (reject_receipt i reason db1)"
  by (auto simp: tables_grow_def extends_by_def reject_receipt_def receipt_key_def
      map_update_where')

lemma grow_webhook:
  assumes inv: "payments_inv db" and ctx: "payment_events_ok ctx"
    and run: "webhook_transaction ctx prov digest ev db = (r, db')"
  shows "tables_grow db db' \<and> find_receipt db' prov (we_event_id ev) \<noteq> None"
proof -
  let ?db = "with_receipt ctx prov digest ev db"
  have inv1: "payments_inv ?db" by (rule payments_inv_cong[OF inv]) (simp_all add: table_simps)
  have new: "find_receipt ?db prov (we_event_id ev) \<noteq> None"
    by (auto simp: find_receipt_def with_receipt_def find_append split: option.splits)
  have rej: "find_receipt (reject_receipt i reason d) p e \<noteq> None" if "find_receipt d p e \<noteq> None"
    for i reason d p e
    using that by (simp add: find_receipt_def reject_receipt_def find_update_where)
  have ap: "tables_grow db db2 \<and> find_receipt db2 prov (we_event_id ev) \<noteq> None"
    if "po \<in> set (pm_orders db)" "apply_webhook ctx ev po ?db = (x, db2)" for po x db2
  proof -
    from get_order_mem[OF payments_invD(1)[OF inv] that(1)]
    have "get_order ?db (po_id po) = Some po" by (simp add: table_simps)
    from grow_apply[OF inv1 ctx this that(2)] new tables_grow_trans[OF grow_receipt]
    show ?thesis by (auto simp: find_receipt_def)
  qed
  from run show ?thesis
  proof (cases rule: webhook_cases)
    case (duplicate rc)
    then show ?thesis by (simp add: tables_grow_def)
  next
    case unknown
    with rej[OF new] grow_reject[OF grow_receipt] show ?thesis by simp
  next
    case (mismatch po)
    with rej[OF new] grow_reject[OF grow_receipt] show ?thesis by simp
  next
    case (applied po)
    with ap show ?thesis by blast
  next
    case (refused po er db2 reason)
    from get_order_mem[OF payments_invD(1)[OF inv] refused(2)] have "get_order ?db (po_id po) = Some po"
      by (simp add: table_simps)
    from apply_webhook_kernel_error[OF inv1 ctx this refused(5)] refused(6)
    have "db' = reject_receipt (pm_next_id db) reason db2" by auto
    with ap[OF refused(2,5)] rej grow_reject show ?thesis by blast
  qed
qed

lemma order_key_find:
  "find_order_by_key db prov key = find ((\<lambda>(p, k, i). p = prov \<and> k = key) \<circ> order_key) (pm_orders db)"
  by (simp add: find_order_by_key_def order_key_def comp_def)

lemma refund_key_find:
  "find_refund db i key = find ((\<lambda>(j, k, n). j = i \<and> k = key) \<circ> refund_key) (pm_refunds db)"
  by (simp add: find_refund_def refund_key_def comp_def)

lemma receipt_key_find:
  "find_receipt db prov ev = find ((\<lambda>(p, e, i). p = prov \<and> e = ev) \<circ> receipt_key) (pm_receipts db)"
  by (simp add: find_receipt_def receipt_key_def comp_def)

theorem step_tables_grow:
  assumes inv: "payments_inv db" and "payments_step db db'"
  shows "tables_grow db db'"
  using assms(2)
proof cases
  case (py_create ctx c dto)
  show ?thesis
  proof (cases "find_order_by_key db (co_provider_key c) (co_idempotency_key c)")
    case None
    with py_create obtain po vals db1 where ins: "insert_order po db = Inr db1"
      and emit: "payments_emit ctx ''payment.order_created.v1'' po vals db1 = Inr db'"
      by (auto simp: create_payment_order_def Let_def cmd_ok)
    from ins have "tables_grow db db1" by (auto simp: insert_order_def cmd_ok tables_grow_def)
    with grow_emit[OF emit] show ?thesis .
  qed (use py_create in \<open>auto simp: create_payment_order_def cmd_ok tables_grow_def\<close>)
next
  case (py_start ctx i session res)
  then obtain po vals db1 where po: "get_order db i = Some po"
    and emit: "payments_emit ctx ''payment.pending.v1'' (po\<lparr>po_state := OS_pending,
        po_provider_ref := Some (ps_provider_ref session)\<rparr>) vals db1 = Inr db'"
    and db1: "pm_orders db1 = pm_orders (save_order (po\<lparr>po_state := OS_pending,
        po_provider_ref := Some (ps_provider_ref session)\<rparr>) db)"
      "pm_refunds db1 = pm_refunds db" "pm_receipts db1 = pm_receipts db"
    by (auto simp: start_attempt_commit_def require_order_def cmd_ok Let_def save_order_tables)
  show ?thesis
    by (rule grow_emit[OF emit], rule grow_save[OF inv po _ db1(1)])
      (simp_all add: db1 same_order_def)
next
  case (py_cancel ctx i dto)
  then obtain po where po: "get_order db i = Some po"
    and emit: "payments_emit ctx ''payment.cancelled.v1'' (po\<lparr>po_state := OS_cancelled,
        po_cancelled_at := Some (pc_now ctx)\<rparr>) [] (save_order (po\<lparr>po_state := OS_cancelled,
        po_cancelled_at := Some (pc_now ctx)\<rparr>) db) = Inr db'"
    by (auto simp: cancel_payment_order_def require_order_def cmd_ok Let_def)
  show ?thesis
    by (rule grow_emit[OF emit], rule grow_save[OF inv po _ refl])
      (simp_all add: same_order_def save_order_tables)
next
  case (py_webhook ctx prov digest ev r)
  with grow_webhook[OF inv py_webhook(1,2)] show ?thesis by blast
next
  case (py_reconcile ctx i status dto)
  then obtain po where po: "get_order db i = Some po"
    by (auto simp: reconcile_commit_def require_order_def cmd_ok)
  note run = py_reconcile(2)[unfolded reconcile_commit_def require_order_def po someE_simps bindE_simps]
  note cny = payments_inv_currency[OF inv po]
  show ?thesis
  proof (cases "pst_state status")
    case PS_captured
    with run obtain u where "capture_order ctx (po_amount po) po db = (Inr u, db')"
      by (auto simp: cmd_ok)
    with capture_order_cases[OF py_reconcile(1) cny, of "po_amount po" db] show ?thesis
      by (intro grow_save[OF inv po, of "captured_order ctx (po_amount po) po"])
        (auto simp: same_order_def captured_order_def save_order_tables)
  next
    case PS_failed
    with run obtain u where "fail_order ctx po db = (Inr u, db')" by (auto simp: cmd_ok)
    with fail_order_cases[OF py_reconcile(1) cny, of db] show ?thesis
      by (intro grow_save[OF inv po, of "failed_order ctx po"])
        (auto simp: same_order_def failed_order_def save_order_tables)
  qed (use run in \<open>auto simp: cmd_ok tables_grow_def\<close>)
next
  case (py_refund ctx rc i pr rdto)
  from py_refund(3) show ?thesis
  proof (cases rule: refund_commit_cases)
    case (stored po)
    then show ?thesis by (simp add: tables_grow_def)
  next
    case (completed po m)
    show ?thesis
      by (rule grow_save[OF inv completed(1) refunded_order_same[of po "rq_amount rc"]])
        (simp_all add: completed(8) save_order_def)
  qed
next
  case (py_dispatch box)
  then show ?thesis by (simp add: tables_grow_def)
qed

section \<open>Commands that are safe to repeat\<close>

text \<open>The id of the order a call of \<open>CreatePaymentOrder\<close> returns.\<close>

definition create_order_id ::
    "payments_ctx \<times> create_order_input \<Rightarrow> payments_db \<Rightarrow> exn + nat \<times> payments_db" where
  "create_order_id i db =
     bindE (create_payment_order (fst i) (snd i) db) (\<lambda>(dto, db'). Inr (read_nat (od_id dto), db'))"

definition create_admitted ::
    "string \<times> string \<Rightarrow> payments_ctx \<times> create_order_input \<Rightarrow> bool" where
  "create_admitted k i \<longleftrightarrow> payment_events_ok (fst i) \<and> create_input_ok (snd i)
     \<and> k = (co_provider_key (snd i), co_idempotency_key (snd i))
     \<and> ''payments.create'' \<in> set (pc_permissions (fst i)) \<and> dget (pc_providers (fst i)) (fst k) \<noteq> None"

definition created_order :: "payments_db \<Rightarrow> string \<times> string \<Rightarrow> nat \<Rightarrow> bool" where
  "created_order db k i \<longleftrightarrow> map_option po_id (find_order_by_key db (fst k) (snd k)) = Some i"

lemma to_order_id: "to_order po = Inr dto \<Longrightarrow> read_nat (od_id dto) = po_id po"
  by (auto simp: to_order_def cmd_ok)

lemma created_order_kept:
  assumes "tables_grow db db'" and "created_order db k i"
  shows "created_order db' k i"
  using extends_by_find[of order_key "pm_orders db" "pm_orders db'"] assms
  by (fastforce simp: created_order_def order_key_find tables_grow_def order_key_def)

interpretation created: keyed_command payments_step payments_inv created_order
  "\<lambda>k. create_order_id" "\<lambda>k i db. create_admitted k i"
proof (unfold_locales, goal_cases)
  case (1 db db')
  then show ?case by (rule payments_inv_step)
next
  case (2 db db' k r)
  show ?case by (rule created_order_kept[OF step_tables_grow[OF 2(1,2)] 2(3)])
next
  case (3 db k i r db')
  obtain ctx c where i: "i = (ctx, c)" by (cases i)
  from 3 i obtain dto where run: "create_payment_order ctx c db = Inr (dto, db')"
    and r: "r = read_nat (od_id dto)" by (auto simp: create_order_id_def cmd_ok)
  from 3 i have adm: "payment_events_ok ctx" "create_input_ok c"
    "k = (co_provider_key c, co_idempotency_key c)" by (simp_all add: create_admitted_def)
  have "created_order db' k r"
  proof (cases "find_order_by_key db (co_provider_key c) (co_idempotency_key c)")
    case (Some po)
    with run r adm show ?thesis
      by (auto simp: create_payment_order_def cmd_ok created_order_def dest: to_order_id)
  next
    case None
    let ?po = "new_order ctx (pm_next_id db) c"
    from run None obtain vals db1 where "insert_order ?po db = Inr db1" "to_order ?po = Inr dto"
      "payments_emit ctx ''payment.order_created.v1'' ?po vals db1 = Inr db'"
      by (auto simp: create_payment_order_def Let_def cmd_ok)
    then have "pm_orders db' = pm_orders db @ [?po]" "r = po_id ?po"
      using payments_emit_cases by (fastforce simp: insert_order_def cmd_ok, simp add: r to_order_id)
    with None adm show ?thesis
      by (simp add: created_order_def find_order_by_key_def find_append) (simp add: new_order_def)
  qed
  with payments_inv_create[OF 3(1) adm(2) run] show ?case by simp
next
  case (4 db k r i)
  obtain ctx c where i: "i = (ctx, c)" by (cases i)
  from 4 i obtain po where po: "find_order_by_key db (co_provider_key c) (co_idempotency_key c) = Some po"
    "r = po_id po" by (auto simp: created_order_def create_admitted_def)
  then have "po \<in> set (pm_orders db)" by (auto simp: find_order_by_key_def dest: find_Some_mem)
  with payments_invD(4)[OF 4(1)] have "po_currency po = ''CNY''" by (auto simp: money_ok_def)
  with po 4(3) i show ?case
    by (auto simp: create_order_id_def create_payment_order_def create_admitted_def payments_require_def
        get_provider_def requireE_def to_order_def)
qed

text \<open>The id of the refund a call of \<open>RequestRefund\<close> returns, provider call included.\<close>

definition request_refund_id ::
    "nat \<times> string \<Rightarrow> payments_ctx \<times> refund_input \<Rightarrow> payments_db \<Rightarrow> exn + nat \<times> payments_db" where
  "request_refund_id k i db =
     bindE (request_refund (fst i) (fst k) (snd i) db) (\<lambda>(dto, db'). Inr (read_nat (rd_id dto), db'))"

definition refund_admitted :: "nat \<times> string \<Rightarrow> payments_ctx \<times> refund_input \<Rightarrow> bool" where
  "refund_admitted k i \<longleftrightarrow> payment_events_ok (fst i) \<and> refund_input_ok (snd i)
     \<and> snd k = rq_idempotency_key (snd i) \<and> ''payments.refund'' \<in> set (pc_permissions (fst i))"

definition requested_refund :: "payments_db \<Rightarrow> nat \<times> string \<Rightarrow> nat \<Rightarrow> bool" where
  "requested_refund db k i \<longleftrightarrow> map_option rf_id (find_refund db (fst k) (snd k)) = Some i
     \<and> (case get_order db (fst k) of None \<Rightarrow> False | Some po \<Rightarrow> paid_state (po_state po))"

lemma to_refund_id: "to_refund r = Inr dto \<Longrightarrow> read_nat (rd_id dto) = rf_id r"
  by (auto simp: to_refund_def cmd_ok)

lemma paid_moves: "order_moves po po' \<Longrightarrow> paid_state (po_state po) \<Longrightarrow> paid_state (po_state po')"
  by (cases "po_state po"; cases "po_state po'")
    (auto simp: order_moves_def paid_state_def abs_money_def money_step_Paid less_eq_order_state_def)

lemma requested_refund_kept:
  assumes inv: "payments_inv db" and step: "payments_step db db'" and req: "requested_refund db k i"
  shows "requested_refund db' k i"
proof -
  from req obtain po where po: "get_order db (fst k) = Some po" "paid_state (po_state po)"
    by (auto simp: requested_refund_def split: option.splits)
  from step_moves_orders[OF inv step po(1)] paid_moves po(2) obtain po' where
    "get_order db' (fst k) = Some po'" "paid_state (po_state po')" by blast
  moreover have "map_option rf_id (find_refund db' (fst k) (snd k)) = Some i"
    using extends_by_find[of refund_key "pm_refunds db" "pm_refunds db'"] req step_tables_grow[OF inv step]
    by (fastforce simp: requested_refund_def refund_key_find tables_grow_def refund_key_def)
  ultimately show ?thesis by (simp add: requested_refund_def)
qed

interpretation refunds: keyed_command payments_step payments_inv requested_refund
  request_refund_id "\<lambda>k i db. refund_admitted k i"
proof (unfold_locales, goal_cases)
  case (1 db db')
  then show ?case by (rule payments_inv_step)
next
  case (2 db db' k r)
  then show ?case by (rule requested_refund_kept)
next
  case (3 db k i r db')
  obtain ctx c where i: "i = (ctx, c)" by (cases i)
  obtain oid key where k: "k = (oid, key)" by (cases k)
  from 3 i k obtain dto where run: "request_refund ctx oid c db = Inr (dto, db')"
    and r: "r = read_nat (rd_id dto)" by (auto simp: request_refund_id_def cmd_ok)
  from 3 i k have adm: "payment_events_ok ctx" "refund_input_ok c" "key = rq_idempotency_key c"
    by (simp_all add: refund_admitted_def)
  from run obtain po where po: "get_order db oid = Some po" "paid_state (po_state po)"
    by (auto simp: request_refund_def request_refund_read_def require_order_def cmd_ok)
  from get_order_id[OF po(1)] have oid: "po_id po = oid" by simp
  show ?case
  proof (cases "find_refund db oid key")
    case (Some x)
    with run po oid adm(3) have "db' = db" "to_refund x = Inr dto"
      by (auto simp: request_refund_def request_refund_read_def require_order_def cmd_ok)
    with Some po 3(1) r k show ?thesis by (simp add: requested_refund_def to_refund_id)
  next
    case None
    with run po oid adm(3) obtain pr where commit: "request_refund_commit ctx oid c pr db = Inr (dto, db')"
      by (auto simp: request_refund_def request_refund_read_def require_order_def cmd_ok)
    have step: "payments_step db db'" by (rule py_refund[OF adm(1,2) commit])
    from step_moves_orders[OF 3(1) step po(1)] paid_moves po(2) obtain po' where
      po': "get_order db' oid = Some po'" "paid_state (po_state po')" by blast
    from commit have "\<exists>x. to_refund x = Inr dto \<and> rf_order x = oid \<and> rf_idempotency_key x = key
        \<and> pm_refunds db' = pm_refunds db @ [x]"
    proof (cases rule: refund_commit_cases)
      case (stored p)
      then show ?thesis using get_order_id[OF stored(1)] adm(3) by (auto simp: refund_row_def)
    next
      case (completed p m)
      then show ?thesis using get_order_id[OF completed(1)] adm(3)
        by (auto simp: refund_row_def save_order_def)
    qed
    then obtain x where "to_refund x = Inr dto" "rf_order x = oid" "rf_idempotency_key x = key"
      "pm_refunds db' = pm_refunds db @ [x]" by blast
    with None have "map_option rf_id (find_refund db' oid key) = Some r"
      by (simp add: find_refund_def find_append r to_refund_id)
    with po' k payments_inv_step[OF 3(1) step] show ?thesis by (simp add: requested_refund_def)
  qed
next
  case (4 db k r i)
  obtain ctx c where i: "i = (ctx, c)" by (cases i)
  from 4 i obtain po x where po: "get_order db (fst k) = Some po" "paid_state (po_state po)"
    and x: "find_refund db (fst k) (rq_idempotency_key c) = Some x" "r = rf_id x"
    and perm: "''payments.refund'' \<in> set (pc_permissions ctx)"
    by (auto simp: requested_refund_def refund_admitted_def split: option.splits)
  from get_order_id[OF po(1)] have "po_id po = fst k" by simp
  moreover have "rf_currency x = ''CNY''"
    using payments_invD(6)[OF 4(1), of x] x(1)
    by (auto simp: refund_row_ok_def find_refund_def dest: find_Some_mem)
  ultimately show ?case
    using po x perm i
    by (simp add: request_refund_id_def request_refund_def request_refund_read_def require_order_def
        payments_require_def requireE_def to_refund_def)
qed

end
