(* ===== verification/Payments_Properties.thy ===== *)
theory Payments_Properties
  imports Payments_Correct
begin

text \<open>
  The properties of the payments capability, with the life of one sample order as witness: created,
  pending, captured, refunded in part.
\<close>

section \<open>A sample order\<close>

definition sample_pay_schemas :: "(dict \<Rightarrow> exn + unit) registry" where
  "sample_pay_schemas = \<lparr>reg_items = map (\<lambda>k. (k, \<lambda>_. Inr ())) payment_event_keys, reg_frozen = True\<rparr>"

text \<open>A provider that opens a session, reports a capture of 1000 and completes refunds at once.\<close>

definition sample_provider :: payment_provider where
  "sample_provider = \<lparr>pv_create_payment = \<lambda>ref amount cur key descr. Inr \<lparr>ps_provider_ref = ''p-'' @ ref,
       ps_redirect_url = Some ''https://pay'', ps_qr_code_payload = None, ps_app_url = None,
       ps_requires_action = True\<rparr>,
     pv_get_payment = \<lambda>ref. Inr \<lparr>pst_state = PS_captured, pst_captured_amount = Some 1000,
       pst_currency = Some ''CNY''\<rparr>,
     pv_verify_webhook = \<lambda>req. Inr \<lparr>we_event_id = wq_raw_body req, we_kind = WK_capture,
       we_order_reference = ''ord_r1'', we_amount = 1000, we_currency = ''CNY''\<rparr>,
     pv_create_refund = \<lambda>ref amount cur key reason. Inr \<lparr>pr_ref = ''rf'', pr_state = RF_completed\<rparr>\<rparr>"

definition sample_pay_ctx :: payments_ctx where
  "sample_pay_ctx = \<lparr>pc_now = 100, pc_providers = [(''epay'', sample_provider)],
     pc_permissions = [''payments.create'', ''payments.cancel'', ''payments.refund'', ''payments.reconcile''],
     pc_trace_id = None, pc_schemas = sample_pay_schemas, pc_digest = (\<lambda>s. s), pc_reference = ''r1''\<rparr>"

definition sample_order_input :: create_order_input where
  "sample_order_input = \<lparr>co_subject_type = ''user'', co_subject_id = ''u1'', co_provider_key = ''epay'',
     co_offer_key = ''points.100'', co_offer_version = ''1'', co_description = ''100 points'',
     co_amount = 1000, co_currency = ''CNY'', co_idempotency_key = ''k1''\<rparr>"

definition sample_refund :: "int \<Rightarrow> string \<Rightarrow> refund_input" where
  "sample_refund n key = \<lparr>rq_amount = n, rq_reason = ''asked'', rq_idempotency_key = key\<rparr>"

definition sample_event :: "string \<Rightarrow> webhook_kind \<Rightarrow> int \<Rightarrow> webhook_event" where
  "sample_event i kind n = \<lparr>we_event_id = i, we_kind = kind, we_order_reference = ''ord_r1'',
     we_amount = n, we_currency = ''CNY''\<rparr>"

definition paid_after :: "exn + 'a \<times> payments_db \<Rightarrow> payments_db" where
  "paid_after r = (case r of Inr (_, db) \<Rightarrow> db | Inl _ \<Rightarrow> empty_payments_db)"

definition pay_created :: payments_db where
  "pay_created = paid_after (create_payment_order sample_pay_ctx sample_order_input empty_payments_db)"

definition sample_session :: provider_session where
  "sample_session = \<lparr>ps_provider_ref = ''p-ord_r1'', ps_redirect_url = Some ''https://pay'',
     ps_qr_code_payload = None, ps_app_url = None, ps_requires_action = True\<rparr>"

definition pay_pending :: payments_db where
  "pay_pending = paid_after (start_attempt_commit sample_pay_ctx 1 sample_session pay_created)"

definition pay_captured :: payments_db where
  "pay_captured = snd (webhook_transaction sample_pay_ctx ''epay'' ''d'' (sample_event ''e1'' WK_capture 1000)
     pay_pending)"

definition pay_partly :: payments_db where
  "pay_partly = paid_after (request_refund_commit sample_pay_ctx 1 (sample_refund 300 ''a'')
     \<lparr>pr_ref = ''rf'', pr_state = RF_completed\<rparr> pay_captured)"

text \<open>The same order with a refund of the full price pending before the partial refund completes.\<close>

definition pay_pending_refund :: payments_db where
  "pay_pending_refund = paid_after (request_refund_commit sample_pay_ctx 1 (sample_refund 1000 ''b'')
     \<lparr>pr_ref = ''rf'', pr_state = RF_pending\<rparr> pay_captured)"

definition pay_two_refunds :: payments_db where
  "pay_two_refunds = paid_after (request_refund_commit sample_pay_ctx 1 (sample_refund 300 ''a'')
     \<lparr>pr_ref = ''rf'', pr_state = RF_completed\<rparr> pay_pending_refund)"

lemma sample_pay_ctx_ok: "payment_events_ok sample_pay_ctx"
  by (auto simp: payment_events_ok_def sample_pay_ctx_def validate_payload_def sample_pay_schemas_def
      registry_lookup_def payment_event_keys_def)

lemma sample_input_ok: "create_input_ok sample_order_input"
  by (simp add: create_input_ok_def sample_order_input_def)

lemma sample_refund_ok: "0 < n \<Longrightarrow> length key = 1 \<Longrightarrow> refund_input_ok (sample_refund n key)"
  by (simp add: refund_input_ok_def sample_refund_def)

text \<open>The sample states are reached by committed transactions.\<close>

lemma committed:
  assumes "\<not> isl r"
  obtains x where "r = Inr (x, paid_after r)"
  using assms by (cases r) (auto simp: paid_after_def)

lemma pay_created_step: "payments_step empty_payments_db pay_created"
proof -
  have "\<not> isl (create_payment_order sample_pay_ctx sample_order_input empty_payments_db)" by code_simp
  then obtain x where "create_payment_order sample_pay_ctx sample_order_input empty_payments_db
      = Inr (x, pay_created)" unfolding pay_created_def by (rule committed)
  then show ?thesis by (rule py_create[OF sample_pay_ctx_ok sample_input_ok])
qed

lemma pay_pending_step: "payments_step pay_created pay_pending"
proof -
  have "\<not> isl (start_attempt_commit sample_pay_ctx 1 sample_session pay_created)" by code_simp
  then obtain x where "start_attempt_commit sample_pay_ctx 1 sample_session pay_created
      = Inr (x, pay_pending)" unfolding pay_pending_def by (rule committed)
  then show ?thesis by (rule py_start[OF sample_pay_ctx_ok])
qed

lemma pay_webhook_step: "payments_step db (snd (webhook_transaction sample_pay_ctx ''epay'' ''d'' ev db))"
  by (rule py_webhook[OF sample_pay_ctx_ok, of "''epay''" "''d''" ev db
        "fst (webhook_transaction sample_pay_ctx ''epay'' ''d'' ev db)"]) simp

lemma pay_captured_step: "payments_step pay_pending pay_captured"
  unfolding pay_captured_def by (rule pay_webhook_step)

lemma pay_partly_step: "payments_step pay_captured pay_partly"
proof -
  have "\<not> isl (request_refund_commit sample_pay_ctx 1 (sample_refund 300 ''a'')
     \<lparr>pr_ref = ''rf'', pr_state = RF_completed\<rparr> pay_captured)" by code_simp
  then obtain x where "request_refund_commit sample_pay_ctx 1 (sample_refund 300 ''a'')
     \<lparr>pr_ref = ''rf'', pr_state = RF_completed\<rparr> pay_captured = Inr (x, pay_partly)"
    unfolding pay_partly_def by (rule committed)
  moreover have "refund_input_ok (sample_refund 300 ''a'')" by (simp add: sample_refund_ok)
  ultimately show ?thesis by (intro py_refund[OF sample_pay_ctx_ok])
qed

lemma steps_trans: "payments_steps db d \<Longrightarrow> payments_step d db' \<Longrightarrow> payments_steps db db'"
  by (rule rtranclp.rtrancl_into_rtrancl)

lemma pay_reached:
  "payments_steps empty_payments_db pay_created"
  "payments_steps empty_payments_db pay_pending"
  "payments_steps empty_payments_db pay_captured"
  "payments_steps empty_payments_db pay_partly"
proof -
  note trans = steps_trans
  show c: "payments_steps empty_payments_db pay_created"
    by (rule trans[OF _ pay_created_step]) simp
  show p: "payments_steps empty_payments_db pay_pending" by (rule trans[OF c pay_pending_step])
  show k: "payments_steps empty_payments_db pay_captured" by (rule trans[OF p pay_captured_step])
  show "payments_steps empty_payments_db pay_partly" by (rule trans[OF k pay_partly_step])
qed

section \<open>Money\<close>

text \<open>
  C27. The books of payments, in every reachable state: an order is in CNY with a positive amount;
  it has captured exactly its amount when it is captured or refunded and nothing otherwise; its
  refunded amount is the sum of its completed refund rows; and its state says which case holds:
  nothing refunded, less than the price, or at least the price (never twice the price).
\<close>

theorem payment_books_balance:
  assumes "payments_steps empty_payments_db db" and "po \<in> set (pm_orders db)"
  shows "po_currency po = ''CNY'' \<and> 0 < po_amount po
    \<and> po_captured_amount po = (if paid_state (po_state po) then po_amount po else 0)
    \<and> po_refunded_amount po = completed_sum db (po_id po)
    \<and> (po_state po = OS_partially_refunded \<longleftrightarrow>
         0 < po_refunded_amount po \<and> po_refunded_amount po < po_captured_amount po)
    \<and> (po_state po = OS_refunded \<longleftrightarrow>
         0 < po_captured_amount po \<and> po_captured_amount po \<le> po_refunded_amount po)
    \<and> po_refunded_amount po < 2 * po_amount po"
proof -
  from payments_inv_steps[OF assms(1) payments_inv_empty]
  have "money_ok po (completed_sum db (po_id po)) (capture_events db (po_id po))"
    using assms(2) payments_invD(4) by blast
  then show ?thesis
    by (cases "po_state po") (auto simp: money_ok_def paid_state_def)
qed

theorem payment_books_balance_witness:
  "\<exists>po. pm_orders pay_partly = [po] \<and> po_captured_amount po = 1000
     \<and> completed_sum pay_partly (po_id po) = 300 \<and> po_state po = OS_partially_refunded"
proof -
  let ?po = "hd (pm_orders pay_partly)"
  have po: "pm_orders pay_partly = [?po]" "?po \<in> set (pm_orders pay_partly)"
    "po_amount ?po = 1000" "paid_state (po_state ?po)" "po_refunded_amount ?po = 300" by code_simp+
  from payment_books_balance[OF pay_reached(4) po(2)] po show ?thesis by auto
qed

text \<open>
  C28. Refinement: the capability implements an abstract payment. From every reachable state, a
  transaction keeps every order with its identifying fields and price, never moves its state
  backwards, and changes the money behind it by one abstract step: capture in full once, close
  unpaid, or refund a positive amount while something is left.
\<close>

theorem payments_refine_money:
  assumes "payments_steps empty_payments_db db" and "payments_step db db'"
    and "get_order db i = Some po"
  shows "\<exists>po'. get_order db' i = Some po' \<and> same_order po po' \<and> po_state po \<le> po_state po'
    \<and> money_step (po_amount po) (abs_money po) (abs_money po')"
  using step_moves_orders[OF payments_inv_steps[OF assms(1) payments_inv_empty] assms(2,3)]
  by (auto simp: order_moves_def)

theorem payments_refine_money_witness:
  "\<exists>po po'. get_order pay_pending 1 = Some po \<and> get_order pay_captured 1 = Some po'
     \<and> money_step 1000 (abs_money po) (abs_money po') \<and> abs_money po' = Paid 1000 0"
proof -
  let ?po = "hd (pm_orders pay_pending)"
  have po: "get_order pay_pending 1 = Some ?po" "po_amount ?po = 1000"
    "map_option abs_money (get_order pay_captured 1) = Some (Paid 1000 0)" by code_simp+
  from payments_refine_money[OF pay_reached(2) pay_captured_step po(1)] po show ?thesis by auto
qed



section \<open>Repetition\<close>

text \<open>
  Creating an order is idempotent by provider and key: a repetition in any later state, with
  whatever other input, returns the order created first, in its current state, and changes nothing.
\<close>

theorem create_order_idempotent:
  assumes "payments_steps empty_payments_db db" and "create_admitted k (ctx, c)"
    and "create_order_id (ctx, c) db = Inr (oid, db1)"
    and "payments_steps db1 db2" and "create_admitted k (ctx', c')"
  shows "create_order_id (ctx', c') db2 = Inr (oid, db2)"
  by (rule created.repeat_returns_recorded[OF payments_inv_steps[OF assms(1) payments_inv_empty]
        assms(2-5)])

theorem create_order_idempotent_witness:
  "create_order_id (sample_pay_ctx, sample_order_input\<lparr>co_amount := 5\<rparr>) pay_partly = Inr (1, pay_partly)"
proof -
  have adm: "create_admitted (''epay'', ''k1'') (sample_pay_ctx, sample_order_input)"
    "create_admitted (''epay'', ''k1'') (sample_pay_ctx, sample_order_input\<lparr>co_amount := 5\<rparr>)"
    using sample_pay_ctx_ok sample_input_ok
    by (simp_all add: create_admitted_def create_input_ok_def sample_order_input_def sample_pay_ctx_def)
  have "map_sum (\<lambda>_. ()) fst (create_order_id (sample_pay_ctx, sample_order_input) empty_payments_db) = Inr 1"
    by code_simp
  moreover have "create_order_id (sample_pay_ctx, sample_order_input) empty_payments_db
      = bindE (create_payment_order sample_pay_ctx sample_order_input empty_payments_db)
          (\<lambda>(dto, db'). Inr (read_nat (od_id dto), db'))"
    by (simp add: create_order_id_def)
  ultimately have first: "create_order_id (sample_pay_ctx, sample_order_input) empty_payments_db
      = Inr (1, pay_created)"
    unfolding pay_created_def paid_after_def
    by (auto simp: bindE_def split: sum.splits prod.splits)
  have "payments_steps pay_created pay_partly"
    by (rule steps_trans[OF steps_trans[OF steps_trans[OF rtranclp.rtrancl_refl
          pay_pending_step] pay_captured_step] pay_partly_step])
  from create_order_idempotent[OF rtranclp.rtrancl_refl adm(1) first this adm(2)] show ?thesis .
qed

text \<open>
  Requesting a refund is idempotent by order and key: the first request that succeeds fixes the
  refund; a repetition in any later state returns that refund without asking the
  money, whatever amount it asks for, and changes nothing.
\<close>

theorem request_refund_idempotent:
  assumes "payments_steps empty_payments_db db" and "refund_admitted k (ctx, c)"
    and "request_refund_id k (ctx, c) db = Inr (rid, db1)"
    and "payments_steps db1 db2" and "refund_admitted k (ctx', c')"
  shows "request_refund_id k (ctx', c') db2 = Inr (rid, db2)"
  by (rule refunds.repeat_returns_recorded[OF payments_inv_steps[OF assms(1) payments_inv_empty]
        assms(2-5)])

theorem request_refund_idempotent_witness:
  "\<exists>rid db1. request_refund_id (1, ''a'') (sample_pay_ctx, sample_refund 300 ''a'') pay_captured
      = Inr (rid, db1)
    \<and> request_refund_id (1, ''a'') (sample_pay_ctx, sample_refund 900 ''a'') db1 = Inr (rid, db1)"
proof -
  let ?r = "request_refund_id (1, ''a'') (sample_pay_ctx, sample_refund 300 ''a'') pay_captured"
  have adm: "refund_admitted (1, ''a'') (sample_pay_ctx, sample_refund n ''a'')" if "0 < n" for n
    using sample_pay_ctx_ok that
    by (simp add: refund_admitted_def sample_refund_ok) (simp add: sample_refund_def sample_pay_ctx_def)
  have "\<not> isl ?r" by code_simp
  then obtain rid db1 where first: "?r = Inr (rid, db1)" by (cases ?r) auto
  from request_refund_idempotent[OF pay_reached(3) adm first rtranclp.rtrancl_refl adm, of 900]
  show ?thesis using first by auto
qed

text \<open>
  C30. A webhook event is applied at most once: after its first processing, whatever the outcome, a
  redelivery in any later state answers as a duplicate and changes nothing. This includes an event
  that was rejected, for instance a capture that arrived before the order was pending: the provider's
  retries can no longer apply it.
\<close>

theorem webhook_applied_at_most_once:
  assumes "payments_steps empty_payments_db db" and "payment_events_ok ctx"
    and "webhook_transaction ctx prov digest ev db = (r, db1)" and "payments_steps db1 db2"
    and "we_event_id ev' = we_event_id ev"
  shows "\<exists>oid. webhook_transaction ctx' prov digest' ev' db2
    = (Inr \<lparr>wx_duplicate = True, wx_event_id = we_event_id ev, wx_order_id = oid\<rparr>, db2)"
proof -
  from payments_inv_steps[OF assms(1) payments_inv_empty] have inv: "payments_inv db" .
  have step: "payments_step db db1" by (rule py_webhook[OF assms(2,3)])
  from grow_webhook[OF inv assms(2,3)] have rc: "find_receipt db1 prov (we_event_id ev) \<noteq> None" by simp
  have keep: "find_receipt d' prov e \<noteq> None" if "tables_grow d d'" "find_receipt d prov e \<noteq> None"
    for d d' e
    using extends_by_find[of receipt_key "pm_receipts d" "pm_receipts d'"] that
    by (fastforce simp: receipt_key_find tables_grow_def)
  from assms(4) have "find_receipt db2 prov (we_event_id ev) \<noteq> None"
  proof (induction rule: rtranclp_induct)
    case (step d d')
    have "payments_inv d"
      by (rule payments_inv_steps[OF step(1) payments_inv_step[OF inv \<open>payments_step db db1\<close>]])
    with step_tables_grow step(2,3) keep show ?case by blast
  qed (use rc in simp)
  with assms(5) show ?thesis by (auto simp: webhook_transaction_def)
qed

text \<open>A capture that came too early is answered as a duplicate when it could be applied.\<close>

theorem webhook_applied_at_most_once_witness:
  "\<exists>db1 db2 oid. webhook_transaction sample_pay_ctx ''epay'' ''d'' (sample_event ''e1'' WK_capture 1000)
      pay_created = (Inl (payments_conflict ''payments.invalid_transition''), db1)
    \<and> db2 = paid_after (start_attempt_commit sample_pay_ctx 1 sample_session db1)
    \<and> map_option po_state (get_order db2 1) = Some OS_pending
    \<and> webhook_transaction sample_pay_ctx ''epay'' ''d'' (sample_event ''e1'' WK_capture 1000) db2
      = (Inr \<lparr>wx_duplicate = True, wx_event_id = ''e1'', wx_order_id = oid\<rparr>, db2)"
proof -
  let ?ev = "sample_event ''e1'' WK_capture 1000"
  let ?w = "webhook_transaction sample_pay_ctx ''epay'' ''d'' ?ev pay_created"
  let ?s = "start_attempt_commit sample_pay_ctx 1 sample_session (snd ?w)"
  have w: "fst ?w = Inl (payments_conflict ''payments.invalid_transition'')"
    "map_option po_state (get_order (paid_after ?s) 1) = Some OS_pending" "\<not> isl ?s"
    by code_simp+
  from committed[OF w(3)] obtain x where "?s = Inr (x, paid_after ?s)" .
  from py_start[OF sample_pay_ctx_ok this] have "payments_steps (snd ?w) (paid_after ?s)"
    by (rule r_into_rtranclp)
  moreover have "?w = (fst ?w, snd ?w)" by simp
  ultimately obtain oid where "webhook_transaction sample_pay_ctx ''epay'' ''d'' ?ev (paid_after ?s)
      = (Inr \<lparr>wx_duplicate = True, wx_event_id = we_event_id ?ev, wx_order_id = oid\<rparr>, paid_after ?s)"
    using webhook_applied_at_most_once[OF pay_reached(1) sample_pay_ctx_ok] by blast
  with w show ?thesis by (auto simp: sample_event_def intro!: exI[of _ "snd ?w"] prod_eqI)
qed

section \<open>Refunds that go wrong\<close>

text \<open>
  A refund that the provider completes at once but that is not the last one cannot be recorded
  for an order already refunded in part: the provider is asked and has returned the money, then the
  transaction fails with an invalid transition, since \<^verbatim>\<open>RequestRefund\<close> demands a transition to
  \<^verbatim>\<open>partially_refunded\<close> from \<^verbatim>\<open>partially_refunded\<close>; no refund row, amount or event remains.
\<close>

theorem second_partial_refund_unrecorded:
  assumes "get_order db i = Some po" and "po_state po = OS_partially_refunded"
    and "request_refund_read ctx i c db = Inr (Inr pr)" and "pr_state pr = RF_completed"
    and "po_refunded_amount po + rq_amount c < po_captured_amount po"
  shows "request_refund ctx i c db = Inl (payments_conflict ''payments.invalid_transition'')"
proof -
  from get_order_id[OF assms(1)] have i: "po_id po = i" by simp
  from assms(1,3) have "find_refund db i (rq_idempotency_key c) = None"
    by (auto simp: request_refund_read_def require_order_def i cmd_ok split: option.splits)
  with assms i show ?thesis
    by (simp add: request_refund_def request_refund_commit_def require_order_def refund_fits_def
        refund_target_def transition_ok_def requireE_def Let_def)
qed

theorem second_partial_refund_unrecorded_witness:
  "request_refund sample_pay_ctx 1 (sample_refund 200 ''b'') pay_partly
     = Inl (payments_conflict ''payments.invalid_transition'')"
proof (rule second_partial_refund_unrecorded)
  show "get_order pay_partly 1 = Some (hd (pm_orders pay_partly))"
    "po_state (hd (pm_orders pay_partly)) = OS_partially_refunded"
    "po_refunded_amount (hd (pm_orders pay_partly)) + rq_amount (sample_refund 200 ''b'')
       < po_captured_amount (hd (pm_orders pay_partly))" by code_simp+
  show "request_refund_read sample_pay_ctx 1 (sample_refund 200 ''b'') pay_partly
      = Inr (Inr \<lparr>pr_ref = ''rf'', pr_state = RF_completed\<rparr>)"
  proof -
    let ?po = "hd (pm_orders pay_partly)"
    have "get_order pay_partly 1 = Some ?po" "paid_state (po_state ?po)" "po_id ?po = 1"
      "find_refund pay_partly 1 ''b'' = None" "po_provider_key ?po = ''epay''"
      "po_refunded_amount ?po = 300" "po_captured_amount ?po = 1000"
      by code_simp+
    then show ?thesis
      by (simp add: request_refund_read_def payments_require_def requireE_def require_order_def
          get_provider_def refund_fits_def call_provider_def sample_provider_def sample_pay_ctx_def
          sample_refund_def someE_def)
  qed
qed simp

text \<open>
  A refund webhook for less than the price is never applied: the amount check compares the
  event with the price of the order before the event type is looked at, so the event is rejected,
  the order and its pending refund stay, and (C36) no redelivery can change that.
\<close>

theorem partial_refund_webhook_rejected:
  assumes "find_receipt db prov (we_event_id ev) = None"
    and "find (\<lambda>x. po_order_reference x = we_order_reference ev \<and> po_provider_key x = prov)
      (pm_orders db) = Some po"
    and "we_kind ev = WK_refund" and "we_amount ev < po_amount po"
  shows "\<exists>db'. webhook_transaction ctx prov digest ev db
      = (Inl (payments_conflict ''payments.amount_mismatch''), db')
    \<and> pm_orders db' = pm_orders db \<and> pm_refunds db' = pm_refunds db \<and> pm_outbox db' = pm_outbox db
    \<and> find_receipt db' prov (we_event_id ev) \<noteq> None"
  using assms
  by (auto simp: webhook_transaction_def table_simps Let_def find_receipt_def reject_receipt_def
      find_update_where find_append)

theorem partial_refund_webhook_rejected_witness:
  "let r = webhook_transaction sample_pay_ctx ''epay'' ''d'' (sample_event ''e2'' WK_refund 300)
      pay_pending_refund in
   fst r = Inl (payments_conflict ''payments.amount_mismatch'')
   \<and> pm_refunds (snd r) = pm_refunds pay_pending_refund"
proof -
  have "find_receipt pay_pending_refund ''epay'' (we_event_id (sample_event ''e2'' WK_refund 300)) = None"
    "find (\<lambda>x. po_order_reference x = we_order_reference (sample_event ''e2'' WK_refund 300)
        \<and> po_provider_key x = ''epay'') (pm_orders pay_pending_refund)
      = Some (hd (pm_orders pay_pending_refund))"
    "we_kind (sample_event ''e2'' WK_refund 300) = WK_refund"
    "we_amount (sample_event ''e2'' WK_refund 300) < po_amount (hd (pm_orders pay_pending_refund))"
    by code_simp+
  from partial_refund_webhook_rejected[OF this, of sample_pay_ctx "''d''"] show ?thesis
    by (auto simp: Let_def)
qed

text \<open>
  More than the captured amount can be refunded: a refund of the full price that is pending at
  the provider is not counted when a second refund is requested and completed, and its webhook is
  then applied, so that the refunded amount exceeds the captured one.
\<close>

theorem refunds_exceed_capture:
  assumes "payments_steps empty_payments_db db" and "payment_events_ok ctx" and "get_order db i = Some po"
    and "po_state po = OS_partially_refunded"
    and "find (\<lambda>r. rf_amount r = po_amount po) (pending_refunds db i) \<noteq> None"
    and "we_kind ev = WK_refund" and "we_amount ev = po_amount po"
  shows "\<exists>db' po'. apply_webhook ctx ev po db = (Inr (), db') \<and> get_order db' i = Some po'
    \<and> po_captured_amount po' < po_refunded_amount po'"
proof -
  from payments_inv_steps[OF assms(1) payments_inv_empty] have inv: "payments_inv db" .
  from get_order_id[OF assms(3)] have i: "po_id po = i" by simp
  from refund_event_cases[OF inv assms(2,3), of ev] assms(4,5,7) obtain r m where     2: "rf_amount r = we_amount ev" "apply_refund_event ctx ev po db
        = (Inr (), (save_order (refunded_order (rf_amount r) po)
             (save_refund (r\<lparr>rf_state := RF_completed, rf_completed_at := Some (pc_now ctx)\<rparr>) db))
             \<lparr>pm_outbox := pm_outbox db @ [m], pm_next_id := pm_next_id db + 2\<rparr>)"
    by auto
    let ?po = "refunded_order (rf_amount r) po"
    let ?db = "save_refund (r\<lparr>rf_state := RF_completed, rf_completed_at := Some (pc_now ctx)\<rparr>) db"
    have "get_order ?db i = Some po" using assms(3) by (simp add: get_order_def save_refund_def)
    then have "get_order (save_order ?po ?db) i = Some ?po"
      using i by (simp add: table_simps refunded_order_def Let_def)
    moreover have "po_captured_amount ?po < po_refunded_amount ?po"
      using payments_inv_money[OF inv assms(3)] assms(4,7) 2(1)
      by (auto simp: money_ok_def refunded_order_def Let_def paid_state_def)
    ultimately show ?thesis
      using 2(2) assms(6) by (simp add: apply_webhook_def get_order_def)
qed

lemma pay_two_refunds_reached: "payments_steps empty_payments_db pay_two_refunds"
proof -
  have ok: "refund_input_ok (sample_refund 1000 ''b'')" "refund_input_ok (sample_refund 300 ''a'')"
    by (simp_all add: sample_refund_ok)
  let ?r1 = "request_refund_commit sample_pay_ctx 1 (sample_refund 1000 ''b'')
     \<lparr>pr_ref = ''rf'', pr_state = RF_pending\<rparr> pay_captured"
  let ?r2 = "request_refund_commit sample_pay_ctx 1 (sample_refund 300 ''a'')
     \<lparr>pr_ref = ''rf'', pr_state = RF_completed\<rparr> pay_pending_refund"
  have live: "\<not> isl ?r1" "\<not> isl ?r2" by code_simp+
  from committed[OF live(1)] obtain x where "?r1 = Inr (x, pay_pending_refund)"
    unfolding pay_pending_refund_def .
  from steps_trans[OF pay_reached(3) py_refund[OF sample_pay_ctx_ok ok(1) this]]
  have steps: "payments_steps empty_payments_db pay_pending_refund" .
  from committed[OF live(2)] obtain y where "?r2 = Inr (y, pay_two_refunds)"
    unfolding pay_two_refunds_def .
  from steps_trans[OF steps py_refund[OF sample_pay_ctx_ok ok(2) this]] show ?thesis .
qed

theorem refunds_exceed_capture_witness:
  "\<exists>db' po'. apply_webhook sample_pay_ctx (sample_event ''e3'' WK_refund 1000)
      (hd (pm_orders pay_two_refunds)) pay_two_refunds = (Inr (), db')
    \<and> get_order db' 1 = Some po' \<and> po_captured_amount po' < po_refunded_amount po'"
proof -
  let ?po = "hd (pm_orders pay_two_refunds)"
  have "get_order pay_two_refunds 1 = Some ?po" "po_state ?po = OS_partially_refunded"
    "find (\<lambda>r. rf_amount r = po_amount ?po) (pending_refunds pay_two_refunds 1) \<noteq> None"
    "we_kind (sample_event ''e3'' WK_refund 1000) = WK_refund"
    "we_amount (sample_event ''e3'' WK_refund 1000) = po_amount ?po"
    by code_simp+
  from refunds_exceed_capture[OF pay_two_refunds_reached sample_pay_ctx_ok this] show ?thesis .
qed

end
