(* ===== verification/Membership_Model.thy ===== *)
theory Membership_Model
  imports Kernel_Outbox Kernel_Page
begin

text \<open>
  The data of the membership capability: level declarations and their registry
  (\<^verbatim>\<open>inc/capabilities/membership/levels.py\<close>), the tables (\<^verbatim>\<open>models.py\<close>), inputs and results
  (\<^verbatim>\<open>schemas.py\<close>) and the event payloads (\<^verbatim>\<open>events.py\<close>). The level registry is memory of the
  process; it is part of the state beside the tables because commands change it and a rollback
  does not undo that. The free-form metadata of a level row is always empty and left out.
\<close>

section \<open>Levels\<close>

datatype level_status = LS_active | LS_archived

record level_spec =
  lv_key :: string
  lv_display_name :: string
  lv_tier_rank :: int
  lv_cycle_days :: int
  lv_grant_points :: int
  lv_cycle_points_amount :: int
  lv_renewal_allowed :: bool
  lv_status :: level_status
  lv_version :: int

text \<open>\<^verbatim>\<open>MembershipLevelSpec.__init__\<close>: the amount has two names, the newer one wins.\<close>

definition make_level_spec ::
    "string \<Rightarrow> string \<Rightarrow> int \<Rightarrow> int \<Rightarrow> int option \<Rightarrow> int option \<Rightarrow> bool \<Rightarrow> level_status \<Rightarrow> int
      \<Rightarrow> exn + level_spec" where
  "make_level_spec key name rank cycle grant amount renewal status version =
     (let bad = PyException ''ValueError'' in
      bindE (requireE (re_match_dollar snake_key key) bad) (\<lambda>_.
      bindE (requireE (name \<noteq> []) bad) (\<lambda>_.
      bindE (requireE (0 < rank) bad) (\<lambda>_.
      bindE (requireE (0 < cycle) bad) (\<lambda>_.
      bindE (someE (case amount of None \<Rightarrow> grant | Some a \<Rightarrow> Some a) bad) (\<lambda>a.
      bindE (requireE (0 < a) bad) (\<lambda>_.
      Inr \<lparr>lv_key = key, lv_display_name = name, lv_tier_rank = rank, lv_cycle_days = cycle,
        lv_grant_points = a, lv_cycle_points_amount = a, lv_renewal_allowed = renewal,
        lv_status = status, lv_version = version\<rparr>)))))))"

text \<open>Registration at boot, at run time, the update of a registered level, and the lookup.\<close>

definition level_register ::
    "string \<Rightarrow> level_spec \<Rightarrow> level_spec registry \<Rightarrow> exn + level_spec registry" where
  "level_register k s r =
     bindE (requireE (\<not> reg_frozen r) frozen_error) (\<lambda>_.
     bindE (requireE (registry_lookup r k = None)
       (KernelError ''membership.duplicate_level'' INTERNAL)) (\<lambda>_.
     Inr (registry_store k s r)))"

interpretation levels: frozen_registry level_register registry_lookup reg_frozen registry_freeze
  by unfold_locales (auto simp: level_register_def cmd_ok)

definition level_register_runtime ::
    "level_spec \<Rightarrow> level_spec registry \<Rightarrow> exn + level_spec registry" where
  "level_register_runtime s r =
     bindE (requireE (registry_lookup r (lv_key s) = None)
       (KernelError ''membership.duplicate_level'' CONFLICT)) (\<lambda>_.
     Inr (registry_store (lv_key s) s r))"

definition level_require :: "level_spec registry \<Rightarrow> string \<Rightarrow> exn + level_spec" where
  "level_require r k = someE (registry_lookup r k) (KernelError ''membership.unknown_level'' INTERNAL)"

definition level_specs :: "level_spec registry \<Rightarrow> level_spec list" where
  "level_specs r = map snd (reg_items r)"

text \<open>The keyword arguments of an update; \<^verbatim>\<open>None\<close> is a keyword that is not given.\<close>

record level_values =
  vl_display_name :: "string option"
  vl_tier_rank :: "int option"
  vl_cycle_days :: "int option"
  vl_grant_points :: "int option"
  vl_cycle_points_amount :: "int option"
  vl_renewal_allowed :: "bool option"
  vl_status :: "level_status option"

definition no_level_values :: level_values where
  "no_level_values = \<lparr>vl_display_name = None, vl_tier_rank = None, vl_cycle_days = None,
     vl_grant_points = None, vl_cycle_points_amount = None, vl_renewal_allowed = None,
     vl_status = None\<rparr>"

definition given :: "'a option \<Rightarrow> 'a \<Rightarrow> 'a" where
  "given v old = (case v of None \<Rightarrow> old | Some x \<Rightarrow> x)"

lemma given_simps [simp]: "given None x = x" "given (Some y) x = y"
  by (simp_all add: given_def)

definition alias_amounts :: "level_values \<Rightarrow> level_values" where
  "alias_amounts v =
     (let v1 = if vl_cycle_points_amount v \<noteq> None \<and> vl_grant_points v = None
               then v\<lparr>vl_grant_points := vl_cycle_points_amount v\<rparr> else v
      in if vl_grant_points v1 \<noteq> None \<and> vl_cycle_points_amount v1 = None
         then v1\<lparr>vl_cycle_points_amount := vl_grant_points v1\<rparr> else v1)"

definition level_update_runtime ::
    "string \<Rightarrow> level_values \<Rightarrow> level_spec registry \<Rightarrow> exn + level_spec \<times> level_spec registry" where
  "level_update_runtime k vals r =
     bindE (level_require r k) (\<lambda>s.
     let v = alias_amounts vals;
         s' = s\<lparr>lv_display_name := given (vl_display_name v) (lv_display_name s),
           lv_tier_rank := given (vl_tier_rank v) (lv_tier_rank s),
           lv_cycle_days := given (vl_cycle_days v) (lv_cycle_days s),
           lv_grant_points := given (vl_grant_points v) (lv_grant_points s),
           lv_cycle_points_amount := given (vl_cycle_points_amount v) (lv_cycle_points_amount s),
           lv_renewal_allowed := given (vl_renewal_allowed v) (lv_renewal_allowed s),
           lv_status := given (vl_status v) (lv_status s),
           lv_version := lv_version s + 1\<rparr>
     in Inr (s', registry_store k s' r))"

section \<open>Tables\<close>

record level_row =
  lr_id :: nat
  lr_level_key :: string
  lr_display_name :: string
  lr_tier_rank :: int
  lr_status :: level_status
  lr_cycle_days :: int
  lr_grant_points :: int
  lr_renewal_allowed :: bool
  lr_version :: int

datatype subscription_status =
    SU_pending_activation | SU_active | SU_expired | SU_cancelled | SU_terminated | SU_failed

record subscription =
  su_id :: nat
  su_subject_type :: string
  su_subject_id :: string
  su_level_key :: string
  su_cycle_start :: time
  su_cycle_end :: time
  su_status :: subscription_status
  su_auto_renew :: bool
  su_granted_points :: int
  su_renewal_count :: int
  su_cycle :: "nat option"
  su_source_type :: "string option"
  su_source_ref :: "string option"
  su_version :: int
  su_cancelled_at :: "time option"
  su_expired_at :: "time option"
  su_terminated_at :: "time option"
  su_created_at :: time

datatype cycle_state = CY_prepared | CY_activated | CY_failed

record membership_cycle =
  cy_id :: nat
  cy_subscription :: nat
  cy_level_key :: string
  cy_cycle_start :: time
  cy_cycle_end :: time
  cy_points_amount :: int
  cy_state :: cycle_state
  cy_source_type :: string
  cy_source_ref :: string
  cy_points_entry_ref :: "string option"
  cy_idempotency_key :: string
  cy_attach_key :: "string option"
  cy_failure_code :: "string option"
  cy_version :: int
  cy_created_at :: time

record membership_db =
  mb_registry :: "level_spec registry"
  mb_levels :: "level_row list"
  mb_subscriptions :: "subscription list"
  mb_cycles :: "membership_cycle list"
  mb_outbox :: "outbox_message list"
  mb_next_id :: nat

definition empty_membership_db :: membership_db where
  "empty_membership_db = \<lparr>mb_registry = empty_registry, mb_levels = [], mb_subscriptions = [],
     mb_cycles = [], mb_outbox = [], mb_next_id = 1\<rparr>"

section \<open>Inputs and results\<close>

record prepare_input =
  pi_subject_type :: string
  pi_subject_id :: string
  pi_level_key :: string
  pi_source_type :: string
  pi_source_ref :: string
  pi_idempotency_key :: string
  pi_expected_version :: "int option"
  pi_auto_renew :: bool

definition text_within :: "nat \<Rightarrow> string \<Rightarrow> bool" where
  "text_within n s \<longleftrightarrow> 1 \<le> length s \<and> length s \<le> n"

definition prepare_input_ok :: "prepare_input \<Rightarrow> bool" where
  "prepare_input_ok i \<longleftrightarrow> text_within 32 (pi_subject_type i) \<and> text_within 200 (pi_subject_id i)
     \<and> text_within 100 (pi_level_key i) \<and> text_within 64 (pi_source_type i)
     \<and> text_within 200 (pi_source_ref i) \<and> text_within 200 (pi_idempotency_key i)
     \<and> (case pi_expected_version i of None \<Rightarrow> True | Some v \<Rightarrow> 1 \<le> v)"

record attach_input =
  at_cycle_id :: string
  at_points_entry_ref :: string
  at_idempotency_key :: string

record fail_input =
  fi_cycle_id :: string
  fi_failure_code :: string
  fi_idempotency_key :: string

record subscription_dto =
  sd_id :: string
  sd_subject_type :: string
  sd_subject_id :: string
  sd_level_key :: string
  sd_cycle_start :: time
  sd_cycle_end :: time
  sd_status :: subscription_status
  sd_auto_renew :: bool
  sd_granted_points :: int
  sd_renewal_count :: int
  sd_cancelled_at :: "time option"
  sd_expired_at :: "time option"
  sd_cycle_id :: "string option"
  sd_cycle_points_amount :: "int option"
  sd_source_type :: "string option"
  sd_source_ref :: "string option"
  sd_terminated_at :: "time option"
  sd_version :: int

record cycle_dto =
  cd_cycle_id :: string
  cd_subscription_id :: string
  cd_subject_type :: string
  cd_subject_id :: string
  cd_level_key :: string
  cd_cycle_start :: time
  cd_cycle_end :: time
  cd_points_amount :: int
  cd_state :: cycle_state
  cd_source_type :: string
  cd_source_ref :: string
  cd_points_entry_ref :: "string option"
  cd_idempotency_key :: string
  cd_failure_code :: "string option"
  cd_version :: int

definition to_subscription :: "subscription \<Rightarrow> subscription_dto" where
  "to_subscription s = \<lparr>sd_id = show_nat (su_id s), sd_subject_type = su_subject_type s,
     sd_subject_id = su_subject_id s, sd_level_key = su_level_key s,
     sd_cycle_start = su_cycle_start s, sd_cycle_end = su_cycle_end s, sd_status = su_status s,
     sd_auto_renew = su_auto_renew s, sd_granted_points = su_granted_points s,
     sd_renewal_count = su_renewal_count s, sd_cancelled_at = su_cancelled_at s,
     sd_expired_at = su_expired_at s, sd_cycle_id = map_option show_nat (su_cycle s),
     sd_cycle_points_amount = Some (su_granted_points s), sd_source_type = su_source_type s,
     sd_source_ref = su_source_ref s, sd_terminated_at = su_terminated_at s,
     sd_version = su_version s\<rparr>"

definition to_cycle :: "membership_cycle \<Rightarrow> subscription \<Rightarrow> cycle_dto" where
  "to_cycle c s = \<lparr>cd_cycle_id = show_nat (cy_id c),
     cd_subscription_id = show_nat (cy_subscription c), cd_subject_type = su_subject_type s,
     cd_subject_id = su_subject_id s, cd_level_key = cy_level_key c,
     cd_cycle_start = cy_cycle_start c, cd_cycle_end = cy_cycle_end c,
     cd_points_amount = cy_points_amount c, cd_state = cy_state c,
     cd_source_type = cy_source_type c, cd_source_ref = cy_source_ref c,
     cd_points_entry_ref = cy_points_entry_ref c, cd_idempotency_key = cy_idempotency_key c,
     cd_failure_code = cy_failure_code c, cd_version = cy_version c\<rparr>"

section \<open>Context and events\<close>

record membership_ctx =
  mc_now :: time
  mc_permissions :: "string list"
  mc_trace_id :: "string option"
  mc_schemas :: "(dict \<Rightarrow> exn + unit) registry"

definition membership_conflict :: "string \<Rightarrow> exn" where
  "membership_conflict c = KernelError c CONFLICT"

definition cycle_snapshot :: "subscription \<Rightarrow> membership_cycle \<Rightarrow> dict" where
  "cycle_snapshot s c =
     [(''subscription_id'', id_json (su_id s)), (''cycle_id'', id_json (cy_id c)),
      (''subject_type'', JStr (su_subject_type s)), (''subject_id'', JStr (su_subject_id s)),
      (''level_key'', JStr (su_level_key s)), (''cycle_start'', JTime (su_cycle_start s)),
      (''cycle_end'', JTime (su_cycle_end s)),
      (''cycle_points_amount'', JInt (su_granted_points s)),
      (''source_type'', JStr (cy_source_type c)), (''source_ref'', JStr (cy_source_ref c))]"

definition subscription_snapshot :: "subscription \<Rightarrow> dict" where
  "subscription_snapshot s =
     [(''subscription_id'', id_json (su_id s)), (''subject_type'', JStr (su_subject_type s)),
      (''subject_id'', JStr (su_subject_id s)), (''level_key'', JStr (su_level_key s)),
      (''cycle_end'', JTime (su_cycle_end s))]"

text \<open>
  The payload of an event: the schema of its key drops the values it does not declare and raises
  when a declared one is missing or null.
\<close>

definition membership_payload :: "string \<Rightarrow> subscription \<Rightarrow> membership_cycle option \<Rightarrow> exn + dict" where
  "membership_payload key s co =
     (let invalid = PyException ''ValidationError'' in
      if key = ''membership.cycle_prepared.v1'' then
        bindE (someE co invalid) (\<lambda>c. Inr (cycle_snapshot s c))
      else if key = ''membership.activated.v1'' \<or> key = ''membership.renewed.v1'' then
        bindE (someE co invalid) (\<lambda>c. bindE (someE (cy_points_entry_ref c) invalid) (\<lambda>ref.
          Inr (cycle_snapshot s c @ [(''points_entry_ref'', JStr ref)])))
      else if key = ''membership.cycle_failed.v1'' then
        bindE (someE co invalid) (\<lambda>c. bindE (someE (cy_failure_code c) invalid) (\<lambda>code.
          Inr (cycle_snapshot s c @ [(''failure_code'', JStr code)])))
      else if key = ''membership.cancelled.v1'' \<or> key = ''membership.terminated.v1''
        \<or> key = ''membership.expired.v1'' then Inr (subscription_snapshot s)
      else Inl (PyException ''KeyError''))"

definition membership_event_keys :: "string list" where
  "membership_event_keys = [''membership.cycle_prepared.v1'', ''membership.activated.v1'',
     ''membership.renewed.v1'', ''membership.cancelled.v1'', ''membership.terminated.v1'',
     ''membership.expired.v1'', ''membership.cycle_failed.v1'']"

definition membership_append ::
    "membership_ctx \<Rightarrow> string \<Rightarrow> string \<Rightarrow> dict \<Rightarrow> membership_db \<Rightarrow> exn + membership_db" where
  "membership_append ctx key aggregate payload db =
     bindE (outbox_append (mc_schemas ctx) (mb_next_id db + 1) (mc_now ctx)
        \<lparr>ev_id = mb_next_id db, ev_key = key, ev_occurred_at = mc_now ctx,
          ev_producer = ''membership'', ev_aggregate_type = Some ''membership'',
          ev_aggregate_id = Some aggregate, ev_trace_id = mc_trace_id ctx, ev_payload = payload\<rparr>
        (mb_outbox db)) (\<lambda>box.
     Inr (db\<lparr>mb_outbox := box, mb_next_id := mb_next_id db + 2\<rparr>))"

definition membership_emit ::
    "membership_ctx \<Rightarrow> string \<Rightarrow> subscription \<Rightarrow> membership_cycle option \<Rightarrow> membership_db
      \<Rightarrow> exn + membership_db" where
  "membership_emit ctx key s co db =
     bindE (membership_payload key s co) (\<lambda>payload.
     membership_append ctx key (show_nat (su_id s)) payload db)"

end
