(* ===== verification/Membership_Levels.thy ===== *)
theory Membership_Levels
  imports Membership_Model
begin

text \<open>
  Level administration (\<^verbatim>\<open>inc/capabilities/membership/admin.py\<close>), the level lookup of the commands
  (\<^verbatim>\<open>_require_level\<close> of \<^verbatim>\<open>commands.py\<close>) and the catalogue (\<^verbatim>\<open>list_levels\<close> of \<^verbatim>\<open>queries.py\<close>). Rows and
  registry are changed one after the other: the transaction first, the registry after the commit.
\<close>

section \<open>Rows and specs\<close>

definition find_level_row :: "membership_db \<Rightarrow> string \<Rightarrow> level_row option" where
  "find_level_row db k = find (\<lambda>r. lr_level_key r = k) (mb_levels db)"

text \<open>\<^verbatim>\<open>MembershipLevelSpec(key=row.level_key, ...)\<close>, as three functions of the code build it.\<close>

definition spec_of_row :: "level_row \<Rightarrow> exn + level_spec" where
  "spec_of_row r = make_level_spec (lr_level_key r) (lr_display_name r) (lr_tier_rank r)
     (lr_cycle_days r) None (Some (lr_grant_points r)) (lr_renewal_allowed r) (lr_status r)
     (lr_version r)"

definition overwrite_spec :: "level_row \<Rightarrow> level_spec \<Rightarrow> level_spec" where
  "overwrite_spec r s = s\<lparr>lv_display_name := lr_display_name r, lv_tier_rank := lr_tier_rank r,
     lv_cycle_days := lr_cycle_days r, lv_grant_points := lr_grant_points r,
     lv_cycle_points_amount := lr_grant_points r, lv_renewal_allowed := lr_renewal_allowed r,
     lv_status := lr_status r, lv_version := lr_version r\<rparr>"

definition hydrate_row ::
    "level_row \<Rightarrow> level_spec registry \<Rightarrow> (exn + unit) \<times> level_spec registry" where
  "hydrate_row r reg = (case registry_lookup reg (lr_level_key r) of
     None \<Rightarrow> liftS (bindE (spec_of_row r) (\<lambda>s. level_register_runtime s reg)) reg
   | Some s \<Rightarrow> (Inr (), registry_store (lr_level_key r) (overwrite_spec r s) reg))"

fun hydrate_rows ::
    "level_row list \<Rightarrow> level_spec registry \<Rightarrow> (exn + unit) \<times> level_spec registry" where
  "hydrate_rows [] reg = (Inr (), reg)"
| "hydrate_rows (r # rs) reg = bindS (hydrate_row r reg) (\<lambda>_ reg'. hydrate_rows rs reg')"

definition hydrate_persisted_levels :: "membership_db \<Rightarrow> (exn + unit) \<times> membership_db" where
  "hydrate_persisted_levels db = (case hydrate_rows (mb_levels db) (mb_registry db) of
     (res, reg) \<Rightarrow> (res, db\<lparr>mb_registry := reg\<rparr>))"

text \<open>
  The level a command works with: the registry, and only for a key it does not know the table.
\<close>

definition require_level :: "string \<Rightarrow> membership_db \<Rightarrow> (exn + level_spec) \<times> membership_db" where
  "require_level k db = (case level_require (mb_registry db) k of
     Inr s \<Rightarrow> (Inr s, db)
   | Inl e \<Rightarrow>
       if err_code e \<noteq> ''membership.unknown_level'' then (Inl e, db)
       else (case find_level_row db k of
         None \<Rightarrow> (Inl (KernelError ''membership.unknown_level'' VALIDATION), db)
       | Some r \<Rightarrow> transact (bindE (spec_of_row r) (\<lambda>s.
           bindE (level_register_runtime s (mb_registry db)) (\<lambda>reg.
           Inr (s, db\<lparr>mb_registry := reg\<rparr>)))) db))"

section \<open>Administration\<close>

record level_dto =
  ld_level_key :: string
  ld_display_name :: string
  ld_tier_rank :: int
  ld_status :: level_status
  ld_cycle_days :: int
  ld_grant_points :: int
  ld_renewal_allowed :: bool
  ld_version :: int

definition level_dto_of :: "level_spec \<Rightarrow> level_dto" where
  "level_dto_of s = \<lparr>ld_level_key = lv_key s, ld_display_name = lv_display_name s,
     ld_tier_rank = lv_tier_rank s, ld_status = lv_status s, ld_cycle_days = lv_cycle_days s,
     ld_grant_points = lv_grant_points s, ld_renewal_allowed = lv_renewal_allowed s,
     ld_version = lv_version s\<rparr>"

definition to_level :: "level_spec \<Rightarrow> level_dto" where
  "to_level s = \<lparr>ld_level_key = lv_key s, ld_display_name = lv_display_name s,
     ld_tier_rank = lv_tier_rank s, ld_status = lv_status s, ld_cycle_days = lv_cycle_days s,
     ld_grant_points = lv_cycle_points_amount s, ld_renewal_allowed = lv_renewal_allowed s,
     ld_version = lv_version s\<rparr>"

definition level_audit ::
    "membership_ctx \<Rightarrow> string \<Rightarrow> string \<Rightarrow> string \<Rightarrow> dict \<Rightarrow> membership_db \<Rightarrow> exn + membership_db" where
  "level_audit ctx actor action target details db =
     membership_append ctx ''audit.entry.recorded.v1'' target
       [(''action'', JStr action), (''outcome'', JStr ''success''),
        (''occurred_at'', JTime (mc_now ctx)), (''actor_type'', JStr ''user''),
        (''actor_id'', JStr actor), (''target_type'', JStr ''membership_level''),
        (''target_id'', JStr target), (''trace_id'', opt_json (mc_trace_id ctx)),
        (''details'', JObj details)] db"

record create_level_input =
  cl_level_key :: string
  cl_display_name :: string
  cl_tier_rank :: int
  cl_cycle_days :: int
  cl_grant_points :: int
  cl_renewal_allowed :: bool

text \<open>The pattern of the input, \<^verbatim>\<open>^[a-z0-9](?:[a-z0-9_]*[a-z0-9])?$\<close>, allows double underscores.\<close>

definition create_level_ok :: "create_level_input \<Rightarrow> bool" where
  "create_level_ok i \<longleftrightarrow> text_within 100 (cl_level_key i) \<and> list_all key_char (cl_level_key i)
     \<and> hd (cl_level_key i) \<noteq> CHR ''_'' \<and> last (cl_level_key i) \<noteq> CHR ''_''
     \<and> text_within 200 (cl_display_name i) \<and> 0 < cl_tier_rank i \<and> 0 < cl_cycle_days i
     \<and> 0 < cl_grant_points i"

definition level_error :: "string \<Rightarrow> error_category \<Rightarrow> exn" where
  "level_error c cat = KernelError c cat"

definition insert_level_row :: "level_spec \<Rightarrow> membership_db \<Rightarrow> exn + nat \<times> membership_db" where
  "insert_level_row s db =
     bindE (requireE (find_level_row db (lv_key s) = None)
       (level_error ''membership.level_exists'' CONFLICT)) (\<lambda>_.
     Inr (mb_next_id db, db\<lparr>mb_levels := mb_levels db @ [\<lparr>lr_id = mb_next_id db,
       lr_level_key = lv_key s, lr_display_name = lv_display_name s, lr_tier_rank = lv_tier_rank s,
       lr_status = lv_status s, lr_cycle_days = lv_cycle_days s, lr_grant_points = lv_grant_points s,
       lr_renewal_allowed = lv_renewal_allowed s, lr_version = 1\<rparr>],
       mb_next_id := Suc (mb_next_id db)\<rparr>))"

definition create_level ::
    "membership_ctx \<Rightarrow> string \<Rightarrow> create_level_input \<Rightarrow> membership_db
      \<Rightarrow> (exn + level_dto) \<times> membership_db" where
  "create_level ctx actor i db =
     (if list_ex (\<lambda>s. lv_key s = cl_level_key i) (level_specs (mb_registry db))
      then (Inl (level_error ''membership.level_exists'' CONFLICT), db)
      else case make_level_spec (cl_level_key i) (cl_display_name i) (cl_tier_rank i)
          (cl_cycle_days i) (Some (cl_grant_points i)) None (cl_renewal_allowed i) LS_active 1 of
        Inl e \<Rightarrow> (Inl e, db)
      | Inr s \<Rightarrow>
          bindS (transact (bindE (insert_level_row s db) (\<lambda>(rid, db1).
            bindE (level_audit ctx actor ''membership.level.created'' (show_nat rid)
              [(''level_key'', JStr (lv_key s))] db1) (\<lambda>db2. Inr ((), db2)))) db) (\<lambda>_ db2.
          transact (bindE (level_register_runtime s (mb_registry db2)) (\<lambda>reg.
            Inr (level_dto_of s, db2\<lparr>mb_registry := reg\<rparr>))) db2))"

record update_level_input =
  ul_expected_version :: int
  ul_display_name :: "string option"
  ul_tier_rank :: "int option"
  ul_cycle_days :: "int option"
  ul_grant_points :: "int option"
  ul_renewal_allowed :: "bool option"

definition positive_if_given :: "int option \<Rightarrow> bool" where
  "positive_if_given v = (case v of None \<Rightarrow> True | Some x \<Rightarrow> 0 < x)"

definition update_level_ok :: "update_level_input \<Rightarrow> bool" where
  "update_level_ok i \<longleftrightarrow> 1 \<le> ul_expected_version i
     \<and> (case ul_display_name i of None \<Rightarrow> True | Some s \<Rightarrow> text_within 200 s)
     \<and> positive_if_given (ul_tier_rank i) \<and> positive_if_given (ul_cycle_days i)
     \<and> positive_if_given (ul_grant_points i)"

definition update_values :: "update_level_input \<Rightarrow> level_values" where
  "update_values i = no_level_values\<lparr>vl_display_name := ul_display_name i,
     vl_tier_rank := ul_tier_rank i, vl_cycle_days := ul_cycle_days i,
     vl_grant_points := ul_grant_points i, vl_renewal_allowed := ul_renewal_allowed i\<rparr>"

text \<open>\<^verbatim>\<open>sorted(values)\<close>: the names of the fields that are given, in alphabetical order.\<close>

definition changed_names :: "update_level_input \<Rightarrow> json" where
  "changed_names i = JList (map JStr (concat
     [if ul_cycle_days i = None then [] else [''cycle_days''],
      if ul_display_name i = None then [] else [''display_name''],
      if ul_grant_points i = None then [] else [''grant_points''],
      if ul_renewal_allowed i = None then [] else [''renewal_allowed''],
      if ul_tier_rank i = None then [] else [''tier_rank'']]))"

definition save_level_row :: "level_row \<Rightarrow> membership_db \<Rightarrow> membership_db" where
  "save_level_row r db =
     db\<lparr>mb_levels := update_where (\<lambda>x. lr_id x = lr_id r) (\<lambda>_. r) (mb_levels db)\<rparr>"

text \<open>The row of a key at the version its editor has seen.\<close>

definition level_row_at :: "membership_db \<Rightarrow> string \<Rightarrow> int \<Rightarrow> exn + level_row" where
  "level_row_at db k expected =
     bindE (someE (find_level_row db k) (level_error ''membership.level_not_found'' NOT_FOUND)) (\<lambda>r.
     bindE (requireE (lr_version r = expected)
       (level_error ''membership.level_version_conflict'' CONFLICT)) (\<lambda>_. Inr r))"

text \<open>The registry follows after the commit; a key it does not hold raises then.\<close>

definition update_registry ::
    "string \<Rightarrow> level_values \<Rightarrow> membership_db \<Rightarrow> (exn + level_dto) \<times> membership_db" where
  "update_registry k v db =
     transact (bindE (level_update_runtime k v (mb_registry db)) (\<lambda>(s, reg).
       Inr (level_dto_of s, db\<lparr>mb_registry := reg\<rparr>))) db"

definition update_level ::
    "membership_ctx \<Rightarrow> string \<Rightarrow> string \<Rightarrow> update_level_input \<Rightarrow> membership_db
      \<Rightarrow> (exn + level_dto) \<times> membership_db" where
  "update_level ctx actor k i db =
     bindS (transact (bindE (level_row_at db k (ul_expected_version i)) (\<lambda>r.
       let r' = r\<lparr>lr_display_name := given (ul_display_name i) (lr_display_name r),
             lr_tier_rank := given (ul_tier_rank i) (lr_tier_rank r),
             lr_cycle_days := given (ul_cycle_days i) (lr_cycle_days r),
             lr_grant_points := given (ul_grant_points i) (lr_grant_points r),
             lr_renewal_allowed := given (ul_renewal_allowed i) (lr_renewal_allowed r),
             lr_version := lr_version r + 1\<rparr> in
       bindE (level_audit ctx actor ''membership.level.updated'' (show_nat (lr_id r))
         [(''level_key'', JStr k), (''changed'', changed_names i)] (save_level_row r' db)) (\<lambda>db1.
       Inr ((), db1)))) db) (\<lambda>_ db1.
     update_registry k (update_values i) db1)"

definition status_name :: "level_status \<Rightarrow> string" where
  "status_name st = (case st of LS_active \<Rightarrow> ''active'' | LS_archived \<Rightarrow> ''archived'')"

definition set_level_status ::
    "membership_ctx \<Rightarrow> string \<Rightarrow> string \<Rightarrow> level_status \<Rightarrow> int \<Rightarrow> string \<Rightarrow> membership_db
      \<Rightarrow> (exn + level_dto) \<times> membership_db" where
  "set_level_status ctx actor k st expected reason db =
     bindS (transact (bindE (level_row_at db k expected) (\<lambda>r.
       let r' = r\<lparr>lr_status := st, lr_version := lr_version r + 1\<rparr> in
       bindE (level_audit ctx actor (''membership.level.'' @ status_name st) (show_nat (lr_id r))
         [(''level_key'', JStr k), (''reason'', JStr reason)] (save_level_row r' db)) (\<lambda>db1.
       Inr ((), db1)))) db) (\<lambda>_ db1.
     update_registry k (no_level_values\<lparr>vl_status := Some st\<rparr>) db1)"

record membership_summary =
  ms_level_count :: nat
  ms_active_level_count :: nat
  ms_subscription_count :: nat
  ms_active_subscription_count :: nat
  ms_cancelled_subscription_count :: nat
  ms_expired_subscription_count :: nat

text \<open>\<^verbatim>\<open>dict.setdefault\<close> keeps the status of the table for a key that is in both.\<close>

definition level_statuses :: "membership_db \<Rightarrow> (string \<times> level_status) list" where
  "level_statuses db = dmerge (map (\<lambda>s. (lv_key s, lv_status s)) (level_specs (mb_registry db)))
     (map (\<lambda>r. (lr_level_key r, lr_status r)) (mb_levels db))"

definition count_status :: "membership_db \<Rightarrow> subscription_status \<Rightarrow> nat" where
  "count_status db st = length (filter (\<lambda>s. su_status s = st) (mb_subscriptions db))"

definition membership_summary_of :: "membership_db \<Rightarrow> membership_summary" where
  "membership_summary_of db =
     \<lparr>ms_level_count = length (level_statuses db),
      ms_active_level_count = length (filter (\<lambda>kv. snd kv = LS_active) (level_statuses db)),
      ms_subscription_count = length (mb_subscriptions db),
      ms_active_subscription_count = count_status db SU_active,
      ms_cancelled_subscription_count = count_status db SU_cancelled,
      ms_expired_subscription_count = count_status db SU_expired\<rparr>"

section \<open>The catalogue\<close>

fun register_missing ::
    "string list \<Rightarrow> level_row list \<Rightarrow> level_spec registry \<Rightarrow> (exn + unit) \<times> level_spec registry" where
  "register_missing known [] reg = (Inr (), reg)"
| "register_missing known (r # rs) reg =
     (if lr_level_key r \<in> set known then register_missing known rs reg
      else bindS (liftS (bindE (spec_of_row r) (\<lambda>s. level_register_runtime s reg)) reg)
        (\<lambda>_ reg'. register_missing known rs reg'))"

definition list_levels :: "membership_db \<Rightarrow> (exn + level_dto list) \<times> membership_db" where
  "list_levels db =
     (let known = map lv_key (level_specs (mb_registry db));
          rows = filter (\<lambda>r. lr_status r = LS_active) (mb_levels db) in
      case register_missing known rows (mb_registry db) of
        (Inl e, reg) \<Rightarrow> (Inl e, db\<lparr>mb_registry := reg\<rparr>)
      | (Inr _, reg) \<Rightarrow> (Inr (map to_level (filter (\<lambda>s. lv_status s = LS_active)
            (sort_key lv_tier_rank (level_specs reg)))), db\<lparr>mb_registry := reg\<rparr>))"

end
