(* ===== verification/Membership_Commands.thy ===== *)
theory Membership_Commands
  imports Membership_Levels
begin

text \<open>
  The commands of \<^verbatim>\<open>inc/capabilities/membership/commands.py\<close>, the queries of \<^verbatim>\<open>queries.py\<close> and the
  probes of \<^verbatim>\<open>diagnostics.py\<close>. Only \<open>prepare_subscription_cycle\<close> touches the level registry, before
  its transaction; every other command is one transaction.
\<close>

section \<open>Lookups\<close>

definition find_subscription :: "membership_db \<Rightarrow> string \<Rightarrow> string \<Rightarrow> subscription option" where
  "find_subscription db st sid =
     find (\<lambda>s. su_subject_type s = st \<and> su_subject_id s = sid) (mb_subscriptions db)"

definition find_cycle_by_key :: "membership_db \<Rightarrow> nat \<Rightarrow> string \<Rightarrow> membership_cycle option" where
  "find_cycle_by_key db sub key =
     find (\<lambda>c. cy_subscription c = sub \<and> cy_idempotency_key c = key) (mb_cycles db)"

definition subscription_by_id :: "membership_db \<Rightarrow> nat \<Rightarrow> subscription option" where
  "subscription_by_id db i = find (\<lambda>s. su_id s = i) (mb_subscriptions db)"

definition cycle_by_id :: "membership_db \<Rightarrow> nat \<Rightarrow> membership_cycle option" where
  "cycle_by_id db i = find (\<lambda>c. cy_id c = i) (mb_cycles db)"

text \<open>An id that is no UUID is answered as an unknown one.\<close>

definition subscription_missing :: exn where
  "subscription_missing = KernelError ''membership.subscription_not_found'' NOT_FOUND"

definition get_subscription :: "membership_db \<Rightarrow> string \<Rightarrow> exn + subscription" where
  "get_subscription db sid =
     bindE (someE (read_id sid) subscription_missing) (\<lambda>i.
     someE (subscription_by_id db i) subscription_missing)"

definition cycle_missing :: exn where
  "cycle_missing = KernelError ''membership.cycle_not_found'' NOT_FOUND"

definition get_cycle :: "membership_db \<Rightarrow> string \<Rightarrow> exn + membership_cycle" where
  "get_cycle db cid =
     bindE (someE (read_id cid) cycle_missing) (\<lambda>i. someE (cycle_by_id db i) cycle_missing)"

text \<open>The subscription of a cycle, read by its foreign key.\<close>

definition owner_of :: "membership_db \<Rightarrow> membership_cycle \<Rightarrow> exn + subscription" where
  "owner_of db c = someE (subscription_by_id db (cy_subscription c)) subscription_missing"

definition save_subscription :: "subscription \<Rightarrow> membership_db \<Rightarrow> membership_db" where
  "save_subscription s db =
     db\<lparr>mb_subscriptions := update_where (\<lambda>x. su_id x = su_id s) (\<lambda>_. s) (mb_subscriptions db)\<rparr>"

definition save_cycle :: "membership_cycle \<Rightarrow> membership_db \<Rightarrow> membership_db" where
  "save_cycle c db = db\<lparr>mb_cycles := update_where (\<lambda>x. cy_id x = cy_id c) (\<lambda>_. c) (mb_cycles db)\<rparr>"

section \<open>Preparing a cycle\<close>

definition validate_prepare_replay :: "membership_cycle \<Rightarrow> prepare_input \<Rightarrow> exn + unit" where
  "validate_prepare_replay c i =
     requireE (\<not> (cy_level_key c \<noteq> pi_level_key i \<or> cy_source_type c \<noteq> pi_source_type i
         \<or> cy_source_ref c \<noteq> pi_source_ref i))
       (membership_conflict ''membership.idempotency_conflict'')"

definition new_subscription ::
    "membership_ctx \<Rightarrow> level_spec \<Rightarrow> prepare_input \<Rightarrow> nat \<Rightarrow> subscription" where
  "new_subscription ctx level i n = \<lparr>su_id = n, su_subject_type = pi_subject_type i,
     su_subject_id = pi_subject_id i, su_level_key = lv_key level, su_cycle_start = mc_now ctx,
     su_cycle_end = mc_now ctx + days (lv_cycle_days level), su_status = SU_pending_activation,
     su_auto_renew = pi_auto_renew i, su_granted_points = lv_cycle_points_amount level,
     su_renewal_count = 0, su_cycle = None, su_source_type = Some (pi_source_type i),
     su_source_ref = Some (pi_source_ref i), su_version = 1, su_cancelled_at = None,
     su_expired_at = None, su_terminated_at = None, su_created_at = mc_now ctx\<rparr>"

definition renewed_subscription ::
    "membership_ctx \<Rightarrow> level_spec \<Rightarrow> prepare_input \<Rightarrow> subscription \<Rightarrow> subscription" where
  "renewed_subscription ctx level i s = s\<lparr>su_level_key := lv_key level,
     su_cycle_start := mc_now ctx, su_cycle_end := mc_now ctx + days (lv_cycle_days level),
     su_status := SU_pending_activation, su_auto_renew := pi_auto_renew i,
     su_granted_points := lv_cycle_points_amount level,
     su_renewal_count := su_renewal_count s + 1, su_source_type := Some (pi_source_type i),
     su_source_ref := Some (pi_source_ref i), su_version := su_version s + 1,
     su_cancelled_at := None, su_expired_at := None, su_terminated_at := None\<rparr>"

definition new_cycle ::
    "membership_ctx \<Rightarrow> level_spec \<Rightarrow> prepare_input \<Rightarrow> nat \<Rightarrow> nat \<Rightarrow> membership_cycle" where
  "new_cycle ctx level i sub n = \<lparr>cy_id = n, cy_subscription = sub, cy_level_key = lv_key level,
     cy_cycle_start = mc_now ctx, cy_cycle_end = mc_now ctx + days (lv_cycle_days level),
     cy_points_amount = lv_cycle_points_amount level, cy_state = CY_prepared,
     cy_source_type = pi_source_type i, cy_source_ref = pi_source_ref i,
     cy_points_entry_ref = None, cy_idempotency_key = pi_idempotency_key i, cy_attach_key = None,
     cy_failure_code = None, cy_version = 1, cy_created_at = mc_now ctx\<rparr>"

text \<open>The two unique constraints; a violated one is an exception the command does not handle.\<close>

definition insert_subscription :: "subscription \<Rightarrow> membership_db \<Rightarrow> exn + membership_db" where
  "insert_subscription s db =
     bindE (requireE (find_subscription db (su_subject_type s) (su_subject_id s) = None)
       (PyException ''IntegrityError'')) (\<lambda>_.
     Inr (db\<lparr>mb_subscriptions := mb_subscriptions db @ [s], mb_next_id := Suc (mb_next_id db)\<rparr>))"

definition insert_cycle :: "membership_cycle \<Rightarrow> membership_db \<Rightarrow> exn + membership_db" where
  "insert_cycle c db =
     bindE (requireE (find_cycle_by_key db (cy_subscription c) (cy_idempotency_key c) = None)
       (PyException ''IntegrityError'')) (\<lambda>_.
     Inr (db\<lparr>mb_cycles := mb_cycles db @ [c], mb_next_id := Suc (mb_next_id db)\<rparr>))"

text \<open>The cycle of the subscription \<open>s\<close>, which is in the table; \<open>s\<close> is pointed at it.\<close>

definition open_cycle ::
    "membership_ctx \<Rightarrow> level_spec \<Rightarrow> prepare_input \<Rightarrow> subscription \<Rightarrow> membership_db
      \<Rightarrow> exn + cycle_dto \<times> membership_db" where
  "open_cycle ctx level i s db =
     (let c = new_cycle ctx level i (su_id s) (mb_next_id db); s' = s\<lparr>su_cycle := Some (cy_id c)\<rparr> in
      bindE (insert_cycle c db) (\<lambda>db1.
      bindE (membership_emit ctx ''membership.cycle_prepared.v1'' s' (Some c)
        (save_subscription s' db1)) (\<lambda>db2.
      Inr (to_cycle c s', db2))))"

definition blocks_prepare :: "subscription_status \<Rightarrow> bool" where
  "blocks_prepare st \<longleftrightarrow> st = SU_pending_activation \<or> st = SU_active \<or> st = SU_cancelled"

definition prepare_cycle ::
    "membership_ctx \<Rightarrow> level_spec \<Rightarrow> prepare_input \<Rightarrow> membership_db
      \<Rightarrow> exn + cycle_dto \<times> membership_db" where
  "prepare_cycle ctx level i db =
     (case find_subscription db (pi_subject_type i) (pi_subject_id i) of
        Some s \<Rightarrow>
          (case find_cycle_by_key db (su_id s) (pi_idempotency_key i) of
             Some replay \<Rightarrow>
               bindE (validate_prepare_replay replay i) (\<lambda>_. Inr (to_cycle replay s, db))
           | None \<Rightarrow>
               bindE (requireE (case pi_expected_version i of None \<Rightarrow> True | Some v \<Rightarrow> su_version s = v)
                 (membership_conflict ''membership.subscription_version_conflict'')) (\<lambda>_.
               bindE (requireE (\<not> blocks_prepare (su_status s))
                 (membership_conflict ''membership.cycle_overlap'')) (\<lambda>_.
               bindE (requireE (lv_renewal_allowed level)
                 (membership_conflict ''membership.renewal_not_allowed'')) (\<lambda>_.
               let s' = renewed_subscription ctx level i s in
               open_cycle ctx level i s' (save_subscription s' db)))))
      | None \<Rightarrow>
          bindE (requireE (pi_expected_version i = None)
            (membership_conflict ''membership.subscription_version_conflict'')) (\<lambda>_.
          let s = new_subscription ctx level i (mb_next_id db) in
          bindE (insert_subscription s db) (\<lambda>db1. open_cycle ctx level i s db1)))"

definition prepare_subscription_cycle ::
    "membership_ctx \<Rightarrow> prepare_input \<Rightarrow> membership_db \<Rightarrow> (exn + cycle_dto) \<times> membership_db" where
  "prepare_subscription_cycle ctx i db =
     bindS (require_level (pi_level_key i) db) (\<lambda>level db1.
     bindS (guardS (lv_status level = LS_active)
       (membership_conflict ''membership.level_inactive'') db1) (\<lambda>_ db1.
     transact (prepare_cycle ctx level i db1) db1))"

section \<open>Attaching the grant, and failure\<close>

definition attach_points_grant ::
    "membership_ctx \<Rightarrow> attach_input \<Rightarrow> membership_db \<Rightarrow> exn + cycle_dto \<times> membership_db" where
  "attach_points_grant ctx i db =
     bindE (someE (map_option show_nat (read_id (at_points_entry_ref i)))
       (KernelError ''membership.invalid_points_entry_ref'' VALIDATION)) (\<lambda>ref.
     bindE (get_cycle db (at_cycle_id i)) (\<lambda>c.
     bindE (owner_of db c) (\<lambda>s.
     if cy_state c = CY_activated then
       bindE (requireE (cy_points_entry_ref c = Some ref)
         (membership_conflict ''membership.points_grant_already_attached'')) (\<lambda>_.
       Inr (to_cycle c s, db))
     else
       bindE (requireE (cy_state c = CY_prepared)
         (membership_conflict ''membership.cycle_not_prepared'')) (\<lambda>_.
       bindE (requireE (\<not> (su_cycle s \<noteq> Some (cy_id c) \<or> su_status s \<noteq> SU_pending_activation))
         (membership_conflict ''membership.subscription_cycle_mismatch'')) (\<lambda>_.
       let c' = c\<lparr>cy_state := CY_activated, cy_points_entry_ref := Some ref,
             cy_attach_key := Some (at_idempotency_key i), cy_version := cy_version c + 1\<rparr>;
           s' = s\<lparr>su_status := SU_active, su_version := su_version s + 1\<rparr>;
           key = (if 0 < su_renewal_count s' then ''membership.renewed.v1''
                  else ''membership.activated.v1'') in
       bindE (membership_emit ctx key s' (Some c') (save_subscription s' (save_cycle c' db))) (\<lambda>db1.
       Inr (to_cycle c' s', db1)))))))"

definition mark_cycle_failed ::
    "membership_ctx \<Rightarrow> fail_input \<Rightarrow> membership_db \<Rightarrow> exn + cycle_dto \<times> membership_db" where
  "mark_cycle_failed ctx i db =
     bindE (get_cycle db (fi_cycle_id i)) (\<lambda>c.
     bindE (owner_of db c) (\<lambda>s.
     if cy_state c = CY_failed then
       bindE (requireE (cy_failure_code c = Some (fi_failure_code i))
         (membership_conflict ''membership.cycle_failure_already_recorded'')) (\<lambda>_.
       Inr (to_cycle c s, db))
     else
       bindE (requireE (cy_state c = CY_prepared)
         (membership_conflict ''membership.cycle_not_prepared'')) (\<lambda>_.
       let c' = c\<lparr>cy_state := CY_failed, cy_failure_code := Some (fi_failure_code i),
             cy_version := cy_version c + 1\<rparr>;
           s' = (if su_cycle s = Some (cy_id c)
                 then s\<lparr>su_status := SU_failed, su_version := su_version s + 1\<rparr> else s) in
       bindE (membership_emit ctx ''membership.cycle_failed.v1'' s' (Some c')
         (save_subscription s' (save_cycle c' db))) (\<lambda>db1.
       Inr (to_cycle c' s', db1)))))"

section \<open>Ending a subscription\<close>

definition cancel_subscription ::
    "membership_ctx \<Rightarrow> string \<Rightarrow> membership_db \<Rightarrow> exn + subscription_dto \<times> membership_db" where
  "cancel_subscription ctx sid db =
     bindE (get_subscription db sid) (\<lambda>s.
     if su_status s = SU_cancelled then Inr (to_subscription s, db)
     else
       bindE (requireE (su_status s = SU_active)
         (membership_conflict ''membership.not_active'')) (\<lambda>_.
       let s' = s\<lparr>su_status := SU_cancelled, su_auto_renew := False,
             su_version := su_version s + 1, su_cancelled_at := Some (mc_now ctx)\<rparr> in
       bindE (membership_emit ctx ''membership.cancelled.v1'' s' None (save_subscription s' db)) (\<lambda>db1.
       Inr (to_subscription s', db1))))"

definition may_manage :: "membership_ctx \<Rightarrow> bool" where
  "may_manage ctx \<longleftrightarrow> \<not> (''membership.subscriptions.manage'' \<notin> set (mc_permissions ctx)
     \<and> ''membership.manage'' \<notin> set (mc_permissions ctx))"

definition terminate_subscription ::
    "membership_ctx \<Rightarrow> string \<Rightarrow> membership_db \<Rightarrow> exn + subscription_dto \<times> membership_db" where
  "terminate_subscription ctx sid db =
     bindE (requireE (may_manage ctx) (KernelError ''membership.forbidden'' FORBIDDEN)) (\<lambda>_.
     bindE (get_subscription db sid) (\<lambda>s.
     if su_status s = SU_terminated then Inr (to_subscription s, db)
     else
       bindE (requireE (su_status s = SU_active \<or> su_status s = SU_cancelled)
         (membership_conflict ''membership.not_active'')) (\<lambda>_.
       let s' = s\<lparr>su_status := SU_terminated, su_auto_renew := False,
             su_version := su_version s + 1, su_terminated_at := Some (mc_now ctx)\<rparr> in
       bindE (membership_emit ctx ''membership.terminated.v1'' s' None (save_subscription s' db)) (\<lambda>db1.
       Inr (to_subscription s', db1)))))"

definition subscription_overdue :: "time \<Rightarrow> subscription \<Rightarrow> bool" where
  "subscription_overdue now s \<longleftrightarrow>
     (su_status s = SU_active \<or> su_status s = SU_cancelled) \<and> su_cycle_end s \<le> now"

fun expire_rows ::
    "membership_ctx \<Rightarrow> subscription list \<Rightarrow> membership_db
      \<Rightarrow> exn + subscription_dto list \<times> membership_db" where
  "expire_rows ctx [] db = Inr ([], db)"
| "expire_rows ctx (s # ss) db =
     (let s' = s\<lparr>su_status := SU_expired, su_version := su_version s + 1,
            su_expired_at := Some (mc_now ctx)\<rparr> in
      bindE (membership_emit ctx ''membership.expired.v1'' s' None (save_subscription s' db)) (\<lambda>db1.
      bindE (expire_rows ctx ss db1) (\<lambda>(dtos, db2).
      Inr (to_subscription s' # dtos, db2))))"

definition expire_subscription ::
    "membership_ctx \<Rightarrow> membership_db \<Rightarrow> exn + subscription_dto list \<times> membership_db" where
  "expire_subscription ctx db =
     expire_rows ctx (filter (subscription_overdue (mc_now ctx)) (mb_subscriptions db)) db"

section \<open>Queries\<close>

definition subscription_of :: "membership_db \<Rightarrow> string \<Rightarrow> string \<Rightarrow> subscription_dto option" where
  "subscription_of db st sid = map_option to_subscription (find_subscription db st sid)"

record subscription_filter =
  sf_subject_type :: "string option"
  sf_subject_id :: "string option"
  sf_level_key :: "string option"
  sf_status :: "subscription_status option"

definition if_given :: "'a option \<Rightarrow> 'a \<Rightarrow> bool" where
  "if_given v x = (case v of None \<Rightarrow> True | Some y \<Rightarrow> x = y)"

definition subscription_matches :: "subscription_filter \<Rightarrow> subscription \<Rightarrow> bool" where
  "subscription_matches f s \<longleftrightarrow> if_given (sf_subject_type f) (su_subject_type s)
     \<and> if_given (sf_subject_id f) (su_subject_id s) \<and> if_given (sf_level_key f) (su_level_key s)
     \<and> if_given (sf_status f) (su_status s)"

definition map_page :: "('a \<Rightarrow> 'b) \<Rightarrow> 'a result_page \<Rightarrow> 'b result_page" where
  "map_page f p = \<lparr>page_items = map f (page_items p), page_total = page_total p,
     page_number = page_number p, page_size = page_size p\<rparr>"

definition list_subscriptions ::
    "subscription_filter \<Rightarrow> int \<Rightarrow> int \<Rightarrow> membership_db \<Rightarrow> exn + subscription_dto result_page" where
  "list_subscriptions f page n db =
     bindE (fetch_page (sort_key (\<lambda>s. (- su_created_at s, - int (su_id s)))
       (filter (subscription_matches f) (mb_subscriptions db))) page n) (\<lambda>p.
     Inr (map_page to_subscription p))"

definition get_membership_cycle :: "membership_db \<Rightarrow> string \<Rightarrow> exn + cycle_dto" where
  "get_membership_cycle db cid =
     bindE (get_cycle db cid) (\<lambda>c.
     bindE (someE (subscription_by_id db (cy_subscription c))
       (KernelError ''membership.cycle_subscription_missing'' INTERNAL)) (\<lambda>s.
     Inr (to_cycle c s)))"

record cycle_filter =
  cf_subscription_id :: "string option"
  cf_state :: "cycle_state option"
  cf_source_type :: "string option"
  cf_source_ref :: "string option"

definition cycle_matches :: "nat option \<Rightarrow> cycle_filter \<Rightarrow> membership_cycle \<Rightarrow> bool" where
  "cycle_matches sub f c \<longleftrightarrow> if_given sub (cy_subscription c) \<and> if_given (cf_state f) (cy_state c)
     \<and> if_given (cf_source_type f) (cy_source_type c)
     \<and> if_given (cf_source_ref f) (cy_source_ref c)"

text \<open>A cycle without its subscription is a \<open>KeyError\<close> of the dictionary of subscriptions.\<close>

fun cycle_dtos :: "membership_db \<Rightarrow> membership_cycle list \<Rightarrow> exn + cycle_dto list" where
  "cycle_dtos db [] = Inr []"
| "cycle_dtos db (c # cs) =
     bindE (someE (subscription_by_id db (cy_subscription c)) (PyException ''KeyError'')) (\<lambda>s.
     bindE (cycle_dtos db cs) (\<lambda>ds. Inr (to_cycle c s # ds)))"

definition list_membership_cycles ::
    "cycle_filter \<Rightarrow> int \<Rightarrow> int \<Rightarrow> membership_db \<Rightarrow> exn + cycle_dto result_page" where
  "list_membership_cycles f page n db =
     bindE (case cf_subscription_id f of None \<Rightarrow> Inr None
       | Some sid \<Rightarrow> bindE (someE (read_id sid) cycle_missing) (\<lambda>i. Inr (Some i))) (\<lambda>sub.
     bindE (fetch_page (sort_key (\<lambda>c. (- cy_created_at c, - int (cy_id c)))
       (filter (cycle_matches sub f) (mb_cycles db))) page n) (\<lambda>p.
     bindE (cycle_dtos db (page_items p)) (\<lambda>items.
     Inr \<lparr>page_items = items, page_total = page_total p, page_number = page_number p,
       page_size = page_size p\<rparr>)))"

section \<open>Diagnostics\<close>

definition cycles_overlap :: "membership_cycle \<Rightarrow> membership_cycle \<Rightarrow> bool" where
  "cycles_overlap a b \<longleftrightarrow> cy_subscription a = cy_subscription b \<and> cy_id a < cy_id b
     \<and> cy_state a \<noteq> CY_failed \<and> cy_state b \<noteq> CY_failed
     \<and> cy_cycle_start a < cy_cycle_end b \<and> cy_cycle_start b < cy_cycle_end a"

record membership_report =
  mr_prepared_stale :: nat
  mr_invalid_activated :: nat
  mr_active_overdue :: nat
  mr_overlapping :: nat
  mr_level_drift :: "string list"

definition membership_diagnostics :: "time \<Rightarrow> membership_db \<Rightarrow> membership_report" where
  "membership_diagnostics now db =
     (let declared = map lv_key (level_specs (mb_registry db));
          mirrored = map lr_level_key (mb_levels db) in
      \<lparr>mr_prepared_stale = length (filter (\<lambda>c. cy_state c = CY_prepared
          \<and> cy_created_at c \<le> now - seconds 3600) (mb_cycles db)),
       mr_invalid_activated = length (filter (\<lambda>c. cy_state c = CY_activated
          \<and> cy_points_entry_ref c = None) (mb_cycles db)),
       mr_active_overdue = length (filter (subscription_overdue now) (mb_subscriptions db)),
       mr_overlapping = length (filter (\<lambda>(a, b). cycles_overlap a b)
          (List.product (mb_cycles db) (mb_cycles db))),
       mr_level_drift = sort (remdups (filter (\<lambda>k. k \<notin> set mirrored) declared
          @ filter (\<lambda>k. k \<notin> set declared) mirrored))\<rparr>)"

definition report_degraded :: "membership_report \<Rightarrow> bool" where
  "report_degraded r \<longleftrightarrow> mr_prepared_stale r \<noteq> 0 \<or> mr_invalid_activated r \<noteq> 0
     \<or> mr_active_overdue r \<noteq> 0 \<or> mr_overlapping r \<noteq> 0 \<or> mr_level_drift r \<noteq> []"

end
