(* ===== verification/Membership_Mirror.thy ===== *)
theory Membership_Mirror
  imports Membership_Commands
begin

text \<open>
  The level registry against the level table. \<open>row_spec\<close> is the abstraction of a row;
  \<open>levels_mirror\<close> says that the registry holds it under the key of the row. Hydration establishes
  that, and every operation of the capability keeps it, failed ones included, so that a command of
  the same process sees the table through the registry.
\<close>

section \<open>Rows as specs\<close>

definition row_spec :: "level_row \<Rightarrow> level_spec" where
  "row_spec r = \<lparr>lv_key = lr_level_key r, lv_display_name = lr_display_name r,
     lv_tier_rank = lr_tier_rank r, lv_cycle_days = lr_cycle_days r,
     lv_grant_points = lr_grant_points r, lv_cycle_points_amount = lr_grant_points r,
     lv_renewal_allowed = lr_renewal_allowed r, lv_status = lr_status r, lv_version = lr_version r\<rparr>"

definition spec_valid :: "level_spec \<Rightarrow> bool" where
  "spec_valid s \<longleftrightarrow> re_match_dollar snake_key (lv_key s) \<and> lv_display_name s \<noteq> []
     \<and> 0 < lv_tier_rank s \<and> 0 < lv_cycle_days s \<and> 0 < lv_cycle_points_amount s
     \<and> lv_grant_points s = lv_cycle_points_amount s"

lemma make_level_spec_iff [cmd_ok]:
  "make_level_spec key name rank cycle grant amount renewal status version = Inr s \<longleftrightarrow>
     (\<exists>a. (case amount of None \<Rightarrow> grant | Some b \<Rightarrow> Some b) = Some a \<and> spec_valid s
       \<and> s = \<lparr>lv_key = key, lv_display_name = name, lv_tier_rank = rank, lv_cycle_days = cycle,
           lv_grant_points = a, lv_cycle_points_amount = a, lv_renewal_allowed = renewal,
           lv_status = status, lv_version = version\<rparr>)"
  by (auto simp: make_level_spec_def Let_def cmd_ok spec_valid_def)

lemma spec_of_row_iff [cmd_ok]: "spec_of_row r = Inr s \<longleftrightarrow> spec_valid (row_spec r) \<and> s = row_spec r"
  by (auto simp: spec_of_row_def row_spec_def cmd_ok)

lemma overwrite_row_spec: "lv_key s = lr_level_key r \<Longrightarrow> overwrite_spec r s = row_spec r"
  by (simp add: overwrite_spec_def row_spec_def)

section \<open>The invariant\<close>

definition registry_valid :: "level_spec registry \<Rightarrow> bool" where
  "registry_valid reg \<longleftrightarrow> (\<forall>k s. registry_lookup reg k = Some s \<longrightarrow> lv_key s = k \<and> spec_valid s)"

definition rows_valid :: "membership_db \<Rightarrow> bool" where
  "rows_valid db \<longleftrightarrow> distinct (map lr_level_key (mb_levels db)) \<and> distinct (map lr_id (mb_levels db))
     \<and> (\<forall>r\<in>set (mb_levels db). spec_valid (row_spec r) \<and> lr_id r < mb_next_id db)"

definition levels_mirror :: "level_row list \<Rightarrow> level_spec registry \<Rightarrow> bool" where
  "levels_mirror rows reg \<longleftrightarrow> (\<forall>r\<in>set rows. registry_lookup reg (lr_level_key r) = Some (row_spec r))"

definition levels_inv :: "membership_db \<Rightarrow> bool" where
  "levels_inv db \<longleftrightarrow> registry_valid (mb_registry db) \<and> rows_valid db
     \<and> levels_mirror (mb_levels db) (mb_registry db)"

lemma registry_valid_store:
  "registry_valid reg \<Longrightarrow> spec_valid s \<Longrightarrow> lv_key s = k \<Longrightarrow> registry_valid (registry_store k s reg)"
  by (auto simp: registry_valid_def)

lemma levels_inv_cong:
  assumes "levels_inv db" and "mb_registry db' = mb_registry db" and "mb_levels db' = mb_levels db"
    and "mb_next_id db \<le> mb_next_id db'"
  shows "levels_inv db'"
  using assms by (auto simp: levels_inv_def rows_valid_def dest: less_le_trans)

lemma lookup_mem_specs: "registry_lookup reg k = Some s \<Longrightarrow> s \<in> set (level_specs reg)"
  unfolding registry_lookup_def dget_def level_specs_def by (force dest: map_of_SomeD)

section \<open>Hydration\<close>

lemma hydrate_row_ok:
  assumes "registry_valid reg" and "spec_valid (row_spec r)"
  shows "hydrate_row r reg = (Inr (), registry_store (lr_level_key r) (row_spec r) reg)"
proof (cases "registry_lookup reg (lr_level_key r)")
  case None
  have "spec_of_row r = Inr (row_spec r)" using assms(2) by (simp add: cmd_ok)
  moreover have "level_register_runtime (row_spec r) reg
      = Inr (registry_store (lr_level_key r) (row_spec r) reg)"
    using None by (simp add: level_register_runtime_def row_spec_def)
  ultimately show ?thesis using None by (simp add: hydrate_row_def liftS_def)
next
  case (Some s)
  with assms(1) have "lv_key s = lr_level_key r" by (simp add: registry_valid_def)
  with Some show ?thesis by (simp add: hydrate_row_def overwrite_row_spec)
qed

lemma hydrate_rows_ok:
  assumes "registry_valid reg" and "\<forall>r\<in>set rows. spec_valid (row_spec r)"
    and "distinct (map lr_level_key rows)"
  shows "\<exists>reg'. hydrate_rows rows reg = (Inr (), reg') \<and> registry_valid reg'
    \<and> levels_mirror rows reg'
    \<and> (\<forall>k. k \<notin> lr_level_key ` set rows \<longrightarrow> registry_lookup reg' k = registry_lookup reg k)"
  using assms
proof (induction rows arbitrary: reg)
  case (Cons r rows)
  let ?reg = "registry_store (lr_level_key r) (row_spec r) reg"
  have "registry_valid ?reg"
    by (rule registry_valid_store) (use Cons.prems in \<open>simp_all add: row_spec_def\<close>)
  from Cons.IH[OF this] Cons.prems obtain reg' where reg': "hydrate_rows rows ?reg = (Inr (), reg')"
      "registry_valid reg'" "levels_mirror rows reg'"
      "\<And>k. k \<notin> lr_level_key ` set rows \<Longrightarrow> registry_lookup reg' k = registry_lookup ?reg k"
    by auto
  have "registry_lookup reg' (lr_level_key r) = Some (row_spec r)"
    using reg'(4)[of "lr_level_key r"] Cons.prems(3) by simp
  with reg' show ?case
    using hydrate_row_ok[OF Cons.prems(1)] Cons.prems(2) by (auto simp: levels_mirror_def)
qed (simp add: levels_mirror_def)

lemma hydrate_mirrors:
  assumes "registry_valid (mb_registry db)" and "rows_valid db"
  shows "\<exists>reg. hydrate_persisted_levels db = (Inr (), db\<lparr>mb_registry := reg\<rparr>)
    \<and> levels_inv (db\<lparr>mb_registry := reg\<rparr>)"
proof -
  from assms(2) have rows: "\<forall>r\<in>set (mb_levels db). spec_valid (row_spec r)"
      "distinct (map lr_level_key (mb_levels db))"
    by (auto simp: rows_valid_def)
  from hydrate_rows_ok[OF assms(1) rows] obtain reg where
      "hydrate_rows (mb_levels db) (mb_registry db) = (Inr (), reg)" "registry_valid reg"
      "levels_mirror (mb_levels db) reg" by blast
  with assms(2) show ?thesis
    by (auto simp: hydrate_persisted_levels_def levels_inv_def rows_valid_def)
qed

section \<open>Lookups\<close>

text \<open>With the mirror in place the fallback to the table finds nothing.\<close>

lemma find_level_row_iff:
  "find_level_row db k = Some r \<Longrightarrow> r \<in> set (mb_levels db) \<and> lr_level_key r = k"
  unfolding find_level_row_def by (auto dest: find_Some_mem)

lemma mirror_lookup:
  assumes "levels_inv db" and "find_level_row db k = Some r"
  shows "registry_lookup (mb_registry db) k = Some (row_spec r)"
  using assms find_level_row_iff[OF assms(2)] by (auto simp: levels_inv_def levels_mirror_def)

lemma require_level_state: "levels_inv db \<Longrightarrow> require_level k db = (r, db') \<Longrightarrow> db' = db"
  using mirror_lookup[of db k]
  by (cases "find_level_row db k")
    (auto simp: require_level_def level_require_def someE_def split: option.splits if_splits)

lemma require_level_known:
  assumes "registry_lookup (mb_registry db) k = Some s"
  shows "require_level k db = (Inr s, db)"
  using assms by (simp add: require_level_def level_require_def)

lemma require_level_valid:
  assumes "levels_inv db" and "require_level k db = (Inr s, db')"
  shows "lv_key s = k \<and> spec_valid s"
proof (cases "registry_lookup (mb_registry db) k")
  case None
  with mirror_lookup[OF assms(1), of k] have "find_level_row db k = None" by (cases "find_level_row db k") auto
  with None assms(2) show ?thesis
    by (auto simp: require_level_def level_require_def someE_def)
next
  case (Some t)
  with assms show ?thesis
    by (auto simp: require_level_known levels_inv_def registry_valid_def)
qed

lemma register_missing_known:
  "\<forall>r\<in>set rows. lr_level_key r \<in> set known \<Longrightarrow> register_missing known rows reg = (Inr (), reg)"
  by (induction rows) auto

lemma list_levels_state: "levels_inv db \<Longrightarrow> list_levels db = (r, db') \<Longrightarrow> db' = db"
proof -
  assume inv: "levels_inv db" and run: "list_levels db = (r, db')"
  have "lr_level_key x \<in> set (map lv_key (level_specs (mb_registry db)))"
    if "x \<in> set (mb_levels db)" for x
  proof -
    from that inv have look: "registry_lookup (mb_registry db) (lr_level_key x) = Some (row_spec x)"
      by (auto simp: levels_inv_def levels_mirror_def)
    from lookup_mem_specs[OF look] show ?thesis by (force simp: row_spec_def)
  qed
  then have "register_missing (map lv_key (level_specs (mb_registry db)))
      (filter (\<lambda>r. lr_status r = LS_active) (mb_levels db)) (mb_registry db) = (Inr (), mb_registry db)"
    by (intro register_missing_known) auto
  with run show ?thesis by (auto simp: list_levels_def Let_def)
qed

section \<open>Administration\<close>

lemma membership_append_cases:
  assumes "membership_append ctx key agg payload db = Inr db'"
  shows "\<exists>m. db' = db\<lparr>mb_outbox := mb_outbox db @ [m], mb_next_id := mb_next_id db + 2\<rparr>
    \<and> ev_key (om_envelope m) = key \<and> ev_payload (om_envelope m) = payload"
  using assms by (auto simp: membership_append_def outbox_append_def new_message_def cmd_ok)

lemma levels_inv_append:
  assumes "levels_inv db" and "membership_append ctx key agg payload db = Inr db'"
  shows "levels_inv db'"
  using membership_append_cases[OF assms(2)] by (auto intro: levels_inv_cong[OF assms(1)])

text \<open>A row and its spec are replaced together.\<close>

lemma levels_inv_replace:
  assumes inv: "levels_inv db" and r: "find_level_row db k = Some r"
    and same: "lr_id r' = lr_id r" "lr_level_key r' = k" and valid: "spec_valid (row_spec r')"
    and db': "mb_levels db' = mb_levels (save_level_row r' db)"
      "mb_registry db' = registry_store k (row_spec r') (mb_registry db)"
      "mb_next_id db \<le> mb_next_id db'"
  shows "levels_inv db'"
proof -
  note r = find_level_row_iff[OF r]
  have d: "distinct (map lr_level_key (mb_levels db))" "distinct (map lr_id (mb_levels db))"
    using inv by (auto simp: levels_inv_def rows_valid_def)
  have only: "x = r" if "x \<in> set (mb_levels db)" "lr_id x = lr_id r \<or> lr_level_key x = k" for x
    using d that r by (metis distinct_map inj_onD)
  have keys: "map g (mb_levels db') = map g (mb_levels db)" if "g r' = g r" for g :: "level_row \<Rightarrow> 'g"
    unfolding db'(1) save_level_row_def
    using only that same by (auto simp: update_where_def)
  have rows: "x = r' \<or> x \<in> set (mb_levels db) \<and> lr_level_key x \<noteq> k" if "x \<in> set (mb_levels db')" for x
    using that only same unfolding db'(1) save_level_row_def by (auto simp: set_update_where split: if_splits)
  have "r \<in> set (mb_levels db)" using r by simp
  with inv have id: "lr_id r < mb_next_id db" by (auto simp: levels_inv_def rows_valid_def)
  have "registry_valid (mb_registry db')"
    unfolding db'(2) by (rule registry_valid_store)
      (use inv valid same in \<open>auto simp: levels_inv_def row_spec_def\<close>)
  moreover have "rows_valid db'"
    using d keys[of lr_level_key] keys[of lr_id] same r rows valid id db'(3) inv
    by (fastforce simp: rows_valid_def levels_inv_def)
  moreover have "levels_mirror (mb_levels db') (mb_registry db')"
    unfolding levels_mirror_def db'(2)
  proof
    fix x assume "x \<in> set (mb_levels db')"
    with rows inv same show "registry_lookup (registry_store k (row_spec r') (mb_registry db)) (lr_level_key x)
        = Some (row_spec x)"
      by (fastforce simp: levels_inv_def levels_mirror_def)
  qed
  ultimately show ?thesis by (simp add: levels_inv_def)
qed

lemma level_row_at_iff [cmd_ok]:
  "level_row_at db k v = Inr r \<longleftrightarrow> find_level_row db k = Some r \<and> lr_version r = v"
  by (auto simp: level_row_at_def cmd_ok)

lemma update_registry_known:
  assumes "registry_lookup (mb_registry db) k = Some s"
  shows "\<exists>dto s'. update_registry k v db = (Inr dto, db\<lparr>mb_registry := registry_store k s' (mb_registry db)\<rparr>)
    \<and> level_update_runtime k v (mb_registry db) = Inr (s', registry_store k s' (mb_registry db))"
  using assms by (simp add: update_registry_def level_update_runtime_def level_require_def Let_def)

text \<open>The common shape of the two updates: the edit of the row and the edit of the spec agree.\<close>

lemma levels_inv_edit:
  assumes inv: "levels_inv db" and r: "find_level_row db k = Some r"
    and same: "lr_id r' = lr_id r" "lr_level_key r' = lr_level_key r"
    and audit: "level_audit ctx actor action target details (save_level_row r' db) = Inr db1"
    and agree: "\<And>reg. registry_lookup reg k = Some (row_spec r)
      \<Longrightarrow> level_update_runtime k v reg = Inr (row_spec r', registry_store k (row_spec r') reg)"
    and valid: "spec_valid (row_spec r')" and run: "update_registry k v db1 = (res, db')"
  shows "levels_inv db'"
proof -
  from membership_append_cases[OF audit[unfolded level_audit_def]] obtain m where db1:
    "db1 = (save_level_row r' db)\<lparr>mb_outbox := mb_outbox db @ [m], mb_next_id := mb_next_id db + 2\<rparr>"
    by (auto simp: save_level_row_def)
  have look: "registry_lookup (mb_registry db1) k = Some (row_spec r)"
    using mirror_lookup[OF inv r] by (simp add: db1 save_level_row_def)
  from update_registry_known[OF look, of v] agree[OF look] run
  have db': "db' = db1\<lparr>mb_registry := registry_store k (row_spec r') (mb_registry db1)\<rparr>" by auto
  from find_level_row_iff[OF r] same have key: "lr_level_key r' = k" by simp
  show ?thesis
    by (rule levels_inv_replace[OF inv r same(1) key valid])
      (simp_all add: db' db1 save_level_row_def)
qed

lemma levels_inv_update_level:
  assumes inv: "levels_inv db" and ok: "update_level_ok i"
    and run: "update_level ctx actor k i db = (res, db')"
  shows "levels_inv db'"
proof (cases "level_row_at db k (ul_expected_version i)")
  case (Inl e)
  with run inv show ?thesis by (auto simp: update_level_def)
next
  case (Inr r)
  then have r: "find_level_row db k = Some r" by (simp add: cmd_ok)
  let ?r = "r\<lparr>lr_display_name := given (ul_display_name i) (lr_display_name r),
     lr_tier_rank := given (ul_tier_rank i) (lr_tier_rank r),
     lr_cycle_days := given (ul_cycle_days i) (lr_cycle_days r),
     lr_grant_points := given (ul_grant_points i) (lr_grant_points r),
     lr_renewal_allowed := given (ul_renewal_allowed i) (lr_renewal_allowed r),
     lr_version := lr_version r + 1\<rparr>"
  have "spec_valid (row_spec r)"
    using inv find_level_row_iff[OF r] by (auto simp: levels_inv_def rows_valid_def)
  then have valid: "spec_valid (row_spec ?r)"
    using ok by (auto simp: spec_valid_def row_spec_def update_level_ok_def positive_if_given_def
        given_def text_within_def split: option.splits)
  have agree: "level_update_runtime k (update_values i) reg
      = Inr (row_spec ?r, registry_store k (row_spec ?r) reg)"
    if "registry_lookup reg k = Some (row_spec r)" for reg
    using that by (cases "ul_grant_points i")
      (simp_all add: level_update_runtime_def level_require_def Let_def update_values_def
        no_level_values_def alias_amounts_def row_spec_def)
  from run Inr show ?thesis
  proof (cases "level_audit ctx actor ''membership.level.updated'' (show_nat (lr_id r))
      [(''level_key'', JStr k), (''changed'', changed_names i)] (save_level_row ?r db)")
    case (Inl e)
    with run Inr inv show ?thesis by (auto simp: update_level_def Let_def)
  next
    case (Inr db1)
    have "update_registry k (update_values i) db1 = (res, db')"
      using run Inr \<open>level_row_at db k (ul_expected_version i) = Inr r\<close>
      by (auto simp: update_level_def Let_def)
    from levels_inv_edit[OF inv r _ _ Inr agree valid this] show ?thesis by simp
  qed
qed

lemma levels_inv_set_status:
  assumes inv: "levels_inv db" and run: "set_level_status ctx actor k st v reason db = (res, db')"
  shows "levels_inv db'"
proof (cases "level_row_at db k v")
  case (Inl e)
  with run inv show ?thesis by (auto simp: set_level_status_def)
next
  case (Inr r)
  then have r: "find_level_row db k = Some r" by (simp add: cmd_ok)
  let ?r = "r\<lparr>lr_status := st, lr_version := lr_version r + 1\<rparr>"
  let ?v = "no_level_values\<lparr>vl_status := Some st\<rparr>"
  have "spec_valid (row_spec r)"
    using inv find_level_row_iff[OF r] by (auto simp: levels_inv_def rows_valid_def)
  then have valid: "spec_valid (row_spec ?r)" by (simp add: spec_valid_def row_spec_def)
  have agree: "level_update_runtime k ?v reg = Inr (row_spec ?r, registry_store k (row_spec ?r) reg)"
    if "registry_lookup reg k = Some (row_spec r)" for reg
    using that
    by (simp add: level_update_runtime_def level_require_def Let_def no_level_values_def
        alias_amounts_def row_spec_def)
  show ?thesis
  proof (cases "level_audit ctx actor (''membership.level.'' @ status_name st) (show_nat (lr_id r))
      [(''level_key'', JStr k), (''reason'', JStr reason)] (save_level_row ?r db)")
    case (Inl e)
    with run Inr inv show ?thesis by (auto simp: set_level_status_def Let_def)
  next
    case (Inr db1)
    have "update_registry k ?v db1 = (res, db')"
      using run Inr \<open>level_row_at db k v = Inr r\<close> by (auto simp: set_level_status_def Let_def)
    from levels_inv_edit[OF inv r _ _ Inr agree valid this] show ?thesis by simp
  qed
qed

lemma levels_inv_create_level:
  assumes inv: "levels_inv db" and run: "create_level ctx actor i db = (res, db')"
  shows "levels_inv db'"
proof -
  let ?known = "list_ex (\<lambda>s. lv_key s = cl_level_key i) (level_specs (mb_registry db))"
  let ?made = "make_level_spec (cl_level_key i) (cl_display_name i) (cl_tier_rank i)
    (cl_cycle_days i) (Some (cl_grant_points i)) None (cl_renewal_allowed i) LS_active 1"
  consider (noop) "db' = db" | (made) s rid db1 db2 where "\<not> ?known" "?made = Inr s"
      "insert_level_row s db = Inr (rid, db1)"
      "level_audit ctx actor ''membership.level.created'' (show_nat rid)
        [(''level_key'', JStr (lv_key s))] db1 = Inr db2"
      "transact (bindE (level_register_runtime s (mb_registry db2)) (\<lambda>reg.
        Inr (level_dto_of s, db2\<lparr>mb_registry := reg\<rparr>))) db2 = (res, db')"
    using run
    by (auto simp: create_level_def transact_def bindE_def split: if_splits sum.splits prod.splits)
  then show ?thesis
  proof cases
    case noop
    with inv show ?thesis by simp
  next
    case made
    from made(2) have s: "spec_valid s" "lv_version s = 1" "lv_status s = LS_active"
      "lv_grant_points s = lv_cycle_points_amount s" "lv_key s = cl_level_key i"
      by (auto simp: cmd_ok)
    from made(1) have unknown: "registry_lookup (mb_registry db) (lv_key s) = None"
      using inv s(5) lookup_mem_specs[of "mb_registry db" "lv_key s"]
      by (cases "registry_lookup (mb_registry db) (lv_key s)")
        (auto simp: list_ex_iff levels_inv_def registry_valid_def)
    define r where "r = \<lparr>lr_id = mb_next_id db, lr_level_key = lv_key s,
        lr_display_name = lv_display_name s, lr_tier_rank = lv_tier_rank s, lr_status = lv_status s,
        lr_cycle_days = lv_cycle_days s, lr_grant_points = lv_grant_points s,
        lr_renewal_allowed = lv_renewal_allowed s, lr_version = 1\<rparr>"
    have db1: "find_level_row db (lv_key s) = None" "row_spec r = s" "lr_id r = mb_next_id db"
        "lr_level_key r = lv_key s"
        "db1 = db\<lparr>mb_levels := mb_levels db @ [r], mb_next_id := Suc (mb_next_id db)\<rparr>"
      using made(3) s(2,4) by (auto simp: insert_level_row_def cmd_ok row_spec_def r_def)
    from membership_append_cases[OF made(4)[unfolded level_audit_def]] obtain m where db2:
      "db2 = db1\<lparr>mb_outbox := mb_outbox db1 @ [m], mb_next_id := mb_next_id db1 + 2\<rparr>" by auto
    have "mb_registry db2 = mb_registry db" by (simp add: db2 db1)
    with made(5) unknown have db': "db' = db2\<lparr>mb_registry := registry_store (lv_key s) s (mb_registry db)\<rparr>"
      by (auto simp: level_register_runtime_def)
    have fresh: "lr_level_key x \<noteq> lv_key s" "lr_id x < mb_next_id db" if "x \<in> set (mb_levels db)" for x
      using that db1(1) inv by (auto simp: find_level_row_def find_None_iff' levels_inv_def rows_valid_def)
    have "registry_valid (mb_registry db')"
      unfolding db' using inv s(1) by (simp add: levels_inv_def registry_valid_store)
    moreover have "rows_valid db'"
    proof -
      have "lr_level_key r \<notin> lr_level_key ` set (mb_levels db)" "lr_id r \<notin> lr_id ` set (mb_levels db)"
        using fresh db1(3,4) by fastforce+
      moreover have "lr_id x < mb_next_id db'" if "x \<in> set (mb_levels db) \<or> x = r" for x
        using that fresh(2)[of x] db1(3) by (auto simp: db' db2 db1(5))
      ultimately show ?thesis
        using inv s(1) db1(2) by (auto simp: db' db2 db1(5) levels_inv_def rows_valid_def)
    qed
    moreover have "levels_mirror (mb_levels db') (mb_registry db')"
      using inv fresh db1(2,4) by (auto simp: db' db2 db1(5) levels_inv_def levels_mirror_def)
    ultimately show ?thesis by (simp add: levels_inv_def)
  qed
qed

end
