(* ===== verification/Membership_Invariant.thy ===== *)
theory Membership_Invariant
  imports Membership_Mirror
begin

text \<open>
  The transactions of the membership capability as a step relation, and the invariant of its
  tables: the cycles of a subscription in their order, the newest of them the current one, the
  status of the subscription and the state of the current cycle in agreement, and one activation
  event for every activated cycle. The registry is that of one process, hydrated at its boot.
\<close>

section \<open>Transactions\<close>

inductive membership_step :: "membership_db \<Rightarrow> membership_db \<Rightarrow> bool" where
  mb_prepare: "prepare_subscription_cycle ctx i db = (r, db') \<Longrightarrow> membership_step db db'"
| mb_attach: "attach_points_grant ctx ai db = Inr (dto, db') \<Longrightarrow> membership_step db db'"
| mb_fail: "mark_cycle_failed ctx fi db = Inr (dto, db') \<Longrightarrow> membership_step db db'"
| mb_cancel: "cancel_subscription ctx sid db = Inr (sdto, db') \<Longrightarrow> membership_step db db'"
| mb_terminate: "terminate_subscription ctx sid db = Inr (sdto, db') \<Longrightarrow> membership_step db db'"
| mb_expire: "expire_subscription ctx db = Inr (dtos, db') \<Longrightarrow> membership_step db db'"
| mb_create_level: "create_level ctx actor cl db = (rl, db') \<Longrightarrow> membership_step db db'"
| mb_update_level: "update_level_ok ul \<Longrightarrow> update_level ctx actor k ul db = (rl, db')
    \<Longrightarrow> membership_step db db'"
| mb_set_status: "set_level_status ctx actor k st v reason db = (rl, db') \<Longrightarrow> membership_step db db'"
| mb_list_levels: "list_levels db = (rls, db') \<Longrightarrow> membership_step db db'"
| mb_hydrate: "hydrate_persisted_levels db = (ru, db') \<Longrightarrow> membership_step db db'"
| mb_dispatch: "map om_envelope box = map om_envelope (mb_outbox db)
    \<Longrightarrow> membership_step db (db\<lparr>mb_outbox := box\<rparr>)"

abbreviation membership_steps :: "membership_db \<Rightarrow> membership_db \<Rightarrow> bool" where
  "membership_steps \<equiv> membership_step\<^sup>*\<^sup>*"

text \<open>
  A process has booted: the declared levels are registered, the stored rows hydrated, and no
  subscription exists yet.
\<close>

definition membership_booted :: "membership_db \<Rightarrow> bool" where
  "membership_booted db \<longleftrightarrow> levels_inv db \<and> mb_subscriptions db = [] \<and> mb_cycles db = []
     \<and> mb_outbox db = []"

section \<open>The cycles of a subscription\<close>

definition cycles_of :: "membership_db \<Rightarrow> nat \<Rightarrow> membership_cycle list" where
  "cycles_of db i = filter (\<lambda>c. cy_subscription c = i) (mb_cycles db)"

definition cycle_wf :: "membership_cycle \<Rightarrow> bool" where
  "cycle_wf c \<longleftrightarrow> cy_cycle_start c < cy_cycle_end c \<and> 0 < cy_points_amount c
     \<and> (cy_points_entry_ref c \<noteq> None \<longleftrightarrow> cy_state c = CY_activated)
     \<and> (cy_failure_code c \<noteq> None \<longleftrightarrow> cy_state c = CY_failed)"

fun status_fits :: "subscription_status \<Rightarrow> cycle_state \<Rightarrow> bool" where
  "status_fits SU_pending_activation st = (st = CY_prepared)"
| "status_fits SU_failed st = (st = CY_failed)"
| "status_fits _ st = (st = CY_activated)"

definition snapshot_of :: "subscription \<Rightarrow> membership_cycle \<Rightarrow> bool" where
  "snapshot_of s c \<longleftrightarrow> su_level_key s = cy_level_key c \<and> su_cycle_start s = cy_cycle_start c
     \<and> su_cycle_end s = cy_cycle_end c \<and> su_granted_points s = cy_points_amount c
     \<and> su_source_type s = Some (cy_source_type c) \<and> su_source_ref s = Some (cy_source_ref c)"

definition cycles_fit :: "subscription \<Rightarrow> membership_cycle list \<Rightarrow> bool" where
  "cycles_fit s cs \<longleftrightarrow> cs \<noteq> [] \<and> int (length cs) = su_renewal_count s + 1
     \<and> (\<forall>c\<in>set cs. cycle_wf c) \<and> distinct (map cy_idempotency_key cs)
     \<and> (\<forall>c\<in>set (butlast cs). cy_state c \<noteq> CY_prepared)
     \<and> su_cycle s = Some (cy_id (last cs)) \<and> snapshot_of s (last cs)
     \<and> status_fits (su_status s) (cy_state (last cs))"

definition is_activation_of :: "nat \<Rightarrow> outbox_message \<Rightarrow> bool" where
  "is_activation_of i m \<longleftrightarrow> (ev_key (om_envelope m) = ''membership.activated.v1''
       \<or> ev_key (om_envelope m) = ''membership.renewed.v1'')
     \<and> dget (ev_payload (om_envelope m)) ''cycle_id'' = Some (id_json i)"

definition activations :: "membership_db \<Rightarrow> nat \<Rightarrow> nat" where
  "activations db i = length (filter (is_activation_of i) (mb_outbox db))"

definition announced :: "membership_db \<Rightarrow> membership_cycle \<Rightarrow> bool" where
  "announced db c \<longleftrightarrow> activations db (cy_id c) = (if cy_state c = CY_activated then 1 else 0)"

definition subject_of :: "subscription \<Rightarrow> string \<times> string" where
  "subject_of s = (su_subject_type s, su_subject_id s)"

definition cycles_inv :: "membership_db \<Rightarrow> bool" where
  "cycles_inv db \<longleftrightarrow> distinct (map su_id (mb_subscriptions db))
     \<and> distinct (map subject_of (mb_subscriptions db)) \<and> distinct (map cy_id (mb_cycles db))
     \<and> (\<forall>s\<in>set (mb_subscriptions db). su_id s < mb_next_id db \<and> cycles_fit s (cycles_of db (su_id s)))
     \<and> (\<forall>c\<in>set (mb_cycles db). cy_id c < mb_next_id db \<and> announced db c
          \<and> cy_subscription c \<in> su_id ` set (mb_subscriptions db))
     \<and> (\<forall>i. i \<notin> cy_id ` set (mb_cycles db) \<longrightarrow> activations db i = 0)"

definition membership_inv :: "membership_db \<Rightarrow> bool" where
  "membership_inv db \<longleftrightarrow> levels_inv db \<and> cycles_inv db"

lemma cycles_invD:
  assumes "cycles_inv db"
  shows "distinct (map su_id (mb_subscriptions db))"
    and "distinct (map subject_of (mb_subscriptions db))" and "distinct (map cy_id (mb_cycles db))"
    and "s \<in> set (mb_subscriptions db) \<Longrightarrow> su_id s < mb_next_id db"
    and "s \<in> set (mb_subscriptions db) \<Longrightarrow> cycles_fit s (cycles_of db (su_id s))"
    and "c \<in> set (mb_cycles db) \<Longrightarrow> cy_id c < mb_next_id db"
    and "c \<in> set (mb_cycles db) \<Longrightarrow> announced db c"
    and "c \<in> set (mb_cycles db) \<Longrightarrow> cy_subscription c \<in> su_id ` set (mb_subscriptions db)"
    and "i \<notin> cy_id ` set (mb_cycles db) \<Longrightarrow> activations db i = 0"
  using assms by (auto simp: cycles_inv_def)

lemma membership_inv_booted: "membership_booted db \<Longrightarrow> membership_inv db"
  by (simp add: membership_booted_def membership_inv_def cycles_inv_def activations_def)

section \<open>Lookups\<close>

lemma subscription_by_id_iff:
  assumes "distinct (map su_id (mb_subscriptions db))"
  shows "subscription_by_id db i = Some s \<longleftrightarrow> s \<in> set (mb_subscriptions db) \<and> su_id s = i"
  unfolding subscription_by_id_def
  using find_key_unique[OF assms, of s] by (auto dest: find_Some_mem)

lemma cycle_by_id_iff:
  assumes "distinct (map cy_id (mb_cycles db))"
  shows "cycle_by_id db i = Some c \<longleftrightarrow> c \<in> set (mb_cycles db) \<and> cy_id c = i"
  unfolding cycle_by_id_def
  using find_key_unique[OF assms, of c] by (auto dest: find_Some_mem)

lemma get_subscriptionD:
  "get_subscription db sid = Inr s \<Longrightarrow> s \<in> set (mb_subscriptions db)"
  by (auto simp: get_subscription_def subscription_by_id_def cmd_ok dest: find_Some_mem)

lemma get_cycleD: "get_cycle db cid = Inr c \<Longrightarrow> c \<in> set (mb_cycles db)"
  by (auto simp: get_cycle_def cycle_by_id_def cmd_ok dest: find_Some_mem)

lemma owner_ofD:
  "owner_of db c = Inr s \<Longrightarrow> s \<in> set (mb_subscriptions db) \<and> su_id s = cy_subscription c"
  by (auto simp: owner_of_def subscription_by_id_def cmd_ok dest: find_Some_mem)

lemma find_subscriptionD:
  "find_subscription db st sid = Some s \<Longrightarrow> s \<in> set (mb_subscriptions db)
     \<and> su_subject_type s = st \<and> su_subject_id s = sid"
  by (auto simp: find_subscription_def dest: find_Some_mem)

lemma find_cycle_by_key_None:
  "find_cycle_by_key db i key = None \<longleftrightarrow> key \<notin> cy_idempotency_key ` set (cycles_of db i)"
  by (auto simp: find_cycle_by_key_def find_None_iff' cycles_of_def)

section \<open>Events\<close>

lemma membership_emit_cases:
  assumes "membership_emit ctx key s co db = Inr db'"
  shows "\<exists>m. db' = db\<lparr>mb_outbox := mb_outbox db @ [m], mb_next_id := mb_next_id db + 2\<rparr>
    \<and> (\<forall>i. is_activation_of i m \<longleftrightarrow>
        (key = ''membership.activated.v1'' \<or> key = ''membership.renewed.v1'')
        \<and> (\<exists>c. co = Some c \<and> i = cy_id c))"
proof -
  from assms obtain payload where p: "membership_payload key s co = Inr payload"
      "membership_append ctx key (show_nat (su_id s)) payload db = Inr db'"
    by (auto simp: membership_emit_def cmd_ok)
  from membership_append_cases[OF p(2)] obtain m where m:
    "db' = db\<lparr>mb_outbox := mb_outbox db @ [m], mb_next_id := mb_next_id db + 2\<rparr>"
    "ev_key (om_envelope m) = key" "ev_payload (om_envelope m) = payload" by blast
  have "dget payload ''cycle_id'' = Some (id_json i) \<longleftrightarrow> (\<exists>c. co = Some c \<and> i = cy_id c)"
    if "key = ''membership.activated.v1'' \<or> key = ''membership.renewed.v1''" for i
    using that p(1)
    by (auto simp: membership_payload_def Let_def cmd_ok cycle_snapshot_def id_json_def)
  with m show ?thesis by (auto simp: is_activation_of_def)
qed

lemma activations_append:
  "mb_outbox db' = mb_outbox db @ [m] \<Longrightarrow>
     activations db' i = activations db i + (if is_activation_of i m then 1 else 0)"
  by (simp add: activations_def)

lemma activations_same:
  "map om_envelope box = map om_envelope (mb_outbox db)
     \<Longrightarrow> activations (db\<lparr>mb_outbox := box\<rparr>) i = activations db i"
proof -
  have e: "length (filter (is_activation_of i) ms) = length (filter (\<lambda>e.
      (ev_key e = ''membership.activated.v1'' \<or> ev_key e = ''membership.renewed.v1'')
      \<and> dget (ev_payload e) ''cycle_id'' = Some (id_json i)) (map om_envelope ms))" for ms
    by (induction ms) (auto simp: is_activation_of_def)
  assume same: "map om_envelope box = map om_envelope (mb_outbox db)"
  have "activations (db\<lparr>mb_outbox := box\<rparr>) i = length (filter (is_activation_of i) box)"
    by (simp add: activations_def)
  also have "\<dots> = activations db i" by (simp only: activations_def e same)
  finally show ?thesis .
qed

section \<open>Writing back one subscription\<close>

lemma cycles_inv_save:
  assumes inv: "cycles_inv db" and s: "s \<in> set (mb_subscriptions db)"
    and same: "su_id s' = su_id s" "subject_of s' = subject_of s"
    and subs: "mb_subscriptions db' = mb_subscriptions (save_subscription s' db)"
    and fit: "cycles_fit s' (cycles_of db' (su_id s))"
    and others: "\<And>j. j \<noteq> su_id s \<Longrightarrow> cycles_of db' j = cycles_of db j"
    and ids: "distinct (map cy_id (mb_cycles db'))" "mb_next_id db \<le> mb_next_id db'"
    and cycles: "\<And>c. c \<in> set (mb_cycles db') \<Longrightarrow> cy_id c < mb_next_id db' \<and> announced db' c
        \<and> cy_subscription c \<in> su_id ` set (mb_subscriptions db)"
    and quiet: "\<And>i. i \<notin> cy_id ` set (mb_cycles db') \<Longrightarrow> activations db' i = 0"
  shows "cycles_inv db'"
proof -
  have keep: "map g (mb_subscriptions db') = map g (mb_subscriptions db)" if "g s' = g s"
    for g :: "subscription \<Rightarrow> 'g"
    unfolding subs save_subscription_def
    using replaced_map[OF cycles_invD(1)[OF inv] s same(1) that] by simp
  have rows: "x = s' \<or> x \<in> set (mb_subscriptions db) \<and> su_id x \<noteq> su_id s"
    if "x \<in> set (mb_subscriptions db')" for x
    using replaced_rows[OF cycles_invD(1)[OF inv] s same(1)] that
    unfolding subs save_subscription_def by simp
  have ids': "su_id ` set (mb_subscriptions db') = su_id ` set (mb_subscriptions db)"
    using keep[of su_id] same(1) by (metis list.set_map)
  have "su_id x < mb_next_id db' \<and> cycles_fit x (cycles_of db' (su_id x))"
    if "x \<in> set (mb_subscriptions db')" for x
    using rows[OF that] cycles_invD(4,5)[OF inv, of x] cycles_invD(4)[OF inv s] same fit others[of "su_id x"]
      ids(2) by auto
  then show ?thesis
    using keep[of su_id] keep[of subject_of] same cycles_invD(1,2)[OF inv] ids(1) cycles quiet ids'
    unfolding cycles_inv_def by simp
qed

section \<open>The shapes of the transactions\<close>

lemma cycles_of_save:
  assumes "distinct (map cy_id (mb_cycles db))" and "c \<in> set (mb_cycles db)"
    and "cy_id c' = cy_id c" and "cy_subscription c' = cy_subscription c"
  shows "cycles_of (save_cycle c' db) i
    = update_where (\<lambda>x. cy_id x = cy_id c') (\<lambda>_. c') (cycles_of db i)"
proof -
  have "x = c" if "x \<in> set (mb_cycles db)" "cy_id x = cy_id c'" for x
    using assms(1-3) that by (metis distinct_map inj_onD)
  then show ?thesis
    using assms(4) by (simp add: cycles_of_def save_cycle_def filter_update_where)
qed

text \<open>A prepared cycle is the newest of its subscription.\<close>

lemma prepared_is_last:
  assumes inv: "cycles_inv db" and c: "c \<in> set (mb_cycles db)" "cy_state c = CY_prepared"
    and s: "s \<in> set (mb_subscriptions db)" "su_id s = cy_subscription c"
  obtains cs where "cycles_of db (su_id s) = cs @ [c]" and "cycles_fit s (cs @ [c])"
proof -
  let ?cs = "cycles_of db (su_id s)"
  note fit = cycles_invD(5)[OF inv s(1)]
  have "c \<in> set ?cs" using c(1) s(2) by (simp add: cycles_of_def)
  then have ne: "?cs \<noteq> []" by auto
  have "c \<notin> set (butlast ?cs)" using fit c(2) by (auto simp: cycles_fit_def)
  with \<open>c \<in> set ?cs\<close> have "last ?cs = c"
    using append_butlast_last_id[OF ne] by (metis in_set_conv_decomp Un_iff empty_iff empty_set set_append set_ConsD)
  with ne have "?cs = butlast ?cs @ [c]" by (metis append_butlast_last_id)
  with fit show thesis by (metis that)
qed

lemma cycles_inv_settle:
  assumes inv: "cycles_inv db" and c: "c \<in> set (mb_cycles db)" "cy_state c = CY_prepared"
    and s: "s \<in> set (mb_subscriptions db)" "su_id s = cy_subscription c"
    and c': "cy_id c' = cy_id c" "cy_subscription c' = cy_subscription c"
      "cy_idempotency_key c' = cy_idempotency_key c" "cycle_wf c'"
    and s': "su_id s' = su_id s" "subject_of s' = subject_of s" "su_renewal_count s' = su_renewal_count s"
      "su_cycle s' = su_cycle s" "snapshot_of s' c'" "status_fits (su_status s') (cy_state c')"
    and db': "db' = (save_subscription s' (save_cycle c' db))\<lparr>mb_outbox := mb_outbox db @ [m],
        mb_next_id := mb_next_id db + 2\<rparr>"
    and m: "\<And>i. is_activation_of i m \<longleftrightarrow> cy_state c' = CY_activated \<and> i = cy_id c"
  shows "cycles_inv db'"
proof -
  note cs = prepared_is_last[OF inv c s]
  from cs obtain cs where cs: "cycles_of db (su_id s) = cs @ [c]" "cycles_fit s (cs @ [c])" .
  note d = cycles_invD(3)[OF inv]
  have dcs: "distinct (map cy_id (cs @ [c]))"
    using d unfolding cs(1)[symmetric] cycles_of_def by (simp add: distinct_map_filter)
  have of': "cycles_of db' i = cycles_of (save_cycle c' db) i" for i
    by (simp add: db' cycles_of_def save_subscription_def)
  note of = cycles_of_save[OF d c(1) c'(1,2)]
  have cur: "cycles_of db' (su_id s) = cs @ [c']"
    unfolding of' of cs(1) by (rule replaced_last[OF dcs c'(1)])
  have cyc': "mb_cycles db' = update_where (\<lambda>x. cy_id x = cy_id c') (\<lambda>_. c') (mb_cycles db)"
    by (simp add: db' save_cycle_def save_subscription_def)
  have out: "mb_outbox db' = mb_outbox db @ [m]" "mb_next_id db' = mb_next_id db + 2"
    by (simp_all add: db')
  have rows: "x = c' \<or> x \<in> set (mb_cycles db) \<and> cy_id x \<noteq> cy_id c" if "x \<in> set (mb_cycles db')" for x
    using replaced_rows[OF d c(1) c'(1)] that unfolding cyc' by simp
  have ids: "map cy_id (mb_cycles db') = map cy_id (mb_cycles db)"
    unfolding cyc' using replaced_map[OF d c(1) c'(1,1)] .
  have ann: "announced db c" using cycles_invD(7)[OF inv c(1)] .
  show ?thesis
  proof (rule cycles_inv_save[OF inv s(1) s'(1,2)])
    show "mb_subscriptions db' = mb_subscriptions (save_subscription s' db)"
      by (simp add: db' save_subscription_def save_cycle_def)
    show "cycles_fit s' (cycles_of db' (su_id s))"
      using cs(2) c'(1,3,4) s'(3-6) unfolding cur by (auto simp: cycles_fit_def)
    show "cycles_of db' j = cycles_of db j" if "j \<noteq> su_id s" for j
      unfolding of' of
      using that s(2) c'(1) d c(1) by (intro update_where_none) (auto simp: cycles_of_def, metis distinct_map inj_onD)
    show "distinct (map cy_id (mb_cycles db'))" using d ids by simp
    show "mb_next_id db \<le> mb_next_id db'" by (simp add: out(2))
    show "cy_id x < mb_next_id db' \<and> announced db' x \<and> cy_subscription x \<in> su_id ` set (mb_subscriptions db)"
      if "x \<in> set (mb_cycles db')" for x
      using rows[OF that] cycles_invD(6,7,8)[OF inv, of x] cycles_invD(6,8)[OF inv c(1)] ann c' m c(2)
      by (auto simp: announced_def activations_append[OF out(1)] out(2))
    show "activations db' i = 0" if "i \<notin> cy_id ` set (mb_cycles db')" for i
    proof -
      from that ids have "i \<notin> cy_id ` set (mb_cycles db)" by (metis list.set_map)
      with c(1) show ?thesis
        using cycles_invD(9)[OF inv, of i] m by (auto simp: activations_append[OF out(1)])
    qed
  qed
qed

text \<open>Only the status of a subscription moves.\<close>

lemma cycles_inv_status:
  assumes inv: "cycles_inv db" and s: "s \<in> set (mb_subscriptions db)"
    and s': "su_id s' = su_id s" "subject_of s' = subject_of s" "su_renewal_count s' = su_renewal_count s"
      "su_cycle s' = su_cycle s" "\<And>c. snapshot_of s' c = snapshot_of s c"
      "\<And>st. status_fits (su_status s) st \<Longrightarrow> status_fits (su_status s') st"
    and db': "db' = (save_subscription s' db)\<lparr>mb_outbox := mb_outbox db @ [m],
        mb_next_id := mb_next_id db + 2\<rparr>"
    and m: "\<And>i. \<not> is_activation_of i m"
  shows "cycles_inv db'"
proof -
  have same: "mb_cycles db' = mb_cycles db" "mb_outbox db' = mb_outbox db @ [m]"
    "mb_next_id db' = mb_next_id db + 2"
    "mb_subscriptions db' = mb_subscriptions (save_subscription s' db)"
    by (simp_all add: db' save_subscription_def)
  then have of: "cycles_of db' = cycles_of db" by (simp add: cycles_of_def fun_eq_iff)
  have act: "activations db' i = activations db i" for i
    using m by (simp add: activations_append[OF same(2)])
  show ?thesis
  proof (rule cycles_inv_save[OF inv s s'(1,2) same(4)])
    show "cycles_fit s' (cycles_of db' (su_id s))"
      using cycles_invD(5)[OF inv s] s'(3-6) by (simp add: of cycles_fit_def)
    show "cy_id c < mb_next_id db' \<and> announced db' c \<and> cy_subscription c \<in> su_id ` set (mb_subscriptions db)"
      if "c \<in> set (mb_cycles db')" for c
      using that cycles_invD(6-8)[OF inv, of c] by (simp add: same(1,3) announced_def act)
  qed (use cycles_invD[OF inv] in \<open>simp_all add: of act same(1,3)\<close>)
qed

section \<open>Preparing a cycle\<close>

lemma days_pos: "0 < n \<Longrightarrow> 0 < days n"
  by (simp add: days_def)

lemma open_cycle_cases:
  assumes "open_cycle ctx level i s db = Inr (dto, db')"
  defines "c \<equiv> new_cycle ctx level i (su_id s) (mb_next_id db)"
  shows "find_cycle_by_key db (su_id s) (pi_idempotency_key i) = None
    \<and> dto = to_cycle c (s\<lparr>su_cycle := Some (cy_id c)\<rparr>)
    \<and> (\<exists>m. db' = db\<lparr>mb_cycles := mb_cycles db @ [c], mb_subscriptions := mb_subscriptions
          (save_subscription (s\<lparr>su_cycle := Some (cy_id c)\<rparr>) db),
          mb_outbox := mb_outbox db @ [m], mb_next_id := Suc (mb_next_id db) + 2\<rparr>
        \<and> (\<forall>j. \<not> is_activation_of j m))"
proof -
  let ?s = "s\<lparr>su_cycle := Some (cy_id c)\<rparr>"
  let ?db = "db\<lparr>mb_cycles := mb_cycles db @ [c], mb_next_id := Suc (mb_next_id db)\<rparr>"
  from assms(1) have e: "find_cycle_by_key db (su_id s) (pi_idempotency_key i) = None" "dto = to_cycle c ?s"
    "membership_emit ctx ''membership.cycle_prepared.v1'' ?s (Some c) (save_subscription ?s ?db) = Inr db'"
    by (auto simp: open_cycle_def insert_cycle_def Let_def cmd_ok c_def new_cycle_def)
  from membership_emit_cases[OF e(3)] e(1,2) show ?thesis
    by (auto simp: save_subscription_def)
qed

lemma new_cycle_wf:
  "spec_valid level \<Longrightarrow> cycle_wf (new_cycle ctx level i j n)"
  using days_pos[of "lv_cycle_days level"] by (simp add: cycle_wf_def new_cycle_def spec_valid_def)

text \<open>The new cycle is appended to those of its subscription; older ones are settled.\<close>

lemma cycles_inv_append:
  assumes inv: "cycles_inv db" and c: "cy_id c = n" "cy_subscription c = su_id s" "cycle_wf c"
      "cy_state c = CY_prepared" "cy_idempotency_key c \<notin> cy_idempotency_key ` set (cycles_of db (su_id s))"
    and old: "\<forall>x\<in>set (cycles_of db (su_id s)). cy_state x \<noteq> CY_prepared \<and> cycle_wf x"
      "distinct (map cy_idempotency_key (cycles_of db (su_id s)))"
    and s: "su_renewal_count s = int (length (cycles_of db (su_id s)))" "su_cycle s = Some n"
      "snapshot_of s c" "su_status s = SU_pending_activation"
    and subs: "distinct (map su_id (mb_subscriptions db'))"
      "distinct (map subject_of (mb_subscriptions db'))"
      "\<And>x. x \<in> set (mb_subscriptions db') \<Longrightarrow>
         x = s \<or> x \<in> set (mb_subscriptions db) \<and> su_id x \<noteq> su_id s"
      "s \<in> set (mb_subscriptions db')" "su_id s < mb_next_id db'"
      "su_id ` set (mb_subscriptions db) \<subseteq> su_id ` set (mb_subscriptions db')"
    and db': "mb_cycles db' = mb_cycles db @ [c]" "mb_outbox db' = mb_outbox db @ [m]"
      "mb_next_id db \<le> n" "n < mb_next_id db'"
    and m: "\<And>j. \<not> is_activation_of j m"
  shows "cycles_inv db'"
proof -
  have act: "activations db' j = activations db j" for j
    using m by (simp add: activations_append[OF db'(2)])
  have fresh: "n \<notin> cy_id ` set (mb_cycles db)" using cycles_invD(6)[OF inv] db'(3) by force
  have of: "cycles_of db' j = cycles_of db j @ (if j = su_id s then [c] else [])" for j
    using c(2) by (simp add: cycles_of_def db'(1))
  have "cycles_fit s (cycles_of db' (su_id s))"
    using c s old by (auto simp: of cycles_fit_def)
  then have "su_id x < mb_next_id db' \<and> cycles_fit x (cycles_of db' (su_id x))"
    if "x \<in> set (mb_subscriptions db')" for x
    using subs(3)[OF that] subs(5) cycles_invD(4,5)[OF inv, of x] db'(3,4) by (auto simp: of)
  moreover have "cy_id x < mb_next_id db' \<and> announced db' x
      \<and> cy_subscription x \<in> su_id ` set (mb_subscriptions db')" if "x \<in> set (mb_cycles db')" for x
  proof (cases "x = c")
    case True
    have "activations db n = 0" using cycles_invD(9)[OF inv fresh] .
    with True c subs(4) db'(4) show ?thesis by (auto simp: announced_def act)
  next
    case False
    with that have x: "x \<in> set (mb_cycles db)" by (simp add: db'(1))
    from cycles_invD(6-8)[OF inv x] db'(3,4) subs(6) show ?thesis by (auto simp: announced_def act)
  qed
  moreover have "distinct (map cy_id (mb_cycles db'))"
    using cycles_invD(3)[OF inv] fresh c(1) by (simp add: db'(1))
  moreover have "activations db' j = 0" if "j \<notin> cy_id ` set (mb_cycles db')" for j
    using that cycles_invD(9)[OF inv, of j] by (simp add: act db'(1))
  ultimately show ?thesis using subs(1,2) by (simp add: cycles_inv_def)
qed

lemma settled_history:
  assumes "cycles_fit s cs" and "\<not> blocks_prepare (su_status s)"
  shows "\<forall>x\<in>set cs. cy_state x \<noteq> CY_prepared \<and> cycle_wf x"
proof -
  have ne: "cs \<noteq> []" using assms(1) by (simp add: cycles_fit_def)
  have "cy_state (last cs) \<noteq> CY_prepared"
    using assms by (cases "su_status s") (auto simp: cycles_fit_def blocks_prepare_def)
  moreover have "x = last cs \<or> x \<in> set (butlast cs)" if "x \<in> set cs" for x
    using that append_butlast_last_id[OF ne] by (metis Un_iff empty_iff empty_set set_append set_ConsD)
  ultimately show ?thesis using assms(1) by (auto simp: cycles_fit_def)
qed

lemma cycles_inv_renew:
  assumes inv: "cycles_inv db" and level: "spec_valid level" and s: "s \<in> set (mb_subscriptions db)"
    and free: "\<not> blocks_prepare (su_status s)"
    and run: "open_cycle ctx level i (renewed_subscription ctx level i s)
      (save_subscription (renewed_subscription ctx level i s) db) = Inr (dto, db')"
  shows "cycles_inv db'"
proof -
  let ?n = "mb_next_id db" and ?r = "renewed_subscription ctx level i s"
  let ?s = "?r\<lparr>su_cycle := Some ?n\<rparr>" and ?c = "new_cycle ctx level i (su_id s) ?n"
  have id: "su_id ?s = su_id s" "subject_of ?s = subject_of s" "su_id ?r = su_id s"
    by (simp_all add: renewed_subscription_def subject_of_def)
  from open_cycle_cases[OF run] obtain m where
    key: "find_cycle_by_key db (su_id s) (pi_idempotency_key i) = None" and
    db': "db' = (save_subscription ?r db)\<lparr>mb_cycles := mb_cycles db @ [?c],
        mb_subscriptions := mb_subscriptions (save_subscription ?s (save_subscription ?r db)),
        mb_outbox := mb_outbox db @ [m], mb_next_id := Suc ?n + 2\<rparr>"
    and m: "\<And>j. \<not> is_activation_of j m"
    by (auto simp: save_subscription_def id new_cycle_def find_cycle_by_key_def)
  have subs: "mb_subscriptions db' = update_where (\<lambda>x. su_id x = su_id ?s) (\<lambda>_. ?s) (mb_subscriptions db)"
    by (auto simp: db' save_subscription_def id update_where_def)
  note d = cycles_invD(1,2)[OF inv] and fit = cycles_invD(5)[OF inv s]
  show ?thesis
  proof (rule cycles_inv_append[OF inv, where s = ?s and c = ?c and n = ?n and m = m])
    show "distinct (map su_id (mb_subscriptions db'))"
      unfolding subs using replaced_map[OF d(1) s id(1), of su_id] id(1) d(1) by simp
    show "distinct (map subject_of (mb_subscriptions db'))"
      unfolding subs using replaced_map[OF d(1) s id(1), of subject_of] id(2) d(2) by simp
    show "x = ?s \<or> x \<in> set (mb_subscriptions db) \<and> su_id x \<noteq> su_id ?s"
      if "x \<in> set (mb_subscriptions db')" for x
      using replaced_rows[OF d(1) s id(1)] that id(1) unfolding subs by simp
    show "?s \<in> set (mb_subscriptions db')"
      unfolding subs set_update_where using s id(1) by (auto simp: image_iff)
    show "su_id ` set (mb_subscriptions db) \<subseteq> su_id ` set (mb_subscriptions db')"
      using replaced_map[OF d(1) s id(1), of su_id] id(1) unfolding subs by (metis list.set_map subset_refl)
    show "\<forall>x\<in>set (cycles_of db (su_id ?s)). cy_state x \<noteq> CY_prepared \<and> cycle_wf x"
      using settled_history[OF fit free] by (simp add: id(1))
    show "distinct (map cy_idempotency_key (cycles_of db (su_id ?s)))"
      using fit by (simp add: id(1) cycles_fit_def)
    show "su_renewal_count ?s = int (length (cycles_of db (su_id ?s)))"
      using fit by (simp add: id(1) cycles_fit_def) (simp add: renewed_subscription_def)
    show "cy_idempotency_key ?c \<notin> cy_idempotency_key ` set (cycles_of db (su_id ?s))"
      using key by (simp add: id(1) find_cycle_by_key_None) (simp add: new_cycle_def)
    show "su_id ?s < mb_next_id db'" using cycles_invD(4)[OF inv s] id(1) by (simp add: db')
    show "cycle_wf ?c" by (rule new_cycle_wf[OF level])
  qed (simp_all add: db' m save_subscription_def id(1), simp_all add: new_cycle_def snapshot_of_def renewed_subscription_def)
qed

lemma cycles_inv_first:
  assumes inv: "cycles_inv db" and level: "spec_valid level"
    and none: "find_subscription db (pi_subject_type i) (pi_subject_id i) = None"
    and ins: "insert_subscription (new_subscription ctx level i (mb_next_id db)) db = Inr db1"
    and run: "open_cycle ctx level i (new_subscription ctx level i (mb_next_id db)) db1 = Inr (dto, db')"
  shows "cycles_inv db'"
proof -
  let ?n = "Suc (mb_next_id db)" and ?r = "new_subscription ctx level i (mb_next_id db)"
  let ?s = "?r\<lparr>su_cycle := Some ?n\<rparr>" and ?c = "new_cycle ctx level i (mb_next_id db) ?n"
  have id: "su_id ?r = mb_next_id db" "su_id ?s = mb_next_id db" by (simp_all add: new_subscription_def)
  from ins have db1: "db1 = db\<lparr>mb_subscriptions := mb_subscriptions db @ [?r], mb_next_id := ?n\<rparr>"
    by (auto simp: insert_subscription_def cmd_ok)
  from open_cycle_cases[OF run] obtain m where
    db': "db' = db1\<lparr>mb_cycles := mb_cycles db @ [?c],
        mb_subscriptions := mb_subscriptions (save_subscription ?s db1),
        mb_outbox := mb_outbox db @ [m], mb_next_id := Suc ?n + 2\<rparr>"
    and m: "\<And>j. \<not> is_activation_of j m"
    by (auto simp: id db1 new_cycle_def)
  have fresh: "mb_next_id db \<notin> su_id ` set (mb_subscriptions db)"
    using cycles_invD(4)[OF inv] by force
  then have "update_where (\<lambda>x. su_id x = mb_next_id db) (\<lambda>_. ?s) (mb_subscriptions db) = mb_subscriptions db"
    by (intro update_where_none) force
  then have subs: "mb_subscriptions db' = mb_subscriptions db @ [?s]"
    by (simp add: db' db1 save_subscription_def id update_where_def)
  have none': "cycles_of db (mb_next_id db) = []"
    using cycles_invD(8)[OF inv] fresh unfolding cycles_of_def filter_empty_conv by metis
  have subj: "subject_of ?s \<notin> subject_of ` set (mb_subscriptions db)"
    using none by (auto simp: find_subscription_def find_None_iff' subject_of_def new_subscription_def)
  show ?thesis
  proof (rule cycles_inv_append[OF inv, where s = ?s and c = ?c and n = ?n and m = m])
    show "cycle_wf ?c" by (rule new_cycle_wf[OF level])
    show "x = ?s \<or> x \<in> set (mb_subscriptions db) \<and> su_id x \<noteq> su_id ?s"
      if "x \<in> set (mb_subscriptions db')" for x
      using that fresh unfolding subs id by force
    show "su_id ` set (mb_subscriptions db) \<subseteq> su_id ` set (mb_subscriptions db')"
      unfolding subs by auto
  qed (use cycles_invD(1,2)[OF inv] fresh subj m in
    \<open>simp_all add: subs id none'\<close>, simp_all add: db' new_cycle_def snapshot_of_def new_subscription_def)
qed

lemma cycles_inv_prepare:
  assumes inv: "cycles_inv db" and level: "spec_valid level"
    and run: "prepare_cycle ctx level i db = Inr (dto, db')"
  shows "cycles_inv db'"
proof (cases "find_subscription db (pi_subject_type i) (pi_subject_id i)")
  case None
  with run obtain db1 where
    "insert_subscription (new_subscription ctx level i (mb_next_id db)) db = Inr db1"
    "open_cycle ctx level i (new_subscription ctx level i (mb_next_id db)) db1 = Inr (dto, db')"
    by (auto simp: prepare_cycle_def Let_def cmd_ok)
  with inv level None show ?thesis by (rule cycles_inv_first)
next
  case (Some s)
  note s = find_subscriptionD[OF Some]
  show ?thesis
  proof (cases "find_cycle_by_key db (su_id s) (pi_idempotency_key i)")
    case None
    with run Some have "\<not> blocks_prepare (su_status s)"
      "open_cycle ctx level i (renewed_subscription ctx level i s)
        (save_subscription (renewed_subscription ctx level i s) db) = Inr (dto, db')"
      by (auto simp: prepare_cycle_def Let_def cmd_ok)
    with inv level s show ?thesis by (blast intro: cycles_inv_renew)
  next
    case (Some c)
    with run \<open>find_subscription _ _ _ = _\<close> inv show ?thesis by (auto simp: prepare_cycle_def cmd_ok)
  qed
qed

section \<open>Every transaction\<close>

lemma cycles_inv_attach:
  assumes inv: "cycles_inv db" and run: "attach_points_grant ctx i db = Inr (dto, db')"
  shows "cycles_inv db'"
proof -
  from run obtain c s where c: "get_cycle db (at_cycle_id i) = Inr c" and s: "owner_of db c = Inr s"
    by (auto simp: attach_points_grant_def cmd_ok)
  note c' = get_cycleD[OF c] and s' = owner_ofD[OF s]
  show ?thesis
  proof (cases "cy_state c = CY_activated")
    case True
    with run c s inv show ?thesis by (auto simp: attach_points_grant_def cmd_ok)
  next
    case False
    from run c s False obtain ref key where prep: "cy_state c = CY_prepared" "su_cycle s = Some (cy_id c)"
      and key: "key = ''membership.activated.v1'' \<or> key = ''membership.renewed.v1''"
      and emit: "membership_emit ctx key (s\<lparr>su_status := SU_active, su_version := su_version s + 1\<rparr>)
        (Some (c\<lparr>cy_state := CY_activated, cy_points_entry_ref := Some ref,
          cy_attach_key := Some (at_idempotency_key i), cy_version := cy_version c + 1\<rparr>))
        (save_subscription (s\<lparr>su_status := SU_active, su_version := su_version s + 1\<rparr>)
          (save_cycle (c\<lparr>cy_state := CY_activated, cy_points_entry_ref := Some ref,
            cy_attach_key := Some (at_idempotency_key i), cy_version := cy_version c + 1\<rparr>) db)) = Inr db'"
      by (auto simp: attach_points_grant_def Let_def cmd_ok split: if_splits)
    let ?c = "c\<lparr>cy_state := CY_activated, cy_points_entry_ref := Some ref,
      cy_attach_key := Some (at_idempotency_key i), cy_version := cy_version c + 1\<rparr>"
    let ?s = "s\<lparr>su_status := SU_active, su_version := su_version s + 1\<rparr>"
    from prepared_is_last[OF inv c' prep(1) conjunct1[OF s'] conjunct2[OF s']]
    obtain cs where fit: "cycles_fit s (cs @ [c])" .
    from membership_emit_cases[OF emit] key obtain m where
      db': "db' = (save_subscription ?s (save_cycle ?c db))\<lparr>mb_outbox := mb_outbox db @ [m],
        mb_next_id := mb_next_id db + 2\<rparr>" and m: "\<And>j. is_activation_of j m \<longleftrightarrow> j = cy_id c"
      by (auto simp: save_subscription_def save_cycle_def)
    show ?thesis
      by (rule cycles_inv_settle[OF inv c' prep(1) conjunct1[OF s'] conjunct2[OF s'] _ _ _ _ _ _ _ _ _ _ db'])
        (use fit prep m in \<open>auto simp: cycles_fit_def cycle_wf_def snapshot_of_def subject_of_def\<close>)
  qed
qed

lemma cycles_inv_fail:
  assumes inv: "cycles_inv db" and run: "mark_cycle_failed ctx i db = Inr (dto, db')"
  shows "cycles_inv db'"
proof -
  from run obtain c s where c: "get_cycle db (fi_cycle_id i) = Inr c" and s: "owner_of db c = Inr s"
    by (auto simp: mark_cycle_failed_def cmd_ok)
  note c' = get_cycleD[OF c] and s' = owner_ofD[OF s]
  show ?thesis
  proof (cases "cy_state c = CY_failed")
    case True
    with run c s inv show ?thesis by (auto simp: mark_cycle_failed_def cmd_ok)
  next
    case False
    with run c s have prep: "cy_state c = CY_prepared"
      by (auto simp: mark_cycle_failed_def Let_def cmd_ok)
    from prepared_is_last[OF inv c' prep conjunct1[OF s'] conjunct2[OF s']]
    obtain cs where fit: "cycles_fit s (cs @ [c])" .
    then have cur: "su_cycle s = Some (cy_id c)" by (simp add: cycles_fit_def)
    let ?c = "c\<lparr>cy_state := CY_failed, cy_failure_code := Some (fi_failure_code i),
      cy_version := cy_version c + 1\<rparr>"
    let ?s = "s\<lparr>su_status := SU_failed, su_version := su_version s + 1\<rparr>"
    from run c s False prep cur have emit: "membership_emit ctx ''membership.cycle_failed.v1'' ?s (Some ?c)
        (save_subscription ?s (save_cycle ?c db)) = Inr db'"
      by (auto simp: mark_cycle_failed_def Let_def cmd_ok)
    from membership_emit_cases[OF emit] obtain m where
      db': "db' = (save_subscription ?s (save_cycle ?c db))\<lparr>mb_outbox := mb_outbox db @ [m],
        mb_next_id := mb_next_id db + 2\<rparr>" and m: "\<And>j. \<not> is_activation_of j m"
      by (auto simp: save_subscription_def save_cycle_def)
    show ?thesis
      by (rule cycles_inv_settle[OF inv c' prep conjunct1[OF s'] conjunct2[OF s'] _ _ _ _ _ _ _ _ _ _ db'])
        (use fit prep m in \<open>auto simp: cycles_fit_def cycle_wf_def snapshot_of_def subject_of_def\<close>)
  qed
qed

text \<open>Cancelling, terminating and expiring keep an entitled or settled current cycle.\<close>

definition ends :: "subscription \<Rightarrow> subscription \<Rightarrow> bool" where
  "ends s s' \<longleftrightarrow> (su_status s = SU_active \<or> su_status s = SU_cancelled)
     \<and> (su_status s' = SU_cancelled \<or> su_status s' = SU_terminated \<or> su_status s' = SU_expired)
     \<and> su_id s' = su_id s \<and> subject_of s' = subject_of s \<and> su_renewal_count s' = su_renewal_count s
     \<and> su_cycle s' = su_cycle s \<and> (\<forall>c. snapshot_of s' c = snapshot_of s c)"

lemma cycles_inv_end:
  assumes inv: "cycles_inv db" and s: "s \<in> set (mb_subscriptions db)" and e: "ends s s'"
    and key: "key = ''membership.cancelled.v1'' \<or> key = ''membership.terminated.v1''
      \<or> key = ''membership.expired.v1''"
    and emit: "membership_emit ctx key s' None (save_subscription s' db) = Inr db'"
  shows "cycles_inv db'"
proof -
  from membership_emit_cases[OF emit] obtain m where
    db': "db' = (save_subscription s' db)\<lparr>mb_outbox := mb_outbox db @ [m],
      mb_next_id := mb_next_id db + 2\<rparr>" and m: "\<And>j. \<not> is_activation_of j m"
    by (auto simp: save_subscription_def)
  show ?thesis
    by (rule cycles_inv_status[OF inv s _ _ _ _ _ _ db' m]) (use e in \<open>auto simp: ends_def\<close>)
qed

lemma cycles_inv_cancel:
  assumes inv: "cycles_inv db" and run: "cancel_subscription ctx sid db = Inr (dto, db')"
  shows "cycles_inv db'"
proof -
  from run obtain s where s: "get_subscription db sid = Inr s"
    by (auto simp: cancel_subscription_def cmd_ok)
  show ?thesis
  proof (cases "su_status s = SU_cancelled")
    case False
    let ?s = "s\<lparr>su_status := SU_cancelled, su_auto_renew := False,
      su_version := su_version s + 1, su_cancelled_at := Some (mc_now ctx)\<rparr>"
    from run s False have "su_status s = SU_active"
      and emit: "membership_emit ctx ''membership.cancelled.v1'' ?s None (save_subscription ?s db) = Inr db'"
      by (auto simp: cancel_subscription_def Let_def cmd_ok)
    then have "ends s ?s" by (simp add: ends_def subject_of_def snapshot_of_def)
    from cycles_inv_end[OF inv get_subscriptionD[OF s] this _ emit] show ?thesis by simp
  qed (use run s inv in \<open>auto simp: cancel_subscription_def cmd_ok\<close>)
qed

lemma cycles_inv_terminate:
  assumes inv: "cycles_inv db" and run: "terminate_subscription ctx sid db = Inr (dto, db')"
  shows "cycles_inv db'"
proof -
  from run obtain s where s: "get_subscription db sid = Inr s"
    by (auto simp: terminate_subscription_def cmd_ok)
  show ?thesis
  proof (cases "su_status s = SU_terminated")
    case False
    let ?s = "s\<lparr>su_status := SU_terminated, su_auto_renew := False,
      su_version := su_version s + 1, su_terminated_at := Some (mc_now ctx)\<rparr>"
    from run s False have "su_status s = SU_active \<or> su_status s = SU_cancelled"
      and emit: "membership_emit ctx ''membership.terminated.v1'' ?s None (save_subscription ?s db) = Inr db'"
      by (auto simp: terminate_subscription_def Let_def cmd_ok)
    then have "ends s ?s" by (auto simp: ends_def subject_of_def snapshot_of_def)
    from cycles_inv_end[OF inv get_subscriptionD[OF s] this _ emit] show ?thesis by simp
  qed (use run s inv in \<open>auto simp: terminate_subscription_def cmd_ok\<close>)
qed

text \<open>The sweep reads its rows first; each is still in the table when its turn comes.\<close>

lemma emit_subscriptions:
  "membership_emit ctx key s co db = Inr db' \<Longrightarrow> mb_subscriptions db' = mb_subscriptions db
     \<and> mb_cycles db' = mb_cycles db \<and> mb_registry db' = mb_registry db
     \<and> mb_levels db' = mb_levels db \<and> mb_next_id db' = mb_next_id db + 2"
  using membership_emit_cases by fastforce

lemma cycles_inv_expire_rows:
  assumes "cycles_inv db" and "set ss \<subseteq> set (mb_subscriptions db)" and "distinct (map su_id ss)"
    and "\<forall>s\<in>set ss. su_status s = SU_active \<or> su_status s = SU_cancelled"
    and "expire_rows ctx ss db = Inr (dtos, db')"
  shows "cycles_inv db'"
  using assms
proof (induction ss arbitrary: db dtos)
  case (Cons s ss)
  let ?s = "s\<lparr>su_status := SU_expired, su_version := su_version s + 1,
    su_expired_at := Some (mc_now ctx)\<rparr>"
  from Cons.prems(5) obtain db1 dtos' where
    emit: "membership_emit ctx ''membership.expired.v1'' ?s None (save_subscription ?s db) = Inr db1"
    and rest: "expire_rows ctx ss db1 = Inr (dtos', db')"
    by (auto simp: Let_def cmd_ok)
  have s: "s \<in> set (mb_subscriptions db)" using Cons.prems(2) by simp
  have "ends s ?s" using Cons.prems(4) by (simp add: ends_def subject_of_def snapshot_of_def)
  from cycles_inv_end[OF Cons.prems(1) s this _ emit] have inv1: "cycles_inv db1" by simp
  have "set ss \<subseteq> set (mb_subscriptions db1)"
  proof
    fix x assume x: "x \<in> set ss"
    with Cons.prems(3) have "su_id x \<noteq> su_id ?s" by (auto simp: image_iff)
    moreover from x Cons.prems(2) have "x \<in> set (mb_subscriptions db)" by auto
    ultimately show "x \<in> set (mb_subscriptions db1)"
      using emit_subscriptions[OF emit] by (simp add: save_subscription_def kept_row)
  qed
  from Cons.IH[OF inv1 this _ _ rest] Cons.prems(3,4) show ?case by simp
qed simp

lemma cycles_inv_expire:
  assumes inv: "cycles_inv db" and run: "expire_subscription ctx db = Inr (dtos, db')"
  shows "cycles_inv db'"
  by (rule cycles_inv_expire_rows[OF inv _ _ _ run[unfolded expire_subscription_def]])
    (use cycles_invD(1)[OF inv] in \<open>auto simp: distinct_map_filter subscription_overdue_def\<close>)

section \<open>Preservation\<close>

text \<open>What the cycle commands leave alone, and what the level commands leave alone.\<close>

definition levels_kept :: "membership_db \<Rightarrow> membership_db \<Rightarrow> bool" where
  "levels_kept db db' \<longleftrightarrow> mb_registry db' = mb_registry db \<and> mb_levels db' = mb_levels db
     \<and> mb_next_id db \<le> mb_next_id db'"

definition cycles_kept :: "membership_db \<Rightarrow> membership_db \<Rightarrow> bool" where
  "cycles_kept db db' \<longleftrightarrow> mb_subscriptions db' = mb_subscriptions db \<and> mb_cycles db' = mb_cycles db
     \<and> mb_next_id db \<le> mb_next_id db' \<and> (\<forall>i. activations db' i = activations db i)"

lemma levels_kept_refl [simp]: "levels_kept db db"
  and cycles_kept_refl [simp]: "cycles_kept db db"
  by (simp_all add: levels_kept_def cycles_kept_def)

lemma levels_kept_trans: "levels_kept a b \<Longrightarrow> levels_kept b c \<Longrightarrow> levels_kept a c"
  by (simp add: levels_kept_def)

lemma cycles_kept_trans: "cycles_kept a b \<Longrightarrow> cycles_kept b c \<Longrightarrow> cycles_kept a c"
  by (simp add: cycles_kept_def)

lemma levels_inv_kept: "levels_inv db \<Longrightarrow> levels_kept db db' \<Longrightarrow> levels_inv db'"
  using levels_inv_cong by (auto simp: levels_kept_def)

lemma cycles_inv_kept: "cycles_inv db \<Longrightarrow> cycles_kept db db' \<Longrightarrow> cycles_inv db'"
  by (auto simp: cycles_inv_def cycles_kept_def cycles_of_def announced_def dest: less_le_trans)

lemma levels_kept_save [simp]:
  "levels_kept db (save_subscription s db)" "levels_kept db (save_cycle c db)"
  "levels_kept db (save_subscription s (save_cycle c db))"
  by (simp_all add: levels_kept_def save_subscription_def save_cycle_def)

lemma levels_kept_emit:
  "membership_emit ctx key s co db1 = Inr db' \<Longrightarrow> levels_kept db db1 \<Longrightarrow> levels_kept db db'"
  using emit_subscriptions by (fastforce simp: levels_kept_def)

lemma levels_kept_open:
  "open_cycle ctx level i s db = Inr (dto, db') \<Longrightarrow> levels_kept db db'"
  using open_cycle_cases by (fastforce simp: levels_kept_def)

lemma levels_kept_prepare_cycle:
  "prepare_cycle ctx level i db = Inr (dto, db') \<Longrightarrow> levels_kept db db'"
  by (auto simp: prepare_cycle_def insert_subscription_def Let_def cmd_ok split: option.splits
      dest!: levels_kept_open) (simp_all add: levels_kept_def save_subscription_def)

lemma levels_kept_commands:
  "attach_points_grant ctx ai db = Inr (dto, db') \<Longrightarrow> levels_kept db db'"
  "mark_cycle_failed ctx fi db = Inr (dto, db') \<Longrightarrow> levels_kept db db'"
  "cancel_subscription ctx sid db = Inr (sdto, db') \<Longrightarrow> levels_kept db db'"
  "terminate_subscription ctx sid db = Inr (sdto, db') \<Longrightarrow> levels_kept db db'"
  by (auto simp: attach_points_grant_def mark_cycle_failed_def cancel_subscription_def
      terminate_subscription_def Let_def cmd_ok split: if_splits
      intro: levels_kept_emit[OF _ levels_kept_save(1)] levels_kept_emit[OF _ levels_kept_save(3)])

lemma levels_kept_expire_rows:
  "expire_rows ctx ss db = Inr (dtos, db') \<Longrightarrow> levels_kept db db'"
proof (induction ss arbitrary: db dtos)
  case (Cons s ss)
  then obtain s' db1 dtos' where "membership_emit ctx ''membership.expired.v1'' s' None
      (save_subscription s' db) = Inr db1" and rest: "expire_rows ctx ss db1 = Inr (dtos', db')"
    by (auto simp: Let_def cmd_ok)
  then have "levels_kept db db1" by (auto intro: levels_kept_emit)
  with Cons.IH[OF rest] show ?case by (blast intro: levels_kept_trans)
qed simp

lemma cycles_kept_audit:
  "level_audit ctx actor action target details db1 = Inr db' \<Longrightarrow> cycles_kept db db1 \<Longrightarrow> cycles_kept db db'"
  unfolding level_audit_def
  by (auto simp: cycles_kept_def activations_def is_activation_of_def dest!: membership_append_cases)

lemma cycles_kept_registry:
  "update_registry k v db1 = (res, db') \<Longrightarrow> cycles_kept db db1 \<Longrightarrow> cycles_kept db db'"
  by (auto simp: update_registry_def transact_def bindE_def cycles_kept_def activations_def
      split: sum.splits prod.splits)

lemma cycles_kept_row [simp]: "cycles_kept db (save_level_row r db)"
  by (simp add: cycles_kept_def save_level_row_def activations_def)

lemma bindS_cases:
  assumes "bindS (transact r db) k = (res, db')"
  obtains "db' = db" | x db1 where "r = Inr (x, db1)" and "k x db1 = (res, db')"
  using assms by (cases r) (auto simp: transact_def split: prod.splits)

lemma cycles_kept_update_level:
  assumes "update_level ctx actor k i db = (res, db')"
  shows "cycles_kept db db'"
  using assms[unfolded update_level_def]
proof (cases rule: bindS_cases)
  case (2 x db1)
  then obtain act target details r' where
    "level_audit ctx actor act target details (save_level_row r' db) = Inr db1"
    by (auto simp: Let_def cmd_ok)
  from cycles_kept_registry[OF 2(2) cycles_kept_audit[OF this]] show ?thesis by simp
qed simp

lemma cycles_kept_set_status:
  assumes "set_level_status ctx actor k st v reason db = (res, db')"
  shows "cycles_kept db db'"
  using assms[unfolded set_level_status_def]
proof (cases rule: bindS_cases)
  case (2 x db1)
  then obtain act target details r' where
    "level_audit ctx actor act target details (save_level_row r' db) = Inr db1"
    by (auto simp: Let_def cmd_ok)
  from cycles_kept_registry[OF 2(2) cycles_kept_audit[OF this]] show ?thesis by simp
qed simp

lemma cycles_kept_create_level:
  assumes "create_level ctx actor i db = (res, db')"
  shows "cycles_kept db db'"
proof -
  have reg: "cycles_kept db db'"
    if "transact (bindE (level_register_runtime s (mb_registry db2)) (\<lambda>reg.
        Inr (level_dto_of s, db2\<lparr>mb_registry := reg\<rparr>))) db2 = (res, db')" "cycles_kept db db2" for s db2
    using that by (auto simp: transact_def bindE_def cycles_kept_def activations_def split: sum.splits)
  have ins: "cycles_kept db db1" if "insert_level_row s db = Inr (rid, db1)" for s rid db1
    using that by (auto simp: insert_level_row_def cmd_ok cycles_kept_def activations_def)
  show ?thesis
  proof (cases "db' = db")
    case False
    with assms obtain s rid db1 db2 where "insert_level_row s db = Inr (rid, db1)"
      "level_audit ctx actor ''membership.level.created'' (show_nat rid)
        [(''level_key'', JStr (lv_key s))] db1 = Inr db2"
      and last: "transact (bindE (level_register_runtime s (mb_registry db2)) (\<lambda>reg.
        Inr (level_dto_of s, db2\<lparr>mb_registry := reg\<rparr>))) db2 = (res, db')"
      by (auto simp: create_level_def cmd_ok split: if_splits sum.splits elim!: bindS_cases)
    then have "cycles_kept db db2" using ins cycles_kept_audit by blast
    with reg[OF last] show ?thesis .
  qed simp
qed

lemma membership_inv_step:
  assumes inv: "membership_inv db" and step: "membership_step db db'"
  shows "membership_inv db'"
proof -
  from inv have l: "levels_inv db" and c: "cycles_inv db" by (simp_all add: membership_inv_def)
  from step show ?thesis
  proof cases
    case (mb_prepare ctx i r)
    obtain q db1 where q: "require_level (pi_level_key i) db = (q, db1)" by force
    from require_level_state[OF l q] have db1: "db1 = db" .
    show ?thesis
    proof (cases "db' = db")
      case False
      with mb_prepare q obtain level dto where level: "q = Inr level"
        and run: "prepare_cycle ctx level i db = Inr (dto, db')"
        by (cases q) (auto simp: prepare_subscription_cycle_def db1 guardS_def transact_def
            split: if_splits sum.splits)
      have "spec_valid level" using require_level_valid[OF l] q level by blast
      from cycles_inv_prepare[OF c this run] levels_inv_kept[OF l levels_kept_prepare_cycle[OF run]]
      show ?thesis by (simp add: membership_inv_def)
    qed (use inv in simp)
  next
    case (mb_attach ctx ai dto)
    then show ?thesis
      using cycles_inv_attach[OF c] levels_inv_kept[OF l] levels_kept_commands(1) by (simp add: membership_inv_def)
  next
    case (mb_fail ctx fi dto)
    then show ?thesis
      using cycles_inv_fail[OF c] levels_inv_kept[OF l] levels_kept_commands(2) by (simp add: membership_inv_def)
  next
    case (mb_cancel ctx sid sdto)
    then show ?thesis
      using cycles_inv_cancel[OF c] levels_inv_kept[OF l] levels_kept_commands(3) by (simp add: membership_inv_def)
  next
    case (mb_terminate ctx sid sdto)
    then show ?thesis
      using cycles_inv_terminate[OF c] levels_inv_kept[OF l] levels_kept_commands(4) by (simp add: membership_inv_def)
  next
    case (mb_expire ctx dtos)
    then show ?thesis
      using cycles_inv_expire[OF c] levels_inv_kept[OF l levels_kept_expire_rows]
      by (auto simp: membership_inv_def expire_subscription_def)
  next
    case (mb_create_level ctx actor cl rl)
    then show ?thesis
      using levels_inv_create_level[OF l] cycles_inv_kept[OF c cycles_kept_create_level]
      by (simp add: membership_inv_def)
  next
    case (mb_update_level ul ctx actor k rl)
    then show ?thesis
      using levels_inv_update_level[OF l] cycles_inv_kept[OF c cycles_kept_update_level]
      by (simp add: membership_inv_def)
  next
    case (mb_set_status ctx actor k st v reason rl)
    then show ?thesis
      using levels_inv_set_status[OF l] cycles_inv_kept[OF c cycles_kept_set_status]
      by (simp add: membership_inv_def)
  next
    case (mb_list_levels rls)
    then show ?thesis using list_levels_state[OF l] inv by simp
  next
    case (mb_hydrate ru)
    from l have "registry_valid (mb_registry db)" "rows_valid db" by (simp_all add: levels_inv_def)
    from hydrate_mirrors[OF this] mb_hydrate obtain reg where
      reg: "db' = db\<lparr>mb_registry := reg\<rparr>" "levels_inv db'" by auto
    have "cycles_kept db db'" by (simp add: reg(1) cycles_kept_def activations_def)
    with reg(2) cycles_inv_kept[OF c] show ?thesis by (simp add: membership_inv_def)
  next
    case (mb_dispatch box)
    have "levels_kept db db'" by (simp add: mb_dispatch levels_kept_def)
    moreover have "cycles_kept db db'"
      using activations_same[OF mb_dispatch(2)] by (simp add: mb_dispatch(1) cycles_kept_def)
    ultimately show ?thesis
      using levels_inv_kept[OF l] cycles_inv_kept[OF c] by (simp add: membership_inv_def)
  qed
qed

lemma membership_inv_steps: "membership_steps db db' \<Longrightarrow> membership_inv db \<Longrightarrow> membership_inv db'"
  by (induction rule: rtranclp_induct) (auto intro: membership_inv_step)

lemma membership_reachable: "membership_booted db0 \<Longrightarrow> membership_steps db0 db \<Longrightarrow> membership_inv db"
  using membership_inv_steps membership_inv_booted by blast

end
