(* ===== verification/Membership_Lifecycle.thy ===== *)
theory Membership_Lifecycle
  imports Membership_Invariant
begin

text \<open>
  The abstract life of a membership, one phase per subject, and the refinement: whatever a
  transaction does to the tables, it moves every subject by at most one step of the life.
\<close>

section \<open>The abstract machine\<close>

datatype life_phase = No_membership | Pending | Entitled | Running_out | Lapsed

fun phase_of :: "subscription_status \<Rightarrow> life_phase" where
  "phase_of SU_pending_activation = Pending"
| "phase_of SU_active = Entitled"
| "phase_of SU_cancelled = Running_out"
| "phase_of _ = Lapsed"

definition membership_phase :: "membership_db \<Rightarrow> string \<Rightarrow> string \<Rightarrow> life_phase" where
  "membership_phase db st sid = (case find_subscription db st sid of
     None \<Rightarrow> No_membership | Some s \<Rightarrow> phase_of (su_status s))"

inductive phase_step :: "life_phase \<Rightarrow> life_phase \<Rightarrow> bool" where
  stay: "phase_step p p"
| open_first: "phase_step No_membership Pending"
| open_again: "phase_step Lapsed Pending"
| activate: "phase_step Pending Entitled"
| give_up: "phase_step Pending Lapsed"
| stop_renewal: "phase_step Entitled Running_out"
| end_early: "phase_step Entitled Lapsed"
| run_out: "phase_step Running_out Lapsed"

inductive_simps phase_step_simps [simp]:
  "phase_step No_membership p" "phase_step Pending p" "phase_step Entitled p"
  "phase_step Running_out p" "phase_step Lapsed p"

section \<open>What a write does to the phases\<close>

lemma find_saved:
  assumes "subject_of s' = subject_of s" and "s \<in> set t" and "su_id s' = su_id s"
    and "distinct (map su_id t)"
  shows "find (\<lambda>x. su_subject_type x = st \<and> su_subject_id x = sid)
      (update_where (\<lambda>x. su_id x = su_id s') (\<lambda>_. s') t)
    = map_option (\<lambda>x. if su_id x = su_id s then s' else x)
        (find (\<lambda>x. su_subject_type x = st \<and> su_subject_id x = sid) t)"
  using assms
proof (induction t)
  case (Cons a t)
  show ?case
  proof (cases "a = s")
    case True
    with Cons.prems have "update_where (\<lambda>x. su_id x = su_id s') (\<lambda>_. s') t = t"
      by (intro update_where_none) (auto simp: image_iff)
    moreover have "x \<noteq> s" if "find p t = Some x" for p x
      using find_Some_mem[OF that] Cons.prems(4) True by auto
    moreover have "su_id x \<noteq> su_id s" if "find p t = Some x" for p x
      using find_Some_mem[OF that] Cons.prems(4) True by (auto simp: image_iff)
    ultimately show ?thesis
      using True Cons.prems(1,3)
      by (cases "find (\<lambda>x. su_subject_type x = st \<and> su_subject_id x = sid) t")
        (auto simp: subject_of_def)
  next
    case False
    with Cons.prems have "su_id a \<noteq> su_id s" by (auto simp: image_iff)
    with Cons False show ?thesis by auto
  qed
qed simp

definition phases_move :: "membership_db \<Rightarrow> membership_db \<Rightarrow> bool" where
  "phases_move db db' \<longleftrightarrow>
     (\<forall>st sid. phase_step (membership_phase db st sid) (membership_phase db' st sid))"

lemma phases_move_same: "mb_subscriptions db' = mb_subscriptions db \<Longrightarrow> phases_move db db'"
  by (simp add: phases_move_def membership_phase_def find_subscription_def stay)

lemma phases_move_save:
  assumes inv: "cycles_inv db" and s: "s \<in> set (mb_subscriptions db)"
    and same: "su_id s' = su_id s" "subject_of s' = subject_of s"
    and subs: "mb_subscriptions db' = mb_subscriptions (save_subscription s' db)"
    and move: "phase_step (phase_of (su_status s)) (phase_of (su_status s'))"
  shows "phases_move db db'"
  unfolding phases_move_def
proof (intro allI)
  fix st sid
  have f: "find_subscription db' st sid
      = map_option (\<lambda>x. if su_id x = su_id s then s' else x) (find_subscription db st sid)"
    unfolding find_subscription_def subs save_subscription_def
    using find_saved[OF same(2) s same(1) cycles_invD(1)[OF inv]] by simp
  show "phase_step (membership_phase db st sid) (membership_phase db' st sid)"
  proof (cases "find_subscription db st sid")
    case (Some x)
    then have "x \<in> set (mb_subscriptions db)" by (simp add: find_subscriptionD)
    then have "x = s" if "su_id x = su_id s"
      using that cycles_invD(1)[OF inv] s by (metis distinct_map inj_onD)
    with Some f move show ?thesis by (auto simp: membership_phase_def stay)
  qed (simp add: membership_phase_def f stay)
qed

text \<open>One row is written, and the phase of its subject moves along a step.\<close>

definition writes_one :: "membership_db \<Rightarrow> membership_db \<Rightarrow> bool" where
  "writes_one db db' \<longleftrightarrow> (\<exists>s s'. s \<in> set (mb_subscriptions db) \<and> su_id s' = su_id s
     \<and> subject_of s' = subject_of s \<and> phase_step (phase_of (su_status s)) (phase_of (su_status s'))
     \<and> mb_subscriptions db' = mb_subscriptions (save_subscription s' db))"

lemma writes_one_moves: "cycles_inv db \<Longrightarrow> writes_one db db' \<Longrightarrow> phases_move db db'"
  unfolding writes_one_def using phases_move_save by blast

lemma writes_one_emit:
  assumes "membership_emit ctx key t co db1 = Inr db'"
    and "mb_subscriptions db1 = mb_subscriptions (save_subscription s' db)"
    and "s \<in> set (mb_subscriptions db)" and "su_id s' = su_id s" and "subject_of s' = subject_of s"
    and "phase_step (phase_of (su_status s)) (phase_of (su_status s'))"
  shows "writes_one db db'"
  using emit_subscriptions[OF assms(1)] assms(2-6) unfolding writes_one_def by metis

lemma attach_moves:
  assumes "cycles_inv db" and "attach_points_grant ctx i db = Inr (dto, db')"
  shows "phases_move db db'"
proof (cases "db' = db")
  case False
  with assms(2) obtain c s key where "get_cycle db (at_cycle_id i) = Inr c" "owner_of db c = Inr s"
    "su_status s = SU_pending_activation" and emit: "\<exists>c'. membership_emit ctx key
      (s\<lparr>su_status := SU_active, su_version := su_version s + 1\<rparr>) (Some c')
      (save_subscription (s\<lparr>su_status := SU_active, su_version := su_version s + 1\<rparr>) (save_cycle c' db))
      = Inr db'"
    by (auto simp: attach_points_grant_def Let_def cmd_ok split: if_splits)
  from emit obtain c' where "membership_emit ctx key
      (s\<lparr>su_status := SU_active, su_version := su_version s + 1\<rparr>) (Some c')
      (save_subscription (s\<lparr>su_status := SU_active, su_version := su_version s + 1\<rparr>) (save_cycle c' db))
      = Inr db'" by blast
  then have "writes_one db db'"
    by (rule writes_one_emit[where s = s
          and s' = "s\<lparr>su_status := SU_active, su_version := su_version s + 1\<rparr>"])
      (use owner_ofD[OF \<open>owner_of db c = Inr s\<close>] \<open>su_status s = _\<close> in
        \<open>simp_all add: save_subscription_def save_cycle_def subject_of_def\<close>)
  with assms(1) show ?thesis by (rule writes_one_moves)
qed (simp add: phases_move_same)

lemma fail_moves:
  assumes inv: "cycles_inv db" and "mark_cycle_failed ctx i db = Inr (dto, db')"
  shows "phases_move db db'"
proof (cases "db' = db")
  case False
  let ?s = "\<lambda>s c. if su_cycle s = Some (cy_id c)
    then s\<lparr>su_status := SU_failed, su_version := su_version s + 1\<rparr> else s"
  from False assms(2) obtain c s c' where c: "get_cycle db (fi_cycle_id i) = Inr c"
    and s: "owner_of db c = Inr s" and prep: "cy_state c = CY_prepared"
    and emit: "membership_emit ctx ''membership.cycle_failed.v1'' (?s s c) (Some c')
      (save_subscription (?s s c) (save_cycle c' db)) = Inr db'"
    by (auto simp: mark_cycle_failed_def Let_def cmd_ok split: if_splits)
  note s' = owner_ofD[OF s]
  from prepared_is_last[OF inv get_cycleD[OF c] prep conjunct1[OF s'] conjunct2[OF s']]
  obtain cs where "cycles_fit s (cs @ [c])" .
  then have "su_status s = SU_pending_activation"
    using prep by (cases "su_status s") (auto simp: cycles_fit_def)
  then have "writes_one db db'"
    by (intro writes_one_emit[OF emit, where s = s and s' = "?s s c"])
      (use s' in \<open>simp_all add: save_subscription_def save_cycle_def subject_of_def stay\<close>)
  with assms(1) show ?thesis by (rule writes_one_moves)
qed (simp add: phases_move_same)

lemma cancel_moves:
  assumes "cycles_inv db" and "cancel_subscription ctx sid db = Inr (dto, db')"
  shows "phases_move db db'"
proof (cases "db' = db")
  case False
  with assms(2) obtain s where "get_subscription db sid = Inr s" "su_status s = SU_active"
    and emit: "\<exists>s'. su_id s' = su_id s \<and> subject_of s' = subject_of s \<and> su_status s' = SU_cancelled
      \<and> membership_emit ctx ''membership.cancelled.v1'' s' None (save_subscription s' db) = Inr db'"
    by (force simp: cancel_subscription_def Let_def cmd_ok subject_of_def split: if_splits)
  then have "writes_one db db'" by (auto intro!: writes_one_emit dest: get_subscriptionD)
  with assms(1) show ?thesis by (rule writes_one_moves)
qed (simp add: phases_move_same)

lemma terminate_moves:
  assumes "cycles_inv db" and "terminate_subscription ctx sid db = Inr (dto, db')"
  shows "phases_move db db'"
proof (cases "db' = db")
  case False
  with assms(2) obtain s where "get_subscription db sid = Inr s"
    "su_status s = SU_active \<or> su_status s = SU_cancelled"
    and emit: "\<exists>s'. su_id s' = su_id s \<and> subject_of s' = subject_of s \<and> su_status s' = SU_terminated
      \<and> membership_emit ctx ''membership.terminated.v1'' s' None (save_subscription s' db) = Inr db'"
    by (force simp: terminate_subscription_def Let_def cmd_ok subject_of_def split: if_splits)
  then have "writes_one db db'" by (auto intro!: writes_one_emit dest: get_subscriptionD)
  with assms(1) show ?thesis by (rule writes_one_moves)
qed (simp add: phases_move_same)

section \<open>Opening a cycle\<close>

lemma renew_moves:
  assumes inv: "cycles_inv db" and s: "s \<in> set (mb_subscriptions db)"
    and free: "\<not> blocks_prepare (su_status s)"
    and run: "open_cycle ctx level i (renewed_subscription ctx level i s)
      (save_subscription (renewed_subscription ctx level i s) db) = Inr (dto, db')"
  shows "phases_move db db'"
proof -
  let ?r = "renewed_subscription ctx level i s"
  obtain n where "mb_subscriptions db' = mb_subscriptions (save_subscription (?r\<lparr>su_cycle := n\<rparr>)
      (save_subscription ?r db))"
    using open_cycle_cases[OF run] by fastforce
  then have "mb_subscriptions db' = mb_subscriptions (save_subscription (?r\<lparr>su_cycle := n\<rparr>) db)"
    by (auto simp: save_subscription_def update_where_def)
  moreover have "phase_of (su_status s) = Lapsed"
    using free by (cases "su_status s") (auto simp: blocks_prepare_def)
  ultimately have "writes_one db db'"
    unfolding writes_one_def
    by (intro exI[of _ s] exI[of _ "?r\<lparr>su_cycle := n\<rparr>"])
      (use s in \<open>simp add: renewed_subscription_def subject_of_def\<close>)
  with inv show ?thesis by (rule writes_one_moves)
qed

lemma first_moves:
  assumes inv: "cycles_inv db"
    and none: "find_subscription db (pi_subject_type i) (pi_subject_id i) = None"
    and ins: "insert_subscription (new_subscription ctx level i (mb_next_id db)) db = Inr db1"
    and run: "open_cycle ctx level i (new_subscription ctx level i (mb_next_id db)) db1 = Inr (dto, db')"
  shows "phases_move db db'"
proof -
  let ?r = "new_subscription ctx level i (mb_next_id db)"
  have id: "su_id ?r = mb_next_id db" by (simp add: new_subscription_def)
  from ins have db1: "mb_subscriptions db1 = mb_subscriptions db @ [?r]"
    by (auto simp: insert_subscription_def cmd_ok)
  obtain n where "mb_subscriptions db' = mb_subscriptions (save_subscription (?r\<lparr>su_cycle := n\<rparr>) db1)"
    using open_cycle_cases[OF run] by fastforce
  moreover have "update_where (\<lambda>x. su_id x = mb_next_id db) (\<lambda>_. ?r\<lparr>su_cycle := n\<rparr>) (mb_subscriptions db)
      = mb_subscriptions db"
    using cycles_invD(4)[OF inv] by (intro update_where_none) force
  ultimately have subs: "mb_subscriptions db' = mb_subscriptions db @ [?r\<lparr>su_cycle := n\<rparr>]"
    by (simp add: save_subscription_def db1 id update_where_def)
  show ?thesis
    unfolding phases_move_def
  proof (intro allI)
    fix st sid
    show "phase_step (membership_phase db st sid) (membership_phase db' st sid)"
      using none by (auto simp: membership_phase_def find_subscription_def subs find_append
          new_subscription_def stay split: option.splits)
  qed
qed

lemma prepare_moves:
  assumes inv: "cycles_inv db" and run: "prepare_cycle ctx level i db = Inr (dto, db')"
  shows "phases_move db db'"
proof (cases "find_subscription db (pi_subject_type i) (pi_subject_id i)")
  case None
  with run obtain db1 where
    "insert_subscription (new_subscription ctx level i (mb_next_id db)) db = Inr db1"
    "open_cycle ctx level i (new_subscription ctx level i (mb_next_id db)) db1 = Inr (dto, db')"
    by (auto simp: prepare_cycle_def Let_def cmd_ok)
  with inv None show ?thesis by (rule first_moves)
next
  case (Some s)
  show ?thesis
  proof (cases "find_cycle_by_key db (su_id s) (pi_idempotency_key i)")
    case None
    with run Some have "\<not> blocks_prepare (su_status s)"
      "open_cycle ctx level i (renewed_subscription ctx level i s)
        (save_subscription (renewed_subscription ctx level i s) db) = Inr (dto, db')"
      by (auto simp: prepare_cycle_def Let_def cmd_ok)
    with inv find_subscriptionD[OF Some] show ?thesis by (blast intro: renew_moves)
  next
    case (Some c)
    with run \<open>find_subscription _ _ _ = _\<close> show ?thesis
      by (auto simp: prepare_cycle_def cmd_ok phases_move_same)
  qed
qed

section \<open>The expiry sweep\<close>

definition expired_row :: "membership_ctx \<Rightarrow> subscription \<Rightarrow> subscription" where
  "expired_row ctx s = s\<lparr>su_status := SU_expired, su_version := su_version s + 1,
     su_expired_at := Some (mc_now ctx)\<rparr>"

lemma expire_rows_subscriptions:
  assumes "expire_rows ctx ss db = Inr (dtos, db')" and "distinct (map su_id (mb_subscriptions db))"
    and "set ss \<subseteq> set (mb_subscriptions db)" and "distinct (map su_id ss)"
  shows "mb_subscriptions db'
    = map (\<lambda>x. if x \<in> set ss then expired_row ctx x else x) (mb_subscriptions db)"
  using assms
proof (induction ss arbitrary: db dtos)
  case (Cons s ss)
  let ?s = "expired_row ctx s"
  from Cons.prems(1) obtain db1 dtos' where
    emit: "membership_emit ctx ''membership.expired.v1'' ?s None (save_subscription ?s db) = Inr db1"
    and rest: "expire_rows ctx ss db1 = Inr (dtos', db')"
    by (auto simp: Let_def cmd_ok expired_row_def)
  have id: "su_id ?s = su_id s" by (simp add: expired_row_def)
  have s: "s \<in> set (mb_subscriptions db)" using Cons.prems(3) by simp
  have only: "x = s" if "x \<in> set (mb_subscriptions db)" "su_id x = su_id s" for x
    using that s Cons.prems(2) by (metis distinct_map inj_onD)
  have subs1: "mb_subscriptions db1 = map (\<lambda>x. if x = s then ?s else x) (mb_subscriptions db)"
    using emit_subscriptions[OF emit] only id by (auto simp: save_subscription_def update_where_def)
  have "map su_id (mb_subscriptions db1) = map su_id (mb_subscriptions db)"
    using id by (auto simp: subs1)
  moreover have "set ss \<subseteq> set (mb_subscriptions db1)"
  proof
    fix x assume "x \<in> set ss"
    moreover from this Cons.prems(4) have "x \<noteq> s" by auto
    ultimately show "x \<in> set (mb_subscriptions db1)" using Cons.prems(3) by (auto simp: subs1)
  qed
  ultimately have "mb_subscriptions db'
      = map (\<lambda>x. if x \<in> set ss then expired_row ctx x else x) (mb_subscriptions db1)"
    using Cons.IH[OF rest] Cons.prems(2,4) by simp
  moreover have "?s \<notin> set ss" "s \<notin> set ss"
    using Cons.prems(4) id by (auto simp: image_iff)
  ultimately show ?case by (auto simp: subs1)
qed simp

lemma expire_moves:
  assumes inv: "cycles_inv db" and run: "expire_subscription ctx db = Inr (dtos, db')"
  shows "phases_move db db'"
  unfolding phases_move_def
proof (intro allI)
  fix st sid
  let ?due = "filter (subscription_overdue (mc_now ctx)) (mb_subscriptions db)"
  have subs: "mb_subscriptions db'
      = map (\<lambda>x. if x \<in> set ?due then expired_row ctx x else x) (mb_subscriptions db)"
    by (rule expire_rows_subscriptions[OF run[unfolded expire_subscription_def] cycles_invD(1)[OF inv]])
      (use cycles_invD(1)[OF inv] in \<open>auto simp: distinct_map_filter\<close>)
  have "find_subscription db' st sid
      = map_option (\<lambda>x. if x \<in> set ?due then expired_row ctx x else x) (find_subscription db st sid)"
    unfolding find_subscription_def subs update_where_def[symmetric]
    by (rule find_update_where) (simp add: expired_row_def)
  then show "phase_step (membership_phase db st sid) (membership_phase db' st sid)"
    by (cases "find_subscription db st sid")
      (auto simp: membership_phase_def expired_row_def subscription_overdue_def stay)
qed

section \<open>The refinement\<close>

lemma membership_step_moves:
  assumes inv: "membership_inv db" and step: "membership_step db db'"
  shows "phases_move db db'"
proof -
  from inv have l: "levels_inv db" and c: "cycles_inv db" by (simp_all add: membership_inv_def)
  from step show ?thesis
  proof cases
    case (mb_prepare ctx i r)
    obtain q db1 where q: "require_level (pi_level_key i) db = (q, db1)" by force
    from require_level_state[OF l q] have db1: "db1 = db" .
    show ?thesis
    proof (cases "db' = db")
      case False
      with mb_prepare q obtain level dto where "prepare_cycle ctx level i db = Inr (dto, db')"
        by (cases q) (auto simp: prepare_subscription_cycle_def db1 guardS_def transact_def
            split: if_splits sum.splits)
      with c show ?thesis by (rule prepare_moves)
    qed (simp add: phases_move_same)
  next
    case (mb_create_level ctx actor cl rl)
    then show ?thesis using cycles_kept_create_level by (intro phases_move_same) (auto simp: cycles_kept_def)
  next
    case (mb_update_level ul ctx actor k rl)
    then show ?thesis using cycles_kept_update_level by (intro phases_move_same) (auto simp: cycles_kept_def)
  next
    case (mb_set_status ctx actor k st v reason rl)
    then show ?thesis using cycles_kept_set_status by (intro phases_move_same) (auto simp: cycles_kept_def)
  next
    case (mb_list_levels rls)
    then show ?thesis using list_levels_state[OF l] by (simp add: phases_move_same)
  next
    case (mb_hydrate ru)
    then show ?thesis
      by (intro phases_move_same) (auto simp: hydrate_persisted_levels_def split: prod.splits)
  qed (use c in \<open>auto intro: attach_moves fail_moves cancel_moves terminate_moves expire_moves
      phases_move_same\<close>)
qed

end
