(* ===== verification/Membership_Properties.thy ===== *)
theory Membership_Properties
  imports Membership_Lifecycle
begin

text \<open>
  The properties of the membership capability, each with a run of its commands on which it is
  instantiated, and what the model shows about the level registry of several processes.
\<close>

section \<open>Settled cycles\<close>

lemma attach_cycles:
  assumes "attach_points_grant ctx i db = Inr (dto, db')" and "db' \<noteq> db"
  obtains c c' s m where "get_cycle db (at_cycle_id i) = Inr c" and "cy_state c = CY_prepared"
    and "cy_id c' = cy_id c" and "mb_cycles db' = mb_cycles (save_cycle c' db)"
    and "owner_of db c = Inr s" and "mb_outbox db' = mb_outbox db @ [m]"
    and "ev_key (om_envelope m) = (if 0 < su_renewal_count s then ''membership.renewed.v1''
      else ''membership.activated.v1'')"
proof -
  let ?s = "\<lambda>s. s\<lparr>su_status := SU_active, su_version := su_version s + 1\<rparr>"
  let ?c = "\<lambda>c ref. c\<lparr>cy_state := CY_activated, cy_points_entry_ref := Some ref,
    cy_attach_key := Some (at_idempotency_key i), cy_version := cy_version c + 1\<rparr>"
  from assms obtain c s ref where c: "get_cycle db (at_cycle_id i) = Inr c" "cy_state c = CY_prepared"
    "owner_of db c = Inr s" and emit': "membership_emit ctx (if 0 < su_renewal_count s
      then ''membership.renewed.v1'' else ''membership.activated.v1'') (?s s) (Some (?c c ref))
      (save_subscription (?s s) (save_cycle (?c c ref) db)) = Inr db'"
    by (auto simp: attach_points_grant_def Let_def cmd_ok split: if_splits)
  obtain c' s' where c': "c' = ?c c ref" "s' = ?s s" by simp
  then have id: "cy_id c' = cy_id c" by simp
  note emit = emit'[folded c']
  from emit obtain payload where "membership_append ctx (if 0 < su_renewal_count s
      then ''membership.renewed.v1'' else ''membership.activated.v1'') (show_nat (su_id s')) payload
      (save_subscription s' (save_cycle c' db)) = Inr db'"
    by (auto simp: membership_emit_def cmd_ok)
  from membership_append_cases[OF this] obtain m where
    "mb_outbox db' = mb_outbox db @ [m]" "mb_cycles db' = mb_cycles (save_cycle c' db)"
    "ev_key (om_envelope m) = (if 0 < su_renewal_count s then ''membership.renewed.v1''
      else ''membership.activated.v1'')"
    by (auto simp: save_subscription_def save_cycle_def)
  with c id show thesis by (auto intro: that)
qed

lemma fail_cycles:
  assumes "mark_cycle_failed ctx i db = Inr (dto, db')" and "db' \<noteq> db"
  obtains c c' where "get_cycle db (fi_cycle_id i) = Inr c" and "cy_state c = CY_prepared"
    and "cy_id c' = cy_id c" and "mb_cycles db' = mb_cycles (save_cycle c' db)"
proof -
  let ?c = "\<lambda>c. c\<lparr>cy_state := CY_failed, cy_failure_code := Some (fi_failure_code i),
    cy_version := cy_version c + 1\<rparr>"
  from assms(1) obtain c s where c: "get_cycle db (fi_cycle_id i) = Inr c" and s: "owner_of db c = Inr s"
    by (auto simp: mark_cycle_failed_def cmd_ok)
  with assms have prep: "cy_state c = CY_prepared"
    by (auto simp: mark_cycle_failed_def Let_def cmd_ok split: if_splits)
  define s' where "s' = (if su_cycle s = Some (cy_id c)
    then s\<lparr>su_status := SU_failed, su_version := su_version s + 1\<rparr> else s)"
  from assms c s prep have emit: "membership_emit ctx ''membership.cycle_failed.v1'' s' (Some (?c c))
      (save_subscription s' (save_cycle (?c c) db)) = Inr db'"
    by (auto simp: mark_cycle_failed_def Let_def cmd_ok s'_def)
  from emit_subscriptions[OF emit] have "mb_cycles db' = mb_cycles (save_cycle (?c c) db)"
    by (simp add: save_subscription_def save_cycle_def)
  with c prep show thesis by (intro that[of c "?c c"]) simp_all
qed

lemma expire_rows_cycles: "expire_rows ctx ss db = Inr (dtos, db') \<Longrightarrow> mb_cycles db' = mb_cycles db"
proof (induction ss arbitrary: db dtos)
  case (Cons s ss)
  then obtain s' db1 dtos' where "membership_emit ctx ''membership.expired.v1'' s' None
      (save_subscription s' db) = Inr db1" and rest: "expire_rows ctx ss db1 = Inr (dtos', db')"
    by (auto simp: Let_def cmd_ok)
  with Cons.IH[OF rest] emit_subscriptions show ?case by (fastforce simp: save_subscription_def)
qed simp

lemma prepare_cycle_appends:
  "prepare_cycle ctx level i db = Inr (dto, db') \<Longrightarrow> \<exists>cs. mb_cycles db' = mb_cycles db @ cs"
  by (auto simp: prepare_cycle_def insert_subscription_def Let_def cmd_ok split: option.splits
      dest!: open_cycle_cases) (auto simp: save_subscription_def)

lemma end_cycles:
  "cancel_subscription ctx sid db = Inr (dto, db') \<Longrightarrow> mb_cycles db' = mb_cycles db"
  "terminate_subscription ctx sid db = Inr (dto, db') \<Longrightarrow> mb_cycles db' = mb_cycles db"
  by (auto simp: cancel_subscription_def terminate_subscription_def save_subscription_def Let_def cmd_ok
      split: if_splits dest!: emit_subscriptions)

lemma settled_stays:
  assumes inv: "membership_inv db" and step: "membership_step db db'"
    and c: "c \<in> set (mb_cycles db)" "cy_state c \<noteq> CY_prepared"
  shows "c \<in> set (mb_cycles db')"
proof -
  from inv have l: "levels_inv db" and cy: "cycles_inv db" by (simp_all add: membership_inv_def)
  have replaced: "c \<in> set (mb_cycles (save_cycle x' db))"
    if "get_cycle db k = Inr x" "cy_state x = CY_prepared" "cy_id x' = cy_id x" for k x x'
  proof -
    have "x \<noteq> c" using that(2) c(2) by auto
    then have "cy_id c \<noteq> cy_id x'"
      using cycles_invD(3)[OF cy] c(1) get_cycleD[OF that(1)] that(3) by (metis distinct_map inj_onD)
    with c(1) show ?thesis by (simp add: save_cycle_def kept_row)
  qed
  from step show ?thesis
  proof cases
    case (mb_prepare ctx i r)
    obtain q db1 where q: "require_level (pi_level_key i) db = (q, db1)" by force
    from require_level_state[OF l q] have db1: "db1 = db" .
    show ?thesis
    proof (cases "db' = db")
      case False
      with mb_prepare q obtain level dto where "prepare_cycle ctx level i db = Inr (dto, db')"
        by (cases q) (auto simp: prepare_subscription_cycle_def db1 guardS_def transact_def
            split: if_splits sum.splits)
      from prepare_cycle_appends[OF this] c(1) show ?thesis by auto
    qed (use c in simp)
  next
    case (mb_attach ctx ai dto)
    show ?thesis
    proof (cases "db' = db")
      case False
      from mb_attach False obtain x x' where "get_cycle db (at_cycle_id ai) = Inr x" "cy_state x = CY_prepared"
        "cy_id x' = cy_id x" "mb_cycles db' = mb_cycles (save_cycle x' db)" by (rule attach_cycles)
      with replaced show ?thesis by simp
    qed (use c in simp)
  next
    case (mb_fail ctx fi dto)
    show ?thesis
    proof (cases "db' = db")
      case False
      from mb_fail False obtain x x' where "get_cycle db (fi_cycle_id fi) = Inr x" "cy_state x = CY_prepared"
        "cy_id x' = cy_id x" "mb_cycles db' = mb_cycles (save_cycle x' db)" by (rule fail_cycles)
      with replaced show ?thesis by simp
    qed (use c in simp)
  next
    case (mb_create_level ctx actor cl rl)
    then show ?thesis using cycles_kept_create_level c by (auto simp: cycles_kept_def)
  next
    case (mb_update_level ul ctx actor k rl)
    then show ?thesis using cycles_kept_update_level c by (auto simp: cycles_kept_def)
  next
    case (mb_set_status ctx actor k st v reason rl)
    then show ?thesis using cycles_kept_set_status c by (auto simp: cycles_kept_def)
  next
    case (mb_list_levels rls)
    then show ?thesis using list_levels_state[OF l] c by simp
  next
    case (mb_hydrate ru)
    then show ?thesis using c by (auto simp: hydrate_persisted_levels_def split: prod.splits)
  next
    case (mb_expire ctx dtos)
    then show ?thesis using expire_rows_cycles c by (fastforce simp: expire_subscription_def)
  qed (use c end_cycles in auto)
qed

lemma settled_stays_steps:
  "membership_steps db db' \<Longrightarrow> membership_inv db \<Longrightarrow> c \<in> set (mb_cycles db)
     \<Longrightarrow> cy_state c \<noteq> CY_prepared \<Longrightarrow> c \<in> set (mb_cycles db')"
  by (induction rule: rtranclp_induct) (auto intro: settled_stays membership_inv_steps)

section \<open>A run\<close>

definition member_schemas :: "(dict \<Rightarrow> exn + unit) registry" where
  "member_schemas = \<lparr>reg_items = map (\<lambda>k. (k, \<lambda>_. Inr ()))
     (''audit.entry.recorded.v1'' # membership_event_keys), reg_frozen = True\<rparr>"

definition member_ctx :: "time \<Rightarrow> membership_ctx" where
  "member_ctx t = \<lparr>mc_now = t, mc_permissions = [''membership.manage''], mc_trace_id = None,
     mc_schemas = member_schemas\<rparr>"

definition member_boot :: membership_db where
  "member_boot = empty_membership_db"

definition gold_level :: create_level_input where
  "gold_level = \<lparr>cl_level_key = ''gold'', cl_display_name = ''Gold'', cl_tier_rank = 1,
     cl_cycle_days = 30, cl_grant_points = 500, cl_renewal_allowed = True\<rparr>"

definition member_request :: "string \<Rightarrow> prepare_input" where
  "member_request key = \<lparr>pi_subject_type = ''user'', pi_subject_id = ''u1'',
     pi_level_key = ''gold'', pi_source_type = ''order'', pi_source_ref = ''o1'',
     pi_idempotency_key = key, pi_expected_version = None, pi_auto_renew = False\<rparr>"

definition member_levels :: membership_db where
  "member_levels = snd (create_level (member_ctx 0) ''admin'' gold_level member_boot)"

definition member_prepared :: membership_db where
  "member_prepared = snd (prepare_subscription_cycle (member_ctx 10) (member_request ''k1'') member_levels)"

text \<open>The state after a command that succeeds.\<close>

definition member_after :: "exn + 'r \<times> membership_db \<Rightarrow> membership_db" where
  "member_after r = (case r of Inr (_, db) \<Rightarrow> db | Inl _ \<Rightarrow> member_boot)"

definition attach_request :: "nat \<Rightarrow> string \<Rightarrow> attach_input" where
  "attach_request c ref = \<lparr>at_cycle_id = show_nat c, at_points_entry_ref = ref,
     at_idempotency_key = ''a1''\<rparr>"

definition member_active :: membership_db where
  "member_active = member_after (attach_points_grant (member_ctx 20) (attach_request 5 ''77'') member_prepared)"

definition member_failed :: membership_db where
  "member_failed = member_after (mark_cycle_failed (member_ctx 20) \<lparr>fi_cycle_id = ''5'',
     fi_failure_code = ''points.down'', fi_idempotency_key = ''f1''\<rparr> member_prepared)"

definition member_retried :: membership_db where
  "member_retried = snd (prepare_subscription_cycle (member_ctx 30) (member_request ''k2'') member_failed)"

definition member_retried_active :: membership_db where
  "member_retried_active = member_after (attach_points_grant (member_ctx 40) (attach_request 10 ''78'')
     member_retried)"

lemma member_booted: "membership_booted member_boot"
  by (simp add: membership_booted_def member_boot_def empty_membership_db_def levels_inv_def
      registry_valid_def rows_valid_def levels_mirror_def empty_registry_def registry_lookup_def)

lemma member_after_Inr: "\<not> isl r \<Longrightarrow> \<exists>x. r = Inr (x, member_after r)"
  by (cases r) (auto simp: member_after_def)

lemma member_run:
  "membership_steps member_boot member_levels" "membership_steps member_boot member_prepared"
  "membership_steps member_boot member_active" "membership_steps member_boot member_failed"
  "membership_steps member_boot member_retried" "membership_steps member_boot member_retried_active"
proof -
  have run: "\<not> isl (attach_points_grant (member_ctx 20) (attach_request 5 ''77'') member_prepared)"
    "\<not> isl (mark_cycle_failed (member_ctx 20) \<lparr>fi_cycle_id = ''5'',
       fi_failure_code = ''points.down'', fi_idempotency_key = ''f1''\<rparr> member_prepared)"
    "\<not> isl (attach_points_grant (member_ctx 40) (attach_request 10 ''78'') member_retried)"
    by code_simp+
  have "membership_step member_boot member_levels"
    unfolding member_levels_def by (rule mb_create_level) (rule prod.collapse[symmetric])
  then show 1: "membership_steps member_boot member_levels" by simp
  have "membership_step member_levels member_prepared"
    unfolding member_prepared_def by (rule mb_prepare) (rule prod.collapse[symmetric])
  with 1 show 2: "membership_steps member_boot member_prepared" by (rule rtranclp.rtrancl_into_rtrancl)
  have "membership_step member_prepared member_active"
    using member_after_Inr[OF run(1)] mb_attach unfolding member_active_def by blast
  with 2 show "membership_steps member_boot member_active" by (rule rtranclp.rtrancl_into_rtrancl)
  have "membership_step member_prepared member_failed"
    using member_after_Inr[OF run(2)] mb_fail unfolding member_failed_def by blast
  with 2 show 3: "membership_steps member_boot member_failed" by (rule rtranclp.rtrancl_into_rtrancl)
  have "membership_step member_failed member_retried"
    unfolding member_retried_def by (rule mb_prepare) (rule prod.collapse[symmetric])
  with 3 show 4: "membership_steps member_boot member_retried" by (rule rtranclp.rtrancl_into_rtrancl)
  have "membership_step member_retried member_retried_active"
    using member_after_Inr[OF run(3)] mb_attach unfolding member_retried_active_def by blast
  with 4 show "membership_steps member_boot member_retried_active" by (rule rtranclp.rtrancl_into_rtrancl)
qed

lemmas member_inv = member_run[THEN membership_reachable[OF member_booted]]

section \<open>The states of subscription and cycle\<close>

text \<open>
  C31. In every reachable state a subscription has a current cycle of its own whose snapshot it
  carries and whose state fits its status: pending means prepared, failed means failed, and every
  other status means that the cycle was activated with a points entry. No other cycle of the
  subscription is still prepared, and the renewal count is the number of cycles less one.
\<close>

theorem membership_states_agree:
  assumes "membership_booted db0" and "membership_steps db0 db"
    and "find_subscription db st sid = Some s"
  shows "\<exists>c. su_cycle s = Some (cy_id c) \<and> cycle_by_id db (cy_id c) = Some c
    \<and> cy_subscription c = su_id s \<and> snapshot_of s c \<and> status_fits (su_status s) (cy_state c)
    \<and> cycle_wf c
    \<and> (\<forall>x. x \<in> set (mb_cycles db) \<and> cy_subscription x = su_id s \<and> cy_state x = CY_prepared \<longrightarrow> x = c)
    \<and> su_renewal_count s + 1 = int (length (cycles_of db (su_id s)))"
proof -
  from membership_reachable[OF assms(1,2)] have inv: "cycles_inv db" by (simp add: membership_inv_def)
  let ?cs = "cycles_of db (su_id s)"
  have s: "s \<in> set (mb_subscriptions db)" using find_subscriptionD[OF assms(3)] by simp
  note fit = cycles_invD(5)[OF inv s]
  then have "?cs \<noteq> []" by (simp add: cycles_fit_def)
  then have c: "last ?cs \<in> set (mb_cycles db)" "cy_subscription (last ?cs) = su_id s"
    using last_in_set[of ?cs] by (auto simp: cycles_of_def)
  have "x = last ?cs" if x: "x \<in> set (mb_cycles db)" "cy_subscription x = su_id s" "cy_state x = CY_prepared" for x
    using prepared_is_last[OF inv x(1,3) s] x(2) by (metis last_snoc)
  moreover have "cycle_by_id db (cy_id (last ?cs)) = Some (last ?cs)"
    using c(1) by (simp add: cycle_by_id_iff[OF cycles_invD(3)[OF inv]])
  moreover have "last ?cs \<in> set ?cs" using \<open>?cs \<noteq> []\<close> by simp
  ultimately show ?thesis
    using fit c(2) by (intro exI[of _ "last ?cs"]) (auto simp: cycles_fit_def)
qed

theorem membership_states_agree_witness:
  "\<exists>c. cycle_by_id member_retried_active (cy_id c) = Some c \<and> cycle_wf c \<and> cy_state c = CY_activated
    \<and> length (cycles_of member_retried_active 4) = 2"
proof -
  let ?s = "hd (mb_subscriptions member_retried_active)"
  have s: "find_subscription member_retried_active ''user'' ''u1'' = Some ?s" "su_id ?s = 4"
    "su_status ?s = SU_active" "length (cycles_of member_retried_active 4) = 2"
    by code_simp+
  from membership_states_agree[OF member_booted member_run(6) s(1)] s(2-4) show ?thesis by auto
qed



text \<open>
  C33. The tables refine the abstract life of a membership: every transaction moves every subject
  by at most one step of it. An entitlement begins only from a pending membership, a membership
  that runs out is never renewed in place, and a lapsed one starts again as pending.
\<close>

theorem membership_refines_lifecycle:
  assumes "membership_booted db0" and "membership_steps db0 db" and "membership_step db db'"
  shows "phase_step (membership_phase db st sid) (membership_phase db' st sid)"
  using membership_step_moves[OF membership_reachable[OF assms(1,2)] assms(3)]
  by (simp add: phases_move_def)

theorem membership_refines_lifecycle_witness:
  "phase_step (membership_phase member_levels ''user'' ''u1'') (membership_phase member_prepared ''user'' ''u1'')
    \<and> membership_phase member_levels ''user'' ''u1'' = No_membership
    \<and> membership_phase member_prepared ''user'' ''u1'' = Pending"
proof (intro conjI)
  have "membership_step member_levels member_prepared"
    unfolding member_prepared_def by (rule mb_prepare) (rule prod.collapse[symmetric])
  from membership_refines_lifecycle[OF member_booted member_run(1) this]
  show "phase_step (membership_phase member_levels ''user'' ''u1'') (membership_phase member_prepared ''user'' ''u1'')" .
  show "membership_phase member_levels ''user'' ''u1'' = No_membership" by code_simp
  show "membership_phase member_prepared ''user'' ''u1'' = Pending" by code_simp
qed

section \<open>Levels\<close>

text \<open>
  In the process that administers the levels, looking a level up through the registry is
  equivalent to reading its row: after the hydration at boot and any transactions, a command that
  names a level with a row works with exactly that row, and the lookup changes nothing.
\<close>

theorem level_lookup_reads_table:
  assumes "membership_booted db0" and "membership_steps db0 db" and "find_level_row db k = Some r"
  shows "require_level k db = (spec_of_row r, db) \<and> isl (spec_of_row r) = False"
proof -
  from membership_reachable[OF assms(1,2)] have inv: "levels_inv db" by (simp add: membership_inv_def)
  have "spec_valid (row_spec r)"
    using inv find_level_row_iff[OF assms(3)] by (auto simp: levels_inv_def rows_valid_def)
  then have "spec_of_row r = Inr (row_spec r)" by (simp add: cmd_ok)
  with require_level_known[OF mirror_lookup[OF inv assms(3)]] show ?thesis by simp
qed

theorem level_lookup_reads_table_witness:
  "fst (require_level ''gold'' member_active) = spec_of_row (hd (mb_levels member_active))"
proof -
  have "find_level_row member_active ''gold'' = Some (hd (mb_levels member_active))" by code_simp
  from level_lookup_reads_table[OF member_booted member_run(3) this] show ?thesis by simp
qed

text \<open>
  In any other process the registry is not told of a change: a command there works with the
  level as it was when that process first read it. So a process whose registry still holds a level
  as active prepares cycles of it, whatever the table says by now, archived levels included.
\<close>

definition member_events_ok :: "membership_ctx \<Rightarrow> bool" where
  "member_events_ok ctx \<longleftrightarrow> (\<forall>k\<in>set membership_event_keys. \<forall>p. validate_payload (mc_schemas ctx) k p = Inr ())"

lemma emit_prepared_ok:
  assumes "member_events_ok ctx"
  shows "\<exists>db'. membership_emit ctx ''membership.cycle_prepared.v1'' s (Some c) db = Inr db'"
proof -
  have "validate_payload (mc_schemas ctx) ''membership.cycle_prepared.v1'' p = Inr ()" for p
    using assms by (simp add: member_events_ok_def membership_event_keys_def)
  then show ?thesis
    by (simp add: membership_emit_def membership_payload_def membership_append_def outbox_append_def)
qed

theorem stale_level_sold:
  assumes "cycles_inv db" and "member_events_ok ctx"
    and "registry_lookup (mb_registry db) (pi_level_key i) = Some spec" and "lv_status spec = LS_active"
    and "find_subscription db (pi_subject_type i) (pi_subject_id i) = None"
    and "pi_expected_version i = None"
  shows "\<exists>dto db'. prepare_subscription_cycle ctx i (db\<lparr>mb_levels := rows\<rparr>) = (Inr dto, db')
    \<and> cd_points_amount dto = lv_cycle_points_amount spec \<and> cd_state dto = CY_prepared"
proof -
  let ?db = "db\<lparr>mb_levels := rows\<rparr>" and ?s = "new_subscription ctx spec i (mb_next_id db)"
  let ?n = "Suc (mb_next_id db)"
  let ?c = "new_cycle ctx spec i (mb_next_id db) ?n"
  let ?db1 = "?db\<lparr>mb_subscriptions := mb_subscriptions db @ [?s], mb_next_id := ?n\<rparr>"
  have level: "require_level (pi_level_key i) ?db = (Inr spec, ?db)"
    by (rule require_level_known) (simp add: assms(3))
  have none: "find_subscription ?db (pi_subject_type i) (pi_subject_id i) = None"
    using assms(5) by (simp add: find_subscription_def)
  have "find_cycle_by_key ?db1 (mb_next_id db) (pi_idempotency_key i) = None"
    using cycles_invD(4,8)[OF assms(1)] by (force simp: find_cycle_by_key_def find_None_iff')
  moreover obtain db2 where "membership_emit ctx ''membership.cycle_prepared.v1''
      (?s\<lparr>su_cycle := Some ?n\<rparr>) (Some ?c) (save_subscription (?s\<lparr>su_cycle := Some ?n\<rparr>)
      (?db1\<lparr>mb_cycles := mb_cycles db @ [?c], mb_next_id := Suc ?n\<rparr>)) = Inr db2"
    using emit_prepared_ok[OF assms(2)] by blast
  ultimately have "open_cycle ctx spec i ?s ?db1 = Inr (to_cycle ?c (?s\<lparr>su_cycle := Some ?n\<rparr>), db2)"
    by (simp add: open_cycle_def insert_cycle_def new_subscription_def new_cycle_def)
  moreover have "insert_subscription ?s ?db = Inr ?db1"
    using none by (simp add: insert_subscription_def new_subscription_def)
  ultimately have "prepare_cycle ctx spec i ?db = Inr (to_cycle ?c (?s\<lparr>su_cycle := Some ?n\<rparr>), db2)"
    using none assms(6) by (simp add: prepare_cycle_def)
  then show ?thesis
    using level assms(4) by (simp add: prepare_subscription_cycle_def guardS_def to_cycle_def new_cycle_def)
qed

text \<open>The level of the run, archived in the table by another process.\<close>

theorem stale_level_sold_witness:
  "\<exists>dto db'. prepare_subscription_cycle (member_ctx 10) (member_request ''k1'')
      (member_levels\<lparr>mb_levels := map (lr_status_update (\<lambda>_. LS_archived)) (mb_levels member_levels)\<rparr>)
    = (Inr dto, db') \<and> cd_points_amount dto = 500 \<and> cd_state dto = CY_prepared"
proof -
  let ?spec = "row_spec (hd (mb_levels member_levels))" and ?i = "member_request ''k1''"
  have r: "registry_lookup (mb_registry member_levels) (pi_level_key ?i) = Some ?spec"
    "lv_status ?spec = LS_active" "lv_cycle_points_amount ?spec = 500"
    "find_subscription member_levels (pi_subject_type ?i) (pi_subject_id ?i) = None"
    "pi_expected_version ?i = None" by code_simp+
  have "member_events_ok (member_ctx 10)"
    by (simp add: member_events_ok_def member_ctx_def member_schemas_def membership_event_keys_def
        validate_payload_def registry_lookup_def)
  moreover have "cycles_inv member_levels" using member_inv(1) by (simp add: membership_inv_def)
  ultimately show ?thesis using stale_level_sold[OF _ _ r(1,2,4,5)] r(3) by simp
qed

section \<open>Further observations\<close>

text \<open>
  Attaching the grant announces a renewal whenever the subscription had a cycle before, a failed
  one included: the first activation of a member whose first attempt failed is a renewal.
\<close>

lemma activation_event_key:
  assumes "membership_inv db" and "attach_points_grant ctx i db = Inr (dto, db')" and "db' \<noteq> db"
  shows "\<exists>s\<in>set (mb_subscriptions db). ev_key (om_envelope (last (mb_outbox db')))
    = (if 1 < length (cycles_of db (su_id s)) then ''membership.renewed.v1'' else ''membership.activated.v1'')"
proof -
  from assms(2,3) obtain c s m where "owner_of db c = Inr s" "mb_outbox db' = mb_outbox db @ [m]"
    "ev_key (om_envelope m) = (if 0 < su_renewal_count s then ''membership.renewed.v1''
      else ''membership.activated.v1'')" by (rule attach_cycles)
  moreover from this owner_ofD have s: "s \<in> set (mb_subscriptions db)" by blast
  moreover have "su_renewal_count s + 1 = int (length (cycles_of db (su_id s)))"
    using assms(1) cycles_invD(5)[OF _ s] by (simp add: membership_inv_def cycles_fit_def)
  ultimately show ?thesis by (intro bexI[OF _ s]) simp
qed

lemma first_activation_is_a_renewal:
  "om_event_key (last (mb_outbox member_retried_active)) = ''membership.renewed.v1''
   \<and> list_all (\<lambda>m. om_event_key m \<noteq> ''membership.activated.v1'') (mb_outbox member_retried_active)"
  by code_simp

text \<open>The pattern of the input and the pattern of the constructor disagree on double underscores.\<close>

lemma create_level_double_underscore:
  "create_level_ok (gold_level\<lparr>cl_level_key := ''a__b''\<rparr>)
   \<and> fst (create_level (member_ctx 0) ''admin'' (gold_level\<lparr>cl_level_key := ''a__b''\<rparr>) member_boot)
       = Inl (PyException ''ValueError'')"
proof
  show "create_level_ok (gold_level\<lparr>cl_level_key := ''a__b''\<rparr>)" by code_simp
  show "fst (create_level (member_ctx 0) ''admin'' (gold_level\<lparr>cl_level_key := ''a__b''\<rparr>) member_boot)
       = Inl (PyException ''ValueError'')" by code_simp
qed

text \<open>A process that does not hold the level commits the update and then answers with an error.\<close>

lemma update_level_unhydrated:
  "case update_level (member_ctx 5) ''admin'' ''gold''
      \<lparr>ul_expected_version = 1, ul_display_name = None, ul_tier_rank = None, ul_cycle_days = Some 60,
       ul_grant_points = None, ul_renewal_allowed = None\<rparr> (member_levels\<lparr>mb_registry := empty_registry\<rparr>)
    of (r, db) \<Rightarrow> r = Inl (KernelError ''membership.unknown_level'' INTERNAL)
      \<and> map lr_cycle_days (mb_levels db) = [60]"
  by code_simp

text \<open>Terminating a membership and buying again leaves a pair of cycles the diagnostics report.\<close>

lemma overlap_after_termination:
  "let db1 = member_after (terminate_subscription (member_ctx 30) ''4'' member_active);
       db2 = snd (prepare_subscription_cycle (member_ctx 40) (member_request ''k2'') db1)
   in mr_overlapping (membership_diagnostics 50 db2) = 1"
  by code_simp

text \<open>An activated cycle without a points entry, which the diagnostics look for, does not occur.\<close>

lemma no_invalid_activation:
  assumes "membership_inv db"
  shows "mr_invalid_activated (membership_diagnostics now db) = 0"
proof -
  have inv: "cycles_inv db" using assms by (simp add: membership_inv_def)
  have "cy_points_entry_ref c \<noteq> None" if "c \<in> set (mb_cycles db)" "cy_state c = CY_activated" for c
  proof -
    from cycles_invD(8)[OF inv that(1)] obtain s where s: "s \<in> set (mb_subscriptions db)"
      "cy_subscription c = su_id s" by auto
    with cycles_invD(5)[OF inv s(1)] that(1) have "cycle_wf c" by (auto simp: cycles_fit_def cycles_of_def)
    with that(2) show ?thesis by (auto simp: cycle_wf_def)
  qed
  then show ?thesis by (auto simp: membership_diagnostics_def filter_empty_conv)
qed

end
