(* ===== verification/Gift_Cards_Model.thy ===== *)
theory Gift_Cards_Model
  imports Kernel_Outbox Kernel_Page
begin

text \<open>
  The data of the gift cards capability (\<^verbatim>\<open>inc/capabilities/gift_cards/models.py\<close>, \<^verbatim>\<open>schemas.py\<close>,
  \<^verbatim>\<open>ports.py\<close>, \<^verbatim>\<open>events.py\<close>) with the helpers of \<^verbatim>\<open>commands.py\<close>. HMAC and SHA-256, the random
  tokens and the gift card platforms are parameters in the context. An id is a number and its text
  the numeral, as in the membership model.
\<close>

section \<open>Tables\<close>

datatype card_state = CD_issued | CD_reserved | CD_redeemed | CD_revoked | CD_expired
datatype batch_state = BA_active | BA_closed | BA_revoked
datatype redemption_state = RE_reserved | RE_committed | RE_cancelled | RE_expired
datatype source_kind = SK_internal | SK_external

record card_batch =
  cb_id :: nat
  cb_batch_key :: string
  cb_platform_key :: string
  cb_product_key :: string
  cb_schema_version :: string
  cb_fulfillment_key :: string
  cb_payload :: dict
  cb_quantity :: int
  cb_generated_count :: int
  cb_expires_at :: "time option"
  cb_status :: batch_state
  cb_idempotency_key :: string
  cb_created_by :: "string option"
  cb_closed_at :: "time option"
  cb_created_at :: time

record gift_card =
  gc_id :: nat
  gc_batch :: nat
  gc_platform_key :: string
  gc_secret_digest :: string
  gc_status :: card_state
  gc_redemption :: "nat option"
  gc_reserved_until :: "time option"
  gc_redeemed_at :: "time option"
  gc_revoked_at :: "time option"
  gc_version :: int
  gc_created_at :: time

record external_claim =
  xc_id :: nat
  xc_platform_key :: string
  xc_order_digest :: string
  xc_product_key :: string
  xc_schema_version :: string
  xc_fulfillment_key :: string
  xc_payload :: dict
  xc_fact_digest :: string
  xc_provider_status :: string
  xc_verified_at :: time
  xc_expires_at :: "time option"
  xc_redemption :: "nat option"

record redemption =
  rm_id :: nat
  rm_source_kind :: source_kind
  rm_source_id :: string
  rm_platform_key :: string
  rm_subject_type :: string
  rm_subject_id :: string
  rm_schema_version :: string
  rm_fulfillment_key :: string
  rm_payload :: dict
  rm_status :: redemption_state
  rm_idempotency_key :: string
  rm_reserved_until :: "time option"
  rm_committed_at :: "time option"
  rm_cancelled_at :: "time option"
  rm_created_at :: time

record gift_db =
  gd_batches :: "card_batch list"
  gd_cards :: "gift_card list"
  gd_claims :: "external_claim list"
  gd_redemptions :: "redemption list"
  gd_outbox :: "outbox_message list"
  gd_next_id :: nat

definition empty_gift_db :: gift_db where
  "empty_gift_db = \<lparr>gd_batches = [], gd_cards = [], gd_claims = [], gd_redemptions = [],
     gd_outbox = [], gd_next_id = 1\<rparr>"

section \<open>Platforms\<close>

record purchase_fact =
  pf_platform_key :: string
  pf_external_order_id :: string
  pf_provider_fact_id :: string
  pf_paid :: bool
  pf_product_key :: string
  pf_schema_version :: string
  pf_fulfillment_key :: string
  pf_payload :: dict
  pf_occurred_at :: time
  pf_expires_at :: "time option"
  pf_idempotency_key :: string
  pf_quantity :: int

record gift_webhook_request =
  gw_method :: string
  gw_raw_body :: string
  gw_headers :: "(string \<times> string) list"
  gw_query_params :: "(string \<times> string) list"

text \<open>A platform answers or raises; the settings snapshot is part of the function.\<close>

record gift_platform =
  gp_lookup :: "string \<Rightarrow> exn + purchase_fact"
  gp_verify_webhook :: "gift_webhook_request \<Rightarrow> exn + purchase_fact"
  gp_acknowledge :: "purchase_fact \<Rightarrow> exn + unit"

section \<open>Context and helpers\<close>

record gift_ctx =
  gx_now :: time
  gx_platforms :: "(string \<times> gift_platform) list"
  gx_pepper :: string
  gx_hmac :: "string \<Rightarrow> string \<Rightarrow> string"
  gx_sha256 :: "string \<Rightarrow> string"
  gx_tokens :: "nat \<Rightarrow> string"
  gx_batch_token :: string
  gx_default_provider :: string
  gx_permissions :: "string list"
  gx_actor_id :: "string option"
  gx_trace_id :: "string option"
  gx_reserve_ttl :: int
  gx_schemas :: "(dict \<Rightarrow> exn + unit) registry"

definition digest_secret :: "gift_ctx \<Rightarrow> string \<Rightarrow> string \<Rightarrow> exn + string" where
  "digest_secret ctx secret platform =
     bindE (requireE (gx_pepper ctx \<noteq> []) (PyException ''ValueError'')) (\<lambda>_.
     Inr (gx_hmac ctx (gx_pepper ctx) (platform @ [CHR 0x00] @ secret)))"

definition gift_conflict :: "string \<Rightarrow> exn" where
  "gift_conflict c = KernelError c CONFLICT"

definition gift_validation :: "string \<Rightarrow> exn" where
  "gift_validation c = KernelError c VALIDATION"

definition gift_not_found :: "string \<Rightarrow> exn" where
  "gift_not_found c = KernelError c NOT_FOUND"

definition provider_unavailable :: exn where
  "provider_unavailable = KernelError ''gift_cards.provider_unavailable'' DEPENDENCY_UNAVAILABLE"

definition gift_require :: "gift_ctx \<Rightarrow> string \<Rightarrow> exn + unit" where
  "gift_require ctx key =
     requireE (key \<in> set (gx_permissions ctx)) (KernelError ''gift_cards.forbidden'' FORBIDDEN)"

text \<open>\<^verbatim>\<open>{"fulfillment_key": key, **values}\<close>\<close>

definition fulfillment_payload :: "string \<Rightarrow> dict \<Rightarrow> dict" where
  "fulfillment_payload key vals = dmerge [(''fulfillment_key'', JStr key)] vals"

text \<open>\<^verbatim>\<open>uuid.UUID(str(text))\<close>, whose exception the commands do not handle.\<close>

definition parse_id :: "string \<Rightarrow> exn + nat" where
  "parse_id s = someE (read_id s) (PyException ''ValueError'')"

definition batch_by_id :: "gift_db \<Rightarrow> nat \<Rightarrow> card_batch option" where
  "batch_by_id db i = find (\<lambda>b. cb_id b = i) (gd_batches db)"

definition card_by_id :: "gift_db \<Rightarrow> nat \<Rightarrow> gift_card option" where
  "card_by_id db i = find (\<lambda>c. gc_id c = i) (gd_cards db)"

definition claim_by_id :: "gift_db \<Rightarrow> nat \<Rightarrow> external_claim option" where
  "claim_by_id db i = find (\<lambda>c. xc_id c = i) (gd_claims db)"

definition redemption_by_id :: "gift_db \<Rightarrow> nat \<Rightarrow> redemption option" where
  "redemption_by_id db i = find (\<lambda>r. rm_id r = i) (gd_redemptions db)"

definition save_batch :: "card_batch \<Rightarrow> gift_db \<Rightarrow> gift_db" where
  "save_batch b db = db\<lparr>gd_batches := update_where (\<lambda>x. cb_id x = cb_id b) (\<lambda>_. b) (gd_batches db)\<rparr>"

definition save_card :: "gift_card \<Rightarrow> gift_db \<Rightarrow> gift_db" where
  "save_card c db = db\<lparr>gd_cards := update_where (\<lambda>x. gc_id x = gc_id c) (\<lambda>_. c) (gd_cards db)\<rparr>"

definition save_claim :: "external_claim \<Rightarrow> gift_db \<Rightarrow> gift_db" where
  "save_claim c db = db\<lparr>gd_claims := update_where (\<lambda>x. xc_id x = xc_id c) (\<lambda>_. c) (gd_claims db)\<rparr>"

definition save_redemption :: "redemption \<Rightarrow> gift_db \<Rightarrow> gift_db" where
  "save_redemption r db =
     db\<lparr>gd_redemptions := update_where (\<lambda>x. rm_id x = rm_id r) (\<lambda>_. r) (gd_redemptions db)\<rparr>"

section \<open>Results\<close>

record batch_dto =
  bd_id :: string
  bd_batch_key :: string
  bd_platform_key :: string
  bd_product_key :: string
  bd_schema_version :: string
  bd_fulfillment_key :: string
  bd_quantity :: int
  bd_generated_count :: int
  bd_available_count :: nat
  bd_redeemed_count :: nat
  bd_revoked_count :: nat
  bd_expires_at :: "time option"
  bd_status :: batch_state
  bd_idempotency_key :: string
  bd_created_by :: "string option"
  bd_created_at :: time
  bd_closed_at :: "time option"

definition count_cards :: "gift_db \<Rightarrow> nat \<Rightarrow> card_state \<Rightarrow> nat" where
  "count_cards db b st = length (filter (\<lambda>c. gc_batch c = b \<and> gc_status c = st) (gd_cards db))"

definition to_batch :: "gift_db \<Rightarrow> card_batch \<Rightarrow> batch_dto" where
  "to_batch db b = \<lparr>bd_id = show_nat (cb_id b), bd_batch_key = cb_batch_key b,
     bd_platform_key = cb_platform_key b, bd_product_key = cb_product_key b,
     bd_schema_version = cb_schema_version b, bd_fulfillment_key = cb_fulfillment_key b,
     bd_quantity = cb_quantity b, bd_generated_count = cb_generated_count b,
     bd_available_count = count_cards db (cb_id b) CD_issued,
     bd_redeemed_count = count_cards db (cb_id b) CD_redeemed,
     bd_revoked_count = count_cards db (cb_id b) CD_revoked, bd_expires_at = cb_expires_at b,
     bd_status = cb_status b, bd_idempotency_key = cb_idempotency_key b,
     bd_created_by = cb_created_by b, bd_created_at = cb_created_at b,
     bd_closed_at = cb_closed_at b\<rparr>"

record card_dto =
  ca_id :: string
  ca_batch_id :: string
  ca_platform_key :: string
  ca_status :: card_state
  ca_redemption_id :: "string option"
  ca_reserved_until :: "time option"
  ca_redeemed_at :: "time option"
  ca_revoked_at :: "time option"
  ca_created_at :: time
  ca_version :: int

definition to_card :: "gift_card \<Rightarrow> card_dto" where
  "to_card c = \<lparr>ca_id = show_nat (gc_id c), ca_batch_id = show_nat (gc_batch c),
     ca_platform_key = gc_platform_key c, ca_status = gc_status c,
     ca_redemption_id = map_option show_nat (gc_redemption c),
     ca_reserved_until = gc_reserved_until c, ca_redeemed_at = gc_redeemed_at c,
     ca_revoked_at = gc_revoked_at c, ca_created_at = gc_created_at c, ca_version = gc_version c\<rparr>"

record redemption_dto =
  rx_id :: string
  rx_source_kind :: source_kind
  rx_source_id :: string
  rx_platform_key :: string
  rx_subject_type :: string
  rx_subject_id :: string
  rx_schema_version :: string
  rx_fulfillment_key :: string
  rx_payload :: dict
  rx_status :: redemption_state
  rx_idempotency_key :: string
  rx_reserved_until :: "time option"
  rx_committed_at :: "time option"
  rx_cancelled_at :: "time option"
  rx_created_at :: time

definition to_redemption :: "redemption \<Rightarrow> redemption_dto" where
  "to_redemption r = \<lparr>rx_id = show_nat (rm_id r), rx_source_kind = rm_source_kind r,
     rx_source_id = rm_source_id r, rx_platform_key = rm_platform_key r,
     rx_subject_type = rm_subject_type r, rx_subject_id = rm_subject_id r,
     rx_schema_version = rm_schema_version r, rx_fulfillment_key = rm_fulfillment_key r,
     rx_payload = rm_payload r, rx_status = rm_status r,
     rx_idempotency_key = rm_idempotency_key r, rx_reserved_until = rm_reserved_until r,
     rx_committed_at = rm_committed_at r, rx_cancelled_at = rm_cancelled_at r,
     rx_created_at = rm_created_at r\<rparr>"

section \<open>Events\<close>

text \<open>
  The schema of a key lists its fields in order and forbids others; the calls of the program give
  exactly these fields with the right types, so the payload is the given values.
\<close>

definition gift_event_keys :: "string list" where
  "gift_event_keys = [''gift_cards.batch_created.v1'', ''gift_cards.batch_closed.v1'',
     ''gift_cards.provider_purchase_recorded.v1'', ''gift_cards.redemption_reserved.v1'',
     ''gift_cards.redemption_committed.v1'', ''gift_cards.redemption_cancelled.v1'',
     ''gift_cards.card_revoked.v1'']"

definition gift_emit ::
    "gift_ctx \<Rightarrow> string \<Rightarrow> string \<Rightarrow> nat \<Rightarrow> string \<Rightarrow> string \<Rightarrow> dict \<Rightarrow> gift_db \<Rightarrow> exn + gift_db" where
  "gift_emit ctx key aggregate i platform product vals db =
     bindE (outbox_append (gx_schemas ctx) (gd_next_id db + 1) (gx_now ctx)
        \<lparr>ev_id = gd_next_id db, ev_key = key, ev_occurred_at = gx_now ctx,
          ev_producer = ''gift_cards'', ev_aggregate_type = Some aggregate,
          ev_aggregate_id = Some (show_nat i), ev_trace_id = gx_trace_id ctx,
          ev_payload = [(''platform_key'', JStr platform), (''product_key'', JStr product)] @ vals\<rparr>
        (gd_outbox db)) (\<lambda>box.
     Inr (db\<lparr>gd_outbox := box, gd_next_id := gd_next_id db + 2\<rparr>))"

fun kind_text :: "source_kind \<Rightarrow> string" where
  "kind_text SK_internal = ''internal''"
| "kind_text SK_external = ''external''"

fun redemption_text :: "redemption_state \<Rightarrow> string" where
  "redemption_text RE_reserved = ''reserved''"
| "redemption_text RE_committed = ''committed''"
| "redemption_text RE_cancelled = ''cancelled''"
| "redemption_text RE_expired = ''expired''"

definition redemption_values :: "redemption \<Rightarrow> dict" where
  "redemption_values r = [(''redemption_id'', id_json (rm_id r)),
     (''source_kind'', JStr (kind_text (rm_source_kind r))), (''source_id'', JStr (rm_source_id r)),
     (''subject_type'', JStr (rm_subject_type r)), (''subject_id'', JStr (rm_subject_id r)),
     (''status'', JStr (redemption_text (rm_status r)))]"

definition emit_redemption ::
    "gift_ctx \<Rightarrow> string \<Rightarrow> string \<Rightarrow> redemption \<Rightarrow> gift_db \<Rightarrow> exn + gift_db" where
  "emit_redemption ctx key product r db =
     gift_emit ctx key ''gift_card_redemption'' (rm_id r) (rm_platform_key r) product
       (redemption_values r) db"

end
