(* ===== verification/Gift_Cards_Commands.thy ===== *)
theory Gift_Cards_Commands
  imports Gift_Cards_Model
begin

text \<open>
  The commands of \<^verbatim>\<open>inc/capabilities/gift_cards/commands.py\<close>, the queries of \<^verbatim>\<open>queries.py\<close>, the
  diagnostics and the statistics. A reservation is a read, a transaction on the internal cards, a
  call of the platform and a transaction on the external claims; its parts are definitions of
  their own, so that other transactions can come in between.
\<close>

section \<open>Batches and cards\<close>

record generate_input =
  gi_quantity :: int
  gi_product_key :: string
  gi_schema_version :: string
  gi_fulfillment_key :: string
  gi_payload :: dict
  gi_expires_at :: "time option"
  gi_idempotency_key :: string
  gi_platform_key :: string
  gi_batch_key :: "string option"

definition text_range :: "nat \<Rightarrow> string \<Rightarrow> bool" where
  "text_range n s \<longleftrightarrow> 1 \<le> length s \<and> length s \<le> n"

definition generate_input_ok :: "generate_input \<Rightarrow> bool" where
  "generate_input_ok i \<longleftrightarrow> 0 < gi_quantity i \<and> gi_quantity i \<le> 10000
     \<and> text_range 100 (gi_product_key i) \<and> text_range 32 (gi_schema_version i)
     \<and> text_range 200 (gi_fulfillment_key i) \<and> text_range 200 (gi_idempotency_key i)
     \<and> text_range 64 (gi_platform_key i)
     \<and> (case gi_batch_key i of None \<Rightarrow> True | Some k \<Rightarrow> text_range 100 k)"

text \<open>
  Drawing until there are enough distinct digests: the \<open>n\<close>-th random token, the secrets so far with
  their digests.
\<close>

partial_function (option) draw_secrets ::
    "gift_ctx \<Rightarrow> string \<Rightarrow> int \<Rightarrow> nat \<Rightarrow> (string \<times> string) list
      \<Rightarrow> (exn + (string \<times> string) list) option" where
  "draw_secrets ctx platform quantity n acc =
     (if \<not> int (length acc) < quantity then Some (Inr acc)
      else case digest_secret ctx (gx_tokens ctx n) platform of
        Inl e \<Rightarrow> Some (Inl e)
      | Inr d \<Rightarrow>
          if d \<in> snd ` set acc then draw_secrets ctx platform quantity (Suc n) acc
          else draw_secrets ctx platform quantity (Suc n) (acc @ [(gx_tokens ctx n, d)]))"

declare draw_secrets.simps [code]

record batch_result =
  br_batch :: batch_dto
  br_secrets :: "string list option"

definition find_batch_by_key :: "gift_db \<Rightarrow> string \<Rightarrow> card_batch option" where
  "find_batch_by_key db key = find (\<lambda>b. cb_idempotency_key b = key) (gd_batches db)"

definition new_batch :: "gift_ctx \<Rightarrow> generate_input \<Rightarrow> nat \<Rightarrow> card_batch" where
  "new_batch ctx i n = \<lparr>cb_id = n,
     cb_batch_key = (case gi_batch_key i of Some k \<Rightarrow> (if k = [] then ''batch_'' @ gx_batch_token ctx else k)
       | None \<Rightarrow> ''batch_'' @ gx_batch_token ctx),
     cb_platform_key = gi_platform_key i, cb_product_key = gi_product_key i,
     cb_schema_version = gi_schema_version i, cb_fulfillment_key = gi_fulfillment_key i,
     cb_payload = fulfillment_payload (gi_fulfillment_key i) (gi_payload i),
     cb_quantity = gi_quantity i, cb_generated_count = gi_quantity i,
     cb_expires_at = gi_expires_at i, cb_status = BA_active,
     cb_idempotency_key = gi_idempotency_key i, cb_created_by = gx_actor_id ctx,
     cb_closed_at = None, cb_created_at = gx_now ctx\<rparr>"

text \<open>The flush of the batch; a taken key is an exception the command does not handle.\<close>

definition insert_batch :: "card_batch \<Rightarrow> gift_db \<Rightarrow> exn + gift_db" where
  "insert_batch b db =
     bindE (requireE (\<not> list_ex (\<lambda>x. cb_batch_key x = cb_batch_key b
         \<or> cb_idempotency_key x = cb_idempotency_key b) (gd_batches db))
       (PyException ''IntegrityError'')) (\<lambda>_.
     Inr (db\<lparr>gd_batches := gd_batches db @ [b], gd_next_id := Suc (gd_next_id db)\<rparr>))"

definition new_card :: "gift_ctx \<Rightarrow> card_batch \<Rightarrow> nat \<Rightarrow> string \<Rightarrow> gift_card" where
  "new_card ctx b n digest = \<lparr>gc_id = n, gc_batch = cb_id b, gc_platform_key = cb_platform_key b,
     gc_secret_digest = digest, gc_status = CD_issued, gc_redemption = None,
     gc_reserved_until = None, gc_redeemed_at = None, gc_revoked_at = None, gc_version = 1,
     gc_created_at = gx_now ctx\<rparr>"

definition insert_cards :: "gift_ctx \<Rightarrow> card_batch \<Rightarrow> string list \<Rightarrow> gift_db \<Rightarrow> exn + gift_db" where
  "insert_cards ctx b digests db =
     bindE (requireE (distinct digests
         \<and> \<not> list_ex (\<lambda>c. gc_secret_digest c \<in> set digests) (gd_cards db))
       (PyException ''IntegrityError'')) (\<lambda>_.
     Inr (db\<lparr>gd_cards := gd_cards db @ map2 (new_card ctx b)
         [gd_next_id db ..< gd_next_id db + length digests] digests,
       gd_next_id := gd_next_id db + length digests\<rparr>))"

definition store_batch ::
    "gift_ctx \<Rightarrow> card_batch \<Rightarrow> (string \<times> string) list \<Rightarrow> gift_db \<Rightarrow> exn + batch_result \<times> gift_db" where
  "store_batch ctx b drawn db =
     bindE (gift_emit ctx ''gift_cards.batch_created.v1'' ''gift_card_batch'' (cb_id b)
       (cb_platform_key b) (cb_product_key b)
       [(''batch_id'', id_json (cb_id b)), (''batch_key'', JStr (cb_batch_key b)),
        (''quantity'', JInt (cb_quantity b)),
        (''expires_at'', case cb_expires_at b of None \<Rightarrow> JNull | Some t \<Rightarrow> JTime t)] db) (\<lambda>db1.
     bindE (insert_cards ctx b (map snd drawn) db1) (\<lambda>db2.
     Inr (\<lparr>br_batch = to_batch db2 b, br_secrets = Some (map fst drawn)\<rparr>, db2)))"

definition generate_batch ::
    "gift_ctx \<Rightarrow> generate_input \<Rightarrow> gift_db \<Rightarrow> (exn + batch_result \<times> gift_db) option" where
  "generate_batch ctx i db =
     (case gift_require ctx ''gift_cards.batch_generate'' of
        Inl e \<Rightarrow> Some (Inl e)
      | Inr _ \<Rightarrow>
     (case find_batch_by_key db (gi_idempotency_key i) of
        Some b \<Rightarrow> Some (Inr (\<lparr>br_batch = to_batch db b, br_secrets = None\<rparr>, db))
      | None \<Rightarrow>
          let b = new_batch ctx i (gd_next_id db) in
          (case bindE (requireE (case gi_expires_at i of None \<Rightarrow> True | Some t \<Rightarrow> \<not> t \<le> gx_now ctx)
              (gift_validation ''gift_cards.expiry_in_past'')) (\<lambda>_. insert_batch b db) of
             Inl e \<Rightarrow> Some (Inl e)
           | Inr db1 \<Rightarrow>
               (case draw_secrets ctx (gi_platform_key i) (gi_quantity i) 0 [] of
                  None \<Rightarrow> None
                | Some (Inl e) \<Rightarrow> Some (Inl e)
                | Some (Inr drawn) \<Rightarrow> Some (store_batch ctx b drawn db1)))))"

definition close_batch ::
    "gift_ctx \<Rightarrow> string \<Rightarrow> string \<Rightarrow> gift_db \<Rightarrow> exn + batch_dto \<times> gift_db" where
  "close_batch ctx bid reason db =
     bindE (gift_require ctx ''gift_cards.manage'') (\<lambda>_.
     bindE (parse_id bid) (\<lambda>i.
     bindE (someE (batch_by_id db i) (gift_not_found ''gift_cards.batch_not_found'')) (\<lambda>b.
     if cb_status b = BA_closed then Inr (to_batch db b, db)
     else
       bindE (requireE (cb_status b = BA_active) (gift_conflict ''gift_cards.batch_closed'')) (\<lambda>_.
       let b' = b\<lparr>cb_status := BA_closed, cb_closed_at := Some (gx_now ctx)\<rparr> in
       bindE (gift_emit ctx ''gift_cards.batch_closed.v1'' ''gift_card_batch'' (cb_id b')
         (cb_platform_key b') (cb_product_key b')
         [(''batch_id'', id_json (cb_id b')), (''reason'', JStr reason)] (save_batch b' db)) (\<lambda>db1.
       Inr (to_batch db1 b', db1))))))"

definition revoke_card ::
    "gift_ctx \<Rightarrow> string \<Rightarrow> string \<Rightarrow> int \<Rightarrow> gift_db \<Rightarrow> exn + card_dto \<times> gift_db" where
  "revoke_card ctx cid reason expected db =
     bindE (gift_require ctx ''gift_cards.manage'') (\<lambda>_.
     bindE (parse_id cid) (\<lambda>i.
     bindE (someE (card_by_id db i) (gift_not_found ''gift_cards.card_not_found'')) (\<lambda>c.
     bindE (requireE (gc_version c = expected)
       (gift_conflict ''gift_cards.redemption_conflict'')) (\<lambda>_.
     if gc_status c = CD_revoked then Inr (to_card c, db)
     else
       bindE (requireE (gc_status c = CD_issued)
         (gift_conflict ''gift_cards.already_redeemed'')) (\<lambda>_.
       let c' = c\<lparr>gc_status := CD_revoked, gc_revoked_at := Some (gx_now ctx),
             gc_version := gc_version c + 1\<rparr> in
       bindE (someE (batch_by_id db (gc_batch c'))
         (gift_not_found ''gift_cards.batch_not_found'')) (\<lambda>b.
       bindE (gift_emit ctx ''gift_cards.card_revoked.v1'' ''gift_card'' (gc_id c')
         (gc_platform_key c') (cb_product_key b)
         [(''card_id'', id_json (gc_id c')), (''batch_id'', id_json (cb_id b)),
          (''reason'', JStr reason)] (save_card c' db)) (\<lambda>db1.
       Inr (to_card c', db1))))))))"

section \<open>Reserving a redemption\<close>

record reserve_input =
  rv_secret :: string
  rv_subject_type :: string
  rv_subject_id :: string
  rv_idempotency_key :: string
  rv_platform_key :: "string option"

definition reserve_platform :: "gift_ctx \<Rightarrow> reserve_input \<Rightarrow> string" where
  "reserve_platform ctx i = (case rv_platform_key i of
     None \<Rightarrow> gx_default_provider ctx
   | Some k \<Rightarrow> if k = [] then gx_default_provider ctx else k)"

definition find_redemption :: "gift_db \<Rightarrow> string \<Rightarrow> string \<Rightarrow> redemption option" where
  "find_redemption db platform key =
     find (\<lambda>r. rm_platform_key r = platform \<and> rm_idempotency_key r = key) (gd_redemptions db)"

definition reserve_replay ::
    "gift_ctx \<Rightarrow> reserve_input \<Rightarrow> gift_db \<Rightarrow> exn + redemption_dto option" where
  "reserve_replay ctx i db =
     bindE (gift_require ctx ''gift_cards.redeem'') (\<lambda>_.
     case find_redemption db (reserve_platform ctx i) (rv_idempotency_key i) of
       None \<Rightarrow> Inr None
     | Some r \<Rightarrow>
         bindE (requireE (\<not> (rm_subject_type r \<noteq> rv_subject_type i \<or> rm_subject_id r \<noteq> rv_subject_id i))
           (gift_conflict ''gift_cards.idempotency_conflict'')) (\<lambda>_.
         Inr (Some (to_redemption r))))"

definition active_redemption :: "redemption_state \<Rightarrow> bool" where
  "active_redemption st \<longleftrightarrow> st = RE_reserved \<or> st = RE_committed"

text \<open>
  The flush of a redemption: the idempotency key of the platform and, by the partial index
  \<^verbatim>\<open>uq_gift_card_redemption_active_source\<close>, the source of an active redemption are unique.
\<close>

definition insert_redemption :: "redemption \<Rightarrow> gift_db \<Rightarrow> exn + gift_db" where
  "insert_redemption r db =
     bindE (requireE (\<not> list_ex (\<lambda>x. rm_platform_key x = rm_platform_key r
           \<and> rm_idempotency_key x = rm_idempotency_key r
         \<or> active_redemption (rm_status x) \<and> active_redemption (rm_status r)
           \<and> rm_source_kind x = rm_source_kind r \<and> rm_source_id x = rm_source_id r)
         (gd_redemptions db)) (PyException ''IntegrityError'')) (\<lambda>_.
     Inr (db\<lparr>gd_redemptions := gd_redemptions db @ [r], gd_next_id := Suc (gd_next_id db)\<rparr>))"

definition new_redemption ::
    "gift_ctx \<Rightarrow> reserve_input \<Rightarrow> source_kind \<Rightarrow> nat \<Rightarrow> string \<Rightarrow> string \<Rightarrow> dict \<Rightarrow> nat \<Rightarrow> redemption" where
  "new_redemption ctx i kind source version key payload n = \<lparr>rm_id = n, rm_source_kind = kind,
     rm_source_id = show_nat source, rm_platform_key = reserve_platform ctx i,
     rm_subject_type = rv_subject_type i, rm_subject_id = rv_subject_id i,
     rm_schema_version = version, rm_fulfillment_key = key, rm_payload = payload,
     rm_status = RE_reserved, rm_idempotency_key = rv_idempotency_key i,
     rm_reserved_until = Some (gx_now ctx + seconds (gx_reserve_ttl ctx)), rm_committed_at = None,
     rm_cancelled_at = None, rm_created_at = gx_now ctx\<rparr>"

definition find_internal :: "gift_db \<Rightarrow> string \<Rightarrow> string \<Rightarrow> gift_card option" where
  "find_internal db digest platform =
     find (\<lambda>c. gc_secret_digest c = digest \<and> gc_platform_key c = platform) (gd_cards db)"

text \<open>The status the function sets before it raises is lost with the transaction.\<close>

definition expire_if_needed :: "gift_ctx \<Rightarrow> gift_card \<Rightarrow> card_batch \<Rightarrow> exn + unit" where
  "expire_if_needed ctx c b =
     requireE (\<not> ((gc_status c = CD_issued \<or> gc_status c = CD_reserved)
         \<and> (case cb_expires_at b of None \<Rightarrow> False | Some t \<Rightarrow> t \<le> gx_now ctx)))
       (gift_conflict ''gift_cards.expired'')"

text \<open>A reservation that timed out makes the card available again.\<close>

definition release_if_due :: "gift_ctx \<Rightarrow> gift_card \<Rightarrow> exn + gift_card" where
  "release_if_due ctx c =
     (if gc_status c = CD_reserved then
        (if (case gc_reserved_until c of None \<Rightarrow> False | Some t \<Rightarrow> t \<le> gx_now ctx)
         then Inr (c\<lparr>gc_status := CD_issued, gc_redemption := None, gc_reserved_until := None,
           gc_version := gc_version c + 1\<rparr>)
         else Inl (gift_conflict ''gift_cards.redemption_conflict''))
      else Inr c)"

definition reserve_card ::
    "gift_ctx \<Rightarrow> reserve_input \<Rightarrow> gift_card \<Rightarrow> gift_db \<Rightarrow> exn + redemption_dto \<times> gift_db" where
  "reserve_card ctx i c db =
     bindE (someE (batch_by_id db (gc_batch c)) (gift_not_found ''gift_cards.batch_not_found'')) (\<lambda>b.
     bindE (expire_if_needed ctx c b) (\<lambda>_.
     bindE (requireE (gc_status c \<noteq> CD_redeemed) (gift_conflict ''gift_cards.already_redeemed'')) (\<lambda>_.
     bindE (requireE (gc_status c \<noteq> CD_revoked) (gift_conflict ''gift_cards.revoked'')) (\<lambda>_.
     bindE (release_if_due ctx c) (\<lambda>c1.
     bindE (requireE (gc_status c1 = CD_issued) (gift_conflict ''gift_cards.invalid_secret'')) (\<lambda>_.
     let r = new_redemption ctx i SK_internal (gc_id c1) (cb_schema_version b)
           (cb_fulfillment_key b) (cb_payload b) (gd_next_id db) in
     bindE (insert_redemption r db) (\<lambda>db1.
     let c2 = c1\<lparr>gc_status := CD_reserved, gc_redemption := Some (rm_id r),
           gc_reserved_until := rm_reserved_until r, gc_version := gc_version c1 + 1\<rparr> in
     bindE (emit_redemption ctx ''gift_cards.redemption_reserved.v1'' (cb_product_key b) r
       (save_card c2 db1)) (\<lambda>db2.
     Inr (to_redemption r, db2)))))))))"

definition reserve_internal ::
    "gift_ctx \<Rightarrow> reserve_input \<Rightarrow> gift_db \<Rightarrow> exn + (redemption_dto \<times> gift_db) option" where
  "reserve_internal ctx i db =
     bindE (digest_secret ctx (rv_secret i) (reserve_platform ctx i)) (\<lambda>digest.
     case find_internal db digest (reserve_platform ctx i) of
       None \<Rightarrow> Inr None
     | Some c \<Rightarrow> bindE (reserve_card ctx i c db) (\<lambda>r. Inr (Some r)))"

definition lookup_purchase :: "gift_ctx \<Rightarrow> reserve_input \<Rightarrow> exn + purchase_fact" where
  "lookup_purchase ctx i =
     bindE (case dget (gx_platforms ctx) (reserve_platform ctx i) of
         Some p \<Rightarrow> Inr p
       | None \<Rightarrow> Inl (if reserve_platform ctx i \<noteq> ''card_platform'' then provider_unavailable
                     else gift_validation ''gift_cards.invalid_secret'')) (\<lambda>p.
     bindE (case gp_lookup p (rv_secret i) of
         Inr f \<Rightarrow> Inr f
       | Inl (KernelError c cat) \<Rightarrow> Inl (KernelError c cat)
       | Inl (PyException _) \<Rightarrow> Inl provider_unavailable) (\<lambda>f.
     bindE (requireE (pf_paid f) (gift_conflict ''gift_cards.provider_not_paid'')) (\<lambda>_. Inr f)))"

definition find_claim :: "gift_db \<Rightarrow> string \<Rightarrow> string \<Rightarrow> external_claim option" where
  "find_claim db platform digest =
     find (\<lambda>x. xc_platform_key x = platform \<and> xc_order_digest x = digest) (gd_claims db)"

text \<open>A claim made of a fact: platform, digest of the order, the id, and the fact.\<close>

definition claim_of :: "gift_ctx \<Rightarrow> string \<Rightarrow> string \<Rightarrow> nat \<Rightarrow> purchase_fact \<Rightarrow> external_claim" where
  "claim_of ctx platform digest n f = \<lparr>xc_id = n, xc_platform_key = platform,
     xc_order_digest = digest, xc_product_key = pf_product_key f,
     xc_schema_version = pf_schema_version f, xc_fulfillment_key = pf_fulfillment_key f,
     xc_payload = fulfillment_payload (pf_fulfillment_key f) (pf_payload f),
     xc_fact_digest = gx_sha256 ctx (pf_provider_fact_id f), xc_provider_status = ''paid'',
     xc_verified_at = gx_now ctx, xc_expires_at = pf_expires_at f, xc_redemption = None\<rparr>"

definition insert_claim :: "external_claim \<Rightarrow> gift_db \<Rightarrow> gift_db" where
  "insert_claim x db = db\<lparr>gd_claims := gd_claims db @ [x], gd_next_id := Suc (gd_next_id db)\<rparr>"

definition reserve_external ::
    "gift_ctx \<Rightarrow> reserve_input \<Rightarrow> purchase_fact \<Rightarrow> gift_db \<Rightarrow> exn + redemption_dto \<times> gift_db" where
  "reserve_external ctx i f db =
     (let platform = reserve_platform ctx i in
      bindE (digest_secret ctx (pf_external_order_id f) platform) (\<lambda>digest.
      bindE (case find_claim db platform digest of
          None \<Rightarrow> (let x = claim_of ctx platform digest (gd_next_id db) f in Inr (x, insert_claim x db))
        | Some x \<Rightarrow> bindE (requireE (xc_redemption x = None)
            (gift_conflict ''gift_cards.already_redeemed'')) (\<lambda>_. Inr (x, db))) (\<lambda>(x, db1).
      bindE (requireE (\<not> (case xc_expires_at x of None \<Rightarrow> False | Some t \<Rightarrow> t \<le> gx_now ctx))
        (gift_conflict ''gift_cards.expired'')) (\<lambda>_.
      bindE (requireE (xc_product_key x = pf_product_key f)
        (gift_conflict ''gift_cards.product_not_eligible'')) (\<lambda>_.
      let r = new_redemption ctx i SK_external (xc_id x) (xc_schema_version x)
            (xc_fulfillment_key x) (xc_payload x) (gd_next_id db1) in
      bindE (insert_redemption r db1) (\<lambda>db2.
      bindE (emit_redemption ctx ''gift_cards.redemption_reserved.v1'' (xc_product_key x) r
        (save_claim (x\<lparr>xc_redemption := Some (rm_id r)\<rparr>) db2)) (\<lambda>db3.
      Inr (to_redemption r, db3))))))))"

definition reserve_redemption ::
    "gift_ctx \<Rightarrow> reserve_input \<Rightarrow> gift_db \<Rightarrow> exn + redemption_dto \<times> gift_db" where
  "reserve_redemption ctx i db =
     bindE (reserve_replay ctx i db) (\<lambda>replay. case replay of
       Some dto \<Rightarrow> Inr (dto, db)
     | None \<Rightarrow>
         bindE (reserve_internal ctx i db) (\<lambda>internal. case internal of
           Some res \<Rightarrow> Inr res
         | None \<Rightarrow> bindE (lookup_purchase ctx i) (\<lambda>f. reserve_external ctx i f db)))"

section \<open>Committing and cancelling\<close>

definition redemption_missing :: exn where
  "redemption_missing = gift_not_found ''gift_cards.redemption_not_found''"

text \<open>The source follows the redemption: the card is redeemed, the claim keeps its redemption.\<close>

definition redeem_source :: "redemption \<Rightarrow> gift_db \<Rightarrow> exn + gift_db" where
  "redeem_source r db =
     bindE (parse_id (rm_source_id r)) (\<lambda>i.
     case rm_source_kind r of
       SK_internal \<Rightarrow>
         bindE (someE (card_by_id db i) (gift_not_found ''gift_cards.card_not_found'')) (\<lambda>c.
         Inr (save_card (c\<lparr>gc_status := CD_redeemed, gc_redeemed_at := rm_committed_at r,
           gc_reserved_until := None, gc_version := gc_version c + 1\<rparr>) db))
     | SK_external \<Rightarrow>
         (case claim_by_id db i of
            None \<Rightarrow> Inr db
          | Some x \<Rightarrow> Inr (save_claim (x\<lparr>xc_redemption := Some (rm_id r)\<rparr>) db)))"

definition source_product :: "redemption \<Rightarrow> gift_db \<Rightarrow> string" where
  "source_product r db = (case rm_source_kind r of
     SK_external \<Rightarrow> ''external''
   | SK_internal \<Rightarrow>
       (case Option.bind (Option.bind (read_id (rm_source_id r)) (card_by_id db))
           (\<lambda>c. batch_by_id db (gc_batch c)) of
          None \<Rightarrow> ''internal'' | Some b \<Rightarrow> cb_product_key b))"

definition commit_redemption ::
    "gift_ctx \<Rightarrow> string \<Rightarrow> string \<Rightarrow> gift_db \<Rightarrow> exn + redemption_dto \<times> gift_db" where
  "commit_redemption ctx rid key db =
     bindE (gift_require ctx ''gift_cards.redeem'') (\<lambda>_.
     bindE (parse_id rid) (\<lambda>i.
     bindE (someE (redemption_by_id db i) redemption_missing) (\<lambda>r.
     if rm_status r = RE_committed then
       bindE (requireE (rm_idempotency_key r = key)
         (gift_conflict ''gift_cards.idempotency_conflict'')) (\<lambda>_.
       Inr (to_redemption r, db))
     else
       bindE (requireE (rm_status r = RE_reserved)
         (gift_conflict ''gift_cards.redemption_conflict'')) (\<lambda>_.
       bindE (requireE (\<not> (case rm_reserved_until r of None \<Rightarrow> False | Some t \<Rightarrow> t \<le> gx_now ctx))
         (gift_conflict ''gift_cards.expired'')) (\<lambda>_.
       bindE (requireE (rm_idempotency_key r = key)
         (gift_conflict ''gift_cards.idempotency_conflict'')) (\<lambda>_.
       let r' = r\<lparr>rm_status := RE_committed, rm_committed_at := Some (gx_now ctx)\<rparr> in
       bindE (redeem_source r' (save_redemption r' db)) (\<lambda>db1.
       bindE (emit_redemption ctx ''gift_cards.redemption_committed.v1'' (source_product r' db1) r' db1) (\<lambda>db2.
       Inr (to_redemption r', db2)))))))))"

definition release_source :: "redemption \<Rightarrow> gift_db \<Rightarrow> exn + gift_db" where
  "release_source r db =
     bindE (parse_id (rm_source_id r)) (\<lambda>i.
     case rm_source_kind r of
       SK_internal \<Rightarrow>
         (case card_by_id db i of
            None \<Rightarrow> Inr db
          | Some c \<Rightarrow>
              if gc_status c = CD_reserved
              then Inr (save_card (c\<lparr>gc_status := CD_issued, gc_redemption := None,
                gc_reserved_until := None, gc_version := gc_version c + 1\<rparr>) db)
              else Inr db)
     | SK_external \<Rightarrow>
         (case claim_by_id db i of
            None \<Rightarrow> Inr db
          | Some x \<Rightarrow> Inr (save_claim (x\<lparr>xc_redemption := None\<rparr>) db)))"

definition cancel_redemption ::
    "gift_ctx \<Rightarrow> string \<Rightarrow> gift_db \<Rightarrow> exn + redemption_dto \<times> gift_db" where
  "cancel_redemption ctx rid db =
     bindE (gift_require ctx ''gift_cards.redeem'') (\<lambda>_.
     bindE (parse_id rid) (\<lambda>i.
     bindE (someE (redemption_by_id db i) redemption_missing) (\<lambda>r.
     if rm_status r = RE_cancelled then Inr (to_redemption r, db)
     else
       bindE (requireE (rm_status r = RE_reserved)
         (gift_conflict ''gift_cards.redemption_conflict'')) (\<lambda>_.
       let r' = r\<lparr>rm_status := RE_cancelled, rm_cancelled_at := Some (gx_now ctx)\<rparr> in
       bindE (release_source r' (save_redemption r' db)) (\<lambda>db1.
       bindE (emit_redemption ctx ''gift_cards.redemption_cancelled.v1''
         (if rm_source_kind r' = SK_external then ''external'' else ''internal'') r' db1) (\<lambda>db2.
       Inr (to_redemption r', db2)))))))"

section \<open>Provider purchases\<close>

record purchase_input =
  pi_fact :: purchase_fact
  pi_batch_id :: "string option"

definition purchase_input_ok :: "purchase_input \<Rightarrow> bool" where
  "purchase_input_ok p = (let f = pi_fact p in
     text_range 64 (pf_platform_key f) \<and> text_range 500 (pf_external_order_id f)
     \<and> text_range 200 (pf_provider_fact_id f) \<and> text_range 100 (pf_product_key f)
     \<and> text_range 32 (pf_schema_version f) \<and> text_range 200 (pf_fulfillment_key f)
     \<and> text_range 200 (pf_idempotency_key f) \<and> 0 < pf_quantity f \<and> pf_quantity f \<le> 10000)"

record purchase_result =
  px_duplicate :: bool
  px_claim_id :: string
  px_allocated :: "string list"

text \<open>The cards a purchase names, which it does not mark.\<close>

definition available_cards :: "gift_db \<Rightarrow> nat \<Rightarrow> string \<Rightarrow> gift_card list" where
  "available_cards db b product = filter (\<lambda>c. gc_batch c = b \<and> gc_status c = CD_issued
     \<and> list_ex (\<lambda>x. cb_id x = gc_batch c \<and> cb_product_key x = product) (gd_batches db)) (gd_cards db)"

definition allocate_cards :: "purchase_input \<Rightarrow> gift_db \<Rightarrow> exn + string list" where
  "allocate_cards p db = (case pi_batch_id p of
     None \<Rightarrow> Inr []
   | Some b \<Rightarrow>
       if b = [] then Inr []
       else bindE (parse_id b) (\<lambda>i.
         let cards = take (nat (pf_quantity (pi_fact p)))
           (available_cards db i (pf_product_key (pi_fact p))) in
         bindE (requireE (int (length cards) = pf_quantity (pi_fact p))
           (gift_conflict ''gift_cards.product_not_eligible'')) (\<lambda>_.
         Inr (map (\<lambda>c. show_nat (gc_id c)) cards))))"

definition record_purchase ::
    "gift_ctx \<Rightarrow> purchase_input \<Rightarrow> gift_db \<Rightarrow> exn + purchase_result \<times> gift_db" where
  "record_purchase ctx p db =
     (let f = pi_fact p in
      bindE (gift_require ctx ''gift_cards.reconcile'') (\<lambda>_.
      bindE (requireE (pf_paid f) (gift_conflict ''gift_cards.provider_not_paid'')) (\<lambda>_.
      bindE (digest_secret ctx (pf_external_order_id f) (pf_platform_key f)) (\<lambda>digest.
      case find_claim db (pf_platform_key f) digest of
        Some x \<Rightarrow> Inr (\<lparr>px_duplicate = True, px_claim_id = show_nat (xc_id x), px_allocated = []\<rparr>, db)
      | None \<Rightarrow>
          let x = claim_of ctx (pf_platform_key f) digest (gd_next_id db) f; db1 = insert_claim x db in
          bindE (allocate_cards p db1) (\<lambda>ids.
          bindE (gift_emit ctx ''gift_cards.provider_purchase_recorded.v1''
            ''gift_card_external_claim'' (xc_id x) (xc_platform_key x) (xc_product_key x)
            [(''claim_id'', id_json (xc_id x)), (''provider_fact_digest'', JStr (xc_fact_digest x)),
             (''external_order_digest'', JStr (xc_order_digest x)),
             (''quantity'', JInt (pf_quantity f))] db1) (\<lambda>db2.
          Inr (\<lparr>px_duplicate = False, px_claim_id = show_nat (xc_id x), px_allocated = ids\<rparr>, db2)))))))"

text \<open>The acknowledgement comes after the commit; its exception leaves the claim recorded.\<close>

definition record_webhook ::
    "gift_ctx \<Rightarrow> string \<Rightarrow> gift_webhook_request \<Rightarrow> gift_db \<Rightarrow> (exn + purchase_result) \<times> gift_db" where
  "record_webhook ctx provider_key req db =
     (case bindE (gift_require ctx ''gift_cards.reconcile'') (\<lambda>_.
         bindE (someE (dget (gx_platforms ctx) provider_key)
           (gift_validation ''gift_cards.unknown_provider'')) (\<lambda>prov.
         bindE (case gp_verify_webhook prov req of
             Inr f \<Rightarrow> Inr f
           | Inl (KernelError c cat) \<Rightarrow> Inl (KernelError c cat)
           | Inl (PyException _) \<Rightarrow> Inl (gift_validation ''gift_cards.webhook_invalid'')) (\<lambda>f.
         let p = \<lparr>pi_fact = f\<lparr>pf_idempotency_key := (if pf_idempotency_key f = []
               then pf_provider_fact_id f else pf_idempotency_key f)\<rparr>, pi_batch_id = None\<rparr> in
         bindE (requireE (purchase_input_ok p) (PyException ''ValidationError'')) (\<lambda>_.
         Inr (prov, f, p))))) of
        Inl e \<Rightarrow> (Inl e, db)
      | Inr (prov, f, p) \<Rightarrow>
          bindS (transact (record_purchase ctx p db) db) (\<lambda>res db1.
          (case gp_acknowledge prov f of Inl e \<Rightarrow> (Inl e, db1) | Inr _ \<Rightarrow> (Inr res, db1))))"

section \<open>Queries, diagnostics and statistics\<close>

definition if_truthy :: "string option \<Rightarrow> string \<Rightarrow> bool" where
  "if_truthy v x = (case v of None \<Rightarrow> True | Some s \<Rightarrow> s = [] \<or> x = s)"

definition list_batches ::
    "string option \<Rightarrow> string option \<Rightarrow> batch_state option \<Rightarrow> int \<Rightarrow> int \<Rightarrow> gift_db
      \<Rightarrow> exn + batch_dto result_page" where
  "list_batches platform product st page n db =
     bindE (fetch_page (sort_key (\<lambda>b. (- cb_created_at b, - int (cb_id b)))
       (filter (\<lambda>b. if_truthy platform (cb_platform_key b) \<and> if_truthy product (cb_product_key b)
         \<and> (case st of None \<Rightarrow> True | Some s \<Rightarrow> cb_status b = s)) (gd_batches db))) page n) (\<lambda>p.
     Inr \<lparr>page_items = map (to_batch db) (page_items p), page_total = page_total p,
       page_number = page_number p, page_size = page_size p\<rparr>)"

definition get_batch :: "gift_db \<Rightarrow> string \<Rightarrow> exn + batch_dto option" where
  "get_batch db bid = bindE (parse_id bid) (\<lambda>i. Inr (map_option (to_batch db) (batch_by_id db i)))"

definition list_cards :: "string \<Rightarrow> int \<Rightarrow> int \<Rightarrow> gift_db \<Rightarrow> exn + card_dto result_page" where
  "list_cards bid page n db =
     bindE (parse_id bid) (\<lambda>i.
     bindE (fetch_page (sort_key (\<lambda>c. (gc_created_at c, gc_id c))
       (filter (\<lambda>c. gc_batch c = i) (gd_cards db))) page n) (\<lambda>p.
     Inr \<lparr>page_items = map to_card (page_items p), page_total = page_total p,
       page_number = page_number p, page_size = page_size p\<rparr>))"

definition get_redemption :: "gift_db \<Rightarrow> string \<Rightarrow> exn + redemption_dto option" where
  "get_redemption db rid =
     bindE (parse_id rid) (\<lambda>i. Inr (map_option to_redemption (redemption_by_id db i)))"

record verify_dto =
  vf_valid :: bool
  vf_platform_key :: "string option"
  vf_product_key :: "string option"
  vf_schema_version :: "string option"
  vf_fulfillment_key :: "string option"
  vf_expires_at :: "time option"
  vf_reason :: "string option"

definition invalid_card :: "string \<Rightarrow> verify_dto" where
  "invalid_card reason = \<lparr>vf_valid = False, vf_platform_key = None, vf_product_key = None,
     vf_schema_version = None, vf_fulfillment_key = None, vf_expires_at = None,
     vf_reason = Some reason\<rparr>"

fun unavailable_reason :: "card_state \<Rightarrow> string" where
  "unavailable_reason CD_reserved = ''reserved''"
| "unavailable_reason CD_redeemed = ''already_redeemed''"
| "unavailable_reason CD_revoked = ''revoked''"
| "unavailable_reason CD_expired = ''expired''"
| "unavailable_reason CD_issued = ''invalid''"

definition verify_card :: "gift_ctx \<Rightarrow> string \<Rightarrow> string \<Rightarrow> gift_db \<Rightarrow> exn + verify_dto" where
  "verify_card ctx secret platform db =
     bindE (digest_secret ctx secret platform) (\<lambda>digest.
     Inr (case find_internal db digest platform of
        None \<Rightarrow> invalid_card ''invalid''
      | Some c \<Rightarrow>
          (case batch_by_id db (gc_batch c) of
             None \<Rightarrow> invalid_card ''invalid''
           | Some b \<Rightarrow>
               if (case cb_expires_at b of None \<Rightarrow> False | Some t \<Rightarrow> t \<le> gx_now ctx)
               then invalid_card ''expired''
               else if gc_status c \<noteq> CD_issued then invalid_card (unavailable_reason (gc_status c))
               else \<lparr>vf_valid = True, vf_platform_key = Some platform,
                 vf_product_key = Some (cb_product_key b),
                 vf_schema_version = Some (cb_schema_version b),
                 vf_fulfillment_key = Some (cb_fulfillment_key b),
                 vf_expires_at = cb_expires_at b, vf_reason = None\<rparr>)))"

definition expired_pending :: "time \<Rightarrow> gift_db \<Rightarrow> nat" where
  "expired_pending now db = length (filter (\<lambda>c. (gc_status c = CD_issued \<or> gc_status c = CD_reserved)
     \<and> list_ex (\<lambda>b. cb_id b = gc_batch c \<and> (case cb_expires_at b of None \<Rightarrow> False | Some t \<Rightarrow> t \<le> now))
         (gd_batches db)) (gd_cards db))"

definition gift_statistics :: "gift_db \<Rightarrow> nat \<times> nat \<times> nat" where
  "gift_statistics db = (length (gd_batches db), length (gd_cards db),
     length (filter (\<lambda>c. gc_status c = CD_issued) (gd_cards db)))"

end
