(* ===== verification/Gift_Cards_Invariant.thy ===== *)
theory Gift_Cards_Invariant
  imports Gift_Cards_Commands
begin

text \<open>
  The transactions of the gift cards as a step relation, and what they keep: the abstract machine of
  the links between cards, claims and redemptions, which every transaction refines, and the key
  columns of the tables.
\<close>

section \<open>Transactions\<close>

text \<open>
  The two transactions of a reservation are steps of their own: between the lookup at the platform
  and the transaction on the claims any other transaction can come.
\<close>

inductive gift_step :: "gift_db \<Rightarrow> gift_db \<Rightarrow> bool" where
  gs_generate: "generate_input_ok i \<Longrightarrow> generate_batch ctx i db = Some (Inr (res, db'))
     \<Longrightarrow> gift_step db db'"
| gs_close: "close_batch ctx bid reason db = Inr (bd, db') \<Longrightarrow> gift_step db db'"
| gs_revoke: "revoke_card ctx cid reason v db = Inr (cd, db') \<Longrightarrow> gift_step db db'"
| gs_reserve_internal: "reserve_internal ctx ri db = Inr (Some (rd, db')) \<Longrightarrow> gift_step db db'"
| gs_reserve_external: "reserve_external ctx ri f db = Inr (rd, db') \<Longrightarrow> gift_step db db'"
| gs_commit: "commit_redemption ctx rid key db = Inr (rd, db') \<Longrightarrow> gift_step db db'"
| gs_cancel: "cancel_redemption ctx rid db = Inr (rd, db') \<Longrightarrow> gift_step db db'"
| gs_purchase: "record_purchase ctx p db = Inr (pd, db') \<Longrightarrow> gift_step db db'"
| gs_dispatch: "map om_envelope box = map om_envelope (gd_outbox db)
     \<Longrightarrow> gift_step db (db\<lparr>gd_outbox := box\<rparr>)"

abbreviation gift_steps :: "gift_db \<Rightarrow> gift_db \<Rightarrow> bool" where
  "gift_steps \<equiv> gift_step\<^sup>*\<^sup>*"

text \<open>The composed commands are made of these steps.\<close>

lemma reserve_redemption_steps:
  "reserve_redemption ctx i db = Inr (dto, db') \<Longrightarrow> gift_steps db db'"
  by (auto simp: reserve_redemption_def cmd_ok split: option.splits
      dest!: gs_reserve_internal gs_reserve_external)

lemma record_webhook_steps: "gift_steps db (snd (record_webhook ctx key req db))"
proof -
  have "gift_steps db (snd (transact (record_purchase ctx p db) db))" for p
    using transact_state[of "record_purchase ctx p db" db] by (auto intro: gs_purchase)
  then show ?thesis
    by (auto simp: record_webhook_def bindS_def split: sum.splits prod.splits) (metis snd_conv)+
qed

section \<open>The links between the tables\<close>

definition card_link :: "(nat \<Rightarrow> redemption option) \<Rightarrow> gift_card \<Rightarrow> bool" where
  "card_link R c = (case gc_redemption c of
     None \<Rightarrow> gc_status c = CD_issued \<or> gc_status c = CD_revoked
   | Some j \<Rightarrow> (case R j of None \<Rightarrow> False | Some r \<Rightarrow>
       rm_source_kind r = SK_internal \<and> rm_source_id r = show_nat (gc_id c)
       \<and> (gc_status c = CD_reserved \<and> rm_status r = RE_reserved
            \<and> gc_reserved_until c = rm_reserved_until r
          \<or> gc_status c = CD_redeemed \<and> rm_status r = RE_committed)))"

definition claim_link :: "(nat \<Rightarrow> redemption option) \<Rightarrow> external_claim \<Rightarrow> bool" where
  "claim_link R x = (case xc_redemption x of
     None \<Rightarrow> True
   | Some j \<Rightarrow> (case R j of None \<Rightarrow> False | Some r \<Rightarrow>
       rm_source_kind r = SK_external \<and> rm_source_id r = show_nat (xc_id x)
       \<and> active_redemption (rm_status r)))"

definition redemption_link ::
    "(nat \<Rightarrow> gift_card option) \<Rightarrow> (nat \<Rightarrow> external_claim option) \<Rightarrow> redemption \<Rightarrow> bool" where
  "redemption_link C X r \<longleftrightarrow> rm_status r \<noteq> RE_expired
     \<and> (active_redemption (rm_status r) \<longrightarrow>
         (case rm_source_kind r of
            SK_internal \<Rightarrow> (\<exists>i c. C i = Some c \<and> rm_source_id r = show_nat i
              \<and> gc_redemption c = Some (rm_id r))
          | SK_external \<Rightarrow> (\<exists>i x. X i = Some x \<and> rm_source_id r = show_nat i
              \<and> xc_redemption x = Some (rm_id r))))"

type_synonym gift_view =
  "(nat \<Rightarrow> gift_card option) \<times> (nat \<Rightarrow> external_claim option) \<times> (nat \<Rightarrow> redemption option)"

fun linked :: "gift_view \<Rightarrow> bool" where
  "linked (C, X, R) \<longleftrightarrow> (\<forall>i c. C i = Some c \<longrightarrow> gc_id c = i \<and> card_link R c)
     \<and> (\<forall>i x. X i = Some x \<longrightarrow> xc_id x = i \<and> claim_link R x)
     \<and> (\<forall>j r. R j = Some r \<longrightarrow> rm_id r = j \<and> redemption_link C X r)"

definition gift_view :: "gift_db \<Rightarrow> gift_view" where
  "gift_view db = (card_by_id db, claim_by_id db, redemption_by_id db)"

text \<open>What a transaction may do to the three maps.\<close>

definition source_free :: "(nat \<Rightarrow> redemption option) \<Rightarrow> source_kind \<Rightarrow> nat \<Rightarrow> bool" where
  "source_free R kind i \<longleftrightarrow> (\<forall>j r. R j = Some r \<longrightarrow> active_redemption (rm_status r)
     \<longrightarrow> \<not> (rm_source_kind r = kind \<and> rm_source_id r = show_nat i))"

inductive link_step :: "gift_view \<Rightarrow> gift_view \<Rightarrow> bool" where
  ls_cards: "(\<And>i c. C i = Some c \<Longrightarrow> C' i = Some c)
    \<Longrightarrow> (\<And>i c. C i = None \<Longrightarrow> C' i = Some c \<Longrightarrow> gc_id c = i \<and> gc_status c = CD_issued
        \<and> gc_redemption c = None)
    \<Longrightarrow> link_step (C, X, R) (C', X, R)"
| ls_claim: "X i = None \<Longrightarrow> xc_id x = i \<Longrightarrow> xc_redemption x = None
    \<Longrightarrow> link_step (C, X, R) (C, X(i \<mapsto> x), R)"
| ls_revoke: "C i = Some c \<Longrightarrow> gc_status c = CD_issued
    \<Longrightarrow> c' = c\<lparr>gc_status := CD_revoked, gc_revoked_at := t, gc_version := v\<rparr>
    \<Longrightarrow> link_step (C, X, R) (C(i \<mapsto> c'), X, R)"
| ls_reserve_card: "C i = Some c \<Longrightarrow> gc_status c = CD_issued \<Longrightarrow> R j = None
    \<Longrightarrow> source_free R SK_internal i \<Longrightarrow> rm_id r = j \<Longrightarrow> rm_source_kind r = SK_internal
    \<Longrightarrow> rm_source_id r = show_nat i \<Longrightarrow> rm_status r = RE_reserved
    \<Longrightarrow> c' = c\<lparr>gc_status := CD_reserved, gc_redemption := Some j,
          gc_reserved_until := rm_reserved_until r, gc_version := v\<rparr>
    \<Longrightarrow> link_step (C, X, R) (C(i \<mapsto> c'), X, R(j \<mapsto> r))"
| ls_reserve_claim: "X i = Some x \<Longrightarrow> xc_redemption x = None \<Longrightarrow> R j = None
    \<Longrightarrow> source_free R SK_external i \<Longrightarrow> rm_id r = j \<Longrightarrow> rm_source_kind r = SK_external
    \<Longrightarrow> rm_source_id r = show_nat i \<Longrightarrow> rm_status r = RE_reserved
    \<Longrightarrow> x' = x\<lparr>xc_redemption := Some j\<rparr>
    \<Longrightarrow> link_step (C, X, R) (C, X(i \<mapsto> x'), R(j \<mapsto> r))"
| ls_commit_card: "R j = Some r \<Longrightarrow> rm_status r = RE_reserved \<Longrightarrow> rm_source_kind r = SK_internal
    \<Longrightarrow> C i = Some c \<Longrightarrow> gc_redemption c = Some j
    \<Longrightarrow> r' = r\<lparr>rm_status := RE_committed, rm_committed_at := t\<rparr>
    \<Longrightarrow> c' = c\<lparr>gc_status := CD_redeemed, gc_redeemed_at := t, gc_reserved_until := None,
          gc_version := v\<rparr>
    \<Longrightarrow> link_step (C, X, R) (C(i \<mapsto> c'), X, R(j \<mapsto> r'))"
| ls_commit_claim: "R j = Some r \<Longrightarrow> rm_status r = RE_reserved \<Longrightarrow> rm_source_kind r = SK_external
    \<Longrightarrow> r' = r\<lparr>rm_status := RE_committed, rm_committed_at := t\<rparr>
    \<Longrightarrow> link_step (C, X, R) (C, X, R(j \<mapsto> r'))"
| ls_cancel_card: "R j = Some r \<Longrightarrow> rm_status r = RE_reserved \<Longrightarrow> rm_source_kind r = SK_internal
    \<Longrightarrow> C i = Some c \<Longrightarrow> gc_redemption c = Some j
    \<Longrightarrow> r' = r\<lparr>rm_status := RE_cancelled, rm_cancelled_at := t\<rparr>
    \<Longrightarrow> c' = c\<lparr>gc_status := CD_issued, gc_redemption := None, gc_reserved_until := None,
          gc_version := v\<rparr>
    \<Longrightarrow> link_step (C, X, R) (C(i \<mapsto> c'), X, R(j \<mapsto> r'))"
| ls_cancel_claim: "R j = Some r \<Longrightarrow> rm_status r = RE_reserved \<Longrightarrow> rm_source_kind r = SK_external
    \<Longrightarrow> X i = Some x \<Longrightarrow> xc_redemption x = Some j
    \<Longrightarrow> r' = r\<lparr>rm_status := RE_cancelled, rm_cancelled_at := t\<rparr>
    \<Longrightarrow> x' = x\<lparr>xc_redemption := None\<rparr>
    \<Longrightarrow> link_step (C, X, R) (C, X(i \<mapsto> x'), R(j \<mapsto> r'))"

abbreviation link_steps :: "gift_view \<Rightarrow> gift_view \<Rightarrow> bool" where
  "link_steps \<equiv> link_step\<^sup>*\<^sup>*"

lemma card_link_unused:
  "card_link R c \<Longrightarrow> gc_redemption c \<noteq> Some j \<Longrightarrow> card_link (R(j \<mapsto> r)) c"
  by (auto simp: card_link_def split: option.splits)

lemma claim_link_unused:
  "claim_link R x \<Longrightarrow> xc_redemption x \<noteq> Some j \<Longrightarrow> claim_link (R(j \<mapsto> r)) x"
  by (auto simp: claim_link_def split: option.splits)

lemma redemption_link_card:
  assumes "redemption_link C X q" and "C i = Some c"
    and "gc_redemption c = Some (rm_id q) \<Longrightarrow> gc_redemption c' = Some (rm_id q)"
  shows "redemption_link (C(i \<mapsto> c')) X q"
  using assms by (fastforce simp: redemption_link_def split: source_kind.splits)

lemma redemption_link_claim:
  assumes "redemption_link C X q" and "X i = Some x"
    and "xc_redemption x = Some (rm_id q) \<Longrightarrow> xc_redemption x' = Some (rm_id q)"
  shows "redemption_link C (X(i \<mapsto> x')) q"
  using assms by (fastforce simp: redemption_link_def split: source_kind.splits)

lemma card_link_free: "card_link R c \<Longrightarrow> gc_status c = CD_issued \<Longrightarrow> gc_redemption c = None"
  by (auto simp: card_link_def split: option.splits)

lemma card_link_Some:
  assumes "card_link R c" and "gc_redemption c = Some j"
  obtains r where "R j = Some r" and "rm_source_kind r = SK_internal"
    and "rm_source_id r = show_nat (gc_id c)"
    and "gc_status c = CD_reserved \<and> rm_status r = RE_reserved
        \<and> gc_reserved_until c = rm_reserved_until r
      \<or> gc_status c = CD_redeemed \<and> rm_status r = RE_committed"
  using assms by (auto simp: card_link_def split: option.splits)

lemma claim_link_Some:
  assumes "claim_link R x" and "xc_redemption x = Some j"
  obtains r where "R j = Some r" and "rm_source_kind r = SK_external"
    and "rm_source_id r = show_nat (xc_id x)" and "active_redemption (rm_status r)"
  using assms by (auto simp: claim_link_def split: option.splits)

lemma card_link_source:
  "card_link R c \<Longrightarrow> gc_redemption c = Some j \<Longrightarrow> R j = Some r \<Longrightarrow> rm_source_id r = show_nat (gc_id c)"
  by (simp add: card_link_def)

lemma claim_link_source:
  "claim_link R x \<Longrightarrow> xc_redemption x = Some j \<Longrightarrow> R j = Some r \<Longrightarrow> rm_source_id r = show_nat (xc_id x)"
  by (simp add: claim_link_def)

text \<open>Both ends of a link change together, everything else keeps its links.\<close>

lemma linked_card_update:
  assumes l: "linked (C, X, R)" and c: "C i = Some c" "gc_id c' = i"
    and j: "\<And>k. k \<noteq> j \<Longrightarrow> gc_redemption c = Some k \<Longrightarrow> gc_redemption c' = Some k"
    and r: "rm_id r = j" "rm_source_kind r = SK_internal"
    and kind: "\<And>q. R j = Some q \<Longrightarrow> rm_source_kind q = SK_internal \<and> rm_source_id q = show_nat i"
    and new: "card_link (R(j \<mapsto> r)) c'" "redemption_link (C(i \<mapsto> c')) X r"
  shows "linked (C(i \<mapsto> c'), X, R(j \<mapsto> r))"
proof -
  have "card_link (R(j \<mapsto> r)) d" if "C k = Some d" "k \<noteq> i" for k d
  proof (rule card_link_unused)
    from l that show d: "card_link R d" by simp
    show "gc_redemption d \<noteq> Some j"
    proof
      assume "gc_redemption d = Some j"
      from card_link_Some[OF d this] obtain q where "R j = Some q" "rm_source_id q = show_nat (gc_id d)"
        by blast
      with kind l that show False by auto
    qed
  qed
  moreover have "claim_link (R(j \<mapsto> r)) x" if "X k = Some x" for k x
  proof (rule claim_link_unused)
    from l that show x: "claim_link R x" by simp
    show "xc_redemption x \<noteq> Some j"
    proof
      assume "xc_redemption x = Some j"
      from claim_link_Some[OF x this] obtain q where "R j = Some q" "rm_source_kind q = SK_external"
        by blast
      with kind show False by auto
    qed
  qed
  moreover have "redemption_link (C(i \<mapsto> c')) X q" if "R k = Some q" "k \<noteq> j" for k q
    using redemption_link_card[of C X q i c c'] that l c(1) j[of k] by auto
  ultimately show ?thesis using l c r new by auto
qed

lemma linked_claim_update:
  assumes l: "linked (C, X, R)" and x: "X i = Some x" "xc_id x' = i"
    and j: "\<And>k. k \<noteq> j \<Longrightarrow> xc_redemption x = Some k \<Longrightarrow> xc_redemption x' = Some k"
    and r: "rm_id r = j" "rm_source_kind r = SK_external"
    and kind: "\<And>q. R j = Some q \<Longrightarrow> rm_source_kind q = SK_external \<and> rm_source_id q = show_nat i"
    and new: "claim_link (R(j \<mapsto> r)) x'" "redemption_link C (X(i \<mapsto> x')) r"
  shows "linked (C, X(i \<mapsto> x'), R(j \<mapsto> r))"
proof -
  have "claim_link (R(j \<mapsto> r)) y" if "X k = Some y" "k \<noteq> i" for k y
  proof (rule claim_link_unused)
    from l that show y: "claim_link R y" by simp
    show "xc_redemption y \<noteq> Some j"
    proof
      assume "xc_redemption y = Some j"
      from claim_link_Some[OF y this] obtain q where "R j = Some q" "rm_source_id q = show_nat (xc_id y)"
        by blast
      with kind l that show False by auto
    qed
  qed
  moreover have "card_link (R(j \<mapsto> r)) c" if "C k = Some c" for k c
  proof (rule card_link_unused)
    from l that show c: "card_link R c" by simp
    show "gc_redemption c \<noteq> Some j"
    proof
      assume "gc_redemption c = Some j"
      from card_link_Some[OF c this] obtain q where "R j = Some q" "rm_source_kind q = SK_internal"
        by blast
      with kind show False by auto
    qed
  qed
  moreover have "redemption_link C (X(i \<mapsto> x')) q" if "R k = Some q" "k \<noteq> j" for k q
    using redemption_link_claim[of C X q i x x'] that l x(1) j[of k] by auto
  ultimately show ?thesis using l x r new by auto
qed

lemma link_step_linked: "link_step v v' \<Longrightarrow> linked v \<Longrightarrow> linked v'"
proof (induction rule: link_step.induct)
  case (ls_cards C C' X R)
  have "card_link R c" if "C' i = Some c" "gc_id c = i" for i c
    using that ls_cards(2)[of i c] ls_cards(1)[of i] ls_cards.prems
    by (cases "C i") (auto simp: card_link_def)
  moreover have "gc_id c = i" if "C' i = Some c" for i c
    using that ls_cards(2)[of i c] ls_cards(1)[of i] ls_cards.prems by (cases "C i") auto
  moreover have "redemption_link C' X r" if "redemption_link C X r" for r
    using that ls_cards(1) by (auto simp: redemption_link_def split: source_kind.splits)
  ultimately show ?case using ls_cards.prems by simp
next
  case (ls_claim X i x C R)
  have "redemption_link C (X(i \<mapsto> x)) r" if "redemption_link C X r" for r
    using that ls_claim(1) by (auto simp: redemption_link_def split: source_kind.splits)
  with ls_claim show ?case by (simp add: claim_link_def)
next
  case (ls_revoke C i c c' t v X R)
  from ls_revoke have n: "gc_redemption c = None" by (auto intro: card_link_free)
  have "redemption_link (C(i \<mapsto> c')) X r" if "redemption_link C X r" for r
    using that ls_revoke(1) n by (auto intro: redemption_link_card)
  with ls_revoke n show ?case by (simp add: card_link_def)
next
  case (ls_reserve_card C i c R j r c' v X)
  from ls_reserve_card have "gc_redemption c = None" "gc_id c = i" by (auto intro: card_link_free)
  with ls_reserve_card show ?case
    by (intro linked_card_update[of C X R i c])
      (auto simp: card_link_def redemption_link_def active_redemption_def)
next
  case (ls_reserve_claim X i x R j r x' C)
  then have "xc_id x = i" by simp
  with ls_reserve_claim show ?case
    by (intro linked_claim_update[of C X R i x])
      (auto simp: claim_link_def redemption_link_def active_redemption_def)
next
  case (ls_commit_card R j r C i c r' t c' v X)
  then have "gc_id c = i" "rm_id r = j" "rm_source_id r = show_nat i"
    using card_link_source[of R c j r] by auto
  with ls_commit_card show ?case
    by (intro linked_card_update[of C X R i c])
      (auto simp: card_link_def redemption_link_def active_redemption_def)
next
  case (ls_commit_claim R j r r' t C X)
  then have "redemption_link C X r" "rm_id r = j" by simp_all
  with ls_commit_claim obtain i x where "X i = Some x" "rm_source_id r = show_nat i"
    "xc_redemption x = Some j"
    by (auto simp: redemption_link_def active_redemption_def)
  with ls_commit_claim have x: "X i = Some x" "rm_source_id r = show_nat i" "xc_redemption x = Some j"
    "rm_id r = j" "xc_id x = i"
    by simp_all
  then have "X(i \<mapsto> x) = X" by auto
  moreover have "linked (C, X(i \<mapsto> x), R(j \<mapsto> r'))"
    using ls_commit_claim x by (intro linked_claim_update[of C X R i x])
      (auto simp: claim_link_def redemption_link_def active_redemption_def)
  ultimately show ?case by simp
next
  case (ls_cancel_card R j r C i c r' t c' v X)
  then have "gc_id c = i" "rm_id r = j" "rm_source_id r = show_nat i"
    using card_link_source[of R c j r] by auto
  with ls_cancel_card show ?case
    by (intro linked_card_update[of C X R i c])
      (auto simp: card_link_def redemption_link_def active_redemption_def)
next
  case (ls_cancel_claim R j r X i x r' t x' C)
  then have "xc_id x = i" "rm_id r = j" "rm_source_id r = show_nat i"
    using claim_link_source[of R x j r] by auto
  with ls_cancel_claim show ?case
    by (intro linked_claim_update[of C X R i x])
      (auto simp: claim_link_def redemption_link_def active_redemption_def)
qed

text \<open>A committed redemption and the card it redeemed are final.\<close>

lemma link_step_final:
  assumes "link_step (C, X, R) (C', X', R')" and "linked (C, X, R)"
    and "R j = Some r" and "rm_status r = RE_committed"
  shows "R' j = Some r \<and> (\<forall>i c. C i = Some c \<and> gc_redemption c = Some j \<longrightarrow> C' i = Some c)"
proof -
  have d: "gc_redemption d \<noteq> Some j" if "C i = Some d" "gc_status d = CD_issued" for i d
    using card_link_free[of R d] assms(2) that by auto
  have e: "k \<noteq> j" if "R k = Some q" "rm_status q = RE_reserved" for k q
    using assms(3,4) that by auto
  from assms(1) show ?thesis
    by cases (use assms(3) d e in \<open>fastforce+\<close>)
qed

end
