(* ===== verification/Gift_Cards_Steps.thy ===== *)
theory Gift_Cards_Steps
  imports Gift_Cards_Invariant
begin

text \<open>
  Every transaction refines the abstract machine of the links and keeps the key columns of the
  tables: distinct ids below the counter, cards that belong to a batch, and as many cards in a
  batch as its quantity says.
\<close>

section \<open>Key columns\<close>

definition batch_full :: "gift_db \<Rightarrow> card_batch \<Rightarrow> bool" where
  "batch_full db b \<longleftrightarrow> int (count_list (map gc_batch (gd_cards db)) (cb_id b)) = cb_quantity b
     \<and> cb_generated_count b = cb_quantity b"

definition tables_ok :: "gift_db \<Rightarrow> bool" where
  "tables_ok db \<longleftrightarrow> distinct (map cb_id (gd_batches db)) \<and> distinct (map gc_id (gd_cards db))
     \<and> distinct (map xc_id (gd_claims db)) \<and> distinct (map rm_id (gd_redemptions db))
     \<and> (\<forall>i \<in> cb_id ` set (gd_batches db) \<union> gc_id ` set (gd_cards db) \<union> xc_id ` set (gd_claims db)
          \<union> rm_id ` set (gd_redemptions db). i < gd_next_id db)
     \<and> gc_batch ` set (gd_cards db) \<subseteq> cb_id ` set (gd_batches db)
     \<and> (\<forall>b\<in>set (gd_batches db). batch_full db b)"

definition gift_inv :: "gift_db \<Rightarrow> bool" where
  "gift_inv db \<longleftrightarrow> tables_ok db \<and> linked (gift_view db)"

lemma gift_inv_empty: "gift_inv empty_gift_db"
  by (simp add: gift_inv_def tables_ok_def empty_gift_db_def gift_view_def card_by_id_def
      claim_by_id_def redemption_by_id_def)

lemma tables_okD:
  assumes "tables_ok db"
  shows "distinct (map cb_id (gd_batches db))" "distinct (map gc_id (gd_cards db))"
    "distinct (map xc_id (gd_claims db))" "distinct (map rm_id (gd_redemptions db))"
    "b \<in> set (gd_batches db) \<Longrightarrow> cb_id b < gd_next_id db"
    "c \<in> set (gd_cards db) \<Longrightarrow> gc_id c < gd_next_id db"
    "x \<in> set (gd_claims db) \<Longrightarrow> xc_id x < gd_next_id db"
    "r \<in> set (gd_redemptions db) \<Longrightarrow> rm_id r < gd_next_id db"
    "b \<in> set (gd_batches db) \<Longrightarrow> batch_full db b"
    "c \<in> set (gd_cards db) \<Longrightarrow> gc_batch c \<in> cb_id ` set (gd_batches db)"
  using assms by (auto simp: tables_ok_def)

text \<open>The columns that a replaced row keeps.\<close>

definition same_columns :: "gift_db \<Rightarrow> gift_db \<Rightarrow> bool" where
  "same_columns db db' \<longleftrightarrow> map (\<lambda>b. (cb_id b, cb_quantity b, cb_generated_count b)) (gd_batches db')
       = map (\<lambda>b. (cb_id b, cb_quantity b, cb_generated_count b)) (gd_batches db)
     \<and> map (\<lambda>c. (gc_id c, gc_batch c)) (gd_cards db') = map (\<lambda>c. (gc_id c, gc_batch c)) (gd_cards db)"

lemma map_columns: "map f xs = map f ys \<Longrightarrow> (\<And>x. g x = h (f x)) \<Longrightarrow> map g xs = map g ys"
  by (metis (no_types, lifting) list.map_comp comp_apply list.map_cong0 map_map)

lemma same_columnsD:
  assumes "same_columns db db'"
  shows "map cb_id (gd_batches db') = map cb_id (gd_batches db)"
    and "map gc_id (gd_cards db') = map gc_id (gd_cards db)"
    and "map gc_batch (gd_cards db') = map gc_batch (gd_cards db)"
proof -
  from assms have b: "map (\<lambda>b. (cb_id b, cb_quantity b, cb_generated_count b)) (gd_batches db')
      = map (\<lambda>b. (cb_id b, cb_quantity b, cb_generated_count b)) (gd_batches db)"
    and c: "map (\<lambda>c. (gc_id c, gc_batch c)) (gd_cards db') = map (\<lambda>c. (gc_id c, gc_batch c)) (gd_cards db)"
    by (simp_all add: same_columns_def)
  show "map cb_id (gd_batches db') = map cb_id (gd_batches db)"
    using map_columns[OF b, of cb_id fst] by simp
  show "map gc_id (gd_cards db') = map gc_id (gd_cards db)"
    using map_columns[OF c, of gc_id fst] by simp
  show "map gc_batch (gd_cards db') = map gc_batch (gd_cards db)"
    using map_columns[OF c, of gc_batch snd] by simp
qed

lemma set_from_map: "map f xs = map f ys \<Longrightarrow> f ` set xs = f ` set ys"
  by (metis list.set_map)

lemma tables_ok_same:
  assumes ok: "tables_ok db" and same: "same_columns db db'"
    and ids: "distinct (map xc_id (gd_claims db'))" "distinct (map rm_id (gd_redemptions db'))"
      "\<And>x. x \<in> set (gd_claims db') \<Longrightarrow> xc_id x < gd_next_id db'"
      "\<And>r. r \<in> set (gd_redemptions db') \<Longrightarrow> rm_id r < gd_next_id db'"
      "gd_next_id db \<le> gd_next_id db'"
  shows "tables_ok db'"
proof -
  note col = same_columnsD[OF same]
  note sets = col[THEN set_from_map]
  have "batch_full db' b" if b: "b \<in> set (gd_batches db')" for b
  proof -
    from same have "(\<lambda>b. (cb_id b, cb_quantity b, cb_generated_count b)) ` set (gd_batches db')
        = (\<lambda>b. (cb_id b, cb_quantity b, cb_generated_count b)) ` set (gd_batches db)"
      unfolding same_columns_def by (intro set_from_map) (erule conjunct1)
    then have "(cb_id b, cb_quantity b, cb_generated_count b)
        \<in> (\<lambda>b. (cb_id b, cb_quantity b, cb_generated_count b)) ` set (gd_batches db)"
      using b by blast
    then obtain b0 where b0: "b0 \<in> set (gd_batches db)" "cb_id b = cb_id b0"
      "cb_quantity b = cb_quantity b0" "cb_generated_count b = cb_generated_count b0"
      by auto
    from tables_okD(9)[OF ok b0(1)] b0 show ?thesis by (simp add: batch_full_def col(3))
  qed
  moreover have "i < gd_next_id db'"
    if "i \<in> cb_id ` set (gd_batches db) \<union> gc_id ` set (gd_cards db)" for i
    using that tables_okD(5,6)[OF ok] ids(5) by force
  ultimately show ?thesis
    using tables_okD(1,2)[OF ok] tables_okD(10)[OF ok] ids(1-4)
    unfolding tables_ok_def col sets by blast
qed

section \<open>Saving a row\<close>

lemma gift_view_simps:
  "gift_view (db\<lparr>gd_outbox := box\<rparr>) = gift_view db"
  "gift_view (db\<lparr>gd_outbox := box, gd_next_id := n\<rparr>) = gift_view db"
  "gift_view (save_batch b db) = gift_view db"
  by (simp_all add: gift_view_def card_by_id_def claim_by_id_def redemption_by_id_def save_batch_def
      fun_eq_iff)

lemma card_by_id_save:
  "card_by_id db (gc_id c) \<noteq> None \<Longrightarrow> card_by_id (save_card c db) = (card_by_id db)(gc_id c \<mapsto> c)"
  using find_key_replaced[of gc_id c "gd_cards db"]
  by (simp add: card_by_id_def [abs_def] save_card_def)

lemma claim_by_id_save:
  "claim_by_id db (xc_id x) \<noteq> None \<Longrightarrow> claim_by_id (save_claim x db) = (claim_by_id db)(xc_id x \<mapsto> x)"
  using find_key_replaced[of xc_id x "gd_claims db"]
  by (simp add: claim_by_id_def [abs_def] save_claim_def)

lemma redemption_by_id_save:
  "redemption_by_id db (rm_id r) \<noteq> None
    \<Longrightarrow> redemption_by_id (save_redemption r db) = (redemption_by_id db)(rm_id r \<mapsto> r)"
  using find_key_replaced[of rm_id r "gd_redemptions db"]
  by (simp add: redemption_by_id_def [abs_def] save_redemption_def)

lemma other_by_id_save:
  "card_by_id (save_claim x db) = card_by_id db" "card_by_id (save_redemption r db) = card_by_id db"
  "claim_by_id (save_card c db) = claim_by_id db" "claim_by_id (save_redemption r db) = claim_by_id db"
  "redemption_by_id (save_card c db) = redemption_by_id db"
  "redemption_by_id (save_claim x db) = redemption_by_id db"
  by (simp_all add: card_by_id_def claim_by_id_def redemption_by_id_def save_card_def save_claim_def
      save_redemption_def fun_eq_iff)

lemma by_id_mem:
  "card_by_id db i = Some c \<Longrightarrow> c \<in> set (gd_cards db) \<and> gc_id c = i"
  "claim_by_id db i = Some x \<Longrightarrow> x \<in> set (gd_claims db) \<and> xc_id x = i"
  "redemption_by_id db i = Some r \<Longrightarrow> r \<in> set (gd_redemptions db) \<and> rm_id r = i"
  "batch_by_id db i = Some b \<Longrightarrow> b \<in> set (gd_batches db) \<and> cb_id b = i"
  by (auto simp: card_by_id_def claim_by_id_def redemption_by_id_def batch_by_id_def dest: find_Some_mem)

lemma by_id_unique:
  assumes "tables_ok db"
  shows "c \<in> set (gd_cards db) \<Longrightarrow> card_by_id db (gc_id c) = Some c"
    "x \<in> set (gd_claims db) \<Longrightarrow> claim_by_id db (xc_id x) = Some x"
    "r \<in> set (gd_redemptions db) \<Longrightarrow> redemption_by_id db (rm_id r) = Some r"
    "b \<in> set (gd_batches db) \<Longrightarrow> batch_by_id db (cb_id b) = Some b"
  using tables_okD(1-4)[OF assms]
  by (simp_all add: card_by_id_def claim_by_id_def redemption_by_id_def batch_by_id_def find_key_unique)

lemma tables_ok_save_card:
  assumes ok: "tables_ok db" and c: "c \<in> set (gd_cards db)" "gc_id c' = gc_id c" "gc_batch c' = gc_batch c"
  shows "tables_ok (save_card c' db)"
proof (rule tables_ok_same[OF ok])
  show "same_columns db (save_card c' db)"
    using replaced_map[OF tables_okD(2)[OF ok] c(1,2), of "\<lambda>c. (gc_id c, gc_batch c)"] c(2,3)
    by (simp add: same_columns_def save_card_def)
qed (use tables_okD[OF ok] in \<open>auto simp: save_card_def\<close>)

lemma tables_ok_save_claim:
  assumes ok: "tables_ok db" and x: "x \<in> set (gd_claims db)" "xc_id x' = xc_id x"
  shows "tables_ok (save_claim x' db)"
proof (rule tables_ok_same[OF ok])
  show "same_columns db (save_claim x' db)" by (simp add: same_columns_def save_claim_def)
  have m: "map xc_id (gd_claims (save_claim x' db)) = map xc_id (gd_claims db)"
    using replaced_map[OF tables_okD(3)[OF ok] x(1,2), of xc_id] x(2) by (simp add: save_claim_def)
  then show "distinct (map xc_id (gd_claims (save_claim x' db)))" using tables_okD(3)[OF ok] by simp
  show "xc_id y < gd_next_id (save_claim x' db)" if "y \<in> set (gd_claims (save_claim x' db))" for y
    using that m[THEN set_from_map] tables_okD(7)[OF ok] by (auto simp: image_iff save_claim_def set_update_where x)
qed (use tables_okD[OF ok] in \<open>auto simp: save_claim_def\<close>)

lemma tables_ok_save_redemption:
  assumes ok: "tables_ok db" and r: "r \<in> set (gd_redemptions db)" "rm_id r' = rm_id r"
  shows "tables_ok (save_redemption r' db)"
proof (rule tables_ok_same[OF ok])
  show "same_columns db (save_redemption r' db)" by (simp add: same_columns_def save_redemption_def)
  have m: "map rm_id (gd_redemptions (save_redemption r' db)) = map rm_id (gd_redemptions db)"
    using replaced_map[OF tables_okD(4)[OF ok] r(1,2), of rm_id] r(2) by (simp add: save_redemption_def)
  then show "distinct (map rm_id (gd_redemptions (save_redemption r' db)))" using tables_okD(4)[OF ok] by simp
  show "rm_id y < gd_next_id (save_redemption r' db)"
    if "y \<in> set (gd_redemptions (save_redemption r' db))" for y
    using that tables_okD(8)[OF ok] r by (auto simp: save_redemption_def set_update_where)
qed (use tables_okD[OF ok] in \<open>auto simp: save_redemption_def\<close>)

section \<open>Inserting a row, appending an event\<close>

lemma by_id_fresh:
  assumes "tables_ok db"
  shows "card_by_id db (gd_next_id db) = None" "claim_by_id db (gd_next_id db) = None"
    "redemption_by_id db (gd_next_id db) = None"
  using tables_okD(6-8)[OF assms] by_id_mem[of db "gd_next_id db"]
  by (metis less_irrefl not_None_eq)+

lemma gift_emit_effect:
  assumes "gift_emit ctx key agg i platform product vals db = Inr db'" and "tables_ok db"
  shows "tables_ok db' \<and> gift_view db' = gift_view db"
proof -
  from assms(1) obtain box where db': "db' = db\<lparr>gd_outbox := box, gd_next_id := gd_next_id db + 2\<rparr>"
    by (auto simp: gift_emit_def cmd_ok)
  have "tables_ok db'"
    by (rule tables_ok_same[OF assms(2)])
      (simp_all add: db' same_columns_def tables_okD[OF assms(2)] trans_less_add1 less_SucI)
  then show ?thesis by (simp add: db' gift_view_simps)
qed

lemma insert_redemption_effect:
  assumes "insert_redemption r db = Inr db'" and ok: "tables_ok db" and id: "rm_id r = gd_next_id db"
    and r: "rm_status r = RE_reserved"
  shows "tables_ok db' \<and> card_by_id db' = card_by_id db \<and> claim_by_id db' = claim_by_id db
    \<and> redemption_by_id db' = (redemption_by_id db)(rm_id r \<mapsto> r)
    \<and> (\<forall>i. rm_source_id r = show_nat i \<longrightarrow> source_free (redemption_by_id db) (rm_source_kind r) i)"
proof -
  from assms(1) have db': "db' = db\<lparr>gd_redemptions := gd_redemptions db @ [r],
      gd_next_id := Suc (gd_next_id db)\<rparr>"
    and free: "\<forall>x\<in>set (gd_redemptions db). active_redemption (rm_status x)
      \<longrightarrow> rm_source_kind x = rm_source_kind r \<longrightarrow> rm_source_id x \<noteq> rm_source_id r"
    using r by (auto simp: insert_redemption_def cmd_ok list_ex_iff active_redemption_def)
  have fresh: "rm_id r \<notin> rm_id ` set (gd_redemptions db)"
    using tables_okD(8)[OF ok] id by force
  have "tables_ok db'"
    by (rule tables_ok_same[OF ok])
      (use tables_okD[OF ok] fresh id in \<open>auto simp: db' same_columns_def intro: less_SucI\<close>)
  moreover have "redemption_by_id db' = (redemption_by_id db)(rm_id r \<mapsto> r)"
    using find_key_appended[OF fresh] by (simp add: redemption_by_id_def [abs_def] db')
  moreover have "card_by_id db' = card_by_id db" "claim_by_id db' = claim_by_id db"
    by (simp_all add: db' card_by_id_def claim_by_id_def fun_eq_iff)
  moreover have "source_free (redemption_by_id db) (rm_source_kind r) i" if "rm_source_id r = show_nat i" for i
    using free that by (auto simp: source_free_def dest!: by_id_mem(3))
  ultimately show ?thesis by blast
qed

lemma insert_claim_effect:
  assumes ok: "tables_ok db" and id: "xc_id x = gd_next_id db"
  shows "tables_ok (insert_claim x db)"
    and "claim_by_id (insert_claim x db) = (claim_by_id db)(xc_id x \<mapsto> x)"
    and "card_by_id (insert_claim x db) = card_by_id db"
    and "redemption_by_id (insert_claim x db) = redemption_by_id db"
proof -
  have fresh: "xc_id x \<notin> xc_id ` set (gd_claims db)" using tables_okD(7)[OF ok] id by force
  show "tables_ok (insert_claim x db)"
    by (rule tables_ok_same[OF ok])
      (use tables_okD[OF ok] fresh id in \<open>auto simp: insert_claim_def same_columns_def intro: less_SucI\<close>)
  show "claim_by_id (insert_claim x db) = (claim_by_id db)(xc_id x \<mapsto> x)"
    using find_key_appended[OF fresh] by (simp add: claim_by_id_def [abs_def] insert_claim_def)
qed (simp_all add: insert_claim_def card_by_id_def redemption_by_id_def fun_eq_iff)

section \<open>What each transaction does\<close>

definition advances :: "gift_db \<Rightarrow> gift_db \<Rightarrow> bool" where
  "advances db db' \<longleftrightarrow> tables_ok db' \<and> link_steps (gift_view db) (gift_view db')"

lemma advancesI:
  "gift_emit ctx key agg i platform product vals db1 = Inr db' \<Longrightarrow> tables_ok db1
     \<Longrightarrow> link_steps (gift_view db) (gift_view db1) \<Longrightarrow> advances db db'"
  using gift_emit_effect by (fastforce simp: advances_def)

lemma advances_refl: "tables_ok db \<Longrightarrow> advances db db"
  by (simp add: advances_def)

lemma close_advances:
  assumes "close_batch ctx bid reason db = Inr (dto, db')" and ok: "tables_ok db"
  shows "advances db db'"
proof -
  have "advances db db'"
    if b: "batch_by_id db i = Some b" and b': "b' = b\<lparr>cb_status := st, cb_closed_at := t\<rparr>"
      and emit: "gift_emit ctx key agg k platform product vals (save_batch b' db) = Inr db'"
    for i b b' st t key agg k platform product vals
  proof (rule advancesI[OF emit])
    have "same_columns db (save_batch b' db)"
      using replaced_map[OF tables_okD(1)[OF ok], of b b'
          "\<lambda>b. (cb_id b, cb_quantity b, cb_generated_count b)"] by_id_mem(4)[OF b] b'
      by (simp add: same_columns_def save_batch_def)
    then show "tables_ok (save_batch b' db)"
      by (rule tables_ok_same[OF ok]) (use tables_okD[OF ok] in \<open>auto simp: save_batch_def\<close>)
  qed (simp add: gift_view_simps)
  with assms show ?thesis
    by (auto simp: close_batch_def Let_def cmd_ok intro: advances_refl split: if_splits)
qed

lemma revoke_advances:
  assumes "revoke_card ctx cid reason v db = Inr (dto, db')" and ok: "tables_ok db"
  shows "advances db db'"
proof -
  have "advances db db'"
    if c: "card_by_id db i = Some c" "gc_status c = CD_issued"
      and c': "c' = c\<lparr>gc_status := CD_revoked, gc_revoked_at := t, gc_version := n\<rparr>"
      and emit: "gift_emit ctx key agg k platform product vals (save_card c' db) = Inr db'"
    for i c c' t n key agg k platform product vals
  proof (rule advancesI[OF emit])
    note m = by_id_mem(1)[OF c(1)]
    from m c' show "tables_ok (save_card c' db)" by (intro tables_ok_save_card[OF ok, of c]) auto
    have "gift_view (save_card c' db) = ((card_by_id db)(i \<mapsto> c'), claim_by_id db, redemption_by_id db)"
      using card_by_id_save[of db c'] c c' m by (simp add: gift_view_def other_by_id_save)
    moreover have "link_step (gift_view db) ((card_by_id db)(i \<mapsto> c'), claim_by_id db, redemption_by_id db)"
      unfolding gift_view_def using c c' by (rule ls_revoke)
    ultimately show "link_steps (gift_view db) (gift_view (save_card c' db))" by auto
  qed
  with assms show ?thesis
    by (auto simp: revoke_card_def Let_def cmd_ok intro: advances_refl split: if_splits)
qed

lemma reserve_internal_advances:
  assumes "reserve_internal ctx i db = Inr (Some (dto, db'))" and inv: "gift_inv db"
  shows "advances db db'"
proof -
  from inv have ok: "tables_ok db" and l: "linked (gift_view db)" by (simp_all add: gift_inv_def)
  from assms(1) obtain digest c where "find_internal db digest (reserve_platform ctx i) = Some c"
    and card: "reserve_card ctx i c db = Inr (dto, db')"
    by (auto simp: reserve_internal_def cmd_ok split: option.splits)
  then have c: "c \<in> set (gd_cards db)" by (auto simp: find_internal_def dest!: find_Some_mem)
  let ?r = "\<lambda>c1 b. new_redemption ctx i SK_internal (gc_id c1) (cb_schema_version b)
        (cb_fulfillment_key b) (cb_payload b) (gd_next_id db)"
  let ?c = "\<lambda>c1 r. c1\<lparr>gc_status := CD_reserved, gc_redemption := Some (rm_id r),
        gc_reserved_until := rm_reserved_until r, gc_version := gc_version c1 + 1\<rparr>"
  from card obtain b :: card_batch and c1 db1 where c1: "release_if_due ctx c = Inr c1" "gc_status c1 = CD_issued"
    and ins: "insert_redemption (?r c1 b) db = Inr db1"
    and emit: "emit_redemption ctx ''gift_cards.redemption_reserved.v1'' (cb_product_key b) (?r c1 b)
        (save_card (?c c1 (?r c1 b)) db1) = Inr db'"
    unfolding reserve_card_def Let_def cmd_ok sum.inject prod.inject by blast
  define r where r: "r = ?r c1 b"
  define c2 where c2: "c2 = ?c c1 r"
  note ins = ins[folded r] and emit = emit[folded r, folded c2]
  have r': "rm_id r = gd_next_id db" "rm_source_kind r = SK_internal" "rm_status r = RE_reserved"
    "rm_source_id r = show_nat (gc_id c1)"
    by (simp_all add: r new_redemption_def)
  note ins' = insert_redemption_effect[OF ins ok r'(1,3)]
  have id: "gc_id c1 = gc_id c" using c1(1) by (auto simp: release_if_due_def split: if_splits)
  note at = by_id_unique(1)[OF ok c]
  have free: "source_free (redemption_by_id db) SK_internal (gc_id c)"
    using ins' r' id by simp
  have "gc_status c \<noteq> CD_reserved"
  proof
    assume res: "gc_status c = CD_reserved"
    from l at have "card_link (redemption_by_id db) c" by (simp add: gift_view_def)
    with res free show False
      by (auto simp: card_link_def source_free_def active_redemption_def split: option.splits)
  qed
  with c1 have c1': "c1 = c" "gc_status c = CD_issued" by (auto simp: release_if_due_def)
  have cards: "gd_cards db1 = gd_cards db" using ins by (auto simp: insert_redemption_def cmd_ok)
  show ?thesis
  proof (rule advancesI[OF emit[unfolded emit_redemption_def]])
    show "tables_ok (save_card c2 db1)"
      using ins' c cards c2 c1' by (intro tables_ok_save_card[of db1 c]) auto
    have "gift_view (save_card c2 db1) = ((card_by_id db)(gc_id c \<mapsto> c2), claim_by_id db,
        (redemption_by_id db)(rm_id r \<mapsto> r))"
      using card_by_id_save[of db1 c2] ins' at c2 c1' by (simp add: gift_view_def other_by_id_save)
    moreover have "link_step (gift_view db) ((card_by_id db)(gc_id c \<mapsto> c2), claim_by_id db,
        (redemption_by_id db)(rm_id r \<mapsto> r))"
      unfolding gift_view_def
      by (rule ls_reserve_card[where c = c])
        (use at c1' by_id_fresh(3)[OF ok] free r' c2 in simp_all)
    ultimately show "link_steps (gift_view db) (gift_view (save_card c2 db1))" by auto
  qed
qed

lemma claim_ready:
  assumes ok: "tables_ok db" and find: "(case find_claim db platform digest of
      None \<Rightarrow> Inr (claim_of ctx platform digest (gd_next_id db) f,
        insert_claim (claim_of ctx platform digest (gd_next_id db) f) db)
    | Some y \<Rightarrow> bindE (requireE (xc_redemption y = None) e) (\<lambda>_. Inr (y, db))) = Inr (x, db1)"
  shows "advances db db1 \<and> claim_by_id db1 (xc_id x) = Some x \<and> xc_redemption x = None"
proof (cases "find_claim db platform digest")
  case None
  with find have x: "x = claim_of ctx platform digest (gd_next_id db) f" and db1: "db1 = insert_claim x db"
    by auto
  then have id: "xc_id x = gd_next_id db" "xc_redemption x = None" by (simp_all add: claim_of_def)
  note ins = insert_claim_effect[OF ok id(1)]
  have "link_step (gift_view db) (card_by_id db, (claim_by_id db)(xc_id x \<mapsto> x), redemption_by_id db)"
    unfolding gift_view_def by (rule ls_claim) (simp_all add: id by_id_fresh[OF ok])
  moreover have "gift_view db1 = (card_by_id db, (claim_by_id db)(xc_id x \<mapsto> x), redemption_by_id db)"
    by (simp add: gift_view_def db1 ins)
  ultimately show ?thesis using ins id by (auto simp: advances_def db1)
next
  case (Some y)
  with find have y: "x = y" "db1 = db" "xc_redemption y = None" by (auto simp: cmd_ok)
  from Some have "y \<in> set (gd_claims db)" by (auto simp: find_claim_def dest!: find_Some_mem)
  from by_id_unique(2)[OF ok this] y show ?thesis by (simp add: advances_refl[OF ok])
qed

lemma reserve_external_advances:
  assumes "reserve_external ctx i f db = Inr (dto, db')" and ok: "tables_ok db"
  shows "advances db db'"
proof -
  let ?claim = "\<lambda>digest. claim_of ctx (reserve_platform ctx i) digest (gd_next_id db) f"
  let ?r = "\<lambda>x db1. new_redemption ctx i SK_external (xc_id x) (xc_schema_version x)
        (xc_fulfillment_key x) (xc_payload x) (gd_next_id db1)"
  from assms(1) obtain digest x db1 where
    find: "(case find_claim db (reserve_platform ctx i) digest of
      None \<Rightarrow> Inr (?claim digest, insert_claim (?claim digest) db)
    | Some y \<Rightarrow> bindE (requireE (xc_redemption y = None) (gift_conflict ''gift_cards.already_redeemed''))
        (\<lambda>_. Inr (y, db))) = Inr (x, db1)"
    and rest: "\<exists>db2. insert_redemption (?r x db1) db1 = Inr db2 \<and> (\<exists>db3.
      emit_redemption ctx ''gift_cards.redemption_reserved.v1'' (xc_product_key x) (?r x db1)
        (save_claim (x\<lparr>xc_redemption := Some (rm_id (?r x db1))\<rparr>) db2) = Inr db3 \<and> db3 = db')"
    unfolding reserve_external_def Let_def cmd_ok split_paired_Ex prod.case sum.inject prod.inject by blast
  define r where r: "r = ?r x db1"
  define x' where x': "x' = x\<lparr>xc_redemption := Some (rm_id r)\<rparr>"
  from rest obtain db2 where ins: "insert_redemption r db1 = Inr db2"
    and emit: "emit_redemption ctx ''gift_cards.redemption_reserved.v1'' (xc_product_key x) r
        (save_claim x' db2) = Inr db'"
    unfolding r[symmetric] x'[symmetric] by blast
  from claim_ready[OF ok find] have ok1: "tables_ok db1" and v1: "link_steps (gift_view db) (gift_view db1)"
    and x: "claim_by_id db1 (xc_id x) = Some x" "xc_redemption x = None"
    by (simp_all add: advances_def)
  have r': "rm_id r = gd_next_id db1" "rm_source_kind r = SK_external" "rm_status r = RE_reserved"
    "rm_source_id r = show_nat (xc_id x)"
    by (simp_all add: r new_redemption_def)
  note ins' = insert_redemption_effect[OF ins ok1 r'(1,3)]
  have claims: "gd_claims db2 = gd_claims db1" using ins by (auto simp: insert_redemption_def cmd_ok)
  show ?thesis
  proof (rule advancesI[OF emit[unfolded emit_redemption_def]])
    show "tables_ok (save_claim x' db2)"
      using ins' by_id_mem(2)[OF x(1)] claims x' by (intro tables_ok_save_claim[of db2 x]) auto
    have "gift_view (save_claim x' db2) = (card_by_id db1, (claim_by_id db1)(xc_id x \<mapsto> x'),
        (redemption_by_id db1)(rm_id r \<mapsto> r))"
      using claim_by_id_save[of db2 x'] ins' x x' by (simp add: gift_view_def other_by_id_save)
    moreover have "link_step (gift_view db1) (card_by_id db1, (claim_by_id db1)(xc_id x \<mapsto> x'),
        (redemption_by_id db1)(rm_id r \<mapsto> r))"
      unfolding gift_view_def
      by (rule ls_reserve_claim[where x = x])
        (use x by_id_fresh(3)[OF ok1] ins' r' x' in simp_all)
    ultimately show "link_steps (gift_view db) (gift_view (save_claim x' db2))"
      using v1 by (metis rtranclp.rtrancl_into_rtrancl)
  qed
qed

text \<open>Committing and cancelling find the source of the redemption where its link says it is.\<close>

lemma active_source:
  assumes "linked (gift_view db)" and "redemption_by_id db j = Some r" and "active_redemption (rm_status r)"
    and "parse_id (rm_source_id r) = Inr i"
  shows "(case rm_source_kind r of
      SK_internal \<Rightarrow> (\<exists>c. card_by_id db i = Some c \<and> gc_redemption c = Some j
        \<and> (gc_status c = CD_reserved \<longleftrightarrow> rm_status r = RE_reserved))
    | SK_external \<Rightarrow> (\<exists>x. claim_by_id db i = Some x \<and> xc_redemption x = Some j))"
proof -
  from assms(1,2) have l: "redemption_link (card_by_id db) (claim_by_id db) r" and j: "rm_id r = j"
    by (simp_all add: gift_view_def)
  show ?thesis
  proof (cases "rm_source_kind r")
    case SK_internal
    with l assms(3) obtain k c where c: "card_by_id db k = Some c" "rm_source_id r = show_nat k"
      "gc_redemption c = Some j"
      by (auto simp: redemption_link_def j)
    with assms(4) have "k = i" by (simp add: parse_id_def cmd_ok)
    have "card_link (redemption_by_id db) c" using assms(1) c(1) by (simp add: gift_view_def)
    with c \<open>k = i\<close> SK_internal assms(2) show ?thesis by (auto simp: card_link_def)
  next
    case SK_external
    with l assms(3) obtain k x where x: "claim_by_id db k = Some x" "rm_source_id r = show_nat k"
      "xc_redemption x = Some j"
      by (auto simp: redemption_link_def j)
    with assms(4) have "k = i" by (simp add: parse_id_def cmd_ok)
    with x SK_external show ?thesis by simp
  qed
qed

lemma commit_advances:
  assumes "commit_redemption ctx rid key db = Inr (dto, db')" and inv: "gift_inv db"
  shows "advances db db'"
proof -
  from inv have ok: "tables_ok db" and l: "linked (gift_view db)" by (simp_all add: gift_inv_def)
  let ?r = "\<lambda>r. r\<lparr>rm_status := RE_committed, rm_committed_at := Some (gx_now ctx)\<rparr>"
  have "advances db db'" if j: "redemption_by_id db j = Some r" "rm_status r = RE_reserved"
      and r': "r' = ?r r" and red: "redeem_source r' (save_redemption r' db) = Inr db1"
      and emit: "gift_emit ctx ekey agg k platform product vals db1 = Inr db'"
    for j r r' db1 ekey agg k platform product vals
  proof -
    note m = by_id_mem(3)[OF j(1)]
    have ok1: "tables_ok (save_redemption r' db)"
      using m r' by (intro tables_ok_save_redemption[OF ok, of r]) auto
    have R: "redemption_by_id (save_redemption r' db) = (redemption_by_id db)(j \<mapsto> r')"
      using redemption_by_id_save[of db r'] j r' m by simp
    from red obtain i where i: "parse_id (rm_source_id r) = Inr i"
      by (auto simp: redeem_source_def cmd_ok r')
    note src = active_source[OF l j(1) _ i]
    have "tables_ok db1 \<and> link_step (gift_view db) (gift_view db1)"
    proof (cases "rm_source_kind r")
      case SK_internal
      with src j(2) obtain c where c: "card_by_id db i = Some c" "gc_redemption c = Some j"
        by (auto simp: active_redemption_def)
      define c' where c': "c' = c\<lparr>gc_status := CD_redeemed, gc_redeemed_at := Some (gx_now ctx),
        gc_reserved_until := None, gc_version := gc_version c + 1\<rparr>"
      from red SK_internal c i have db1: "db1 = save_card c' (save_redemption r' db)"
        by (simp add: redeem_source_def r' c' other_by_id_save)
      have "tables_ok db1" unfolding db1
        using ok1 by_id_mem(1)[OF c(1)] c' by (intro tables_ok_save_card[of _ c]) (auto simp: save_redemption_def)
      moreover have "gift_view db1 = ((card_by_id db)(i \<mapsto> c'), claim_by_id db, (redemption_by_id db)(j \<mapsto> r'))"
        using card_by_id_save[of "save_redemption r' db" c'] c(1) by_id_mem(1)[OF c(1)]
        by (simp add: gift_view_def db1 other_by_id_save R c')
      moreover have "link_step (gift_view db)
          ((card_by_id db)(i \<mapsto> c'), claim_by_id db, (redemption_by_id db)(j \<mapsto> r'))"
        unfolding gift_view_def using j SK_internal c r' c' by (rule ls_commit_card)
      ultimately show ?thesis by simp
    next
      case SK_external
      with src j(2) obtain x where x: "claim_by_id db i = Some x" "xc_redemption x = Some j"
        by (auto simp: active_redemption_def)
      then have same: "x\<lparr>xc_redemption := Some j\<rparr> = x" by simp
      from red SK_external x i have db1: "db1 = save_claim x (save_redemption r' db)"
        by (simp add: redeem_source_def r' other_by_id_save m same)
      have "tables_ok db1" unfolding db1
        using ok1 by_id_mem(2)[OF x(1)] by (intro tables_ok_save_claim[of _ x]) (auto simp: save_redemption_def)
      moreover have "gift_view db1 = (card_by_id db, claim_by_id db, (redemption_by_id db)(j \<mapsto> r'))"
        using claim_by_id_save[of "save_redemption r' db" x] x(1) by_id_mem(2)[OF x(1)]
        by (auto simp: gift_view_def db1 other_by_id_save R)
      moreover have "link_step (gift_view db)
          (card_by_id db, claim_by_id db, (redemption_by_id db)(j \<mapsto> r'))"
        unfolding gift_view_def using j SK_external r' by (rule ls_commit_claim)
      ultimately show ?thesis by simp
    qed
    then show ?thesis by (intro advancesI[OF emit]) auto
  qed
  with assms(1) ok show ?thesis
    unfolding commit_redemption_def Let_def emit_redemption_def
    by (auto simp: cmd_ok intro: advances_refl split: if_splits)
qed

lemma cancel_advances:
  assumes "cancel_redemption ctx rid db = Inr (dto, db')" and inv: "gift_inv db"
  shows "advances db db'"
proof -
  from inv have ok: "tables_ok db" and l: "linked (gift_view db)" by (simp_all add: gift_inv_def)
  let ?r = "\<lambda>r. r\<lparr>rm_status := RE_cancelled, rm_cancelled_at := Some (gx_now ctx)\<rparr>"
  have "advances db db'" if j: "redemption_by_id db j = Some r" "rm_status r = RE_reserved"
      and r': "r' = ?r r" and rel: "release_source r' (save_redemption r' db) = Inr db1"
      and emit: "gift_emit ctx ekey agg k platform product vals db1 = Inr db'"
    for j r r' db1 ekey agg k platform product vals
  proof -
    note m = by_id_mem(3)[OF j(1)]
    have ok1: "tables_ok (save_redemption r' db)"
      using m r' by (intro tables_ok_save_redemption[OF ok, of r]) auto
    have R: "redemption_by_id (save_redemption r' db) = (redemption_by_id db)(j \<mapsto> r')"
      using redemption_by_id_save[of db r'] j r' m by simp
    from rel obtain i where i: "parse_id (rm_source_id r) = Inr i"
      by (auto simp: release_source_def cmd_ok r')
    note src = active_source[OF l j(1) _ i]
    have "tables_ok db1 \<and> link_step (gift_view db) (gift_view db1)"
    proof (cases "rm_source_kind r")
      case SK_internal
      with src j(2) obtain c where c: "card_by_id db i = Some c" "gc_redemption c = Some j"
        and res: "gc_status c = CD_reserved"
        by (auto simp: active_redemption_def)
      define c' where c': "c' = c\<lparr>gc_status := CD_issued, gc_redemption := None,
        gc_reserved_until := None, gc_version := gc_version c + 1\<rparr>"
      from rel SK_internal c res i have db1: "db1 = save_card c' (save_redemption r' db)"
        by (simp add: release_source_def r' c' other_by_id_save)
      have "tables_ok db1" unfolding db1
        using ok1 by_id_mem(1)[OF c(1)] c' by (intro tables_ok_save_card[of _ c]) (auto simp: save_redemption_def)
      moreover have "gift_view db1 = ((card_by_id db)(i \<mapsto> c'), claim_by_id db, (redemption_by_id db)(j \<mapsto> r'))"
        using card_by_id_save[of "save_redemption r' db" c'] c(1) by_id_mem(1)[OF c(1)]
        by (simp add: gift_view_def db1 other_by_id_save R c')
      moreover have "link_step (gift_view db)
          ((card_by_id db)(i \<mapsto> c'), claim_by_id db, (redemption_by_id db)(j \<mapsto> r'))"
        unfolding gift_view_def using j SK_internal c r' c' by (rule ls_cancel_card)
      ultimately show ?thesis by simp
    next
      case SK_external
      with src j(2) obtain x where x: "claim_by_id db i = Some x" "xc_redemption x = Some j"
        by (auto simp: active_redemption_def)
      define x' where x': "x' = x\<lparr>xc_redemption := None\<rparr>"
      from rel SK_external x i have db1: "db1 = save_claim x' (save_redemption r' db)"
        by (simp add: release_source_def r' x' other_by_id_save)
      have "tables_ok db1" unfolding db1
        using ok1 by_id_mem(2)[OF x(1)] x' by (intro tables_ok_save_claim[of _ x]) (auto simp: save_redemption_def)
      moreover have "gift_view db1 = (card_by_id db, (claim_by_id db)(i \<mapsto> x'), (redemption_by_id db)(j \<mapsto> r'))"
        using claim_by_id_save[of "save_redemption r' db" x'] x(1) by_id_mem(2)[OF x(1)]
        by (simp add: gift_view_def db1 other_by_id_save R x')
      moreover have "link_step (gift_view db)
          (card_by_id db, (claim_by_id db)(i \<mapsto> x'), (redemption_by_id db)(j \<mapsto> r'))"
        unfolding gift_view_def using j SK_external x r' x' by (rule ls_cancel_claim)
      ultimately show ?thesis by simp
    qed
    then show ?thesis by (intro advancesI[OF emit]) auto
  qed
  with assms(1) ok show ?thesis
    unfolding cancel_redemption_def Let_def emit_redemption_def
    by (auto simp: cmd_ok intro: advances_refl split: if_splits)
qed

lemma purchase_advances:
  assumes "record_purchase ctx p db = Inr (res, db')" and ok: "tables_ok db"
  shows "advances db db'"
proof -
  have "advances db db'" if x: "x = claim_of ctx platform digest (gd_next_id db) f"
      and emit: "gift_emit ctx key agg k pf product vals (insert_claim x db) = Inr db'"
    for x platform digest f key agg k pf product vals
  proof (rule advancesI[OF emit])
    have id: "xc_id x = gd_next_id db" "xc_redemption x = None" by (simp_all add: x claim_of_def)
    note ins = insert_claim_effect[OF ok id(1)]
    from ins show "tables_ok (insert_claim x db)" by simp
    have "link_step (gift_view db) (card_by_id db, (claim_by_id db)(xc_id x \<mapsto> x), redemption_by_id db)"
      unfolding gift_view_def by (rule ls_claim) (simp_all add: id by_id_fresh[OF ok])
    moreover have "gift_view (insert_claim x db)
        = (card_by_id db, (claim_by_id db)(xc_id x \<mapsto> x), redemption_by_id db)"
      by (simp add: gift_view_def ins)
    ultimately show "link_steps (gift_view db) (gift_view (insert_claim x db))" by auto
  qed
  with assms show ?thesis
    unfolding record_purchase_def Let_def
    by (auto simp: cmd_ok intro: advances_refl split: option.splits)
qed

section \<open>Generating a batch\<close>

lemma draw_secrets_result:
  assumes "draw_secrets ctx platform q n acc = Some (Inr res)"
    and "int (length acc) \<le> q" and "distinct (map snd acc)"
  shows "int (length res) = q \<and> distinct (map snd res)"
proof -
  have "case r of Inl e \<Rightarrow> True | Inr res \<Rightarrow> int (length acc) \<le> q \<longrightarrow> distinct (map snd acc)
      \<longrightarrow> int (length res) = q \<and> distinct (map snd res)"
    if "draw_secrets ctx platform q n acc = Some r" for r
    using that
  proof (induction rule: draw_secrets.raw_induct[rotated, consumes 1])
    case (1 draw ctx platform q n acc r)
    then show ?case
      by (auto split: if_splits sum.splits) fastforce+
  qed
  with assms show ?thesis by fastforce
qed

lemma new_cards_columns:
  defines "news \<equiv> \<lambda>ctx b n ds. map2 (new_card ctx b) [n ..< n + length ds] ds"
  shows "map gc_id (news ctx b n ds) = [n ..< n + length ds]"
    and "map gc_batch (news ctx b n ds) = replicate (length ds) (cb_id b)"
    and "c \<in> set (news ctx b n ds) \<Longrightarrow> gc_status c = CD_issued \<and> gc_redemption c = None"
proof -
  have "map gc_id (map2 (new_card ctx b) xs ds) = take (length ds) xs"
    "map gc_batch (map2 (new_card ctx b) xs ds) = replicate (length ds) (cb_id b)"
    if "length ds \<le> length xs" for xs
    using that by (induction ds arbitrary: xs) (case_tac xs; simp add: new_card_def)+
  from this[of "[n ..< n + length ds]"]
  show "map gc_id (news ctx b n ds) = [n ..< n + length ds]"
    "map gc_batch (news ctx b n ds) = replicate (length ds) (cb_id b)"
    by (simp_all add: news_def)
qed (auto simp: news_def new_card_def)

lemma generate_batch_shape:
  assumes "generate_batch ctx i db = Some (Inr (res, db'))" and "db' \<noteq> db"
  obtains b drawn m where "b = new_batch ctx i (gd_next_id db)" and "gd_next_id db < m"
    and "draw_secrets ctx (gi_platform_key i) (gi_quantity i) 0 [] = Some (Inr drawn)"
    and "gd_batches db' = gd_batches db @ [b]"
    and "gd_cards db' = gd_cards db @ map2 (new_card ctx b) [m ..< m + length (map snd drawn)] (map snd drawn)"
    and "gd_claims db' = gd_claims db" and "gd_redemptions db' = gd_redemptions db"
    and "gd_next_id db' = m + length drawn"
proof -
  let ?b = "new_batch ctx i (gd_next_id db)"
  from assms obtain db1 drawn where ins: "insert_batch ?b db = Inr db1"
    and drawn: "draw_secrets ctx (gi_platform_key i) (gi_quantity i) 0 [] = Some (Inr drawn)"
    and store: "store_batch ctx ?b drawn db1 = Inr (res, db')"
    by (auto simp: generate_batch_def Let_def cmd_ok split: sum.splits option.splits)
  from ins have db1: "db1 = db\<lparr>gd_batches := gd_batches db @ [?b], gd_next_id := Suc (gd_next_id db)\<rparr>"
    by (auto simp: insert_batch_def cmd_ok)
  from store obtain db2 where em: "gift_emit ctx ''gift_cards.batch_created.v1'' ''gift_card_batch''
      (cb_id ?b) (cb_platform_key ?b) (cb_product_key ?b)
      [(''batch_id'', id_json (cb_id ?b)), (''batch_key'', JStr (cb_batch_key ?b)),
       (''quantity'', JInt (cb_quantity ?b)),
       (''expires_at'', case cb_expires_at ?b of None \<Rightarrow> JNull | Some t \<Rightarrow> JTime t)] db1 = Inr db2"
    and cards: "insert_cards ctx ?b (map snd drawn) db2 = Inr db'"
    unfolding store_batch_def cmd_ok by blast
  from em have db2: "gd_batches db2 = gd_batches db1" "gd_cards db2 = gd_cards db1"
    "gd_claims db2 = gd_claims db1" "gd_redemptions db2 = gd_redemptions db1"
    "gd_next_id db1 < gd_next_id db2"
    by (auto simp: gift_emit_def cmd_ok)
  from cards have "db' = db2\<lparr>gd_cards := gd_cards db2 @ map2 (new_card ctx ?b)
         [gd_next_id db2 ..< gd_next_id db2 + length (map snd drawn)] (map snd drawn),
       gd_next_id := gd_next_id db2 + length (map snd drawn)\<rparr>"
    by (auto simp: insert_cards_def cmd_ok simp del: upt_Suc)
  with db2 db1 show thesis by (intro that[of ?b "gd_next_id db2" drawn]) (simp_all add: drawn)
qed

lemma generate_advances:
  assumes gen: "generate_batch ctx i db = Some (Inr (res, db'))" and i: "generate_input_ok i"
    and ok: "tables_ok db"
  shows "advances db db'"
proof (cases "db' = db")
  case False
  from gen False obtain b drawn m where b: "b = new_batch ctx i (gd_next_id db)"
    and m: "gd_next_id db < m"
    and drawn: "draw_secrets ctx (gi_platform_key i) (gi_quantity i) 0 [] = Some (Inr drawn)"
    and tabs': "gd_batches db' = gd_batches db @ [b]"
      "gd_cards db' = gd_cards db @ map2 (new_card ctx b) [m ..< m + length (map snd drawn)] (map snd drawn)"
      "gd_claims db' = gd_claims db" "gd_redemptions db' = gd_redemptions db"
      "gd_next_id db' = m + length drawn"
    by (rule generate_batch_shape)
  define n where "n = gd_next_id db"
  define news where "news = map2 (new_card ctx b) [m ..< m + length (map snd drawn)] (map snd drawn)"
  note tabs = tabs'[folded news_def]
  note cols = new_cards_columns[where ctx = ctx and b = b and n = m and ds = "map snd drawn",
      folded news_def]
  have len: "int (length drawn) = gi_quantity i"
    using draw_secrets_result[OF drawn] i by (simp add: generate_input_ok_def)
  have bid: "cb_id b = n" by (simp add: b new_batch_def n_def)
  have nid: "gc_id c \<in> {m ..< m + length drawn}" "gc_batch c = n" if "c \<in> set news" for c
  proof -
    from that have "gc_id c \<in> set (map gc_id news)" "gc_batch c \<in> set (map gc_batch news)" by auto
    then show "gc_id c \<in> {m ..< m + length drawn}" "gc_batch c = n"
      unfolding cols(1,2) by (auto simp: bid)
  qed
  have old: "n \<notin> cb_id ` set (gd_batches db)" "n \<notin> gc_batch ` set (gd_cards db)"
    using tables_okD(5,10)[OF ok] by (force simp: n_def)+
  have cnt: "count_list (map gc_batch (gd_cards db')) k
      = count_list (map gc_batch (gd_cards db)) k + (if k = n then length drawn else 0)" for k
  proof -
    have "count_list (replicate m x) k = (if k = x then m else 0)" for m and x :: nat
      by (induction m) auto
    then show ?thesis by (simp add: tabs cols bid)
  qed
  have "batch_full db' x" if "x \<in> set (gd_batches db')" for x
  proof (cases "x = b")
    case True
    with old len show ?thesis
      by (simp add: batch_full_def cnt bid count_notin) (simp add: b new_batch_def)
  next
    case False
    with that have "x \<in> set (gd_batches db)" "cb_id x \<noteq> n" using old by (auto simp: tabs)
    with tables_okD(9)[OF ok] show ?thesis by (simp add: batch_full_def cnt)
  qed
  moreover have "distinct (map gc_id (gd_cards db'))"
    using tables_okD(2,6)[OF ok] nid m by (fastforce simp: tabs cols)
  moreover have "\<forall>k \<in> cb_id ` set (gd_batches db') \<union> gc_id ` set (gd_cards db') \<union> xc_id ` set (gd_claims db')
      \<union> rm_id ` set (gd_redemptions db'). k < gd_next_id db'"
    using tables_okD(5-8)[OF ok] nid bid m by (fastforce simp: tabs n_def)
  moreover have "gc_batch ` set (gd_cards db') \<subseteq> cb_id ` set (gd_batches db')"
    using tables_okD(10)[OF ok] nid bid by (auto simp: tabs)
  ultimately have "tables_ok db'"
    using tables_okD(1,3,4)[OF ok] old bid by (simp add: tables_ok_def tabs)
  moreover have "link_step (gift_view db) (gift_view db')"
  proof -
    have at: "card_by_id db' k = (case card_by_id db k of None \<Rightarrow> find (\<lambda>c. gc_id c = k) news | Some c \<Rightarrow> Some c)" for k
      by (simp add: card_by_id_def tabs find_append)
    have "link_step (card_by_id db, claim_by_id db, redemption_by_id db)
        (card_by_id db', claim_by_id db, redemption_by_id db)"
      by (rule ls_cards) (use cols(3) in \<open>auto simp: at dest!: find_Some_mem\<close>)
    moreover have "claim_by_id db' = claim_by_id db" "redemption_by_id db' = redemption_by_id db"
      by (simp_all add: fun_eq_iff claim_by_id_def redemption_by_id_def tabs)
    ultimately show ?thesis by (simp add: gift_view_def)
  qed
  ultimately show ?thesis by (auto simp: advances_def)
qed (simp add: advances_refl ok)

section \<open>The invariant\<close>

lemma gift_step_advances:
  assumes "gift_step db db'" and "gift_inv db"
  shows "advances db db'"
proof -
  from assms(2) have ok: "tables_ok db" by (simp add: gift_inv_def)
  from assms(1) show ?thesis
  proof cases
    case (gs_dispatch box)
    have "tables_ok db'"
      by (rule tables_ok_same[OF ok]) (simp_all add: gs_dispatch same_columns_def tables_okD[OF ok])
    then show ?thesis by (simp add: advances_def gs_dispatch gift_view_simps)
  qed (use ok assms(2) in \<open>blast intro: generate_advances close_advances revoke_advances
      reserve_internal_advances reserve_external_advances commit_advances cancel_advances
      purchase_advances\<close>)+
qed

lemma link_steps_linked: "link_steps v v' \<Longrightarrow> linked v \<Longrightarrow> linked v'"
  by (induction rule: rtranclp_induct) (auto intro: link_step_linked)

lemma gift_step_inv: "gift_step db db' \<Longrightarrow> gift_inv db \<Longrightarrow> gift_inv db'"
  using gift_step_advances[of db db'] link_steps_linked[of "gift_view db" "gift_view db'"]
  by (auto simp: advances_def gift_inv_def simp del: linked.simps)

lemma gift_steps_inv: "gift_steps db db' \<Longrightarrow> gift_inv db \<Longrightarrow> gift_inv db'"
  by (induction rule: rtranclp_induct) (auto intro: gift_step_inv)

lemma gift_reachable: "gift_steps empty_gift_db db \<Longrightarrow> gift_inv db"
  using gift_steps_inv gift_inv_empty by blast

lemma gift_steps_links:
  assumes "gift_steps db db'" and "gift_inv db"
  shows "link_steps (gift_view db) (gift_view db')"
  using assms
proof (induction rule: rtranclp_induct)
  case (step db1 db2)
  from step.hyps(1) step.prems have "gift_inv db1" by (rule gift_steps_inv)
  with step.hyps(2) have "link_steps (gift_view db1) (gift_view db2)"
    using gift_step_advances by (auto simp: advances_def)
  with step.IH[OF step.prems] show ?case by (rule rtranclp_trans)
qed simp

end
