(* ===== verification/Gift_Cards_Properties.thy ===== *)
theory Gift_Cards_Properties
  imports Gift_Cards_Steps
begin

text \<open>
  The properties of the gift cards, each with a run of the commands on which it is instantiated:
  a batch of two cards, a reservation that times out, and one that is committed.
\<close>

section \<open>Drawing the secrets\<close>

lemma draw_secrets_returns:
  assumes pep: "gx_pepper ctx \<noteq> []"
    and enough: "q \<le> int (card ((\<lambda>k. gx_hmac ctx (gx_pepper ctx) (platform @ [CHR 0x00] @ gx_tokens ctx k)) ` {..<N}))"
    and acc: "snd ` set acc = (\<lambda>k. gx_hmac ctx (gx_pepper ctx) (platform @ [CHR 0x00] @ gx_tokens ctx k)) ` {..<n}"
      "distinct (map snd acc)"
  shows "\<exists>res. draw_secrets ctx platform q n acc = Some (Inr res)"
  using acc
proof (induction "N - n" arbitrary: n acc)
  case 0
  let ?d = "\<lambda>k. gx_hmac ctx (gx_pepper ctx) (platform @ [CHR 0x00] @ gx_tokens ctx k)"
  have "card (?d ` {..<N}) \<le> card (?d ` {..<n})" using 0 by (intro card_mono) auto
  also have "\<dots> = length acc" using 0 by (metis distinct_card length_map set_map)
  finally show ?case using enough by (subst draw_secrets.simps) auto
next
  case (Suc m)
  let ?d = "\<lambda>k. gx_hmac ctx (gx_pepper ctx) (platform @ [CHR 0x00] @ gx_tokens ctx k)"
  have d: "digest_secret ctx (gx_tokens ctx n) platform = Inr (?d n)"
    using pep by (simp add: digest_secret_def)
  have up: "?d ` {..<Suc n} = insert (?d n) (?d ` {..<n})" by (auto simp: less_Suc_eq)
  show ?case
  proof (cases "int (length acc) < q")
    case False
    then show ?thesis by (subst draw_secrets.simps) auto
  next
    case True
    show ?thesis
    proof (cases "?d n \<in> snd ` set acc")
      case seen: True
      have "\<exists>res. draw_secrets ctx platform q (Suc n) acc = Some (Inr res)"
        using Suc.hyps(2) Suc.prems seen up by (intro Suc.hyps(1)) auto
      with True seen show ?thesis by (subst draw_secrets.simps) (simp add: d)
    next
      case new: False
      have "\<exists>res. draw_secrets ctx platform q (Suc n) (acc @ [(gx_tokens ctx n, ?d n)]) = Some (Inr res)"
        using Suc.hyps(2) Suc.prems new up by (intro Suc.hyps(1)) auto
      with True new show ?thesis by (subst draw_secrets.simps) (simp add: d)
    qed
  qed
qed

section \<open>A run\<close>

definition gift_ctx_at :: "time \<Rightarrow> gift_ctx" where
  "gift_ctx_at now = \<lparr>gx_now = now, gx_platforms = [], gx_pepper = ''p'',
     gx_hmac = (\<lambda>k m. m), gx_sha256 = (\<lambda>m. m), gx_tokens = (\<lambda>n. ''t'' @ show_nat (n div 2)),
     gx_batch_token = ''bt'', gx_default_provider = ''card_platform'',
     gx_permissions = [''gift_cards.batch_generate'', ''gift_cards.manage'', ''gift_cards.redeem'',
       ''gift_cards.reconcile''], gx_actor_id = Some ''admin'', gx_trace_id = None,
     gx_reserve_ttl = 900,
     gx_schemas = \<lparr>reg_items = map (\<lambda>k. (k, \<lambda>_. Inr ())) gift_event_keys, reg_frozen = True\<rparr>\<rparr>"

definition gift_batch_request :: generate_input where
  "gift_batch_request = \<lparr>gi_quantity = 2, gi_product_key = ''gold'', gi_schema_version = ''1'',
     gi_fulfillment_key = ''membership.gold'', gi_payload = [], gi_expires_at = None,
     gi_idempotency_key = ''b1'', gi_platform_key = ''card_platform'', gi_batch_key = None\<rparr>"

definition gift_request :: "string \<Rightarrow> string \<Rightarrow> reserve_input" where
  "gift_request secret key = \<lparr>rv_secret = secret, rv_subject_type = ''user'', rv_subject_id = ''u1'',
     rv_idempotency_key = key, rv_platform_key = None\<rparr>"

definition gift_after :: "(exn + 'a \<times> gift_db) \<Rightarrow> gift_db" where
  "gift_after r = (case r of Inl e \<Rightarrow> empty_gift_db | Inr (x, db) \<Rightarrow> db)"

definition gift_batched :: gift_db where
  "gift_batched = (case generate_batch (gift_ctx_at 0) gift_batch_request empty_gift_db of
     None \<Rightarrow> empty_gift_db | Some r \<Rightarrow> gift_after r)"

definition gift_reserved :: gift_db where
  "gift_reserved = gift_after (reserve_redemption (gift_ctx_at 10) (gift_request ''t0'' ''k1'') gift_batched)"

definition gift_committed :: gift_db where
  "gift_committed = gift_after (commit_redemption (gift_ctx_at 20) ''6'' ''k1'' gift_reserved)"

lemma gift_after_Inr: "\<not> isl r \<Longrightarrow> \<exists>x. r = Inr (x, gift_after r)"
  by (cases r) (auto simp: gift_after_def)

lemma gift_run:
  "gift_steps empty_gift_db gift_batched" "gift_steps empty_gift_db gift_reserved"
  "gift_steps empty_gift_db gift_committed" "gift_step gift_reserved gift_committed"
proof -
  have run: "\<not> Option.is_none (generate_batch (gift_ctx_at 0) gift_batch_request empty_gift_db)"
    "\<not> isl (the (generate_batch (gift_ctx_at 0) gift_batch_request empty_gift_db))"
    "\<not> isl (reserve_redemption (gift_ctx_at 10) (gift_request ''t0'' ''k1'') gift_batched)"
    "\<not> isl (commit_redemption (gift_ctx_at 20) ''6'' ''k1'' gift_reserved)"
    "generate_input_ok gift_batch_request"
    by code_simp+
  from run(1) obtain g where g: "generate_batch (gift_ctx_at 0) gift_batch_request empty_gift_db = Some g"
    by (auto simp: Option.is_none_def)
  with run(2) have "\<exists>x. g = Inr (x, gift_batched)"
    using gift_after_Inr[of g] by (simp add: gift_batched_def)
  with g run(5) have "gift_step empty_gift_db gift_batched" by (auto intro: gs_generate)
  then show 1: "gift_steps empty_gift_db gift_batched" by simp
  from gift_after_Inr[OF run(3)] have "gift_steps gift_batched gift_reserved"
    unfolding gift_reserved_def by (auto intro: reserve_redemption_steps)
  with 1 show 2: "gift_steps empty_gift_db gift_reserved" by (rule rtranclp_trans)
  from gift_after_Inr[OF run(4)] show 3: "gift_step gift_reserved gift_committed"
    unfolding gift_committed_def by (auto intro: gs_commit)
  with 2 show "gift_steps empty_gift_db gift_committed" by (rule rtranclp.rtrancl_into_rtrancl)
qed

section \<open>A card is redeemed once\<close>

definition card_redemptions :: "gift_db \<Rightarrow> gift_card \<Rightarrow> redemption list" where
  "card_redemptions db c = filter (\<lambda>r. active_redemption (rm_status r)
     \<and> rm_source_kind r = SK_internal \<and> rm_source_id r = show_nat (gc_id c)) (gd_redemptions db)"

lemma gift_invD:
  assumes "gift_inv db"
  shows "tables_ok db" "linked (card_by_id db, claim_by_id db, redemption_by_id db)"
  using assms by (simp_all add: gift_inv_def gift_view_def del: linked.simps)

lemma gift_card_link:
  "gift_inv db \<Longrightarrow> c \<in> set (gd_cards db) \<Longrightarrow> card_link (redemption_by_id db) c"
  using gift_invD[of db] by_id_unique(1)[of db c] by auto

lemma card_redemptions_linked:
  assumes inv: "gift_inv db" and c: "c \<in> set (gd_cards db)"
  shows "card_redemptions db c = (case gc_redemption c of None \<Rightarrow> []
    | Some j \<Rightarrow> [the (redemption_by_id db j)])"
proof -
  note ok = gift_invD(1)[OF inv] and l = gift_invD(2)[OF inv]
  have only: "gc_redemption c = Some (rm_id r)" if "r \<in> set (card_redemptions db c)" for r
  proof -
    from that have r: "r \<in> set (gd_redemptions db)" "active_redemption (rm_status r)"
      "rm_source_kind r = SK_internal" "rm_source_id r = show_nat (gc_id c)"
      by (auto simp: card_redemptions_def)
    from l by_id_unique(3)[OF ok r(1)] have "redemption_link (card_by_id db) (claim_by_id db) r" by auto
    with r by_id_unique(1)[OF ok c] show ?thesis by (auto simp: redemption_link_def)
  qed
  show ?thesis
  proof (cases "gc_redemption c")
    case None
    with only have "set (card_redemptions db c) = {}" by fastforce
    with None show ?thesis by simp
  next
    case (Some j)
    from card_link_Some[OF gift_card_link[OF inv c] Some] obtain r where
      r: "redemption_by_id db j = Some r" "rm_source_kind r = SK_internal"
        "rm_source_id r = show_nat (gc_id c)" "active_redemption (rm_status r)"
      by (auto simp: active_redemption_def)
    note m = by_id_mem(3)[OF r(1)]
    have "card_redemptions db c = [r]"
      unfolding card_redemptions_def
    proof (rule filter_unique)
      show "distinct (gd_redemptions db)" using tables_okD(4)[OF ok] by (simp add: distinct_map)
      show "x = r" if "x \<in> set (gd_redemptions db)" "active_redemption (rm_status x)
        \<and> rm_source_kind x = SK_internal \<and> rm_source_id x = show_nat (gc_id c)" for x
      proof -
        from that have "gc_redemption c = Some (rm_id x)" by (intro only) (simp add: card_redemptions_def)
        with Some m have "rm_id x = rm_id r" by simp
        then show ?thesis using by_id_unique(3)[OF ok that(1)] r(1) m by (metis option.inject)
      qed
    qed (use m r in auto)
    with Some r show ?thesis by simp
  qed
qed

lemma redeemed_stays:
  assumes "gift_steps db db'" and inv: "gift_inv db"
    and c: "c \<in> set (gd_cards db)" "gc_status c = CD_redeemed"
  shows "c \<in> set (gd_cards db')"
proof -
  from gift_card_link[OF inv c(1)] c(2) obtain j r where j: "gc_redemption c = Some j"
    "redemption_by_id db j = Some r" "rm_status r = RE_committed"
    by (auto simp: card_link_def split: option.splits)
  have "redemption_by_id db' j = Some r \<and> card_by_id db' (gc_id c) = Some c \<and> gift_inv db'"
    using assms(1)
  proof (induction rule: rtranclp_induct)
    case base
    then show ?case using j inv by_id_unique(1)[OF gift_invD(1)[OF inv] c(1)] by simp
  next
    case (step db1 db2)
    have one: "C' i = Some c \<and> R' j = Some r" if "link_step (C, X, R) (C', X', R')" "linked (C, X, R)"
      "C i = Some c" "R j = Some r" for C X R C' X' R' i
      using link_step_final[OF that(1,2,4) j(3)] that(3) j(1) by blast
    have more: "link_steps v v' \<Longrightarrow> fst v i = Some c \<Longrightarrow> snd (snd v) j = Some r \<Longrightarrow> linked v
      \<Longrightarrow> fst v' i = Some c \<and> snd (snd v') j = Some r \<and> linked v'" for v v' i
    proof (induction rule: rtranclp_induct)
      case (step u u')
      obtain C X R C' X' R' where u: "u = (C, X, R)" "u' = (C', X', R')" by (metis prod_cases3)
      with step one[of C X R C' X' R' i] link_step_linked[of u u'] show ?case
        by (simp del: linked.simps)
    qed simp
    from step have db2: "link_steps (gift_view db1) (gift_view db2)" "gift_inv db2"
      using gift_step_advances gift_step_inv by (auto simp: advances_def)
    from step.IH have "fst (gift_view db1) (gc_id c) = Some c" "snd (snd (gift_view db1)) j = Some r"
      "linked (gift_view db1)"
      by (simp_all add: gift_inv_def gift_view_def del: linked.simps)
    with more[OF db2(1), of "gc_id c"] have "fst (gift_view db2) (gc_id c) = Some c"
      "snd (snd (gift_view db2)) j = Some r" by blast+
    with db2(2) show ?case by (simp add: gift_view_def)
  qed
  then show ?thesis using by_id_mem(1) by blast
qed

text \<open>
  C34. In every reachable state a gift card has at most one redemption that is reserved or
  committed, exactly when it names one; it is redeemed exactly when that redemption is committed,
  reserved exactly when it is reserved; and a redeemed card is never changed by a later transaction.
\<close>

theorem gift_card_redeemed_once:
  assumes "gift_steps empty_gift_db db" and "c \<in> set (gd_cards db)"
  shows "length (card_redemptions db c) = (if gc_redemption c = None then 0 else 1)
    \<and> (gc_status c = CD_redeemed \<longleftrightarrow> list_ex (\<lambda>r. rm_status r = RE_committed) (card_redemptions db c))
    \<and> (gc_status c = CD_reserved \<longleftrightarrow> list_ex (\<lambda>r. rm_status r = RE_reserved) (card_redemptions db c))
    \<and> (gc_status c = CD_redeemed \<longrightarrow> (\<forall>db'. gift_steps db db' \<longrightarrow> c \<in> set (gd_cards db')))"
proof -
  note inv = gift_reachable[OF assms(1)]
  note link = gift_card_link[OF inv assms(2)]
  have "gc_status c = CD_redeemed \<longleftrightarrow> list_ex (\<lambda>r. rm_status r = RE_committed) (card_redemptions db c)"
    "gc_status c = CD_reserved \<longleftrightarrow> list_ex (\<lambda>r. rm_status r = RE_reserved) (card_redemptions db c)"
    "length (card_redemptions db c) = (if gc_redemption c = None then 0 else 1)"
    using link by (auto simp: card_redemptions_linked[OF inv assms(2)] card_link_def split: option.splits)
  then show ?thesis using redeemed_stays[OF _ inv assms(2)] by blast
qed

theorem gift_card_redeemed_once_witness:
  "length (card_redemptions gift_committed (hd (gd_cards gift_committed))) = 1
    \<and> gc_status (hd (gd_cards gift_committed)) = CD_redeemed"
proof -
  let ?c = "hd (gd_cards gift_committed)"
  have c: "?c \<in> set (gd_cards gift_committed)" "gc_redemption ?c = Some 6" "gc_status ?c = CD_redeemed"
    by code_simp+
  from gift_card_redeemed_once[OF gift_run(3) c(1)] c(2,3) show ?thesis by simp
qed

section \<open>Reservations that time out\<close>

definition overdue :: "gift_ctx \<Rightarrow> time option \<Rightarrow> bool" where
  "overdue ctx t = (case t of None \<Rightarrow> False | Some u \<Rightarrow> u \<le> gx_now ctx)"

lemma card_redemption_by_id:
  assumes "gift_inv db" and "c \<in> set (gd_cards db)" and "gc_status c = CD_reserved"
  obtains r where "gc_redemption c = Some (rm_id r)" and "redemption_by_id db (rm_id r) = Some r"
    and "r \<in> set (gd_redemptions db)" and "rm_source_kind r = SK_internal"
    and "rm_source_id r = show_nat (gc_id c)" and "rm_status r = RE_reserved"
    and "rm_reserved_until r = gc_reserved_until c"
proof -
  from gift_card_link[OF assms(1,2)] assms(3) obtain j r where r: "gc_redemption c = Some j"
    "redemption_by_id db j = Some r" "rm_source_kind r = SK_internal"
    "rm_source_id r = show_nat (gc_id c)" "rm_status r = RE_reserved"
    "rm_reserved_until r = gc_reserved_until c"
    by (auto simp: card_link_def split: option.splits)
  with by_id_mem(3)[OF r(2)] show thesis by (auto intro: that)
qed

lemma second_reservation_refused:
  assumes "r0 \<in> set (gd_redemptions db)" and "active_redemption (rm_status r0)"
    and "rm_source_kind r0 = rm_source_kind r" and "rm_source_id r0 = rm_source_id r"
    and "rm_status r = RE_reserved"
  shows "insert_redemption r db = Inl (PyException ''IntegrityError'')"
  using assms by (auto simp: insert_redemption_def list_ex_iff active_redemption_def requireE_def)

text \<open>
  C35. A reservation that timed out is not recovered. The reserve command takes an overdue card to
  be free again, but the old redemption is still stored as reserved (the status \<^verbatim>\<open>expired\<close> a commit
  sets is rolled back with the exception it raises), so the new row violates the index on active
  sources: every new reservation fails with an integrity error, whoever asks and however late, and
  the old one can no longer be committed. Only cancelling it makes the card available again.
\<close>

theorem timed_out_reservation_blocks_card:
  assumes "gift_steps empty_gift_db db" and "c \<in> set (gd_cards db)" and "gc_status c = CD_reserved"
    and "overdue ctx (gc_reserved_until c)" and "''gift_cards.redeem'' \<in> set (gx_permissions ctx)"
    and "batch_by_id db (gc_batch c) = Some b" and "\<not> overdue ctx (cb_expires_at b)"
    and "digest_secret ctx (rv_secret i) (reserve_platform ctx i) = Inr digest"
    and "find_internal db digest (reserve_platform ctx i) = Some c"
    and "find_redemption db (reserve_platform ctx i) (rv_idempotency_key i) = None"
  shows "reserve_redemption ctx i db = Inl (PyException ''IntegrityError'')
    \<and> (\<exists>j. gc_redemption c = Some j
        \<and> commit_redemption ctx (show_nat j) key db = Inl (gift_conflict ''gift_cards.expired'')
        \<and> (\<forall>dto db'. cancel_redemption ctx (show_nat j) db = Inr (dto, db')
            \<longrightarrow> map_option gc_status (card_by_id db' (gc_id c)) = Some CD_issued))"
proof -
  note inv = gift_reachable[OF assms(1)]
  from card_redemption_by_id[OF inv assms(2,3)] obtain r where
    r: "gc_redemption c = Some (rm_id r)" "redemption_by_id db (rm_id r) = Some r"
      "r \<in> set (gd_redemptions db)" "rm_source_kind r = SK_internal"
      "rm_source_id r = show_nat (gc_id c)" "rm_status r = RE_reserved"
      "rm_reserved_until r = gc_reserved_until c" .
  have perm: "gift_require ctx ''gift_cards.redeem'' = Inr ()"
    using assms(5) by (simp add: gift_require_def)
  have new: "insert_redemption (new_redemption ctx i SK_internal (gc_id c) v k p n) db
      = Inl (PyException ''IntegrityError'')" for v k p n
    by (rule second_reservation_refused[OF r(3)])
      (simp_all add: r new_redemption_def active_redemption_def)
  have "reserve_replay ctx i db = Inr None" by (simp add: reserve_replay_def perm assms(10))
  moreover have "release_if_due ctx c = Inr (c\<lparr>gc_status := CD_issued, gc_redemption := None,
      gc_reserved_until := None, gc_version := gc_version c + 1\<rparr>)"
    using assms(3,4) by (simp add: release_if_due_def overdue_def)
  then have "reserve_internal ctx i db = Inl (PyException ''IntegrityError'')"
    using assms(3,7) new by (simp add: reserve_internal_def assms(8,9,6) reserve_card_def
        expire_if_needed_def overdue_def Let_def)
  ultimately have "reserve_redemption ctx i db = Inl (PyException ''IntegrityError'')"
    by (simp add: reserve_redemption_def)
  moreover have "commit_redemption ctx (show_nat (rm_id r)) key db = Inl (gift_conflict ''gift_cards.expired'')"
    using assms(4) r(2,6,7) by (simp add: commit_redemption_def perm parse_id_def overdue_def)
  moreover have "map_option gc_status (card_by_id db' (gc_id c)) = Some CD_issued"
    if "cancel_redemption ctx (show_nat (rm_id r)) db = Inr (dto, db')" for dto db'
  proof -
    let ?r = "r\<lparr>rm_status := RE_cancelled, rm_cancelled_at := Some (gx_now ctx)\<rparr>"
    let ?c = "c\<lparr>gc_status := CD_issued, gc_redemption := None, gc_reserved_until := None,
      gc_version := gc_version c + 1\<rparr>"
    note at = by_id_unique(1)[OF gift_invD(1)[OF inv] assms(2)]
    have "release_source ?r (save_redemption ?r db) = Inr (save_card ?c (save_redemption ?r db))"
      using r(4,5) at assms(3) by (simp add: release_source_def parse_id_def other_by_id_save)
    with that r(2,6) have "card_by_id db' = card_by_id (save_card ?c (save_redemption ?r db))"
      by (auto simp: cancel_redemption_def perm parse_id_def Let_def cmd_ok emit_redemption_def
          gift_emit_def card_by_id_def fun_eq_iff)
    then show ?thesis
      using card_by_id_save[of "save_redemption ?r db" ?c] at by (simp add: other_by_id_save)
  qed
  ultimately show ?thesis using r(1) by blast
qed

theorem timed_out_reservation_blocks_card_witness:
  "reserve_redemption (gift_ctx_at 1000000000) (gift_request ''t0'' ''k2'') gift_reserved
      = Inl (PyException ''IntegrityError'')
    \<and> commit_redemption (gift_ctx_at 1000000000) ''6'' ''k1'' gift_reserved
      = Inl (gift_conflict ''gift_cards.expired'')"
proof -
  let ?c = "hd (gd_cards gift_reserved)" and ?b = "hd (gd_batches gift_reserved)"
  let ?ctx = "gift_ctx_at 1000000000" and ?i = "gift_request ''t0'' ''k2''"
  have c: "?c \<in> set (gd_cards gift_reserved)" "gc_status ?c = CD_reserved"
    "overdue ?ctx (gc_reserved_until ?c)" "batch_by_id gift_reserved (gc_batch ?c) = Some ?b"
    "\<not> overdue ?ctx (cb_expires_at ?b)" "''gift_cards.redeem'' \<in> set (gx_permissions ?ctx)"
    "digest_secret ?ctx (rv_secret ?i) (reserve_platform ?ctx ?i)
      = Inr (''card_platform'' @ [CHR 0x00] @ ''t0'')"
    "find_internal gift_reserved (''card_platform'' @ [CHR 0x00] @ ''t0'') (reserve_platform ?ctx ?i) = Some ?c"
    "find_redemption gift_reserved (reserve_platform ?ctx ?i) (rv_idempotency_key ?i) = None"
    "gc_redemption ?c = Some 6" "show_nat 6 = ''6''"
    by code_simp+
  from timed_out_reservation_blocks_card[OF gift_run(2) c(1-3,6,4,5,7-9)] c(10,11)
  show ?thesis by auto
qed

section \<open>Committing again\<close>

lemma committed_stays:
  assumes "gift_steps db db'" and inv: "gift_inv db"
    and r: "redemption_by_id db j = Some r" "rm_status r = RE_committed"
  shows "redemption_by_id db' j = Some r"
proof -
  have "link_steps v v' \<Longrightarrow> snd (snd v) j = Some r \<Longrightarrow> linked v
      \<Longrightarrow> snd (snd v') j = Some r \<and> linked v'" for v v'
  proof (induction rule: rtranclp_induct)
    case (step u u')
    obtain C X R C' X' R' where u: "u = (C, X, R)" "u' = (C', X', R')" by (metis prod_cases3)
    with step link_step_final[of C X R C' X' R' j r] link_step_linked[of u u'] r(2) show ?case
      by (simp del: linked.simps)
  qed simp
  from this[OF gift_steps_links[OF assms(1,2)]] inv r(1) show ?thesis
    by (simp add: gift_inv_def gift_view_def del: linked.simps)
qed

text \<open>
  C36. Committing a redemption is safe to repeat: after a commit, the same call in any later state,
  whatever happened since and however late, returns the same redemption and changes nothing, and
  the redemption can no longer be cancelled.
\<close>

theorem commit_retry_safe:
  assumes "gift_steps empty_gift_db db" and "commit_redemption ctx rid key db = Inr (dto, db')"
    and "gift_steps db' later" and "''gift_cards.redeem'' \<in> set (gx_permissions ctx')"
  shows "commit_redemption ctx' rid key later = Inr (dto, later)
    \<and> cancel_redemption ctx' rid later = Inl (gift_conflict ''gift_cards.redemption_conflict'')"
proof -
  note inv = gift_reachable[OF assms(1)]
  have inv': "gift_inv db'" using gift_step_inv[OF gs_commit[OF assms(2)] inv] .
  have "\<exists>j r. parse_id rid = Inr j \<and> redemption_by_id db' j = Some r \<and> rm_status r = RE_committed
      \<and> rm_idempotency_key r = key \<and> dto = to_redemption r"
  proof -
    from assms(2) obtain j r where j: "parse_id rid = Inr j" "redemption_by_id db j = Some r"
      by (auto simp: commit_redemption_def cmd_ok)
    show ?thesis
    proof (cases "rm_status r = RE_committed")
      case True
      with assms(2) j show ?thesis by (auto simp: commit_redemption_def cmd_ok)
    next
      case False
      let ?r = "r\<lparr>rm_status := RE_committed, rm_committed_at := Some (gx_now ctx)\<rparr>"
      from False assms(2) j obtain db1 where red: "redeem_source ?r (save_redemption ?r db) = Inr db1"
        and emit: "emit_redemption ctx ''gift_cards.redemption_committed.v1'' (source_product ?r db1) ?r db1 = Inr db'"
        and key: "rm_idempotency_key r = key" "dto = to_redemption ?r"
        by (auto simp: commit_redemption_def Let_def cmd_ok)
      have "redemption_by_id (save_redemption ?r db) j = Some ?r"
        using redemption_by_id_save[of db ?r] by_id_mem(3)[OF j(2)] j(2) by simp
      moreover have "redemption_by_id db1 = redemption_by_id (save_redemption ?r db)"
        using red by (cases "rm_source_kind r")
          (auto simp: redeem_source_def cmd_ok other_by_id_save split: option.splits)
      moreover have "redemption_by_id db' = redemption_by_id db1"
        using emit by (auto simp: emit_redemption_def gift_emit_def cmd_ok redemption_by_id_def fun_eq_iff)
      ultimately show ?thesis using j(1) key by auto
    qed
  qed
  then obtain j r where r: "parse_id rid = Inr j" "redemption_by_id db' j = Some r"
    "rm_status r = RE_committed" "rm_idempotency_key r = key" "dto = to_redemption r" by blast
  from committed_stays[OF assms(3) inv' r(2,3)] r assms(4) show ?thesis
    by (simp add: commit_redemption_def cancel_redemption_def gift_require_def)
qed

theorem commit_retry_safe_witness:
  "\<exists>dto. commit_redemption (gift_ctx_at 9999) ''6'' ''k1'' gift_committed = Inr (dto, gift_committed)"
proof -
  have "\<not> isl (commit_redemption (gift_ctx_at 20) ''6'' ''k1'' gift_reserved)"
    and p: "''gift_cards.redeem'' \<in> set (gx_permissions (gift_ctx_at 9999))" by code_simp+
  then obtain dto where "commit_redemption (gift_ctx_at 20) ''6'' ''k1'' gift_reserved
      = Inr (dto, gift_committed)"
    using gift_after_Inr unfolding gift_committed_def by blast
  from commit_retry_safe[OF gift_run(2) this _ p] show ?thesis by blast
qed

section \<open>Batches\<close>

lemma cards_by_status:
  assumes "\<And>c. c \<in> set cs \<Longrightarrow> gc_status c \<noteq> CD_expired"
  shows "length (filter (\<lambda>c. gc_batch c = k \<and> gc_status c = CD_issued) cs)
    + length (filter (\<lambda>c. gc_batch c = k \<and> gc_status c = CD_reserved) cs)
    + length (filter (\<lambda>c. gc_batch c = k \<and> gc_status c = CD_redeemed) cs)
    + length (filter (\<lambda>c. gc_batch c = k \<and> gc_status c = CD_revoked) cs)
    = count_list (map gc_batch cs) k"
  using assms by (induction cs) (auto, metis (full_types) card_state.exhaust)

text \<open>
  C37. In every reachable state the cards of a batch account for its quantity: the available, the
  reserved, the redeemed and the revoked ones add up to it, as the batch is shown. No card is ever
  stored as expired.
\<close>

theorem batch_cards_accounted:
  assumes "gift_steps empty_gift_db db" and "get_batch db bid = Inr (Some dto)"
  shows "\<exists>k. parse_id bid = Inr k
    \<and> int (bd_available_count dto + count_cards db k CD_reserved + bd_redeemed_count dto
        + bd_revoked_count dto) = bd_quantity dto
    \<and> bd_generated_count dto = bd_quantity dto \<and> count_cards db k CD_expired = 0"
proof -
  note inv = gift_reachable[OF assms(1)]
  from assms(2) obtain k b where k: "parse_id bid = Inr k" "batch_by_id db k = Some b" "dto = to_batch db b"
    by (auto simp: get_batch_def cmd_ok)
  have none: "gc_status c \<noteq> CD_expired" if "c \<in> set (gd_cards db)" for c
    using gift_card_link[OF inv that] by (auto simp: card_link_def split: option.splits)
  from by_id_mem(4)[OF k(2)] tables_okD(9)[OF gift_invD(1)[OF inv]]
  have "batch_full db b" "cb_id b = k" by simp_all
  then show ?thesis
    using k none cards_by_status[of "gd_cards db" k]
    by (auto simp: to_batch_def count_cards_def batch_full_def filter_empty_conv)
qed

theorem batch_cards_accounted_witness:
  "\<exists>dto. get_batch gift_committed ''1'' = Inr (Some dto) \<and> bd_quantity dto = 2
    \<and> bd_available_count dto + count_cards gift_committed 1 CD_reserved + bd_redeemed_count dto
      + bd_revoked_count dto = 2"
proof -
  let ?dto = "to_batch gift_committed (hd (gd_batches gift_committed))"
  have g: "get_batch gift_committed ''1'' = Inr (Some ?dto)" "parse_id ''1'' = Inr 1" "bd_quantity ?dto = 2"
    by code_simp+
  from batch_cards_accounted[OF gift_run(3) g(1)] g show ?thesis by auto
qed

text \<open>
  Generating a batch returns. If among the first random tokens there are as many different
  digests as the batch has cards, the command ends: it answers or raises, and the secrets drawn,
  one for each card, have different digests.
\<close>

theorem generate_batch_returns:
  assumes "gx_pepper ctx \<noteq> []" and "0 \<le> gi_quantity i"
    and "gi_quantity i \<le> int (card ((\<lambda>n. gx_hmac ctx (gx_pepper ctx)
        (gi_platform_key i @ [CHR 0x00] @ gx_tokens ctx n)) ` {..<N}))"
  shows "\<exists>res. generate_batch ctx i db = Some res
    \<and> (\<exists>drawn. draw_secrets ctx (gi_platform_key i) (gi_quantity i) 0 [] = Some (Inr drawn)
        \<and> int (length drawn) = gi_quantity i \<and> distinct (map snd drawn))"
proof -
  from draw_secrets_returns[OF assms(1,3), of "[]" 0] obtain drawn where
    drawn: "draw_secrets ctx (gi_platform_key i) (gi_quantity i) 0 [] = Some (Inr drawn)" by auto
  moreover have "\<exists>res. generate_batch ctx i db = Some res"
    by (auto simp: generate_batch_def Let_def drawn split: sum.splits option.splits)
  ultimately show ?thesis using draw_secrets_result[OF drawn] assms(2) by auto
qed

theorem generate_batch_returns_witness:
  "\<exists>res. generate_batch (gift_ctx_at 0) gift_batch_request gift_committed = Some res"
proof -
  let ?d = "\<lambda>n. gx_hmac (gift_ctx_at 0) (gx_pepper (gift_ctx_at 0))
    (gi_platform_key gift_batch_request @ [CHR 0x00] @ gx_tokens (gift_ctx_at 0) n)"
  have "card {?d 0, ?d 2} \<le> card (?d ` {..<3})" by (rule card_mono) auto
  moreover have "?d 0 \<noteq> ?d 2" by code_simp
  ultimately have "gi_quantity gift_batch_request \<le> int (card (?d ` {..<3}))"
    by (simp add: gift_batch_request_def)
  from generate_batch_returns[OF _ _ this] show ?thesis
    by (auto simp: gift_ctx_at_def gift_batch_request_def)
qed

section \<open>Allocation\<close>

text \<open>
  Recording a purchase names cards of a batch but does not mark them: another purchase is given
  the same cards, and a closed batch is still allocated from.
\<close>

lemma purchase_leaves_cards:
  "record_purchase ctx p db = Inr (res, db') \<Longrightarrow> gd_cards db' = gd_cards db"
  by (auto simp: record_purchase_def Let_def insert_claim_def gift_emit_def cmd_ok split: option.splits)

definition gift_purchase :: "string \<Rightarrow> purchase_input" where
  "gift_purchase po = \<lparr>pi_fact = \<lparr>pf_platform_key = ''afdian'', pf_external_order_id = po,
     pf_provider_fact_id = po, pf_paid = True, pf_product_key = ''gold'', pf_schema_version = ''1'',
     pf_fulfillment_key = ''membership.gold'', pf_payload = [], pf_occurred_at = 5,
     pf_expires_at = None, pf_idempotency_key = po, pf_quantity = 2\<rparr>, pi_batch_id = Some ''1''\<rparr>"

definition gift_closed :: gift_db where
  "gift_closed = gift_after (close_batch (gift_ctx_at 5) ''1'' ''sold out'' gift_batched)"

definition gift_purchased :: gift_db where
  "gift_purchased = gift_after (record_purchase (gift_ctx_at 6) (gift_purchase ''o1'') gift_closed)"

definition allocation :: "exn + purchase_result \<times> gift_db \<Rightarrow> string list" where
  "allocation r = (case r of Inl e \<Rightarrow> [] | Inr (res, db) \<Rightarrow> px_allocated res)"

lemma closed_batch_allocated_twice:
  "map cb_status (gd_batches gift_closed) = [BA_closed]
    \<and> allocation (record_purchase (gift_ctx_at 6) (gift_purchase ''o1'') gift_closed) = [''4'', ''5'']
    \<and> allocation (record_purchase (gift_ctx_at 7) (gift_purchase ''o2'') gift_purchased) = [''4'', ''5'']"
  by code_simp

end
