(* ===== verification/Kernel_Secrets.thy ===== *)
theory Kernel_Secrets
  imports Kernel_Errors
begin

text \<open>
  Secrets in stored and logged values (\<^verbatim>\<open>inc/kernel/security/redaction.py\<close>,
  \<^verbatim>\<open>inc/kernel/security/envelope.py\<close>). Fernet is a parameter, a record of its two functions;
  \<open>decrypt\<close> answers \<open>None\<close> where the library raises.
\<close>

section \<open>Secret keys\<close>

fun occurs_in :: "string \<Rightarrow> string \<Rightarrow> bool" where
  "occurs_in w [] = (w = [])"
| "occurs_in w (c # s) = (take (length w) (c # s) = w \<or> occurs_in w s)"

definition ascii_lower :: "char \<Rightarrow> char" where
  "ascii_lower c = (if 65 \<le> (of_char c :: nat) \<and> (of_char c :: nat) \<le> 90
     then char_of ((of_char c :: nat) + 32) else c)"

text \<open>The alternatives of \<^verbatim>\<open>_SECRET_KEY\<close>, \<^verbatim>\<open>[_-]?\<close> written out.\<close>

definition secret_words :: "string list" where
  "secret_words = [''password'', ''passwd'', ''passphrase'', ''passcode'', ''pwd'', ''secret'',
     ''token'', ''apikey'', ''api_key'', ''api-key'', ''accesskey'', ''access_key'', ''access-key'',
     ''consumerkey'', ''consumer_key'', ''consumer-key'', ''authorization'', ''cookie'',
     ''clientsecret'', ''client_secret'', ''client-secret'', ''signature'', ''credential'',
     ''privatekey'', ''private_key'', ''private-key'', ''refreshtoken'', ''refresh_token'',
     ''refresh-token'']"

definition is_secret_key :: "string \<Rightarrow> bool" where
  "is_secret_key k \<longleftrightarrow> list_ex (\<lambda>w. occurs_in w (map ascii_lower k)) secret_words"

section \<open>Redaction\<close>

definition mask :: json where
  "mask = JStr ''[REDACTED]''"

text \<open>\<open>redact\<close>: the key of the value in its dictionary, and how deep the value lies.\<close>

fun redact :: "string option \<Rightarrow> nat \<Rightarrow> json \<Rightarrow> json" where
  "redact k depth v =
     (if 16 < depth then mask
      else if (case k of None \<Rightarrow> False | Some x \<Rightarrow> is_secret_key x) then mask
      else (case v of
          JObj d \<Rightarrow> JObj (map (\<lambda>(x, y). (x, redact (Some x) (Suc depth) y)) d)
        | JList xs \<Rightarrow> JList (map (redact None (Suc depth)) xs)
        | _ \<Rightarrow> v))"

declare redact.simps [simp del]

text \<open>No value under a secret key is left, at any depth.\<close>

fun no_secrets :: "json \<Rightarrow> bool" where
  "no_secrets (JObj d) = (\<forall>(x, y)\<in>set d. (is_secret_key x \<longrightarrow> y = mask) \<and> no_secrets y)"
| "no_secrets (JList xs) = (\<forall>y\<in>set xs. no_secrets y)"
| "no_secrets _ = True"

lemma no_secrets_mask [simp]: "no_secrets mask"
  by (simp add: mask_def)

lemma redact_secret [simp]: "is_secret_key x \<Longrightarrow> redact (Some x) n v = mask"
  by (simp add: redact.simps)

lemma redact_no_secrets: "no_secrets (redact k n v)"
proof (induction k n v rule: redact.induct)
  case (1 k depth v)
  show ?case
  proof (cases "16 < depth \<or> (case k of None \<Rightarrow> False | Some x \<Rightarrow> is_secret_key x)")
    case True
    then show ?thesis by (auto simp: redact.simps[of k])
  next
    case False
    with 1 show ?thesis by (cases v) (auto simp: redact.simps[of k])
  qed
qed

section \<open>The envelope\<close>

record secret_box =
  sb_encrypt :: "string \<Rightarrow> string"
  sb_decrypt :: "string \<Rightarrow> string option"

definition envelope_prefix :: string where
  "envelope_prefix = ''enc:v1:''"

definition has_prefix :: "string \<Rightarrow> bool" where
  "has_prefix s \<longleftrightarrow> take 7 s = envelope_prefix"

definition protect_text :: "secret_box \<Rightarrow> string \<Rightarrow> exn + string" where
  "protect_text b s = Inr (if has_prefix s then s else envelope_prefix @ sb_encrypt b s)"

definition reveal_text :: "secret_box \<Rightarrow> string \<Rightarrow> exn + string" where
  "reveal_text b s =
     bindE (requireE (has_prefix s) (PyException ''ValueError'')) (\<lambda>_.
     someE (sb_decrypt b (drop 7 s)) (PyException ''ValueError''))"

text \<open>\<^verbatim>\<open>_map\<close>: the function is applied to every text under a secret key, inside objects too.\<close>

fun map_secrets :: "(string \<Rightarrow> exn + string) \<Rightarrow> dict \<Rightarrow> exn + dict" where
  "map_secrets f [] = Inr []"
| "map_secrets f ((k, v) # d) =
     bindE (case v of
         JObj d' \<Rightarrow> bindE (map_secrets f d') (\<lambda>d1. Inr (JObj d1))
       | JStr s \<Rightarrow> (if is_secret_key k then bindE (f s) (\<lambda>t. Inr (JStr t)) else Inr v)
       | _ \<Rightarrow> Inr v) (\<lambda>v'.
     bindE (map_secrets f d) (\<lambda>d1. Inr ((k, v') # d1)))"

definition protect_mapping :: "secret_box \<Rightarrow> dict \<Rightarrow> exn + dict" where
  "protect_mapping b d = map_secrets (protect_text b) d"

definition reveal_mapping :: "secret_box \<Rightarrow> dict \<Rightarrow> exn + dict" where
  "reveal_mapping b d = map_secrets (reveal_text b) d"

definition scrub_mapping :: "dict \<Rightarrow> dict" where
  "scrub_mapping d = filter (\<lambda>(k, _). \<not> is_secret_key k) d"

lemma scrubbed: "(k, v) \<in> set (scrub_mapping d) \<Longrightarrow> \<not> is_secret_key k"
  by (auto simp: scrub_mapping_def)

text \<open>The texts under secret keys, which the envelope is to hide.\<close>

fun secret_texts :: "dict \<Rightarrow> string list" where
  "secret_texts [] = []"
| "secret_texts ((k, v) # d) = (case v of
       JObj d' \<Rightarrow> secret_texts d'
     | JStr s \<Rightarrow> (if is_secret_key k then [s] else [])
     | _ \<Rightarrow> []) @ secret_texts d"

lemma map_secrets_round_trip:
  assumes "\<And>s. s \<in> set (secret_texts d) \<Longrightarrow> \<exists>t. f s = Inr t \<and> g t = Inr s"
  shows "\<exists>d'. map_secrets f d = Inr d' \<and> map_secrets g d' = Inr d"
  using assms
proof (induction f d rule: map_secrets.induct)
  case (2 f k v d)
  have "\<exists>v'. (case v of
         JObj d' \<Rightarrow> bindE (map_secrets f d') (\<lambda>d1. Inr (JObj d1))
       | JStr s \<Rightarrow> (if is_secret_key k then bindE (f s) (\<lambda>t. Inr (JStr t)) else Inr v)
       | _ \<Rightarrow> Inr v) = Inr v' \<and> (case v' of
         JObj d' \<Rightarrow> bindE (map_secrets g d') (\<lambda>d1. Inr (JObj d1))
       | JStr s \<Rightarrow> (if is_secret_key k then bindE (g s) (\<lambda>t. Inr (JStr t)) else Inr v')
       | _ \<Rightarrow> Inr v') = Inr v"
  proof (cases v)
    case (JObj d')
    with 2 show ?thesis by fastforce
  next
    case (JStr s)
    with 2(3) show ?thesis by (cases "is_secret_key k") force+
  qed auto
  then obtain v' where v': "(case v of
         JObj d' \<Rightarrow> bindE (map_secrets f d') (\<lambda>d1. Inr (JObj d1))
       | JStr s \<Rightarrow> (if is_secret_key k then bindE (f s) (\<lambda>t. Inr (JStr t)) else Inr v)
       | _ \<Rightarrow> Inr v) = Inr v'" and inv: "(case v' of
         JObj d' \<Rightarrow> bindE (map_secrets g d') (\<lambda>d1. Inr (JObj d1))
       | JStr s \<Rightarrow> (if is_secret_key k then bindE (g s) (\<lambda>t. Inr (JStr t)) else Inr v')
       | _ \<Rightarrow> Inr v') = Inr v" by blast
  have "\<exists>d'. map_secrets f d = Inr d' \<and> map_secrets g d' = Inr d"
    by (rule 2(2)[OF v']) (use 2(3) in simp)
  with v' inv show ?case by force
qed simp

end
