(* ===== verification/Notification_Model.thy ===== *)
theory Notification_Model
  imports Kernel_Outbox Kernel_Page Kernel_Secrets
begin

text \<open>
  The data of the notification capability (\<^verbatim>\<open>inc/capabilities/notification/specs.py\<close>,
  \<^verbatim>\<open>models.py\<close>, \<^verbatim>\<open>ports.py\<close>, \<^verbatim>\<open>schemas.py\<close>, \<^verbatim>\<open>events.py\<close>): declarations and their registry,
  the four tables with the outbox, the ports and the event emitter. The workflow instances the
  commands start are kept beside the tables as pairs of business key and input; the runner
  itself is the theory \<^verbatim>\<open>Kernel_Workflow\<close>.
\<close>

section \<open>Declarations\<close>

record delivery_policy =
  dp_max_attempts :: int
  dp_base_delay :: rat
  dp_max_delay :: rat

definition check_delivery_policy :: "delivery_policy \<Rightarrow> exn + delivery_policy" where
  "check_delivery_policy p =
     bindE (requireE (1 \<le> dp_max_attempts p) (PyException ''ValueError'')) (\<lambda>_.
     bindE (requireE (0 < dp_base_delay p) (PyException ''ValueError'')) (\<lambda>_. Inr p))"

definition default_delivery_policy :: delivery_policy where
  "default_delivery_policy = \<lparr>dp_max_attempts = 5, dp_base_delay = 60, dp_max_delay = 3600\<rparr>"

text \<open>
  The Pydantic schema of the variables is its list of fields and the function that validates a
  dictionary and dumps it for JSON.
\<close>

record notification_spec =
  ns_key :: string
  ns_version :: string
  ns_channels :: "string list"
  ns_template_keys :: "string list"
  ns_fields :: "string list"
  ns_validate :: "dict \<Rightarrow> exn + dict"
  ns_recipient_kind :: string
  ns_sensitivity :: string
  ns_locale :: string
  ns_fallback_channels :: "string list"
  ns_policy :: delivery_policy

definition known_channels :: "string list" where
  "known_channels = [''email'', ''sms'']"

text \<open>\<^verbatim>\<open>^[a-z0-9]+(?:\.[a-z0-9_]+)+$\<close>: the first segment has no underscore.\<close>

definition notification_key :: "string \<Rightarrow> bool" where
  "notification_key k \<longleftrightarrow> dotted key_char k \<and> CHR ''_'' \<notin> set (hd (split_on CHR ''.'' k))"

definition check_notification_spec :: "notification_spec \<Rightarrow> exn + notification_spec" where
  "check_notification_spec s =
     (let bad = PyException ''ValueError'' in
      bindE (requireE (re_match_dollar notification_key (ns_key s)) bad) (\<lambda>_.
      bindE (requireE (ns_version s \<noteq> []) bad) (\<lambda>_.
      bindE (requireE (set (ns_channels s) \<subseteq> set known_channels) bad) (\<lambda>_.
      bindE (requireE (ns_channels s \<noteq> []) bad) (\<lambda>_.
      bindE (requireE (set (ns_fallback_channels s) \<subseteq> set known_channels) bad) (\<lambda>_.
      bindE (requireE (ns_sensitivity s = ''normal'' \<or> ns_sensitivity s = ''sensitive'') bad) (\<lambda>_.
      bindE (requireE (ns_template_keys s \<noteq> []) bad) (\<lambda>_.
      bindE (requireE (list_all (re_match_dollar snake_key) (ns_template_keys s)) bad) (\<lambda>_.
      Inr s)))))))))"

definition notification_register ::
    "string list \<Rightarrow> string \<Rightarrow> notification_spec \<Rightarrow> notification_spec registry
      \<Rightarrow> exn + notification_spec registry" where
  "notification_register allowed k s r =
     bindE (requireE (\<not> reg_frozen r) frozen_error) (\<lambda>_.
     bindE (requireE (k \<in> set allowed) (KernelError ''notification.unknown_trigger'' VALIDATION)) (\<lambda>_.
     bindE (requireE (registry_lookup r k = None)
       (KernelError ''notification.duplicate_spec'' INTERNAL)) (\<lambda>_.
     Inr (registry_store k s r))))"

interpretation notifications: frozen_registry
  "notification_register allowed" registry_lookup reg_frozen registry_freeze
  by unfold_locales (auto simp: notification_register_def cmd_ok)

definition notification_require :: "notification_spec registry \<Rightarrow> string \<Rightarrow> exn + notification_spec" where
  "notification_require r k =
     someE (registry_lookup r k) (KernelError ''notification.unknown_spec'' INTERNAL)"

definition require_trigger :: "notification_spec registry \<Rightarrow> string \<Rightarrow> exn + notification_spec" where
  "require_trigger r k = (case notification_require r k of
     Inl e \<Rightarrow> Inl (if err_code e = ''notification.unknown_spec''
                   then KernelError ''notification.unknown_trigger'' VALIDATION else e)
   | Inr s \<Rightarrow> Inr s)"

section \<open>Tables\<close>

datatype delivery_state =
    DL_pending | DL_sending | DL_delivered | DL_unknown | DL_failed | DL_dead | DL_cancelled
datatype intent_state = NI_pending | NI_delivered | NI_cancelled

fun delivery_text :: "delivery_state \<Rightarrow> string" where
  "delivery_text DL_pending = ''pending''"
| "delivery_text DL_sending = ''sending''"
| "delivery_text DL_delivered = ''delivered''"
| "delivery_text DL_unknown = ''unknown''"
| "delivery_text DL_failed = ''failed''"
| "delivery_text DL_dead = ''dead''"
| "delivery_text DL_cancelled = ''cancelled''"

record notification_template =
  nt_trigger :: string
  nt_key :: string
  nt_version :: string
  nt_channel :: string
  nt_locale :: string
  nt_subject :: string
  nt_body :: string
  nt_schema_version :: string
  nt_status :: string
  nt_updated_at :: time

record notification_intent =
  ni_id :: nat
  ni_spec_key :: string
  ni_idempotency_key :: string
  ni_recipient_type :: string
  ni_recipient_id :: string
  ni_schema_version :: string
  ni_variables :: dict
  ni_requested_at :: time
  ni_state :: intent_state
  ni_cancelled_at :: "time option"
  ni_created_at :: time

record delivery =
  dl_id :: nat
  dl_intent :: nat
  dl_channel :: string
  dl_provider_key :: string
  dl_recipient_type :: string
  dl_recipient_id :: string
  dl_address_digest :: string
  dl_masked_address :: string
  dl_attempt :: int
  dl_status :: delivery_state
  dl_provider_ref :: "string option"
  dl_error_category :: "string option"
  dl_error_summary :: "string option"
  dl_next_retry_at :: "time option"
  dl_delivered_at :: "time option"
  dl_lease_owner :: "string option"
  dl_lease_expires_at :: "time option"
  dl_created_at :: time

datatype send_status = SS_delivered | SS_failed | SS_unknown | SS_unavailable

record delivery_attempt =
  da_delivery :: nat
  da_attempt :: int
  da_sequence :: nat
  da_provider_key :: string
  da_status :: send_status
  da_provider_ref :: "string option"
  da_error_category :: "string option"
  da_error_summary :: "string option"
  da_at :: time

record notification_db =
  nd_templates :: "notification_template list"
  nd_intents :: "notification_intent list"
  nd_deliveries :: "delivery list"
  nd_attempts :: "delivery_attempt list"
  nd_outbox :: "outbox_message list"
  nd_runs :: "(string \<times> dict) list"
  nd_next_id :: nat

definition empty_notification_db :: notification_db where
  "empty_notification_db = \<lparr>nd_templates = [], nd_intents = [], nd_deliveries = [],
     nd_attempts = [], nd_outbox = [], nd_runs = [], nd_next_id = 1\<rparr>"

definition intent_by_id :: "notification_db \<Rightarrow> nat \<Rightarrow> notification_intent option" where
  "intent_by_id db i = find (\<lambda>x. ni_id x = i) (nd_intents db)"

definition delivery_by_id :: "notification_db \<Rightarrow> nat \<Rightarrow> delivery option" where
  "delivery_by_id db i = find (\<lambda>x. dl_id x = i) (nd_deliveries db)"

definition save_intent :: "notification_intent \<Rightarrow> notification_db \<Rightarrow> notification_db" where
  "save_intent x db =
     db\<lparr>nd_intents := update_where (\<lambda>y. ni_id y = ni_id x) (\<lambda>_. x) (nd_intents db)\<rparr>"

definition save_delivery :: "delivery \<Rightarrow> notification_db \<Rightarrow> notification_db" where
  "save_delivery x db =
     db\<lparr>nd_deliveries := update_where (\<lambda>y. dl_id y = dl_id x) (\<lambda>_. x) (nd_deliveries db)\<rparr>"

text \<open>\<open>runner.start\<close> of the delivery workflow: the business key decides.\<close>

definition start_delivery :: "string \<Rightarrow> string \<Rightarrow> notification_db \<Rightarrow> notification_db" where
  "start_delivery key did db =
     (if key \<in> fst ` set (nd_runs db) then db
      else db\<lparr>nd_runs := nd_runs db @ [(key, [(''delivery_id'', JStr did)])]\<rparr>)"

section \<open>Ports\<close>

record recipient_target =
  rt_channel :: string
  rt_address :: string
  rt_masked :: string

record send_result =
  sr_status :: send_status
  sr_provider_ref :: "string option"
  sr_error_category :: "string option"
  sr_error_summary :: "string option"
  sr_fallback :: bool

text \<open>\<open>ProviderError\<close>: message, category, permanent, fallback allowed.\<close>

record provider_error =
  pe_message :: string
  pe_category :: error_category
  pe_permanent :: bool
  pe_fallback :: bool

definition provider_retry_category :: "provider_error \<Rightarrow> retry_category" where
  "provider_retry_category e =
     (if pe_permanent e then Retry_PERMANENT
      else if pe_category e = RATE_LIMITED then Retry_RATE_LIMITED else Retry_TRANSIENT)"

fun retry_text :: "retry_category \<Rightarrow> string" where
  "retry_text Retry_TRANSIENT = ''transient''"
| "retry_text Retry_RATE_LIMITED = ''rate_limited''"
| "retry_text Retry_CONFLICT = ''conflict''"
| "retry_text Retry_PERMANENT = ''permanent''"
| "retry_text Retry_CANCELLED = ''cancelled''"

text \<open>
  What a provider call can do: answer, raise a \<open>ProviderError\<close>, raise another exception (its class
  name), or be cut off by the timeout of the runner.
\<close>

datatype send_outcome =
    Sent send_result | Send_error provider_error | Send_raised string | Send_timeout

text \<open>The arguments of \<open>send\<close>: target, subject, body, idempotency key.\<close>

record notification_provider =
  np_key :: string
  np_send :: "recipient_target \<Rightarrow> string \<Rightarrow> string \<Rightarrow> string \<Rightarrow> send_outcome"

section \<open>Context\<close>

text \<open>
  \<open>nx_providers\<close> gives for a bound channel the tuple of providers, or what \<^verbatim>\<open>resolve_many\<close> answers
  or raises. \<open>nx_repr\<close> is \<^verbatim>\<open>str\<close> of a list, an object or a time.
\<close>

record notification_ctx =
  nx_now :: time
  nx_specs :: "notification_spec registry"
  nx_resolve :: "string \<Rightarrow> string \<Rightarrow> string \<Rightarrow> exn + recipient_target option"
  nx_providers :: "(string \<times> (exn + notification_provider list)) list"
  nx_permissions :: "string list"
  nx_trace_id :: "string option"
  nx_protector :: "secret_box option"
  nx_schemas :: "(dict \<Rightarrow> exn + unit) registry"
  nx_digest :: "string \<Rightarrow> string"
  nx_repr :: "json \<Rightarrow> string"

definition notification_permission :: "notification_ctx \<Rightarrow> string \<Rightarrow> exn + unit" where
  "notification_permission ctx key = requireE (key \<in> set (nx_permissions ctx))
     (KernelError ''notification.forbidden'' FORBIDDEN)"

definition notification_conflict :: "string \<Rightarrow> exn" where
  "notification_conflict c = KernelError c CONFLICT"

definition notification_missing :: exn where
  "notification_missing = KernelError ''notification.delivery_not_found'' NOT_FOUND"

text \<open>\<open>_require_spec\<close>\<close>

definition require_spec :: "notification_ctx \<Rightarrow> string \<Rightarrow> exn + notification_spec" where
  "require_spec ctx key = (case require_trigger (nx_specs ctx) key of
     Inl e \<Rightarrow> Inl (if err_code e = ''notification.unknown_spec'' \<or> err_code e = ''notification.unknown_trigger''
                   then KernelError ''notification.unknown_trigger'' VALIDATION else e)
   | Inr s \<Rightarrow> Inr s)"

text \<open>The calls give exactly the fields of the schema of the key, a missing reference is null.\<close>

definition notification_emit ::
    "notification_ctx \<Rightarrow> string \<Rightarrow> delivery \<Rightarrow> notification_intent \<Rightarrow> dict \<Rightarrow> notification_db
      \<Rightarrow> exn + notification_db" where
  "notification_emit ctx key d i vals db =
     bindE (outbox_append (nx_schemas ctx) (nd_next_id db + 1) (nx_now ctx)
        \<lparr>ev_id = nd_next_id db, ev_key = key, ev_occurred_at = nx_now ctx,
          ev_producer = ''notification'', ev_aggregate_type = Some ''notification'',
          ev_aggregate_id = Some (show_nat (dl_id d)), ev_trace_id = nx_trace_id ctx,
          ev_payload = [(''delivery_id'', id_json (dl_id d)), (''intent_id'', id_json (ni_id i)),
            (''spec_key'', JStr (ni_spec_key i)), (''channel'', JStr (dl_channel d))] @ vals\<rparr>
        (nd_outbox db)) (\<lambda>box.
     Inr (db\<lparr>nd_outbox := box, nd_next_id := nd_next_id db + 2\<rparr>))"

end
