(* ===== verification/Notification_Templates.thy ===== *)
theory Notification_Templates
  imports Notification_Model
begin

text \<open>
  Templates of notifications: the substitution of the delivery (\<open>render_template\<close> of
  \<^verbatim>\<open>inc/capabilities/notification/activities.py\<close>), the check of an edited template with
  \<^verbatim>\<open>string.Formatter\<close> (\<^verbatim>\<open>commands.py\<close>), the edit command, the lookup and the seeding of the
  built-in templates (\<^verbatim>\<open>auth.py\<close>).
\<close>

section \<open>Substitution\<close>

definition letter_char :: "char \<Rightarrow> bool" where
  "letter_char c \<longleftrightarrow> lower_char c \<or> 65 \<le> (of_char c :: nat) \<and> (of_char c :: nat) \<le> 90"

definition name_start :: "char \<Rightarrow> bool" where
  "name_start c \<longleftrightarrow> letter_char c \<or> c = CHR ''_''"

definition name_char :: "char \<Rightarrow> bool" where
  "name_char c \<longleftrightarrow> name_start c \<or> digit_char c"

text \<open>\<^verbatim>\<open>_PLACEHOLDER.sub\<close>: one pass from the left, a name without a value stays as it is written.\<close>

function render_text :: "(string \<Rightarrow> string option) \<Rightarrow> string \<Rightarrow> string" where
  "render_text f [] = []"
| "render_text f (c # s) =
     (let name = takeWhile name_char s; rest = dropWhile name_char s in
      if c = CHR ''{'' \<and> name \<noteq> [] \<and> name_start (hd name) \<and> rest \<noteq> [] \<and> hd rest = CHR ''}''
      then (case f name of Some v \<Rightarrow> v | None \<Rightarrow> c # name @ [CHR ''}'']) @ render_text f (tl rest)
      else c # render_text f s)"
  by pat_completeness auto
termination
proof (relation "measure (\<lambda>(_, s). length s)")
  fix f :: "string \<Rightarrow> string option" and c s name rest
  assume "rest = dropWhile name_char s"
  then have "length rest \<le> length s" by (simp add: length_dropWhile_le)
  then show "((f, tl rest), f, c # s) \<in> measure (\<lambda>(_, s). length s)" by simp
qed auto

declare render_text.simps(2) [simp del]

definition variable_text :: "(json \<Rightarrow> string) \<Rightarrow> dict \<Rightarrow> string \<Rightarrow> string option" where
  "variable_text repr vars k = (case dget vars k of
     None \<Rightarrow> None | Some JNull \<Rightarrow> None | Some (JStr s) \<Rightarrow> Some s | Some (JInt i) \<Rightarrow> Some (show_int i)
   | Some (JBool b) \<Rightarrow> Some (if b then ''True'' else ''False'') | Some v \<Rightarrow> Some (repr v))"

definition render_template ::
    "(json \<Rightarrow> string) \<Rightarrow> string \<Rightarrow> string \<Rightarrow> dict \<Rightarrow> string \<times> string" where
  "render_template repr subject body vars =
     (render_text (variable_text repr vars) subject, render_text (variable_text repr vars) body)"

section \<open>The fields of a format string\<close>

text \<open>
  \<^verbatim>\<open>Formatter().parse\<close>, of which the command reads the field names alone: \<open>None\<close> is its
  \<^verbatim>\<open>ValueError\<close>. A field ends at its closing brace, a conversion or a format specification is
  skipped, doubled braces are literal.
\<close>

function scan_name :: "string \<Rightarrow> (string \<times> char \<times> string) option" where
  "scan_name [] = None"
| "scan_name (c # s) =
     (if c = CHR ''{'' then None
      else if c = CHR ''['' then
        map_option (\<lambda>(n, t, r). (c # takeWhile (\<lambda>x. x \<noteq> CHR '']'') s @ n, t, r))
          (scan_name (dropWhile (\<lambda>x. x \<noteq> CHR '']'') s))
      else if c = CHR ''}'' \<or> c = CHR '':'' \<or> c = CHR ''!'' then Some ([], c, s)
      else map_option (\<lambda>(n, t, r). (c # n, t, r)) (scan_name s))"
  by pat_completeness auto
termination
  by (relation "measure length") (auto simp: le_imp_less_Suc length_dropWhile_le)

fun spec_end :: "nat \<Rightarrow> string \<Rightarrow> string option" where
  "spec_end n [] = None"
| "spec_end n (c # s) =
     (if c = CHR ''{'' then spec_end (Suc n) s
      else if c = CHR ''}'' then (if n \<le> 1 then Some s else spec_end (n - 1) s)
      else spec_end n s)"

definition parse_field :: "string \<Rightarrow> (string \<times> string) option" where
  "parse_field s = (case scan_name s of
     None \<Rightarrow> None
   | Some (name, c, r) \<Rightarrow>
       if c = CHR ''}'' then Some (name, r)
       else if c = CHR ''!'' then
         (case r of
            _ # c2 # r2 \<Rightarrow> if c2 = CHR ''}'' then Some (name, r2)
              else if c2 = CHR '':'' then map_option (Pair name) (spec_end 1 r2) else None
          | _ \<Rightarrow> None)
       else map_option (Pair name) (spec_end 1 r))"

lemma scan_name_shorter: "scan_name s = Some (n, c, r) \<Longrightarrow> length r < length s"
proof (induction s arbitrary: n rule: scan_name.induct)
  case (2 c' s)
  have "length (dropWhile (\<lambda>x. x \<noteq> CHR '']'') s) \<le> length s" by (rule length_dropWhile_le)
  with 2 show ?case by (fastforce split: if_splits)
qed simp

lemma spec_end_shorter: "spec_end n s = Some r \<Longrightarrow> length r < length s"
  by (induction n s rule: spec_end.induct) (auto split: if_splits intro: less_SucI)

lemma parse_field_shorter: "parse_field s = Some (n, r) \<Longrightarrow> length r < length s"
  by (auto simp: parse_field_def split: option.splits prod.splits if_splits list.splits
      dest!: scan_name_shorter spec_end_shorter)

function format_fields :: "string \<Rightarrow> string list option" where
  "format_fields [] = Some []"
| "format_fields (c # s) =
     (if c \<noteq> CHR ''{'' \<and> c \<noteq> CHR ''}'' then format_fields s
      else if s = [] then None
      else if hd s = c then format_fields (tl s)
      else if c = CHR ''}'' then None
      else (case parse_field s of None \<Rightarrow> None
        | Some (name, r) \<Rightarrow> map_option ((#) name) (format_fields r)))"
  by pat_completeness auto
termination
  by (relation "measure length") (auto simp: less_SucI dest: parse_field_shorter)

declare format_fields.simps(2) [simp del] scan_name.simps(2) [simp del]

text \<open>\<^verbatim>\<open>str.isidentifier\<close> on Latin-1 characters.\<close>

definition identifier_start :: "char \<Rightarrow> bool" where
  "identifier_start c \<longleftrightarrow> (let n = (of_char c :: nat) in name_start c \<or> n = 170 \<or> n = 181 \<or> n = 186
     \<or> 192 \<le> n \<and> n \<noteq> 215 \<and> n \<noteq> 247)"

definition is_identifier :: "string \<Rightarrow> bool" where
  "is_identifier s \<longleftrightarrow> s \<noteq> [] \<and> identifier_start (hd s)
     \<and> list_all (\<lambda>c. identifier_start c \<or> digit_char c \<or> (of_char c :: nat) = 183) (tl s)"

definition template_invalid :: exn where
  "template_invalid = KernelError ''notification.template_invalid'' VALIDATION"

definition template_fields :: "string \<Rightarrow> string \<Rightarrow> exn + string list" where
  "template_fields subject body =
     bindE (someE (format_fields subject) template_invalid) (\<lambda>a.
     bindE (someE (format_fields body) template_invalid) (\<lambda>b.
     bindE (requireE (list_all is_identifier (a @ b)) template_invalid) (\<lambda>_. Inr (a @ b))))"

definition validate_template_variables :: "notification_spec \<Rightarrow> string \<Rightarrow> string \<Rightarrow> exn + unit" where
  "validate_template_variables spec subject body =
     bindE (template_fields subject body) (\<lambda>found.
     requireE (set found = set (ns_fields spec))
       (KernelError ''notification.template_variables_invalid'' VALIDATION))"

section \<open>Editing and finding templates\<close>

record template_input =
  ti_subject :: string
  ti_body :: string
  ti_status :: string

definition template_input_ok :: "template_input \<Rightarrow> bool" where
  "template_input_ok i \<longleftrightarrow> 1 \<le> length (ti_subject i) \<and> length (ti_subject i) \<le> 500
     \<and> 1 \<le> length (ti_body i) \<and> length (ti_body i) \<le> 5000
     \<and> (ti_status i = ''active'' \<or> ti_status i = ''disabled'')"

definition same_template :: "string \<Rightarrow> string \<Rightarrow> string \<Rightarrow> string \<Rightarrow> string \<Rightarrow> notification_template \<Rightarrow> bool" where
  "same_template trigger key version channel locale t \<longleftrightarrow> nt_trigger t = trigger \<and> nt_key t = key
     \<and> nt_version t = version \<and> nt_channel t = channel \<and> nt_locale t = locale"

text \<open>A declaration has at least one channel and one template key.\<close>

definition update_template ::
    "notification_ctx \<Rightarrow> string \<Rightarrow> string \<Rightarrow> template_input \<Rightarrow> notification_db
      \<Rightarrow> exn + notification_template \<times> notification_db" where
  "update_template ctx trigger locale i db =
     bindE (notification_permission ctx ''notification.templates.manage'') (\<lambda>_.
     bindE (require_spec ctx trigger) (\<lambda>spec.
     bindE (validate_template_variables spec (ti_subject i) (ti_body i)) (\<lambda>_.
     let key = hd (ns_template_keys spec); channel = hd (ns_channels spec);
         mine = same_template trigger key (ns_version spec) channel locale;
         row = \<lparr>nt_trigger = trigger, nt_key = key, nt_version = ns_version spec,
           nt_channel = channel, nt_locale = locale, nt_subject = ti_subject i, nt_body = ti_body i,
           nt_schema_version = ns_version spec, nt_status = ti_status i, nt_updated_at = nx_now ctx\<rparr>
     in Inr (row, db\<lparr>nd_templates := (if list_ex mine (nd_templates db)
          then update_where mine (\<lambda>_. row) (nd_templates db)
          else nd_templates db @ [row])\<rparr>))))"

definition active_template ::
    "string \<Rightarrow> string \<Rightarrow> string \<Rightarrow> string \<Rightarrow> notification_db \<Rightarrow> notification_template option" where
  "active_template trigger key channel locale db =
     find (\<lambda>t. nt_trigger t = trigger \<and> nt_key t = key \<and> nt_channel t = channel
       \<and> nt_locale t = locale \<and> nt_status t = ''active'') (nd_templates db)"

definition find_template ::
    "string \<Rightarrow> string \<Rightarrow> string \<Rightarrow> string \<Rightarrow> notification_db \<Rightarrow> notification_template option" where
  "find_template trigger key channel locale db =
     (case active_template trigger key channel locale db of
        Some t \<Rightarrow> Some t
      | None \<Rightarrow> active_template trigger key channel ''en'' db)"

text \<open>Seeding: the seeds of \<open>AUTH_NOTIFICATION_TEMPLATES\<close>, whose texts are Chinese, are an argument.\<close>

fun seed_templates :: "notification_template list \<Rightarrow> notification_db \<Rightarrow> nat \<times> notification_db" where
  "seed_templates [] db = (0, db)"
| "seed_templates (t # ts) db =
     (if list_ex (same_template (nt_trigger t) (nt_key t) (nt_version t) (nt_channel t) (nt_locale t))
           (nd_templates db)
      then seed_templates ts db
      else (case seed_templates ts (db\<lparr>nd_templates := nd_templates db @ [t]\<rparr>) of
              (n, db') \<Rightarrow> (Suc n, db')))"

section \<open>Plain templates\<close>

text \<open>Text without braces and named fields, written one after the other.\<close>

datatype piece = Plain string | Field string

definition piece_ok :: "piece \<Rightarrow> bool" where
  "piece_ok p = (case p of
     Plain s \<Rightarrow> CHR ''{'' \<notin> set s \<and> CHR ''}'' \<notin> set s
   | Field n \<Rightarrow> n \<noteq> [] \<and> name_start (hd n) \<and> list_all name_char n)"

fun piece_text :: "piece \<Rightarrow> string" where
  "piece_text (Plain s) = s"
| "piece_text (Field n) = CHR ''{'' # n @ [CHR ''}'']"

fun piece_value :: "(string \<Rightarrow> string option) \<Rightarrow> piece \<Rightarrow> string" where
  "piece_value f (Plain s) = s"
| "piece_value f (Field n) = (case f n of Some v \<Rightarrow> v | None \<Rightarrow> CHR ''{'' # n @ [CHR ''}''])"

definition written :: "piece list \<Rightarrow> string" where
  "written ps = concat (map piece_text ps)"

definition field_names :: "piece list \<Rightarrow> string list" where
  "field_names ps = List.map_filter (\<lambda>p. case p of Plain _ \<Rightarrow> None | Field n \<Rightarrow> Some n) ps"

lemma render_plain: "CHR ''{'' \<notin> set s \<Longrightarrow> render_text f (s @ t) = s @ render_text f t"
  by (induction s) (auto simp: render_text.simps(2))

lemma not_brace: "\<not> name_char CHR ''}''" "\<not> name_char CHR ''{''"
  by (simp_all add: name_char_def name_start_def letter_char_def lower_char_def digit_char_def)

lemma render_field:
  assumes "piece_ok (Field n)"
  shows "render_text f (CHR ''{'' # n @ CHR ''}'' # t) = piece_value f (Field n) @ render_text f t"
proof -
  have all: "\<forall>c\<in>set n. name_char c" using assms by (simp add: piece_ok_def list_all_iff)
  then have "takeWhile name_char (n @ CHR ''}'' # t) = n"
    "dropWhile name_char (n @ CHR ''}'' # t) = CHR ''}'' # t"
    by (simp_all add: not_brace)
  with assms show ?thesis
    by (cases "f n") (simp_all add: render_text.simps(2) piece_ok_def)
qed

lemma render_written: "list_all piece_ok ps \<Longrightarrow> render_text f (written ps) = concat (map (piece_value f) ps)"
proof (induction ps)
  case (Cons p ps)
  then show ?case
  proof (cases p)
    case (Plain s)
    with Cons show ?thesis by (simp add: written_def piece_ok_def render_plain)
  next
    case (Field n)
    with Cons render_field[of n f "written ps"] show ?thesis by (simp add: written_def)
  qed
qed (simp add: written_def)

lemma scan_plain:
  "list_all name_char n \<Longrightarrow> scan_name (n @ CHR ''}'' # t) = Some (n, CHR ''}'', t)"
proof (induction n)
  case (Cons c n)
  then have "c \<noteq> CHR ''{''" "c \<noteq> CHR ''}''" "c \<noteq> CHR ''[''" "c \<noteq> CHR '':''" "c \<noteq> CHR ''!''"
    by (auto simp: name_char_def name_start_def letter_char_def lower_char_def digit_char_def)
  with Cons show ?case by (simp add: scan_name.simps(2))
qed (simp add: scan_name.simps(2))

lemma format_plain:
  "CHR ''{'' \<notin> set s \<Longrightarrow> CHR ''}'' \<notin> set s \<Longrightarrow> format_fields (s @ t) = format_fields t"
  by (induction s) (auto simp: format_fields.simps(2))

lemma format_field:
  assumes "piece_ok (Field n)"
  shows "format_fields (CHR ''{'' # n @ CHR ''}'' # t) = map_option ((#) n) (format_fields t)"
proof -
  have "n \<noteq> []" "hd n \<noteq> CHR ''{''" "list_all name_char n"
    using assms not_brace by (auto simp: piece_ok_def name_char_def)
  then show ?thesis
    by (simp add: format_fields.simps(2)[of "CHR ''{''"] parse_field_def scan_plain)
qed

lemma format_written: "list_all piece_ok ps \<Longrightarrow> format_fields (written ps) = Some (field_names ps)"
proof (induction ps)
  case (Cons p ps)
  then show ?case
  proof (cases p)
    case (Plain s)
    with Cons show ?thesis by (simp add: written_def piece_ok_def format_plain field_names_def)
  next
    case (Field n)
    with Cons format_field[of n "written ps"] show ?thesis by (simp add: written_def field_names_def)
  qed
qed (simp add: written_def field_names_def)

text \<open>A conversion or a format specification passes the check and is not substituted.\<close>

lemma converted_field_stays:
  "format_fields ''{token!r}'' = Some [''token'']" "render_text f ''{token!r}'' = ''{token!r}''"
  by (code_simp, simp add: render_text.simps(2) name_char_def name_start_def letter_char_def
      lower_char_def digit_char_def)

end
