(* ===== verification/Notification_Commands.thy ===== *)
theory Notification_Commands
  imports Notification_Templates
begin

text \<open>
  The commands of \<^verbatim>\<open>inc/capabilities/notification/commands.py\<close>, the queries (\<^verbatim>\<open>queries.py\<close>), the
  probes (\<^verbatim>\<open>diagnostics.py\<close>), the clean-up (\<^verbatim>\<open>retention.py\<close>), the counts (\<^verbatim>\<open>stat.py\<close>) and the
  challenge messages of the identity capability (\<^verbatim>\<open>auth.py\<close>). Requesting and retrying commit one
  transaction and then start the delivery workflow; the two parts are definitions of their own.
\<close>

section \<open>Results\<close>

record intent_dto =
  it_id :: string
  it_trigger_name :: string
  it_recipient_type :: string
  it_recipient_id :: string
  it_state :: intent_state
  it_requested_at :: time
  it_cancelled_at :: "time option"

definition to_intent_dto :: "notification_intent \<Rightarrow> intent_dto" where
  "to_intent_dto i = \<lparr>it_id = show_nat (ni_id i), it_trigger_name = ni_spec_key i,
     it_recipient_type = ni_recipient_type i, it_recipient_id = ni_recipient_id i,
     it_state = ni_state i, it_requested_at = ni_requested_at i,
     it_cancelled_at = ni_cancelled_at i\<rparr>"

record delivery_dto =
  dd_id :: string
  dd_intent_id :: string
  dd_channel :: string
  dd_provider_key :: string
  dd_masked_address :: string
  dd_attempt :: int
  dd_status :: delivery_state
  dd_provider_ref :: "string option"
  dd_error_category :: "string option"
  dd_next_retry_at :: "time option"
  dd_delivered_at :: "time option"

definition to_delivery_dto :: "delivery \<Rightarrow> delivery_dto" where
  "to_delivery_dto d = \<lparr>dd_id = show_nat (dl_id d), dd_intent_id = show_nat (dl_intent d),
     dd_channel = dl_channel d, dd_provider_key = dl_provider_key d,
     dd_masked_address = dl_masked_address d, dd_attempt = dl_attempt d, dd_status = dl_status d,
     dd_provider_ref = dl_provider_ref d, dd_error_category = dl_error_category d,
     dd_next_retry_at = dl_next_retry_at d, dd_delivered_at = dl_delivered_at d\<rparr>"

record request_result =
  nr_intent :: intent_dto
  nr_delivery :: delivery_dto
  nr_created :: bool

section \<open>Requesting\<close>

record request_input =
  rn_trigger :: string
  rn_recipient_type :: string
  rn_recipient_id :: string
  rn_variables :: dict
  rn_idempotency_key :: string
  rn_requested_at :: "time option"

definition request_input_ok :: "request_input \<Rightarrow> bool" where
  "request_input_ok i \<longleftrightarrow> 1 \<le> length (rn_idempotency_key i) \<and> length (rn_idempotency_key i) \<le> 200"

fun resolve_target ::
    "notification_ctx \<Rightarrow> request_input \<Rightarrow> string list \<Rightarrow> exn + recipient_target" where
  "resolve_target ctx i [] = Inl (KernelError ''notification.unresolvable_recipient'' VALIDATION)"
| "resolve_target ctx i (c # cs) =
     (if dget (nx_providers ctx) c = None then resolve_target ctx i cs
      else bindE (nx_resolve ctx (rn_recipient_type i) (rn_recipient_id i) c) (\<lambda>t.
        case t of Some x \<Rightarrow> Inr x | None \<Rightarrow> resolve_target ctx i cs))"

definition channel_providers :: "notification_ctx \<Rightarrow> string \<Rightarrow> exn + notification_provider list" where
  "channel_providers ctx channel = (case dget (nx_providers ctx) channel of None \<Rightarrow> Inr [] | Some r \<Rightarrow> r)"

definition provider_for :: "notification_ctx \<Rightarrow> string \<Rightarrow> exn + notification_provider" where
  "provider_for ctx channel =
     bindE (channel_providers ctx channel) (\<lambda>ps. case ps of
       [] \<Rightarrow> Inl (notification_conflict ''notification.channel_unbound'') | p # _ \<Rightarrow> Inr p)"

text \<open>The variables as they are stored.\<close>

definition stored_variables :: "notification_ctx \<Rightarrow> notification_spec \<Rightarrow> dict \<Rightarrow> exn + dict" where
  "stored_variables ctx spec vals =
     (if ns_sensitivity spec = ''sensitive''
      then bindE (someE (nx_protector ctx)
          (KernelError ''notification.sensitive_storage_unconfigured'' INTERNAL)) (\<lambda>b.
        protect_mapping b vals)
      else Inr vals)"

definition find_intent :: "notification_db \<Rightarrow> string \<Rightarrow> string \<Rightarrow> notification_intent option" where
  "find_intent db spec key =
     find (\<lambda>i. ni_spec_key i = spec \<and> ni_idempotency_key i = key) (nd_intents db)"

definition delivery_of :: "notification_db \<Rightarrow> nat \<Rightarrow> delivery option" where
  "delivery_of db i = find (\<lambda>d. dl_intent d = i) (nd_deliveries db)"

definition new_intent ::
    "notification_ctx \<Rightarrow> notification_spec \<Rightarrow> dict \<Rightarrow> request_input \<Rightarrow> nat \<Rightarrow> notification_intent" where
  "new_intent ctx spec stored i n = \<lparr>ni_id = n, ni_spec_key = rn_trigger i,
     ni_idempotency_key = rn_idempotency_key i, ni_recipient_type = rn_recipient_type i,
     ni_recipient_id = rn_recipient_id i, ni_schema_version = ns_version spec,
     ni_variables = stored,
     ni_requested_at = (case rn_requested_at i of None \<Rightarrow> nx_now ctx | Some t \<Rightarrow> t),
     ni_state = NI_pending, ni_cancelled_at = None, ni_created_at = nx_now ctx\<rparr>"

definition new_delivery ::
    "notification_ctx \<Rightarrow> recipient_target \<Rightarrow> string \<Rightarrow> request_input \<Rightarrow> nat \<Rightarrow> nat \<Rightarrow> delivery" where
  "new_delivery ctx t provider i intent n = \<lparr>dl_id = n, dl_intent = intent,
     dl_channel = rt_channel t, dl_provider_key = provider, dl_recipient_type = rn_recipient_type i,
     dl_recipient_id = rn_recipient_id i, dl_address_digest = nx_digest ctx (rt_address t),
     dl_masked_address = rt_masked t, dl_attempt = 0, dl_status = DL_pending,
     dl_provider_ref = None, dl_error_category = None, dl_error_summary = None,
     dl_next_retry_at = None, dl_delivered_at = None, dl_lease_owner = None,
     dl_lease_expires_at = None, dl_created_at = nx_now ctx\<rparr>"

definition insert_intent :: "notification_intent \<Rightarrow> notification_db \<Rightarrow> exn + notification_db" where
  "insert_intent i db =
     bindE (requireE (find_intent db (ni_spec_key i) (ni_idempotency_key i) = None)
       (notification_conflict ''notification.duplicate_request'')) (\<lambda>_.
     Inr (db\<lparr>nd_intents := nd_intents db @ [i], nd_next_id := Suc (nd_next_id db)\<rparr>))"

text \<open>The transaction: the intent and its delivery, as they were or as they are inserted.\<close>

definition request_transaction ::
    "notification_ctx \<Rightarrow> notification_spec \<Rightarrow> dict \<Rightarrow> request_input \<Rightarrow> notification_db
      \<Rightarrow> exn + (notification_intent \<times> delivery \<times> bool) \<times> notification_db" where
  "request_transaction ctx spec stored i db =
     (case find_intent db (rn_trigger i) (rn_idempotency_key i) of
        Some x \<Rightarrow>
          bindE (someE (delivery_of db (ni_id x))
            (notification_conflict ''notification.intent_without_delivery'')) (\<lambda>d.
          Inr ((x, d, False), db))
      | None \<Rightarrow>
          bindE (resolve_target ctx i (ns_channels spec @ ns_fallback_channels spec)) (\<lambda>t.
          let x = new_intent ctx spec stored i (nd_next_id db) in
          bindE (insert_intent x db) (\<lambda>db1.
          bindE (provider_for ctx (rt_channel t)) (\<lambda>p.
          let d = new_delivery ctx t (np_key p) i (ni_id x) (nd_next_id db1);
              db2 = db1\<lparr>nd_deliveries := nd_deliveries db1 @ [d], nd_next_id := Suc (nd_next_id db1)\<rparr> in
          bindE (notification_emit ctx ''notification.requested.v1'' d x [] db2) (\<lambda>db3.
          Inr ((x, d, True), db3))))))"

definition run_key :: "nat \<Rightarrow> string" where
  "run_key did = ''delivery:'' @ show_nat did"

definition request_notification ::
    "notification_ctx \<Rightarrow> request_input \<Rightarrow> notification_db \<Rightarrow> exn + request_result \<times> notification_db" where
  "request_notification ctx i db =
     bindE (notification_permission ctx ''notification.request'') (\<lambda>_.
     bindE (require_spec ctx (rn_trigger i)) (\<lambda>spec.
     bindE (requireE (rn_recipient_type i = ns_recipient_kind spec)
       (KernelError ''notification.recipient_kind_mismatch'' VALIDATION)) (\<lambda>_.
     bindE (ns_validate spec (rn_variables i)) (\<lambda>vals.
     bindE (stored_variables ctx spec vals) (\<lambda>stored.
     bindE (request_transaction ctx spec stored i db) (\<lambda>((x, d, created), db1).
     Inr (\<lparr>nr_intent = to_intent_dto x, nr_delivery = to_delivery_dto d, nr_created = created\<rparr>,
       start_delivery (run_key (dl_id d)) (show_nat (dl_id d)) db1)))))))"

section \<open>Cancelling and retrying\<close>

definition cancel_pending ::
    "notification_ctx \<Rightarrow> nat \<Rightarrow> notification_db \<Rightarrow> exn + delivery_dto \<times> notification_db" where
  "cancel_pending ctx did db =
     bindE (notification_permission ctx ''notification.cancel'') (\<lambda>_.
     bindE (someE (delivery_by_id db did) notification_missing) (\<lambda>d.
     bindE (requireE (dl_status d = DL_pending)
       (notification_conflict ''notification.not_cancellable'')) (\<lambda>_.
     let d' = d\<lparr>dl_status := DL_cancelled\<rparr>; db1 = save_delivery d' db in
     Inr (to_delivery_dto d', case intent_by_id db1 (dl_intent d) of
         None \<Rightarrow> db1
       | Some i \<Rightarrow> if ni_state i = NI_pending
           then save_intent (i\<lparr>ni_state := NI_cancelled, ni_cancelled_at := Some (nx_now ctx)\<rparr>) db1
           else db1))))"

definition lease_alive :: "time \<Rightarrow> delivery \<Rightarrow> bool" where
  "lease_alive now d \<longleftrightarrow> (case dl_lease_expires_at d of None \<Rightarrow> False | Some t \<Rightarrow> now < t)"

definition retryable :: "delivery_state \<Rightarrow> bool" where
  "retryable st \<longleftrightarrow> st \<in> {DL_failed, DL_dead, DL_unknown, DL_cancelled, DL_sending, DL_pending}"

definition retry_transaction ::
    "notification_ctx \<Rightarrow> nat \<Rightarrow> notification_db \<Rightarrow> exn + delivery \<times> notification_db" where
  "retry_transaction ctx did db =
     bindE (notification_permission ctx ''notification.retry'') (\<lambda>_.
     bindE (someE (delivery_by_id db did) notification_missing) (\<lambda>d.
     bindE (requireE (\<not> ((dl_status d = DL_sending \<or> dl_status d = DL_pending) \<and> lease_alive (nx_now ctx) d))
       (notification_conflict ''notification.retry_lease_alive'')) (\<lambda>_.
     bindE (requireE (retryable (dl_status d))
       (notification_conflict ''notification.not_retryable'')) (\<lambda>_.
     let d' = d\<lparr>dl_status := DL_pending, dl_next_retry_at := None, dl_error_category := None,
           dl_error_summary := None, dl_lease_owner := None, dl_lease_expires_at := None\<rparr>;
         db1 = save_delivery d' db in
     Inr (d', case intent_by_id db1 (dl_intent d) of
         None \<Rightarrow> db1
       | Some i \<Rightarrow> if ni_state i = NI_cancelled
           then save_intent (i\<lparr>ni_state := NI_pending, ni_cancelled_at := None\<rparr>) db1 else db1)))))"

definition retry_key :: "nat \<Rightarrow> int \<Rightarrow> string" where
  "retry_key did n = run_key did @ '':retry:'' @ show_int n"

definition retry_delivery ::
    "notification_ctx \<Rightarrow> nat \<Rightarrow> notification_db \<Rightarrow> exn + delivery_dto \<times> notification_db" where
  "retry_delivery ctx did db =
     bindE (retry_transaction ctx did db) (\<lambda>(d, db1).
     let db2 = start_delivery (retry_key (dl_id d) (dl_attempt d + 1)) (show_nat (dl_id d)) db1 in
     bindE (someE (delivery_by_id db2 did) notification_missing) (\<lambda>refreshed.
     Inr (to_delivery_dto refreshed, db2)))"

section \<open>Challenge messages\<close>

record challenge_input =
  ch_subject_id :: string
  ch_purpose :: string
  ch_username :: string
  ch_token :: string
  ch_expires_at :: time

definition challenge_input_ok :: "challenge_input \<Rightarrow> bool" where
  "challenge_input_ok c \<longleftrightarrow> (ch_purpose c = ''email_verification'' \<or> ch_purpose c = ''password_reset'')
     \<and> 1 \<le> length (ch_token c) \<and> length (ch_token c) \<le> 512"

definition challenge_request :: "notification_ctx \<Rightarrow> challenge_input \<Rightarrow> request_input" where
  "challenge_request ctx c = \<lparr>rn_trigger = ''identity.'' @ ch_purpose c,
     rn_recipient_type = ''identity'', rn_recipient_id = ch_subject_id c,
     rn_variables = [(''username'', JStr (ch_username c)), (''token'', JStr (ch_token c)),
       (''expires_at'', JTime (ch_expires_at c))],
     rn_idempotency_key = ''identity-challenge:'' @ ch_purpose c @ '':'' @ nx_digest ctx (ch_token c),
     rn_requested_at = None\<rparr>"

definition send_challenge ::
    "notification_ctx \<Rightarrow> challenge_input \<Rightarrow> string option \<Rightarrow> notification_db
      \<Rightarrow> exn + request_result \<times> notification_db" where
  "send_challenge ctx c trace db =
     request_notification (ctx\<lparr>nx_trace_id := trace\<rparr>) (challenge_request ctx c) db"

section \<open>Queries\<close>

record delivery_record =
  dr_delivery :: delivery_dto
  dr_error_summary :: "string option"
  dr_trigger_name :: string
  dr_recipient_type :: string
  dr_recipient_id :: string
  dr_requested_at :: time
  dr_created_at :: time

definition to_record :: "delivery \<times> notification_intent \<Rightarrow> delivery_record" where
  "to_record p = (case p of (d, i) \<Rightarrow> \<lparr>dr_delivery = to_delivery_dto d,
     dr_error_summary = dl_error_summary d, dr_trigger_name = ni_spec_key i,
     dr_recipient_type = ni_recipient_type i, dr_recipient_id = ni_recipient_id i,
     dr_requested_at = ni_requested_at i, dr_created_at = dl_created_at d\<rparr>)"

record delivery_filter =
  df_status :: "delivery_state option"
  df_channel :: "string option"
  df_provider_key :: "string option"
  df_trigger_name :: "string option"
  df_recipient_id :: "string option"

definition equals_if :: "'a option \<Rightarrow> 'a \<Rightarrow> bool" where
  "equals_if v x = (case v of None \<Rightarrow> True | Some y \<Rightarrow> x = y)"

definition delivery_matches :: "delivery_filter \<Rightarrow> delivery \<times> notification_intent \<Rightarrow> bool" where
  "delivery_matches f p = (case p of (d, i) \<Rightarrow> equals_if (df_status f) (dl_status d)
     \<and> equals_if (df_channel f) (dl_channel d) \<and> equals_if (df_provider_key f) (dl_provider_key d)
     \<and> equals_if (df_trigger_name f) (ni_spec_key i) \<and> equals_if (df_recipient_id f) (ni_recipient_id i))"

definition joined_deliveries :: "notification_db \<Rightarrow> (delivery \<times> notification_intent) list" where
  "joined_deliveries db = List.map_filter
     (\<lambda>d. map_option (Pair d) (intent_by_id db (dl_intent d))) (nd_deliveries db)"

text \<open>This query slices the statement itself; the database refuses negative numbers.\<close>

definition list_deliveries ::
    "delivery_filter \<Rightarrow> int \<Rightarrow> int \<Rightarrow> notification_db \<Rightarrow> exn + delivery_record result_page" where
  "list_deliveries f page n db =
     (let rows = sort_key (\<lambda>(d, _). (- dl_created_at d, - int (dl_id d)))
            (filter (delivery_matches f) (joined_deliveries db)) in
      bindE (requireE (0 \<le> (page - 1) * n \<and> 0 \<le> n) (PyException ''DBAPIError'')) (\<lambda>_.
      Inr \<lparr>page_items = map to_record (take (nat n) (drop (nat ((page - 1) * n)) rows)),
        page_total = length rows, page_number = page, page_size = n\<rparr>))"

definition get_delivery ::
    "notification_db \<Rightarrow> nat \<Rightarrow> (delivery_record \<times> delivery_attempt list) option" where
  "get_delivery db did =
     (case find (\<lambda>(d, _). dl_id d = did) (joined_deliveries db) of
        None \<Rightarrow> None
      | Some p \<Rightarrow> Some (to_record p, sort_key (\<lambda>a. (da_attempt a, da_sequence a))
          (filter (\<lambda>a. da_delivery a = did) (nd_attempts db))))"

definition get_template :: "notification_db \<Rightarrow> string \<Rightarrow> string \<Rightarrow> notification_template option" where
  "get_template db trigger locale =
     (case sort_key (\<lambda>t. - nt_updated_at t)
         (filter (\<lambda>t. nt_trigger t = trigger \<and> nt_locale t = locale) (nd_templates db)) of
        [] \<Rightarrow> None | t # _ \<Rightarrow> Some t)"

section \<open>Diagnostics, retention, counts\<close>

record notification_report =
  np_pending_old :: nat
  np_expired_lease :: nat
  np_unknown_dead :: nat
  np_spec_drift :: "string list"
  np_missing_templates :: "(string \<times> string) list"

definition missing_templates :: "notification_spec list \<Rightarrow> notification_db \<Rightarrow> (string \<times> string) list" where
  "missing_templates specs db = concat (map (\<lambda>s.
     filter (\<lambda>(k, c). \<not> list_ex (\<lambda>t. nt_status t = ''active'' \<and> nt_key t = k \<and> nt_channel t = c
         \<and> (nt_locale t = ns_locale s \<or> nt_locale t = ''en'')) (nd_templates db))
       (List.product (ns_template_keys s) (ns_channels s))) specs)"

definition notification_diagnostics ::
    "notification_spec registry \<Rightarrow> time \<Rightarrow> notification_db \<Rightarrow> notification_report" where
  "notification_diagnostics r now db =
     (let specs = map snd (reg_items r) in
      \<lparr>np_pending_old = length (filter (\<lambda>d. dl_status d = DL_pending
          \<and> dl_created_at d < now - seconds 86400) (nd_deliveries db)),
       np_expired_lease = length (filter (\<lambda>d. dl_status d = DL_sending
          \<and> (case dl_lease_expires_at d of None \<Rightarrow> False | Some t \<Rightarrow> t < now)) (nd_deliveries db)),
       np_unknown_dead = length (filter (\<lambda>d. dl_status d = DL_unknown \<or> dl_status d = DL_dead)
          (nd_deliveries db)),
       np_spec_drift = sort (remdups (filter (\<lambda>k. k \<notin> ns_key ` set specs)
          (map ni_spec_key (nd_intents db)))),
       np_missing_templates = missing_templates specs db\<rparr>)"

definition finished_before :: "time \<Rightarrow> delivery \<Rightarrow> bool" where
  "finished_before cutoff d \<longleftrightarrow> dl_status d \<in> {DL_delivered, DL_failed, DL_dead, DL_cancelled}
     \<and> dl_created_at d < cutoff"

text \<open>Attempts first, then their deliveries, then the intents that have none.\<close>

definition cleanup_notifications :: "time \<Rightarrow> notification_db \<Rightarrow> (nat \<times> nat \<times> nat) \<times> notification_db" where
  "cleanup_notifications cutoff db =
     (let gone = map dl_id (filter (finished_before cutoff) (nd_deliveries db));
          attempts = filter (\<lambda>a. da_delivery a \<notin> set gone) (nd_attempts db);
          deliveries = filter (\<lambda>d. dl_id d \<notin> set gone) (nd_deliveries db);
          intents = filter (\<lambda>i. \<not> (ni_created_at i < cutoff
            \<and> \<not> list_ex (\<lambda>d. dl_intent d = ni_id i) deliveries)) (nd_intents db)
      in ((length (nd_attempts db) - length attempts, length (nd_deliveries db) - length deliveries,
           length (nd_intents db) - length intents),
          db\<lparr>nd_attempts := attempts, nd_deliveries := deliveries, nd_intents := intents\<rparr>))"

definition retention_activity :: "time \<Rightarrow> int \<Rightarrow> notification_db \<Rightarrow> (nat \<times> nat \<times> nat) \<times> notification_db" where
  "retention_activity now retention db = cleanup_notifications (now - days retention) db"

definition notification_statistics :: "time \<Rightarrow> string \<Rightarrow> notification_db \<Rightarrow> exn + nat \<times> nat" where
  "notification_statistics now window db =
     bindE (window_days window) (\<lambda>n.
     Inr (count_created ni_created_at now n (nd_intents db)))"

end
