(* ===== verification/Notification_Delivery.thy ===== *)
theory Notification_Delivery
  imports Notification_Commands Kernel_Workflow
begin

text \<open>
  The activity that delivers (\<open>DeliverActivity\<close> of
  \<^verbatim>\<open>inc/capabilities/notification/activities.py\<close>). It runs in the transaction of the workflow
  runner, which commits also when the activity raised: the result is an exception or the result of
  the step, with the tables as they then are. Metrics are left out; the clock is read once.
\<close>

section \<open>Sending\<close>

definition no_available_provider :: send_result where
  "no_available_provider = \<lparr>sr_status = SS_failed, sr_provider_ref = None,
     sr_error_category = Some ''permanent'',
     sr_error_summary = Some ''notification.no_available_provider'', sr_fallback = False\<rparr>"

definition send_once ::
    "notification_provider \<Rightarrow> recipient_target \<Rightarrow> string \<Rightarrow> string \<Rightarrow> nat \<Rightarrow> exn + send_result" where
  "send_once p target subject body did =
     (case np_send p target subject body (show_nat did @ '':'' @ np_key p) of
        Sent r \<Rightarrow> Inr r
      | Send_error e \<Rightarrow> Inr \<lparr>sr_status = SS_failed, sr_provider_ref = None,
          sr_error_category = Some (retry_text (provider_retry_category e)),
          sr_error_summary = Some (pe_message e), sr_fallback = pe_fallback e\<rparr>
      | Send_raised cls \<Rightarrow> Inr \<lparr>sr_status = SS_unknown, sr_provider_ref = None,
          sr_error_category = Some ''timeout'', sr_error_summary = Some (''provider raised '' @ cls),
          sr_fallback = False\<rparr>
      | Send_timeout \<Rightarrow> Inl (PyException ''TimeoutError''))"

definition attempt_row :: "time \<Rightarrow> delivery \<Rightarrow> nat \<Rightarrow> string \<Rightarrow> send_result \<Rightarrow> delivery_attempt" where
  "attempt_row now d n key r = \<lparr>da_delivery = dl_id d, da_attempt = dl_attempt d, da_sequence = n,
     da_provider_key = key, da_status = sr_status r, da_provider_ref = sr_provider_ref r,
     da_error_category = sr_error_category r, da_error_summary = sr_error_summary r, da_at = now\<rparr>"

text \<open>\<open>_send_chain\<close> from the \<open>n\<close>-th provider on; \<open>safe\<close> is the last failure that allows a fallback.\<close>

fun send_chain ::
    "time \<Rightarrow> recipient_target \<Rightarrow> string \<Rightarrow> string \<Rightarrow> notification_provider list \<Rightarrow> nat
      \<Rightarrow> send_result option \<Rightarrow> delivery \<Rightarrow> notification_db
      \<Rightarrow> (exn + send_result) \<times> delivery \<times> notification_db" where
  "send_chain now target subject body [] n safe d db =
     (Inr (case safe of Some r \<Rightarrow> r | None \<Rightarrow> no_available_provider), d, db)"
| "send_chain now target subject body (p # ps) n safe d db =
     (case send_once p target subject body (dl_id d) of
        Inl e \<Rightarrow> (Inl e, d, db)
      | Inr r \<Rightarrow>
          (let db1 = db\<lparr>nd_attempts := nd_attempts db @ [attempt_row now d n (np_key p) r]\<rparr>;
               d1 = d\<lparr>dl_provider_key := np_key p\<rparr> in
           if sr_status r = SS_unavailable
             then send_chain now target subject body ps (Suc n) safe d db1
           else if sr_status r = SS_failed \<and> sr_fallback r
             then send_chain now target subject body ps (Suc n) (Some r) d1 db1
           else (Inr r, d1, db1)))"

section \<open>Outcomes\<close>

definition scrub_intent ::
    "notification_ctx \<Rightarrow> string \<Rightarrow> notification_intent \<Rightarrow> notification_intent" where
  "scrub_intent ctx sensitivity i =
     (if sensitivity \<noteq> ''sensitive'' \<or> nx_protector ctx = None then i
      else i\<lparr>ni_variables := scrub_mapping (ni_variables i)\<rparr>)"

definition step_status :: "delivery_state \<Rightarrow> dict" where
  "step_status st = [(''skipped'', JBool False), (''status'', JStr (delivery_text st))]"

definition failure_values :: "string \<Rightarrow> delivery \<Rightarrow> dict" where
  "failure_values category d = [(''error_category'', JStr category), (''attempt'', JInt (dl_attempt d))]"

definition emitS ::
    "notification_ctx \<Rightarrow> string \<Rightarrow> delivery \<Rightarrow> notification_intent \<Rightarrow> dict \<Rightarrow> dict \<Rightarrow> notification_db
      \<Rightarrow> (exn + dict) \<times> notification_db" where
  "emitS ctx key d i vals result db =
     bindS (liftS (notification_emit ctx key d i vals db) db) (\<lambda>_ db'. (Inr result, db'))"

definition fail_permanently ::
    "notification_ctx \<Rightarrow> delivery \<Rightarrow> notification_intent \<Rightarrow> string \<Rightarrow> string \<Rightarrow> notification_db
      \<Rightarrow> (exn + dict) \<times> notification_db" where
  "fail_permanently ctx d i summary reason db =
     (let d' = d\<lparr>dl_status := DL_failed, dl_error_category := Some ''permanent'',
            dl_error_summary := Some summary, dl_lease_owner := None, dl_lease_expires_at := None,
            dl_next_retry_at := None\<rparr>;
          i' = (case notification_require (nx_specs ctx) (ni_spec_key i) of
             Inl _ \<Rightarrow> i | Inr spec \<Rightarrow> scrub_intent ctx (ns_sensitivity spec) i)
      in emitS ctx ''notification.delivery_failed.v1'' d' i' (failure_values ''permanent'' d')
           (step_status DL_failed @ [(''reason'', JStr reason)])
           (save_intent i' (save_delivery d' db)))"

definition delivery_retry_delay :: "delivery_policy \<Rightarrow> int \<Rightarrow> time" where
  "delivery_retry_delay p n =
     timedelta_us (min (dp_base_delay p * 2 ^ nat (max 0 (n - 1))) (dp_max_delay p))"

definition settle_delivered ::
    "notification_ctx \<Rightarrow> notification_spec \<Rightarrow> notification_intent \<Rightarrow> delivery \<Rightarrow> send_result
      \<Rightarrow> notification_db \<Rightarrow> (exn + dict) \<times> notification_db" where
  "settle_delivered ctx spec i d r db =
     (let d' = d\<lparr>dl_status := DL_delivered, dl_provider_ref := sr_provider_ref r,
            dl_delivered_at := Some (nx_now ctx)\<rparr>;
          i' = scrub_intent ctx (ns_sensitivity spec) (i\<lparr>ni_state := NI_delivered\<rparr>)
      in emitS ctx ''notification.delivered.v1'' d' i'
           [(''provider_ref'', opt_json (sr_provider_ref r))] (step_status DL_delivered)
           (save_intent i' (save_delivery d' db)))"

definition category_or :: "string option \<Rightarrow> string \<Rightarrow> string" where
  "category_or v s = (case v of None \<Rightarrow> s | Some x \<Rightarrow> if x = [] then s else x)"

definition settle_unknown ::
    "notification_ctx \<Rightarrow> notification_intent \<Rightarrow> delivery \<Rightarrow> send_result \<Rightarrow> notification_db
      \<Rightarrow> (exn + dict) \<times> notification_db" where
  "settle_unknown ctx i d r db =
     (let cat = category_or (sr_error_category r) ''timeout'';
          d' = d\<lparr>dl_status := DL_unknown, dl_provider_ref := sr_provider_ref r,
            dl_error_category := Some cat, dl_error_summary := sr_error_summary r,
            dl_next_retry_at := None\<rparr>
      in emitS ctx ''notification.delivery_failed.v1'' d' i (failure_values cat d')
           (step_status DL_unknown) (save_delivery d' db))"

definition provider_failure_exn :: "string \<Rightarrow> exn" where
  "provider_failure_exn cat = KernelError ''notification.provider_error''
     (if cat = ''rate_limited'' then RATE_LIMITED else DEPENDENCY_UNAVAILABLE)"

definition settle_failed ::
    "notification_ctx \<Rightarrow> notification_spec \<Rightarrow> notification_intent \<Rightarrow> delivery \<Rightarrow> send_result
      \<Rightarrow> notification_db \<Rightarrow> (exn + dict) \<times> notification_db" where
  "settle_failed ctx spec i d r db =
     (let cat = category_or (sr_error_category r) ''transient'';
          permanent = (cat = ''permanent'' \<or> cat = ''cancelled'');
          d1 = d\<lparr>dl_error_category := Some cat, dl_error_summary := sr_error_summary r\<rparr> in
      if permanent \<or> dp_max_attempts (ns_policy spec) \<le> dl_attempt d then
        (let d' = d1\<lparr>dl_status := (if permanent then DL_failed else DL_dead), dl_next_retry_at := None\<rparr>;
             i' = scrub_intent ctx (ns_sensitivity spec) i
         in emitS ctx (if permanent then ''notification.delivery_failed.v1''
              else ''notification.delivery_dead.v1'') d' i' (failure_values cat d')
              (step_status (dl_status d')) (save_intent i' (save_delivery d' db)))
      else
        (Inl (provider_failure_exn cat), save_delivery (d1\<lparr>dl_status := DL_pending,
           dl_next_retry_at := Some (nx_now ctx + delivery_retry_delay (ns_policy spec) (dl_attempt d)),
           dl_lease_owner := None, dl_lease_expires_at := None\<rparr>) db))"

definition settle_send ::
    "notification_ctx \<Rightarrow> notification_spec \<Rightarrow> notification_intent \<Rightarrow> delivery \<Rightarrow> send_result
      \<Rightarrow> notification_db \<Rightarrow> (exn + dict) \<times> notification_db" where
  "settle_send ctx spec i d r db =
     (let d1 = d\<lparr>dl_lease_owner := None, dl_lease_expires_at := None\<rparr> in
      case sr_status r of
        SS_delivered \<Rightarrow> settle_delivered ctx spec i d1 r db
      | SS_unknown \<Rightarrow> settle_unknown ctx i d1 r db
      | _ \<Rightarrow> settle_failed ctx spec i d1 r db)"

section \<open>The activity\<close>

text \<open>The variables as they are rendered, or why the delivery fails.\<close>

definition revealed_variables ::
    "notification_ctx \<Rightarrow> notification_spec \<Rightarrow> notification_intent \<Rightarrow> (string \<times> string) + dict" where
  "revealed_variables ctx spec i =
     (if ns_sensitivity spec = ''sensitive'' then
        (case nx_protector ctx of
           None \<Rightarrow> Inl (''sensitive storage is not configured'', ''secret_unconfigured'')
         | Some b \<Rightarrow> (case reveal_mapping b (ni_variables i) of
             Inl _ \<Rightarrow> Inl (''sensitive variables could not be decrypted'', ''secret_invalid'')
           | Inr vars \<Rightarrow> Inr vars))
      else Inr (ni_variables i))"

definition send_and_settle ::
    "notification_ctx \<Rightarrow> notification_spec \<Rightarrow> notification_intent \<Rightarrow> delivery \<Rightarrow> recipient_target
      \<Rightarrow> notification_template \<Rightarrow> notification_provider list \<Rightarrow> dict \<Rightarrow> notification_db
      \<Rightarrow> (exn + dict) \<times> notification_db" where
  "send_and_settle ctx spec i d target t providers vars db =
     (case render_template (nx_repr ctx) (nt_subject t) (nt_body t) vars of (subject, body) \<Rightarrow>
      case send_chain (nx_now ctx) target subject body providers 1 None d db of
        (Inl e, d1, db1) \<Rightarrow> (Inl e, save_delivery d1 db1)
      | (Inr r, d1, db1) \<Rightarrow> settle_send ctx spec i d1 r db1)"

text \<open>The lease is set to expire at the time it is taken, as in the code.\<close>

definition begin_attempt :: "notification_ctx \<Rightarrow> delivery \<Rightarrow> delivery" where
  "begin_attempt ctx d = d\<lparr>dl_status := DL_sending, dl_attempt := dl_attempt d + 1,
     dl_lease_owner := Some (''workflow:'' @ (case nx_trace_id ctx of None \<Rightarrow> ''runner''
        | Some s \<Rightarrow> if s = [] then ''runner'' else s)),
     dl_lease_expires_at := Some (nx_now ctx)\<rparr>"

definition attempt_delivery ::
    "notification_ctx \<Rightarrow> notification_spec \<Rightarrow> notification_intent \<Rightarrow> delivery \<Rightarrow> notification_db
      \<Rightarrow> (exn + dict) \<times> notification_db" where
  "attempt_delivery ctx spec i d0 db =
     (let d = begin_attempt ctx d0; db1 = save_delivery d db in
      case find_template (ns_key spec) (hd (ns_template_keys spec)) (dl_channel d) (ns_locale spec) db of
        None \<Rightarrow> fail_permanently ctx d i ''no active template'' ''no_template'' db
      | Some t \<Rightarrow>
        (case nx_resolve ctx (ni_recipient_type i) (ni_recipient_id i) (dl_channel d) of
           Inl e \<Rightarrow> (Inl e, db1)
         | Inr None \<Rightarrow> fail_permanently ctx d i ''recipient unresolvable at delivery time''
             ''unresolvable'' db
         | Inr (Some target) \<Rightarrow>
           (case channel_providers ctx (dl_channel d) of
              Inl e \<Rightarrow> (Inl e, db1)
            | Inr [] \<Rightarrow> fail_permanently ctx d i (''no provider bound for channel '' @ dl_channel d)
                ''channel_unbound'' db
            | Inr providers \<Rightarrow>
              (case revealed_variables ctx spec i of
                 Inl (summary, reason) \<Rightarrow> fail_permanently ctx d i summary reason db
               | Inr vars \<Rightarrow> send_and_settle ctx spec i d target t providers vars db))))"

definition finished_delivery :: "delivery_state \<Rightarrow> bool" where
  "finished_delivery st \<longleftrightarrow> st \<in> {DL_delivered, DL_cancelled, DL_dead, DL_failed}"

definition delivery_input :: "dict \<Rightarrow> exn + nat" where
  "delivery_input data =
     bindE (case dget data ''workflow'' of None \<Rightarrow> Inr [] | Some (JObj d) \<Rightarrow> Inr d
       | Some _ \<Rightarrow> Inl (PyException ''AttributeError'')) (\<lambda>workflow.
     case dget workflow ''delivery_id'' of
       None \<Rightarrow> Inl (KernelError ''notification.deliver_invalid_input'' INTERNAL)
     | Some JNull \<Rightarrow> Inl (KernelError ''notification.deliver_invalid_input'' INTERNAL)
     | Some (JStr s) \<Rightarrow> someE (read_id s) (PyException ''ValueError'')
     | Some _ \<Rightarrow> Inl (PyException ''ValueError''))"

definition skipped_step :: "string \<Rightarrow> dict" where
  "skipped_step st = [(''skipped'', JBool True), (''status'', JStr st)]"

definition deliver ::
    "notification_ctx \<Rightarrow> dict \<Rightarrow> notification_db \<Rightarrow> (exn + dict) \<times> notification_db" where
  "deliver ctx data db =
     (case delivery_input data of
        Inl e \<Rightarrow> (Inl e, db)
      | Inr did \<Rightarrow>
        (case delivery_by_id db did of
           None \<Rightarrow> (Inr (skipped_step ''gone''), db)
         | Some d \<Rightarrow>
           if finished_delivery (dl_status d) then (Inr (skipped_step (delivery_text (dl_status d))), db)
           else (case intent_by_id db (dl_intent d) of
             None \<Rightarrow> (Inl (KernelError ''notification.intent_missing'' INTERNAL), db)
           | Some i \<Rightarrow>
             (case require_trigger (nx_specs ctx) (ni_spec_key i) of
                Inl _ \<Rightarrow> fail_permanently ctx d i ''spec not registered'' ''spec_missing'' db
              | Inr spec \<Rightarrow> attempt_delivery ctx spec i d db))))"

text \<open>The workflow of one step, and its retry policy.\<close>

definition deliver_handler ::
    "notification_ctx \<Rightarrow> (exn \<Rightarrow> string) \<Rightarrow> notification_db activity_handler" where
  "deliver_handler ctx message data n db = (case deliver ctx data db of
     (Inl e, db') \<Rightarrow> (Act_raised e (message e), db') | (Inr r, db') \<Rightarrow> (Act_result r, db'))"

definition deliver_retry_policy :: "delivery_policy \<Rightarrow> retry_policy" where
  "deliver_retry_policy p = default_retry_policy\<lparr>max_attempts := dp_max_attempts p,
     base_delay_seconds := dp_base_delay p, max_delay_seconds := dp_max_delay p,
     permanent_categories := [Retry_PERMANENT, Retry_CANCELLED]\<rparr>"

definition deliver_workflow_spec ::
    "notification_ctx \<Rightarrow> (exn \<Rightarrow> string) \<Rightarrow> notification_db workflow_spec" where
  "deliver_workflow_spec ctx message = \<lparr>wf_key = ''notification.deliver.v1'', wf_version = ''1'',
     wf_activities = [\<lparr>ac_key = ''notification.deliver.step.v1'', ac_timeout_seconds = 60,
       ac_retry = deliver_retry_policy default_delivery_policy,
       ac_handler = Some (deliver_handler ctx message)\<rparr>], wf_signal_keys = []\<rparr>"

end
