(* ===== verification/Notification_Invariant.thy ===== *)
theory Notification_Invariant
  imports Notification_Delivery Idempotent_Commands
begin

text \<open>
  The notification tables as a state machine with a clock that does not run backwards, what one
  delivery step writes, and the invariant of the reachable states.
\<close>

section \<open>Steps\<close>

text \<open>Starting a run is a step of its own: the process may stop between the commit and the start.\<close>

inductive notification_write :: "time \<times> notification_db \<Rightarrow> time \<times> notification_db \<Rightarrow> bool" where
  request: "request_transaction ctx spec stored i db = Inr (r, db') \<Longrightarrow> t \<le> nx_now ctx
    \<Longrightarrow> notification_write (t, db) (nx_now ctx, db')"
| start: "notification_write (t, db) (t, start_delivery key did db)"
| template: "update_template ctx trigger locale i db = Inr (row, db') \<Longrightarrow> t \<le> nx_now ctx
    \<Longrightarrow> notification_write (t, db) (nx_now ctx, db')"
| seed: "seed_templates ts db = (n, db') \<Longrightarrow> notification_write (t, db) (t, db')"
| cancel: "cancel_pending ctx did db = Inr (dto, db') \<Longrightarrow> t \<le> nx_now ctx
    \<Longrightarrow> notification_write (t, db) (nx_now ctx, db')"
| retry: "retry_transaction ctx did db = Inr (d, db') \<Longrightarrow> t \<le> nx_now ctx
    \<Longrightarrow> notification_write (t, db) (nx_now ctx, db')"
| deliver: "deliver ctx data db = (result, db') \<Longrightarrow> t \<le> nx_now ctx
    \<Longrightarrow> notification_write (t, db) (nx_now ctx, db')"

inductive notification_step :: "time \<times> notification_db \<Rightarrow> time \<times> notification_db \<Rightarrow> bool" where
  w: "notification_write s s' \<Longrightarrow> notification_step s s'"
| cleanup: "cleanup_notifications cutoff db = (counts, db') \<Longrightarrow> notification_step (t, db) (t, db')"

inductive notification_reachable :: "time \<times> notification_db \<Rightarrow> bool" where
  init: "notification_reachable (t, empty_notification_db)"
| step: "notification_reachable s \<Longrightarrow> notification_step s s' \<Longrightarrow> notification_reachable s'"

section \<open>What a step writes\<close>

text \<open>Everything but the outbox and the counter.\<close>

definition same_rows :: "notification_db \<Rightarrow> notification_db \<Rightarrow> bool" where
  "same_rows db db' \<longleftrightarrow> nd_templates db' = nd_templates db \<and> nd_intents db' = nd_intents db
     \<and> nd_deliveries db' = nd_deliveries db \<and> nd_attempts db' = nd_attempts db
     \<and> nd_runs db' = nd_runs db \<and> nd_next_id db \<le> nd_next_id db'"

lemma same_rows_refl [simp]: "same_rows db db"
  by (simp add: same_rows_def)

lemma emit_rows: "notification_emit ctx key d i vals db = Inr db' \<Longrightarrow> same_rows db db'"
  by (auto simp: notification_emit_def cmd_ok same_rows_def)

lemma emitS_rows: "emitS ctx key d i vals result db = (r, db') \<Longrightarrow> same_rows db db'"
  by (auto simp: emitS_def bindS_def liftS_def split: sum.splits dest: emit_rows)

text \<open>
  One attempt on the delivery \<open>d\<close>: its row becomes \<open>d'\<close>, the row of its intent \<open>i'\<close>, and the calls of
  the providers are added to the attempts.
\<close>

definition same_delivery :: "delivery \<Rightarrow> delivery \<Rightarrow> bool" where
  "same_delivery d d' \<longleftrightarrow> dl_id d' = dl_id d \<and> dl_intent d' = dl_intent d \<and> dl_channel d' = dl_channel d
     \<and> dl_created_at d' = dl_created_at d"

definition same_intent :: "notification_intent \<Rightarrow> notification_intent \<Rightarrow> bool" where
  "same_intent i i' \<longleftrightarrow> ni_id i' = ni_id i \<and> ni_spec_key i' = ni_spec_key i
     \<and> ni_idempotency_key i' = ni_idempotency_key i \<and> ni_created_at i' = ni_created_at i"

definition delivered_rows :: "nat \<Rightarrow> delivery_attempt list \<Rightarrow> delivery_attempt list" where
  "delivered_rows did as = filter (\<lambda>a. da_delivery a = did \<and> da_status a = SS_delivered) as"

lemma delivered_rows_simps [simp]:
  "delivered_rows did [] = []"
  "delivered_rows did (as @ bs) = delivered_rows did as @ delivered_rows did bs"
  by (simp_all add: delivered_rows_def)

definition chain_rows :: "delivery \<Rightarrow> nat \<Rightarrow> delivery_attempt list \<Rightarrow> bool" where
  "chain_rows d n rows \<longleftrightarrow> map da_sequence rows = [n..<n + length rows]
     \<and> (\<forall>a\<in>set rows. da_delivery a = dl_id d \<and> da_attempt a = dl_attempt d)"

definition chain_effect ::
    "delivery \<Rightarrow> nat \<Rightarrow> exn + send_result \<Rightarrow> delivery \<Rightarrow> delivery_attempt list
      \<Rightarrow> notification_db \<Rightarrow> notification_db \<Rightarrow> bool" where
  "chain_effect d n r d' rows db db' \<longleftrightarrow> nd_attempts db' = nd_attempts db @ rows \<and> chain_rows d n rows
     \<and> same_rows db (db'\<lparr>nd_attempts := nd_attempts db\<rparr>) \<and> (\<exists>key. d' = d\<lparr>dl_provider_key := key\<rparr>)
     \<and> length (delivered_rows (dl_id d) rows)
         = (case r of Inl _ \<Rightarrow> 0 | Inr x \<Rightarrow> if sr_status x = SS_delivered then 1 else 0)"

definition not_delivered :: "send_result option \<Rightarrow> bool" where
  "not_delivered safe \<longleftrightarrow> (case safe of None \<Rightarrow> True | Some x \<Rightarrow> sr_status x \<noteq> SS_delivered)"

lemma chain_effect_stop:
  assumes "case r of Inl _ \<Rightarrow> True | Inr x \<Rightarrow> sr_status x \<noteq> SS_delivered"
  shows "chain_effect d n r d [] db db"
proof -
  have "\<exists>key. d = d\<lparr>dl_provider_key := key\<rparr>" by (rule exI[of _ "dl_provider_key d"]) simp
  with assms show ?thesis by (auto simp: chain_effect_def chain_rows_def split: sum.splits)
qed

text \<open>One more call in front of a chain.\<close>

lemma chain_effect_cons:
  assumes "chain_effect d1 (Suc n) r d' rows (db\<lparr>nd_attempts := nd_attempts db @ [row]\<rparr>) db'"
    and "row = attempt_row now d n key x" and "d1 = d \<or> d1 = d\<lparr>dl_provider_key := key\<rparr>"
    and "sr_status x \<noteq> SS_delivered"
  shows "chain_effect d n r d' (row # rows) db db'"
proof -
  have "da_sequence row = n" "da_delivery row = dl_id d" "da_attempt row = dl_attempt d"
    "da_status row \<noteq> SS_delivered"
    using assms(2,4) by (simp_all add: attempt_row_def)
  moreover have "dl_id d1 = dl_id d" "dl_attempt d1 = dl_attempt d" using assms(3) by auto
  moreover have "\<exists>k. d' = d\<lparr>dl_provider_key := k\<rparr>"
    using assms(1,3) by (auto simp: chain_effect_def)
  moreover have "[n..<n + length (row # rows)] = n # [Suc n..<Suc n + length rows]"
    by (subst upt_conv_Cons) simp_all
  ultimately show ?thesis using assms(1) unfolding chain_effect_def chain_rows_def
    by (auto simp: same_rows_def delivered_rows_def simp del: upt_Suc)
qed

lemma send_chain_effect:
  "send_chain now target subject body ps n safe d db = (r, d', db') \<Longrightarrow> not_delivered safe
    \<Longrightarrow> \<exists>rows. chain_effect d n r d' rows db db'"
proof (induction ps arbitrary: n safe d db)
  case Nil
  then show ?case
    by (auto simp: not_delivered_def no_available_provider_def intro!: exI[of _ "[]"] chain_effect_stop
        split: option.splits)
next
  case (Cons p ps)
  show ?case
  proof (cases "send_once p target subject body (dl_id d)")
    case (Inl e)
    with Cons.prems(1) have "r = Inl e" "d' = d" "db' = db" by simp_all
    then show ?thesis by (auto intro!: exI[of _ "[]"] chain_effect_stop)
  next
    case (Inr x)
    define row where "row = attempt_row now d n (np_key p) x"
    define db1 where "db1 = db\<lparr>nd_attempts := nd_attempts db @ [row]\<rparr>"
    define d1 where "d1 = d\<lparr>dl_provider_key := np_key p\<rparr>"
    show ?thesis
    proof (cases "sr_status x = SS_unavailable \<or> sr_status x = SS_failed \<and> sr_fallback x")
      case True
      then obtain safe1 d2 where run: "send_chain now target subject body ps (Suc n) safe1 d2 db1 = (r, d', db')"
        and d2: "d2 = d \<or> d2 = d1" and safe1: "not_delivered safe1"
        using Cons.prems Inr
        by (auto simp: db1_def d1_def row_def not_delivered_def split: if_splits)
      from Cons.IH[OF run safe1] obtain rows where "chain_effect d2 (Suc n) r d' rows db1 db'" by blast
      from chain_effect_cons[OF this[unfolded db1_def] row_def] d2 True show ?thesis
        by (auto simp: d1_def)
    next
      case False
      with Cons.prems(1) Inr have "r = Inr x" "d' = d1" "db' = db1"
        by (auto simp: db1_def d1_def row_def)
      then have "chain_effect d n r d' [row] db db'"
        by (auto simp: chain_effect_def chain_rows_def row_def attempt_row_def db1_def d1_def
            same_rows_def delivered_rows_def)
      then show ?thesis by blast
    qed
  qed
qed

definition wrote_attempt ::
    "time \<Rightarrow> delivery \<Rightarrow> notification_intent \<Rightarrow> delivery \<Rightarrow> notification_intent
      \<Rightarrow> delivery_attempt list \<Rightarrow> notification_db \<Rightarrow> notification_db \<Rightarrow> bool" where
  "wrote_attempt now d i d' i' rows db db' \<longleftrightarrow>
     same_rows (save_intent i' (save_delivery d' db)\<lparr>nd_attempts := nd_attempts db @ rows\<rparr>) db'
     \<and> same_delivery d d' \<and> same_intent i i' \<and> dl_attempt d \<le> dl_attempt d'
     \<and> (dl_lease_expires_at d' = None \<or> dl_lease_expires_at d' = Some now)
     \<and> (rows \<noteq> [] \<longrightarrow> dl_attempt d' = dl_attempt d + 1) \<and> chain_rows d' 1 rows
     \<and> length (delivered_rows (dl_id d) rows) \<le> 1
     \<and> (delivered_rows (dl_id d) rows \<noteq> [] \<longrightarrow> dl_status d' = DL_delivered)"

lemma begin_attempt_simps [simp]:
  "dl_id (begin_attempt ctx d) = dl_id d" "dl_intent (begin_attempt ctx d) = dl_intent d"
  "dl_channel (begin_attempt ctx d) = dl_channel d"
  "dl_created_at (begin_attempt ctx d) = dl_created_at d"
  "dl_attempt (begin_attempt ctx d) = dl_attempt d + 1"
  "dl_lease_expires_at (begin_attempt ctx d) = Some (nx_now ctx)"
  by (simp_all add: begin_attempt_def)

lemma save_tables [simp]:
  "nd_templates (save_intent i db) = nd_templates db" "nd_deliveries (save_intent i db) = nd_deliveries db"
  "nd_attempts (save_intent i db) = nd_attempts db" "nd_runs (save_intent i db) = nd_runs db"
  "nd_next_id (save_intent i db) = nd_next_id db"
  "nd_templates (save_delivery d db) = nd_templates db" "nd_intents (save_delivery d db) = nd_intents db"
  "nd_attempts (save_delivery d db) = nd_attempts db" "nd_runs (save_delivery d db) = nd_runs db"
  "nd_next_id (save_delivery d db) = nd_next_id db"
  by (simp_all add: save_intent_def save_delivery_def)

text \<open>The row of the intent is written back; where it did not change, the table does not.\<close>

lemma save_intent_same:
  assumes "distinct (map ni_id (nd_intents db))" and "i \<in> set (nd_intents db)"
  shows "save_intent i db = db"
proof -
  have "x = i" if "x \<in> set (nd_intents db)" "ni_id x = ni_id i" for x
    using assms that by (metis distinct_map inj_onD)
  then have "update_where (\<lambda>y. ni_id y = ni_id i) (\<lambda>_. i) (nd_intents db) = nd_intents db"
    unfolding update_where_def by (intro map_idI) auto
  then show ?thesis by (simp add: save_intent_def)
qed

lemma same_delivery_refl [simp]: "same_delivery d d"
  by (simp add: same_delivery_def)

lemma same_intent_scrub [simp]: "same_intent i (scrub_intent ctx sens i)"
  "same_intent i (scrub_intent ctx sens (i\<lparr>ni_state := st\<rparr>))" "same_intent i i"
  by (simp_all add: same_intent_def scrub_intent_def)

text \<open>How an attempt ends: the delivery is settled with no lease, the status is as the provider said.\<close>

definition settled ::
    "notification_intent \<Rightarrow> delivery \<Rightarrow> notification_intent \<Rightarrow> delivery \<Rightarrow> notification_db
      \<Rightarrow> notification_db \<Rightarrow> bool" where
  "settled i d i' d' db db' \<longleftrightarrow> same_rows (save_intent i' (save_delivery d' db)) db' \<and> same_delivery d d'
     \<and> same_intent i i' \<and> dl_attempt d' = dl_attempt d \<and> dl_lease_expires_at d' = None"

lemma settledI:
  assumes "emitS ctx key d' i' vals result (save_intent i' (save_delivery d' db)) = (r, db')"
    and "same_delivery d d'" and "same_intent i i'" and "dl_attempt d' = dl_attempt d"
    and "dl_lease_expires_at d' = None"
  shows "settled i d i' d' db db'"
  using emitS_rows[OF assms(1)] assms(2-) by (simp add: settled_def)

lemma fail_permanently_settled:
  assumes "fail_permanently ctx d i summary reason db = (r, db')"
  shows "\<exists>i' d'. settled i d i' d' db db'"
  by (rule exI, rule exI, rule settledI[OF assms[unfolded fail_permanently_def Let_def]])
    (simp_all add: same_delivery_def split: sum.split)

lemma settle_send_settled:
  assumes run: "settle_send ctx spec i d x db = (r, db')"
    and intents: "distinct (map ni_id (nd_intents db))" "i \<in> set (nd_intents db)"
  shows "\<exists>i' d'. settled i d i' d' db db' \<and> (sr_status x = SS_delivered \<longrightarrow> dl_status d' = DL_delivered)"
proof -
  have keep: "save_intent i (save_delivery d' db) = save_delivery d' db" for d'
    by (rule save_intent_same) (use intents in \<open>simp_all add: save_delivery_def\<close>)
  define d1 where "d1 = d\<lparr>dl_lease_owner := None, dl_lease_expires_at := None\<rparr>"
  consider (del) "sr_status x = SS_delivered" "settle_delivered ctx spec i d1 x db = (r, db')"
    | (unk) "sr_status x = SS_unknown" "settle_unknown ctx i d1 x db = (r, db')"
    | (fail) "sr_status x \<noteq> SS_delivered" "settle_failed ctx spec i d1 x db = (r, db')"
    using run by (cases "sr_status x") (auto simp: settle_send_def Let_def d1_def)
  then show ?thesis
  proof cases
    case del
    show ?thesis
      by (rule exI, rule exI, rule conjI,
          rule settledI[OF del(2)[unfolded settle_delivered_def Let_def]])
        (simp_all add: d1_def same_delivery_def)
  next
    case unk
    define d' where "d' = d1\<lparr>dl_status := DL_unknown, dl_provider_ref := sr_provider_ref x,
        dl_error_category := Some (category_or (sr_error_category x) ''timeout''),
        dl_error_summary := sr_error_summary x, dl_next_retry_at := None\<rparr>"
    from unk(2) have "emitS ctx ''notification.delivery_failed.v1'' d' i
        (failure_values (category_or (sr_error_category x) ''timeout'') d') (step_status DL_unknown)
        (save_intent i (save_delivery d' db)) = (r, db')"
      unfolding keep settle_unknown_def Let_def d'_def .
    then have "settled i d i d' db db'"
      by (rule settledI) (simp_all add: d'_def d1_def same_delivery_def)
    with unk(1) show ?thesis by auto
  next
    case fail
    show ?thesis
    proof (cases "category_or (sr_error_category x) ''transient'' = ''permanent''
        \<or> category_or (sr_error_category x) ''transient'' = ''cancelled''
        \<or> dp_max_attempts (ns_policy spec) \<le> dl_attempt d1")
      case True
      with fail(2) obtain d' key vals result where e: "emitS ctx key d' (scrub_intent ctx (ns_sensitivity spec) i)
          vals result (save_intent (scrub_intent ctx (ns_sensitivity spec) i) (save_delivery d' db)) = (r, db')"
        and d': "same_delivery d d'" "dl_attempt d' = dl_attempt d" "dl_lease_expires_at d' = None"
        by (auto simp: settle_failed_def Let_def d1_def same_delivery_def)
      have "settled i d (scrub_intent ctx (ns_sensitivity spec) i) d' db db'"
        by (rule settledI[OF e]) (simp_all add: d')
      with fail(1) show ?thesis by blast
    next
      case False
      with fail(2) obtain d' where "db' = save_delivery d' db"
        and d': "same_delivery d d'" "dl_attempt d' = dl_attempt d" "dl_lease_expires_at d' = None"
        by (auto simp: settle_failed_def Let_def d1_def same_delivery_def)
      then have "settled i d i d' db db'" by (simp add: settled_def keep)
      with fail(1) show ?thesis by blast
    qed
  qed
qed

section \<open>The effect of the activity\<close>

lemma chain_rows_cong:
  "chain_rows d n rows \<Longrightarrow> dl_id d' = dl_id d \<Longrightarrow> dl_attempt d' = dl_attempt d \<Longrightarrow> chain_rows d' n rows"
  by (simp add: chain_rows_def)

lemma wrote_settled:
  assumes "settled i (begin_attempt ctx d) i' d' db db'"
  shows "wrote_attempt (nx_now ctx) d i d' i' [] db db'"
  using assms by (auto simp: wrote_attempt_def settled_def same_delivery_def chain_rows_def same_rows_def
      save_intent_def save_delivery_def)

lemma wrote_raised:
  assumes "distinct (map ni_id (nd_intents db))" and "i \<in> set (nd_intents db)"
  shows "wrote_attempt (nx_now ctx) d i (begin_attempt ctx d) i [] db (save_delivery (begin_attempt ctx d) db)"
proof -
  have "save_intent i (save_delivery (begin_attempt ctx d) db) = save_delivery (begin_attempt ctx d) db"
    by (rule save_intent_same) (use assms in simp_all)
  then show ?thesis by (simp add: wrote_attempt_def chain_rows_def same_delivery_def same_rows_def)
qed

text \<open>The calls of the providers, then the end of the attempt.\<close>

lemma wrote_chain:
  assumes chain: "chain_effect (begin_attempt ctx d) 1 x d1 rows db db1" and nd: "dl_id d1 = dl_id d"
    and rest: "same_rows (save_intent i' (save_delivery d' db1)) db'" "same_delivery d1 d'"
      "same_intent i i'" "dl_attempt d' = dl_attempt d1"
      "dl_lease_expires_at d' = None \<or> dl_lease_expires_at d' = Some (nx_now ctx)"
    and del: "\<And>y. x = Inr y \<Longrightarrow> sr_status y = SS_delivered \<Longrightarrow> dl_status d' = DL_delivered"
  shows "wrote_attempt (nx_now ctx) d i d' i' rows db db'"
proof -
  from chain obtain key where d1: "d1 = begin_attempt ctx d\<lparr>dl_provider_key := key\<rparr>"
    and rows: "chain_rows (begin_attempt ctx d) 1 rows" "nd_attempts db1 = nd_attempts db @ rows"
    and tables: "same_rows db (db1\<lparr>nd_attempts := nd_attempts db\<rparr>)"
    and cnt: "length (delivered_rows (dl_id d) rows)
      = (case x of Inl _ \<Rightarrow> 0 | Inr y \<Rightarrow> if sr_status y = SS_delivered then 1 else 0)"
    by (auto simp: chain_effect_def)
  from d1 rest(2,4) have d': "same_delivery d d'" "dl_attempt d' = dl_attempt d + 1"
    by (auto simp: same_delivery_def)
  have "chain_rows d' 1 rows"
    by (rule chain_rows_cong[OF rows(1)]) (use d' in \<open>simp_all add: same_delivery_def\<close>)
  moreover have "dl_status d' = DL_delivered" if "delivered_rows (dl_id d) rows \<noteq> []"
    using that cnt del by (cases x) (auto split: if_splits)
  moreover have "length (delivered_rows (dl_id d) rows) \<le> 1" using cnt by (auto split: sum.splits)
  moreover have "same_rows (save_intent i' (save_delivery d' db)\<lparr>nd_attempts := nd_attempts db @ rows\<rparr>) db'"
    using rest(1) rows(2) tables by (simp add: same_rows_def save_intent_def save_delivery_def)
  ultimately show ?thesis using d' rest(3,5) by (simp add: wrote_attempt_def)
qed

lemma send_and_settle_wrote:
  assumes run: "send_and_settle ctx spec i (begin_attempt ctx d) target t providers vars db = (r, db')"
    and intents: "distinct (map ni_id (nd_intents db))" "i \<in> set (nd_intents db)"
  shows "\<exists>d' i' rows. wrote_attempt (nx_now ctx) d i d' i' rows db db'"
proof -
  obtain subject body where rend: "render_template (nx_repr ctx) (nt_subject t) (nt_body t) vars = (subject, body)"
    by (cases "render_template (nx_repr ctx) (nt_subject t) (nt_body t) vars")
  obtain x d1 db1 where send: "send_chain (nx_now ctx) target subject body providers 1 None
      (begin_attempt ctx d) db = (x, d1, db1)" by (cases rule: prod_cases3)
  from send_chain_effect[OF send] obtain rows where
    chain: "chain_effect (begin_attempt ctx d) 1 x d1 rows db db1" by (auto simp: not_delivered_def)
  then have same: "dl_id d1 = dl_id d" "nd_intents db1 = nd_intents db"
    "dl_lease_expires_at d1 = Some (nx_now ctx)"
    by (auto simp: chain_effect_def same_rows_def)
  have keep: "save_intent i (save_delivery d1 db1) = save_delivery d1 db1"
    by (rule save_intent_same) (use intents same in \<open>simp_all add: save_delivery_def\<close>)
  show ?thesis
  proof (cases x)
    case (Inl e)
    with run rend send have "db' = save_delivery d1 db1" by (auto simp: send_and_settle_def)
    with wrote_chain[OF chain same(1), of i d1 db' i] same(3) keep Inl show ?thesis by auto
  next
    case (Inr y)
    with run rend send have "settle_send ctx spec i d1 y db1 = (r, db')" by (auto simp: send_and_settle_def)
    from settle_send_settled[OF this] intents same obtain i' d' where
      st: "settled i d1 i' d' db1 db'" "sr_status y = SS_delivered \<longrightarrow> dl_status d' = DL_delivered" by auto
    with wrote_chain[OF chain same(1), of i' d' db' i] Inr show ?thesis by (auto simp: settled_def)
  qed
qed

lemma attempt_delivery_wrote:
  assumes run: "attempt_delivery ctx spec i d db = (r, db')"
    and intents: "distinct (map ni_id (nd_intents db))" "i \<in> set (nd_intents db)"
  shows "\<exists>d' i' rows. wrote_attempt (nx_now ctx) d i d' i' rows db db'"
proof -
  consider (fail) summary reason where "fail_permanently ctx (begin_attempt ctx d) i summary reason db = (r, db')"
    | (raise) "db' = save_delivery (begin_attempt ctx d) db"
    | (send) target t providers vars where
        "send_and_settle ctx spec i (begin_attempt ctx d) target t providers vars db = (r, db')"
    using run unfolding attempt_delivery_def Let_def
    by (auto split: option.splits sum.splits list.splits prod.splits)
  then show ?thesis
  proof cases
    case fail
    from fail_permanently_settled[OF fail] wrote_settled show ?thesis by blast
  next
    case raise
    with wrote_raised[OF intents] show ?thesis by blast
  next
    case send
    from send_and_settle_wrote[OF send intents] show ?thesis .
  qed
qed

text \<open>The activity leaves the tables alone or makes one attempt on an unfinished delivery.\<close>

lemma deliver_wrote:
  assumes run: "deliver ctx data db = (r, db')" and ids: "distinct (map ni_id (nd_intents db))"
  shows "db' = db \<or> (\<exists>d i d' i' rows. delivery_by_id db (dl_id d) = Some d \<and> \<not> finished_delivery (dl_status d)
    \<and> intent_by_id db (dl_intent d) = Some i \<and> wrote_attempt (nx_now ctx) d i d' i' rows db db')"
proof (cases "db' = db")
  case False
  then obtain did d i where d: "delivery_by_id db did = Some d" "\<not> finished_delivery (dl_status d)"
    and i: "intent_by_id db (dl_intent d) = Some i"
    and rest: "(case require_trigger (nx_specs ctx) (ni_spec_key i) of
                Inl _ \<Rightarrow> fail_permanently ctx d i ''spec not registered'' ''spec_missing'' db
              | Inr spec \<Rightarrow> attempt_delivery ctx spec i d db) = (r, db')"
    using run unfolding deliver_def by (auto split: sum.splits option.splits if_splits)
  from find_Some_mem i have mem: "i \<in> set (nd_intents db)" unfolding intent_by_id_def by fastforce
  from find_Some_mem d(1) have "dl_id d = did" unfolding delivery_by_id_def by fastforce
  moreover have "\<exists>d' i' rows. wrote_attempt (nx_now ctx) d i d' i' rows db db'"
  proof (cases "require_trigger (nx_specs ctx) (ni_spec_key i)")
    case (Inl e)
    with rest fail_permanently_settled obtain i' d' where "settled i d i' d' db db'" by fastforce
    then have "wrote_attempt (nx_now ctx) d i d' i' [] db db'"
      by (auto simp: wrote_attempt_def settled_def same_delivery_def chain_rows_def same_rows_def
          save_intent_def save_delivery_def)
    then show ?thesis by blast
  next
    case (Inr spec)
    with rest attempt_delivery_wrote[OF _ ids mem] show ?thesis by simp
  qed
  ultimately show ?thesis using d i by blast
qed simp

section \<open>The invariant\<close>

text \<open>Identities, the pairing of intents and deliveries, and the key of the attempts.\<close>

definition attempt_key :: "delivery_attempt \<Rightarrow> nat \<times> int \<times> nat" where
  "attempt_key a = (da_delivery a, da_attempt a, da_sequence a)"

definition paired :: "notification_intent \<Rightarrow> delivery \<Rightarrow> bool" where
  "paired i d \<longleftrightarrow> dl_intent d = ni_id i \<and> dl_created_at d = ni_created_at i"

definition rows_inv :: "notification_db \<Rightarrow> bool" where
  "rows_inv db \<longleftrightarrow> distinct (map dl_id (nd_deliveries db)) \<and> distinct (map ni_id (nd_intents db))
     \<and> distinct (map dl_intent (nd_deliveries db))
     \<and> (\<forall>d\<in>set (nd_deliveries db). dl_id d < nd_next_id db \<and> (\<exists>i\<in>set (nd_intents db). paired i d))
     \<and> (\<forall>i\<in>set (nd_intents db). ni_id i < nd_next_id db \<and> (\<exists>d\<in>set (nd_deliveries db). paired i d))
     \<and> da_delivery ` set (nd_attempts db) \<subseteq> dl_id ` set (nd_deliveries db)
     \<and> distinct (map attempt_key (nd_attempts db))"

definition delivery_inv :: "time \<Rightarrow> delivery_attempt list \<Rightarrow> delivery \<Rightarrow> bool" where
  "delivery_inv t as d \<longleftrightarrow> length (delivered_rows (dl_id d) as) \<le> 1
     \<and> (delivered_rows (dl_id d) as \<noteq> [] \<longrightarrow> dl_status d = DL_delivered)
     \<and> (\<forall>a\<in>set as. da_delivery a = dl_id d \<longrightarrow> da_attempt a \<le> dl_attempt d)
     \<and> (\<forall>e. dl_lease_expires_at d = Some e \<longrightarrow> e \<le> t)"

definition notification_inv :: "time \<times> notification_db \<Rightarrow> bool" where
  "notification_inv s \<longleftrightarrow> rows_inv (snd s)
     \<and> (\<forall>d\<in>set (nd_deliveries (snd s)). delivery_inv (fst s) (nd_attempts (snd s)) d)"

lemma rows_invD:
  assumes "rows_inv db"
  shows "distinct (map dl_id (nd_deliveries db))" "distinct (map ni_id (nd_intents db))"
    "distinct (map dl_intent (nd_deliveries db))" "distinct (map attempt_key (nd_attempts db))"
    "d \<in> set (nd_deliveries db) \<Longrightarrow> dl_id d < nd_next_id db \<and> (\<exists>i\<in>set (nd_intents db). paired i d)"
    "i \<in> set (nd_intents db) \<Longrightarrow> ni_id i < nd_next_id db \<and> (\<exists>d\<in>set (nd_deliveries db). paired i d)"
    "a \<in> set (nd_attempts db) \<Longrightarrow> da_delivery a \<in> dl_id ` set (nd_deliveries db)"
  using assms by (auto simp: rows_inv_def)

lemma delivery_by_idD: "delivery_by_id db i = Some d \<Longrightarrow> d \<in> set (nd_deliveries db) \<and> dl_id d = i"
  unfolding delivery_by_id_def by (drule find_Some_mem)

lemma intent_by_idD: "intent_by_id db j = Some i \<Longrightarrow> i \<in> set (nd_intents db) \<and> ni_id i = j"
  unfolding intent_by_id_def by (drule find_Some_mem)

lemma intent_of_delivery:
  assumes "rows_inv db" and "d \<in> set (nd_deliveries db)"
  shows "\<exists>i. intent_by_id db (dl_intent d) = Some i \<and> i \<in> set (nd_intents db) \<and> paired i d"
proof -
  from rows_invD(5)[OF assms] obtain i where i: "i \<in> set (nd_intents db)" "paired i d" by blast
  then have "intent_by_id db (dl_intent d) = Some i"
    using find_key_unique[OF rows_invD(2)[OF assms(1)] i(1)] by (simp add: intent_by_id_def paired_def)
  with i show ?thesis by blast
qed

text \<open>Later times and more of the other tables do not matter.\<close>

lemma notification_inv_same:
  assumes "notification_inv (t, db)" and "t \<le> t'" and "nd_intents db' = nd_intents db"
    and "nd_deliveries db' = nd_deliveries db" and "nd_attempts db' = nd_attempts db"
    and "nd_next_id db \<le> nd_next_id db'"
  shows "notification_inv (t', db')"
  using assms by (auto simp: notification_inv_def rows_inv_def delivery_inv_def dest: order_trans less_le_trans)

text \<open>
  What a write can do to intents, deliveries and attempts: nothing, add an intent with its delivery,
  or rewrite one delivery and its intent and add attempts of the new number.
\<close>

definition unchanged_rows :: "notification_db \<Rightarrow> notification_db \<Rightarrow> bool" where
  "unchanged_rows db db' \<longleftrightarrow> nd_intents db' = nd_intents db \<and> nd_deliveries db' = nd_deliveries db
     \<and> nd_attempts db' = nd_attempts db \<and> nd_next_id db \<le> nd_next_id db'"

definition added_rows ::
    "notification_intent \<Rightarrow> delivery \<Rightarrow> notification_db \<Rightarrow> notification_db \<Rightarrow> bool" where
  "added_rows x d db db' \<longleftrightarrow> find_intent db (ni_spec_key x) (ni_idempotency_key x) = None
     \<and> paired x d \<and> ni_id x = nd_next_id db \<and> dl_id d = Suc (nd_next_id db)
     \<and> dl_lease_expires_at d = None
     \<and> same_rows (db\<lparr>nd_intents := nd_intents db @ [x], nd_deliveries := nd_deliveries db @ [d],
          nd_next_id := nd_next_id db + 2\<rparr>) db'"

definition rewritten_rows ::
    "time \<Rightarrow> delivery \<Rightarrow> notification_intent \<Rightarrow> delivery \<Rightarrow> notification_intent
      \<Rightarrow> delivery_attempt list \<Rightarrow> notification_db \<Rightarrow> notification_db \<Rightarrow> bool" where
  "rewritten_rows t d i d' i' rows db db' \<longleftrightarrow> d \<in> set (nd_deliveries db) \<and> i \<in> set (nd_intents db)
     \<and> ni_id i = dl_intent d \<and> same_delivery d d' \<and> same_intent i i' \<and> dl_attempt d \<le> dl_attempt d'
     \<and> (\<forall>e. dl_lease_expires_at d' = Some e \<longrightarrow> e \<le> t) \<and> chain_rows d' 1 rows
     \<and> (rows \<noteq> [] \<longrightarrow> dl_attempt d' = dl_attempt d + 1) \<and> length (delivered_rows (dl_id d) rows) \<le> 1
     \<and> (delivered_rows (dl_id d) rows \<noteq> [] \<longrightarrow> dl_status d' = DL_delivered)
     \<and> dl_status d \<noteq> DL_delivered
     \<and> same_rows (save_intent i' (save_delivery d' db)\<lparr>nd_attempts := nd_attempts db @ rows\<rparr>) db'"

lemma notification_inv_rewritten:
  assumes inv: "notification_inv (t, db)" and t: "t \<le> t'"
    and w: "rewritten_rows t' d i d' i' rows db db'"
  shows "notification_inv (t', db')"
proof -
  from w have d: "d \<in> set (nd_deliveries db)" and i: "i \<in> set (nd_intents db)" "ni_id i = dl_intent d"
    and same: "same_delivery d d'" "same_intent i i'" "dl_attempt d \<le> dl_attempt d'"
    and lease: "\<And>e. dl_lease_expires_at d' = Some e \<Longrightarrow> e \<le> t'"
    and rows: "chain_rows d' 1 rows" "rows \<noteq> [] \<Longrightarrow> dl_attempt d' = dl_attempt d + 1"
      "length (delivered_rows (dl_id d) rows) \<le> 1"
      "delivered_rows (dl_id d) rows \<noteq> [] \<Longrightarrow> dl_status d' = DL_delivered"
    and open_d: "dl_status d \<noteq> DL_delivered"
    and db': "same_rows (save_intent i' (save_delivery d' db)\<lparr>nd_attempts := nd_attempts db @ rows\<rparr>) db'"
    by (simp_all add: rewritten_rows_def)
  from inv have ri: "rows_inv db" and di: "\<And>x. x \<in> set (nd_deliveries db) \<Longrightarrow> delivery_inv t (nd_attempts db) x"
    by (auto simp: notification_inv_def)
  note keys = rows_invD(1-4)[OF ri]
  from db' have tables: "nd_deliveries db' = update_where (\<lambda>x. dl_id x = dl_id d') (\<lambda>_. d') (nd_deliveries db)"
    "nd_intents db' = update_where (\<lambda>x. ni_id x = ni_id i') (\<lambda>_. i') (nd_intents db)"
    "nd_attempts db' = nd_attempts db @ rows" "nd_next_id db \<le> nd_next_id db'"
    by (auto simp: same_rows_def save_intent_def save_delivery_def)
  have ids: "dl_id d' = dl_id d" "ni_id i' = ni_id i" using same by (auto simp: same_delivery_def same_intent_def)
  have flds: "dl_intent d' = dl_intent d" "dl_created_at d' = dl_created_at d" "ni_created_at i' = ni_created_at i"
    using same by (simp_all add: same_delivery_def same_intent_def)
  have maps: "map dl_id (nd_deliveries db') = map dl_id (nd_deliveries db)"
    "map (\<lambda>x. (dl_intent x, dl_created_at x)) (nd_deliveries db') = map (\<lambda>x. (dl_intent x, dl_created_at x)) (nd_deliveries db)"
    "map dl_intent (nd_deliveries db') = map dl_intent (nd_deliveries db)"
    unfolding tables by (rule replaced_map[OF keys(1) d ids(1)], simp add: ids flds)+
  have mapi: "map ni_id (nd_intents db') = map ni_id (nd_intents db)"
    "map (\<lambda>x. (ni_id x, ni_created_at x)) (nd_intents db') = map (\<lambda>x. (ni_id x, ni_created_at x)) (nd_intents db)"
    unfolding tables by (rule replaced_map[OF keys(2) i(1) ids(2)], simp add: ids flds)+
  note maps = maps mapi
  have pairs: "(\<exists>i\<in>set (nd_intents db'). paired i x) \<longleftrightarrow> (\<exists>i\<in>set (nd_intents db). paired i x)" for x
  proof -
    have "(\<exists>i\<in>set is. paired i x) \<longleftrightarrow> (dl_intent x, dl_created_at x) \<in> set (map (\<lambda>x. (ni_id x, ni_created_at x)) is)" for "is"
      by (auto simp: paired_def image_iff)
    then show ?thesis by (simp only: maps)
  qed
  have pairs': "(\<exists>d\<in>set (nd_deliveries db'). paired x d) \<longleftrightarrow> (\<exists>d\<in>set (nd_deliveries db). paired x d)" for x
  proof -
    have "(\<exists>d\<in>set ds. paired x d) \<longleftrightarrow> (ni_id x, ni_created_at x) \<in> set (map (\<lambda>x. (dl_intent x, dl_created_at x)) ds)" for ds
      by (induction ds) (auto simp: paired_def)
    then show ?thesis by (simp only: maps)
  qed
  have mem: "x = d' \<or> x \<in> set (nd_deliveries db) \<and> dl_id x \<noteq> dl_id d" if "x \<in> set (nd_deliveries db')" for x
    using replaced_rows[OF keys(1) d ids(1)] that by (simp add: tables)
  have memi: "x = i' \<or> x \<in> set (nd_intents db) \<and> ni_id x \<noteq> ni_id i" if "x \<in> set (nd_intents db')" for x
    using replaced_rows[OF keys(2) i(1) ids(2)] that by (simp add: tables)
  have old: "da_attempt a \<le> dl_attempt d" if "a \<in> set (nd_attempts db)" "da_delivery a = dl_id d" for a
    using di[OF d] that by (simp add: delivery_inv_def)
  have new: "da_delivery a = dl_id d" "da_attempt a = dl_attempt d + 1" if "a \<in> set rows" for a
    using rows(1) rows(2)[OF length_pos_if_in_set[OF that, unfolded length_greater_0_conv]] that ids
    by (simp_all add: chain_rows_def)
  have none: "delivered_rows (dl_id d) (nd_attempts db) = []"
    using di[OF d] open_d by (auto simp: delivery_inv_def)
  have "distinct (map da_sequence rows)" using rows(1) by (simp add: chain_rows_def)
  then have adist: "distinct (map attempt_key rows)"
    by (auto simp: distinct_map inj_on_def attempt_key_def)
  have neq: "attempt_key a \<noteq> attempt_key b" if "a \<in> set (nd_attempts db)" "b \<in> set rows" for a b
    using old[OF that(1)] new[OF that(2)] by (auto simp: attempt_key_def)
  have disj: "attempt_key ` set (nd_attempts db) \<inter> attempt_key ` set rows = {}"
  proof (rule equals0I)
    fix k assume "k \<in> attempt_key ` set (nd_attempts db) \<inter> attempt_key ` set rows"
    then obtain a b where "a \<in> set (nd_attempts db)" "b \<in> set rows" "attempt_key a = attempt_key b" by auto
    with neq show False by blast
  qed
  from keys(4) adist disj have akeys: "distinct (map attempt_key (nd_attempts db'))"
    by (simp add: tables)
  have "rows_inv db'"
    unfolding rows_inv_def maps
  proof (intro conjI ballI)
    show "da_delivery ` set (nd_attempts db') \<subseteq> dl_id ` set (nd_deliveries db')"
    proof -
      have "dl_id ` set (nd_deliveries db') = dl_id ` set (nd_deliveries db)"
        using maps(1) by (metis set_map)
      then show ?thesis using rows_invD(7)[OF ri] new(1) d by (auto simp: tables)
    qed
    fix x assume x: "x \<in> set (nd_deliveries db')"
    show "\<exists>i\<in>set (nd_intents db'). paired i x"
      unfolding pairs using mem[OF x] rows_invD(5)[OF ri] d same(1)
      by (auto simp: same_delivery_def paired_def)
    show "dl_id x < nd_next_id db'"
      using mem[OF x] rows_invD(5)[OF ri, of x] rows_invD(5)[OF ri d] ids tables(4) by auto
  next
    fix x assume x: "x \<in> set (nd_intents db')"
    show "\<exists>d\<in>set (nd_deliveries db'). paired x d"
      unfolding pairs' using memi[OF x] rows_invD(6)[OF ri] i(1) same(2)
      by (auto simp: same_intent_def paired_def)
    show "ni_id x < nd_next_id db'"
      using memi[OF x] rows_invD(6)[OF ri, of x] rows_invD(6)[OF ri i(1)] ids tables(4) by auto
  qed (use keys akeys in auto)
  moreover have "delivery_inv t' (nd_attempts db') x" if x: "x \<in> set (nd_deliveries db')" for x
  proof (cases "x = d'")
    case True
    have "delivered_rows (dl_id d) (nd_attempts db') = delivered_rows (dl_id d) rows"
      by (simp add: tables none)
    moreover have "da_attempt a \<le> dl_attempt d'" if "a \<in> set (nd_attempts db')" "da_delivery a = dl_id d" for a
    proof (cases "a \<in> set rows")
      case True
      then have "rows \<noteq> []" by auto
      with new(2)[OF True] rows(2) show ?thesis by simp
    next
      case False
      with that old[of a] same(3) show ?thesis by (simp add: tables)
    qed
    ultimately show ?thesis using rows(3,4) lease True ids by (simp add: delivery_inv_def)
  next
    case False
    with mem[OF x] have x: "x \<in> set (nd_deliveries db)" "dl_id x \<noteq> dl_id d" by auto
    then have "delivered_rows (dl_id x) rows = []"
      using new(1) by (auto simp: delivered_rows_def filter_empty_conv)
    with di[OF x(1)] x(2) t new(1) show ?thesis by (auto simp: delivery_inv_def tables)
  qed
  ultimately show ?thesis by (simp add: notification_inv_def)
qed

lemma new_rows [simp]:
  "ni_id (new_intent ctx spec stored i n) = n" "dl_id (new_delivery ctx t p i n m) = m"
  "dl_intent (new_delivery ctx t p i n m) = n"
  by (simp_all add: new_intent_def new_delivery_def)

text \<open>A request finds its intent or appends an intent with its delivery.\<close>

lemma request_transaction_cases:
  assumes "request_transaction ctx spec stored i db = Inr ((x, d, created), db')"
  shows "db' = db \<and> \<not> created \<and> find_intent db (rn_trigger i) (rn_idempotency_key i) = Some x
      \<and> delivery_of db (ni_id x) = Some d
    \<or> created \<and> find_intent db (rn_trigger i) (rn_idempotency_key i) = None
      \<and> (\<exists>t p. x = new_intent ctx spec stored i (nd_next_id db)
          \<and> d = new_delivery ctx t p i (nd_next_id db) (Suc (nd_next_id db)))
      \<and> same_rows (db\<lparr>nd_intents := nd_intents db @ [x], nd_deliveries := nd_deliveries db @ [d],
          nd_next_id := nd_next_id db + 2\<rparr>) db'"
proof (cases "find_intent db (rn_trigger i) (rn_idempotency_key i)")
  case None
  from assms None have "\<exists>t p. x = new_intent ctx spec stored i (nd_next_id db) \<and> created
      \<and> d = new_delivery ctx t p i (nd_next_id db) (Suc (nd_next_id db))
      \<and> notification_emit ctx ''notification.requested.v1'' d x [] (db\<lparr>nd_intents := nd_intents db @ [x],
        nd_deliveries := nd_deliveries db @ [d], nd_next_id := Suc (Suc (nd_next_id db))\<rparr>) = Inr db'"
    by (auto simp: request_transaction_def insert_intent_def Let_def cmd_ok)
  then obtain t p where x: "x = new_intent ctx spec stored i (nd_next_id db)"
    and d: "d = new_delivery ctx t p i (nd_next_id db) (Suc (nd_next_id db))" and "created"
    and e: "notification_emit ctx ''notification.requested.v1'' d x [] (db\<lparr>nd_intents := nd_intents db @ [x],
        nd_deliveries := nd_deliveries db @ [d], nd_next_id := Suc (Suc (nd_next_id db))\<rparr>) = Inr db'"
    by blast
  have "ni_id x = nd_next_id db" by (simp add: x)
  with emit_rows[OF e] x d None \<open>created\<close> show ?thesis by auto
next
  case (Some y)
  with assms show ?thesis by (auto simp: request_transaction_def cmd_ok)
qed

lemma request_adds:
  assumes "request_transaction ctx spec stored i db = Inr (r, db')"
  shows "db' = db \<or> (\<exists>x d. added_rows x d db db')"
proof -
  obtain x d created where r: "r = (x, d, created)" by (cases r)
  from request_transaction_cases[OF assms[unfolded r]] show ?thesis
  proof (elim disjE exE conjE)
    fix tg p
    assume x: "x = new_intent ctx spec stored i (nd_next_id db)"
      and d: "d = new_delivery ctx tg p i (nd_next_id db) (Suc (nd_next_id db))"
      and fresh: "find_intent db (rn_trigger i) (rn_idempotency_key i) = None"
      and rows: "same_rows (db\<lparr>nd_intents := nd_intents db @ [x], nd_deliveries := nd_deliveries db @ [d],
          nd_next_id := nd_next_id db + 2\<rparr>) db'"
    have "ni_spec_key x = rn_trigger i" "ni_idempotency_key x = rn_idempotency_key i"
      "dl_lease_expires_at d = None" "paired x d"
      by (simp_all add: x d new_intent_def new_delivery_def paired_def)
    with x d fresh rows have "added_rows x d db db'" by (simp add: added_rows_def)
    then show ?thesis by blast
  qed simp
qed

lemma notification_inv_added:
  assumes inv: "notification_inv (t, db)" and t: "t \<le> t'" and w: "added_rows x d db db'"
  shows "notification_inv (t', db')"
proof -
  from inv have ri: "rows_inv db" and di: "\<And>y. y \<in> set (nd_deliveries db) \<Longrightarrow> delivery_inv t (nd_attempts db) y"
    by (auto simp: notification_inv_def)
  from w have pd: "paired x d" and idx: "ni_id x = nd_next_id db" "dl_id d = Suc (nd_next_id db)"
    "dl_intent d = nd_next_id db" "dl_lease_expires_at d = None"
    and db': "same_rows (db\<lparr>nd_intents := nd_intents db @ [x], nd_deliveries := nd_deliveries db @ [d],
        nd_next_id := nd_next_id db + 2\<rparr>) db'"
    by (auto simp: added_rows_def paired_def)
  from db' have tables: "nd_intents db' = nd_intents db @ [x]" "nd_deliveries db' = nd_deliveries db @ [d]"
    "nd_attempts db' = nd_attempts db" "nd_next_id db + 2 \<le> nd_next_id db'"
    by (auto simp: same_rows_def)
  have fresh: "dl_id y < nd_next_id db \<and> dl_intent y < nd_next_id db" if "y \<in> set (nd_deliveries db)" for y
    using rows_invD(5)[OF ri that] rows_invD(6)[OF ri] by (auto simp: paired_def)
  have freshi: "ni_id y < nd_next_id db" if "y \<in> set (nd_intents db)" for y
    using rows_invD(6)[OF ri that] by simp
  have none: "da_delivery a \<noteq> dl_id d" if "a \<in> set (nd_attempts db)" for a
    using rows_invD(7)[OF ri that] fresh idx(2) by fastforce
  have "rows_inv db'"
    unfolding rows_inv_def tables
  proof (intro conjI ballI)
    show "distinct (map dl_id (nd_deliveries db @ [d]))" "distinct (map dl_intent (nd_deliveries db @ [d]))"
      "distinct (map ni_id (nd_intents db @ [x]))"
      using rows_invD(1-3)[OF ri] fresh freshi idx by fastforce+
    fix y assume "y \<in> set (nd_deliveries db @ [d])"
    then show "dl_id y < nd_next_id db'" "\<exists>i\<in>set (nd_intents db @ [x]). paired i y"
      using rows_invD(5)[OF ri, of y] idx tables(4) pd by auto
  next
    fix y assume "y \<in> set (nd_intents db @ [x])"
    then show "ni_id y < nd_next_id db'" "\<exists>d'\<in>set (nd_deliveries db @ [d]). paired y d'"
      using rows_invD(6)[OF ri, of y] idx tables(4) pd by auto
  qed (use rows_invD(4,7)[OF ri] in auto)
  moreover have "delivery_inv t' (nd_attempts db) d"
    using none idx(4) by (auto simp: delivery_inv_def delivered_rows_def filter_empty_conv)
  moreover have "delivery_inv t' (nd_attempts db) y" if "y \<in> set (nd_deliveries db)" for y
    using di[OF that] t by (auto simp: delivery_inv_def)
  ultimately show ?thesis by (auto simp: notification_inv_def tables)
qed

text \<open>An administrator changes the status of a delivery and of its intent.\<close>

lemma admin_rewrites:
  assumes inv: "notification_inv (t, db)" and t: "t \<le> t'" and d: "delivery_by_id db did = Some d"
    and d': "same_delivery d d'" "dl_attempt d' = dl_attempt d"
      "dl_lease_expires_at d' = dl_lease_expires_at d \<or> dl_lease_expires_at d' = None"
    and open_d: "dl_status d \<noteq> DL_delivered"
    and db': "db' = (case intent_by_id (save_delivery d' db) (dl_intent d) of None \<Rightarrow> save_delivery d' db
        | Some i \<Rightarrow> if p i then save_intent (f i) (save_delivery d' db) else save_delivery d' db)"
    and f: "\<And>i. same_intent i (f i)"
  shows "\<exists>i i'. rewritten_rows t' d i d' i' [] db db'"
proof -
  from inv have ri: "rows_inv db" and di: "\<And>x. x \<in> set (nd_deliveries db) \<Longrightarrow> delivery_inv t (nd_attempts db) x"
    by (auto simp: notification_inv_def)
  from delivery_by_idD[OF d] have mem: "d \<in> set (nd_deliveries db)" by simp
  from intent_of_delivery[OF ri mem] obtain i where i: "intent_by_id db (dl_intent d) = Some i"
    "i \<in> set (nd_intents db)" "ni_id i = dl_intent d" by (auto simp: paired_def)
  have keep: "save_intent i (save_delivery d' db) = save_delivery d' db"
    by (rule save_intent_same) (use rows_invD(2)[OF ri] i in simp_all)
  define i' where "i' = (if p i then f i else i)"
  have "intent_by_id (save_delivery d' db) (dl_intent d) = Some i" using i(1) by (simp add: intent_by_id_def)
  with db' keep f have i': "same_intent i i'" "db' = save_intent i' (save_delivery d' db)"
    by (simp_all add: i'_def)
  then have rows: "same_rows (save_intent i' (save_delivery d' db)\<lparr>nd_attempts := nd_attempts db @ []\<rparr>) db'"
    by (simp add: same_rows_def)
  have lease: "e \<le> t'" if "dl_lease_expires_at d' = Some e" for e
  proof -
    have "dl_lease_expires_at d = Some e" using that d'(3) by auto
    with di[OF mem] have "e \<le> t" unfolding delivery_inv_def by blast
    with t show ?thesis by simp
  qed
  have "chain_rows d' 1 []" by (simp add: chain_rows_def)
  with mem i(2,3) d'(1,2) i'(1) open_d rows lease have "rewritten_rows t' d i d' i' [] db db'"
    by (simp add: rewritten_rows_def)
  then show ?thesis by blast
qed

lemma notification_inv_cleanup:
  assumes inv: "notification_inv (t, db)" and run: "cleanup_notifications cutoff db = (counts, db')"
  shows "notification_inv (t, db')"
proof -
  from inv have ri: "rows_inv db" and di: "\<And>x. x \<in> set (nd_deliveries db) \<Longrightarrow> delivery_inv t (nd_attempts db) x"
    by (auto simp: notification_inv_def)
  define gone where "gone = map dl_id (filter (finished_before cutoff) (nd_deliveries db))"
  from run have tables: "nd_deliveries db' = filter (\<lambda>d. dl_id d \<notin> set gone) (nd_deliveries db)"
    "nd_attempts db' = filter (\<lambda>a. da_delivery a \<notin> set gone) (nd_attempts db)"
    "nd_intents db' = filter (\<lambda>i. \<not> (ni_created_at i < cutoff
       \<and> \<not> list_ex (\<lambda>d. dl_intent d = ni_id i) (nd_deliveries db'))) (nd_intents db)"
    "nd_next_id db' = nd_next_id db"
    by (auto simp: cleanup_notifications_def Let_def gone_def)
  have old: "dl_created_at d < cutoff" if "d \<in> set (nd_deliveries db)" "dl_id d \<in> set gone" for d
  proof -
    from that(2) obtain d0 where "d0 \<in> set (nd_deliveries db)" "dl_id d0 = dl_id d" "dl_created_at d0 < cutoff"
      by (auto simp: gone_def finished_before_def)
    moreover from this that(1) rows_invD(1)[OF ri] have "d0 = d" by (metis distinct_map inj_onD)
    ultimately show ?thesis by simp
  qed
  have "rows_inv db'"
    unfolding rows_inv_def
  proof (intro conjI ballI)
    fix d assume d: "d \<in> set (nd_deliveries db')"
    then have mem: "d \<in> set (nd_deliveries db)" by (simp add: tables)
    from rows_invD(5)[OF ri mem] show "dl_id d < nd_next_id db'" by (simp add: tables)
    from rows_invD(5)[OF ri mem] obtain i where "i \<in> set (nd_intents db)" "paired i d" by blast
    with d show "\<exists>i\<in>set (nd_intents db'). paired i d"
      by (auto simp: tables(3) list_ex_iff paired_def)
  next
    fix i assume i: "i \<in> set (nd_intents db')"
    then have mem: "i \<in> set (nd_intents db)" by (simp add: tables(3))
    from rows_invD(6)[OF ri mem] show "ni_id i < nd_next_id db'" by (simp add: tables)
    from rows_invD(6)[OF ri mem] obtain d where d: "d \<in> set (nd_deliveries db)" "paired i d" by blast
    show "\<exists>d\<in>set (nd_deliveries db'). paired i d"
    proof (cases "dl_id d \<in> set gone")
      case False
      with d show ?thesis by (auto simp: tables(1))
    next
      case True
      with old[OF d(1)] d(2) i obtain d2 where d2: "d2 \<in> set (nd_deliveries db')" "dl_intent d2 = ni_id i"
        by (auto simp: tables(3) list_ex_iff paired_def)
      then have "d2 \<in> set (nd_deliveries db)" by (simp add: tables(1))
      with d d2(2) rows_invD(3)[OF ri] have "d2 = d" by (metis distinct_map inj_onD paired_def)
      with d2(1) d(2) show ?thesis by blast
    qed
  next
    show "da_delivery ` set (nd_attempts db') \<subseteq> dl_id ` set (nd_deliveries db')"
      using rows_invD(7)[OF ri] by (fastforce simp: tables(1,2))
  qed (use rows_invD(1-4)[OF ri] in \<open>simp_all add: tables distinct_map_filter\<close>)
  moreover have "delivery_inv t (nd_attempts db') d" if "d \<in> set (nd_deliveries db')" for d
  proof -
    from that have "d \<in> set (nd_deliveries db)" "dl_id d \<notin> set gone" by (simp_all add: tables(1))
    moreover from this(2) have "delivered_rows (dl_id d) (nd_attempts db') = delivered_rows (dl_id d) (nd_attempts db)"
      by (auto simp: tables(2) delivered_rows_def intro: filter_cong)
    ultimately show ?thesis using di by (auto simp: delivery_inv_def tables(2))
  qed
  ultimately show ?thesis by (simp add: notification_inv_def)
qed

lemma seed_rows: "seed_templates ts db = (n, db') \<Longrightarrow> nd_intents db' = nd_intents db
    \<and> nd_deliveries db' = nd_deliveries db \<and> nd_attempts db' = nd_attempts db \<and> nd_next_id db' = nd_next_id db"
  by (induction ts db arbitrary: n rule: seed_templates.induct) (auto split: if_splits prod.splits)

lemma notification_write_effect:
  assumes "notification_write s s'" and inv: "notification_inv s"
  shows "fst s \<le> fst s' \<and> (unchanged_rows (snd s) (snd s') \<or> (\<exists>x d. added_rows x d (snd s) (snd s'))
    \<or> (\<exists>d i d' i' rows. rewritten_rows (fst s') d i d' i' rows (snd s) (snd s')))"
  using assms(1)
proof cases
  case (request ctx spec stored i db r db' t)
  with request_adds[OF request(3)] show ?thesis by (auto simp: unchanged_rows_def)
next
  case (start t db key did)
  then show ?thesis by (simp add: unchanged_rows_def start_delivery_def)
next
  case (template ctx trigger loc i db row db' t)
  then show ?thesis by (auto simp: update_template_def Let_def cmd_ok unchanged_rows_def)
next
  case (seed ts db n db' t)
  with seed_rows[OF seed(3)] show ?thesis by (simp add: unchanged_rows_def)
next
  case (cancel ctx did db dto db' t)
  from cancel(3) obtain d where d: "delivery_by_id db did = Some d" "dl_status d = DL_pending"
    and db': "db' = (case intent_by_id (save_delivery (d\<lparr>dl_status := DL_cancelled\<rparr>) db) (dl_intent d) of
         None \<Rightarrow> save_delivery (d\<lparr>dl_status := DL_cancelled\<rparr>) db
       | Some i \<Rightarrow> if ni_state i = NI_pending
           then save_intent (i\<lparr>ni_state := NI_cancelled, ni_cancelled_at := Some (nx_now ctx)\<rparr>)
             (save_delivery (d\<lparr>dl_status := DL_cancelled\<rparr>) db)
           else save_delivery (d\<lparr>dl_status := DL_cancelled\<rparr>) db)"
    unfolding cancel_pending_def Let_def cmd_ok by auto
  have "\<exists>i i'. rewritten_rows (nx_now ctx) d i (d\<lparr>dl_status := DL_cancelled\<rparr>) i' [] db db'"
    by (rule admin_rewrites[OF _ cancel(4) d(1) _ _ _ _ db'])
      (use inv d(2) in \<open>simp_all add: cancel same_delivery_def same_intent_def\<close>)
  with cancel(4) show ?thesis unfolding cancel(1,2) fst_conv snd_conv by blast
next
  case (retry ctx did db d' db' t)
  from retry(3) obtain d where d: "delivery_by_id db did = Some d" "retryable (dl_status d)"
    and d': "d' = d\<lparr>dl_status := DL_pending, dl_next_retry_at := None, dl_error_category := None,
           dl_error_summary := None, dl_lease_owner := None, dl_lease_expires_at := None\<rparr>"
    and db': "db' = (case intent_by_id (save_delivery d' db) (dl_intent d) of None \<Rightarrow> save_delivery d' db
       | Some i \<Rightarrow> if ni_state i = NI_cancelled
           then save_intent (i\<lparr>ni_state := NI_pending, ni_cancelled_at := None\<rparr>) (save_delivery d' db)
           else save_delivery d' db)"
    unfolding retry_transaction_def Let_def cmd_ok by auto
  have "dl_status d \<noteq> DL_delivered" using d(2) by (auto simp: retryable_def)
  then have "\<exists>i i'. rewritten_rows (nx_now ctx) d i d' i' [] db db'"
    by (intro admin_rewrites[OF _ retry(4) d(1) _ _ _ _ db'])
      (use inv in \<open>simp_all add: retry d' same_delivery_def same_intent_def\<close>)
  with retry(4) show ?thesis unfolding retry(1,2) fst_conv snd_conv by blast
next
  case (deliver ctx data db result db' t)
  have "distinct (map ni_id (nd_intents db))"
    using inv deliver(1) by (simp add: notification_inv_def rows_inv_def)
  from deliver_wrote[OF deliver(3) this] show ?thesis
  proof (elim disjE exE conjE)
    assume "db' = db"
    with deliver show ?thesis by (simp add: unchanged_rows_def)
  next
    fix d i d' i' rows
    assume d: "delivery_by_id db (dl_id d) = Some d" "\<not> finished_delivery (dl_status d)"
      and i: "intent_by_id db (dl_intent d) = Some i" and w: "wrote_attempt (nx_now ctx) d i d' i' rows db db'"
    from d(2) have "dl_status d \<noteq> DL_delivered" by (auto simp: finished_delivery_def)
    moreover from delivery_by_idD[OF d(1)] intent_by_idD[OF i] have "d \<in> set (nd_deliveries db)"
      "i \<in> set (nd_intents db)" "ni_id i = dl_intent d" by auto
    ultimately have "rewritten_rows (nx_now ctx) d i d' i' rows db db'"
      using w by (auto simp: wrote_attempt_def rewritten_rows_def)
    with deliver(4) show ?thesis unfolding deliver(1,2) fst_conv snd_conv by blast
  qed
qed

lemma notification_inv_write:
  assumes "notification_write s s'" and inv: "notification_inv s"
  shows "notification_inv s'"
proof -
  from inv have inv': "notification_inv (fst s, snd s)" by simp
  from notification_write_effect[OF assms] consider (a) "unchanged_rows (snd s) (snd s')" "fst s \<le> fst s'"
    | (b) x d where "added_rows x d (snd s) (snd s')" "fst s \<le> fst s'"
    | (c) d i d' i' rows where "rewritten_rows (fst s') d i d' i' rows (snd s) (snd s')" "fst s \<le> fst s'"
    by blast
  then have "notification_inv (fst s', snd s')"
  proof cases
    case a
    show ?thesis by (rule notification_inv_same[OF inv' a(2)]) (use a(1) in \<open>simp_all add: unchanged_rows_def\<close>)
  next
    case b
    show ?thesis by (rule notification_inv_added[OF inv' b(2,1)])
  next
    case c
    show ?thesis by (rule notification_inv_rewritten[OF inv' c(2,1)])
  qed
  then show ?thesis by simp
qed

lemma notification_inv_step: "notification_step s s' \<Longrightarrow> notification_inv s \<Longrightarrow> notification_inv s'"
  by (induction rule: notification_step.induct) (auto intro: notification_inv_write notification_inv_cleanup)

lemma notification_inv_reachable: "notification_reachable s \<Longrightarrow> notification_inv s"
proof (induction rule: notification_reachable.induct)
  case (init t)
  then show ?case by (simp add: notification_inv_def rows_inv_def empty_notification_db_def)
qed (auto intro: notification_inv_step)

end
