(* ===== verification/Notification_Properties.thy ===== *)
theory Notification_Properties
  imports Notification_Invariant
begin

text \<open>
  The properties of notifications, with a run of the commands that is their witness.
\<close>

section \<open>Requests are keyed\<close>

definition intent_key :: "notification_intent \<Rightarrow> (string \<times> string) \<times> nat" where
  "intent_key i = ((ni_spec_key i, ni_idempotency_key i), ni_id i)"

definition pair_key :: "delivery \<Rightarrow> nat \<times> nat" where
  "pair_key d = (dl_intent d, dl_id d)"

lemma write_extends:
  assumes "notification_write s s'" and inv: "notification_inv s"
  shows "extends_by intent_key (nd_intents (snd s)) (nd_intents (snd s'))
    \<and> extends_by pair_key (nd_deliveries (snd s)) (nd_deliveries (snd s'))"
proof -
  from inv have ri: "rows_inv (snd s)" by (simp add: notification_inv_def)
  from notification_write_effect[OF assms] consider (a) "unchanged_rows (snd s) (snd s')"
    | (b) x d where "added_rows x d (snd s) (snd s')"
    | (c) d i d' i' rows where "rewritten_rows (fst s') d i d' i' rows (snd s) (snd s')" by blast
  then show ?thesis
  proof cases
    case a
    then show ?thesis by (simp add: unchanged_rows_def)
  next
    case b
    then show ?thesis by (simp add: added_rows_def same_rows_def)
  next
    case c
    then have d: "d \<in> set (nd_deliveries (snd s))" "dl_id d' = dl_id d" "pair_key d' = pair_key d"
      and i: "i \<in> set (nd_intents (snd s))" "ni_id i' = ni_id i" "intent_key i' = intent_key i"
      and tables: "nd_deliveries (snd s') = update_where (\<lambda>x. dl_id x = dl_id d') (\<lambda>_. d') (nd_deliveries (snd s))"
        "nd_intents (snd s') = update_where (\<lambda>x. ni_id x = ni_id i') (\<lambda>_. i') (nd_intents (snd s))"
      by (auto simp: rewritten_rows_def same_delivery_def same_intent_def pair_key_def intent_key_def
          same_rows_def save_intent_def save_delivery_def)
    from replaced_map[OF rows_invD(1)[OF ri] d] replaced_map[OF rows_invD(2)[OF ri] i]
    show ?thesis unfolding tables by (auto intro: extends_by_same)
  qed
qed

lemma find_intent_key:
  "find_intent db a b = find ((\<lambda>k. fst k = (a, b)) \<circ> intent_key) (nd_intents db)"
  unfolding find_intent_def by (rule arg_cong[of _ _ "\<lambda>p. find p (nd_intents db)"]) (auto simp: intent_key_def)

lemma delivery_of_key: "delivery_of db i = find ((\<lambda>k. fst k = i) \<circ> pair_key) (nd_deliveries db)"
  unfolding delivery_of_def by (rule arg_cong[of _ _ "\<lambda>p. find p (nd_deliveries db)"]) (auto simp: pair_key_def)

definition request_recorded :: "time \<times> notification_db \<Rightarrow> string \<times> string \<Rightarrow> nat \<times> nat \<Rightarrow> bool" where
  "request_recorded s k r \<longleftrightarrow> (\<exists>x d. find_intent (snd s) (fst k) (snd k) = Some x \<and> ni_id x = fst r
     \<and> delivery_of (snd s) (fst r) = Some d \<and> dl_id d = snd r)"

definition request_run ::
    "string \<times> string \<Rightarrow> notification_ctx \<times> notification_spec \<times> dict \<times> request_input
      \<Rightarrow> time \<times> notification_db \<Rightarrow> exn + (nat \<times> nat) \<times> time \<times> notification_db" where
  "request_run k i s = (case i of (ctx, spec, stored, inp) \<Rightarrow>
     bindE (request_transaction ctx spec stored inp (snd s)) (\<lambda>((x, d, _), db').
     Inr ((ni_id x, dl_id d), fst s, db')))"

definition request_admitted ::
    "string \<times> string \<Rightarrow> notification_ctx \<times> notification_spec \<times> dict \<times> request_input
      \<Rightarrow> time \<times> notification_db \<Rightarrow> bool" where
  "request_admitted k i s \<longleftrightarrow> (case i of (_, _, _, inp) \<Rightarrow> (rn_trigger inp, rn_idempotency_key inp) = k)"

lemma request_recorded_write:
  assumes "notification_inv s" and "notification_write s s'" and "request_recorded s k r"
  shows "request_recorded s' k r"
proof -
  from write_extends[OF assms(2,1)] have e: "extends_by intent_key (nd_intents (snd s)) (nd_intents (snd s'))"
    "extends_by pair_key (nd_deliveries (snd s)) (nd_deliveries (snd s'))" by auto
  from assms(3) obtain x d where x: "find ((\<lambda>j. fst j = (fst k, snd k)) \<circ> intent_key) (nd_intents (snd s)) = Some x"
    "ni_id x = fst r" and d: "find ((\<lambda>j. fst j = fst r) \<circ> pair_key) (nd_deliveries (snd s)) = Some d" "dl_id d = snd r"
    by (auto simp: request_recorded_def find_intent_key delivery_of_key)
  from extends_by_find[OF e(1) x(1)] extends_by_find[OF e(2) d(1)] x(2) d(2) show ?thesis
    by (auto simp: request_recorded_def find_intent_key delivery_of_key intent_key_def pair_key_def)
qed

lemma request_run_records:
  assumes inv: "notification_inv s" and "request_admitted k i s" and run: "request_run k i s = Inr (r, s')"
  shows "notification_inv s' \<and> request_recorded s' k r"
proof -
  obtain ctx spec stored inp where i: "i = (ctx, spec, stored, inp)" by (cases i)
  from run obtain x d c db' where t: "request_transaction ctx spec stored inp (snd s) = Inr ((x, d, c), db')"
    and r: "r = (ni_id x, dl_id d)" and s': "s' = (fst s, db')"
    by (auto simp: request_run_def i cmd_ok)
  have k: "rn_trigger inp = fst k" "rn_idempotency_key inp = snd k"
    using assms(2) by (auto simp: request_admitted_def i)
  from request_transaction_cases[OF t] show ?thesis
  proof (elim disjE exE conjE)
    assume "db' = snd s" "find_intent (snd s) (rn_trigger inp) (rn_idempotency_key inp) = Some x"
      "delivery_of (snd s) (ni_id x) = Some d"
    with k r s' inv show ?thesis by (simp add: request_recorded_def)
  next
    fix tg p
    assume x: "x = new_intent ctx spec stored inp (nd_next_id (snd s))"
      and d: "d = new_delivery ctx tg p inp (nd_next_id (snd s)) (Suc (nd_next_id (snd s)))"
      and fresh: "find_intent (snd s) (rn_trigger inp) (rn_idempotency_key inp) = None"
      and rows: "same_rows (snd s\<lparr>nd_intents := nd_intents (snd s) @ [x],
          nd_deliveries := nd_deliveries (snd s) @ [d], nd_next_id := nd_next_id (snd s) + 2\<rparr>) db'"
    have key: "ni_spec_key x = fst k" "ni_idempotency_key x = snd k" "paired x d" "dl_lease_expires_at d = None"
      using k by (simp_all add: x d new_intent_def new_delivery_def paired_def)
    have "added_rows x d (snd s) db'" using fresh rows key k x d by (simp add: added_rows_def)
    then have "notification_inv s'"
      using notification_inv_added[of "fst s" "snd s" "fst s" x d db'] inv by (simp add: s')
    moreover have "find_intent db' (fst k) (snd k) = Some x"
      using rows fresh k key by (simp add: find_intent_def same_rows_def find_append)
    moreover have "find (\<lambda>d. dl_intent d = nd_next_id (snd s)) (nd_deliveries (snd s)) = None"
    proof -
      from inv have ri: "rows_inv (snd s)" by (simp add: notification_inv_def)
      have "dl_intent y < nd_next_id (snd s)" if "y \<in> set (nd_deliveries (snd s))" for y
        using rows_invD(5)[OF ri that] rows_invD(6)[OF ri] by (auto simp: paired_def)
      then show ?thesis by (fastforce simp: find_None_iff')
    qed
    then have "delivery_of db' (ni_id x) = Some d"
      using rows by (simp add: delivery_of_def same_rows_def find_append x d)
    ultimately show ?thesis by (simp add: request_recorded_def s' r)
  qed
qed

interpretation requests: keyed_command notification_write notification_inv request_recorded request_run
  request_admitted
proof
  fix s s' :: "time \<times> notification_db" and k :: "string \<times> string" and r :: "nat \<times> nat"
    and i :: "notification_ctx \<times> notification_spec \<times> dict \<times> request_input"
  show "notification_inv s \<Longrightarrow> notification_write s s' \<Longrightarrow> notification_inv s'"
    by (rule notification_inv_write)
  show "notification_inv s \<Longrightarrow> notification_write s s' \<Longrightarrow> request_recorded s k r \<Longrightarrow> request_recorded s' k r"
    by (rule request_recorded_write)
  show "notification_inv s \<Longrightarrow> request_admitted k i s \<Longrightarrow> request_run k i s = Inr (r, s')
      \<Longrightarrow> notification_inv s' \<and> request_recorded s' k r"
    by (rule request_run_records)
  show "notification_inv s \<Longrightarrow> request_recorded s k r \<Longrightarrow> request_admitted k i s
      \<Longrightarrow> request_run k i s = Inr (r, s)"
    by (auto simp: request_recorded_def request_admitted_def request_run_def request_transaction_def)
qed

section \<open>A run\<close>

definition sample_schemas :: "(dict \<Rightarrow> exn + unit) registry" where
  "sample_schemas = \<lparr>reg_items = map (\<lambda>k. (k, \<lambda>_. Inr ())) [''notification.requested.v1'',
     ''notification.delivered.v1'', ''notification.delivery_failed.v1'', ''notification.delivery_dead.v1''],
     reg_frozen = True\<rparr>"

definition reset_spec :: notification_spec where
  "reset_spec = \<lparr>ns_key = ''identity.password_reset'', ns_version = ''1'', ns_channels = [''email''],
     ns_template_keys = [''identity_password_reset''], ns_fields = [''token''], ns_validate = Inr,
     ns_recipient_kind = ''identity'', ns_sensitivity = ''sensitive'', ns_locale = ''en'',
     ns_fallback_channels = [], ns_policy = default_delivery_policy\<lparr>dp_max_attempts := 1\<rparr>\<rparr>"

definition reset_template :: notification_template where
  "reset_template = \<lparr>nt_trigger = ''identity.password_reset'', nt_key = ''identity_password_reset'',
     nt_version = ''1'', nt_channel = ''email'', nt_locale = ''en'', nt_subject = ''reset'',
     nt_body = ''code {token}'', nt_schema_version = ''1'', nt_status = ''active'', nt_updated_at = 0\<rparr>"

text \<open>Reversal of the text stands for encryption.\<close>

definition reversal_box :: secret_box where
  "reversal_box = \<lparr>sb_encrypt = rev, sb_decrypt = \<lambda>s. Some (rev s)\<rparr>"

text \<open>One provider answers with the body as its reference, the other fails for a while.\<close>

definition echo_provider :: notification_provider where
  "echo_provider = \<lparr>np_key = ''echo'', np_send = \<lambda>target subject body key. Sent
     \<lparr>sr_status = SS_delivered, sr_provider_ref = Some body, sr_error_category = None,
      sr_error_summary = None, sr_fallback = False\<rparr>\<rparr>"

definition down_provider :: notification_provider where
  "down_provider = \<lparr>np_key = ''down'', np_send = \<lambda>target subject body key. Send_error
     \<lparr>pe_message = ''down'', pe_category = DEPENDENCY_UNAVAILABLE, pe_permanent = False, pe_fallback = False\<rparr>\<rparr>"

definition notify_ctx :: "int \<Rightarrow> notification_provider \<Rightarrow> notification_spec \<Rightarrow> notification_ctx" where
  "notify_ctx attempts p spec = \<lparr>nx_now = 100,
     nx_specs = \<lparr>reg_items = [(ns_key spec, spec\<lparr>ns_policy := default_delivery_policy\<lparr>dp_max_attempts := attempts\<rparr>\<rparr>)],
       reg_frozen = True\<rparr>,
     nx_resolve = \<lambda>_ _ c. Inr (Some \<lparr>rt_channel = c, rt_address = ''a@b'', rt_masked = ''a***@b''\<rparr>),
     nx_providers = [(''email'', Inr [p])],
     nx_permissions = [''notification.request'', ''notification.retry''], nx_trace_id = None,
     nx_protector = Some reversal_box, nx_schemas = sample_schemas, nx_digest = id, nx_repr = \<lambda>_. []\<rparr>"

definition reset_request :: request_input where
  "reset_request = \<lparr>rn_trigger = ''identity.password_reset'', rn_recipient_type = ''identity'',
     rn_recipient_id = ''7'', rn_variables = [(''token'', JStr ''t0'')], rn_idempotency_key = ''k'',
     rn_requested_at = None\<rparr>"

definition step_input :: "nat \<Rightarrow> dict" where
  "step_input did = [(''workflow'', JObj [(''delivery_id'', JStr (show_nat did))])]"

definition notify_seeded :: notification_db where
  "notify_seeded = snd (seed_templates [reset_template] empty_notification_db)"

definition notify_requested :: notification_db where
  "notify_requested = snd (projr (request_notification (notify_ctx 1 echo_provider reset_spec) reset_request notify_seeded))"

definition notify_sent :: notification_db where
  "notify_sent = snd (deliver (notify_ctx 1 echo_provider reset_spec) (step_input 2) notify_requested)"

definition notify_failed_once :: notification_db where
  "notify_failed_once = snd (deliver (notify_ctx 5 down_provider reset_spec) (step_input 2) notify_requested)"

lemma requested_ok:
  "\<exists>r. request_notification (notify_ctx 1 echo_provider reset_spec) reset_request notify_seeded = Inr (r, notify_requested)
     \<and> nr_created r"
proof -
  have "case request_notification (notify_ctx 1 echo_provider reset_spec) reset_request notify_seeded of
      Inl _ \<Rightarrow> False | Inr (r, _) \<Rightarrow> nr_created r" by code_simp
  then show ?thesis by (auto simp: notify_requested_def split: sum.splits)
qed

lemma request_notification_steps:
  assumes "request_notification ctx i db = Inr (r, db')" and "t \<le> nx_now ctx"
  shows "\<exists>spec stored x d created db1. request_transaction ctx spec stored i db = Inr ((x, d, created), db1)
    \<and> notification_write (t, db) (nx_now ctx, db1) \<and> db' = start_delivery (run_key (dl_id d)) (show_nat (dl_id d)) db1
    \<and> notification_write (nx_now ctx, db1) (nx_now ctx, db')
    \<and> nr_created r = created \<and> it_id (nr_intent r) = show_nat (ni_id x) \<and> dd_id (nr_delivery r) = show_nat (dl_id d)"
proof -
  from assms(1) obtain spec stored x d created db1
    where "request_transaction ctx spec stored i db = Inr ((x, d, created), db1)"
      and "r = \<lparr>nr_intent = to_intent_dto x, nr_delivery = to_delivery_dto d, nr_created = created\<rparr>"
      and "db' = start_delivery (run_key (dl_id d)) (show_nat (dl_id d)) db1"
    unfolding request_notification_def by (auto simp: cmd_ok)
  with assms(2) notification_write.request notification_write.start show ?thesis
    by (fastforce simp: to_intent_dto_def to_delivery_dto_def)
qed

lemma notify_reachable:
  "notification_reachable (0, notify_seeded)" "notification_reachable (100, notify_requested)"
  "notification_reachable (100, notify_sent)" "notification_reachable (100, notify_failed_once)"
proof -
  have now: "nx_now (notify_ctx n p s) = 100" for n p s by (simp add: notify_ctx_def)
  have "seed_templates [reset_template] empty_notification_db = (fst (seed_templates [reset_template] empty_notification_db), notify_seeded)"
    by (simp add: notify_seeded_def)
  from notification_write.seed[OF this]
  show a: "notification_reachable (0, notify_seeded)"
    by (rule notification_reachable.step[OF notification_reachable.init notification_step.w])
  from requested_ok request_notification_steps[of "notify_ctx 1 echo_provider reset_spec" _ notify_seeded _ _ 0]
  obtain db1 where "notification_write (0, notify_seeded) (100, db1)" "notification_write (100, db1) (100, notify_requested)"
    by (fastforce simp: now)
  then show b: "notification_reachable (100, notify_requested)"
    by (meson a notification_reachable.step notification_step.w)
  have "deliver ctx data notify_requested = (fst (deliver ctx data notify_requested), snd (deliver ctx data notify_requested))"
    for ctx data by simp
  from notification_write.deliver[OF this, of 100]
  have "notification_reachable (nx_now ctx, snd (deliver ctx data notify_requested))" if "100 \<le> nx_now ctx" for ctx data
    using b that by (meson notification_reachable.step notification_step.w)
  then show "notification_reachable (100, notify_sent)" "notification_reachable (100, notify_failed_once)"
    unfolding notify_sent_def notify_failed_once_def using now by (metis order_refl)+
qed

section \<open>Properties\<close>







text \<open>The fields of an accepted template and their values.\<close>

fun filled :: "(string \<Rightarrow> string) \<Rightarrow> piece \<Rightarrow> string" where
  "filled f (Plain s) = s"
| "filled f (Field n) = f n"

lemma piece_values_filled:
  assumes "\<And>n. n \<in> set (field_names ps) \<Longrightarrow> g n = Some (f n)"
  shows "map (piece_value g) ps = map (filled f) ps"
proof (rule map_cong[OF refl])
  fix p assume p: "p \<in> set ps"
  show "piece_value g p = filled f p"
  proof (cases p)
    case (Field n)
    with p have "n \<in> set (field_names ps)" by (force simp: field_names_def map_filter_def)
    with assms Field show ?thesis by simp
  qed simp
qed

text \<open>
  A template of plain text and named fields that the editing command accepts is rendered for
  every delivery with each field replaced by its variable: the one pass of the substitution agrees
  with filling in the pieces, whatever characters the values contain.
\<close>

theorem accepted_template_renders:
  assumes run: "update_template ctx trigger loc i db = Inr (row, db')"
    and pieces: "ti_subject i = written ps" "ti_body i = written qs" "list_all piece_ok ps" "list_all piece_ok qs"
    and spec: "require_spec ctx trigger = Inr spec"
    and vars: "\<forall>k\<in>set (ns_fields spec). \<exists>v. dget vars k = Some v \<and> v \<noteq> JNull"
  shows "\<exists>f. (\<forall>k\<in>set (ns_fields spec). variable_text repr vars k = Some (f k))
    \<and> render_template repr (nt_subject row) (nt_body row) vars
        = (concat (map (filled f) ps), concat (map (filled f) qs))"
proof -
  from run spec have check: "validate_template_variables spec (ti_subject i) (ti_body i) = Inr ()"
    and row: "nt_subject row = written ps" "nt_body row = written qs"
    by (auto simp: update_template_def Let_def cmd_ok pieces)
  from check have names: "set (field_names ps @ field_names qs) = set (ns_fields spec)"
    using format_written[OF pieces(3)] format_written[OF pieces(4)]
    by (auto simp: validate_template_variables_def template_fields_def cmd_ok pieces(1,2))
  define f where "f = (\<lambda>k. the (variable_text repr vars k))"
  have f: "variable_text repr vars k = Some (f k)" if "k \<in> set (ns_fields spec)" for k
  proof -
    from vars that obtain v where "dget vars k = Some v" "v \<noteq> JNull" by blast
    then show ?thesis by (cases v) (auto simp: f_def variable_text_def)
  qed
  have "map (piece_value (variable_text repr vars)) ps = map (filled f) ps"
    by (rule piece_values_filled, rule f) (use names in auto)
  moreover have "map (piece_value (variable_text repr vars)) qs = map (filled f) qs"
    by (rule piece_values_filled, rule f) (use names in auto)
  ultimately have "render_template repr (nt_subject row) (nt_body row) vars
      = (concat (map (filled f) ps), concat (map (filled f) qs))"
    unfolding row render_template_def render_written[OF pieces(3)] render_written[OF pieces(4)]
    by (simp del: map_eq_conv)
  with f show ?thesis by blast
qed

definition edited_template :: template_input where
  "edited_template = \<lparr>ti_subject = ''Reset'', ti_body = ''code {token}!'', ti_status = ''active''\<rparr>"

theorem accepted_template_renders_witness:
  "\<exists>row. (\<exists>db'. update_template ((notify_ctx 1 echo_provider reset_spec)\<lparr>nx_permissions := [''notification.templates.manage'']\<rparr>)
       ''identity.password_reset'' ''en'' edited_template notify_seeded = Inr (row, db'))
    \<and> (\<exists>x. render_template (\<lambda>_. []) (nt_subject row) (nt_body row) [(''token'', JStr ''{x}'')]
        = (''Reset'', ''code '' @ x @ ''!''))"
proof -
  let ?ctx = "(notify_ctx 1 echo_provider reset_spec)\<lparr>nx_permissions := [''notification.templates.manage'']\<rparr>"
  have "case update_template ?ctx ''identity.password_reset'' ''en'' edited_template notify_seeded of
      Inl _ \<Rightarrow> False | Inr _ \<Rightarrow> True" by code_simp
  then obtain row db' where run: "update_template ?ctx ''identity.password_reset'' ''en'' edited_template notify_seeded = Inr (row, db')"
    by (auto split: sum.splits)
  have pieces: "ti_subject edited_template = written [Plain ''Reset'']"
    "ti_body edited_template = written [Plain ''code '', Field ''token'', Plain ''!'']"
    "list_all piece_ok [Plain ''Reset'']" "list_all piece_ok [Plain ''code '', Field ''token'', Plain ''!'']"
    by code_simp+
  have "case require_spec ?ctx ''identity.password_reset'' of Inl _ \<Rightarrow> False | Inr s \<Rightarrow> ns_fields s = [''token'']"
    by code_simp
  then obtain spec where spec: "require_spec ?ctx ''identity.password_reset'' = Inr spec" "ns_fields spec = [''token'']"
    by (auto split: sum.splits)
  have "\<forall>k\<in>set (ns_fields spec). \<exists>v. dget [(''token'', JStr ''{x}'')] k = Some v \<and> v \<noteq> JNull"
    by (simp add: spec(2))
  from accepted_template_renders[OF run pieces spec(1) this, of "\<lambda>_. []"] run show ?thesis by auto
qed

section \<open>Secrets\<close>

text \<open>
  What the envelope protects it reveals again: if the cipher decrypts what it encrypted and no
  secret text looks like an envelope already, revealing a protected mapping gives back the mapping.
\<close>

theorem secrets_round_trip:
  assumes "\<And>s. sb_decrypt b (sb_encrypt b s) = Some s"
    and "\<forall>s\<in>set (secret_texts d). \<not> has_prefix s"
  shows "\<exists>d'. protect_mapping b d = Inr d' \<and> reveal_mapping b d' = Inr d"
  unfolding protect_mapping_def reveal_mapping_def
proof (rule map_secrets_round_trip)
  fix s assume "s \<in> set (secret_texts d)"
  with assms have "protect_text b s = Inr (envelope_prefix @ sb_encrypt b s)"
    "reveal_text b (envelope_prefix @ sb_encrypt b s) = Inr s"
    by (simp_all add: protect_text_def reveal_text_def has_prefix_def envelope_prefix_def)
  then show "\<exists>t. protect_text b s = Inr t \<and> reveal_text b t = Inr s" by blast
qed

theorem secrets_round_trip_witness:
  "\<exists>d'. protect_mapping reversal_box [(''user'', JStr ''ann''), (''token'', JStr ''t0'')] = Inr d'
    \<and> reveal_mapping reversal_box d' = Inr [(''user'', JStr ''ann''), (''token'', JStr ''t0'')]"
proof (rule secrets_round_trip)
  show "sb_decrypt reversal_box (sb_encrypt reversal_box s) = Some s" for s by (simp add: reversal_box_def)
  show "\<forall>s\<in>set (secret_texts [(''user'', JStr ''ann''), (''token'', JStr ''t0'')]). \<not> has_prefix s"
    by code_simp
qed

lemma map_secrets_keys: "map_secrets f d = Inr d' \<Longrightarrow> map fst d' = map fst d"
proof (induction d arbitrary: d')
  case (Cons p d)
  then show ?case by (cases p) (auto simp: cmd_ok)
qed simp

lemma dget_None: "k \<notin> fst ` set d \<Longrightarrow> dget d k = None"
  by (simp add: dget_def map_of_eq_None_iff)

lemma field_stays:
  assumes "f n = None" and "Field n \<in> set ps"
  shows "\<exists>u v. concat (map (piece_value f) ps) = u @ piece_text (Field n) @ v"
proof -
  from assms(2) obtain as bs where "ps = as @ Field n # bs" by (meson split_list)
  with assms(1) have "concat (map (piece_value f) ps) = concat (map (piece_value f) as) @ piece_text (Field n)
      @ concat (map (piece_value f) bs)" by simp
  then show ?thesis by blast
qed

text \<open>
  When the attempts of a sensitive notification run out its secrets are dropped, yet the dead
  delivery may be retried: whatever is rendered from its stored variables afterwards keeps the
  placeholder of each secret field in the text, which is what the provider is then asked to send.
\<close>

theorem dead_secret_unreplaced:
  assumes run: "settle_failed ctx spec i d r db = (res, db')"
    and spec: "ns_sensitivity spec = ''sensitive''" "nx_protector ctx \<noteq> None"
    and known: "intent_by_id db (ni_id i) = Some i0" "delivery_by_id db (dl_id d) = Some d0"
    and dead: "map_option dl_status (delivery_by_id db' (dl_id d)) = Some DL_dead"
    and k: "is_secret_key k" and later: "intent_by_id db' (ni_id i) = Some i'"
    and vars: "reveal_mapping b (ni_variables i') = Inr vars"
    and msg: "list_all piece_ok ps" "Field k \<in> set ps"
  shows "\<exists>u v. render_text (variable_text repr vars) (written ps) = u @ piece_text (Field k) @ v"
proof -
  define cat where "cat = category_or (sr_error_category r) ''transient''"
  define permanent where "permanent = (cat = ''permanent'' \<or> cat = ''cancelled'')"
  have found: "delivery_by_id (save_delivery x db) (dl_id d) = Some x" if "dl_id x = dl_id d" for x
    using that known(2) find_update_where'[of "\<lambda>y. dl_id y = dl_id x" "\<lambda>y. dl_id y = dl_id d" "\<lambda>_. x" "nd_deliveries db"]
      delivery_by_idD[OF known(2)]
    by (simp add: delivery_by_id_def save_delivery_def)
  have "permanent \<or> dp_max_attempts (ns_policy spec) \<le> dl_attempt d"
  proof (rule ccontr)
    assume "\<not> ?thesis"
    with run obtain x where "db' = save_delivery x db" "dl_id x = dl_id d" "dl_status x = DL_pending"
      by (auto simp: settle_failed_def Let_def permanent_def cat_def)
    with found[of x] dead show False by simp
  qed
  with run obtain d' key vals result where
    e: "emitS ctx key d' (scrub_intent ctx (ns_sensitivity spec) i) vals result
      (save_intent (scrub_intent ctx (ns_sensitivity spec) i) (save_delivery d' db)) = (res, db')"
    by (auto simp: settle_failed_def Let_def permanent_def cat_def)
  define s where "s = scrub_intent ctx (ns_sensitivity spec) i"
  have s: "ni_id s = ni_id i" "ni_variables s = scrub_mapping (ni_variables i)"
    using spec by (auto simp: s_def scrub_intent_def)
  from emitS_rows[OF e] have "nd_intents db' = nd_intents (save_intent s db)"
    by (simp add: same_rows_def s_def save_intent_def)
  then have "intent_by_id db' (ni_id i) = Some s"
    using find_update_where'[of "\<lambda>y. ni_id y = ni_id s" "\<lambda>y. ni_id y = ni_id i" "\<lambda>_. s" "nd_intents db"]
      known(1) intent_by_idD[OF known(1)] s(1)
    by (simp add: intent_by_id_def save_intent_def)
  with later s(2) have "ni_variables i' = scrub_mapping (ni_variables i)" by simp
  with vars have "map fst vars = map fst (scrub_mapping (ni_variables i))"
    by (simp add: reveal_mapping_def map_secrets_keys)
  then have "fst ` set vars = fst ` set (scrub_mapping (ni_variables i))" by (metis set_map)
  with k have "k \<notin> fst ` set vars" by (auto dest: scrubbed)
  then have "variable_text repr vars k = None" by (simp add: variable_text_def dget_None)
  with field_stays msg show ?thesis by (simp add: render_written)
qed

definition dead_result :: send_result where
  "dead_result = \<lparr>sr_status = SS_failed, sr_provider_ref = None, sr_error_category = Some ''transient'',
     sr_error_summary = None, sr_fallback = False\<rparr>"

definition secret_intent :: notification_intent where
  "secret_intent = the (intent_by_id notify_requested 1)"

definition tried_delivery :: delivery where
  "tried_delivery = (the (delivery_by_id notify_requested 2))\<lparr>dl_attempt := 1\<rparr>"

definition notify_dead :: notification_db where
  "notify_dead = snd (settle_failed (notify_ctx 1 down_provider reset_spec) reset_spec secret_intent
     tried_delivery dead_result notify_requested)"

theorem dead_secret_unreplaced_witness:
  "\<exists>u v. render_text (variable_text (\<lambda>_. []) (projr (reveal_mapping reversal_box (ni_variables (the (intent_by_id notify_dead 1))))))
      (written [Plain ''code '', Field ''token'']) = u @ ''{token}'' @ v"
proof -
  let ?ctx = "notify_ctx 1 down_provider reset_spec"
  let ?i = "the (intent_by_id notify_dead 1)"
  have run: "settle_failed ?ctx reset_spec secret_intent tried_delivery dead_result notify_requested
      = (fst (settle_failed ?ctx reset_spec secret_intent tried_delivery dead_result notify_requested), notify_dead)"
    by (simp add: notify_dead_def)
  have ids: "ni_id secret_intent = 1" "dl_id tried_delivery = 2" by code_simp+
  have some: "intent_by_id notify_requested 1 \<noteq> None" "delivery_by_id notify_requested 2 \<noteq> None"
    "intent_by_id notify_dead 1 \<noteq> None" by code_simp+
  have a: "intent_by_id notify_requested (ni_id secret_intent) = Some (the (intent_by_id notify_requested 1))"
    "delivery_by_id notify_requested (dl_id tried_delivery) = Some (the (delivery_by_id notify_requested 2))"
    "intent_by_id notify_dead (ni_id secret_intent) = Some ?i"
    using some by (simp_all add: ids)
  have dead: "map_option dl_status (delivery_by_id notify_dead (dl_id tried_delivery)) = Some DL_dead"
    "is_secret_key ''token''" "ns_sensitivity reset_spec = ''sensitive''" by code_simp+
  have box: "nx_protector ?ctx \<noteq> None" by (simp add: notify_ctx_def)
  have "case reveal_mapping reversal_box (ni_variables ?i) of Inl _ \<Rightarrow> False | Inr _ \<Rightarrow> True" by code_simp
  then have vars: "reveal_mapping reversal_box (ni_variables ?i) = Inr (projr (reveal_mapping reversal_box (ni_variables ?i)))"
    by (auto split: sum.splits)
  have ps: "list_all piece_ok [Plain ''code '', Field ''token'']" by code_simp
  from dead_secret_unreplaced[OF run dead(3) box a(1,2) dead(1,2) a(3) vars ps, of "\<lambda>_. []"] show ?thesis by simp
qed

end
