(* ===== verification/User_Catalog.thy ===== *)
theory User_Catalog
  imports Kernel_Registry
begin

text \<open>
  The catalog of the user center (\<^verbatim>\<open>inc/features/user_center/catalog.py\<close>): point bundles, membership
  offers and what a gift card fulfils, with the checks of their constructors, and the three
  registries. The currency, program and behavior of a declaration are constants of its type.
\<close>

section \<open>Declarations\<close>

text \<open>\<open>_KEY.fullmatch\<close>: one or more nonempty segments, no trailing newline.\<close>

definition catalog_key :: "string \<Rightarrow> bool" where
  "catalog_key s \<longleftrightarrow> list_all (\<lambda>seg. seg \<noteq> [] \<and> list_all key_char seg) (split_on CHR ''.'' s)"

definition validate_catalog_key :: "string \<Rightarrow> exn + unit" where
  "validate_catalog_key s = requireE (s \<noteq> [] \<and> catalog_key s) (PyException ''ValueError'')"

definition window_ok :: "time option \<Rightarrow> time option \<Rightarrow> bool" where
  "window_ok from until \<longleftrightarrow> (case (from, until) of (Some a, Some b) \<Rightarrow> a < b | _ \<Rightarrow> True)"

definition limit_ok :: "int option \<Rightarrow> bool" where
  "limit_ok v \<longleftrightarrow> (case v of None \<Rightarrow> True | Some n \<Rightarrow> 0 < n)"

record point_bundle =
  pb_key :: string
  pb_version :: string
  pb_display_name :: string
  pb_price_cents :: int
  pb_points_amount :: int
  pb_available :: bool
  pb_from :: "time option"
  pb_until :: "time option"
  pb_subject_limit :: "int option"
  pb_refund_policy :: string

definition check_point_bundle :: "point_bundle \<Rightarrow> exn + point_bundle" where
  "check_point_bundle b =
     (let bad = PyException ''ValueError'' in
      bindE (validate_catalog_key (pb_key b)) (\<lambda>_.
      bindE (requireE (pb_version b \<noteq> [] \<and> pb_display_name b \<noteq> [] \<and> pb_refund_policy b \<noteq> []) bad) (\<lambda>_.
      bindE (requireE (\<not> (pb_price_cents b \<le> 0 \<or> pb_points_amount b \<le> 0)) bad) (\<lambda>_.
      bindE (requireE (limit_ok (pb_subject_limit b)) bad) (\<lambda>_.
      bindE (requireE (window_ok (pb_from b) (pb_until b)) bad) (\<lambda>_. Inr b))))))"

record membership_offer =
  mo_key :: string
  mo_version :: string
  mo_display_name :: string
  mo_level_key :: string
  mo_price_cents :: int
  mo_purchase_allowed :: bool
  mo_renewal_allowed :: bool
  mo_from :: "time option"
  mo_until :: "time option"
  mo_refund_policy :: string

definition check_membership_offer :: "membership_offer \<Rightarrow> exn + membership_offer" where
  "check_membership_offer m =
     (let bad = PyException ''ValueError'' in
      bindE (validate_catalog_key (mo_key m)) (\<lambda>_.
      bindE (validate_catalog_key (mo_level_key m)) (\<lambda>_.
      bindE (requireE (mo_version m \<noteq> [] \<and> mo_display_name m \<noteq> [] \<and> mo_refund_policy m \<noteq> []) bad) (\<lambda>_.
      bindE (requireE (0 < mo_price_cents m) bad) (\<lambda>_.
      bindE (requireE (window_ok (mo_from m) (mo_until m)) bad) (\<lambda>_. Inr m))))))"

datatype fulfillment_type = FT_points_bundle | FT_membership_offer

record gift_fulfillment =
  gf_key :: string
  gf_payload_version :: string
  gf_type :: fulfillment_type
  gf_target :: string
  gf_platforms :: "string list"
  gf_from :: "time option"
  gf_until :: "time option"
  gf_subject_limit :: "int option"

definition check_gift_fulfillment :: "gift_fulfillment \<Rightarrow> exn + gift_fulfillment" where
  "check_gift_fulfillment g =
     (let bad = PyException ''ValueError'' in
      bindE (validate_catalog_key (gf_key g)) (\<lambda>_.
      bindE (validate_catalog_key (gf_target g)) (\<lambda>_.
      bindE (requireE (gf_payload_version g \<noteq> [] \<and> gf_platforms g \<noteq> []) bad) (\<lambda>_.
      bindE (requireE (limit_ok (gf_subject_limit g)) bad) (\<lambda>_.
      bindE (requireE (window_ok (gf_from g) (gf_until g)) bad) (\<lambda>_. Inr g))))))"

section \<open>Registries\<close>

definition catalog_error :: "string \<Rightarrow> exn" where
  "catalog_error code = KernelError code INTERNAL"

text \<open>\<open>FrozenRegistry\<close>; the key is computed from the declaration by the three subclasses.\<close>

definition catalog_register :: "string \<Rightarrow> 's \<Rightarrow> 's registry \<Rightarrow> exn + 's registry" where
  "catalog_register k s r =
     bindE (requireE (\<not> reg_frozen r) (catalog_error ''user_center.registry_frozen'')) (\<lambda>_.
     bindE (requireE (registry_lookup r k = None)
       (catalog_error ''user_center.duplicate_registration'')) (\<lambda>_.
     Inr (registry_store k s r)))"

interpretation catalog: frozen_registry catalog_register registry_lookup reg_frozen registry_freeze
  by unfold_locales (auto simp: catalog_register_def cmd_ok)

definition bundle_register :: "point_bundle \<Rightarrow> point_bundle registry \<Rightarrow> exn + point_bundle registry" where
  "bundle_register b = catalog_register (pb_key b) b"

definition offer_register ::
    "membership_offer \<Rightarrow> membership_offer registry \<Rightarrow> exn + membership_offer registry" where
  "offer_register m = catalog_register (mo_key m) m"

definition fulfillment_register ::
    "gift_fulfillment \<Rightarrow> gift_fulfillment registry \<Rightarrow> exn + gift_fulfillment registry" where
  "fulfillment_register g = catalog_register (gf_key g) g"

definition catalog_require :: "'s registry \<Rightarrow> string \<Rightarrow> exn + 's" where
  "catalog_require r k =
     someE (registry_lookup r k) (KernelError ''user_center.product_unavailable'' VALIDATION)"

definition catalog_specs :: "'s registry \<Rightarrow> 's list" where
  "catalog_specs r = map snd (sort_key fst (reg_items r))"

text \<open>The registry of fulfilments checks its targets when it is frozen.\<close>

fun check_targets ::
    "point_bundle registry \<Rightarrow> membership_offer registry \<Rightarrow> gift_fulfillment list \<Rightarrow> exn + unit" where
  "check_targets bundles offers [] = Inr ()"
| "check_targets bundles offers (g # gs) =
     bindE (case gf_type g of
         FT_points_bundle \<Rightarrow> bindE (catalog_require bundles (gf_target g)) (\<lambda>_. Inr ())
       | FT_membership_offer \<Rightarrow> bindE (catalog_require offers (gf_target g)) (\<lambda>_. Inr ())) (\<lambda>_.
     check_targets bundles offers gs)"

definition freeze_fulfillments ::
    "point_bundle registry \<Rightarrow> membership_offer registry \<Rightarrow> gift_fulfillment registry
      \<Rightarrow> exn + gift_fulfillment registry" where
  "freeze_fulfillments bundles offers r =
     bindE (requireE (\<not> (\<not> reg_frozen bundles \<or> \<not> reg_frozen offers))
       (catalog_error ''user_center.registry_dependency_not_frozen'')) (\<lambda>_.
     bindE (check_targets bundles offers (map snd (reg_items r))) (\<lambda>_.
     Inr (registry_freeze r)))"

text \<open>After a successful freeze no lookup of a target fails.\<close>

lemma check_targets_found:
  "check_targets bundles offers gs = Inr () \<Longrightarrow> g \<in> set gs
    \<Longrightarrow> (case gf_type g of FT_points_bundle \<Rightarrow> \<exists>b. catalog_require bundles (gf_target g) = Inr b
          | FT_membership_offer \<Rightarrow> \<exists>m. catalog_require offers (gf_target g) = Inr m)"
  by (induction gs) (auto simp: cmd_ok split: fulfillment_type.splits)

lemma frozen_targets_found:
  assumes "freeze_fulfillments bundles offers r = Inr r'" and "catalog_require r' k = Inr g"
  shows "case gf_type g of FT_points_bundle \<Rightarrow> \<exists>b. catalog_require bundles (gf_target g) = Inr b
    | FT_membership_offer \<Rightarrow> \<exists>m. catalog_require offers (gf_target g) = Inr m"
proof -
  from assms have "check_targets bundles offers (map snd (reg_items r)) = Inr ()"
    and "registry_lookup r k = Some g"
    by (auto simp: freeze_fulfillments_def catalog_require_def cmd_ok)
  then show ?thesis
    by (intro check_targets_found)
       (force simp: registry_lookup_def dget_def dest!: map_of_SomeD)+
qed

end
