(* ===== verification/User_Workflows.thy ===== *)
theory User_Workflows
  imports User_Catalog Points_Queries Payments_Commands Membership_Commands Gift_Cards_Commands
    Notification_Commands Kernel_Workflow
begin

text \<open>
  The workflows of the user center (\<^verbatim>\<open>inc/features/user_center/workflows.py\<close>), where points,
  membership, payments, gift cards and notifications meet. The state an activity sees is the record
  of the tables of these capabilities and the reading of the shared clock. An activity calls
  capability commands, each of which commits its own transaction, so what they stored stays when
  the activity raises afterwards. Inputs and results of steps are JSON; the service starts the
  workflows with texts, and a value of another type fails the validation of the command it goes to.
\<close>

section \<open>State and context\<close>

record user_world =
  uw_now :: time
  uw_points :: points_db
  uw_members :: membership_db
  uw_payments :: payments_db
  uw_gifts :: gift_db
  uw_notes :: notification_db

record user_env =
  ue_points :: points_ctx
  ue_members :: membership_ctx
  ue_gifts :: "gift_ctx option"
  ue_gift_queries :: bool
  ue_notes :: "notification_ctx option"
  ue_bundles :: "point_bundle registry"
  ue_offers :: "membership_offer registry"
  ue_fulfillments :: "gift_fulfillment registry"

type_synonym user_step = "dict \<Rightarrow> user_world \<Rightarrow> (exn + dict) \<times> user_world"

definition user_conflict :: "string \<Rightarrow> exn" where
  "user_conflict code = KernelError code CONFLICT"

definition redemption_error :: exn where
  "redemption_error = user_conflict ''user_center.redemption_unavailable''"

text \<open>A command of a capability in its own transaction.\<close>

definition on_points ::
    "(points_db \<Rightarrow> exn + 'a \<times> points_db) \<Rightarrow> user_world \<Rightarrow> (exn + 'a) \<times> user_world" where
  "on_points f w = (case f (uw_points w) of
     Inl e \<Rightarrow> (Inl e, w) | Inr (x, db) \<Rightarrow> (Inr x, w\<lparr>uw_points := db\<rparr>))"

definition on_members ::
    "(membership_db \<Rightarrow> (exn + 'a) \<times> membership_db) \<Rightarrow> user_world \<Rightarrow> (exn + 'a) \<times> user_world" where
  "on_members f w = (case f (uw_members w) of (r, db) \<Rightarrow> (r, w\<lparr>uw_members := db\<rparr>))"

definition on_gifts ::
    "(gift_db \<Rightarrow> exn + 'a \<times> gift_db) \<Rightarrow> user_world \<Rightarrow> (exn + 'a) \<times> user_world" where
  "on_gifts f w = (case f (uw_gifts w) of
     Inl e \<Rightarrow> (Inl e, w) | Inr (x, db) \<Rightarrow> (Inr x, w\<lparr>uw_gifts := db\<rparr>))"

definition on_notes ::
    "(notification_db \<Rightarrow> exn + 'a \<times> notification_db) \<Rightarrow> user_world \<Rightarrow> (exn + 'a) \<times> user_world" where
  "on_notes f w = (case f (uw_notes w) of
     Inl e \<Rightarrow> (Inl e, w) | Inr (x, db) \<Rightarrow> (Inr x, w\<lparr>uw_notes := db\<rparr>))"

definition points_at :: "user_env \<Rightarrow> user_world \<Rightarrow> points_ctx" where
  "points_at env w = (ue_points env)\<lparr>px_now := uw_now w\<rparr>"

definition members_at :: "user_env \<Rightarrow> user_world \<Rightarrow> membership_ctx" where
  "members_at env w = (ue_members env)\<lparr>mc_now := uw_now w\<rparr>"

section \<open>Inputs and results of steps\<close>

definition field :: "dict \<Rightarrow> string \<Rightarrow> exn + json" where
  "field d k = someE (dget d k) (PyException ''KeyError'')"

definition text_field :: "dict \<Rightarrow> string \<Rightarrow> exn + string" where
  "text_field d k = bindE (field d k) (\<lambda>v. case v of
     JStr s \<Rightarrow> Inr s | _ \<Rightarrow> Inl (PyException ''ValidationError''))"

definition int_field :: "dict \<Rightarrow> string \<Rightarrow> exn + int" where
  "int_field d k = bindE (field d k) (\<lambda>v. case v of
     JInt n \<Rightarrow> Inr n | _ \<Rightarrow> Inl (PyException ''ValidationError''))"

definition time_field :: "dict \<Rightarrow> string \<Rightarrow> exn + time" where
  "time_field d k = bindE (field d k) (\<lambda>v. case v of
     JTime t \<Rightarrow> Inr t | _ \<Rightarrow> Inl (PyException ''ValueError''))"

fun json_true :: "json \<Rightarrow> bool" where
  "json_true JNull = False"
| "json_true (JBool b) = b"
| "json_true (JInt n) = (n \<noteq> 0)"
| "json_true (JStr s) = (s \<noteq> [])"
| "json_true (JTime t) = True"
| "json_true (JList l) = (l \<noteq> [])"
| "json_true (JObj d) = (d \<noteq> [])"

definition workflow_input :: "dict \<Rightarrow> exn + dict" where
  "workflow_input data = bindE (field data ''workflow'') (\<lambda>v. case v of
     JObj d \<Rightarrow> Inr d | _ \<Rightarrow> Inl (PyException ''TypeError''))"

definition fulfillment_pending :: exn where
  "fulfillment_pending = user_conflict ''user_center.fulfillment_pending''"

definition prior_result :: "dict \<Rightarrow> string \<Rightarrow> exn + dict" where
  "prior_result data key = bindE (field data ''state'') (\<lambda>v. case v of
     JObj st \<Rightarrow> (case dget st key of Some (JObj d) \<Rightarrow> Inr d | _ \<Rightarrow> Inl fulfillment_pending)
   | _ \<Rightarrow> Inl (PyException ''AttributeError''))"

text \<open>\<^verbatim>\<open>session.get(Model, text)\<close>: the driver rejects a text that is no id.\<close>

definition row_key :: "string \<Rightarrow> exn + nat" where
  "row_key s = someE (read_id s) (PyException ''DBAPIError'')"

section \<open>Granting points\<close>

definition grant ::
    "user_env \<Rightarrow> string \<Rightarrow> credit_debit_input \<Rightarrow> user_world \<Rightarrow> (exn + ledger_entry_dto) \<times> user_world" where
  "grant env behavior i w =
     (if valid_credit_debit_input i
      then on_points (credit_points (points_at env w) behavior i) w
      else (Inl (PyException ''ValidationError''), w))"

definition entry_result :: "ledger_entry_dto \<Rightarrow> dict" where
  "entry_result e = [(''entry_id'', id_json (ld_id e))]"

definition check_in_behavior :: string where
  "check_in_behavior = ''user_center.check_in.credit.v1''"

definition point_purchase_behavior :: string where
  "point_purchase_behavior = ''user_center.point_purchase.credit.v1''"

definition membership_cycle_behavior :: string where
  "membership_cycle_behavior = ''user_center.membership_cycle.credit.v1''"

definition check_in_input :: "user_env \<Rightarrow> dict \<Rightarrow> exn + credit_debit_input \<times> string" where
  "check_in_input env data =
     bindE (workflow_input data) (\<lambda>inp.
     bindE (text_field inp ''subject_id'') (\<lambda>sid.
     bindE (behavior_require (px_behaviors (ue_points env)) check_in_behavior) (\<lambda>b.
     bindE (text_field inp ''business_date'') (\<lambda>date.
     Inr (\<lparr>ci_subject_type = ''identity'', ci_subject_id = sid,
        ci_amount = (case bs_fixed_amount b of None \<Rightarrow> 10 | Some n \<Rightarrow> if n = 0 then 10 else n),
        ci_source_type = ''user_center'', ci_source_id = date,
        ci_idempotency_key = ''check-in:'' @ sid @ '':credit:'' @ date @ '':v1'',
        ci_actor_type = ''user'', ci_actor_id = Some sid, ci_metadata = [], ci_expires_at = None\<rparr>,
       date)))))"

definition check_in_credit :: "user_env \<Rightarrow> user_step" where
  "check_in_credit env data w =
     bindS (check_in_input env data, w) (\<lambda>(i, date) w.
     bindS (grant env check_in_behavior i w) (\<lambda>e w.
     (Inr (entry_result e @ [(''business_date'', JStr date)]), w)))"

text \<open>The credit of a bundle, paid by an order or by a gift card.\<close>

definition bundle_input ::
    "string \<Rightarrow> string \<Rightarrow> string \<Rightarrow> string \<Rightarrow> dict \<Rightarrow> exn + credit_debit_input" where
  "bundle_input validate_key source_type ref_field prefix data =
     bindE (workflow_input data) (\<lambda>inp.
     bindE (prior_result data validate_key) (\<lambda>validated.
     bindE (text_field inp ''subject_id'') (\<lambda>sid.
     bindE (int_field validated ''points_amount'') (\<lambda>amount.
     bindE (text_field inp ref_field) (\<lambda>ref.
     bindE (field validated ''product_key'') (\<lambda>product.
     Inr \<lparr>ci_subject_type = ''identity'', ci_subject_id = sid, ci_amount = amount,
       ci_source_type = source_type, ci_source_id = ref,
       ci_idempotency_key = prefix @ ref @ '':points'', ci_actor_type = ''system'',
       ci_actor_id = None, ci_metadata = [(''product_key'', product)], ci_expires_at = None\<rparr>))))))"

definition bundle_credit :: "user_env \<Rightarrow> string \<Rightarrow> string \<Rightarrow> string \<Rightarrow> string \<Rightarrow> user_step" where
  "bundle_credit env validate_key source_type ref_field prefix data w =
     bindS (bundle_input validate_key source_type ref_field prefix data, w) (\<lambda>i w.
     bindS (grant env point_purchase_behavior i w) (\<lambda>e w. (Inr (entry_result e), w)))"

section \<open>Orders\<close>

definition order_not_found :: exn where
  "order_not_found = user_conflict ''user_center.order_not_found''"

definition paid_order_of :: "dict \<Rightarrow> user_world \<Rightarrow> exn + order_dto" where
  "paid_order_of inp w =
     bindE (text_field inp ''order_id'') (\<lambda>oid.
     bindE (row_key oid) (\<lambda>i.
     bindE (get_order_dto (uw_payments w) i) (\<lambda>found.
     bindE (someE found order_not_found) (\<lambda>order.
     bindE (requireE (od_subject_type order = ''identity'') order_not_found) (\<lambda>_.
     bindE (field inp ''subject_id'') (\<lambda>sid.
     bindE (requireE (sid = JStr (od_subject_id order)) order_not_found) (\<lambda>_.
     bindE (requireE (paid_state (od_state order))
       (user_conflict ''user_center.order_not_captured'')) (\<lambda>_. Inr order))))))))"

text \<open>The currency of an order that was read is always CNY.\<close>

definition version_conflict :: exn where
  "version_conflict = user_conflict ''user_center.version_conflict''"

definition match_order :: "order_dto \<Rightarrow> string \<Rightarrow> int \<Rightarrow> exn + unit" where
  "match_order order version price =
     requireE (\<not> (od_offer_version order \<noteq> version \<or> od_amount order \<noteq> price)) version_conflict"

definition bundle_result :: "point_bundle \<Rightarrow> dict" where
  "bundle_result b = [(''product_key'', JStr (pb_key b)), (''points_amount'', JInt (pb_points_amount b))]"

definition offer_result :: "membership_offer \<Rightarrow> dict" where
  "offer_result m = [(''offer_key'', JStr (mo_key m)), (''level_key'', JStr (mo_level_key m))]"

definition point_purchase_validate :: "user_env \<Rightarrow> user_step" where
  "point_purchase_validate env data w = (
     bindE (workflow_input data) (\<lambda>inp.
     bindE (paid_order_of inp w) (\<lambda>order.
     bindE (catalog_require (ue_bundles env) (od_offer_key order)) (\<lambda>b.
     bindE (match_order order (pb_version b) (pb_price_cents b)) (\<lambda>_. Inr (bundle_result b))))), w)"

definition membership_purchase_validate :: "user_env \<Rightarrow> user_step" where
  "membership_purchase_validate env data w = (
     bindE (workflow_input data) (\<lambda>inp.
     bindE (paid_order_of inp w) (\<lambda>order.
     bindE (catalog_require (ue_offers env) (od_offer_key order)) (\<lambda>m.
     bindE (match_order order (mo_version m) (mo_price_cents m)) (\<lambda>_. Inr (offer_result m))))), w)"

section \<open>Gift cards\<close>

definition redemption_for :: "user_env \<Rightarrow> dict \<Rightarrow> user_world \<Rightarrow> exn + redemption_dto" where
  "redemption_for env inp w =
     bindE (requireE (ue_gift_queries env) redemption_error) (\<lambda>_.
     bindE (text_field inp ''redemption_id'') (\<lambda>rid.
     bindE (get_redemption (uw_gifts w) rid) (\<lambda>found.
     bindE (someE found redemption_error) (\<lambda>r.
     bindE (requireE (rx_subject_type r = ''identity'') redemption_error) (\<lambda>_.
     bindE (field inp ''subject_id'') (\<lambda>sid.
     bindE (requireE (sid = JStr (rx_subject_id r)) redemption_error) (\<lambda>_.
     bindE (requireE (rx_status r \<in> {RE_reserved, RE_committed}) redemption_error) (\<lambda>_.
     Inr r))))))))"

definition validate_redemption :: "user_env \<Rightarrow> redemption_dto \<Rightarrow> exn + gift_fulfillment" where
  "validate_redemption env r =
     bindE (catalog_require (ue_fulfillments env) (rx_fulfillment_key r)) (\<lambda>g.
     bindE (requireE (\<not> (rx_schema_version r \<noteq> gf_payload_version g
         \<or> rx_platform_key r \<notin> set (gf_platforms g))) version_conflict) (\<lambda>_. Inr g))"

definition gift_points_validate :: "user_env \<Rightarrow> user_step" where
  "gift_points_validate env data w = (
     bindE (workflow_input data) (\<lambda>inp.
     bindE (redemption_for env inp w) (\<lambda>r.
     bindE (validate_redemption env r) (\<lambda>g.
     bindE (requireE (gf_type g = FT_points_bundle) redemption_error) (\<lambda>_.
     bindE (catalog_require (ue_bundles env) (gf_target g)) (\<lambda>b. Inr (bundle_result b)))))), w)"

definition gift_membership_validate :: "user_env \<Rightarrow> user_step" where
  "gift_membership_validate env data w = (
     bindE (workflow_input data) (\<lambda>inp.
     bindE (redemption_for env inp w) (\<lambda>r.
     bindE (validate_redemption env r) (\<lambda>g.
     bindE (requireE (gf_type g = FT_membership_offer) redemption_error) (\<lambda>_.
     bindE (catalog_require (ue_offers env) (gf_target g)) (\<lambda>m. Inr (offer_result m)))))), w)"

definition gift_commit :: "user_env \<Rightarrow> user_step" where
  "gift_commit env data w =
     bindS (bindE (someE (ue_gifts env) redemption_error) (\<lambda>ctx.
            bindE (workflow_input data) (\<lambda>inp.
            bindE (text_field inp ''redemption_id'') (\<lambda>rid.
            bindE (text_field inp ''redemption_key'') (\<lambda>key.
            bindE (requireE (text_within 200 key) (PyException ''ValidationError'')) (\<lambda>_.
            Inr (ctx\<lparr>gx_now := uw_now w\<rparr>, rid, key)))))), w) (\<lambda>(ctx, rid, key) w.
     bindS (on_gifts (commit_redemption ctx rid key) w) (\<lambda>r w.
     (Inr [(''redemption_id'', JStr (rx_id r)), (''status'', JStr (redemption_text (rx_status r)))], w)))"

section \<open>Membership cycles\<close>

definition prepare_cycle_input ::
    "string \<Rightarrow> string \<Rightarrow> string \<Rightarrow> dict \<Rightarrow> exn + prepare_input" where
  "prepare_cycle_input validate_key source_type ref_field data =
     bindE (workflow_input data) (\<lambda>inp.
     bindE (prior_result data validate_key) (\<lambda>validated.
     bindE (text_field inp ref_field) (\<lambda>ref.
     bindE (text_field inp ''subject_id'') (\<lambda>sid.
     bindE (text_field validated ''level_key'') (\<lambda>level.
     let i = \<lparr>pi_subject_type = ''identity'', pi_subject_id = sid, pi_level_key = level,
           pi_source_type = source_type, pi_source_ref = ref,
           pi_idempotency_key = source_type @ '':'' @ ref @ '':prepare-cycle'',
           pi_expected_version = None,
           pi_auto_renew = (case dget inp ''auto_renew'' of None \<Rightarrow> False | Some v \<Rightarrow> json_true v)\<rparr> in
     bindE (requireE (prepare_input_ok i) (PyException ''ValidationError'')) (\<lambda>_. Inr i))))))"

definition prepared_result :: "cycle_dto \<Rightarrow> dict" where
  "prepared_result c = [(''cycle_id'', JStr (cd_cycle_id c)),
     (''subscription_id'', JStr (cd_subscription_id c)),
     (''cycle_points_amount'', JInt (cd_points_amount c)), (''cycle_end'', JTime (cd_cycle_end c))]"

definition cycle_prepare :: "user_env \<Rightarrow> string \<Rightarrow> string \<Rightarrow> string \<Rightarrow> user_step" where
  "cycle_prepare env validate_key source_type ref_field data w =
     bindS (prepare_cycle_input validate_key source_type ref_field data, w) (\<lambda>i w.
     bindS (on_members (prepare_subscription_cycle (members_at env w) i) w) (\<lambda>c w.
     (Inr (prepared_result c), w)))"

definition cycle_grant_input :: "string \<Rightarrow> dict \<Rightarrow> exn + credit_debit_input" where
  "cycle_grant_input prepare_key data =
     bindE (workflow_input data) (\<lambda>inp.
     bindE (prior_result data prepare_key) (\<lambda>prepared.
     bindE (text_field inp ''subject_id'') (\<lambda>sid.
     bindE (int_field prepared ''cycle_points_amount'') (\<lambda>amount.
     bindE (text_field prepared ''cycle_id'') (\<lambda>cid.
     bindE (time_field prepared ''cycle_end'') (\<lambda>until.
     Inr \<lparr>ci_subject_type = ''identity'', ci_subject_id = sid, ci_amount = amount,
       ci_source_type = ''membership'', ci_source_id = cid,
       ci_idempotency_key = ''membership-cycle:'' @ cid, ci_actor_type = ''system'',
       ci_actor_id = None, ci_metadata = [], ci_expires_at = Some until\<rparr>))))))"

definition cycle_credit :: "user_env \<Rightarrow> string \<Rightarrow> user_step" where
  "cycle_credit env prepare_key data w =
     bindS (cycle_grant_input prepare_key data, w) (\<lambda>i w.
     bindS (grant env membership_cycle_behavior i w) (\<lambda>e w. (Inr (entry_result e), w)))"

definition attach_input_ok :: "attach_input \<Rightarrow> bool" where
  "attach_input_ok i \<longleftrightarrow> at_cycle_id i \<noteq> [] \<and> text_within 200 (at_points_entry_ref i)
     \<and> text_within 200 (at_idempotency_key i)"

definition attach_cycle_input :: "string \<Rightarrow> string \<Rightarrow> dict \<Rightarrow> exn + attach_input" where
  "attach_cycle_input prepare_key credit_key data =
     bindE (prior_result data prepare_key) (\<lambda>prepared.
     bindE (prior_result data credit_key) (\<lambda>credited.
     bindE (text_field prepared ''cycle_id'') (\<lambda>cid.
     bindE (text_field credited ''entry_id'') (\<lambda>ref.
     let i = \<lparr>at_cycle_id = cid, at_points_entry_ref = ref,
           at_idempotency_key = ''membership-cycle:'' @ cid @ '':attach''\<rparr> in
     bindE (requireE (attach_input_ok i) (PyException ''ValidationError'')) (\<lambda>_. Inr i)))))"

definition cycle_attach :: "user_env \<Rightarrow> string \<Rightarrow> string \<Rightarrow> user_step" where
  "cycle_attach env prepare_key credit_key data w =
     bindS (attach_cycle_input prepare_key credit_key data, w) (\<lambda>i w.
     bindS (on_members (\<lambda>db. transact (attach_points_grant (members_at env w) i db) db) w) (\<lambda>c w.
     (Inr [(''cycle_id'', JStr (cd_cycle_id c)), (''subscription_id'', JStr (cd_subscription_id c))], w)))"

section \<open>Telling the subject\<close>

text \<open>\<^verbatim>\<open>workflow.get("order_id") or workflow.get("redemption_id")\<close>, and its text in a key.\<close>

definition source_ref :: "dict \<Rightarrow> json" where
  "source_ref inp = (case dget inp ''order_id'' of
     Some v \<Rightarrow> if json_true v then v else (case dget inp ''redemption_id'' of Some r \<Rightarrow> r | None \<Rightarrow> JNull)
   | None \<Rightarrow> (case dget inp ''redemption_id'' of Some r \<Rightarrow> r | None \<Rightarrow> JNull))"

definition source_text :: "json \<Rightarrow> string" where
  "source_text v = (case v of JStr s \<Rightarrow> s | _ \<Rightarrow> ''None'')"

definition completed_request :: "string \<Rightarrow> dict \<Rightarrow> exn + request_input" where
  "completed_request kind data =
     bindE (workflow_input data) (\<lambda>inp.
     bindE (text_field inp ''subject_id'') (\<lambda>sid.
     let i = \<lparr>rn_trigger = ''usercenter.fulfillment_completed.v1'', rn_recipient_type = ''identity'',
           rn_recipient_id = sid,
           rn_variables = [(''kind'', JStr kind), (''source_ref'', source_ref inp)],
           rn_idempotency_key = ''user-center:'' @ kind @ '':'' @ source_text (source_ref inp),
           rn_requested_at = None\<rparr> in
     bindE (requireE (request_input_ok i) (PyException ''ValidationError'')) (\<lambda>_. Inr i)))"

definition tell_completed :: "user_env \<Rightarrow> string \<Rightarrow> user_step" where
  "tell_completed env kind data w =
     (case ue_notes env of
        None \<Rightarrow> (Inr [(''requested'', JBool False)], w)
      | Some ctx \<Rightarrow>
          bindS (completed_request kind data, w) (\<lambda>i w.
          bindS (on_notes (request_notification (ctx\<lparr>nx_now := uw_now w\<rparr>) i) w) (\<lambda>r w.
          (Inr [(''requested'', JBool True), (''intent_id'', JStr (it_id (nr_intent r)))], w))))"

section \<open>Refunds\<close>

definition refund_completed :: "json \<Rightarrow> refund_dto \<Rightarrow> bool" where
  "refund_completed ref r \<longleftrightarrow> (JStr (rd_id r) = ref \<or> JStr (rd_ref r) = ref) \<and> rd_state r = RF_completed"

definition refund_fact_missing :: exn where
  "refund_fact_missing = user_conflict ''user_center.refund_fact_missing''"

definition order_refunded :: "dict \<Rightarrow> user_world \<Rightarrow> exn + order_dto" where
  "order_refunded inp w =
     bindE (text_field inp ''order_id'') (\<lambda>oid.
     bindE (row_key oid) (\<lambda>i.
     bindE (get_order_detail (uw_payments w) i) (\<lambda>found.
     bindE (someE found refund_fact_missing) (\<lambda>detail.
     bindE (requireE (dt_refunds detail \<noteq> []) refund_fact_missing) (\<lambda>_.
     bindE (field inp ''refund_id'') (\<lambda>ref.
     bindE (requireE (list_ex (refund_completed ref) (dt_refunds detail)) refund_fact_missing) (\<lambda>_.
     Inr (dt_order detail))))))))"

definition points_entitlement :: "user_world \<Rightarrow> order_dto \<Rightarrow> dict" where
  "points_entitlement w order =
     [(''kind'', JStr ''points''),
      (''entry_id'', case find_credit_by_source (uw_points w) point_purchase_behavior (od_id order) of
         None \<Rightarrow> JNull | Some e \<Rightarrow> id_json (ld_id e))]"

definition membership_entitlement :: "user_world \<Rightarrow> order_dto \<Rightarrow> exn + dict" where
  "membership_entitlement w order =
     bindE (list_membership_cycles \<lparr>cf_subscription_id = None, cf_state = None,
         cf_source_type = Some ''payment'', cf_source_ref = Some (od_id order)\<rparr> 1 2 (uw_members w)) (\<lambda>p.
     Inr (case page_items p of
       [] \<Rightarrow> [(''kind'', JStr ''membership''), (''subscription_id'', JNull), (''entry_id'', JNull)]
     | c # _ \<Rightarrow> [(''kind'', JStr ''membership''), (''subscription_id'', JStr (cd_subscription_id c)),
         (''entry_id'', opt_json (cd_points_entry_ref c))]))"

definition refund_resolve :: "user_env \<Rightarrow> user_step" where
  "refund_resolve env data w = (
     bindE (workflow_input data) (\<lambda>inp.
     bindE (order_refunded inp w) (\<lambda>order.
     if od_offer_key order \<in> set (map pb_key (catalog_specs (ue_bundles env)))
       then Inr (points_entitlement w order)
     else if od_offer_key order \<in> set (map mo_key (catalog_specs (ue_offers env)))
       then membership_entitlement w order
     else Inl version_conflict)), w)"

definition refund_resolve_key :: string where
  "refund_resolve_key = ''user_center.refund.resolve_fact.v1''"

definition refund_terminate :: "user_env \<Rightarrow> user_step" where
  "refund_terminate env data w =
     bindS (bindE (prior_result data refund_resolve_key) (\<lambda>resolved.
            bindE (field resolved ''kind'') (\<lambda>kind.
            case dget resolved ''subscription_id'' of
              None \<Rightarrow> Inr None
            | Some v \<Rightarrow>
                if kind = JStr ''membership'' \<and> json_true v
                then bindE (text_field resolved ''subscription_id'') (\<lambda>sid. Inr (Some sid))
                else Inr None)), w) (\<lambda>target w.
     case target of
       None \<Rightarrow> (Inr [(''terminated'', JBool False)], w)
     | Some sid \<Rightarrow>
         bindS (on_members (\<lambda>db. transact (terminate_subscription (members_at env w) sid db) db) w) (\<lambda>_ w.
         (Inr [(''terminated'', JBool True)], w)))"

definition reverse_input_ok :: "reverse_input \<Rightarrow> bool" where
  "reverse_input_ok i \<longleftrightarrow> text_within 500 (ri_reason i) \<and> text_within 200 (ri_idempotency_key i)"

definition refund_reverse_input :: "dict \<Rightarrow> exn + nat \<times> reverse_input" where
  "refund_reverse_input data =
     bindE (workflow_input data) (\<lambda>inp.
     bindE (prior_result data refund_resolve_key) (\<lambda>resolved.
     bindE (requireE (case dget resolved ''entry_id'' of None \<Rightarrow> False | Some v \<Rightarrow> json_true v)
       fulfillment_pending) (\<lambda>_.
     bindE (text_field resolved ''entry_id'') (\<lambda>eid.
     bindE (text_field inp ''refund_id'') (\<lambda>ref.
     let i = \<lparr>ri_reason = ''payment refunded'',
           ri_idempotency_key = ''payment-refund:'' @ ref @ '':reverse''\<rparr> in
     bindE (requireE (reverse_input_ok i) (PyException ''ValidationError'')) (\<lambda>_.
     bindE (row_key eid) (\<lambda>n. Inr (n, i))))))))"

definition refund_reverse :: "user_env \<Rightarrow> user_step" where
  "refund_reverse env data w =
     bindS (refund_reverse_input data, w) (\<lambda>(n, i) w.
     bindS (on_points (reverse_ledger_entry (points_at env w) n i) w) (\<lambda>e w.
     (Inr [(''reversal_entry_id'', id_json (ld_id e))], w)))"

section \<open>The workflows\<close>

definition step_handler :: "(exn \<Rightarrow> string) \<Rightarrow> user_step \<Rightarrow> user_world activity_handler" where
  "step_handler message h data n w = (case h data w of
     (Inl e, w') \<Rightarrow> (Act_raised e (message e), w') | (Inr r, w') \<Rightarrow> (Act_result r, w'))"

definition user_activity :: "(exn \<Rightarrow> string) \<Rightarrow> string \<times> user_step \<Rightarrow> user_world activity_spec" where
  "user_activity message a = \<lparr>ac_key = fst a, ac_timeout_seconds = 60,
     ac_retry = default_retry_policy, ac_handler = Some (step_handler message (snd a))\<rparr>"

definition user_workflow ::
    "(exn \<Rightarrow> string) \<Rightarrow> string \<Rightarrow> (string \<times> user_step) list \<Rightarrow> user_world workflow_spec" where
  "user_workflow message key acts = \<lparr>wf_key = key, wf_version = ''1'',
     wf_activities = map (user_activity message) acts, wf_signal_keys = []\<rparr>"

definition check_in_workflow_key :: string where
  "check_in_workflow_key = ''user_center.check_in.v1''"

definition point_purchase_workflow_key :: string where
  "point_purchase_workflow_key = ''user_center.point_purchase.fulfill.v1''"

definition membership_purchase_workflow_key :: string where
  "membership_purchase_workflow_key = ''user_center.membership_purchase.fulfill.v1''"

definition gift_points_workflow_key :: string where
  "gift_points_workflow_key = ''user_center.gift_card.points.v1''"

definition gift_membership_workflow_key :: string where
  "gift_membership_workflow_key = ''user_center.gift_card.membership.v1''"

definition refund_workflow_key :: string where
  "refund_workflow_key = ''user_center.refund.compensate.v1''"

definition check_in_steps :: "user_env \<Rightarrow> (string \<times> user_step) list" where
  "check_in_steps env = [(''user_center.check_in.credit.v1'', check_in_credit env)]"

definition point_purchase_steps :: "user_env \<Rightarrow> (string \<times> user_step) list" where
  "point_purchase_steps env =
     [(''user_center.point_purchase.validate_captured.v1'', point_purchase_validate env),
      (''user_center.point_purchase.credit.v1'',
        bundle_credit env ''user_center.point_purchase.validate_captured.v1'' ''payment''
          ''order_id'' ''payment-order:''),
      (''user_center.point_purchase.notify.v1'', tell_completed env ''point_purchase'')]"

text \<open>\<open>_membership_workflow\<close>: the steps with the keys of a prefix.\<close>

definition cycle_steps ::
    "user_env \<Rightarrow> string \<Rightarrow> user_step \<Rightarrow> string \<Rightarrow> string \<Rightarrow> bool \<Rightarrow> (string \<times> user_step) list" where
  "cycle_steps env prefix validate source_type ref_field tell =
     (let v = prefix @ ''.validate.v1''; p = prefix @ ''.prepare_cycle.v1'';
          c = prefix @ ''.credit_cycle.v1'' in
      [(v, validate), (p, cycle_prepare env v source_type ref_field), (c, cycle_credit env p),
       (prefix @ ''.attach_cycle.v1'', cycle_attach env p c)]
      @ (if tell then [(prefix @ ''.notify.v1'', tell_completed env ''membership_purchase'')] else []))"

definition membership_purchase_steps :: "user_env \<Rightarrow> (string \<times> user_step) list" where
  "membership_purchase_steps env = cycle_steps env ''user_center.membership_purchase''
     (membership_purchase_validate env) ''payment'' ''order_id'' True"

definition gift_points_steps :: "user_env \<Rightarrow> (string \<times> user_step) list" where
  "gift_points_steps env =
     [(''user_center.gift_card.points.validate.v1'', gift_points_validate env),
      (''user_center.gift_card.points.credit.v1'',
        bundle_credit env ''user_center.gift_card.points.validate.v1'' ''gift_card''
          ''redemption_id'' ''gift-card:''),
      (''user_center.gift_card.points.commit.v1'', gift_commit env),
      (''user_center.gift_card.points.notify.v1'', tell_completed env ''gift_card_points'')]"

definition gift_membership_steps :: "user_env \<Rightarrow> (string \<times> user_step) list" where
  "gift_membership_steps env = cycle_steps env ''user_center.gift_card.membership''
     (gift_membership_validate env) ''gift_card'' ''redemption_id'' False @
     [(''user_center.gift_card.membership.commit.v1'', gift_commit env),
      (''user_center.gift_card.membership.notify.v1'', tell_completed env ''gift_card_membership'')]"

definition refund_steps :: "user_env \<Rightarrow> (string \<times> user_step) list" where
  "refund_steps env = [(refund_resolve_key, refund_resolve env),
     (''user_center.refund.terminate_membership.v1'', refund_terminate env),
     (''user_center.refund.reverse_points.v1'', refund_reverse env)]"

definition user_workflow_specs ::
    "user_env \<Rightarrow> (exn \<Rightarrow> string) \<Rightarrow> user_world workflow_spec list" where
  "user_workflow_specs env message =
     [user_workflow message check_in_workflow_key (check_in_steps env),
      user_workflow message point_purchase_workflow_key (point_purchase_steps env),
      user_workflow message membership_purchase_workflow_key (membership_purchase_steps env),
      user_workflow message gift_points_workflow_key (gift_points_steps env),
      user_workflow message gift_membership_workflow_key (gift_membership_steps env),
      user_workflow message refund_workflow_key (refund_steps env)]"

end
