(* ===== verification/User_Service.thy ===== *)
theory User_Service
  imports User_Workflows
begin

text \<open>
  The self-service gateway of the user center (\<^verbatim>\<open>inc/features/user_center/service.py\<close>) and the
  handler of payment events that calls it (\<^verbatim>\<open>_UserCenterPaymentHandler\<close> of \<^verbatim>\<open>inc/api/container.py\<close>).
  The state is the workflow tables with the tables of the capabilities as their world. The profile
  and the avatar belong to identity and assets, which are not modelled: \<open>me_view\<close> gets them as
  arguments, and the operations that only change them are left out.
\<close>

record user_service =
  sv_env :: user_env
  sv_payments :: payments_ctx
  sv_gifts :: gift_ctx
  sv_zone_date :: "string \<Rightarrow> time \<Rightarrow> exn + string"
  sv_registry :: "user_world workflow_spec registry"

definition make_service :: "user_service \<Rightarrow> exn + user_service" where
  "make_service sv =
     bindE (requireE (reg_frozen (ue_bundles (sv_env sv)) \<and> reg_frozen (ue_offers (sv_env sv))
         \<and> reg_frozen (ue_fulfillments (sv_env sv)))
       (KernelError ''user_center.registry_not_frozen'' INTERNAL)) (\<lambda>_. Inr sv)"

type_synonym user_state = "user_world workflow_db"

definition in_world ::
    "(user_world \<Rightarrow> (exn + 'a) \<times> user_world) \<Rightarrow> user_state \<Rightarrow> (exn + 'a) \<times> user_state" where
  "in_world f db = (case f (wd_world db) of (r, w) \<Rightarrow> (r, db\<lparr>wd_world := w\<rparr>))"

definition on_payments ::
    "(payments_db \<Rightarrow> exn + 'a \<times> payments_db) \<Rightarrow> user_world \<Rightarrow> (exn + 'a) \<times> user_world" where
  "on_payments f w = (case f (uw_payments w) of
     Inl e \<Rightarrow> (Inl e, w) | Inr (x, db) \<Rightarrow> (Inr x, w\<lparr>uw_payments := db\<rparr>))"

section \<open>Guards\<close>

definition require_idempotency_key :: "string \<Rightarrow> exn + unit" where
  "require_idempotency_key k = requireE (\<not> (k = [] \<or> 200 < length k))
     (KernelError ''user_center.invalid_idempotency_key'' VALIDATION)"

definition product_unavailable :: exn where
  "product_unavailable = user_conflict ''user_center.product_unavailable''"

definition require_window :: "time \<Rightarrow> time option \<Rightarrow> time option \<Rightarrow> exn + unit" where
  "require_window now from until =
     bindE (requireE (\<not> (case from of None \<Rightarrow> False | Some t \<Rightarrow> now < t)) product_unavailable) (\<lambda>_.
     requireE (\<not> (case until of None \<Rightarrow> False | Some t \<Rightarrow> t \<le> now)) product_unavailable)"

definition require_available :: "bool \<Rightarrow> time \<Rightarrow> time option \<Rightarrow> time option \<Rightarrow> exn + unit" where
  "require_available available now from until =
     bindE (requireE available product_unavailable) (\<lambda>_. require_window now from until)"

section \<open>Check-in\<close>

record check_in_result =
  cr_status :: string
  cr_business_date :: string
  cr_entry_id :: "string option"

definition check_in_entry :: "workflow_instance option \<Rightarrow> string option" where
  "check_in_entry x = (case Option.bind x (\<lambda>y. dget (wi_state y) ''user_center.check_in.credit.v1'') of
     Some (JObj d) \<Rightarrow> (case dget d ''entry_id'' of Some (JStr s) \<Rightarrow> Some s | _ \<Rightarrow> None)
   | _ \<Rightarrow> None)"

definition check_in_key :: "string \<Rightarrow> string \<Rightarrow> string" where
  "check_in_key sid date = sid @ '':credit:'' @ date @ '':v1''"

definition start_run ::
    "user_service \<Rightarrow> string \<Rightarrow> string \<Rightarrow> dict \<Rightarrow> user_state \<Rightarrow> (exn + workflow_instance) \<times> user_state" where
  "start_run sv key bkey input db =
     transact (start_workflow (sv_registry sv) (uw_now (wd_world db)) key bkey input None db) db"

definition check_in ::
    "user_service \<Rightarrow> (nat \<Rightarrow> time \<times> rat) \<Rightarrow> string \<Rightarrow> string \<Rightarrow> string \<Rightarrow> user_state
      \<Rightarrow> ((exn + check_in_result) \<times> user_state) option" where
  "check_in sv clock sid key zone db =
     (case bindE (require_idempotency_key key) (\<lambda>_. sv_zone_date sv zone (uw_now (wd_world db))) of
        Inl e \<Rightarrow> Some (Inl e, db)
      | Inr date \<Rightarrow>
        (let bkey = check_in_key sid date;
             previous = find_by_business_key db check_in_workflow_key bkey in
         case start_run sv check_in_workflow_key bkey
             [(''subject_id'', JStr sid), (''business_date'', JStr date)] db of
           (Inl e, db1) \<Rightarrow> Some (Inl e, db1)
         | (Inr x, db1) \<Rightarrow>
             (case advance (sv_registry sv) clock (wi_id x) db1 of
                None \<Rightarrow> None
              | Some (Inl e, db2) \<Rightarrow> Some (Inl e, db2)
              | Some (Inr _, db2) \<Rightarrow> Some (Inr \<lparr>
                  cr_status = (if previous \<noteq> None then ''already_rewarded'' else ''rewarded''),
                  cr_business_date = date,
                  cr_entry_id = check_in_entry
                    (find_by_business_key db2 check_in_workflow_key bkey)\<rparr>, db2))))"

section \<open>Orders\<close>

definition place_order ::
    "user_service \<Rightarrow> create_order_input \<Rightarrow> user_state \<Rightarrow> (exn + order_dto) \<times> user_state" where
  "place_order sv c db =
     (if create_input_ok c
      then in_world (on_payments (create_payment_order
        ((sv_payments sv)\<lparr>pc_now := uw_now (wd_world db)\<rparr>) c)) db
      else (Inl (PyException ''ValidationError''), db))"

definition create_point_order ::
    "user_service \<Rightarrow> string \<Rightarrow> string \<Rightarrow> string \<Rightarrow> string \<Rightarrow> user_state \<Rightarrow> (exn + order_dto) \<times> user_state" where
  "create_point_order sv sid product provider key db =
     bindS (bindE (require_idempotency_key key) (\<lambda>_.
            bindE (catalog_require (ue_bundles (sv_env sv)) product) (\<lambda>b.
            bindE (require_available (pb_available b) (uw_now (wd_world db)) (pb_from b) (pb_until b)) (\<lambda>_.
            Inr b))), db) (\<lambda>b db.
     place_order sv \<lparr>co_subject_type = ''identity'', co_subject_id = sid, co_provider_key = provider,
       co_offer_key = pb_key b, co_offer_version = pb_version b, co_description = pb_display_name b,
       co_amount = pb_price_cents b, co_currency = ''CNY'',
       co_idempotency_key = ''user-center:points:'' @ sid @ '':'' @ key\<rparr> db)"

definition create_membership_order ::
    "user_service \<Rightarrow> string \<Rightarrow> string \<Rightarrow> string \<Rightarrow> string \<Rightarrow> bool \<Rightarrow> user_state
      \<Rightarrow> (exn + order_dto) \<times> user_state" where
  "create_membership_order sv sid offer provider key renewal db =
     bindS (bindE (require_idempotency_key key) (\<lambda>_.
            bindE (catalog_require (ue_offers (sv_env sv)) offer) (\<lambda>m.
            bindE (require_available True (uw_now (wd_world db)) (mo_from m) (mo_until m)) (\<lambda>_.
            bindE (requireE (\<not> (renewal \<and> \<not> mo_renewal_allowed m
                \<or> \<not> renewal \<and> \<not> mo_purchase_allowed m)) product_unavailable) (\<lambda>_.
            Inr m)))), db) (\<lambda>m db.
     place_order sv \<lparr>co_subject_type = ''identity'', co_subject_id = sid, co_provider_key = provider,
       co_offer_key = mo_key m, co_offer_version = mo_version m, co_description = mo_display_name m,
       co_amount = mo_price_cents m, co_currency = ''CNY'',
       co_idempotency_key = ''user-center:membership:'' @ sid @ '':'' @ key\<rparr> db)"

definition list_point_products :: "user_service \<Rightarrow> point_bundle list" where
  "list_point_products sv = catalog_specs (ue_bundles (sv_env sv))"

section \<open>Fulfilment\<close>

definition missing_order :: exn where
  "missing_order = KernelError ''user_center.order_not_found'' NOT_FOUND"

definition fulfilling_workflow :: "user_service \<Rightarrow> order_dto \<Rightarrow> exn + string" where
  "fulfilling_workflow sv order =
     (if od_offer_key order \<in> set (map pb_key (catalog_specs (ue_bundles (sv_env sv))))
        then Inr point_purchase_workflow_key
      else if od_offer_key order \<in> set (map mo_key (catalog_specs (ue_offers (sv_env sv))))
        then Inr membership_purchase_workflow_key
      else Inl version_conflict)"

definition fulfill_captured_payment ::
    "user_service \<Rightarrow> string \<Rightarrow> user_state \<Rightarrow> (exn + workflow_instance) \<times> user_state" where
  "fulfill_captured_payment sv oid db =
     bindS (bindE (row_key oid) (\<lambda>i.
            bindE (get_order_dto (uw_payments (wd_world db)) i) (\<lambda>found.
            bindE (someE found missing_order) (\<lambda>order.
            bindE (fulfilling_workflow sv order) (\<lambda>key. Inr (order, key))))), db) (\<lambda>(order, key) db.
     start_run sv key (''payment-order:'' @ od_id order @ '':captured'')
       [(''order_id'', JStr (od_id order)), (''subject_id'', JStr (od_subject_id order))] db)"

definition reserve_input_ok :: "reserve_input \<Rightarrow> bool" where
  "reserve_input_ok i \<longleftrightarrow> text_within 500 (rv_secret i) \<and> text_within 64 (rv_subject_type i)
     \<and> text_within 200 (rv_subject_id i) \<and> text_within 200 (rv_idempotency_key i)
     \<and> (case rv_platform_key i of None \<Rightarrow> True | Some k \<Rightarrow> text_within 64 k)"

definition redeem_gift_card ::
    "user_service \<Rightarrow> string \<Rightarrow> string \<Rightarrow> string \<Rightarrow> string option \<Rightarrow> user_state
      \<Rightarrow> (exn + workflow_instance) \<times> user_state" where
  "redeem_gift_card sv sid secret key platform db =
     (let rkey = ''user-center:'' @ sid @ '':'' @ key;
          i = \<lparr>rv_secret = secret, rv_subject_type = ''identity'', rv_subject_id = sid,
            rv_idempotency_key = rkey, rv_platform_key = platform\<rparr> in
      bindS (bindE (require_idempotency_key key) (\<lambda>_.
             requireE (reserve_input_ok i) (PyException ''ValidationError'')), db) (\<lambda>_ db.
      bindS (in_world (on_gifts (reserve_redemption
          ((sv_gifts sv)\<lparr>gx_now := uw_now (wd_world db)\<rparr>) i)) db) (\<lambda>r db.
      bindS (catalog_require (ue_fulfillments (sv_env sv)) (rx_fulfillment_key r), db) (\<lambda>g db.
      start_run sv (case gf_type g of FT_points_bundle \<Rightarrow> gift_points_workflow_key
          | FT_membership_offer \<Rightarrow> gift_membership_workflow_key)
        (''gift-card:'' @ rx_id r @ '':fulfill'')
        [(''redemption_id'', JStr (rx_id r)), (''redemption_key'', JStr rkey),
         (''subject_id'', JStr sid)] db))))"

definition compensate_refund ::
    "user_service \<Rightarrow> string \<Rightarrow> string \<Rightarrow> string \<Rightarrow> user_state \<Rightarrow> (exn + workflow_instance) \<times> user_state" where
  "compensate_refund sv oid rid sid db =
     start_run sv refund_workflow_key (''payment-refund:'' @ rid)
       [(''order_id'', JStr oid), (''refund_id'', JStr rid), (''subject_id'', JStr sid)] db"

text \<open>The event handler; the payload schemas of the events make its fields texts.\<close>

definition handle_payment_event ::
    "user_service \<Rightarrow> string \<Rightarrow> dict \<Rightarrow> user_state \<Rightarrow> (exn + unit) \<times> user_state" where
  "handle_payment_event sv key payload db =
     bindS (text_field payload ''order_id'', db) (\<lambda>oid db.
     bindS (if key = ''payment.refund_completed.v1''
            then bindS (bindE (text_field payload ''refund_ref'') (\<lambda>ref.
                        bindE (text_field payload ''subject_id'') (\<lambda>sid. Inr (ref, sid))), db) (\<lambda>(ref, sid) db.
                 compensate_refund sv oid ref sid db)
            else fulfill_captured_payment sv oid db) (\<lambda>_ db. (Inr (), db)))"

section \<open>Membership, purchases and the view of the subject\<close>

definition cancel_membership ::
    "user_service \<Rightarrow> string \<Rightarrow> string \<Rightarrow> user_state \<Rightarrow> (exn + subscription_dto) \<times> user_state" where
  "cancel_membership sv sid reason db =
     bindS (bindE (someE (subscription_of (uw_members (wd_world db)) ''identity'' sid)
              (KernelError ''user_center.membership_not_found'' NOT_FOUND)) (\<lambda>s.
            bindE (requireE (text_within 500 reason) (PyException ''ValidationError'')) (\<lambda>_. Inr s)), db) (\<lambda>s db.
     in_world (\<lambda>w. on_members (\<lambda>m. transact (cancel_subscription
       (members_at (sv_env sv) w) (sd_id s) m) m) w) db)"

definition get_payment_order :: "user_service \<Rightarrow> string \<Rightarrow> string \<Rightarrow> user_state \<Rightarrow> exn + order_detail" where
  "get_payment_order sv sid oid db =
     bindE (row_key oid) (\<lambda>i.
     bindE (get_order_detail (uw_payments (wd_world db)) i) (\<lambda>found.
     bindE (someE found missing_order) (\<lambda>detail.
     bindE (requireE (od_subject_id (dt_order detail) = sid) missing_order) (\<lambda>_. Inr detail))))"

definition list_purchases :: "user_service \<Rightarrow> string \<Rightarrow> int \<Rightarrow> int \<Rightarrow> user_state \<Rightarrow> exn + order_page" where
  "list_purchases sv sid page n db = list_orders \<lparr>qf_state = None, qf_provider_key = None,
     qf_subject_type = Some ''identity'', qf_subject_id = Some sid\<rparr> page n (uw_payments (wd_world db))"

record points_view =
  pv_opened :: bool
  pv_balance :: int
  pv_buckets :: "bucket_dto list"

definition points_view_of :: "string \<Rightarrow> points_db \<Rightarrow> exn + points_view" where
  "points_view_of sid db =
     (case bindE (query_balance db ''credit'' ''identity'' sid) (\<lambda>bal.
           bindE (list_buckets db ''credit'' ''identity'' sid) (\<lambda>bs. Inr (bal, bs))) of
        Inr (bal, bs) \<Rightarrow> Inr \<lparr>pv_opened = True, pv_balance = bd_balance bal, pv_buckets = bs\<rparr>
      | Inl (KernelError code cat) \<Rightarrow>
          if code = ''points.account_not_opened''
          then Inr \<lparr>pv_opened = False, pv_balance = 0, pv_buckets = []\<rparr>
          else Inl (KernelError code cat)
      | Inl e \<Rightarrow> Inl e)"

text \<open>\<open>'p\<close> is what identity and assets say of the subject.\<close>

record 'p me_view =
  me_profile :: 'p
  me_points :: points_view
  me_membership :: "subscription_dto option"

definition get_me ::
    "'p option \<Rightarrow> string \<Rightarrow> user_state \<Rightarrow> exn + 'p me_view" where
  "get_me profile sid db =
     bindE (someE profile (KernelError ''identity.not_found'' NOT_FOUND)) (\<lambda>p.
     bindE (points_view_of sid (uw_points (wd_world db))) (\<lambda>v.
     Inr \<lparr>me_profile = p, me_points = v,
       me_membership = subscription_of (uw_members (wd_world db)) ''identity'' sid\<rparr>))"

end
