(* ===== verification/Workflow_Script.thy ===== *)
theory Workflow_Script
  imports Workflow_Correct Idempotent_Commands
begin

text \<open>
  The abstract reading of a workflow: its activities one after the other on the state of the other
  components, each with the results of the earlier ones. Where that reading ends, in success or in
  an error, the runner stops the same way: an error that will be retried leaves the run pending.
\<close>

fun run_script ::
    "dict \<Rightarrow> 'w activity_spec list \<Rightarrow> dict \<Rightarrow> 'w \<Rightarrow> ((exn \<times> bool + dict) \<times> 'w) option" where
  "run_script input [] st w = Some (Inr st, w)"
| "run_script input (act # acts) st w =
     (case run_activity act [(''workflow'', JObj input), (''state'', JObj st)] 1 w of
        (Act_result r, w') \<Rightarrow>
          (if wait_request r = Inr None then run_script input acts (dset (ac_key act) (JObj r) st) w'
           else None)
      | (Act_raised e text, w') \<Rightarrow>
          Some (Inl (e, should_retry (ac_retry act) (classify_retry e) 1), w'))"

definition script_status :: "exn \<times> bool + dict \<Rightarrow> workflow_status" where
  "script_status r = (case r of
     Inl (_, again) \<Rightarrow> if again then WF_pending else WF_failed | Inr _ \<Rightarrow> WF_completed)"

lemma step_once_result:
  assumes x: "get_instance db i = Some x" "\<not> terminal_status (wi_status x)"
      "wi_step x = Some (ac_key act)"
    and spec: "registry_lookup reg (wi_key x) = Some spec" "spec_activity spec (ac_key act) = Some act"
    and none: "last_attempt db i (ac_key act) = None"
    and run: "run_activity act (first_input x) 1 (wd_world db) = (Act_result d, w')"
      "wait_request d = Inr None"
  shows "\<exists>db' y. step_once reg now draw i db = Inr (None, db') \<and> wd_world db' = w'
    \<and> (\<forall>s. s \<noteq> ac_key act \<longrightarrow> history db' i s = history db i s)
    \<and> get_instance db' i = Some y \<and> wi_key y = wi_key x \<and> wi_status y = wi_status x
    \<and> wi_input y = wi_input x \<and> wi_state y = dset (ac_key act) (JObj d) (wi_state x)
    \<and> wi_step y = next_step spec (wi_step x)"
proof -
  from get_instance_id[OF x(1)] have i: "wi_id x = i" by simp
  let ?a = "new_attempt i (ac_key act) 1 (first_input x) (Act_result d)"
  let ?y = "advance_step spec now (x\<lparr>wi_state := dset (ac_key act) (JObj d) (wi_state x),
      wi_step_attempt := 1\<rparr>)"
  let ?db = "save_instance ?y (db\<lparr>wd_attempts := wd_attempts db @ [?a], wd_world := w'\<rparr>)"
  have "step_once reg now draw i db = Inr (None, ?db)"
    by (simp add: step_once_def x spec none workflow_require_def execute_step_def run i
        settle_step_success_def Let_def)
  moreover have "get_instance ?db i = Some ?y"
    using x i by (simp add: table_simps advance_step_def)
  moreover have "wi_key ?y = wi_key x" "wi_status ?y = wi_status x" "wi_input ?y = wi_input x"
    "wi_state ?y = dset (ac_key act) (JObj d) (wi_state x)" "wi_step ?y = next_step spec (wi_step x)"
    using x(3) by (simp_all add: advance_step_def)
  moreover have "history ?db i s = history db i s" if "s \<noteq> ac_key act" for s
    using that by (simp add: history_def save_instance_tables)
  moreover have "wd_world ?db = w'" by (simp add: save_instance_def)
  ultimately show ?thesis by blast
qed

lemma step_once_raised:
  assumes x: "get_instance db i = Some x" "wi_status x = WF_pending"
      "wi_step x = Some (ac_key act)"
    and spec: "registry_lookup reg (wi_key x) = Some spec" "spec_activity spec (ac_key act) = Some act"
    and none: "last_attempt db i (ac_key act) = None"
    and run: "run_activity act (first_input x) 1 (wd_world db) = (Act_raised e text, w')"
    and again: "again = should_retry (ac_retry act) (classify_retry e) 1"
  shows "\<exists>db' y. step_once reg now draw i db = Inr (Some (script_status (Inl (e, again))), db')
    \<and> wd_world db' = w' \<and> get_instance db' i = Some y \<and> wi_status y = script_status (Inl (e, again))
    \<and> wi_state y = wi_state x"
proof -
  from get_instance_id[OF x(1)] have i: "wi_id x = i" by simp
  let ?a = "new_attempt i (ac_key act) 1 (first_input x) (Act_raised e text)"
  let ?y = "settle_step_failure (ac_retry act) now draw 1 e text x"
  let ?db = "save_instance ?y (db\<lparr>wd_attempts := wd_attempts db @ [?a], wd_world := w'\<rparr>)"
  have y: "wi_status ?y = script_status (Inl (e, again))" "wi_id ?y = wi_id x" "wi_state ?y = wi_state x"
    by (simp_all add: settle_step_failure_def Let_def release_lease_def finish_with_def script_status_def
        again x(2))
  have "step_once reg now draw i db = Inr (Some (script_status (Inl (e, again))), ?db)"
    by (simp add: step_once_def x terminal_status_def spec none workflow_require_def execute_step_def run i y Let_def)
  moreover have "get_instance ?db i = Some ?y"
    using x(1) i y(2) by (simp add: table_simps)
  moreover have "wd_world ?db = w'" by (simp add: save_instance_def)
  ultimately show ?thesis using y(1,3) by blast
qed

text \<open>What a run leaves as state: all results, or when it failed none of the last activity.\<close>

definition script_left :: "exn \<times> bool + dict \<Rightarrow> dict \<Rightarrow> 'w activity_spec list \<Rightarrow> dict \<Rightarrow> bool" where
  "script_left r st0 acts st \<longleftrightarrow> (case r of
     Inr st' \<Rightarrow> st = st' | Inl _ \<Rightarrow> dget st (ac_key (last acts)) = dget st0 (ac_key (last acts)))"

lemma advance_loop_script:
  assumes "get_instance db i = Some x" "wi_status x = WF_pending"
      "registry_lookup reg (wi_key x) = Some spec"
      "wf_activities spec = pre @ rest" "distinct (map ac_key (pre @ rest))"
      "wi_step x = (case rest of [] \<Rightarrow> None | act # _ \<Rightarrow> Some (ac_key act))"
      "\<And>act. act \<in> set rest \<Longrightarrow> history db i (ac_key act) = []"
      "run_script (wi_input x) rest (wi_state x) (wd_world db) = Some (r, w')"
  shows "\<exists>db' y. advance_loop reg clock n i db = Some (Inr (script_status r), db')
    \<and> wd_world db' = w' \<and> get_instance db' i = Some y \<and> wi_status y = script_status r
    \<and> script_left r (wi_state x) rest (wi_state y)"
  using assms
proof (induction rest arbitrary: pre db x n)
  case Nil
  let ?y = "release_lease (finish_with WF_completed [(''final'', JBool True)] x)"
  from Nil.prems(8) have r: "r = Inr (wi_state x)" "w' = wd_world db" by auto
  have "step_once reg (fst (clock n)) (snd (clock n)) i db = Inr (Some WF_completed, save_instance ?y db)"
    using Nil.prems(1-3,6) by (simp add: step_once_def workflow_require_def terminal_status_def)
  moreover have "get_instance (save_instance ?y db) i = Some ?y"
    using Nil.prems(1) get_instance_id[OF Nil.prems(1)]
    by (simp add: table_simps release_lease_def finish_with_def)
  moreover have "wi_status ?y = WF_completed" "wi_state ?y = wi_state x"
    "wd_world (save_instance ?y db) = wd_world db"
    by (simp_all add: release_lease_def finish_with_def save_instance_def)
  ultimately show ?case
    by (simp add: advance_loop.simps[of reg clock n] script_status_def script_left_def r)
next
  case (Cons act rest)
  from Cons.prems(6) have cur: "wi_step x = Some (ac_key act)" by simp
  have act: "spec_activity spec (ac_key act) = Some act"
    by (rule spec_activity_append[OF Cons.prems(5,4)])
  from Cons.prems(7)[of act] have none: "last_attempt db i (ac_key act) = None"
    by (simp add: last_attempt_None)
  have running: "\<not> terminal_status (wi_status x)" using Cons.prems(2) by (simp add: terminal_status_def)
  note script = Cons.prems(8)
  consider (ok) d w1 where "run_activity act (first_input x) 1 (wd_world db) = (Act_result d, w1)"
      "wait_request d = Inr None" "run_script (wi_input x) rest (dset (ac_key act) (JObj d) (wi_state x)) w1 = Some (r, w')"
    | (bad) e msg where "run_activity act (first_input x) 1 (wd_world db) = (Act_raised e msg, w')"
      "r = Inl (e, should_retry (ac_retry act) (classify_retry e) 1)"
    using script by (auto simp: first_input_def split: prod.splits activity_outcome.splits if_splits)
  then show ?case
  proof cases
    case ok
    obtain db1 y where step: "step_once reg (fst (clock n)) (snd (clock n)) i db = Inr (None, db1)"
      "wd_world db1 = w1" "\<forall>s. s \<noteq> ac_key act \<longrightarrow> history db1 i s = history db i s"
      and y: "get_instance db1 i = Some y" "wi_key y = wi_key x" "wi_status y = wi_status x"
        "wi_input y = wi_input x" "wi_state y = dset (ac_key act) (JObj d) (wi_state x)"
        "wi_step y = next_step spec (wi_step x)"
      using step_once_result[OF Cons.prems(1) running cur Cons.prems(3) act none ok(1,2)] by metis
    have nxt: "wi_step y = (case rest of [] \<Rightarrow> None | act # _ \<Rightarrow> Some (ac_key act))"
      using Cons.prems(4,5) next_key_append[of "map ac_key pre" "ac_key act" "map ac_key rest"]
      by (simp add: y(6) cur next_step_def split: list.splits)
    have fresh: "history db1 i (ac_key b) = []" if "b \<in> set rest" for b
    proof -
      have "ac_key b \<in> ac_key ` set rest" using that by simp
      then have "ac_key b \<noteq> ac_key act" using Cons.prems(5) by auto
      with Cons.prems(7)[of b] that step(3) show ?thesis by simp
    qed
    have "\<exists>db' z. advance_loop reg clock (Suc n) i db1 = Some (Inr (script_status r), db')
      \<and> wd_world db' = w' \<and> get_instance db' i = Some z \<and> wi_status z = script_status r
      \<and> script_left r (wi_state y) rest (wi_state z)"
      by (rule Cons.IH[of db1 y "pre @ [act]"])
        (use Cons.prems(2-5) y nxt fresh ok(3) step(2) in simp_all)
    moreover have "script_left r (wi_state y) rest st \<Longrightarrow> script_left r (wi_state x) (act # rest) st" for st
    proof (cases rest)
      case (Cons b bs)
      have "ac_key (last rest) \<in> ac_key ` set rest" using Cons by (intro imageI last_in_set) simp
      then have "ac_key (last rest) \<noteq> ac_key act" using Cons.prems(5) by auto
      then show "script_left r (wi_state y) rest st \<Longrightarrow> script_left r (wi_state x) (act # rest) st"
        by (auto simp: script_left_def y(5) Cons split: sum.splits)
    qed (use ok(3) in \<open>auto simp: script_left_def split: sum.splits\<close>)
    ultimately show ?thesis using step(1) by (auto simp: advance_loop.simps[of reg clock n])
  next
    case bad
    from step_once_raised[OF Cons.prems(1,2) cur Cons.prems(3) act none bad(1) refl] obtain db' y
      where "step_once reg (fst (clock n)) (snd (clock n)) i db = Inr (Some (script_status r), db')"
        "wd_world db' = w'" "get_instance db' i = Some y" "wi_status y = script_status r"
        "wi_state y = wi_state x" unfolding bad(2)[symmetric] by blast
    then show ?thesis by (auto simp: advance_loop.simps[of reg clock n] script_left_def bad(2))
  qed
qed

text \<open>A started workflow, advanced once, does what its script does.\<close>

lemma advance_script:
  assumes "workflow_inv reg db" and "registry_wf reg"
    and "registry_lookup reg key = Some spec" and "find_by_business_key db key bkey = None"
    and "start_workflow reg now key bkey input trace db = Inr (x, db1)"
    and "run_script input (wf_activities spec) [] (wd_world db) = Some (r, w')"
  shows "\<exists>db' y. advance reg clock (wi_id x) db1 = Some (Inr (script_status r), db')
    \<and> wd_world db' = w' \<and> get_instance db' (wi_id x) = Some y \<and> wi_status y = script_status r
    \<and> script_left r [] (wf_activities spec) (wi_state y)"
  using assms(5)
proof (cases rule: start_workflow_cases)
  case (fresh spec')
  have spec: "spec' = spec" using fresh(2) assms(3) by simp
  have x: "wi_id x = wd_next_id db" "wi_key x = key" "wi_status x = WF_pending"
    "wi_input x = input" "wi_state x = []"
    "wi_step x = (case wf_activities spec of [] \<Rightarrow> None | act # _ \<Rightarrow> Some (ac_key act))"
    using fresh(3) spec
    by (simp_all add: fresh(4) new_instance_def terminal_status_def split: list.splits)
  have "get_instance db (wi_id x) = None"
    using workflow_invD(2)[OF assms(1)] by (fastforce simp: get_instance_def find_None_iff' x(1))
  then have get: "get_instance db1 (wi_id x) = Some x"
    by (simp add: get_instance_def fresh(5) find_append)
  have hist: "history db1 (wi_id x) step = []" for step
    using workflow_invD(3)[OF assms(1)] by (fastforce simp: history_def fresh(5) filter_empty_conv x(1))
  have dist: "distinct (map ac_key ([] @ wf_activities spec))"
    using registry_wf_lookup[OF assms(2,3)] by simp
  have "registry_lookup reg (wi_key x) = Some spec" using x(2) assms(3) by simp
  from advance_loop_script[OF get x(3) this _ dist x(6), of r w' clock 0] hist assms(6)
  show ?thesis unfolding advance_def by (simp add: x fresh(5))
qed (use assms(4) in simp)

text \<open>Started again, a finished workflow does nothing.\<close>

lemma advance_finished:
  assumes "get_instance db i = Some x" and "terminal_status (wi_status x)"
  shows "advance reg clock i db = Some (Inr (wi_status x), db)"
  using assms by (simp add: advance_def advance_loop.simps[of reg clock 0] step_once_def)

lemma found_by_key_get:
  assumes "workflow_inv reg db" and "find_by_business_key db key bkey = Some x"
  shows "get_instance db (wi_id x) = Some x"
  using find_key_unique[OF workflow_invD(1)[OF assms(1)], of x] assms(2)
  by (auto simp: get_instance_def find_by_business_key_def dest: find_Some_mem)

section \<open>One instance per business key\<close>

definition instance_key :: "workflow_instance \<Rightarrow> (string \<times> string) \<times> nat" where
  "instance_key x = ((wi_key x, wi_business_key x), wi_id x)"

lemma save_keeps_keys:
  assumes "workflow_inv reg db" and "get_instance db i = Some x" and "same_instance x y"
    and "wd_instances db1 = wd_instances db"
  shows "map instance_key (wd_instances (save_instance y db1)) = map instance_key (wd_instances db)"
proof -
  from get_instance_id[OF assms(2)] have "x \<in> set (wd_instances db)" by simp
  from replace_keeps[OF workflow_invD(1)[OF assms(1)] this, of y instance_key] assms(3,4)
  show ?thesis by (simp add: save_instance_def same_instance_def instance_key_def)
qed

lemma step_extends_keys:
  assumes inv: "workflow_inv reg db" and "workflow_step reg db db'"
  shows "extends_by instance_key (wd_instances db) (wd_instances db')"
  using assms(2)
proof cases
  case (ws_start now key bkey input trace x)
  from ws_start(1) show ?thesis by (cases rule: start_workflow_cases) simp_all
next
  case (ws_signal now uuid i key sid payload b)
  from ws_signal(1) show ?thesis
  proof (cases rule: deliver_signal_cases)
    case (stored x uid db1)
    have "map instance_key (wd_instances (save_instance y db1)) = map instance_key (wd_instances db)"
      if "same_instance x y" for y
      by (rule save_keeps_keys[OF inv stored(2) that]) (simp add: stored(6))
    with stored(6,7) show ?thesis by (auto simp: same_instance_def intro!: extends_by_same)
  qed simp
next
  case (ws_claim batch owner lease now claimed xs)
  then obtain p where xs: "xs = update_where p
      (workflow_mark_leased owner (now + seconds lease)) (wd_instances db)"
    using claim_with_table by (metis snd_conv workflow_claim_due_def)
  have "map instance_key xs = map instance_key (wd_instances db)"
    unfolding xs by (rule map_update_where') (simp add: workflow_mark_leased_def instance_key_def)
  with ws_claim show ?thesis by (simp add: extends_by_same)
next
  case (ws_once now draw i r)
  from ws_once show ?thesis
  proof (cases rule: step_once_cases)
    case (quiet x y)
    from save_keeps_keys[OF inv quiet(1,4) refl] quiet(3) show ?thesis by (simp add: extends_by_same)
  next
    case (run x spec step act n input)
    from run(4,2) show ?thesis
    proof (cases rule: execute_step_effect)
      case (1 y out w sigs)
      have "map instance_key (wd_instances db') = map instance_key (wd_instances db)"
        unfolding 1(2) by (rule save_keeps_keys[OF inv run(1) 1(3)]) simp
      then show ?thesis by (rule extends_by_same)
    qed
  qed simp
qed simp

definition started :: "'w workflow_db \<Rightarrow> string \<times> string \<Rightarrow> nat \<Rightarrow> bool" where
  "started db k i \<longleftrightarrow> (\<exists>x. find_by_business_key db (fst k) (snd k) = Some x \<and> wi_id x = i)"

definition start_under ::
    "'w workflow_spec registry \<Rightarrow> string \<times> string \<Rightarrow> time \<times> dict \<times> string option
      \<Rightarrow> 'w workflow_db \<Rightarrow> exn + nat \<times> 'w workflow_db" where
  "start_under reg k i db = (case i of (now, input, trace) \<Rightarrow>
     bindE (start_workflow reg now (fst k) (snd k) input trace db) (\<lambda>(x, db'). Inr (wi_id x, db')))"

lemma started_step:
  assumes "workflow_inv reg db" and "workflow_step reg db db'" and "started db k i"
  shows "started db' k i"
proof -
  have find: "find_by_business_key d a b = find ((\<lambda>j. fst j = (a, b)) \<circ> instance_key) (wd_instances d)"
    for d :: "'a workflow_db" and a b
    unfolding find_by_business_key_def
    by (rule arg_cong[of _ _ "\<lambda>p. find p (wd_instances d)"]) (auto simp: instance_key_def)
  from assms(3) obtain x where x: "find ((\<lambda>j. fst j = (fst k, snd k)) \<circ> instance_key) (wd_instances db) = Some x"
    "wi_id x = i" by (auto simp: started_def find)
  from extends_by_find[OF step_extends_keys[OF assms(1,2)] x(1)] x(2) show ?thesis
    by (auto simp: started_def find instance_key_def)
qed

interpretation starts: keyed_command "workflow_step reg" "workflow_inv reg" started "start_under reg"
  "\<lambda>k i db. registry_lookup reg (fst k) \<noteq> None" for reg
proof
  fix s s' :: "'a workflow_db" and k :: "string \<times> string" and r :: nat
    and i :: "time \<times> dict \<times> string option"
  show "workflow_inv reg s \<Longrightarrow> workflow_step reg s s' \<Longrightarrow> workflow_inv reg s'"
    by (rule workflow_inv_step)
  show "workflow_inv reg s \<Longrightarrow> workflow_step reg s s' \<Longrightarrow> started s k r \<Longrightarrow> started s' k r"
    by (rule started_step)
  show "workflow_inv reg s' \<and> started s' k r"
    if inv: "workflow_inv reg s" and run: "start_under reg k i s = Inr (r, s')"
  proof -
    obtain now input trace where i: "i = (now, input, trace)" by (cases i)
    from run obtain x where x: "start_workflow reg now (fst k) (snd k) input trace s = Inr (x, s')" "wi_id x = r"
      by (auto simp: start_under_def i cmd_ok)
    from x(1) have "find_by_business_key s' (fst k) (snd k) = Some x"
      by (cases rule: start_workflow_cases)
        (auto simp: find_by_business_key_def find_append new_instance_def)
    with x workflow_inv_start[OF inv x(1)] show ?thesis by (auto simp: started_def)
  qed
  show "start_under reg k i s = Inr (r, s)" if "started s k r" "registry_lookup reg (fst k) \<noteq> None"
    using that by (auto simp: started_def start_under_def start_workflow_def workflow_require_def
        split: prod.splits)
qed

text \<open>
  Started again under the same key after it ended, in any later state, a workflow is found as it
  ended, and advancing it changes nothing.
\<close>

lemma ended_workflow_stays:
  assumes inv: "workflow_inv reg db" and steps: "workflow_steps reg db db'"
    and found: "find_by_business_key db key bkey = Some x" and ended: "terminal_status (wi_status x)"
    and reg: "registry_lookup reg key \<noteq> None"
  shows "start_workflow reg now key bkey input trace db' = Inr (x, db')"
    and "advance reg clock (wi_id x) db' = Some (Inr (wi_status x), db')"
proof -
  have get: "get_instance db (wi_id x) = Some x" by (rule found_by_key_get[OF inv found])
  with steps_keep_instance[OF steps get] ended have get': "get_instance db' (wi_id x) = Some x" by auto
  then show "advance reg clock (wi_id x) db' = Some (Inr (wi_status x), db')"
    using ended by (rule advance_finished)
  have "started db (key, bkey) (wi_id x)" using found by (simp add: started_def)
  from starts.recorded_steps[OF steps inv this] obtain y
    where y: "find_by_business_key db' key bkey = Some y" "wi_id y = wi_id x" and inv': "workflow_inv reg db'"
    by (auto simp: started_def)
  from found_by_key_get[OF inv' y(1)] y(2) get' have "y = x" by simp
  with y(1) reg show "start_workflow reg now key bkey input trace db' = Inr (x, db')"
    by (auto simp: start_workflow_def workflow_require_def)
qed

end
