(* ===== verification/User_System.thy ===== *)
theory User_System
  imports User_Service Workflow_Script Points_Reachable Payments_Invariant Membership_Invariant
    Gift_Cards_Steps Notification_Properties
begin

text \<open>
  The user center as a system: what its activities and operations may do to the tables of the
  capabilities, and the transactions of the runner together with those of everybody else.
\<close>

section \<open>Later worlds\<close>

text \<open>
  In a later world every capability has made transactions of its own, and time has not gone back.
  The notifications keep the time of their last write.
\<close>

definition notes_later :: "user_world \<Rightarrow> user_world \<Rightarrow> bool" where
  "notes_later w w' \<longleftrightarrow> (\<forall>t\<le>uw_now w. \<exists>t'\<le>uw_now w'.
     notification_step\<^sup>*\<^sup>* (t, uw_notes w) (t', uw_notes w'))"

definition world_later :: "user_world \<Rightarrow> user_world \<Rightarrow> bool" where
  "world_later w w' \<longleftrightarrow> uw_now w \<le> uw_now w' \<and> points_step\<^sup>*\<^sup>* (uw_points w) (uw_points w')
     \<and> membership_steps (uw_members w) (uw_members w')
     \<and> payments_steps (uw_payments w) (uw_payments w') \<and> gift_steps (uw_gifts w) (uw_gifts w')
     \<and> notes_later w w'"

lemma world_later_refl [simp, intro]: "world_later w w"
  by (auto simp: world_later_def notes_later_def)

lemma world_later_trans [trans]:
  assumes "world_later a b" and "world_later b c"
  shows "world_later a c"
proof -
  have "notes_later a c"
    using assms unfolding world_later_def notes_later_def by (meson rtranclp_trans)
  with assms show ?thesis
    unfolding world_later_def by (meson order_trans rtranclp_trans)
qed

lemma later_bindS:
  assumes "world_later w (snd m)" and "\<And>x w1. m = (Inr x, w1) \<Longrightarrow> world_later w1 (snd (k x w1))"
  shows "world_later w (snd (bindS m k))"
proof -
  obtain r w1 where m: "m = (r, w1)" by (cases m)
  show ?thesis
  proof (cases r)
    case (Inr x)
    with assms m show ?thesis by (auto intro: world_later_trans)
  qed (use assms m in simp)
qed

lemma later_grant: "world_later w (snd (grant env behavior i w))"
  by (auto simp: grant_def on_points_def world_later_def notes_later_def split: sum.splits
      intro: points_step.credit)

lemma later_reverse: "world_later w (snd (on_points (reverse_ledger_entry ctx n i) w))"
  by (auto simp: on_points_def world_later_def notes_later_def split: sum.splits
      intro: points_step.reverse)

lemma later_members:
  assumes "\<And>r db. f (uw_members w) = (r, db) \<Longrightarrow> membership_steps (uw_members w) db"
  shows "world_later w (snd (on_members f w))"
  using assms by (auto simp: on_members_def world_later_def notes_later_def split: prod.splits)

lemma later_gifts:
  assumes "\<And>x db. f (uw_gifts w) = Inr (x, db) \<Longrightarrow> gift_steps (uw_gifts w) db"
  shows "world_later w (snd (on_gifts f w))"
  using assms by (auto simp: on_gifts_def world_later_def notes_later_def split: sum.splits)

lemma later_payments:
  assumes "\<And>x db. f (uw_payments w) = Inr (x, db) \<Longrightarrow> payments_steps (uw_payments w) db"
  shows "world_later w (snd (on_payments f w))"
  using assms by (auto simp: on_payments_def world_later_def notes_later_def split: sum.splits)

lemma later_notes:
  assumes "nx_now ctx = uw_now w"
  shows "world_later w (snd (on_notes (request_notification ctx i) w))"
proof (cases "request_notification ctx i (uw_notes w)")
  case (Inr p)
  obtain r db' where p: "p = (r, db')" by (cases p)
  have "notification_step\<^sup>*\<^sup>* (t, uw_notes w) (uw_now w, db')" if "t \<le> uw_now w" for t
  proof -
    from request_notification_steps[of ctx i "uw_notes w" r db' t] Inr p that assms
    obtain db1 where "notification_write (t, uw_notes w) (uw_now w, db1)"
      "notification_write (uw_now w, db1) (uw_now w, db')" by auto
    then show ?thesis by (meson notification_step.w converse_rtranclp_into_rtranclp rtranclp.rtrancl_refl)
  qed
  with Inr p show ?thesis
    by (auto simp: on_notes_def world_later_def notes_later_def)
qed (simp add: on_notes_def)

lemma transact_members:
  assumes "\<And>x db. f m = Inr (x, db) \<Longrightarrow> membership_step m db"
  shows "transact (f m) m = (r, db) \<Longrightarrow> membership_steps m db"
  using assms by (auto simp: transact_def split: sum.splits)

section \<open>Activities\<close>

definition step_later :: "user_step \<Rightarrow> bool" where
  "step_later h \<longleftrightarrow> (\<forall>data w. world_later w (snd (h data w)))"

named_theorems later \<open>activities only make transactions of the capabilities\<close>

lemma check_in_credit_later [later]: "step_later (check_in_credit env)"
  by (auto simp: step_later_def check_in_credit_def intro!: later_bindS later_grant)

lemma bundle_credit_later [later]: "step_later (bundle_credit env v t r p)"
  by (auto simp: step_later_def bundle_credit_def intro!: later_bindS later_grant)

lemma validate_later [later]:
  "step_later (point_purchase_validate env)" "step_later (membership_purchase_validate env)"
  "step_later (gift_points_validate env)" "step_later (gift_membership_validate env)"
  "step_later (refund_resolve env)"
  by (simp_all add: step_later_def point_purchase_validate_def membership_purchase_validate_def
      gift_points_validate_def gift_membership_validate_def refund_resolve_def)

lemma gift_commit_later [later]: "step_later (gift_commit env)"
  by (auto simp: step_later_def gift_commit_def intro!: later_bindS later_gifts intro: gs_commit)

lemma cycle_prepare_later [later]: "step_later (cycle_prepare env v t r)"
  by (auto simp: step_later_def cycle_prepare_def intro!: later_bindS later_members intro: mb_prepare)

lemma cycle_credit_later [later]: "step_later (cycle_credit env p)"
  by (auto simp: step_later_def cycle_credit_def intro!: later_bindS later_grant)

lemma cycle_attach_later [later]: "step_later (cycle_attach env p c)"
  by (auto simp: step_later_def cycle_attach_def intro!: later_bindS later_members
      elim!: transact_members[rotated] intro: mb_attach)

lemma tell_completed_later [later]: "step_later (tell_completed env kind)"
  by (auto simp: step_later_def tell_completed_def split: option.splits
      intro!: later_bindS later_notes)

lemma refund_terminate_later [later]: "step_later (refund_terminate env)"
  by (auto simp: step_later_def refund_terminate_def split: option.splits intro!: later_bindS later_members
      elim!: transact_members[rotated] intro: mb_terminate)

lemma refund_reverse_later [later]: "step_later (refund_reverse env)"
  by (auto simp: step_later_def refund_reverse_def intro!: later_bindS later_reverse)

lemmas steps_defs = check_in_steps_def point_purchase_steps_def membership_purchase_steps_def
  gift_points_steps_def gift_membership_steps_def refund_steps_def cycle_steps_def

definition user_steps :: "user_env \<Rightarrow> (string \<times> user_step) list list" where
  "user_steps env = [check_in_steps env, point_purchase_steps env, membership_purchase_steps env,
     gift_points_steps env, gift_membership_steps env, refund_steps env]"

lemma user_steps_later: "acts \<in> set (user_steps env) \<Longrightarrow> a \<in> set acts \<Longrightarrow> step_later (snd a)"
  by (auto simp: user_steps_def steps_defs Let_def later)

text \<open>The registry the composition root fills with the six workflows.\<close>

definition user_registry :: "user_env \<Rightarrow> (exn \<Rightarrow> string) \<Rightarrow> user_world workflow_spec registry" where
  "user_registry env message =
     \<lparr>reg_items = map (\<lambda>s. (wf_key s, s)) (user_workflow_specs env message), reg_frozen = True\<rparr>"

lemma user_registry_wf: "registry_wf (user_registry env message)"
  by (simp add: registry_wf_def user_registry_def user_workflow_specs_def user_workflow_def
      user_activity_def steps_defs refund_resolve_key_def Let_def)

lemma user_activity_later:
  assumes "registry_lookup (user_registry env message) key = Some spec" and "act \<in> set (wf_activities spec)"
  shows "world_later w (snd (run_activity act input n w))"
proof -
  from assms(1) have "spec \<in> set (user_workflow_specs env message)"
    by (auto simp: registry_lookup_def user_registry_def dget_def dest!: map_of_SomeD)
  then obtain key acts where "spec = user_workflow message key acts" "acts \<in> set (user_steps env)"
    by (auto simp: user_workflow_specs_def user_steps_def)
  with assms(2) obtain a where "act = user_activity message a" "step_later (snd a)"
    by (auto simp: user_workflow_def dest: user_steps_later)
  then show ?thesis
    by (auto simp: run_activity_def user_activity_def step_handler_def step_later_def
        split: prod.splits sum.splits) (metis snd_conv)+
qed

section \<open>The system\<close>

inductive system_step :: "user_world workflow_spec registry \<Rightarrow> user_state \<Rightarrow> user_state \<Rightarrow> bool"
  for reg :: "user_world workflow_spec registry" where
  sy_start: "start_workflow reg now key bkey input trace db = Inr (x, db') \<Longrightarrow> system_step reg db db'"
| sy_claim: "workflow_claim_due batch owner lease now (wd_instances db) = (claimed, xs)
    \<Longrightarrow> system_step reg db (db\<lparr>wd_instances := xs\<rparr>)"
| sy_once: "step_once reg now draw i db = Inr (r, db') \<Longrightarrow> system_step reg db db'"
| sy_world: "world_later (wd_world db) w \<Longrightarrow> system_step reg db (db\<lparr>wd_world := w\<rparr>)"

abbreviation system_steps :: "user_world workflow_spec registry \<Rightarrow> user_state \<Rightarrow> user_state \<Rightarrow> bool" where
  "system_steps reg \<equiv> (system_step reg)\<^sup>*\<^sup>*"

lemma step_once_world:
  assumes "step_once reg now draw i db = Inr (r, db')"
  shows "wd_world db' = wd_world db \<or> (\<exists>key spec act input n. registry_lookup reg key = Some spec
    \<and> act \<in> set (wf_activities spec) \<and> wd_world db' = snd (run_activity act input n (wd_world db)))"
  using assms
proof (cases rule: step_once_cases)
  case (run x spec step act n input)
  from run(3) have "registry_lookup reg (wi_key x) = Some spec" "act \<in> set (wf_activities spec)"
    by (auto simp: runs_step_def spec_activity_def dest: find_Some_mem)
  moreover from run(4,2) have "wd_world db' = snd (run_activity act input n (wd_world db))"
    by (cases rule: execute_step_effect) (simp add: save_instance_def)
  ultimately show ?thesis by blast
qed (auto simp: save_instance_def)

lemma system_step_later:
  assumes "system_step (user_registry env message) db db'"
  shows "world_later (wd_world db) (wd_world db')"
  using assms
proof cases
  case (sy_start now key bkey input trace x)
  then show ?thesis by (cases rule: start_workflow_cases) auto
next
  case (sy_once now draw i r)
  from step_once_world[OF this] show ?thesis by (auto intro: user_activity_later)
qed auto

lemma system_steps_later:
  "system_steps (user_registry env message) db db' \<Longrightarrow> world_later (wd_world db) (wd_world db')"
  by (induction rule: rtranclp_induct) (auto intro: world_later_trans system_step_later)

lemma system_steps_runs: "system_steps reg db db' \<Longrightarrow> workflow_steps reg db db'"
proof (induction rule: rtranclp_induct)
  case (step db1 db2)
  from step(2) have "workflow_step reg db1 db2"
    by cases (auto intro: workflow_step.intros)
  with step(3) show ?case by (rule rtranclp.rtrancl_into_rtrancl)
qed simp

text \<open>The loop of the runner and the operations of the service are made of these steps.\<close>

lemma advance_loop_system:
  assumes "advance_loop reg clock n i db = Some (r, db')"
  shows "system_steps reg db db'"
proof -
  have "\<forall>r db'. z = (r, db') \<longrightarrow> system_steps reg db db'"
    if "advance_loop reg clock n i db = Some z" for z
  proof (rule advance_loop.raw_induct[where P = "\<lambda>reg clock n i db z.
      \<forall>r db'. z = (r, db') \<longrightarrow> system_steps reg db db'", OF _ that], intro allI impI)
    fix f and reg :: "user_world workflow_spec registry" and clock n i db z r db'
    assume ih: "\<And>reg clock n i db z. f reg clock n i db = Some z \<Longrightarrow>
        \<forall>r db'. z = (r, db') \<longrightarrow> system_steps reg db db'"
      and ret: "(case step_once reg (fst (clock n)) (snd (clock n)) i db of
          Inl e \<Rightarrow> Some (Inl e, db) | Inr (Some st, db') \<Rightarrow> Some (Inr st, db')
        | Inr (None, db') \<Rightarrow> f reg clock (Suc n) i db') = Some z" and z: "z = (r, db')"
    show "system_steps reg db db'"
    proof (cases "step_once reg (fst (clock n)) (snd (clock n)) i db")
      case (Inl e)
      with ret z show ?thesis by simp
    next
      case (Inr p)
      obtain st db1 where p: "p = (st, db1)" by (cases p)
      with Inr have "system_step reg db db1" by (auto intro: sy_once)
      moreover have "system_steps reg db1 db'"
        using ret z Inr p ih[of reg clock "Suc n" i db1] by (cases st) auto
      ultimately show ?thesis by (rule converse_rtranclp_into_rtranclp)
    qed
  qed
  with assms show ?thesis by blast
qed

lemma start_run_system: "system_steps (sv_registry sv) db (snd (start_run sv key bkey input db))"
  by (auto simp: start_run_def transact_def split: sum.splits intro: sy_start)

lemma in_world_system:
  assumes "world_later (wd_world db) (snd (f (wd_world db)))"
  shows "system_steps reg db (snd (in_world f db))"
  using sy_world[OF assms, of reg] by (auto simp: in_world_def split: prod.splits)

lemma system_bindS:
  assumes "system_steps reg db (snd m)" and "\<And>x db1. m = (Inr x, db1) \<Longrightarrow> system_steps reg db1 (snd (k x db1))"
  shows "system_steps reg db (snd (bindS m k))"
proof -
  obtain r db1 where m: "m = (r, db1)" by (cases m)
  show ?thesis
  proof (cases r)
    case (Inr x)
    with assms m show ?thesis by (auto intro: rtranclp_trans)
  qed (use assms m in simp)
qed

lemma fulfill_system: "system_steps (sv_registry sv) db (snd (fulfill_captured_payment sv oid db))"
  by (auto simp: fulfill_captured_payment_def intro!: system_bindS start_run_system)

lemma redeem_system: "system_steps (sv_registry sv) db (snd (redeem_gift_card sv sid secret key platform db))"
  unfolding redeem_gift_card_def Let_def
  by (intro system_bindS start_run_system in_world_system later_gifts) (auto dest: reserve_redemption_steps)

lemma check_in_system:
  assumes "check_in sv clock sid key zone db = Some (r, db')"
  shows "system_steps (sv_registry sv) db db'"
proof -
  have s: "system_steps (sv_registry sv) db db1" if "start_run sv k b i db = (r, db1)" for k b i r db1
    using start_run_system[of sv db k b i] that by simp
  show ?thesis
    using assms by (auto simp: check_in_def Let_def advance_def split: sum.splits prod.splits option.splits
        dest!: s dest: advance_loop_system intro: rtranclp_trans)
qed

lemma place_order_system:
  assumes "\<And>t. payment_events_ok ((sv_payments sv)\<lparr>pc_now := t\<rparr>)"
  shows "system_steps reg db (snd (place_order sv c db))"
proof (cases "create_input_ok c")
  case True
  then show ?thesis
    unfolding place_order_def if_P[OF True]
    by (intro in_world_system later_payments) (auto intro: py_create assms)
qed (simp add: place_order_def)

lemma cancel_membership_system: "system_steps reg db (snd (cancel_membership sv sid reason db))"
  unfolding cancel_membership_def
  by (intro system_bindS in_world_system later_members) (auto elim!: transact_members[rotated] intro: mb_cancel)

end
