(* ===== verification/User_Samples.thy ===== *)
theory User_Samples
  imports User_System Points_Samples Payments_Properties Gift_Cards_Properties Membership_Properties
begin

text \<open>
  A small user center on which the properties are instantiated: one bundle of 100 points for 10.00,
  sold by an order or by a gift card, and the behavior of the check-in.
\<close>

definition uc_behavior :: "string \<Rightarrow> string \<Rightarrow> int option \<Rightarrow> string \<times> behavior_spec" where
  "uc_behavior key source fixed = (key, (sample_behavior key Dir_credit None)\<lparr>bs_fixed_amount := fixed,
     bs_allowed_source_types := [source, ''gift_card'']\<rparr>)"

definition uc_points_ctx :: points_ctx where
  "uc_points_ctx = (sample_ctx 0)\<lparr>px_behaviors := \<lparr>reg_items =
     [uc_behavior check_in_behavior ''user_center'' (Some 10),
      uc_behavior point_purchase_behavior ''payment'' None,
      uc_behavior membership_cycle_behavior ''membership'' None], reg_frozen = True\<rparr>\<rparr>"

definition uc_bundle :: point_bundle where
  "uc_bundle = \<lparr>pb_key = ''points.100'', pb_version = ''1'', pb_display_name = ''100 points'',
     pb_price_cents = 1000, pb_points_amount = 100, pb_available = True, pb_from = None, pb_until = None,
     pb_subject_limit = None, pb_refund_policy = ''none''\<rparr>"

definition uc_gift :: gift_fulfillment where
  "uc_gift = \<lparr>gf_key = ''card.points'', gf_payload_version = ''1'', gf_type = FT_points_bundle,
     gf_target = ''points.100'', gf_platforms = [''card_platform''], gf_from = None, gf_until = None,
     gf_subject_limit = None\<rparr>"

definition uc_env :: user_env where
  "uc_env = \<lparr>ue_points = uc_points_ctx, ue_members = member_ctx 0, ue_gifts = Some (gift_ctx_at 0),
     ue_gift_queries = True, ue_notes = None,
     ue_bundles = \<lparr>reg_items = [(''points.100'', uc_bundle)], reg_frozen = True\<rparr>,
     ue_offers = \<lparr>reg_items = [], reg_frozen = True\<rparr>,
     ue_fulfillments = \<lparr>reg_items = [(''card.points'', uc_gift)], reg_frozen = True\<rparr>\<rparr>"

definition uc_message :: "exn \<Rightarrow> string" where
  "uc_message e = ''failed''"

definition uc_service :: user_service where
  "uc_service = \<lparr>sv_env = uc_env, sv_payments = sample_pay_ctx, sv_gifts = gift_ctx_at 0,
     sv_zone_date = (\<lambda>zone now. Inr ''2026-01-01''), sv_registry = user_registry uc_env uc_message\<rparr>"

definition uc_start :: user_world where
  "uc_start = \<lparr>uw_now = 0, uw_points = sample_db, uw_members = member_boot,
     uw_payments = empty_payments_db, uw_gifts = empty_gift_db, uw_notes = empty_notification_db\<rparr>"

section \<open>A paid order and a reserved card\<close>

definition uc_order_input :: create_order_input where
  "uc_order_input = \<lparr>co_subject_type = ''identity'', co_subject_id = ''7'', co_provider_key = ''epay'',
     co_offer_key = ''points.100'', co_offer_version = ''1'', co_description = ''100 points'',
     co_amount = 1000, co_currency = ''CNY'', co_idempotency_key = ''k1''\<rparr>"

definition uc_created :: payments_db where
  "uc_created = paid_after (create_payment_order sample_pay_ctx uc_order_input empty_payments_db)"

definition uc_pending :: payments_db where
  "uc_pending = paid_after (start_attempt_commit sample_pay_ctx 1 sample_session uc_created)"

definition uc_captured :: payments_db where
  "uc_captured = snd (webhook_transaction sample_pay_ctx ''epay'' ''d'' (sample_event ''e1'' WK_capture 1000)
     uc_pending)"

definition uc_refunded :: payments_db where
  "uc_refunded = paid_after (request_refund_commit sample_pay_ctx 1 (sample_refund 300 ''a'')
     \<lparr>pr_ref = ''rf'', pr_state = RF_completed\<rparr> uc_captured)"

definition uc_order :: order_dto where
  "uc_order = \<lparr>od_id = ''1'', od_subject_type = ''identity'', od_subject_id = ''7'', od_provider_key = ''epay'',
     od_order_reference = ''ord_r1'', od_idempotency_key = ''k1'', od_offer_key = ''points.100'',
     od_offer_version = ''1'', od_description = ''100 points'', od_amount = 1000, od_state = OS_captured,
     od_captured_amount = 1000, od_refunded_amount = 0, od_created_at = 100\<rparr>"

definition uc_batched :: gift_db where
  "uc_batched = (case generate_batch (gift_ctx_at 0) (gift_batch_request\<lparr>gi_fulfillment_key := ''card.points''\<rparr>)
     empty_gift_db of None \<Rightarrow> empty_gift_db | Some r \<Rightarrow> gift_after r)"

definition uc_reserved :: gift_db where
  "uc_reserved = gift_after (reserve_redemption (gift_ctx_at 10)
     ((gift_request ''t0'' ''k1'')\<lparr>rv_subject_type := ''identity'', rv_subject_id := ''7''\<rparr>) uc_batched)"

definition uc_world :: user_world where
  "uc_world = uc_start\<lparr>uw_now := seconds 1000, uw_payments := uc_captured, uw_gifts := uc_reserved\<rparr>"

definition uc_db :: user_state where
  "uc_db = (empty_workflow_db uc_start)\<lparr>wd_world := uc_world\<rparr>"

lemma uc_payments: "payments_steps empty_payments_db uc_captured" "payments_step uc_captured uc_refunded"
proof -
  have ok: "\<not> isl (create_payment_order sample_pay_ctx uc_order_input empty_payments_db)"
    "\<not> isl (start_attempt_commit sample_pay_ctx 1 sample_session uc_created)"
    "\<not> isl (request_refund_commit sample_pay_ctx 1 (sample_refund 300 ''a'')
       \<lparr>pr_ref = ''rf'', pr_state = RF_completed\<rparr> uc_captured)" by code_simp+
  have inp: "create_input_ok uc_order_input" by (simp add: create_input_ok_def uc_order_input_def)
  obtain x where "create_payment_order sample_pay_ctx uc_order_input empty_payments_db = Inr (x, uc_created)"
    using committed[OF ok(1)] unfolding uc_created_def by blast
  then have "payments_step empty_payments_db uc_created" by (rule py_create[OF sample_pay_ctx_ok inp])
  moreover obtain y where "start_attempt_commit sample_pay_ctx 1 sample_session uc_created = Inr (y, uc_pending)"
    using committed[OF ok(2)] unfolding uc_pending_def by blast
  then have "payments_step uc_created uc_pending" by (rule py_start[OF sample_pay_ctx_ok])
  moreover have "payments_step uc_pending uc_captured" unfolding uc_captured_def by (rule pay_webhook_step)
  ultimately show "payments_steps empty_payments_db uc_captured"
    by (meson rtranclp.rtrancl_refl rtranclp.rtrancl_into_rtrancl)
  from committed[OF ok(3)] obtain x where "request_refund_commit sample_pay_ctx 1 (sample_refund 300 ''a'')
       \<lparr>pr_ref = ''rf'', pr_state = RF_completed\<rparr> uc_captured = Inr (x, uc_refunded)"
    unfolding uc_refunded_def by blast
  moreover have "refund_input_ok (sample_refund 300 ''a'')" by (simp add: sample_refund_ok)
  ultimately show "payments_step uc_captured uc_refunded" by (intro py_refund[OF sample_pay_ctx_ok])
qed

lemma uc_gifts: "gift_steps empty_gift_db uc_reserved"
proof -
  let ?i = "gift_batch_request\<lparr>gi_fulfillment_key := ''card.points''\<rparr>"
  have run: "\<not> Option.is_none (generate_batch (gift_ctx_at 0) ?i empty_gift_db)"
    "\<not> isl (the (generate_batch (gift_ctx_at 0) ?i empty_gift_db))"
    "\<not> isl (reserve_redemption (gift_ctx_at 10) ((gift_request ''t0'' ''k1'')
       \<lparr>rv_subject_type := ''identity'', rv_subject_id := ''7''\<rparr>) uc_batched)"
    "generate_input_ok ?i" by code_simp+
  from run(1) obtain g where g: "generate_batch (gift_ctx_at 0) ?i empty_gift_db = Some g"
    by (auto simp: Option.is_none_def)
  with run(2) have "\<exists>x. g = Inr (x, uc_batched)" using gift_after_Inr[of g] by (simp add: uc_batched_def)
  with g run(4) have "gift_step empty_gift_db uc_batched" by (auto intro: gs_generate)
  moreover from gift_after_Inr[OF run(3)] have "gift_steps uc_batched uc_reserved"
    unfolding uc_reserved_def by (auto intro: reserve_redemption_steps)
  ultimately show ?thesis by (rule converse_rtranclp_into_rtranclp)
qed

lemma uc_reached: "system_steps (sv_registry uc_service) (empty_workflow_db uc_start) uc_db"
proof -
  have "notes_later uc_start uc_world"
    unfolding notes_later_def
  proof (intro allI impI)
    fix t assume "t \<le> uw_now uc_start"
    then show "\<exists>t'\<le>uw_now uc_world. notification_step\<^sup>*\<^sup>* (t, uw_notes uc_start) (t', uw_notes uc_world)"
      by (intro exI[of _ t]) (simp add: uc_world_def uc_start_def seconds_def)
  qed
  then have "world_later uc_start uc_world"
    using uc_payments(1) uc_gifts by (simp add: world_later_def uc_world_def uc_start_def seconds_def)
  then show ?thesis
    unfolding uc_db_def by (intro r_into_rtranclp sy_world) (simp add: empty_workflow_db_def)
qed

lemma uc_registry: "sv_registry uc_service = user_registry (sv_env uc_service) uc_message"
  by (simp add: uc_service_def)

lemma uc_start_initial:
  "points_initial (uw_points uc_start)" "uw_payments uc_start = empty_payments_db"
  "membership_booted (uw_members uc_start)" "uw_gifts uc_start = empty_gift_db"
  "uw_notes uc_start = empty_notification_db"
  using member_booted by (simp_all add: uc_start_def points_initial_def sample_db_def)

end
