(* ===== verification/User_Properties.thy ===== *)
theory User_Properties
  imports User_Samples
begin

text \<open>
  The properties of the user center, each with a run of the composed system as its witness.
\<close>

section \<open>The composition keeps what the capabilities promise\<close>

lemma reached_points:
  assumes "system_steps (user_registry env message) (empty_workflow_db w0) db" and "points_initial (uw_points w0)"
  shows "points_inv (uw_points (wd_world db))" and "ledger_once (uw_points (wd_world db))"
proof -
  have "points_reachable (uw_points (wd_world db))"
    using points_run[of "uw_points w0" "uw_points (wd_world db)"] system_steps_later[OF assms(1)]
      points_reachable.init[OF assms(2)]
    by (simp add: world_later_def empty_workflow_db_def)
  then show "points_inv (uw_points (wd_world db))" "ledger_once (uw_points (wd_world db))"
    using points_reachable_inv by blast+
qed

lemma reached_payments:
  assumes "system_steps (user_registry env message) (empty_workflow_db w0) db"
    and "uw_payments w0 = empty_payments_db"
  shows "payments_inv (uw_payments (wd_world db))"
  using payments_inv_steps[OF _ payments_inv_empty] system_steps_later[OF assms(1)] assms(2)
  by (simp add: world_later_def empty_workflow_db_def)

lemma composed_invariants:
  assumes "system_steps (user_registry env message) (empty_workflow_db w0) db"
    and "points_initial (uw_points w0)" and "membership_booted (uw_members w0)"
    and "uw_payments w0 = empty_payments_db" and "uw_gifts w0 = empty_gift_db"
    and "uw_notes w0 = empty_notification_db"
  shows "points_inv (uw_points (wd_world db)) \<and> ledger_once (uw_points (wd_world db))
    \<and> membership_inv (uw_members (wd_world db)) \<and> payments_inv (uw_payments (wd_world db))
    \<and> gift_inv (uw_gifts (wd_world db))
    \<and> (\<exists>t\<le>uw_now (wd_world db). notification_inv (t, uw_notes (wd_world db)))
    \<and> workflow_inv (user_registry env message) db"
proof -
  have later: "world_later w0 (wd_world db)"
    using system_steps_later[OF assms(1)] by (simp add: empty_workflow_db_def)
  note reached_points[OF assms(1,2)]
  moreover have "membership_inv (uw_members (wd_world db))"
    using membership_reachable[OF assms(3)] later by (simp add: world_later_def)
  moreover have "payments_inv (uw_payments (wd_world db))" by (rule reached_payments[OF assms(1,4)])
  moreover have "gift_inv (uw_gifts (wd_world db))"
    using gift_reachable later assms(5) by (simp add: world_later_def)
  moreover have "\<exists>t\<le>uw_now (wd_world db). notification_inv (t, uw_notes (wd_world db))"
  proof -
    from later assms(6) obtain t where t: "t \<le> uw_now (wd_world db)"
      and steps: "notification_step\<^sup>*\<^sup>* (uw_now w0, empty_notification_db) (t, uw_notes (wd_world db))"
      unfolding world_later_def notes_later_def by auto
    from steps have "notification_reachable (t, uw_notes (wd_world db))"
      by (induction rule: rtranclp_induct) (auto intro: notification_reachable.intros)
    with t show ?thesis by (blast intro: notification_inv_reachable)
  qed
  moreover have "workflow_inv (user_registry env message) db"
    by (rule workflow_inv_steps[OF system_steps_runs[OF assms(1)] workflow_inv_empty])
  ultimately show ?thesis by blast
qed



section \<open>The script of a point purchase\<close>

definition order_run :: "order_dto \<Rightarrow> dict" where
  "order_run order = [(''order_id'', JStr (od_id order)), (''subject_id'', JStr (od_subject_id order))]"

definition purchase_credit :: "order_dto \<Rightarrow> point_bundle \<Rightarrow> credit_debit_input" where
  "purchase_credit order b = \<lparr>ci_subject_type = ''identity'', ci_subject_id = od_subject_id order,
     ci_amount = pb_points_amount b, ci_source_type = ''payment'', ci_source_id = od_id order,
     ci_idempotency_key = ''payment-order:'' @ od_id order @ '':points'', ci_actor_type = ''system'',
     ci_actor_id = None, ci_metadata = [(''product_key'', JStr (pb_key b))], ci_expires_at = None\<rparr>"

text \<open>The message about a purchase reads nothing but the input of the workflow.\<close>

definition tell_purchase :: "user_env \<Rightarrow> order_dto \<Rightarrow> user_world \<Rightarrow> (exn + dict) \<times> user_world" where
  "tell_purchase env order w =
     tell_completed env ''point_purchase'' [(''workflow'', JObj (order_run order)), (''state'', JObj [])] w"

lemma tell_purchase_eq:
  "tell_completed env ''point_purchase'' [(''workflow'', JObj (order_run order)), (''state'', st)] w
    = tell_purchase env order w"
  by (cases "ue_notes env")
    (simp_all add: tell_purchase_def tell_completed_def completed_request_def workflow_input_def field_def)

lemma tell_no_wait: "tell_completed env kind data w = (Inr r, w') \<Longrightarrow> wait_request r = Inr None"
  by (auto simp: tell_completed_def wait_request_def cmd_ok split: option.splits)

definition purchase_spec :: "(exn \<Rightarrow> string) \<Rightarrow> user_env \<Rightarrow> user_world workflow_spec" where
  "purchase_spec message env = user_workflow message point_purchase_workflow_key (point_purchase_steps env)"

lemmas workflow_keys_defs = check_in_workflow_key_def point_purchase_workflow_key_def
  membership_purchase_workflow_key_def gift_points_workflow_key_def gift_membership_workflow_key_def
  refund_workflow_key_def

lemma user_registry_lookup:
  "registry_lookup (user_registry env message) point_purchase_workflow_key = Some (purchase_spec message env)"
  "registry_lookup (user_registry env message) refund_workflow_key
    = Some (user_workflow message refund_workflow_key (refund_steps env))"
  "registry_lookup (user_registry env message) check_in_workflow_key
    = Some (user_workflow message check_in_workflow_key (check_in_steps env))"
  "registry_lookup (user_registry env message) gift_points_workflow_key
    = Some (user_workflow message gift_points_workflow_key (gift_points_steps env))"
  by (simp_all add: registry_lookup_def user_registry_def user_workflow_specs_def user_workflow_def
      purchase_spec_def workflow_keys_defs)

declare run_script.simps(2) [simp del]

lemma user_script_Cons [simp]:
  "run_script input (user_activity message a # acts) st w =
     (case snd a [(''workflow'', JObj input), (''state'', JObj st)] w of
        (Inl e, w') \<Rightarrow> Some (Inl (e, should_retry default_retry_policy (classify_retry e) 1), w')
      | (Inr r, w') \<Rightarrow> if wait_request r = Inr None
          then run_script input acts (dset (fst a) (JObj r) st) w' else None)"
  by (auto simp: run_script.simps(2) run_activity_def user_activity_def step_handler_def
      split: prod.splits sum.splits)

lemma order_row_id:
  assumes "get_order_dto db i = Inr (Some order)"
  shows "od_id order = show_nat i"
  using assms by (auto simp: get_order_dto_def optional_dto_def to_order_def get_order_def cmd_ok
      split: option.splits dest: find_Some_mem)

text \<open>An order that the purchase workflow accepts, for the bundle \<open>b\<close> of the current catalog.\<close>

definition order_for :: "user_env \<Rightarrow> user_world \<Rightarrow> nat \<Rightarrow> order_dto \<Rightarrow> point_bundle \<Rightarrow> bool" where
  "order_for env w i order b \<longleftrightarrow> get_order_dto (uw_payments w) i = Inr (Some order)
     \<and> od_subject_type order = ''identity'' \<and> paid_state (od_state order)
     \<and> registry_lookup (ue_bundles env) (od_offer_key order) = Some b \<and> pb_key b = od_offer_key order
     \<and> od_offer_version order = pb_version b \<and> od_amount order = pb_price_cents b"

lemma point_purchase_script:
  assumes order: "order_for env w i order b" and valid: "valid_credit_debit_input (purchase_credit order b)"
    and credit: "credit_points (points_at env w) point_purchase_behavior (purchase_credit order b) (uw_points w) = Inr (e, p)"
    and told: "tell_purchase env order (w\<lparr>uw_points := p\<rparr>) = (Inr n, w2)"
  shows "\<exists>st. run_script (order_run order) (wf_activities (purchase_spec message env)) [] w = Some (Inr st, w2)"
proof -
  note od = order[unfolded order_for_def]
  have id: "row_key (od_id order) = Inr i" using order_row_id[of "uw_payments w" i order] od by (simp add: row_key_def)
  let ?v = "''user_center.point_purchase.validate_captured.v1''"
  have "point_purchase_validate env [(''workflow'', JObj (order_run order)), (''state'', JObj [])] w
      = (Inr (bundle_result b), w)"
    using od id by (simp add: point_purchase_validate_def workflow_input_def field_def paid_order_of_def
        text_field_def order_run_def catalog_require_def match_order_def)
  moreover have "bundle_credit env ?v ''payment'' ''order_id'' ''payment-order:''
      [(''workflow'', JObj (order_run order)), (''state'', JObj [(?v, JObj (bundle_result b))])] w
      = (Inr (entry_result e), w\<lparr>uw_points := p\<rparr>)"
    using valid credit
    by (simp add: bundle_credit_def bundle_input_def workflow_input_def field_def text_field_def int_field_def
        prior_result_def order_run_def bundle_result_def grant_def on_points_def purchase_credit_def)
  moreover have "wait_request (bundle_result b) = Inr None" "wait_request (entry_result e) = Inr None"
    by (simp_all add: wait_request_def bundle_result_def entry_result_def)
  moreover have "tell_completed env ''point_purchase'' [(''workflow'', JObj (order_run order)), (''state'', st)]
      (w\<lparr>uw_points := p\<rparr>) = (Inr n, w2)" for st
    by (simp add: tell_purchase_eq told)
  moreover have "wait_request n = Inr None" using told unfolding tell_purchase_def by (rule tell_no_wait)
  ultimately show ?thesis
    by (simp add: purchase_spec_def user_workflow_def point_purchase_steps_def dset_def)
qed

section \<open>Runs from start to end\<close>

text \<open>
  A run that is new is started and advanced to where its script ends; under the same key it is found
  again, and once it ended it stays as it is.
\<close>

definition run_ended ::
    "user_service \<Rightarrow> string \<Rightarrow> string \<Rightarrow> workflow_instance \<Rightarrow> exn \<times> bool + dict \<Rightarrow> user_state \<Rightarrow> bool" where
  "run_ended sv key bkey y r db \<longleftrightarrow> wi_status y = script_status r \<and> (\<forall>st. r = Inr st \<longrightarrow> wi_state y = st)
     \<and> (\<forall>db'. system_steps (sv_registry sv) db db' \<longrightarrow> find_by_business_key db' key bkey = Some y
          \<and> (\<forall>input. start_run sv key bkey input db' = (Inr y, db'))
          \<and> (\<forall>clock. advance (sv_registry sv) clock (wi_id y) db' = Some (Inr (script_status r), db')))"

lemma run_ended_later: "run_ended sv key bkey y r db \<Longrightarrow> system_steps (sv_registry sv) db db' \<Longrightarrow> run_ended sv key bkey y r db'"
  unfolding run_ended_def by (meson rtranclp_trans)

lemma script_status_Inr: "script_status (Inr st) \<noteq> WF_pending"
  by (simp add: script_status_def)

lemma run_to_end:
  assumes reg: "sv_registry sv = user_registry env message" and inv: "workflow_inv (sv_registry sv) db"
    and spec: "registry_lookup (sv_registry sv) key = Some spec" "wf_activities spec \<noteq> []"
    and new: "find_by_business_key db key bkey = None"
    and script: "run_script input (wf_activities spec) [] (wd_world db) = Some (r, w')"
  obtains x db1 db2 y where "start_run sv key bkey input db = (Inr x, db1)"
    and "advance (sv_registry sv) clock (wi_id x) db1 = Some (Inr (script_status r), db2)"
    and "wd_world db2 = w'" and "workflow_inv (sv_registry sv) db2" and "system_steps (sv_registry sv) db db2"
    and "wi_id y = wi_id x" and "find_by_business_key db2 key bkey = Some y"
    and "script_status r \<noteq> WF_pending \<Longrightarrow> run_ended sv key bkey y r db2"
    and "script_left r [] (wf_activities spec) (wi_state y)"
proof -
  let ?reg = "sv_registry sv"
  define x where "x = new_instance (wd_next_id db) spec key bkey input None (uw_now (wd_world db))"
  define db1 where "db1 = db\<lparr>wd_instances := wd_instances db @ [x], wd_next_id := Suc (wd_next_id db)\<rparr>"
  have start: "start_workflow ?reg (uw_now (wd_world db)) key bkey input None db = Inr (x, db1)"
    using spec new by (simp add: start_workflow_def workflow_require_def x_def db1_def Let_def)
  have wf: "registry_wf ?reg" unfolding reg by (rule user_registry_wf)
  obtain db2 y where adv: "advance ?reg clock (wi_id x) db1 = Some (Inr (script_status r), db2)"
    and y: "wd_world db2 = w'" "get_instance db2 (wi_id x) = Some y" "wi_status y = script_status r"
      "script_left r [] (wf_activities spec) (wi_state y)"
    using advance_script[OF inv wf spec(1) new start script, of clock] by blast
  have run: "start_run sv key bkey input db = (Inr x, db1)" by (simp add: start_run_def start)
  have s1: "system_steps ?reg db db1" using start_run_system[of sv db key bkey input] run by simp
  have s2: "system_steps ?reg db1 db2" using adv unfolding advance_def by (rule advance_loop_system)
  have inv1: "workflow_inv ?reg db1" by (rule workflow_inv_start[OF inv start])
  have inv2: "workflow_inv ?reg db2" by (rule workflow_inv_steps[OF system_steps_runs[OF s2] inv1])
  have "find_by_business_key db1 key bkey = Some x"
    using new by (simp add: find_by_business_key_def db1_def find_append x_def new_instance_def)
  then have "started db1 (key, bkey) (wi_id x)" by (simp add: started_def)
  from starts.recorded_steps[OF system_steps_runs[OF s2] inv1 this] obtain z
    where z: "find_by_business_key db2 key bkey = Some z" "wi_id z = wi_id x" by (auto simp: started_def)
  from found_by_key_get[OF inv2 z(1)] z(2) y(2) have "z = y" by simp
  note found = z(1)[unfolded this] and id = z(2)[unfolded this]
  have ended: "terminal_status (wi_status y)" if "script_status r \<noteq> WF_pending"
    using that by (auto simp: y(3) script_status_def terminal_status_def split: sum.splits if_splits)
  have known: "registry_lookup ?reg key \<noteq> None" using spec by simp
  have "run_ended sv key bkey y r db2" if stop: "script_status r \<noteq> WF_pending"
    unfolding run_ended_def
  proof (intro conjI allI impI)
    fix db' input clock assume later: "system_steps ?reg db2 db'"
    note stays = ended_workflow_stays[OF inv2 system_steps_runs[OF later] found ended[OF stop] known]
    from stays(1) show "start_run sv key bkey input db' = (Inr y, db')" by (simp add: start_run_def)
    from stays(2) show "advance ?reg clock (wi_id y) db' = Some (Inr (script_status r), db')" by (simp add: y(3))
    have "start_workflow ?reg 0 key bkey [] None db' = Inr (y, db')" by (rule stays(1))
    then show "find_by_business_key db' key bkey = Some y"
    proof (cases rule: start_workflow_cases)
      case (fresh spec')
      then have "length (wd_instances db') = Suc (length (wd_instances db'))"
        by (metis length_append_singleton workflow_db.select_convs(1) workflow_db.update_convs(1,4)
            workflow_db.surjective)
      then show ?thesis by simp
    qed simp
  qed (use y in \<open>auto simp: script_left_def\<close>)
  with run adv y(1,4) inv2 rtranclp_trans[OF s1 s2] id found that show thesis by blast
qed

section \<open>A captured payment is fulfilled\<close>

definition fulfilled_key :: "order_dto \<Rightarrow> string" where
  "fulfilled_key order = ''payment-order:'' @ od_id order @ '':captured''"

definition points_order :: "user_service \<Rightarrow> nat \<Rightarrow> order_dto \<Rightarrow> user_world \<Rightarrow> bool" where
  "points_order sv i order w \<longleftrightarrow> get_order_dto (uw_payments w) i = Inr (Some order)
     \<and> od_offer_key order \<in> set (map pb_key (catalog_specs (ue_bundles (sv_env sv))))"

lemma order_for_points_order: "order_for (sv_env sv) w i order b \<Longrightarrow> points_order sv i order w"
  by (force simp: order_for_def points_order_def catalog_specs_def registry_lookup_def dget_def
      dest: map_of_SomeD)

lemma fulfill_starts:
  assumes "points_order sv i order (wd_world db)" and "row_key oid = Inr i"
  shows "fulfill_captured_payment sv oid db
    = start_run sv point_purchase_workflow_key (fulfilled_key order) (order_run order) db"
  using assms
  by (simp add: fulfill_captured_payment_def fulfilling_workflow_def fulfilled_key_def order_run_def
      points_order_def)

text \<open>An order stays that of the same product and the same subject.\<close>

lemma points_order_later:
  assumes "payments_steps (uw_payments w) (uw_payments w')" and "payments_inv (uw_payments w)"
    and "points_order sv i order w"
  obtains order' where "points_order sv i order' w'" and "od_id order' = od_id order"
    and "order_run order' = order_run order"
proof -
  from assms(3) obtain po where po: "get_order (uw_payments w) i = Some po" "to_order po = Inr order"
    by (auto simp: points_order_def get_order_dto_def optional_dto_def cmd_ok split: option.splits)
  from steps_move_orders[OF assms(1,2) po(1)] obtain po'
    where po': "get_order (uw_payments w') i = Some po'" "same_order po po'" by blast
  from po(2) po'(2) obtain order' where "to_order po' = Inr order'" "od_id order' = od_id order"
    "od_subject_id order' = od_subject_id order" "od_offer_key order' = od_offer_key order"
    by (auto simp: to_order_def same_order_def cmd_ok)
  with po'(1) assms(3) show thesis
    by (intro that[of order']) (simp_all add: points_order_def get_order_dto_def optional_dto_def order_run_def)
qed

lemma fulfill_again:
  assumes reg: "sv_registry sv = user_registry env message"
    and ended: "run_ended sv point_purchase_workflow_key (fulfilled_key order) y r db"
    and order: "points_order sv i order (wd_world db)" and oid: "row_key oid = Inr i"
    and inv: "payments_inv (uw_payments (wd_world db))" and later: "system_steps (sv_registry sv) db db'"
  shows "fulfill_captured_payment sv oid db' = (Inr y, db')"
proof -
  have "payments_steps (uw_payments (wd_world db)) (uw_payments (wd_world db'))"
    using system_steps_later[OF later[unfolded reg]] by (simp add: world_later_def)
  from points_order_later[OF this inv order] obtain order'
    where o: "points_order sv i order' (wd_world db')" "od_id order' = od_id order"
      "order_run order' = order_run order" by metis
  from fulfill_starts[OF o(1) oid] o(2) ended later show ?thesis
    by (simp add: run_ended_def fulfilled_key_def)
qed

text \<open>What a credit that changes something adds, and to whose account.\<close>

definition owner_row :: "points_account \<Rightarrow> nat \<times> string \<times> string" where
  "owner_row a = (ac_id a, ac_subject_type a, ac_subject_id a)"

lemma apply_balance_owners:
  assumes "apply_balance acc n neg db = Inr (v, db')"
  shows "map owner_row (pd_accounts db') = map owner_row (pd_accounts db)"
  using assms
  by (auto simp: apply_balance_def write_balance_def cas_balance_def sync_account_state_def Let_def cmd_ok
      owner_row_def split: if_splits intro!: map_update_where')

lemma bucket_accounts:
  "bucket_target now acc bt ident expires db = Inr (b, db') \<Longrightarrow> pd_accounts db' = pd_accounts db"
  "add_to_bucket b n db = Inr db' \<Longrightarrow> pd_accounts db' = pd_accounts db"
  by (auto simp: bucket_target_def add_to_bucket_def cas_bucket_def Let_def cmd_ok
      split: option.splits if_splits)

lemma credit_owner:
  assumes inv: "points_inv db" and ok: "credit_in_uow ctx key i db = Inr (dto, db')"
    and "require_behavior ctx key = Inr spec" and prog: "find_program db (bs_program_key spec) = Some prog"
    and "find_idempotent db (pr_id prog) (ci_idempotency_key i) = None"
  shows "(ld_account_id dto, ci_subject_type i, ci_subject_id i) \<in> owner_row ` set (pd_accounts db')"
proof -
  obtain prog' where dir: "bs_direction spec = Dir_credit"
    and src: "List.member (bs_allowed_source_types spec) (ci_source_type i)"
    and "require_program db (bs_program_key spec) = Inr prog'"
    using ok assms(3) by (auto simp: credit_in_uow_def cmd_ok)
  with prog have req: "require_program db (bs_program_key spec) = Inr prog"
    by (auto simp: require_program_def split: option.splits if_splits)
  obtain acc db1 where ens: "ensure_account ctx prog (ci_subject_type i) (ci_subject_id i) db = Inr (acc, db1)"
    and active: "ac_state acc \<noteq> AC_frozen"
    using ok assms(3,5) dir src req by (auto simp: credit_in_uow_def cmd_ok)
  obtain bt ident expires bucket db2 v db3 db4 e db5 where
    routing: "credit_routing spec (px_now ctx) (ci_expires_at i) = (bt, ident, expires)"
    and target: "bucket_target (px_now ctx) (ac_id acc) bt ident expires db1 = Inr (bucket, db2)"
    and bal: "apply_balance (ac_id acc) (ci_amount i) True db2 = Inr (v, db3)"
    and add: "(if 0 < bucket_delta v (ci_amount i)
        then add_to_bucket bucket (bucket_delta v (ci_amount i)) db3 else Inr db3) = Inr db4"
    and e: "e = credit_entry ctx spec prog acc i bt ident expires db4"
    and ins: "insert_entry ''points.duplicate_credit'' e db4 = Inr db5"
    and emit: "points_emit ctx ''points.credited.v1'' acc prog
        (amount_values e v @ source_values spec i) db5 = Inr db'"
    and dto: "dto = to_entry e (pr_key prog)"
    using ok assms(3,5) dir src req ens active
    by (auto simp: credit_in_uow_def cmd_ok Let_def split: prod.splits)
  note en = ensure_account_Inr[OF inv ens]
  have "pd_accounts db2 = pd_accounts db1" "pd_accounts db4 = pd_accounts db3" "pd_accounts db' = pd_accounts db4"
    using bucket_accounts(1)[OF target] bucket_accounts(2) add ins points_emit_same[OF emit]
    by (auto simp: insert_entry_def cmd_ok same_tables_def split: if_splits)
  with apply_balance_owners[OF bal]
  have "owner_row ` set (pd_accounts db') = owner_row ` set (pd_accounts db1)"
    by (metis list.set_map)
  moreover have "owner_row acc \<in> owner_row ` set (pd_accounts db1)" using en(1) by (simp add: opened_def)
  moreover have "owner_row acc = (ld_account_id dto, ci_subject_type i, ci_subject_id i)"
    by (simp add: owner_row_def en dto e to_entry_def credit_entry_def)
  ultimately show ?thesis by simp
qed

definition credited :: "string \<Rightarrow> string \<Rightarrow> int \<Rightarrow> ledger_entry \<Rightarrow> points_db \<Rightarrow> points_db \<Rightarrow> bool" where
  "credited subject key n e p p' \<longleftrightarrow> pd_entries p' = pd_entries p @ [e] \<and> en_type e = EN_credit
     \<and> en_amount e = n \<and> en_idempotency_key e = Some key
     \<and> (en_account e, ''identity'', subject) \<in> owner_row ` set (pd_accounts p')
     \<and> balance_of p' = (balance_of p)(en_account e := balance_of p (en_account e) + n)"

lemma credit_credited:
  assumes "points_inv p" and "0 < ci_amount i" and "credit_points ctx key i p = Inr (dto, p')"
    and "p' \<noteq> p" and "ci_subject_type i = ''identity''"
  obtains e where "ld_id dto = en_id e"
    and "credited (ci_subject_id i) (ci_idempotency_key i) (ci_amount i) e p p'"
proof -
  note ok = assms(3)[unfolded credit_points_def]
  show thesis
  proof (cases rule: credit_effect[OF assms(1,2) ok])
    case (2 spec prog acc db1 e)
    from credit_owner[OF assms(1) ok 2(1-3)] 2(4-9) assms(5) show thesis
      by (intro that[of e]) (auto simp: credited_def posted_def to_entry_def)
  qed (use assms(4) in simp)
qed

lemma tell_keeps:
  assumes "tell_completed env kind data w = (r, w')"
  shows "uw_points w' = uw_points w" and "uw_payments w' = uw_payments w"
  using assms by (auto simp: tell_completed_def on_notes_def bindS_def split: option.splits sum.splits prod.splits)

text \<open>
  C2. A captured payment is fulfilled, once. In every state the composed system reaches, take a paid
  order of a bundle of the catalog whose purchase workflow has not been started, for which the credit
  is granted and the message can be sent. Then handling the captured event starts the workflow, and
  advancing it completes: the account of the subject gets one new credit of the points of the bundle,
  its balance rises by them, and the payments stay as they are. Whatever happens later, handling the
  event again finds the same run, and advancing that changes nothing.
\<close>

theorem captured_payment_fulfilled:
  assumes reg: "sv_registry sv = user_registry (sv_env sv) message"
    and reached: "system_steps (sv_registry sv) (empty_workflow_db w0) db"
    and points: "points_initial (uw_points w0)" and payments: "uw_payments w0 = empty_payments_db"
    and order: "order_for (sv_env sv) (wd_world db) i order b" and oid: "row_key oid = Inr i"
    and new: "find_by_business_key db point_purchase_workflow_key (fulfilled_key order) = None"
    and valid: "valid_credit_debit_input (purchase_credit order b)"
    and credit: "credit_points (points_at (sv_env sv) (wd_world db)) point_purchase_behavior
        (purchase_credit order b) (uw_points (wd_world db)) = Inr (dto, p)" "p \<noteq> uw_points (wd_world db)"
    and told: "tell_purchase (sv_env sv) order ((wd_world db)\<lparr>uw_points := p\<rparr>) = (Inr n, w)"
  shows "\<exists>x db1 db2 e. fulfill_captured_payment sv oid db = (Inr x, db1)
    \<and> advance (sv_registry sv) clock (wi_id x) db1 = Some (Inr WF_completed, db2)
    \<and> credited (od_subject_id order) (''payment-order:'' @ od_id order @ '':points'') (pb_points_amount b) e
        (uw_points (wd_world db)) (uw_points (wd_world db2))
    \<and> uw_payments (wd_world db2) = uw_payments (wd_world db)
    \<and> (\<forall>db'. system_steps (sv_registry sv) db2 db' \<longrightarrow>
         (\<exists>y. fulfill_captured_payment sv oid db' = (Inr y, db') \<and> wi_id y = wi_id x)
         \<and> (\<forall>clock. advance (sv_registry sv) clock (wi_id x) db' = Some (Inr WF_completed, db')))"
proof -
  note reached' = reached[unfolded reg]
  note inv = reached_points[OF reached' points] reached_payments[OF reached' payments]
    workflow_inv_steps[OF system_steps_runs[OF reached] workflow_inv_empty]
  from point_purchase_script[OF order valid credit(1) told] obtain st where script:
    "run_script (order_run order) (wf_activities (purchase_spec message (sv_env sv))) [] (wd_world db)
      = Some (Inr st, w)" by blast
  have spec: "registry_lookup (sv_registry sv) point_purchase_workflow_key = Some (purchase_spec message (sv_env sv))"
    "wf_activities (purchase_spec message (sv_env sv)) \<noteq> []"
    by (simp_all add: reg user_registry_lookup purchase_spec_def user_workflow_def point_purchase_steps_def)
  from run_to_end[OF reg inv(4) spec new script, of clock] obtain x db1 db2 y
    where run: "start_run sv point_purchase_workflow_key (fulfilled_key order) (order_run order) db = (Inr x, db1)"
      "advance (sv_registry sv) clock (wi_id x) db1 = Some (Inr (script_status (Inr st)), db2)"
      "wd_world db2 = w" and ended: "system_steps (sv_registry sv) db db2" "wi_id y = wi_id x"
      "run_ended sv point_purchase_workflow_key (fulfilled_key order) y (Inr st) db2"
    by (metis script_status_Inr)
  note told' = tell_keeps[OF told[unfolded tell_purchase_def]]
  have "0 < pb_points_amount b" using valid by (simp add: valid_credit_debit_input_def purchase_credit_def)
  then obtain e where e: "credited (od_subject_id order) (''payment-order:'' @ od_id order @ '':points'')
      (pb_points_amount b) e (uw_points (wd_world db)) (uw_points (wd_world db2))"
    using credit_credited[OF inv(1) _ credit] by (auto simp: purchase_credit_def run(3) told')
  note po = order_for_points_order[OF order]
  have pay: "uw_payments (wd_world db2) = uw_payments (wd_world db)" by (simp add: run(3) told')
  with po have po2: "points_order sv i order (wd_world db2)" by (simp add: points_order_def)
  have again: "(\<exists>y. fulfill_captured_payment sv oid db' = (Inr y, db') \<and> wi_id y = wi_id x)
      \<and> (\<forall>clock. advance (sv_registry sv) clock (wi_id x) db' = Some (Inr WF_completed, db'))"
    if later: "system_steps (sv_registry sv) db2 db'" for db'
    using fulfill_again[OF reg ended(3) po2 oid _ later] pay inv(3) ended(2,3) later
    by (auto simp: run_ended_def script_status_def)
  from run(1,2) e pay again fulfill_starts[OF po oid] show ?thesis
    by (intro exI[of _ x] exI[of _ db1] exI[of _ db2] exI[of _ e]) (simp add: script_status_def)
qed

definition uc_paid :: "exn + ledger_entry_dto \<times> points_db" where
  "uc_paid = credit_points (points_at uc_env uc_world) point_purchase_behavior
     (purchase_credit uc_order uc_bundle) sample_db"

theorem captured_payment_fulfilled_witness:
  "\<exists>x db1 db2 e. fulfill_captured_payment uc_service ''1'' uc_db = (Inr x, db1)
    \<and> advance (sv_registry uc_service) (\<lambda>_. (seconds 2000, 0)) (wi_id x) db1 = Some (Inr WF_completed, db2)
    \<and> credited ''7'' ''payment-order:1:points'' 100 e sample_db (uw_points (wd_world db2))"
proof -
  have "order_for uc_env uc_world 1 uc_order uc_bundle" "row_key ''1'' = Inr 1"
    "find_by_business_key uc_db point_purchase_workflow_key (fulfilled_key uc_order) = None"
    "valid_credit_debit_input (purchase_credit uc_order uc_bundle)" by code_simp+
  then have order: "order_for (sv_env uc_service) (wd_world uc_db) 1 uc_order uc_bundle" and oid: "row_key ''1'' = Inr 1"
    and new: "find_by_business_key uc_db point_purchase_workflow_key (fulfilled_key uc_order) = None"
    and valid: "valid_credit_debit_input (purchase_credit uc_order uc_bundle)"
    by (simp_all add: uc_service_def uc_db_def)
  have res: "result uc_paid \<noteq> None" and "pd_entries (after uc_paid) \<noteq> []" by code_simp+
  then have "after uc_paid \<noteq> sample_db" by (auto simp: sample_db_def)
  moreover from res obtain dto where "uc_paid = Inr (dto, after uc_paid)" by (auto dest: result_Inr)
  ultimately have "uc_paid = Inr (dto, after uc_paid)" "after uc_paid \<noteq> sample_db" by simp_all
  then have credit: "credit_points (points_at (sv_env uc_service) (wd_world uc_db)) point_purchase_behavior
      (purchase_credit uc_order uc_bundle) (uw_points (wd_world uc_db)) = Inr (dto, after uc_paid)"
    "after uc_paid \<noteq> uw_points (wd_world uc_db)"
    by (simp_all add: uc_paid_def uc_service_def uc_db_def uc_world_def uc_start_def)
  have told: "tell_purchase (sv_env uc_service) uc_order ((wd_world uc_db)\<lparr>uw_points := after uc_paid\<rparr>)
      = (Inr [(''requested'', JBool False)], (wd_world uc_db)\<lparr>uw_points := after uc_paid\<rparr>)"
    by (simp add: tell_purchase_def tell_completed_def uc_service_def uc_env_def)
  from captured_payment_fulfilled[OF uc_registry uc_reached uc_start_initial(1,2) order oid new valid credit told]
  show ?thesis by (simp add: uc_order_def uc_bundle_def uc_db_def uc_world_def uc_start_def) blast
qed

section \<open>Check-in\<close>

definition check_in_run :: "string \<Rightarrow> string \<Rightarrow> dict" where
  "check_in_run sid date = [(''subject_id'', JStr sid), (''business_date'', JStr date)]"

definition check_in_grant :: "string \<Rightarrow> string \<Rightarrow> behavior_spec \<Rightarrow> credit_debit_input" where
  "check_in_grant sid date b = \<lparr>ci_subject_type = ''identity'', ci_subject_id = sid,
     ci_amount = (case bs_fixed_amount b of None \<Rightarrow> 10 | Some n \<Rightarrow> if n = 0 then 10 else n),
     ci_source_type = ''user_center'', ci_source_id = date,
     ci_idempotency_key = ''check-in:'' @ sid @ '':credit:'' @ date @ '':v1'',
     ci_actor_type = ''user'', ci_actor_id = Some sid, ci_metadata = [], ci_expires_at = None\<rparr>"

definition check_in_spec :: "(exn \<Rightarrow> string) \<Rightarrow> user_env \<Rightarrow> user_world workflow_spec" where
  "check_in_spec message env = user_workflow message check_in_workflow_key (check_in_steps env)"

lemma check_in_script:
  assumes "behavior_require (px_behaviors (ue_points env)) check_in_behavior = Inr b"
  shows "run_script (check_in_run sid date) (wf_activities (check_in_spec message env)) [] w
    = (case grant env check_in_behavior (check_in_grant sid date b) w of
         (Inl e, w') \<Rightarrow> Some (Inl (e, should_retry default_retry_policy (classify_retry e) 1), w')
       | (Inr e, w') \<Rightarrow> Some (Inr [(''user_center.check_in.credit.v1'',
            JObj (entry_result e @ [(''business_date'', JStr date)]))], w'))"
proof -
  have "check_in_input env [(''workflow'', JObj (check_in_run sid date)), (''state'', JObj [])]
      = Inr (check_in_grant sid date b, date)"
    using assms
    by (simp add: check_in_input_def workflow_input_def field_def text_field_def check_in_run_def check_in_grant_def)
  moreover have "wait_request (entry_result e @ [(''business_date'', JStr date)]) = Inr None" for e
    by (simp add: wait_request_def entry_result_def)
  ultimately show ?thesis
    by (auto simp: check_in_spec_def user_workflow_def check_in_steps_def check_in_credit_def dset_def
        split: prod.splits sum.splits)
qed

text \<open>What a check-in answers, for every end of its workflow.\<close>

lemma check_in_runs:
  assumes reg: "sv_registry sv = user_registry (sv_env sv) message"
    and inv: "workflow_inv (sv_registry sv) db"
    and ok: "require_idempotency_key key = Inr ()" "sv_zone_date sv zone (uw_now (wd_world db)) = Inr date"
    and new: "find_by_business_key db check_in_workflow_key (check_in_key sid date) = None"
    and script: "run_script (check_in_run sid date) (wf_activities (check_in_spec message (sv_env sv))) []
        (wd_world db) = Some (r, w)"
  obtains db2 y where "wd_world db2 = w" and "system_steps (sv_registry sv) db db2"
    and "script_status r \<noteq> WF_pending \<Longrightarrow> run_ended sv check_in_workflow_key (check_in_key sid date) y r db2"
    and "script_left r [] (wf_activities (check_in_spec message (sv_env sv))) (wi_state y)"
    and "check_in sv clock sid key zone db = Some (Inr \<lparr>cr_status = ''rewarded'', cr_business_date = date,
          cr_entry_id = check_in_entry (Some y)\<rparr>, db2)"
proof -
  have spec: "registry_lookup (sv_registry sv) check_in_workflow_key = Some (check_in_spec message (sv_env sv))"
    "wf_activities (check_in_spec message (sv_env sv)) \<noteq> []"
    by (simp_all add: reg user_registry_lookup check_in_spec_def user_workflow_def check_in_steps_def)
  from run_to_end[OF reg inv spec new script, of clock] obtain x db1 db2 y
    where run: "start_run sv check_in_workflow_key (check_in_key sid date) (check_in_run sid date) db = (Inr x, db1)"
      "advance (sv_registry sv) clock (wi_id x) db1 = Some (Inr (script_status r), db2)"
      "wd_world db2 = w" "system_steps (sv_registry sv) db db2"
      and found: "find_by_business_key db2 check_in_workflow_key (check_in_key sid date) = Some y"
      and ended: "script_status r \<noteq> WF_pending
        \<Longrightarrow> run_ended sv check_in_workflow_key (check_in_key sid date) y r db2"
      and left: "script_left r [] (wf_activities (check_in_spec message (sv_env sv))) (wi_state y)" by metis
  from found run ok new have "check_in sv clock sid key zone db = Some (Inr \<lparr>cr_status = ''rewarded'',
      cr_business_date = date, cr_entry_id = check_in_entry (Some y)\<rparr>, db2)"
    by (simp add: check_in_def Let_def check_in_run_def)
  with run ended left that show thesis by blast
qed

lemma check_in_again:
  assumes ended: "run_ended sv check_in_workflow_key (check_in_key sid date) y r db"
    and later: "system_steps (sv_registry sv) db db'"
    and ok: "require_idempotency_key key = Inr ()" "sv_zone_date sv zone (uw_now (wd_world db')) = Inr date"
  shows "check_in sv clock sid key zone db' = Some (Inr \<lparr>cr_status = ''already_rewarded'',
    cr_business_date = date, cr_entry_id = check_in_entry (Some y)\<rparr>, db')"
  using run_ended_later[OF ended later] ok by (auto simp: check_in_def Let_def run_ended_def)

text \<open>
  C4. A check-in is rewarded once a day. In every reachable state, a first check-in of a subject on a
  business day for which the credit is granted answers \<^verbatim>\<open>rewarded\<close> with the new entry, which raises
  the balance of the subject by the amount of the behavior. Whatever happens later, every check-in of
  the subject on that business day, under any request key and any zone, answers
  \<^verbatim>\<open>already_rewarded\<close> with the same entry and changes nothing.
\<close>

theorem check_in_rewarded_once:
  assumes reg: "sv_registry sv = user_registry (sv_env sv) message"
    and reached: "system_steps (sv_registry sv) (empty_workflow_db w0) db"
    and points: "points_initial (uw_points w0)"
    and ok: "require_idempotency_key key = Inr ()" "sv_zone_date sv zone (uw_now (wd_world db)) = Inr date"
    and new: "find_by_business_key db check_in_workflow_key (check_in_key sid date) = None"
    and behavior: "behavior_require (px_behaviors (ue_points (sv_env sv))) check_in_behavior = Inr b"
    and valid: "valid_credit_debit_input (check_in_grant sid date b)"
    and credit: "credit_points (points_at (sv_env sv) (wd_world db)) check_in_behavior
        (check_in_grant sid date b) (uw_points (wd_world db)) = Inr (dto, p)" "p \<noteq> uw_points (wd_world db)"
  shows "\<exists>db1 e. check_in sv clock sid key zone db = Some (Inr \<lparr>cr_status = ''rewarded'',
        cr_business_date = date, cr_entry_id = Some (show_nat (en_id e))\<rparr>, db1)
    \<and> credited sid (''check-in:'' @ sid @ '':credit:'' @ date @ '':v1'') (ci_amount (check_in_grant sid date b)) e
        (uw_points (wd_world db)) (uw_points (wd_world db1))
    \<and> (\<forall>db' clock key zone. system_steps (sv_registry sv) db1 db' \<and> require_idempotency_key key = Inr ()
        \<and> sv_zone_date sv zone (uw_now (wd_world db')) = Inr date
        \<longrightarrow> check_in sv clock sid key zone db' = Some (Inr \<lparr>cr_status = ''already_rewarded'',
              cr_business_date = date, cr_entry_id = Some (show_nat (en_id e))\<rparr>, db'))"
proof -
  note inv = workflow_inv_steps[OF system_steps_runs[OF reached] workflow_inv_empty]
  let ?st = "[(''user_center.check_in.credit.v1'', JObj (entry_result dto @ [(''business_date'', JStr date)]))]"
  have script: "run_script (check_in_run sid date) (wf_activities (check_in_spec message (sv_env sv))) []
      (wd_world db) = Some (Inr ?st, (wd_world db)\<lparr>uw_points := p\<rparr>)"
    using valid credit by (simp add: check_in_script[OF behavior] grant_def on_points_def)
  from check_in_runs[OF reg inv ok new script, of clock] obtain db1 y
    where run: "wd_world db1 = (wd_world db)\<lparr>uw_points := p\<rparr>"
      "run_ended sv check_in_workflow_key (check_in_key sid date) y (Inr ?st) db1"
      "script_left (Inr ?st) [] (wf_activities (check_in_spec message (sv_env sv))) (wi_state y)"
      "check_in sv clock sid key zone db = Some (Inr \<lparr>cr_status = ''rewarded'', cr_business_date = date,
        cr_entry_id = check_in_entry (Some y)\<rparr>, db1)" by (metis script_status_Inr)
  from run(3) have "wi_state y = ?st" by (simp add: script_left_def)
  then have entry: "check_in_entry (Some y) = Some (show_nat (ld_id dto))"
    by (simp add: check_in_entry_def entry_result_def id_json_def)
  have "0 < ci_amount (check_in_grant sid date b)" "ci_subject_type (check_in_grant sid date b) = ''identity''"
    "ci_subject_id (check_in_grant sid date b) = sid"
    "ci_idempotency_key (check_in_grant sid date b) = ''check-in:'' @ sid @ '':credit:'' @ date @ '':v1''"
    using valid by (simp_all add: valid_credit_debit_input_def check_in_grant_def)
  with credit_credited[OF reached_points(1)[OF reached[unfolded reg] points] _ credit] obtain e
    where e: "ld_id dto = en_id e" "credited sid (''check-in:'' @ sid @ '':credit:'' @ date @ '':v1'')
      (ci_amount (check_in_grant sid date b)) e (uw_points (wd_world db)) p" by metis
  have "check_in sv clock sid key zone db' = Some (Inr \<lparr>cr_status = ''already_rewarded'',
      cr_business_date = date, cr_entry_id = Some (show_nat (en_id e))\<rparr>, db')"
    if "system_steps (sv_registry sv) db1 db'" "require_idempotency_key key = Inr ()"
      "sv_zone_date sv zone (uw_now (wd_world db')) = Inr date" for db' clock key zone
    using check_in_again[OF run(2) that, of clock] by (simp add: entry e(1))
  with run(1,4) entry e show ?thesis by (intro exI[of _ db1] exI[of _ e]) simp
qed

definition uc_check_in :: behavior_spec where
  "uc_check_in = snd (uc_behavior check_in_behavior ''user_center'' (Some 10))"

definition uc_rewarded :: "exn + ledger_entry_dto \<times> points_db" where
  "uc_rewarded = credit_points (points_at uc_env uc_world) check_in_behavior
     (check_in_grant ''7'' ''2026-01-01'' uc_check_in) sample_db"

theorem check_in_rewarded_once_witness:
  "\<exists>db1 e. check_in uc_service (\<lambda>_. (seconds 2000, 0)) ''7'' ''k'' ''UTC'' uc_db
      = Some (Inr \<lparr>cr_status = ''rewarded'', cr_business_date = ''2026-01-01'',
          cr_entry_id = Some (show_nat (en_id e))\<rparr>, db1)
    \<and> check_in uc_service (\<lambda>_. (seconds 3000, 0)) ''7'' ''other'' ''UTC'' db1
      = Some (Inr \<lparr>cr_status = ''already_rewarded'', cr_business_date = ''2026-01-01'',
          cr_entry_id = Some (show_nat (en_id e))\<rparr>, db1)
    \<and> credited ''7'' ''check-in:7:credit:2026-01-01:v1'' 10 e sample_db (uw_points (wd_world db1))"
proof -
  have "require_idempotency_key ''k'' = Inr ()" "require_idempotency_key ''other'' = Inr ()"
    "find_by_business_key uc_db check_in_workflow_key (check_in_key ''7'' ''2026-01-01'') = None"
    "valid_credit_debit_input (check_in_grant ''7'' ''2026-01-01'' uc_check_in)" by code_simp+
  note ok = this
  have zone: "sv_zone_date uc_service ''UTC'' t = Inr ''2026-01-01''" for t by (simp add: uc_service_def)
  have behavior: "behavior_require (px_behaviors (ue_points (sv_env uc_service))) check_in_behavior = Inr uc_check_in"
    by (simp add: uc_service_def uc_env_def uc_points_ctx_def uc_check_in_def uc_behavior_def
        behavior_require_def registry_lookup_def)
  have res: "result uc_rewarded \<noteq> None" and "pd_entries (after uc_rewarded) \<noteq> []" by code_simp+
  then have "after uc_rewarded \<noteq> sample_db" by (auto simp: sample_db_def)
  moreover from res obtain dto where "uc_rewarded = Inr (dto, after uc_rewarded)" by (auto dest: result_Inr)
  ultimately have credit: "credit_points (points_at (sv_env uc_service) (wd_world uc_db)) check_in_behavior
      (check_in_grant ''7'' ''2026-01-01'' uc_check_in) (uw_points (wd_world uc_db)) = Inr (dto, after uc_rewarded)"
    "after uc_rewarded \<noteq> uw_points (wd_world uc_db)"
    by (simp_all add: uc_rewarded_def uc_service_def uc_db_def uc_world_def uc_start_def)
  from check_in_rewarded_once[OF uc_registry uc_reached uc_start_initial(1) ok(1) zone ok(3) behavior ok(4) credit,
      of "\<lambda>_. (seconds 2000, 0)"] obtain db1 e where run:
    "check_in uc_service (\<lambda>_. (seconds 2000, 0)) ''7'' ''k'' ''UTC'' uc_db
      = Some (Inr \<lparr>cr_status = ''rewarded'', cr_business_date = ''2026-01-01'',
          cr_entry_id = Some (show_nat (en_id e))\<rparr>, db1)"
    "credited ''7'' (''check-in:'' @ ''7'' @ '':credit:'' @ ''2026-01-01'' @ '':v1'')
        (ci_amount (check_in_grant ''7'' ''2026-01-01'' uc_check_in)) e
        (uw_points (wd_world uc_db)) (uw_points (wd_world db1))"
    "\<forall>db' clock key zone. system_steps (sv_registry uc_service) db1 db' \<and> require_idempotency_key key = Inr ()
        \<and> sv_zone_date uc_service zone (uw_now (wd_world db')) = Inr ''2026-01-01''
        \<longrightarrow> check_in uc_service clock ''7'' key zone db' = Some (Inr \<lparr>cr_status = ''already_rewarded'',
              cr_business_date = ''2026-01-01'', cr_entry_id = Some (show_nat (en_id e))\<rparr>, db')" by blast
  have "ci_amount (check_in_grant ''7'' ''2026-01-01'' uc_check_in) = 10" by code_simp
  with run(2) have "credited ''7'' ''check-in:7:credit:2026-01-01:v1'' 10 e sample_db (uw_points (wd_world db1))"
    by (simp add: uc_db_def uc_world_def uc_start_def)
  with run(1,3) ok(2) zone show ?thesis by blast
qed

text \<open>
  C5. A check-in that was refused is reported as rewarded. When the credit of a first check-in of a
  day fails, for instance because the account is frozen or the program is inactive, nothing is
  credited, and the answer is \<^verbatim>\<open>rewarded\<close> without an entry all the same. If the error is not one
  that is retried, the day is lost: whatever happens later, even when the obstacle is gone, every
  further check-in of that day answers \<^verbatim>\<open>already_rewarded\<close> without an entry and credits nothing.
\<close>

theorem failed_check_in_reported_rewarded:
  assumes reg: "sv_registry sv = user_registry (sv_env sv) message"
    and reached: "system_steps (sv_registry sv) (empty_workflow_db w0) db"
    and ok: "require_idempotency_key key = Inr ()" "sv_zone_date sv zone (uw_now (wd_world db)) = Inr date"
    and new: "find_by_business_key db check_in_workflow_key (check_in_key sid date) = None"
    and behavior: "behavior_require (px_behaviors (ue_points (sv_env sv))) check_in_behavior = Inr b"
    and valid: "valid_credit_debit_input (check_in_grant sid date b)"
    and refused: "credit_points (points_at (sv_env sv) (wd_world db)) check_in_behavior
        (check_in_grant sid date b) (uw_points (wd_world db)) = Inl failure"
  shows "\<exists>db1. check_in sv clock sid key zone db = Some (Inr \<lparr>cr_status = ''rewarded'',
        cr_business_date = date, cr_entry_id = None\<rparr>, db1)
    \<and> wd_world db1 = wd_world db
    \<and> (\<not> should_retry default_retry_policy (classify_retry failure) 1 \<longrightarrow>
        (\<forall>db' clock key zone. system_steps (sv_registry sv) db1 db' \<and> require_idempotency_key key = Inr ()
          \<and> sv_zone_date sv zone (uw_now (wd_world db')) = Inr date
          \<longrightarrow> check_in sv clock sid key zone db' = Some (Inr \<lparr>cr_status = ''already_rewarded'',
                cr_business_date = date, cr_entry_id = None\<rparr>, db')))"
proof -
  note inv = workflow_inv_steps[OF system_steps_runs[OF reached] workflow_inv_empty]
  let ?r = "Inl (failure, should_retry default_retry_policy (classify_retry failure) 1)"
  have script: "run_script (check_in_run sid date) (wf_activities (check_in_spec message (sv_env sv))) []
      (wd_world db) = Some (?r, wd_world db)"
    using valid refused by (simp add: check_in_script[OF behavior] grant_def on_points_def)
  from check_in_runs[OF reg inv ok new script, of clock] obtain db1 y
    where run: "wd_world db1 = wd_world db"
      "script_status ?r \<noteq> WF_pending \<Longrightarrow> run_ended sv check_in_workflow_key (check_in_key sid date) y ?r db1"
      "script_left ?r [] (wf_activities (check_in_spec message (sv_env sv))) (wi_state y)"
      "check_in sv clock sid key zone db = Some (Inr \<lparr>cr_status = ''rewarded'', cr_business_date = date,
        cr_entry_id = check_in_entry (Some y)\<rparr>, db1)" by metis
  have entry: "check_in_entry (Some y) = None"
    using run(3) by (simp add: check_in_entry_def script_left_def check_in_spec_def user_workflow_def
        check_in_steps_def user_activity_def)
  have "script_status ?r \<noteq> WF_pending" if "\<not> should_retry default_retry_policy (classify_retry failure) 1"
    using that by (simp add: script_status_def)
  with check_in_again[OF run(2)] run(1,4) entry show ?thesis by auto
qed

text \<open>The program of the sample is not active any more.\<close>

definition uc_closed :: user_world where
  "uc_closed = uc_start\<lparr>uw_points := sample_db\<lparr>pd_programs :=
     map (\<lambda>p. p\<lparr>pr_active := False\<rparr>) (pd_programs sample_db)\<rparr>\<rparr>"

theorem failed_check_in_reported_rewarded_witness:
  "\<exists>db1. check_in uc_service (\<lambda>_. (seconds 1, 0)) ''7'' ''k'' ''UTC'' (empty_workflow_db uc_closed)
      = Some (Inr \<lparr>cr_status = ''rewarded'', cr_business_date = ''2026-01-01'', cr_entry_id = None\<rparr>, db1)
    \<and> pd_entries (uw_points (wd_world db1)) = []
    \<and> check_in uc_service (\<lambda>_. (seconds 2, 0)) ''7'' ''k'' ''UTC'' db1
      = Some (Inr \<lparr>cr_status = ''already_rewarded'', cr_business_date = ''2026-01-01'', cr_entry_id = None\<rparr>, db1)"
proof -
  let ?db = "empty_workflow_db uc_closed" and ?e = "KernelError ''points.program_inactive'' VALIDATION"
  have ok: "require_idempotency_key ''k'' = Inr ()"
    "find_by_business_key ?db check_in_workflow_key (check_in_key ''7'' ''2026-01-01'') = None"
    "valid_credit_debit_input (check_in_grant ''7'' ''2026-01-01'' uc_check_in)"
    "\<not> should_retry default_retry_policy (classify_retry ?e) 1" by code_simp+
  have zone: "sv_zone_date uc_service ''UTC'' t = Inr ''2026-01-01''" for t by (simp add: uc_service_def)
  have behavior: "behavior_require (px_behaviors (ue_points (sv_env uc_service))) check_in_behavior = Inr uc_check_in"
    by (simp add: uc_service_def uc_env_def uc_points_ctx_def uc_check_in_def uc_behavior_def
        behavior_require_def registry_lookup_def)
  have refused: "credit_points (points_at (sv_env uc_service) (wd_world ?db)) check_in_behavior
      (check_in_grant ''7'' ''2026-01-01'' uc_check_in) (uw_points (wd_world ?db)) = Inl ?e"
    by code_simp
  have "system_steps (sv_registry uc_service) ?db ?db" by simp
  from failed_check_in_reported_rewarded[OF uc_registry this ok(1) zone ok(2) behavior ok(3) refused,
      of "\<lambda>_. (seconds 1, 0)"] obtain db1 where run:
    "check_in uc_service (\<lambda>_. (seconds 1, 0)) ''7'' ''k'' ''UTC'' ?db
      = Some (Inr \<lparr>cr_status = ''rewarded'', cr_business_date = ''2026-01-01'', cr_entry_id = None\<rparr>, db1)"
    "wd_world db1 = uc_closed"
    "\<forall>db' clock key zone. system_steps (sv_registry uc_service) db1 db' \<and> require_idempotency_key key = Inr ()
        \<and> sv_zone_date uc_service zone (uw_now (wd_world db')) = Inr ''2026-01-01''
        \<longrightarrow> check_in uc_service clock ''7'' key zone db' = Some (Inr \<lparr>cr_status = ''already_rewarded'',
              cr_business_date = ''2026-01-01'', cr_entry_id = None\<rparr>, db')"
    using ok(4) by (auto simp: empty_workflow_db_def)
  have "pd_entries (uw_points uc_closed) = []" by (simp add: uc_closed_def sample_db_def uc_start_def)
  with run ok(1) zone show ?thesis by (auto intro!: exI[of _ db1])
qed

end
