(* ===== verification/User_Refunds.thy ===== *)
theory User_Refunds
  imports User_Properties
begin

text \<open>
  The compensation of refunds and the late redemption of a gift card: what the user center does when
  a step of a workflow comes too late.
\<close>

section \<open>Refunds of points\<close>

definition refund_run :: "string \<Rightarrow> string \<Rightarrow> string \<Rightarrow> dict" where
  "refund_run oid rid sid =
     [(''order_id'', JStr oid), (''refund_id'', JStr rid), (''subject_id'', JStr sid)]"

definition refund_spec :: "(exn \<Rightarrow> string) \<Rightarrow> user_env \<Rightarrow> user_world workflow_spec" where
  "refund_spec message env = user_workflow message refund_workflow_key (refund_steps env)"

definition reversal_request :: "string \<Rightarrow> reverse_input" where
  "reversal_request rid = \<lparr>ri_reason = ''payment refunded'',
     ri_idempotency_key = ''payment-refund:'' @ rid @ '':reverse''\<rparr>"

text \<open>A completed refund \<open>rid\<close> of an order for a bundle.\<close>

definition refunded_points :: "user_service \<Rightarrow> user_world \<Rightarrow> nat \<Rightarrow> order_dto \<Rightarrow> string \<Rightarrow> bool" where
  "refunded_points sv w i order rid \<longleftrightarrow> points_order sv i order w
     \<and> (\<exists>detail. get_order_detail (uw_payments w) i = Inr (Some detail) \<and> dt_order detail = order
          \<and> list_ex (refund_completed (JStr rid)) (dt_refunds detail))"

lemma reversal_request_ok:
  "length rid \<le> 177 \<Longrightarrow> reverse_input_ok (reversal_request rid)"
  by (simp add: reverse_input_ok_def reversal_request_def text_within_def)

lemma refund_script:
  assumes fact: "refunded_points sv w i order rid" and oid: "row_key oid = Inr i" and rid: "length rid \<le> 177"
  shows "run_script (refund_run oid rid sid) (wf_activities (refund_spec message (sv_env sv))) [] w
    = (case find_credit_by_source (uw_points w) point_purchase_behavior (od_id order) of
         None \<Rightarrow> Some (Inl (fulfillment_pending, True), w)
       | Some e \<Rightarrow> (case reverse_ledger_entry (points_at (sv_env sv) w) (ld_id e) (reversal_request rid) (uw_points w) of
           Inl f \<Rightarrow> Some (Inl (f, should_retry default_retry_policy (classify_retry f) 1), w)
         | Inr (r, p) \<Rightarrow> Some (Inr [(refund_resolve_key, JObj (points_entitlement w order)),
             (''user_center.refund.terminate_membership.v1'', JObj [(''terminated'', JBool False)]),
             (''user_center.refund.reverse_points.v1'', JObj [(''reversal_entry_id'', id_json (ld_id r))])],
             w\<lparr>uw_points := p\<rparr>)))"
proof -
  let ?wf = "(''workflow'', JObj (refund_run oid rid sid))" and ?ent = "points_entitlement w order"
  from fact obtain detail where d: "get_order_detail (uw_payments w) i = Inr (Some detail)"
    "dt_order detail = order" "list_ex (refund_completed (JStr rid)) (dt_refunds detail)"
    and sold: "od_offer_key order \<in> set (map pb_key (catalog_specs (ue_bundles (sv_env sv))))"
    by (auto simp: refunded_points_def points_order_def)
  then have some: "dt_refunds detail \<noteq> []" by auto
  have "refund_resolve (sv_env sv) [?wf, (''state'', JObj [])] w = (Inr ?ent, w)"
    using d some sold oid by (simp add: refund_resolve_def workflow_input_def field_def order_refunded_def
        text_field_def refund_run_def)
  moreover have "refund_terminate (sv_env sv) [?wf, (''state'', JObj [(refund_resolve_key, JObj ?ent)])] w
      = (Inr [(''terminated'', JBool False)], w)"
    by (simp add: refund_terminate_def prior_result_def field_def points_entitlement_def)
  moreover have "refund_reverse (sv_env sv) [?wf, (''state'', JObj [(refund_resolve_key, JObj ?ent),
      (''user_center.refund.terminate_membership.v1'', JObj [(''terminated'', JBool False)])])] w
      = (case find_credit_by_source (uw_points w) point_purchase_behavior (od_id order) of
         None \<Rightarrow> (Inl fulfillment_pending, w)
       | Some e \<Rightarrow> bindS (on_points (reverse_ledger_entry (points_at (sv_env sv) w) (ld_id e) (reversal_request rid)) w)
           (\<lambda>r w. (Inr [(''reversal_entry_id'', id_json (ld_id r))], w)))"
    using reversal_request_ok[OF rid]
    by (cases "find_credit_by_source (uw_points w) point_purchase_behavior (od_id order)")
      (simp_all add: refund_reverse_def refund_reverse_input_def prior_result_def field_def text_field_def
        workflow_input_def refund_run_def points_entitlement_def reversal_request_def row_key_def id_json_def)
  moreover have "wait_request ?ent = Inr None" "wait_request [(''terminated'', JBool False)] = Inr None"
    "wait_request [(''reversal_entry_id'', id_json n)] = Inr None" for n
    by (simp_all add: wait_request_def points_entitlement_def)
  moreover have "should_retry default_retry_policy (classify_retry fulfillment_pending) 1"
    by code_simp
  ultimately show ?thesis
    by (auto simp: refund_spec_def user_workflow_def refund_steps_def dset_def on_points_def
        refund_resolve_key_def split: option.splits sum.splits prod.splits)
qed

lemma entry_by_id_of:
  assumes "points_inv db" and "e \<in> set (pd_entries db)"
  shows "entry_by_id db (en_id e) = Some e"
proof -
  have "distinct (map en_id (pd_entries db))"
    using assms(1) by (auto simp: points_inv_def points_wf_def rows_ok_def)
  then show ?thesis
    using find_key_unique[of en_id "pd_entries db" e] assms(2) by (simp add: entry_by_id_def)
qed

lemma find_credit_entry:
  assumes "find_credit_by_source db behavior source = Some dto"
  obtains e where "e \<in> set (pd_entries db)" and "dto = to_entry e (entry_program_key db e)"
    and "en_type e = EN_credit" and "en_source_id e = Some source" and "en_behavior_key e = Some behavior"
proof -
  let ?es = "sort_key newest_first (filter (\<lambda>e. en_source_id e = Some source
      \<and> en_behavior_key e = Some behavior \<and> en_type e = EN_credit) (pd_entries db))"
  from assms obtain e es where es: "?es = e # es" and dto: "dto = to_entry e (entry_program_key db e)"
    by (auto simp: find_credit_by_source_def split: list.splits)
  from es have "e \<in> set ?es" by simp
  with dto that show thesis by auto
qed

text \<open>
  C6. A refund takes the points back, once. In every reachable state, for a completed refund of an
  order whose points were granted, the compensation completes: it posts one reversal of the credit,
  the balance of that account falls by the whole grant, below zero if the points were spent, and no
  other balance moves. The amount of the refund does not matter: a refund of a part of the price takes
  all points back. Whatever happens later, compensating the refund again finds the same run, and
  advancing that changes nothing.
\<close>

theorem refund_takes_points_back:
  assumes reg: "sv_registry sv = user_registry (sv_env sv) message"
    and reached: "system_steps (sv_registry sv) (empty_workflow_db w0) db"
    and points: "points_initial (uw_points w0)"
    and fact: "refunded_points sv (wd_world db) i order rid" and oid: "row_key oid = Inr i"
    and rid: "length rid \<le> 177"
    and new: "find_by_business_key db refund_workflow_key (''payment-refund:'' @ rid) = None"
    and granted: "find_credit_by_source (uw_points (wd_world db)) point_purchase_behavior (od_id order) = Some e"
    and reversal: "reverse_ledger_entry (points_at (sv_env sv) (wd_world db)) (ld_id e)
        (reversal_request rid) (uw_points (wd_world db)) = Inr (r, p)" "p \<noteq> uw_points (wd_world db)"
  shows "\<exists>x db1 db2 v. compensate_refund sv oid rid sid db = (Inr x, db1)
    \<and> advance (sv_registry sv) clock (wi_id x) db1 = Some (Inr WF_completed, db2)
    \<and> wd_world db2 = (wd_world db)\<lparr>uw_points := p\<rparr>
    \<and> pd_entries p = pd_entries (uw_points (wd_world db)) @ [v]
    \<and> en_type v = EN_reversal \<and> en_reversal_of v = Some (ld_id e) \<and> en_amount v = - ld_amount e
    \<and> balance_of p = (balance_of (uw_points (wd_world db)))
        (ld_account_id e := balance_of (uw_points (wd_world db)) (ld_account_id e) - ld_amount e)
    \<and> (\<forall>db'. system_steps (sv_registry sv) db2 db' \<longrightarrow>
         (\<exists>y. compensate_refund sv oid rid sid db' = (Inr y, db') \<and> wi_id y = wi_id x)
         \<and> (\<forall>clock. advance (sv_registry sv) clock (wi_id x) db' = Some (Inr WF_completed, db')))"
proof -
  note inv = reached_points(1)[OF reached[unfolded reg] points]
    workflow_inv_steps[OF system_steps_runs[OF reached] workflow_inv_empty]
  obtain st where script: "run_script (refund_run oid rid sid) (wf_activities (refund_spec message (sv_env sv))) []
      (wd_world db) = Some (Inr st, (wd_world db)\<lparr>uw_points := p\<rparr>)"
    using refund_script[OF fact oid rid, of sid message] granted reversal(1) by simp
  have spec: "registry_lookup (sv_registry sv) refund_workflow_key = Some (refund_spec message (sv_env sv))"
    "wf_activities (refund_spec message (sv_env sv)) \<noteq> []"
    by (simp_all add: reg user_registry_lookup refund_spec_def user_workflow_def refund_steps_def)
  from run_to_end[OF reg inv(2) spec new script, of clock] obtain x db1 db2 y
    where run: "start_run sv refund_workflow_key (''payment-refund:'' @ rid) (refund_run oid rid sid) db = (Inr x, db1)"
      "advance (sv_registry sv) clock (wi_id x) db1 = Some (Inr (script_status (Inr st)), db2)"
      "wd_world db2 = (wd_world db)\<lparr>uw_points := p\<rparr>" "wi_id y = wi_id x"
      and ended: "run_ended sv refund_workflow_key (''payment-refund:'' @ rid) y (Inr st) db2"
    by (metis script_status_Inr)
  have start: "compensate_refund sv oid rid sid db = start_run sv refund_workflow_key
      (''payment-refund:'' @ rid) (refund_run oid rid sid) db" for db
    by (simp add: compensate_refund_def refund_run_def)
  from find_credit_entry[OF granted] obtain c where c: "c \<in> set (pd_entries (uw_points (wd_world db)))"
    "ld_id e = en_id c" "ld_amount e = en_amount c" "ld_account_id e = en_account c"
    by (metis ledger_entry_dto.select_convs to_entry_def)
  from reverse_effect[OF inv(1) reversal(1)] obtain v where "pd_entries p = pd_entries (uw_points (wd_world db)) @ [v]"
    "en_type v = EN_reversal" "en_reversal_of v = Some (ld_id e)" "en_amount v = - ld_amount e"
    "balance_of p = (balance_of (uw_points (wd_world db)))
        (ld_account_id e := balance_of (uw_points (wd_world db)) (ld_account_id e) - ld_amount e)"
    using entry_by_id_of[OF inv(1) c(1)] c(2-4) reversal(2)
    by cases (auto simp: posted_def)
  moreover have "(\<exists>y. compensate_refund sv oid rid sid db' = (Inr y, db') \<and> wi_id y = wi_id x)
      \<and> (\<forall>clock. advance (sv_registry sv) clock (wi_id x) db' = Some (Inr WF_completed, db'))"
    if "system_steps (sv_registry sv) db2 db'" for db'
    using ended that run(4) by (auto simp: start run_ended_def script_status_def)
  ultimately show ?thesis
    using run start[of db] by (intro exI[of _ x] exI[of _ db1] exI[of _ db2] exI[of _ v])
      (simp add: script_status_def)
qed

text \<open>The sample after the purchase was credited and 3.00 of 10.00 were refunded.\<close>

definition uc_granted :: user_world where
  "uc_granted = uc_world\<lparr>uw_points := after uc_paid, uw_payments := uc_refunded\<rparr>"

definition uc_granted_db :: user_state where
  "uc_granted_db = uc_db\<lparr>wd_world := uc_granted\<rparr>"

definition uc_partly :: order_dto where
  "uc_partly = uc_order\<lparr>od_state := OS_partially_refunded, od_refunded_amount := 300\<rparr>"

definition uc_reversed :: "exn + ledger_entry_dto \<times> points_db" where
  "uc_reversed = (case find_credit_by_source (after uc_paid) point_purchase_behavior ''1'' of
     None \<Rightarrow> Inl fulfillment_pending
   | Some e \<Rightarrow> reverse_ledger_entry (points_at uc_env uc_granted) (ld_id e) (reversal_request ''rf'') (after uc_paid))"

lemma uc_granted_reached: "system_steps (sv_registry uc_service) (empty_workflow_db uc_start) uc_granted_db"
proof -
  have "result uc_paid \<noteq> None" by code_simp
  then obtain dto where "credit_points (points_at uc_env uc_world) point_purchase_behavior
      (purchase_credit uc_order uc_bundle) sample_db = Inr (dto, after uc_paid)"
    by (auto simp: uc_paid_def dest: result_Inr)
  moreover have "valid_credit_debit_input (purchase_credit uc_order uc_bundle)" by code_simp
  ultimately have "points_step sample_db (after uc_paid)" by (auto intro: points_step.credit)
  moreover have "notes_later uc_world uc_granted"
    unfolding notes_later_def by (auto simp: uc_granted_def)
  ultimately have "world_later uc_world uc_granted"
    using uc_payments(2) by (simp add: world_later_def uc_granted_def uc_world_def uc_start_def r_into_rtranclp)
  then have "system_step (sv_registry uc_service) uc_db uc_granted_db"
    unfolding uc_granted_db_def by (intro sy_world) (simp add: uc_db_def)
  with uc_reached show ?thesis by (rule rtranclp.rtrancl_into_rtrancl)
qed

theorem refund_takes_points_back_witness:
  "\<exists>x db1 db2. compensate_refund uc_service ''1'' ''rf'' ''7'' uc_granted_db = (Inr x, db1)
    \<and> advance (sv_registry uc_service) (\<lambda>_. (seconds 2000, 0)) (wi_id x) db1 = Some (Inr WF_completed, db2)
    \<and> map en_amount (pd_entries (uw_points (wd_world db2))) = [100, -100]"
proof -
  have fact: "refunded_points uc_service uc_granted 1 uc_partly ''rf''"
  proof -
    have "points_order uc_service 1 uc_partly uc_granted" by code_simp
    moreover have "case get_order_detail uc_refunded 1 of Inr (Some d) \<Rightarrow> dt_order d = uc_partly
        \<and> list_ex (refund_completed (JStr ''rf'')) (dt_refunds d) | _ \<Rightarrow> False" by code_simp
    ultimately show ?thesis
      by (auto simp: refunded_points_def uc_granted_def split: sum.splits option.splits)
  qed
  have ok: "row_key ''1'' = Inr 1" "length ''rf'' \<le> 177"
    "find_by_business_key uc_granted_db refund_workflow_key (''payment-refund:'' @ ''rf'') = None" by code_simp+
  have res: "result uc_reversed \<noteq> None" "length (pd_entries (after uc_reversed)) = 2"
    "find_credit_by_source (after uc_paid) point_purchase_behavior (od_id uc_partly) \<noteq> None"
    "map en_amount (pd_entries (after uc_reversed)) = [100, -100]" "length (pd_entries (after uc_paid)) = 1"
    by code_simp+
  from res(3) obtain e where e: "find_credit_by_source (after uc_paid) point_purchase_behavior (od_id uc_partly) = Some e"
    by blast
  have "od_id uc_partly = ''1''" by (simp add: uc_partly_def uc_order_def)
  with e res(1) obtain r where "reverse_ledger_entry (points_at uc_env uc_granted) (ld_id e)
      (reversal_request ''rf'') (after uc_paid) = Inr (r, after uc_reversed)"
    using result_Inr[of uc_reversed] by (auto simp: uc_reversed_def)
  then have reversal: "reverse_ledger_entry (points_at (sv_env uc_service) (wd_world uc_granted_db)) (ld_id e)
      (reversal_request ''rf'') (uw_points (wd_world uc_granted_db)) = Inr (r, after uc_reversed)"
    "after uc_reversed \<noteq> uw_points (wd_world uc_granted_db)"
    using res(2,5) by (auto simp: uc_granted_db_def uc_granted_def uc_service_def)
  from fact e have "refunded_points uc_service (wd_world uc_granted_db) 1 uc_partly ''rf''"
    "find_credit_by_source (uw_points (wd_world uc_granted_db)) point_purchase_behavior (od_id uc_partly) = Some e"
    by (simp_all add: uc_granted_db_def uc_granted_def)
  from refund_takes_points_back[OF uc_registry uc_granted_reached uc_start_initial(1) this(1) ok this(2) reversal,
      of "''7''" "\<lambda>_. (seconds 2000, 0)"] res(4)
  show ?thesis by force
qed

section \<open>A gift card redeemed too late\<close>

definition gift_run :: "redemption_dto \<Rightarrow> string \<Rightarrow> dict" where
  "gift_run r sid = [(''redemption_id'', JStr (rx_id r)), (''redemption_key'', JStr (rx_idempotency_key r)),
     (''subject_id'', JStr sid)]"

definition gift_grant :: "redemption_dto \<Rightarrow> string \<Rightarrow> point_bundle \<Rightarrow> credit_debit_input" where
  "gift_grant r sid b = \<lparr>ci_subject_type = ''identity'', ci_subject_id = sid,
     ci_amount = pb_points_amount b, ci_source_type = ''gift_card'', ci_source_id = rx_id r,
     ci_idempotency_key = ''gift-card:'' @ rx_id r @ '':points'', ci_actor_type = ''system'',
     ci_actor_id = None, ci_metadata = [(''product_key'', JStr (pb_key b))], ci_expires_at = None\<rparr>"

definition gift_spec :: "(exn \<Rightarrow> string) \<Rightarrow> user_env \<Rightarrow> user_world workflow_spec" where
  "gift_spec message env = user_workflow message gift_points_workflow_key (gift_points_steps env)"

text \<open>A reserved redemption of a subject, for the points of the bundle \<open>b\<close>.\<close>

definition redeems_points ::
    "user_env \<Rightarrow> gift_db \<Rightarrow> redemption \<Rightarrow> string \<Rightarrow> point_bundle \<Rightarrow> bool" where
  "redeems_points env db r sid b \<longleftrightarrow> ue_gift_queries env \<and> redemption_by_id db (rm_id r) = Some r
     \<and> rm_status r = RE_reserved \<and> rm_subject_type r = ''identity'' \<and> rm_subject_id r = sid
     \<and> text_within 200 (rm_idempotency_key r)
     \<and> (\<exists>g. validate_redemption env (to_redemption r) = Inr g \<and> gf_type g = FT_points_bundle
          \<and> registry_lookup (ue_bundles env) (gf_target g) = Some b)"

lemma late_commit:
  assumes "redemption_by_id db (rm_id r) = Some r" and "rm_status r = RE_reserved"
    and "rm_reserved_until r = Some t" and "t \<le> gx_now ctx" and "''gift_cards.redeem'' \<in> set (gx_permissions ctx)"
  shows "commit_redemption ctx (show_nat (rm_id r)) key db = Inl (gift_conflict ''gift_cards.expired'')"
  using assms by (simp add: commit_redemption_def gift_require_def parse_id_def)

lemma late_gift_script:
  assumes r: "redeems_points env (uw_gifts w) r sid b" and late: "rm_reserved_until r = Some t" "t \<le> uw_now w"
    and gifts: "ue_gifts env = Some ctx" "''gift_cards.redeem'' \<in> set (gx_permissions ctx)"
    and valid: "valid_credit_debit_input (gift_grant (to_redemption r) sid b)"
    and credit: "credit_points (points_at env w) point_purchase_behavior
        (gift_grant (to_redemption r) sid b) (uw_points w) = Inr (e, p)"
  shows "run_script (gift_run (to_redemption r) sid) (wf_activities (gift_spec message env)) [] w
    = Some (Inl (gift_conflict ''gift_cards.expired'', True), w\<lparr>uw_points := p\<rparr>)"
proof -
  let ?wf = "(''workflow'', JObj (gift_run (to_redemption r) sid))" and ?v = "''user_center.gift_card.points.validate.v1''"
    and ?c = "''user_center.gift_card.points.credit.v1''"
  from r obtain g where g: "validate_redemption env (to_redemption r) = Inr g" "gf_type g = FT_points_bundle"
    "registry_lookup (ue_bundles env) (gf_target g) = Some b" by (auto simp: redeems_points_def)
  note row = r[unfolded redeems_points_def]
  have "redemption_for env (gift_run (to_redemption r) sid) w = Inr (to_redemption r)"
    using row by (simp add: redemption_for_def text_field_def field_def gift_run_def get_redemption_def
        parse_id_def to_redemption_def)
  then have "gift_points_validate env [?wf, (''state'', JObj [])] w = (Inr (bundle_result b), w)"
    using g by (simp add: gift_points_validate_def workflow_input_def field_def catalog_require_def)
  moreover have "bundle_credit env ?v ''gift_card'' ''redemption_id'' ''gift-card:''
      [?wf, (''state'', JObj [(?v, JObj (bundle_result b))])] w = (Inr (entry_result e), w\<lparr>uw_points := p\<rparr>)"
    using valid credit
    by (simp add: bundle_credit_def bundle_input_def workflow_input_def field_def text_field_def int_field_def
        prior_result_def gift_run_def bundle_result_def grant_def on_points_def gift_grant_def)
  moreover have "gift_commit env [?wf, (''state'', st)] (w\<lparr>uw_points := p\<rparr>)
      = (Inl (gift_conflict ''gift_cards.expired''), w\<lparr>uw_points := p\<rparr>)" for st
    using row late_commit[of "uw_gifts w" r t "ctx\<lparr>gx_now := uw_now w\<rparr>" "rm_idempotency_key r"] late gifts
    by (simp add: gift_commit_def workflow_input_def field_def text_field_def gift_run_def on_gifts_def
        to_redemption_def)
  moreover have "wait_request (bundle_result b) = Inr None" "wait_request (entry_result e) = Inr None"
    by (simp_all add: wait_request_def bundle_result_def entry_result_def)
  moreover have "should_retry default_retry_policy (classify_retry (gift_conflict ''gift_cards.expired'')) 1"
    by code_simp
  ultimately show ?thesis
    by (simp add: gift_spec_def user_workflow_def gift_points_steps_def dset_def)
qed

text \<open>
  C7. A gift card redeemed too late gives its points for nothing. The steps that validate a
  redemption and credit its points do not look at the time of the reservation, the step that commits
  it does. When the workflow of a reservation that has timed out is advanced, the points are credited
  and the commit fails; the card and the redemption stay reserved, and every commit at that or a
  later time fails on these rows, so that no retry completes the run.
\<close>

theorem late_gift_commit_keeps_points:
  assumes reg: "sv_registry sv = user_registry (sv_env sv) message"
    and reached: "system_steps (sv_registry sv) (empty_workflow_db w0) db"
    and points: "points_initial (uw_points w0)"
    and r: "redeems_points (sv_env sv) (uw_gifts (wd_world db)) r sid b"
    and late: "rm_reserved_until r = Some t" "t \<le> uw_now (wd_world db)"
    and gifts: "ue_gifts (sv_env sv) = Some ctx" "''gift_cards.redeem'' \<in> set (gx_permissions ctx)"
    and new: "find_by_business_key db gift_points_workflow_key bkey = None"
    and valid: "valid_credit_debit_input (gift_grant (to_redemption r) sid b)"
    and credit: "credit_points (points_at (sv_env sv) (wd_world db)) point_purchase_behavior
        (gift_grant (to_redemption r) sid b) (uw_points (wd_world db)) = Inr (dto, p)"
      "p \<noteq> uw_points (wd_world db)"
  shows "\<exists>x db1 db2 e. start_run sv gift_points_workflow_key bkey (gift_run (to_redemption r) sid) db = (Inr x, db1)
    \<and> advance (sv_registry sv) clock (wi_id x) db1 = Some (Inr WF_pending, db2)
    \<and> credited sid (''gift-card:'' @ show_nat (rm_id r) @ '':points'') (pb_points_amount b) e
        (uw_points (wd_world db)) (uw_points (wd_world db2))
    \<and> uw_gifts (wd_world db2) = uw_gifts (wd_world db)
    \<and> (\<forall>t'\<ge>uw_now (wd_world db). \<forall>key. commit_redemption (ctx\<lparr>gx_now := t'\<rparr>) (show_nat (rm_id r)) key
        (uw_gifts (wd_world db2)) = Inl (gift_conflict ''gift_cards.expired''))"
proof -
  note inv = workflow_inv_steps[OF system_steps_runs[OF reached] workflow_inv_empty]
  note script = late_gift_script[OF r late gifts valid credit(1), of message]
  have spec: "registry_lookup (sv_registry sv) gift_points_workflow_key = Some (gift_spec message (sv_env sv))"
    "wf_activities (gift_spec message (sv_env sv)) \<noteq> []"
    by (simp_all add: reg user_registry_lookup gift_spec_def user_workflow_def gift_points_steps_def)
  from run_to_end[OF reg inv spec new script, of clock] obtain x db1 db2
    where run: "start_run sv gift_points_workflow_key bkey (gift_run (to_redemption r) sid) db = (Inr x, db1)"
      "advance (sv_registry sv) clock (wi_id x) db1
        = Some (Inr (script_status (Inl (gift_conflict ''gift_cards.expired'', True))), db2)"
      "wd_world db2 = (wd_world db)\<lparr>uw_points := p\<rparr>" by metis
  have "0 < pb_points_amount b" using valid by (simp add: valid_credit_debit_input_def gift_grant_def)
  then obtain e where e: "credited sid (''gift-card:'' @ show_nat (rm_id r) @ '':points'')
      (pb_points_amount b) e (uw_points (wd_world db)) p"
    using credit_credited[OF reached_points(1)[OF reached[unfolded reg] points] _ credit]
    by (auto simp: gift_grant_def to_redemption_def)
  have "commit_redemption (ctx\<lparr>gx_now := t'\<rparr>) (show_nat (rm_id r)) key (uw_gifts (wd_world db))
      = Inl (gift_conflict ''gift_cards.expired'')" if "uw_now (wd_world db) \<le> t'" for t' key
    using r late gifts(2) that by (intro late_commit[where t = t]) (auto simp: redeems_points_def)
  with run e show ?thesis
    by (intro exI[of _ x] exI[of _ db1] exI[of _ db2] exI[of _ e]) (simp add: script_status_def)
qed

definition uc_redemption :: redemption where
  "uc_redemption = hd (gd_redemptions uc_reserved)"

definition uc_gifted :: "exn + ledger_entry_dto \<times> points_db" where
  "uc_gifted = credit_points (points_at uc_env uc_world) point_purchase_behavior
     (gift_grant (to_redemption uc_redemption) ''7'' uc_bundle) sample_db"

theorem late_gift_commit_keeps_points_witness:
  "\<exists>x db1 db2 e. start_run uc_service gift_points_workflow_key ''gift-card:6:fulfill''
        (gift_run (to_redemption uc_redemption) ''7'') uc_db = (Inr x, db1)
    \<and> advance (sv_registry uc_service) (\<lambda>_. (seconds 2000, 0)) (wi_id x) db1 = Some (Inr WF_pending, db2)
    \<and> credited ''7'' ''gift-card:6:points'' 100 e sample_db (uw_points (wd_world db2))
    \<and> uw_gifts (wd_world db2) = uc_reserved"
proof -
  have "validate_redemption uc_env (to_redemption uc_redemption) = Inr uc_gift"
    "ue_gift_queries uc_env" "redemption_by_id uc_reserved (rm_id uc_redemption) = Some uc_redemption"
    "rm_status uc_redemption = RE_reserved" "rm_subject_type uc_redemption = ''identity''"
    "rm_subject_id uc_redemption = ''7''" "text_within 200 (rm_idempotency_key uc_redemption)"
    "gf_type uc_gift = FT_points_bundle" "registry_lookup (ue_bundles uc_env) (gf_target uc_gift) = Some uc_bundle"
    by code_simp+
  then have r: "redeems_points (sv_env uc_service) (uw_gifts (wd_world uc_db)) uc_redemption ''7'' uc_bundle"
    by (simp add: redeems_points_def uc_service_def uc_db_def uc_world_def)
  have late: "rm_reserved_until uc_redemption = Some (10 + seconds 900)" "10 + seconds 900 \<le> uw_now (wd_world uc_db)"
    and gifts: "''gift_cards.redeem'' \<in> set (gx_permissions (gift_ctx_at 0))"
    and new: "find_by_business_key uc_db gift_points_workflow_key ''gift-card:6:fulfill'' = None"
    and valid: "valid_credit_debit_input (gift_grant (to_redemption uc_redemption) ''7'' uc_bundle)"
    and id: "show_nat (rm_id uc_redemption) = ''6''" "pb_points_amount uc_bundle = 100" by code_simp+
  have env: "ue_gifts (sv_env uc_service) = Some (gift_ctx_at 0)" by (simp add: uc_service_def uc_env_def)
  have res: "result uc_gifted \<noteq> None" and "pd_entries (after uc_gifted) \<noteq> []" by code_simp+
  then have "after uc_gifted \<noteq> sample_db" by (auto simp: sample_db_def)
  moreover from res obtain dto where "uc_gifted = Inr (dto, after uc_gifted)" by (auto dest: result_Inr)
  ultimately have credit: "credit_points (points_at (sv_env uc_service) (wd_world uc_db)) point_purchase_behavior
      (gift_grant (to_redemption uc_redemption) ''7'' uc_bundle) (uw_points (wd_world uc_db)) = Inr (dto, after uc_gifted)"
    "after uc_gifted \<noteq> uw_points (wd_world uc_db)"
    by (simp_all add: uc_gifted_def uc_service_def uc_db_def uc_world_def uc_start_def)
  from late_gift_commit_keeps_points[OF uc_registry uc_reached uc_start_initial(1) r late env gifts new valid credit,
      of "\<lambda>_. (seconds 2000, 0)"]
  show ?thesis by (simp add: id uc_db_def uc_world_def uc_start_def) blast
qed

end
