(* ===== verification/Access_Model.thy ===== *)
theory Access_Model
  imports Kernel_Outbox Kernel_Page
begin

text \<open>
  The data of the access capability: permission keys and their registry
  (\<^verbatim>\<open>inc/capabilities/access/registry.py\<close>), the tables (\<^verbatim>\<open>models.py\<close>), principals and results
  (\<^verbatim>\<open>schemas.py\<close>) and the appends of its events. A subject is an opaque pair of texts; whether it
  exists is a port.
\<close>

section \<open>Permission keys\<close>

definition validate_permission_key :: "string \<Rightarrow> exn + unit" where
  "validate_permission_key k = requireE (dotted key_char k) (PyException ''ValueError'')"

definition permission_store :: "string \<Rightarrow> string \<Rightarrow> string registry \<Rightarrow> (exn + unit) \<Rightarrow> exn + string registry" where
  "permission_store k owner r check =
     bindE (requireE (\<not> reg_frozen r) frozen_error) (\<lambda>_.
     bindE (validate_permission_key k) (\<lambda>_.
     bindE (requireE (registry_lookup r k = None) duplicate_error) (\<lambda>_.
     bindE check (\<lambda>_. Inr (registry_store k owner r)))))"

definition permission_register :: "string \<Rightarrow> string \<Rightarrow> string registry \<Rightarrow> exn + string registry" where
  "permission_register k owner r = permission_store k owner r
     (requireE (take (length owner + 1) k = owner @ ''.'') (KernelError ''kernel.registry_invalid'' INTERNAL))"

text \<open>An alias of the composition root is not checked against its owner.\<close>

definition permission_alias :: "string \<Rightarrow> string \<Rightarrow> string registry \<Rightarrow> exn + string registry" where
  "permission_alias k owner r = permission_store k owner r (Inr ())"

fun register_declared :: "string \<Rightarrow> string list \<Rightarrow> string registry \<Rightarrow> exn + string registry" where
  "register_declared owner [] r = Inr r"
| "register_declared owner (k # ks) r = bindE (permission_register k owner r) (register_declared owner ks)"

interpretation permissions: frozen_registry permission_register registry_lookup reg_frozen registry_freeze
  by unfold_locales (auto simp: permission_register_def permission_store_def cmd_ok)

interpretation aliases: frozen_registry permission_alias registry_lookup reg_frozen registry_freeze
  by unfold_locales (auto simp: permission_alias_def permission_store_def cmd_ok)

definition permission_known :: "string registry \<Rightarrow> string \<Rightarrow> bool" where
  "permission_known r k \<longleftrightarrow> registry_lookup r k \<noteq> None"

definition permission_require :: "string registry \<Rightarrow> string \<Rightarrow> exn + unit" where
  "permission_require r k = requireE (permission_known r k) (KernelError ''kernel.registry_unknown'' INTERNAL)"

definition permission_keys :: "string registry \<Rightarrow> string list" where
  "permission_keys r = sort (map fst (reg_items r))"

section \<open>Tables\<close>

record access_role =
  rl_id :: nat
  rl_name :: string
  rl_slug :: string
  rl_description :: "string option"
  rl_system :: bool

record role_capability =
  rc_id :: nat
  rc_role :: nat
  rc_key :: string

record subject_role =
  sr_id :: nat
  sr_subject_type :: string
  sr_subject_id :: string
  sr_role :: nat
  sr_scope :: string
  sr_valid_from :: "time option"
  sr_valid_until :: "time option"
  sr_created_at :: time

record access_db =
  ad_roles :: "access_role list"
  ad_capabilities :: "role_capability list"
  ad_grants :: "subject_role list"
  ad_outbox :: "outbox_message list"
  ad_next_id :: nat

definition empty_access_db :: access_db where
  "empty_access_db = \<lparr>ad_roles = [], ad_capabilities = [], ad_grants = [], ad_outbox = [], ad_next_id = 1\<rparr>"

section \<open>Principals and results\<close>

record role_dto =
  ro_id :: string
  ro_name :: string
  ro_slug :: string
  ro_description :: "string option"
  ro_system :: bool
  ro_capability_keys :: "string list"

record principal =
  pl_subject_id :: string
  pl_status :: string
  pl_auth_method :: string
  pl_session_id :: "string option"
  pl_client_id :: "string option"
  pl_capabilities :: "string set"

record authorization =
  az_allowed :: bool
  az_reason :: string

record grant_summary =
  gs_subject_type :: string
  gs_subject_id :: string
  gs_roles :: "string list"
  gs_scopes :: "string list"

definition to_role :: "access_role \<Rightarrow> string list \<Rightarrow> role_dto" where
  "to_role r keys = \<lparr>ro_id = show_nat (rl_id r), ro_name = rl_name r, ro_slug = rl_slug r,
     ro_description = rl_description r, ro_system = rl_system r, ro_capability_keys = keys\<rparr>"

section \<open>Context and events\<close>

record access_ctx =
  ax_now :: time
  ax_permissions :: "string registry"
  ax_subject_exists :: "string \<Rightarrow> string \<Rightarrow> bool"
  ax_actor_id :: "string option"
  ax_trace_id :: "string option"
  ax_schemas :: "(dict \<Rightarrow> exn + unit) registry"

definition access_event_keys :: "string list" where
  "access_event_keys = [''access.role_changed.v1'', ''access.subject_role_assigned.v1'',
     ''access.subject_role_revoked.v1'']"

definition access_conflict :: exn where
  "access_conflict = KernelError ''access.conflict'' CONFLICT"

definition access_not_found :: exn where
  "access_not_found = KernelError ''access.not_found'' NOT_FOUND"

definition access_validation :: "string \<Rightarrow> exn" where
  "access_validation code = KernelError code VALIDATION"

definition access_event ::
    "access_ctx \<Rightarrow> string \<Rightarrow> dict \<Rightarrow> string \<Rightarrow> access_db \<Rightarrow> exn + access_db" where
  "access_event ctx key payload aggregate db =
     bindE (outbox_append (ax_schemas ctx) (ad_next_id db + 1) (ax_now ctx)
        \<lparr>ev_id = ad_next_id db, ev_key = key, ev_occurred_at = ax_now ctx,
          ev_producer = ''access'', ev_aggregate_type = Some ''access'',
          ev_aggregate_id = Some aggregate, ev_trace_id = ax_trace_id ctx, ev_payload = payload\<rparr>
        (ad_outbox db)) (\<lambda>box.
     Inr (db\<lparr>ad_outbox := box, ad_next_id := ad_next_id db + 2\<rparr>))"

definition access_audit ::
    "access_ctx \<Rightarrow> string \<Rightarrow> string \<Rightarrow> string \<Rightarrow> dict \<Rightarrow> access_db \<Rightarrow> exn + access_db" where
  "access_audit ctx action target_type target details db =
     access_event ctx ''audit.entry.recorded.v1''
       [(''action'', JStr action), (''outcome'', JStr ''success''),
        (''occurred_at'', JTime (ax_now ctx)),
        (''actor_type'', if py_truthy (ax_actor_id ctx) then JStr ''user'' else JNull),
        (''actor_id'', opt_json (ax_actor_id ctx)), (''target_type'', JStr target_type),
        (''target_id'', JStr target), (''trace_id'', opt_json (ax_trace_id ctx)),
        (''details'', JObj details)] target db"

end
