(* ===== verification/Access_Commands.thy ===== *)
theory Access_Commands
  imports Access_Model Python_Text
begin

text \<open>
  The commands of the access capability (\<^verbatim>\<open>inc/capabilities/access/commands.py\<close>), its decisions
  (\<^verbatim>\<open>authorize.py\<close>), its queries and diagnostics (\<^verbatim>\<open>queries.py\<close>), and the guard of the HTTP
  interface that uses them (\<^verbatim>\<open>inc/api/http/context.py\<close>). What a session adds and deletes is written
  at the commit, where the unit of work of SQLAlchemy inserts before it deletes. The branch of the
  bootstrap that lost a race for the role row is left out: a command is one transaction here.
\<close>

section \<open>Rows\<close>

definition access_id :: "string \<Rightarrow> exn + nat" where
  "access_id s = someE (read_id s) (PyException ''ValueError'')"

definition role_by_id :: "access_db \<Rightarrow> nat \<Rightarrow> access_role option" where
  "role_by_id db i = find (\<lambda>r. rl_id r = i) (ad_roles db)"

definition role_by_slug :: "access_db \<Rightarrow> string \<Rightarrow> access_role option" where
  "role_by_slug db s = find (\<lambda>r. rl_slug r = s) (ad_roles db)"

definition require_role :: "access_db \<Rightarrow> string \<Rightarrow> exn + access_role" where
  "require_role db rid = bindE (access_id rid) (\<lambda>i. someE (role_by_id db i) access_not_found)"

definition role_keys :: "access_db \<Rightarrow> nat \<Rightarrow> string list" where
  "role_keys db i = map rc_key (filter (\<lambda>c. rc_role c = i) (ad_capabilities db))"

definition find_grant :: "access_db \<Rightarrow> string \<Rightarrow> string \<Rightarrow> nat \<Rightarrow> subject_role option" where
  "find_grant db st sid role = find (\<lambda>g. sr_subject_type g = st \<and> sr_subject_id g = sid \<and> sr_role g = role)
     (ad_grants db)"

definition save_role :: "access_role \<Rightarrow> access_db \<Rightarrow> access_db" where
  "save_role r db = db\<lparr>ad_roles := update_where (\<lambda>x. rl_id x = rl_id r) (\<lambda>_. r) (ad_roles db)\<rparr>"

text \<open>Inserts with their unique constraints.\<close>

definition insert_role ::
    "string \<Rightarrow> string \<Rightarrow> string option \<Rightarrow> bool \<Rightarrow> access_db \<Rightarrow> exn + access_role \<times> access_db" where
  "insert_role name slug description system db =
     bindE (requireE (role_by_slug db slug = None) (PyException ''IntegrityError'')) (\<lambda>_.
     let r = \<lparr>rl_id = ad_next_id db, rl_name = name, rl_slug = slug, rl_description = description,
           rl_system = system\<rparr> in
     Inr (r, db\<lparr>ad_roles := ad_roles db @ [r], ad_next_id := Suc (ad_next_id db)\<rparr>))"

definition insert_capability :: "nat \<Rightarrow> string \<Rightarrow> access_db \<Rightarrow> exn + access_db" where
  "insert_capability role k db =
     bindE (requireE (k \<notin> set (role_keys db role)) (PyException ''IntegrityError'')) (\<lambda>_.
     Inr (db\<lparr>ad_capabilities := ad_capabilities db @
         [\<lparr>rc_id = ad_next_id db, rc_role = role, rc_key = k\<rparr>], ad_next_id := Suc (ad_next_id db)\<rparr>))"

fun insert_capabilities :: "nat \<Rightarrow> string list \<Rightarrow> access_db \<Rightarrow> exn + access_db" where
  "insert_capabilities role [] db = Inr db"
| "insert_capabilities role (k # ks) db =
     bindE (insert_capability role k db) (insert_capabilities role ks)"

definition insert_grant ::
    "time \<Rightarrow> string \<Rightarrow> string \<Rightarrow> nat \<Rightarrow> string \<Rightarrow> access_db \<Rightarrow> exn + access_db" where
  "insert_grant now st sid role scope db =
     bindE (requireE (find_grant db st sid role = None) (PyException ''IntegrityError'')) (\<lambda>_.
     Inr (db\<lparr>ad_grants := ad_grants db @ [\<lparr>sr_id = ad_next_id db, sr_subject_type = st,
         sr_subject_id = sid, sr_role = role, sr_scope = scope, sr_valid_from = None,
         sr_valid_until = None, sr_created_at = now\<rparr>], ad_next_id := Suc (ad_next_id db)\<rparr>))"

text \<open>A flush inside \<^verbatim>\<open>except IntegrityError\<close>.\<close>

definition or_conflict :: "(exn + 'a) \<Rightarrow> exn + 'a" where
  "or_conflict r = (case r of
     Inl e \<Rightarrow> Inl (if e = PyException ''IntegrityError'' then access_conflict else e) | Inr x \<Rightarrow> Inr x)"

section \<open>Roles\<close>

definition role_changed :: "access_ctx \<Rightarrow> string \<Rightarrow> string \<Rightarrow> access_db \<Rightarrow> exn + access_db" where
  "role_changed ctx rid action db = access_event ctx ''access.role_changed.v1''
     [(''role_id'', JStr rid), (''action'', JStr action)] rid db"

definition create_role ::
    "access_ctx \<Rightarrow> string \<Rightarrow> string \<Rightarrow> string option \<Rightarrow> access_db \<Rightarrow> exn + role_dto \<times> access_db" where
  "create_role ctx name slug description db =
     bindE (or_conflict (insert_role name slug description False db)) (\<lambda>(r, db1).
     let rid = show_nat (rl_id r) in
     bindE (role_changed ctx rid ''created'' db1) (\<lambda>db2.
     bindE (access_audit ctx ''access.role.created'' ''role'' rid [(''slug'', JStr slug)] db2) (\<lambda>db3.
     Inr (to_role r [], db3))))"

definition stripped_text :: "string option \<Rightarrow> string option" where
  "stripped_text d = (case d of Some s \<Rightarrow> if s = [] then None else Some (py_strip s) | None \<Rightarrow> None)"

definition update_role ::
    "access_ctx \<Rightarrow> string \<Rightarrow> string \<Rightarrow> string option \<Rightarrow> access_db \<Rightarrow> exn + role_dto \<times> access_db" where
  "update_role ctx rid name description db =
     bindE (requireE (py_strip name \<noteq> []) (access_validation ''role.name_required'')) (\<lambda>_.
     bindE (require_role db rid) (\<lambda>r.
     bindE (requireE (rl_slug r \<noteq> ''administrator'') access_conflict) (\<lambda>_.
     let r' = r\<lparr>rl_name := py_strip name, rl_description := stripped_text description\<rparr> in
     bindE (role_changed ctx rid ''updated'' (save_role r' db)) (\<lambda>db2.
     bindE (access_audit ctx ''access.role.updated'' ''role'' rid [] db2) (\<lambda>db3.
     Inr (to_role r' (role_keys db (rl_id r)), db3))))))"

text \<open>The keys and the grants of a role are deleted by the database with it.\<close>

definition drop_role :: "nat \<Rightarrow> access_db \<Rightarrow> access_db" where
  "drop_role i db = db\<lparr>ad_roles := filter (\<lambda>r. rl_id r \<noteq> i) (ad_roles db),
     ad_capabilities := filter (\<lambda>c. rc_role c \<noteq> i) (ad_capabilities db),
     ad_grants := filter (\<lambda>g. sr_role g \<noteq> i) (ad_grants db)\<rparr>"

definition delete_role :: "access_ctx \<Rightarrow> string \<Rightarrow> access_db \<Rightarrow> exn + access_db" where
  "delete_role ctx rid db =
     bindE (require_role db rid) (\<lambda>r.
     bindE (requireE (\<not> rl_system r) access_conflict) (\<lambda>_.
     bindE (role_changed ctx rid ''deleted'' db) (\<lambda>db1.
     bindE (access_audit ctx ''access.role.deleted'' ''role'' rid [] db1) (\<lambda>db2.
     Inr (drop_role (rl_id r) db2)))))"

fun require_all :: "string registry \<Rightarrow> string list \<Rightarrow> exn + unit" where
  "require_all r [] = Inr ()"
| "require_all r (k # ks) = bindE (permission_require r k) (\<lambda>_. require_all r ks)"

text \<open>
  The rows of the old keys are deleted and rows for the new keys added in one session; its flush
  inserts the new rows while the old ones are still there.
\<close>

definition replace_role_capabilities ::
    "access_ctx \<Rightarrow> string \<Rightarrow> string list \<Rightarrow> access_db \<Rightarrow> exn + role_dto \<times> access_db" where
  "replace_role_capabilities ctx rid keys db =
     bindE (require_all (ax_permissions ctx) keys) (\<lambda>_.
     bindE (require_role db rid) (\<lambda>r.
     bindE (requireE (rl_slug r \<noteq> ''administrator'') access_conflict) (\<lambda>_.
     let old = map rc_id (filter (\<lambda>c. rc_role c = rl_id r) (ad_capabilities db)) in
     bindE (role_changed ctx rid ''capabilities_replaced'' db) (\<lambda>db1.
     bindE (access_audit ctx ''access.role.capabilities_replaced'' ''role'' rid
       [(''keys'', JList (map JStr keys))] db1) (\<lambda>db2.
     bindE (insert_capabilities (rl_id r) keys db2) (\<lambda>db3.
     Inr (to_role r keys, db3\<lparr>ad_capabilities :=
       filter (\<lambda>c. rc_id c \<notin> set old) (ad_capabilities db3)\<rparr>)))))))"

section \<open>Grants\<close>

definition invalid_scope :: exn where
  "invalid_scope = KernelError ''access.invalid_scope'' VALIDATION"

definition subject_missing :: exn where
  "subject_missing = KernelError ''access.subject_not_found'' VALIDATION"

definition valid_scope :: "string \<Rightarrow> bool" where
  "valid_scope s \<longleftrightarrow> s \<in> {''global'', ''own''}"

definition assign_role ::
    "access_ctx \<Rightarrow> string \<Rightarrow> string \<Rightarrow> string \<Rightarrow> string \<Rightarrow> access_db \<Rightarrow> exn + access_db" where
  "assign_role ctx st sid rid scope db =
     bindE (requireE (valid_scope scope) invalid_scope) (\<lambda>_.
     bindE (requireE (ax_subject_exists ctx st sid) subject_missing) (\<lambda>_.
     bindE (require_role db rid) (\<lambda>r.
     bindE (or_conflict (insert_grant (ax_now ctx) st sid (rl_id r) scope db)) (\<lambda>db1.
     bindE (access_event ctx ''access.subject_role_assigned.v1''
       [(''subject_type'', JStr st), (''subject_id'', JStr sid), (''role_id'', JStr rid),
        (''scope'', JStr scope)] sid db1) (\<lambda>db2.
     access_audit ctx ''access.subject.role_assigned'' ''subject'' sid
       [(''role_id'', JStr rid), (''scope'', JStr scope)] db2)))))"

definition revoke_role ::
    "access_ctx \<Rightarrow> string \<Rightarrow> string \<Rightarrow> string \<Rightarrow> access_db \<Rightarrow> exn + access_db" where
  "revoke_role ctx st sid rid db =
     bindE (access_id rid) (\<lambda>i.
     bindE (someE (find_grant db st sid i) access_not_found) (\<lambda>g.
     bindE (access_event ctx ''access.subject_role_revoked.v1''
       [(''subject_type'', JStr st), (''subject_id'', JStr sid), (''role_id'', JStr rid)] sid db) (\<lambda>db1.
     bindE (access_audit ctx ''access.subject.role_revoked'' ''subject'' sid
       [(''role_id'', JStr rid)] db1) (\<lambda>db2.
     Inr (db2\<lparr>ad_grants := filter (\<lambda>x. sr_id x \<noteq> sr_id g) (ad_grants db2)\<rparr>)))))"

section \<open>Bootstrap and base roles\<close>

text \<open>The role under a slug, created if there is none.\<close>

definition bootstrap_role :: "access_db \<Rightarrow> exn + (access_role \<times> bool) \<times> access_db" where
  "bootstrap_role db = (case role_by_slug db ''administrator'' of
     Some r \<Rightarrow> Inr ((r, False), db)
   | None \<Rightarrow> bindE (insert_role ''Administrator'' ''administrator''
       (Some ''System administrator role'') True db) (\<lambda>(r, db1). Inr ((r, True), db1)))"

definition role_holders :: "access_db \<Rightarrow> nat \<Rightarrow> subject_role list" where
  "role_holders db i = filter (\<lambda>g. sr_role g = i) (ad_grants db)"

definition bootstrap_administrator ::
    "access_ctx \<Rightarrow> string \<Rightarrow> string \<Rightarrow> access_db \<Rightarrow> exn + role_dto \<times> access_db" where
  "bootstrap_administrator ctx st sid db =
     bindE (requireE (ax_subject_exists ctx st sid) subject_missing) (\<lambda>_.
     bindE (bootstrap_role db) (\<lambda>((r, created), db1).
     let holds = (\<lambda>g. sr_subject_type g = st \<and> sr_subject_id g = sid);
         keys = permission_keys (ax_permissions ctx) in
     bindE (requireE (filter (\<lambda>g. \<not> holds g) (role_holders db1 (rl_id r)) = [])
       (KernelError ''access.administrator_exists'' CONFLICT)) (\<lambda>_.
     bindE (insert_capabilities (rl_id r)
       (filter (\<lambda>k. k \<notin> set (role_keys db1 (rl_id r))) keys) db1) (\<lambda>db2.
     if filter holds (role_holders db1 (rl_id r)) \<noteq> [] then Inr (to_role r keys, db2)
     else
       bindE (insert_grant (ax_now ctx) st sid (rl_id r) ''global'' db2) (\<lambda>db3.
       bindE (access_audit ctx ''access.bootstrap.administrator'' ''role'' (show_nat (rl_id r))
         [(''subject'', JStr (st @ '':'' @ sid)), (''role_created'', JBool created)] db3) (\<lambda>db4.
       Inr (to_role r keys, db4)))))))"

definition base_role_templates :: "(string \<times> string \<times> string \<times> string list) list" where
  "base_role_templates =
     [(''Editor'', ''editor'', ''Content editor'',
        [''admin.dashboard.read'', ''content.read'', ''content.write'', ''content.schedule'',
         ''content.publish'', ''content.archive'', ''content.pin'', ''content.manage'',
         ''taxonomy.read'', ''taxonomy.manage'', ''assets.read'', ''assets.upload'',
         ''comments.read'', ''comments.moderate'', ''comments.delete'', ''community.read_admin'',
         ''community.posts.moderate'', ''community.tags.manage'', ''community.discussions.lock'',
         ''community.discussions.archive'']),
      (''Author'', ''author'', ''Content author'',
        [''content.read'', ''content.write'', ''taxonomy.read'', ''assets.read'', ''assets.upload'']),
      (''User'', ''user'', ''Registered user'',
        [''community.discussions.create'', ''community.discussions.reply'',
         ''community.discussions.edit_own'', ''comments.submit''])]"

text \<open>The statement that deletes stale keys runs at once, the new keys are added with the loop.\<close>

fun add_base_keys :: "string registry \<Rightarrow> nat \<Rightarrow> string list \<Rightarrow> string list \<Rightarrow> access_db \<Rightarrow> exn + access_db" where
  "add_base_keys perms role existing [] db = Inr db"
| "add_base_keys perms role existing (k # ks) db =
     bindE (permission_require perms k) (\<lambda>_.
     bindE (if k \<in> set existing then Inr db else insert_capability role k db) (\<lambda>db1.
     add_base_keys perms role existing ks db1))"

definition ensure_base_role ::
    "access_ctx \<Rightarrow> string \<times> string \<times> string \<times> string list \<Rightarrow> access_db \<Rightarrow> exn + (string \<times> string) \<times> access_db" where
  "ensure_base_role ctx t db = (case t of (name, slug, description, keys) \<Rightarrow>
     bindE (case role_by_slug db slug of
         None \<Rightarrow> insert_role name slug (Some description) True db
       | Some r \<Rightarrow> Inr (r, db)) (\<lambda>(r, db1).
     let r' = r\<lparr>rl_system := True, rl_name := name, rl_description := Some description\<rparr>;
         db2 = save_role r' db1;
         existing = role_keys db2 (rl_id r);
         db3 = db2\<lparr>ad_capabilities := filter (\<lambda>c. \<not> (rc_role c = rl_id r \<and> rc_key c \<notin> set keys))
           (ad_capabilities db2)\<rparr> in
     bindE (add_base_keys (ax_permissions ctx) (rl_id r) existing keys db3) (\<lambda>db4.
     Inr ((slug, show_nat (rl_id r)), db4))))"

fun ensure_roles ::
    "access_ctx \<Rightarrow> (string \<times> string \<times> string \<times> string list) list \<Rightarrow> access_db
      \<Rightarrow> exn + (string \<times> string) list \<times> access_db" where
  "ensure_roles ctx [] db = Inr ([], db)"
| "ensure_roles ctx (t # ts) db =
     bindE (ensure_base_role ctx t db) (\<lambda>(p, db1).
     bindE (ensure_roles ctx ts db1) (\<lambda>(ps, db2). Inr (p # ps, db2)))"

definition ensure_base_roles :: "access_ctx \<Rightarrow> access_db \<Rightarrow> exn + (string \<times> string) list \<times> access_db" where
  "ensure_base_roles ctx db = ensure_roles ctx base_role_templates db"

definition assign_in_uow :: "time \<Rightarrow> string \<Rightarrow> string \<Rightarrow> access_db \<Rightarrow> exn + access_db" where
  "assign_in_uow now st sid db =
     bindE (someE (role_by_slug db ''user'') access_not_found) (\<lambda>r.
     case find_grant db st sid (rl_id r) of
       Some _ \<Rightarrow> Inr db
     | None \<Rightarrow> insert_grant now st sid (rl_id r) ''global'' db)"

definition assign_default_role :: "access_ctx \<Rightarrow> string \<Rightarrow> string \<Rightarrow> access_db \<Rightarrow> exn + access_db" where
  "assign_default_role ctx st sid db =
     bindE (requireE (ax_subject_exists ctx st sid) subject_missing) (\<lambda>_.
     assign_in_uow (ax_now ctx) st sid db)"

section \<open>Decisions\<close>

text \<open>The rows of the query: a role without keys gives one row without a key.\<close>

definition current_grant :: "time \<Rightarrow> string \<Rightarrow> subject_role \<Rightarrow> bool" where
  "current_grant now sid g \<longleftrightarrow> sr_subject_type g = ''identity'' \<and> sr_subject_id g = sid
     \<and> (case sr_valid_from g of None \<Rightarrow> True | Some t \<Rightarrow> t \<le> now)
     \<and> (case sr_valid_until g of None \<Rightarrow> True | Some t \<Rightarrow> now \<le> t)"

definition key_rows :: "access_db \<Rightarrow> nat \<Rightarrow> string option list" where
  "key_rows db i = (case role_keys db i of [] \<Rightarrow> [None] | ks \<Rightarrow> map Some ks)"

definition grant_rows :: "access_db \<Rightarrow> time \<Rightarrow> string \<Rightarrow> (string option \<times> string \<times> string) list" where
  "grant_rows db now sid = concat (map (\<lambda>g. case role_by_id db (sr_role g) of
       None \<Rightarrow> []
     | Some r \<Rightarrow> map (\<lambda>k. (k, sr_scope g, rl_slug r)) (key_rows db (sr_role g)))
     (filter (current_grant now sid) (ad_grants db)))"

definition row_keys :: "(string option \<times> string \<times> string) list \<Rightarrow> string set" where
  "row_keys rows = {k. Some k \<in> fst ` set rows}"

lemma row_keys_code [code]:
  "row_keys rows = set (concat (map (\<lambda>r. case fst r of Some k \<Rightarrow> [k] | None \<Rightarrow> []) rows))"
  by (force simp: row_keys_def split: option.splits)

definition global_administrator :: "(string option \<times> string \<times> string) list \<Rightarrow> bool" where
  "global_administrator rows \<longleftrightarrow>
     list_ex (\<lambda>(_, scope, slug). slug = ''administrator'' \<and> scope = ''global'') rows"

definition granted_keys ::
    "string registry option \<Rightarrow> (string option \<times> string \<times> string) list \<Rightarrow> string set" where
  "granted_keys perms rows = row_keys rows \<union>
     (case perms of Some r \<Rightarrow> if global_administrator rows then set (permission_keys r) else {}
      | None \<Rightarrow> {})"

definition denied :: "string \<Rightarrow> authorization" where
  "denied reason = \<lparr>az_allowed = False, az_reason = reason\<rparr>"

definition granted :: "string \<Rightarrow> authorization" where
  "granted reason = \<lparr>az_allowed = True, az_reason = reason\<rparr>"

definition decide ::
    "string registry option \<Rightarrow> time \<Rightarrow> principal \<Rightarrow> string \<Rightarrow> string \<Rightarrow> access_db \<Rightarrow> exn + authorization" where
  "decide perms now p k scope db =
     (if pl_status p \<notin> {''active'', ''anonymous''} then Inr (denied ''deny.principal_status'')
      else if pl_status p = ''anonymous'' then Inr (denied ''deny.anonymous'')
      else bindE (requireE (valid_scope scope) invalid_scope) (\<lambda>_.
       let rows = grant_rows db now (pl_subject_id p);
           scopes = (\<lambda>(_, s, _). s) ` {row \<in> set rows. fst row = Some k}
             \<union> (if global_administrator rows \<and> perms \<noteq> None then {''global''} else {}) in
       if k \<notin> granted_keys perms rows then Inr (denied ''deny.no_grant'')
       else if scope = ''global'' then
         Inr (if ''global'' \<in> scopes then granted ''allow.global'' else denied ''deny.scope'')
       else Inr (if ''global'' \<in> scopes \<or> ''own'' \<in> scopes then granted (''allow.'' @ scope)
         else denied ''deny.scope'')))"

definition capabilities_of ::
    "string registry option \<Rightarrow> time \<Rightarrow> principal \<Rightarrow> access_db \<Rightarrow> string set" where
  "capabilities_of perms now p db =
     (if pl_status p \<noteq> ''active'' then {} else granted_keys perms (grant_rows db now (pl_subject_id p)))"

section \<open>The guard of the HTTP interface\<close>

text \<open>
  The verifier resolves a token to an active subject; the principal it builds carries the
  capabilities, which the guard of a route looks up.
\<close>

definition request_principal ::
    "string registry \<Rightarrow> time \<Rightarrow> string \<Rightarrow> string option \<Rightarrow> access_db \<Rightarrow> principal" where
  "request_principal perms now sid client db =
     (let p = \<lparr>pl_subject_id = sid, pl_status = ''active'', pl_auth_method = ''bearer'',
        pl_session_id = None, pl_client_id = client, pl_capabilities = {}\<rparr> in
      p\<lparr>pl_capabilities := capabilities_of (Some perms) now p db \<inter> set (permission_keys perms)\<rparr>)"

definition require_capability :: "principal \<Rightarrow> string \<Rightarrow> exn + unit" where
  "require_capability p k =
     requireE (k \<in> pl_capabilities p) (KernelError ''api.forbidden'' FORBIDDEN)"

section \<open>Queries and diagnostics\<close>

definition list_roles :: "access_db \<Rightarrow> role_dto list" where
  "list_roles db = map (\<lambda>r. to_role r (role_keys db (rl_id r)))
     (sort_key (\<lambda>r. (rl_slug r, rl_id r)) (ad_roles db))"

definition role_exists :: "access_db \<Rightarrow> string \<Rightarrow> bool" where
  "role_exists db slug \<longleftrightarrow> role_by_slug db slug \<noteq> None"

definition grants_for :: "access_db \<Rightarrow> string \<Rightarrow> string \<Rightarrow> grant_summary" where
  "grants_for db st sid =
     (let rows = sort_key (\<lambda>g. (sr_created_at g, sr_id g))
        (filter (\<lambda>g. sr_subject_type g = st \<and> sr_subject_id g = sid) (ad_grants db)) in
      \<lparr>gs_subject_type = st, gs_subject_id = sid, gs_roles = map (\<lambda>g. show_nat (sr_role g)) rows,
       gs_scopes = map sr_scope rows\<rparr>)"

text \<open>The two results: how many keys are unknown, and how many subjects administrate.\<close>

definition access_diagnostics :: "string registry \<Rightarrow> access_db \<Rightarrow> (string \<times> string \<times> nat) list" where
  "access_diagnostics perms db =
     (let unknown = filter (\<lambda>k. \<not> permission_known perms k) (remdups (map rc_key (ad_capabilities db)));
          admins = filter (\<lambda>g. case role_by_id db (sr_role g) of
            Some r \<Rightarrow> rl_slug r = ''administrator'' | None \<Rightarrow> False) (ad_grants db) in
      [(''access.unknown_capability_keys'', if unknown = [] then ''ok'' else ''failed'', length unknown),
       (''access.no_admin_subjects'', if admins = [] then ''degraded'' else ''ok'', length admins)])"

end
