(* ===== verification/Access_Invariant.thy ===== *)
theory Access_Invariant
  imports Access_Commands
begin

text \<open>
  The transactions of the access capability as steps over a fixed permission registry, and the
  consistency of its tables: identifiers and slugs are unique, a role has each key once and a subject
  each role once, keys and grants belong to existing roles, every key is registered.
\<close>

section \<open>Steps\<close>

inductive access_step :: "string registry \<Rightarrow> access_db \<Rightarrow> access_db \<Rightarrow> bool" for perms :: "string registry" where
  as_create: "create_role ctx name slug description db = Inr (dto, db') \<Longrightarrow> access_step perms db db'"
| as_update: "update_role ctx rid name description db = Inr (dto, db') \<Longrightarrow> access_step perms db db'"
| as_delete: "delete_role ctx rid db = Inr db' \<Longrightarrow> access_step perms db db'"
| as_replace: "ax_permissions ctx = perms \<Longrightarrow> replace_role_capabilities ctx rid keys db = Inr (dto, db')
    \<Longrightarrow> access_step perms db db'"
| as_assign: "assign_role ctx st sid rid scope db = Inr db' \<Longrightarrow> access_step perms db db'"
| as_revoke: "revoke_role ctx st sid rid db = Inr db' \<Longrightarrow> access_step perms db db'"
| as_bootstrap: "ax_permissions ctx = perms \<Longrightarrow> bootstrap_administrator ctx st sid db = Inr (dto, db')
    \<Longrightarrow> access_step perms db db'"
| as_ensure: "ax_permissions ctx = perms \<Longrightarrow> ensure_base_roles ctx db = Inr (ids, db')
    \<Longrightarrow> access_step perms db db'"
| as_default: "assign_in_uow now st sid db = Inr db' \<Longrightarrow> access_step perms db db'"
| as_dispatch: "access_step perms db (db\<lparr>ad_outbox := box\<rparr>)"

abbreviation access_steps :: "string registry \<Rightarrow> access_db \<Rightarrow> access_db \<Rightarrow> bool" where
  "access_steps perms \<equiv> (access_step perms)\<^sup>*\<^sup>*"

section \<open>The invariant\<close>

definition ids_ok :: "('a \<Rightarrow> nat) \<Rightarrow> nat \<Rightarrow> 'a list \<Rightarrow> bool" where
  "ids_ok key n rows \<longleftrightarrow> distinct (map key rows) \<and> (\<forall>x\<in>set rows. key x < n)"

definition key_pair :: "role_capability \<Rightarrow> nat \<times> string" where
  "key_pair c = (rc_role c, rc_key c)"

definition grant_key :: "subject_role \<Rightarrow> string \<times> string \<times> nat" where
  "grant_key g = (sr_subject_type g, sr_subject_id g, sr_role g)"

definition access_inv :: "string registry \<Rightarrow> access_db \<Rightarrow> bool" where
  "access_inv perms db \<longleftrightarrow>
     ids_ok rl_id (ad_next_id db) (ad_roles db) \<and> distinct (map rl_slug (ad_roles db))
     \<and> ids_ok rc_id (ad_next_id db) (ad_capabilities db) \<and> distinct (map key_pair (ad_capabilities db))
     \<and> (\<forall>c\<in>set (ad_capabilities db). rc_role c \<in> rl_id ` set (ad_roles db) \<and> permission_known perms (rc_key c))
     \<and> ids_ok sr_id (ad_next_id db) (ad_grants db) \<and> distinct (map grant_key (ad_grants db))
     \<and> (\<forall>g\<in>set (ad_grants db). sr_role g \<in> rl_id ` set (ad_roles db) \<and> valid_scope (sr_scope g))"

lemma ids_ok_mono: "ids_ok key n rows \<Longrightarrow> n \<le> m \<Longrightarrow> ids_ok key m rows"
  by (auto simp: ids_ok_def)

lemma ids_ok_snoc: "ids_ok key n rows \<Longrightarrow> key x = n \<Longrightarrow> ids_ok key (Suc n) (rows @ [x])"
  by (force simp: ids_ok_def)

lemma distinct_filter_map: "distinct (map f xs) \<Longrightarrow> distinct (map f (filter p xs))"
  by (induction xs) auto

lemma ids_ok_filter: "ids_ok key n rows \<Longrightarrow> ids_ok key n (filter p rows)"
  by (auto simp: ids_ok_def distinct_filter_map)

lemma access_inv_empty: "access_inv perms empty_access_db"
  by (simp add: access_inv_def empty_access_db_def ids_ok_def)

lemma access_event_db:
  "access_event ctx key payload aggregate db = Inr db'
    \<Longrightarrow> \<exists>box. db' = db\<lparr>ad_outbox := box, ad_next_id := ad_next_id db + 2\<rparr>"
  by (auto simp: access_event_def cmd_ok)

lemma access_inv_outbox:
  "access_inv perms db \<Longrightarrow> ad_next_id db \<le> n \<Longrightarrow> access_inv perms (db\<lparr>ad_outbox := box, ad_next_id := n\<rparr>)"
  by (auto simp: access_inv_def intro: ids_ok_mono)

lemma access_inv_event:
  assumes "access_event ctx key payload aggregate db = Inr db'" and "access_inv perms db"
  shows "access_inv perms db'"
  using access_event_db[OF assms(1)] assms(2) by (auto intro: access_inv_outbox)

lemmas event_defs = role_changed_def access_audit_def

text \<open>What an event leaves alone.\<close>

lemma access_event_tables:
  assumes "access_event ctx key payload aggregate db = Inr db'"
  shows "ad_roles db' = ad_roles db" and "ad_capabilities db' = ad_capabilities db"
    and "ad_grants db' = ad_grants db"
  using access_event_db[OF assms] by auto

lemma role_by_idD: "role_by_id db i = Some r \<Longrightarrow> r \<in> set (ad_roles db) \<and> rl_id r = i"
  by (auto simp: role_by_id_def dest: find_Some_mem)

lemma role_by_slugD: "role_by_slug db s = Some r \<Longrightarrow> r \<in> set (ad_roles db) \<and> rl_slug r = s"
  by (auto simp: role_by_slug_def dest: find_Some_mem)

lemma require_roleD: "require_role db rid = Inr r \<Longrightarrow> r \<in> set (ad_roles db) \<and> role_by_id db (rl_id r) = Some r"
  by (auto simp: require_role_def cmd_ok dest: role_by_idD)

lemma role_keys_iff: "k \<in> set (role_keys db i) \<longleftrightarrow> (i, k) \<in> key_pair ` set (ad_capabilities db)"
  by (force simp: role_keys_def key_pair_def)

lemma find_grant_None:
  "find_grant db st sid i = None \<longleftrightarrow> (st, sid, i) \<notin> grant_key ` set (ad_grants db)"
  by (force simp: find_grant_def find_None_iff' grant_key_def)

section \<open>Every transaction keeps it\<close>

lemma insert_role_inv:
  assumes "access_inv perms db" and "insert_role name slug description system db = Inr (r, db')"
  shows "access_inv perms db'" and "r \<in> set (ad_roles db')" and "rl_slug r = slug" and "rl_id r = ad_next_id db"
    and "ad_roles db' = ad_roles db @ [r]" and "ad_capabilities db' = ad_capabilities db" and "ad_grants db' = ad_grants db"
proof -
  have none: "slug \<notin> rl_slug ` set (ad_roles db)"
    and r: "db' = db\<lparr>ad_roles := ad_roles db @ [r], ad_next_id := Suc (ad_next_id db)\<rparr>"
      "rl_id r = ad_next_id db" "rl_slug r = slug"
    using assms(2) by (auto simp: insert_role_def cmd_ok Let_def role_by_slug_def find_None_iff')
  then show "access_inv perms db'"
    using assms(1) unfolding access_inv_def by (auto intro: ids_ok_snoc ids_ok_mono)
qed (use assms(2) in \<open>auto simp: insert_role_def cmd_ok Let_def\<close>)

lemma insert_capability_inv:
  assumes "access_inv perms db" and "insert_capability i k db = Inr db'"
    and "i \<in> rl_id ` set (ad_roles db)" and "permission_known perms k"
  shows "access_inv perms db'"
proof -
  define c where "c = \<lparr>rc_id = ad_next_id db, rc_role = i, rc_key = k\<rparr>"
  have db': "db' = db\<lparr>ad_capabilities := ad_capabilities db @ [c], ad_next_id := Suc (ad_next_id db)\<rparr>"
    and new: "(i, k) \<notin> key_pair ` set (ad_capabilities db)"
    using assms(2) by (simp_all add: insert_capability_def cmd_ok role_keys_iff c_def)
  have c: "rc_id c = ad_next_id db" "rc_role c = i" "rc_key c = k" "key_pair c = (i, k)"
    by (simp_all add: c_def key_pair_def)
  with new assms(1,3,4) show ?thesis
    unfolding access_inv_def db' by (auto intro: ids_ok_snoc ids_ok_mono)
qed

lemma insert_capability_tables:
  assumes "insert_capability i k db = Inr db'"
  shows "ad_roles db' = ad_roles db" and "ad_grants db' = ad_grants db"
    and "set (role_keys db' i) = insert k (set (role_keys db i))"
proof -
  define c where "c = \<lparr>rc_id = ad_next_id db, rc_role = i, rc_key = k\<rparr>"
  have "db' = db\<lparr>ad_capabilities := ad_capabilities db @ [c], ad_next_id := Suc (ad_next_id db)\<rparr>"
    using assms by (simp add: insert_capability_def cmd_ok c_def)
  moreover have "rc_role c = i" "rc_key c = k" by (simp_all add: c_def)
  ultimately show "ad_roles db' = ad_roles db" "ad_grants db' = ad_grants db"
    "set (role_keys db' i) = insert k (set (role_keys db i))"
    by (auto simp: role_keys_def)
qed

lemma insert_capabilities_tables:
  "insert_capabilities i ks db = Inr db' \<Longrightarrow> ad_roles db' = ad_roles db \<and> ad_grants db' = ad_grants db
    \<and> set (role_keys db' i) = set ks \<union> set (role_keys db i)"
  by (induction ks arbitrary: db) (auto simp: cmd_ok insert_capability_tables)

lemma insert_capabilities_inv:
  assumes "access_inv perms db" and "insert_capabilities i ks db = Inr db'"
    and "i \<in> rl_id ` set (ad_roles db)" and "\<forall>k\<in>set ks. permission_known perms k"
  shows "access_inv perms db'"
  using assms
proof (induction ks arbitrary: db)
  case (Cons k ks)
  from Cons.prems(2) obtain db1 where db1: "insert_capability i k db = Inr db1"
    "insert_capabilities i ks db1 = Inr db'" by (auto simp: cmd_ok)
  from Cons.prems insert_capability_inv[OF Cons.prems(1) db1(1)] insert_capability_tables(1)[OF db1(1)]
  show ?case by (intro Cons.IH[OF _ db1(2)]) simp_all
qed simp

lemma insert_grant_inv:
  assumes "access_inv perms db" and "insert_grant now st sid i scope db = Inr db'"
    and "i \<in> rl_id ` set (ad_roles db)" and "valid_scope scope"
  shows "access_inv perms db'"
proof -
  define g where "g = \<lparr>sr_id = ad_next_id db, sr_subject_type = st, sr_subject_id = sid, sr_role = i,
    sr_scope = scope, sr_valid_from = None, sr_valid_until = None, sr_created_at = now\<rparr>"
  have db': "db' = db\<lparr>ad_grants := ad_grants db @ [g], ad_next_id := Suc (ad_next_id db)\<rparr>"
    and new: "(st, sid, i) \<notin> grant_key ` set (ad_grants db)"
    using assms(2) by (simp_all add: insert_grant_def cmd_ok find_grant_None g_def)
  have g: "sr_id g = ad_next_id db" "grant_key g = (st, sid, i)" "sr_role g = i" "sr_scope g = scope"
    by (simp_all add: g_def grant_key_def)
  with new assms(1,3,4) show ?thesis
    unfolding access_inv_def db' by (auto intro: ids_ok_snoc ids_ok_mono)
qed

lemma or_conflict_Inr [cmd_ok]: "or_conflict r = Inr x \<longleftrightarrow> r = Inr x"
  by (cases r) (simp_all add: or_conflict_def)

lemma save_role_same:
  assumes "access_inv perms db" and "r \<in> set (ad_roles db)" and "rl_id r' = rl_id r" and "rl_slug r' = rl_slug r"
  shows "map rl_id (ad_roles (save_role r' db)) = map rl_id (ad_roles db)"
    and "map rl_slug (ad_roles (save_role r' db)) = map rl_slug (ad_roles db)"
proof -
  have "distinct (map rl_id (ad_roles db))" using assms(1) by (simp add: access_inv_def ids_ok_def)
  then have "x = r" if "x \<in> set (ad_roles db)" "rl_id x = rl_id r" for x
    using that assms(2) by (metis distinct_map inj_onD)
  with assms(3,4) show "map rl_id (ad_roles (save_role r' db)) = map rl_id (ad_roles db)"
    and "map rl_slug (ad_roles (save_role r' db)) = map rl_slug (ad_roles db)"
    by (auto simp: save_role_def update_where_def)
qed

lemma save_role_inv:
  assumes "access_inv perms db" and "r \<in> set (ad_roles db)" and "rl_id r' = rl_id r" and "rl_slug r' = rl_slug r"
  shows "access_inv perms (save_role r' db)"
proof -
  note same = save_role_same[OF assms]
  have ids: "rl_id ` set (ad_roles (save_role r' db)) = rl_id ` set (ad_roles db)"
    using same(1) by (metis list.set_map)
  have "ids_ok rl_id (ad_next_id db) (ad_roles (save_role r' db))"
    unfolding ids_ok_def same(1)
  proof (intro conjI ballI)
    fix x assume "x \<in> set (ad_roles (save_role r' db))"
    then have "rl_id x \<in> rl_id ` set (ad_roles db)" unfolding ids[symmetric] by (rule imageI)
    then show "rl_id x < ad_next_id db" using assms(1) by (auto simp: access_inv_def ids_ok_def)
  qed (use assms(1) in \<open>simp add: access_inv_def ids_ok_def\<close>)
  moreover have "ad_capabilities (save_role r' db) = ad_capabilities db" "ad_grants (save_role r' db) = ad_grants db"
    "ad_next_id (save_role r' db) = ad_next_id db" by (simp_all add: save_role_def)
  ultimately show ?thesis using assms(1) same(2) ids by (simp add: access_inv_def)
qed

lemma drop_role_inv: "access_inv perms db \<Longrightarrow> access_inv perms (drop_role i db)"
  by (auto simp: access_inv_def drop_role_def ids_ok_filter distinct_filter_map)

lemma drop_rows_inv:
  "access_inv perms db \<Longrightarrow> access_inv perms (db\<lparr>ad_capabilities := filter p (ad_capabilities db)\<rparr>)"
  "access_inv perms db \<Longrightarrow> access_inv perms (db\<lparr>ad_grants := filter q (ad_grants db)\<rparr>)"
  by (auto simp: access_inv_def ids_ok_filter distinct_filter_map)

lemma require_all_known: "require_all perms ks = Inr () \<Longrightarrow> \<forall>k\<in>set ks. permission_known perms k"
  by (induction ks) (auto simp: cmd_ok permission_require_def)

lemma permission_keys_set: "set (permission_keys r) = {k. permission_known r k}"
  by (force simp: permission_keys_def permission_known_def registry_lookup_def dget_def map_of_eq_None_iff)

lemma replace_inv:
  assumes inv: "access_inv (ax_permissions ctx) db"
    and run: "replace_role_capabilities ctx rid keys db = Inr (dto, db')"
  shows "access_inv (ax_permissions ctx) db'"
proof -
  from run obtain r db1 db2 db3 p where known: "require_all (ax_permissions ctx) keys = Inr ()"
    and r: "require_role db rid = Inr r" and db1: "role_changed ctx rid ''capabilities_replaced'' db = Inr db1"
    and db2: "access_audit ctx ''access.role.capabilities_replaced'' ''role'' rid
      [(''keys'', JList (map JStr keys))] db1 = Inr db2"
    and db3: "insert_capabilities (rl_id r) keys db2 = Inr db3"
    and db': "db' = db3\<lparr>ad_capabilities := filter p (ad_capabilities db3)\<rparr>"
    by (auto simp: replace_role_capabilities_def cmd_ok Let_def)
  note e = access_event_tables[OF db1[unfolded event_defs]] access_event_tables[OF db2[unfolded event_defs]]
  have inv2: "access_inv (ax_permissions ctx) db2"
    using access_inv_event[OF db2[unfolded event_defs]] access_inv_event[OF db1[unfolded event_defs] inv] by blast
  have "access_inv (ax_permissions ctx) db3"
    by (rule insert_capabilities_inv[OF inv2 db3 _ require_all_known[OF known]])
      (use require_roleD[OF r] e in auto)
  then show ?thesis unfolding db' by (rule drop_rows_inv)
qed

lemma bootstrap_inv:
  assumes inv: "access_inv (ax_permissions ctx) db" and run: "bootstrap_administrator ctx st sid db = Inr (dto, db')"
  shows "access_inv (ax_permissions ctx) db'"
proof -
  let ?perms = "ax_permissions ctx"
  from run obtain r created db1 db2 where boot: "bootstrap_role db = Inr ((r, created), db1)"
    and db2: "insert_capabilities (rl_id r) (filter (\<lambda>k. k \<notin> set (role_keys db1 (rl_id r)))
      (permission_keys ?perms)) db1 = Inr db2"
    and rest: "db' = db2 \<or> (\<exists>db3. insert_grant (ax_now ctx) st sid (rl_id r) ''global'' db2 = Inr db3
      \<and> access_audit ctx ''access.bootstrap.administrator'' ''role'' (show_nat (rl_id r))
         [(''subject'', JStr (st @ '':'' @ sid)), (''role_created'', JBool created)] db3 = Inr db')"
    by (auto simp: bootstrap_administrator_def Let_def cmd_ok split: if_splits)
  have 1: "access_inv ?perms db1" "r \<in> set (ad_roles db1)"
    using boot inv role_by_slugD insert_role_inv[OF inv]
    by (auto simp: bootstrap_role_def cmd_ok split: option.splits)
  have 2: "access_inv ?perms db2"
    by (rule insert_capabilities_inv[OF 1(1) db2]) (use 1(2) in \<open>auto simp: permission_keys_set\<close>)
  have "r \<in> set (ad_roles db2)" using insert_capabilities_tables[OF db2] 1(2) by simp
  then have "access_inv ?perms db3" if "insert_grant (ax_now ctx) st sid (rl_id r) ''global'' db2 = Inr db3" for db3
    by (intro insert_grant_inv[OF 2 that]) (auto simp: valid_scope_def)
  with 2 rest show ?thesis unfolding access_audit_def by (blast intro: access_inv_event)
qed

lemma add_base_keys_inv:
  assumes "access_inv perms db" and "add_base_keys perms i existing ks db = Inr db'"
    and "i \<in> rl_id ` set (ad_roles db)"
  shows "access_inv perms db'"
  using assms
proof (induction ks arbitrary: db)
  case (Cons k ks)
  from Cons.prems(2) obtain db1 where known: "permission_known perms k"
    and db1: "(if k \<in> set existing then Inr db else insert_capability i k db) = Inr db1"
    and rest: "add_base_keys perms i existing ks db1 = Inr db'"
    by (auto simp: cmd_ok permission_require_def)
  have "access_inv perms db1 \<and> ad_roles db1 = ad_roles db"
    using db1 Cons.prems(1,3) known insert_capability_inv insert_capability_tables(1)
    by (auto split: if_splits)
  with Cons.prems(3) show ?case by (intro Cons.IH[OF _ rest]) simp_all
qed simp

lemma ensure_base_role_inv:
  assumes inv: "access_inv (ax_permissions ctx) db" and run: "ensure_base_role ctx t db = Inr (p, db')"
  shows "access_inv (ax_permissions ctx) db'"
proof -
  obtain name slug description keys where t: "t = (name, slug, description, keys)" by (metis prod_cases4)
  let ?R = "\<lambda>r. r\<lparr>rl_system := True, rl_name := name, rl_description := Some description\<rparr>"
  from run obtain r db1 where found: "(case role_by_slug db slug of
      None \<Rightarrow> insert_role name slug (Some description) True db | Some r \<Rightarrow> Inr (r, db)) = Inr (r, db1)"
    and rest: "add_base_keys (ax_permissions ctx) (rl_id r) (role_keys (save_role (?R r) db1) (rl_id r)) keys
      ((save_role (?R r) db1)\<lparr>ad_capabilities := filter (\<lambda>c. \<not> (rc_role c = rl_id r \<and> rc_key c \<notin> set keys))
         (ad_capabilities (save_role (?R r) db1))\<rparr>) = Inr db'"
    unfolding ensure_base_role_def t Let_def prod.case bindE_Inr_iff by (auto simp: cmd_ok)
  let ?r = "?R r"
  have 1: "access_inv (ax_permissions ctx) db1" "r \<in> set (ad_roles db1)"
    using found inv role_by_slugD insert_role_inv[OF inv] by (auto split: option.splits)
  have same: "rl_id ?r = rl_id r" "rl_slug ?r = rl_slug r" by simp_all
  note inv2 = save_role_inv[OF 1 same]
  have "rl_id r \<in> rl_id ` set (ad_roles (save_role ?r db1))"
    using save_role_same(1)[OF 1 same] 1(2) by (metis image_eqI list.set_map)
  then show ?thesis by (intro add_base_keys_inv[OF drop_rows_inv(1)[OF inv2] rest]) simp
qed

lemma ensure_roles_inv:
  "access_inv (ax_permissions ctx) db \<Longrightarrow> ensure_roles ctx ts db = Inr (ids, db') \<Longrightarrow> access_inv (ax_permissions ctx) db'"
  by (induction ts arbitrary: db ids) (auto simp: cmd_ok intro: ensure_base_role_inv)

lemma assign_in_uow_inv:
  "access_inv perms db \<Longrightarrow> assign_in_uow now st sid db = Inr db' \<Longrightarrow> access_inv perms db'"
proof -
  assume inv: "access_inv perms db" and run: "assign_in_uow now st sid db = Inr db'"
  then obtain r where r: "role_by_slug db ''user'' = Some r"
    and or: "db' = db \<or> insert_grant now st sid (rl_id r) ''global'' db = Inr db'"
    by (auto simp: assign_in_uow_def cmd_ok split: option.splits)
  have "rl_id r \<in> rl_id ` set (ad_roles db)" using role_by_slugD[OF r] by simp
  with inv or show ?thesis by (auto simp: valid_scope_def intro: insert_grant_inv)
qed

theorem access_inv_step:
  assumes "access_step perms db db'" and inv: "access_inv perms db"
  shows "access_inv perms db'"
  using assms(1)
proof cases
  case (as_create ctx name slug description dto)
  then obtain r db1 db2 where "insert_role name slug description False db = Inr (r, db1)"
    and "access_event ctx ''access.role_changed.v1''
      [(''role_id'', JStr (show_nat (rl_id r))), (''action'', JStr ''created'')] (show_nat (rl_id r)) db1 = Inr db2"
    and "access_audit ctx ''access.role.created'' ''role'' (show_nat (rl_id r)) [(''slug'', JStr slug)] db2 = Inr db'"
    by (auto simp: create_role_def Let_def cmd_ok role_changed_def)
  with insert_role_inv(1)[OF inv] show ?thesis
    unfolding access_audit_def by (blast intro: access_inv_event)
next
  case (as_update ctx rid name description dto)
  let ?r = "\<lambda>r. r\<lparr>rl_name := py_strip name, rl_description := stripped_text description\<rparr>"
  from as_update obtain r db1 where "require_role db rid = Inr r"
    and 1: "role_changed ctx rid ''updated'' (save_role (?r r) db) = Inr db1"
    and 2: "access_audit ctx ''access.role.updated'' ''role'' rid [] db1 = Inr db'"
    by (auto simp: update_role_def Let_def cmd_ok)
  then have "access_inv perms (save_role (?r r) db)"
    by (intro save_role_inv[OF inv, of r]) (auto dest: require_roleD)
  with 1 2 show ?thesis unfolding event_defs by (blast intro: access_inv_event)
next
  case (as_delete ctx rid)
  with inv show ?thesis
    by (auto simp: delete_role_def cmd_ok event_defs dest!: access_inv_event intro: drop_role_inv)
next
  case (as_replace ctx rid keys dto)
  with inv replace_inv show ?thesis by blast
next
  case (as_assign ctx st sid rid scope)
  then show ?thesis
    by (auto simp: assign_role_def cmd_ok event_defs dest!: require_roleD access_inv_event
        intro: insert_grant_inv[OF inv])
next
  case (as_revoke ctx st sid rid)
  with inv show ?thesis
    by (auto simp: revoke_role_def cmd_ok event_defs dest!: access_inv_event intro: drop_rows_inv)
next
  case (as_bootstrap ctx st sid dto)
  with inv bootstrap_inv show ?thesis by blast
next
  case (as_ensure ctx ids)
  with inv ensure_roles_inv show ?thesis by (auto simp: ensure_base_roles_def)
next
  case (as_default now st sid)
  with inv assign_in_uow_inv show ?thesis by blast
next
  case (as_dispatch box)
  with access_inv_outbox[OF inv, of "ad_next_id db"] show ?thesis by simp
qed

lemma access_inv_steps: "access_steps perms db db' \<Longrightarrow> access_inv perms db \<Longrightarrow> access_inv perms db'"
  by (induction rule: rtranclp_induct) (auto intro: access_inv_step)

end
