(* ===== verification/Access_Properties.thy ===== *)
theory Access_Properties
  imports Access_Invariant
begin

text \<open>
  The properties of the access capability and the sample they are applied to: a registry of three
  keys, a bootstrapped administrator and an editor whose role is granted with the scope \<^verbatim>\<open>own\<close>.
\<close>

section \<open>A sample\<close>

definition access_perms :: "string registry" where
  "access_perms = \<lparr>reg_items = map (\<lambda>k. (k, ''content'')) [''content.read'', ''content.write'', ''access.manage''],
     reg_frozen = True\<rparr>"

definition access_ctx_at :: "time \<Rightarrow> access_ctx" where
  "access_ctx_at now = \<lparr>ax_now = now, ax_permissions = access_perms,
     ax_subject_exists = (\<lambda>st sid. st = ''identity'' \<and> sid \<in> {''7'', ''8'', ''9''}),
     ax_actor_id = Some ''7'', ax_trace_id = None,
     ax_schemas = \<lparr>reg_items = map (\<lambda>k. (k, \<lambda>_. Inr ())) (''audit.entry.recorded.v1'' # access_event_keys),
       reg_frozen = True\<rparr>\<rparr>"

definition ran :: "exn + 'r \<times> access_db \<Rightarrow> access_db" where
  "ran r = (case r of Inr (_, db) \<Rightarrow> db | Inl _ \<Rightarrow> empty_access_db)"

lemma ran_Inr: "\<not> isl r \<Longrightarrow> \<exists>x. r = Inr (x, ran r)"
  by (cases r) (auto simp: ran_def)

definition access_boot :: "exn + role_dto \<times> access_db" where
  "access_boot = bootstrap_administrator (access_ctx_at 10) ''identity'' ''7'' empty_access_db"

definition access_booted :: access_db where
  "access_booted = ran access_boot"

definition access_created :: access_db where
  "access_created = ran (create_role (access_ctx_at 20) ''Editor'' ''editor'' None access_booted)"

definition access_editor :: string where
  "access_editor = (case role_by_slug access_created ''editor'' of Some r \<Rightarrow> show_nat (rl_id r) | None \<Rightarrow> [])"

definition access_keyed :: access_db where
  "access_keyed = ran (replace_role_capabilities (access_ctx_at 30) access_editor [''content.write''] access_created)"

definition access_sample :: access_db where
  "access_sample = (case assign_role (access_ctx_at 40) ''identity'' ''8'' access_editor ''own'' access_keyed of
     Inr db \<Rightarrow> db | Inl _ \<Rightarrow> empty_access_db)"

definition sample_principal :: "string \<Rightarrow> principal" where
  "sample_principal sid = \<lparr>pl_subject_id = sid, pl_status = ''active'', pl_auth_method = ''bearer'',
     pl_session_id = None, pl_client_id = None, pl_capabilities = {}\<rparr>"

lemma access_reached:
  "access_steps access_perms empty_access_db access_booted" "access_steps access_perms empty_access_db access_sample"
proof -
  have "\<not> isl access_boot" by code_simp
  then obtain dto where 1: "access_boot = Inr (dto, access_booted)"
    unfolding access_booted_def by (auto dest: ran_Inr)
  have "\<not> isl (create_role (access_ctx_at 20) ''Editor'' ''editor'' None access_booted)" by code_simp
  then obtain dto2 where 2: "create_role (access_ctx_at 20) ''Editor'' ''editor'' None access_booted = Inr (dto2, access_created)"
    unfolding access_created_def by (auto dest: ran_Inr)
  have "\<not> isl (replace_role_capabilities (access_ctx_at 30) access_editor [''content.write''] access_created)"
    by code_simp
  then obtain dto3 where 3: "replace_role_capabilities (access_ctx_at 30) access_editor [''content.write''] access_created
      = Inr (dto3, access_keyed)"
    unfolding access_keyed_def by (auto dest: ran_Inr)
  have "\<not> isl (assign_role (access_ctx_at 40) ''identity'' ''8'' access_editor ''own'' access_keyed)" by code_simp
  then have 4: "assign_role (access_ctx_at 40) ''identity'' ''8'' access_editor ''own'' access_keyed = Inr access_sample"
    unfolding access_sample_def by (auto simp: isl_def split: sum.splits)
  have perms: "ax_permissions (access_ctx_at t) = access_perms" for t by (simp add: access_ctx_at_def)
  show b: "access_steps access_perms empty_access_db access_booted"
    using as_bootstrap[OF perms 1[unfolded access_boot_def]] by blast
  show "access_steps access_perms empty_access_db access_sample"
    using b as_create[OF 2] as_replace[OF perms 3] as_assign[OF 4] by (meson rtranclp.rtrancl_into_rtrancl)
qed

section \<open>The tables\<close>

text \<open>
  C11. In every state the access capability reaches from empty tables, whatever commands run with
  whatever outcome of the dispatcher: identifiers and slugs are unique, a role has each key at most
  once, a subject each role at most once, keys and grants belong to existing roles, every key is a
  registered permission and every scope one of the two.
\<close>

theorem access_tables_consistent:
  assumes "access_steps perms empty_access_db db"
  shows "access_inv perms db"
  using access_inv_steps[OF assms access_inv_empty] .

theorem access_tables_consistent_witness:
  "access_inv access_perms access_sample \<and> length (ad_roles access_sample) = 2
    \<and> length (ad_capabilities access_sample) = 4 \<and> length (ad_grants access_sample) = 2"
  using access_tables_consistent[OF access_reached(2)] by (intro conjI) (assumption, code_simp+)

section \<open>Decisions\<close>

text \<open>
  What entitles a subject to a key in a scope: a grant in its time of a role with the key, or of the
  administrator role.
\<close>

definition granted_now :: "time \<Rightarrow> string \<Rightarrow> subject_role \<Rightarrow> bool" where
  "granted_now now sid g \<longleftrightarrow> sr_subject_type g = ''identity'' \<and> sr_subject_id g = sid
     \<and> (sr_valid_from g = None \<or> the (sr_valid_from g) \<le> now)
     \<and> (sr_valid_until g = None \<or> now \<le> the (sr_valid_until g))"

lemma current_grant_iff: "current_grant now sid g \<longleftrightarrow> granted_now now sid g"
  by (auto simp: current_grant_def granted_now_def split: option.splits)

definition entitled ::
    "string registry \<Rightarrow> time \<Rightarrow> string \<Rightarrow> string \<Rightarrow> string \<Rightarrow> access_db \<Rightarrow> bool" where
  "entitled perms now sid k scope db \<longleftrightarrow>
     list_ex (\<lambda>g. granted_now now sid g \<and> list_ex (\<lambda>r. rl_id r = sr_role g \<and>
         (k \<in> set (role_keys db (rl_id r)) \<and> sr_scope g \<in> {''global'', scope}
          \<or> rl_slug r = ''administrator'' \<and> sr_scope g = ''global'' \<and> permission_known perms k)) (ad_roles db))
       (ad_grants db)"

lemma role_by_id_iff:
  assumes "access_inv perms db"
  shows "role_by_id db i = Some r \<longleftrightarrow> r \<in> set (ad_roles db) \<and> rl_id r = i"
proof
  assume r: "r \<in> set (ad_roles db) \<and> rl_id r = i"
  then obtain x where x: "role_by_id db i = Some x"
    by (cases "role_by_id db i") (auto simp: role_by_id_def find_None_iff')
  have "distinct (map rl_id (ad_roles db))" using assms by (simp add: access_inv_def ids_ok_def)
  with role_by_idD[OF x] r have "x = r" by (metis distinct_map inj_onD)
  with x show "role_by_id db i = Some r" by simp
qed (rule role_by_idD)

lemma key_rows_set: "set (key_rows db i) = (if role_keys db i = [] then {None} else Some ` set (role_keys db i))"
  by (cases "role_keys db i") (simp_all add: key_rows_def)

lemma grant_rows_iff:
  assumes "access_inv perms db"
  shows "(ko, sc, sl) \<in> set (grant_rows db now sid) \<longleftrightarrow>
    (\<exists>g\<in>set (ad_grants db). current_grant now sid g \<and> (\<exists>r\<in>set (ad_roles db). rl_id r = sr_role g
      \<and> sc = sr_scope g \<and> sl = rl_slug r \<and> ko \<in> set (key_rows db (sr_role g))))"
  unfolding grant_rows_def using role_by_id_iff[OF assms]
  by (force split: option.splits)

lemma grant_rows_key:
  assumes "access_inv perms db"
  shows "(Some k, sc, sl) \<in> set (grant_rows db now sid) \<longleftrightarrow>
    (\<exists>g\<in>set (ad_grants db). current_grant now sid g \<and> (\<exists>r\<in>set (ad_roles db). rl_id r = sr_role g
      \<and> sc = sr_scope g \<and> sl = rl_slug r \<and> k \<in> set (role_keys db (rl_id r))))"
  unfolding grant_rows_iff[OF assms] key_rows_set by force

lemma global_administrator_iff:
  assumes "access_inv perms db"
  shows "global_administrator (grant_rows db now sid) \<longleftrightarrow>
    (\<exists>g\<in>set (ad_grants db). current_grant now sid g \<and> sr_scope g = ''global'' \<and>
      (\<exists>r\<in>set (ad_roles db). rl_id r = sr_role g \<and> rl_slug r = ''administrator''))"
proof -
  have "\<exists>ko. ko \<in> set (key_rows db i)" for i by (cases "role_keys db i") (auto simp: key_rows_def)
  moreover have "global_administrator (grant_rows db now sid)
      \<longleftrightarrow> (\<exists>ko. (ko, ''global'', ''administrator'') \<in> set (grant_rows db now sid))"
    by (auto simp: global_administrator_def list_ex_iff)
  ultimately show ?thesis unfolding grant_rows_iff[OF assms] by metis
qed

lemma role_key_known:
  "access_inv perms db \<Longrightarrow> k \<in> set (role_keys db i) \<Longrightarrow> permission_known perms k"
  by (auto simp: access_inv_def role_keys_def)

lemma row_keys_iff: "k \<in> row_keys rows \<longleftrightarrow> (\<exists>sc sl. (Some k, sc, sl) \<in> set rows)"
  by (force simp: row_keys_def)

lemma entitled_iff:
  assumes "access_inv perms db"
  shows "entitled perms now sid k scope db \<longleftrightarrow>
    (\<exists>sc sl. (Some k, sc, sl) \<in> set (grant_rows db now sid) \<and> sc \<in> {''global'', scope})
    \<or> global_administrator (grant_rows db now sid) \<and> permission_known perms k"
  unfolding grant_rows_key[OF assms] global_administrator_iff[OF assms] entitled_def list_ex_iff
    current_grant_iff by blast

lemma scope_of_grant:
  "access_inv perms db \<Longrightarrow> (ko, sc, sl) \<in> set (grant_rows db now sid) \<Longrightarrow> sc = ''global'' \<or> sc = ''own''"
  unfolding grant_rows_iff by (auto simp: access_inv_def valid_scope_def)

text \<open>
  C8. In every reachable state the decision over the joined rows is the one a reader of the tables
  would make: an active principal is allowed a key in a scope if and only if it currently holds a
  role that has the key with the scope \<^verbatim>\<open>global\<close> or that scope, or holds the administrator role
  globally and the key is registered. Every other status is denied.
\<close>

theorem decision_by_grants:
  assumes "access_steps perms empty_access_db db" and "valid_scope scope"
  shows "\<exists>d. decide (Some perms) now p k scope db = Inr d
    \<and> (az_allowed d \<longleftrightarrow> pl_status p = ''active'' \<and> entitled perms now (pl_subject_id p) k scope db)"
proof (cases "pl_status p = ''active''")
  case True
  let ?rows = "grant_rows db now (pl_subject_id p)"
  define S where "S = (\<lambda>(_, s, _). s) ` {row \<in> set ?rows. fst row = Some k}
    \<union> (if global_administrator ?rows \<and> Some perms \<noteq> None then {''global''} else {})"
  have inv: "access_inv perms db" by (rule access_inv_steps[OF assms(1) access_inv_empty])
  have S: "s \<in> S \<longleftrightarrow> (\<exists>sl. (Some k, s, sl) \<in> set ?rows) \<or> global_administrator ?rows \<and> s = ''global''" for s
    unfolding S_def by force
  have known: "permission_known perms k" if "(Some k, s, sl) \<in> set ?rows" for s sl
    using that role_key_known[OF inv] unfolding grant_rows_key[OF inv] by blast
  have "entitled perms now (pl_subject_id p) k scope db \<longleftrightarrow>
      k \<in> granted_keys (Some perms) ?rows \<and> (''global'' \<in> S \<or> scope \<in> S)"
    unfolding entitled_iff[OF inv] granted_keys_def Un_iff S row_keys_iff
    using known by (auto simp: permission_keys_set)
  moreover have "scope = ''global'' \<or> scope = ''own''" using assms(2) by (simp add: valid_scope_def)
  ultimately show ?thesis
    using True assms(2) unfolding decide_def Let_def S_def[symmetric]
    by (auto simp: requireE_def denied_def granted_def)
qed (auto simp: decide_def denied_def)

theorem decision_by_grants_witness:
  "\<exists>d. decide (Some access_perms) 50 (sample_principal ''8'') ''content.write'' ''own'' access_sample = Inr d \<and> az_allowed d"
proof -
  have "valid_scope ''own''" "pl_status (sample_principal ''8'') = ''active''"
    "entitled access_perms 50 (pl_subject_id (sample_principal ''8'')) ''content.write'' ''own'' access_sample"
    by code_simp+
  with decision_by_grants[OF access_reached(2)] show ?thesis by blast
qed

text \<open>
  C10. The guard of the routes decides for the scope \<^verbatim>\<open>own\<close>: the verified caller passes it if and
  only if it is entitled to the key in that scope, so that a grant restricted to the caller's own
  objects opens every guarded route like a global one, whose decision would be a denial.
\<close>

theorem guard_decides_own_scope:
  assumes "access_steps perms empty_access_db db"
  shows "require_capability (request_principal perms now sid client db) k = Inr ()
    \<longleftrightarrow> entitled perms now sid k ''own'' db"
proof -
  let ?rows = "grant_rows db now sid"
  have inv: "access_inv perms db" by (rule access_inv_steps[OF assms access_inv_empty])
  have known: "permission_known perms k" if "(Some k, s, sl) \<in> set ?rows" for s sl
    using that role_key_known[OF inv] unfolding grant_rows_key[OF inv] by blast
  have "entitled perms now sid k ''own'' db \<longleftrightarrow> k \<in> granted_keys (Some perms) ?rows \<and> permission_known perms k"
    unfolding entitled_iff[OF inv] granted_keys_def Un_iff row_keys_iff
    using known scope_of_grant[OF inv] by (simp add: permission_keys_set) blast
  then show ?thesis
    by (simp add: require_capability_def request_principal_def capabilities_of_def permission_keys_set
        requireE_def)
qed

theorem guard_decides_own_scope_witness:
  "require_capability (request_principal access_perms 50 ''8'' None access_sample) ''content.write'' = Inr ()
    \<and> decide (Some access_perms) 50 (sample_principal ''8'') ''content.write'' ''global'' access_sample
      = Inr (denied ''deny.scope'')"
proof -
  have "entitled access_perms 50 ''8'' ''content.write'' ''own'' access_sample"
    and d: "decide (Some access_perms) 50 (sample_principal ''8'') ''content.write'' ''global'' access_sample
      = Inr (denied ''deny.scope'')" by code_simp+
  with guard_decides_own_scope[OF access_reached(2)] show ?thesis by simp
qed

end
