(* ===== verification/Access_Bootstrap.thy ===== *)
theory Access_Bootstrap
  imports Access_Properties
begin

text \<open>
  The replacement of the keys of a role and the bootstrap of the administrator: what they guarantee
  and where they fail.
\<close>

definition access_events_ok :: "access_ctx \<Rightarrow> bool" where
  "access_events_ok ctx \<longleftrightarrow> (\<forall>k\<in>set (''audit.entry.recorded.v1'' # access_event_keys). \<forall>p.
     validate_payload (ax_schemas ctx) k p = Inr ())"

lemma access_event_ok:
  "access_events_ok ctx \<Longrightarrow> key \<in> set (''audit.entry.recorded.v1'' # access_event_keys)
    \<Longrightarrow> \<exists>box. access_event ctx key payload agg db = Inr (db\<lparr>ad_outbox := box, ad_next_id := ad_next_id db + 2\<rparr>)"
  by (auto simp: access_events_ok_def access_event_def outbox_append_def)

lemma access_events_emitted:
  assumes "access_events_ok ctx"
  shows "\<exists>db'. role_changed ctx rid a db = Inr db'" and "\<exists>db'. access_audit ctx act tt t details db = Inr db'"
    and "\<exists>db'. access_event ctx ''access.subject_role_assigned.v1'' payload agg db = Inr db'"
proof -
  have keys: "k \<in> set (''audit.entry.recorded.v1'' # access_event_keys)" if "k \<in> {''audit.entry.recorded.v1'',
      ''access.role_changed.v1'', ''access.subject_role_assigned.v1''}" for k
    using that by (auto simp: access_event_keys_def)
  have "\<exists>db'. access_event ctx k p g db = Inr db'" if "k \<in> {''audit.entry.recorded.v1'',
      ''access.role_changed.v1'', ''access.subject_role_assigned.v1''}" for k p g
    using access_event_ok[OF assms keys[OF that]] by blast
  then show "\<exists>db'. role_changed ctx rid a db = Inr db'" "\<exists>db'. access_audit ctx act tt t details db = Inr db'"
    "\<exists>db'. access_event ctx ''access.subject_role_assigned.v1'' payload agg db = Inr db'"
    unfolding event_defs by blast+
qed

section \<open>Replacing the keys of a role\<close>

lemma insert_capabilities_result:
  "insert_capabilities i ks db = Inl (PyException ''IntegrityError'')
    \<longleftrightarrow> \<not> (distinct ks \<and> set ks \<inter> set (role_keys db i) = {})"
  "insert_capabilities i ks db = Inl e \<Longrightarrow> e = PyException ''IntegrityError''"
proof (induction ks arbitrary: db)
  case (Cons k ks)
  { case 1
    show ?case
    proof (cases "k \<in> set (role_keys db i)")
      case False
      then obtain db1 where db1: "insert_capability i k db = Inr db1" by (simp add: insert_capability_def)
      show ?thesis using Cons.IH(1)[of db1] False by (auto simp: db1 insert_capability_tables(3)[OF db1])
    qed (simp add: insert_capability_def)
  next
    case 2
    then show ?case
    proof (cases "k \<in> set (role_keys db i)")
      case False
      then obtain db1 where db1: "insert_capability i k db = Inr db1" by (simp add: insert_capability_def)
      with Cons.IH(2)[of db1] 2 show ?thesis by simp
    qed (simp add: insert_capability_def)
  }
qed simp_all

lemma insert_capabilities_rows:
  assumes "insert_capabilities i ks db = Inr db'"
  shows "\<exists>rows. ad_capabilities db' = ad_capabilities db @ rows \<and> map rc_key rows = ks
    \<and> (\<forall>c\<in>set rows. rc_role c = i \<and> ad_next_id db \<le> rc_id c)"
  using assms
proof (induction ks arbitrary: db)
  case (Cons k ks)
  let ?c = "\<lparr>rc_id = ad_next_id db, rc_role = i, rc_key = k\<rparr>"
  let ?db = "db\<lparr>ad_capabilities := ad_capabilities db @ [?c], ad_next_id := Suc (ad_next_id db)\<rparr>"
  from Cons.prems have "insert_capabilities i ks ?db = Inr db'"
    by (simp add: insert_capability_def cmd_ok)
  from Cons.IH[OF this] obtain rows where "ad_capabilities db' = ad_capabilities ?db @ rows" "map rc_key rows = ks"
    "\<forall>c\<in>set rows. rc_role c = i \<and> ad_next_id ?db \<le> rc_id c" by blast
  then show ?case by (intro exI[of _ "?c # rows"]) auto
qed auto

text \<open>
  C12. Replacing the keys of a role succeeds only when none of the new keys is one the role already
  has and none is repeated, and then the role has exactly the new keys in their order. Otherwise the
  command fails with the bare integrity error of the database, which inserts the new rows before it
  deletes the old ones: a role can never keep a key through a replacement.
\<close>

theorem replacement_keeps_no_key:
  assumes "access_steps (ax_permissions ctx) empty_access_db db" and "access_events_ok ctx"
    and "\<forall>k\<in>set keys. permission_known (ax_permissions ctx) k"
    and "require_role db rid = Inr r" and "rl_slug r \<noteq> ''administrator''"
  shows "if distinct keys \<and> set keys \<inter> set (role_keys db (rl_id r)) = {}
    then \<exists>db'. replace_role_capabilities ctx rid keys db = Inr (to_role r keys, db')
      \<and> role_keys db' (rl_id r) = keys
    else replace_role_capabilities ctx rid keys db = Inl (PyException ''IntegrityError'')"
proof -
  have inv: "access_inv (ax_permissions ctx) db" by (rule access_inv_steps[OF assms(1) access_inv_empty])
  have known: "require_all (ax_permissions ctx) keys = Inr ()"
    using assms(3) by (induction keys) (simp_all add: permission_require_def requireE_def)
  obtain db1 where db1: "role_changed ctx rid ''capabilities_replaced'' db = Inr db1"
    using access_events_emitted(1)[OF assms(2)] by blast
  obtain db2 where db2: "access_audit ctx ''access.role.capabilities_replaced'' ''role'' rid
      [(''keys'', JList (map JStr keys))] db1 = Inr db2"
    using access_events_emitted(2)[OF assms(2)] by blast
  note e = access_event_tables[OF db1[unfolded event_defs]] access_event_tables[OF db2[unfolded event_defs]]
  have n: "ad_next_id db \<le> ad_next_id db2"
    using access_event_db[OF db1[unfolded event_defs]] access_event_db[OF db2[unfolded event_defs]] by auto
  have same: "role_keys db2 i = role_keys db i" for i by (simp add: role_keys_def e)
  let ?old = "set (map rc_id (filter (\<lambda>c. rc_role c = rl_id r) (ad_capabilities db)))"
  have run: "replace_role_capabilities ctx rid keys db = bindE (insert_capabilities (rl_id r) keys db2)
      (\<lambda>db3. Inr (to_role r keys, db3\<lparr>ad_capabilities := filter (\<lambda>c. rc_id c \<notin> ?old) (ad_capabilities db3)\<rparr>))"
    by (simp add: replace_role_capabilities_def known assms(4,5) db1 db2 Let_def requireE_def)
  show ?thesis
  proof (cases "distinct keys \<and> set keys \<inter> set (role_keys db (rl_id r)) = {}")
    case True
    then obtain db3 where db3: "insert_capabilities (rl_id r) keys db2 = Inr db3"
      using insert_capabilities_result[of "rl_id r" keys db2] by (cases "insert_capabilities (rl_id r) keys db2") (auto simp: same)
    from insert_capabilities_rows[OF db3] obtain rows where rows: "ad_capabilities db3 = ad_capabilities db @ rows"
      "map rc_key rows = keys" "\<forall>c\<in>set rows. rc_role c = rl_id r \<and> ad_next_id db2 \<le> rc_id c"
      using e by auto
    have "rc_id c < ad_next_id db2" if "c \<in> set (ad_capabilities db)" for c
      using inv that n by (auto simp: access_inv_def ids_ok_def intro: less_le_trans)
    then have new: "rc_id c \<notin> ?old" if "c \<in> set rows" for c using that rows(3) by fastforce
    have "filter (\<lambda>c. rc_role c = rl_id r) (filter (\<lambda>c. rc_id c \<notin> ?old) (ad_capabilities db)) = []"
      unfolding filter_filter filter_empty_conv by auto
    moreover have "filter (\<lambda>c. rc_role c = rl_id r) (filter (\<lambda>c. rc_id c \<notin> ?old) rows) = rows"
      unfolding filter_filter filter_id_conv using rows(3) new by blast
    ultimately have "filter (\<lambda>c. rc_role c = rl_id r) (filter (\<lambda>c. rc_id c \<notin> ?old) (ad_capabilities db3)) = rows"
      by (simp add: rows(1))
    with True rows(2) show ?thesis by (simp add: run db3 role_keys_def)
  next
    case False
    then have "insert_capabilities (rl_id r) keys db2 = Inl (PyException ''IntegrityError'')"
      by (simp add: insert_capabilities_result(1) same)
    with False show ?thesis by (auto simp: run)
  qed
qed

lemma access_editor_found:
  "case role_by_slug access_sample ''editor'' of None \<Rightarrow> False | Some r \<Rightarrow>
     require_role access_sample access_editor = Inr r \<and> rl_slug r = ''editor''
     \<and> role_keys access_sample (rl_id r) = [''content.write'']"
  by code_simp

theorem replacement_keeps_no_key_witness:
  "replace_role_capabilities (access_ctx_at 60) access_editor [''content.read'', ''content.write''] access_sample
    = Inl (PyException ''IntegrityError'')"
proof -
  define keys where "keys = [''content.read'', ''content.write'']"
  obtain r where r: "role_by_slug access_sample ''editor'' = Some r"
    by (cases "role_by_slug access_sample ''editor''") (use access_editor_found in auto)
  let ?k = "role_keys access_sample (rl_id r)"
  have "require_role access_sample access_editor = Inr r" "rl_slug r \<noteq> ''administrator''" "?k = [''content.write'']"
    using access_editor_found by (auto simp: r)
  moreover have known: "list_all (permission_known access_perms) keys" unfolding keys_def by code_simp
  moreover have "access_events_ok (access_ctx_at 60)" "ax_permissions (access_ctx_at 60) = access_perms"
    by (auto simp: access_events_ok_def access_ctx_at_def validate_payload_def registry_lookup_def dget_def
        access_event_keys_def)
  ultimately show ?thesis
    using replacement_keeps_no_key[of "access_ctx_at 60" access_sample keys access_editor r] access_reached(2)
    known by (simp add: keys_def list_all_iff)
qed

section \<open>The administrator\<close>

lemma role_by_slug_iff:
  assumes "access_inv perms db"
  shows "role_by_slug db s = Some r \<longleftrightarrow> r \<in> set (ad_roles db) \<and> rl_slug r = s"
proof
  assume r: "r \<in> set (ad_roles db) \<and> rl_slug r = s"
  then obtain x where x: "role_by_slug db s = Some x"
    by (cases "role_by_slug db s") (auto simp: role_by_slug_def find_None_iff')
  have "distinct (map rl_slug (ad_roles db))" using assms by (simp add: access_inv_def)
  with role_by_slugD[OF x] r have "x = r" by (metis distinct_map inj_onD)
  with x show "role_by_slug db s = Some r" by simp
qed (rule role_by_slugD)

definition held_by :: "string \<Rightarrow> string \<Rightarrow> subject_role \<Rightarrow> bool" where
  "held_by st sid g \<longleftrightarrow> sr_subject_type g = st \<and> sr_subject_id g = sid"

text \<open>A role all of whose holders are one subject has at most one holder.\<close>

lemma single_holder:
  assumes inv: "access_inv perms db" and holds: "list_all (held_by st sid) (role_holders db i)"
    and "role_holders db i \<noteq> []"
  shows "\<exists>g. role_holders db i = [g] \<and> held_by st sid g"
proof -
  have "distinct (map grant_key (role_holders db i))"
    using inv by (simp add: access_inv_def role_holders_def distinct_filter_map)
  moreover have "grant_key g = (st, sid, i)" if "g \<in> set (role_holders db i)" for g
    using holds that by (auto simp: list_all_iff held_by_def role_holders_def grant_key_def)
  moreover obtain g gs where gs: "role_holders db i = g # gs" using assms(3) by (cases "role_holders db i") auto
  ultimately have "gs = []" by (cases gs) auto
  with gs holds show ?thesis by simp
qed

lemma insert_grant_tables:
  assumes "insert_grant now st sid i scope db = Inr db'"
  shows "ad_roles db' = ad_roles db \<and> ad_capabilities db' = ad_capabilities db
    \<and> (\<exists>g. ad_grants db' = ad_grants db @ [g] \<and> held_by st sid g \<and> sr_role g = i)"
  using assms by (auto simp: insert_grant_def cmd_ok held_by_def)

text \<open>The steps of a successful bootstrap.\<close>

lemma bootstrap_rows:
  assumes inv: "access_inv (ax_permissions ctx) db" and run: "bootstrap_administrator ctx st sid db = Inr (dto, db')"
  shows "\<exists>r. role_by_slug db' ''administrator'' = Some r \<and> role_holders db' (rl_id r) \<noteq> []
    \<and> list_all (held_by st sid) (role_holders db' (rl_id r))
    \<and> set (role_keys db' (rl_id r)) = {k. permission_known (ax_permissions ctx) k}"
proof -
  let ?perms = "ax_permissions ctx"
  from run obtain r created db1 db2 where boot: "bootstrap_role db = Inr ((r, created), db1)"
    and others: "filter (\<lambda>g. \<not> held_by st sid g) (role_holders db1 (rl_id r)) = []"
    and db2: "insert_capabilities (rl_id r) (filter (\<lambda>k. k \<notin> set (role_keys db1 (rl_id r)))
      (permission_keys ?perms)) db1 = Inr db2"
    and rest: "filter (held_by st sid) (role_holders db1 (rl_id r)) \<noteq> [] \<and> db' = db2
      \<or> (\<exists>db3. insert_grant (ax_now ctx) st sid (rl_id r) ''global'' db2 = Inr db3
      \<and> access_audit ctx ''access.bootstrap.administrator'' ''role'' (show_nat (rl_id r))
         [(''subject'', JStr (st @ '':'' @ sid)), (''role_created'', JBool created)] db3 = Inr db')"
    unfolding held_by_def by (auto simp: bootstrap_administrator_def Let_def cmd_ok split: if_splits)
  note tables = insert_capabilities_tables[OF db2]
  have 1: "access_inv ?perms db1" "r \<in> set (ad_roles db1)" "rl_slug r = ''administrator''"
    using boot inv role_by_slugD insert_role_inv[OF inv]
    by (auto simp: bootstrap_role_def cmd_ok split: option.splits)
  have inv': "access_inv ?perms db'" by (rule bootstrap_inv[OF inv run])
  have same: "ad_roles db' = ad_roles db2 \<and> ad_capabilities db' = ad_capabilities db2"
    and grants: "ad_grants db' = ad_grants db2 \<and> filter (held_by st sid) (role_holders db1 (rl_id r)) \<noteq> []
      \<or> (\<exists>g. ad_grants db' = ad_grants db2 @ [g] \<and> held_by st sid g \<and> sr_role g = rl_id r)"
    using rest by (auto simp: access_audit_def access_event_tables dest!: insert_grant_tables)
  have "role_by_slug db' ''administrator'' = Some r"
    unfolding role_by_slug_iff[OF inv'] using same tables 1 by simp
  moreover have all: "list_all (held_by st sid) (role_holders db1 (rl_id r))"
    using others by (auto simp: filter_empty_conv list_all_iff)
  then have "role_holders db' (rl_id r) \<noteq> [] \<and> list_all (held_by st sid) (role_holders db' (rl_id r))"
    using grants tables by (auto simp: role_holders_def list_all_iff filter_empty_conv)
  moreover have "set (role_keys db' (rl_id r)) = {k. permission_known ?perms k}"
  proof -
    have "role_keys db' (rl_id r) = role_keys db2 (rl_id r)" by (simp add: role_keys_def same)
    moreover have "permission_known ?perms k" if "k \<in> set (role_keys db1 (rl_id r))" for k
      using role_key_known[OF 1(1) that] .
    ultimately show ?thesis using tables by (auto simp: permission_keys_set)
  qed
  ultimately show ?thesis by blast
qed

text \<open>
  C9. After a successful bootstrap the administrator role has exactly one holder, the subject it was
  run for, and exactly the registered keys; from then on a bootstrap for any other subject is
  refused, whatever the process that runs it has registered.
\<close>

theorem bootstrap_single_administrator:
  assumes "access_steps (ax_permissions ctx) empty_access_db db"
    and "bootstrap_administrator ctx st sid db = Inr (dto, db')"
  shows "\<exists>r g. role_by_slug db' ''administrator'' = Some r \<and> role_holders db' (rl_id r) = [g]
    \<and> held_by st sid g \<and> set (role_keys db' (rl_id r)) = {k. permission_known (ax_permissions ctx) k}
    \<and> (\<forall>ctx' st' sid'. (st', sid') \<noteq> (st, sid) \<longrightarrow> ax_subject_exists ctx' st' sid'
        \<longrightarrow> bootstrap_administrator ctx' st' sid' db' = Inl (KernelError ''access.administrator_exists'' CONFLICT))"
proof -
  have inv: "access_inv (ax_permissions ctx) db" by (rule access_inv_steps[OF assms(1) access_inv_empty])
  from bootstrap_rows[OF inv assms(2)] obtain r where r: "role_by_slug db' ''administrator'' = Some r"
    "role_holders db' (rl_id r) \<noteq> []" "list_all (held_by st sid) (role_holders db' (rl_id r))"
    "set (role_keys db' (rl_id r)) = {k. permission_known (ax_permissions ctx) k}" by blast
  from single_holder[OF bootstrap_inv[OF inv assms(2)] r(3,2)] obtain g
    where g: "role_holders db' (rl_id r) = [g]" "held_by st sid g" by blast
  have "bootstrap_administrator ctx' st' sid' db' = Inl (KernelError ''access.administrator_exists'' CONFLICT)"
    if "(st', sid') \<noteq> (st, sid)" "ax_subject_exists ctx' st' sid'" for ctx' st' sid'
    using that g by (auto simp: bootstrap_administrator_def bootstrap_role_def r(1) held_by_def requireE_def Let_def)
  with r g show ?thesis by blast
qed

theorem bootstrap_single_administrator_witness:
  "bootstrap_administrator (access_ctx_at 99) ''identity'' ''8'' access_booted
    = Inl (KernelError ''access.administrator_exists'' CONFLICT)"
proof -
  have "\<not> isl access_boot" and e: "ax_subject_exists (access_ctx_at 99) ''identity'' ''8''" by code_simp+
  then obtain dto where "bootstrap_administrator (access_ctx_at 10) ''identity'' ''7'' empty_access_db = Inr (dto, access_booted)"
    unfolding access_booted_def access_boot_def[symmetric] by (auto dest: ran_Inr)
  from bootstrap_single_administrator[OF rtranclp.rtrancl_refl this] e show ?thesis by auto
qed

text \<open>
  The assignment of roles does not know the administrator role: an assignment makes a second
  administrator, with every registered key, while the bootstrap and the other commands on roles
  protect it.
\<close>

theorem second_administrator_assignable:
  assumes "access_steps perms empty_access_db db" and "access_events_ok ctx"
    and r: "role_by_slug db ''administrator'' = Some r" and "ax_subject_exists ctx ''identity'' sid"
    and new: "find_grant db ''identity'' sid (rl_id r) = None"
  shows "\<exists>db'. assign_role ctx ''identity'' sid (show_nat (rl_id r)) ''global'' db = Inr db'
    \<and> length (role_holders db' (rl_id r)) = Suc (length (role_holders db (rl_id r)))
    \<and> (\<forall>k. permission_known perms k \<longrightarrow> entitled perms now sid k ''global'' db')"
proof -
  have inv: "access_inv perms db" by (rule access_inv_steps[OF assms(1) access_inv_empty])
  have mem: "r \<in> set (ad_roles db)" "rl_slug r = ''administrator''" using role_by_slugD[OF r] by auto
  then have "role_by_id db (rl_id r) = Some r" by (simp add: role_by_id_iff[OF inv])
  then have req: "require_role db (show_nat (rl_id r)) = Inr r" by (simp add: require_role_def access_id_def)
  obtain db1 g where db1: "insert_grant (ax_now ctx) ''identity'' sid (rl_id r) ''global'' db = Inr db1"
    and t1: "ad_grants db1 = ad_grants db @ [g]" "ad_roles db1 = ad_roles db" and g: "sr_role g = rl_id r"
      "sr_scope g = ''global''" "current_grant now sid g"
    using new by (auto simp: insert_grant_def requireE_def current_grant_def)
  obtain db2 where db2: "access_event ctx ''access.subject_role_assigned.v1''
       [(''subject_type'', JStr ''identity''), (''subject_id'', JStr sid),
        (''role_id'', JStr (show_nat (rl_id r))), (''scope'', JStr ''global'')] sid db1 = Inr db2"
    using access_events_emitted(3)[OF assms(2)] by blast
  obtain db3 where db3: "access_audit ctx ''access.subject.role_assigned'' ''subject'' sid
       [(''role_id'', JStr (show_nat (rl_id r))), (''scope'', JStr ''global'')] db2 = Inr db3"
    using access_events_emitted(2)[OF assms(2)] by blast
  have t3: "ad_grants db3 = ad_grants db @ [g]" "ad_roles db3 = ad_roles db"
    using access_event_tables[OF db2] access_event_tables[OF db3[unfolded event_defs]] t1 by simp_all
  have "assign_role ctx ''identity'' sid (show_nat (rl_id r)) ''global'' db = Inr db3"
    using assms(4) by (simp add: assign_role_def valid_scope_def requireE_def req db1 or_conflict_def db2 db3)
  moreover have "entitled perms now sid k ''global'' db3" if "permission_known perms k" for k
    using that g mem unfolding entitled_def t3 list_ex_iff current_grant_iff by auto
  ultimately show ?thesis using g by (auto simp: role_holders_def t3)
qed

end
