(* ===== verification/Spec2Isabelle.thy ===== *)
theory Spec2Isabelle
  imports Workflow_Properties Kernel_Properties Points_Properties Payments_Properties
    Membership_Properties Gift_Cards_Properties Notification_Properties User_Refunds Access_Bootstrap
begin

text \<open>
  A verification library for the Python back end of aiya-cms, the code under src/inc.

  The program is a content system built on a small kernel. The kernel (src/inc/kernel) offers
  registries that are filled at boot and then frozen, an outbox with a dispatcher that delivers
  events at least once, an inbox that makes handlers idempotent, task workers and a cron scheduler
  that claim rows by leases, and a durable workflow runner. The capabilities (src/inc/capabilities)
  keep their own tables and change them by commands; a command is one or two database transactions
  that end in the append of an event to the outbox. Features (src/inc/features) compose
  capabilities by workflows, and the HTTP interface (src/inc/api) calls commands and queries.

  How the code is rendered. A table is the list of its rows in the order of insertion, the database
  of a component a record of its tables, a row a record of its columns. Row ids, UUIDs in the code,
  are natural numbers drawn from a counter; times are integers that count microseconds, intervals
  likewise; JSON values are the datatype \<open>json\<close>. A command is a function from a context (clock
  reading, actor, permissions, registries), an input and a database to \<open>exn + result \<times> database\<close>:
  \<open>Inl\<close> is an exception and means that the transaction is rolled back. Commands that commit before
  they raise (the webhook of the payments, an activity of a workflow) return the database beside
  the sum. Unique constraints and version checks of the tables are branches of the commands that
  insert or update. Integers are unbounded as in Python; the widths of the columns are not
  modelled. The messages of exceptions are left out, their codes and categories are kept.

  The theories.

  Prelude: the error monad \<open>bindE\<close>, updates and sums over tables, dictionaries, key patterns,
  decimal numerals.
  Idempotent\_Commands: the locale \<open>keyed_command\<close> for a command that stores its result under a key
  of the caller; repetition in any later state is proved once there.

  Kernel\_Errors (kernel/errors/\_\_init\_\_.py, RetryPolicy of kernel/workflow/spec.py): categories,
  the check of codes, retry classes and delays.
  Kernel\_Registry (kernel/events/registry.py, kernel/tasks/registry.py): the locale
  \<open>frozen_registry\<close> of a boot-time table, interpreted on the registries of schemas, tasks, cron
  jobs and workflows.
  Kernel\_Lease: the locale \<open>lease_queue\<close> of rows claimed by a due test and a lease, in the two
  statements the code uses; interpreted on the outbox, the tasks and the workflows.
  Kernel\_Outbox (kernel/events/outbox.py, inbox.py, envelope.py, models.py): writer, claims,
  settling, the dispatcher cycle and the inbox guard.
  Kernel\_Tasks (kernel/tasks/worker.py, spec.py, models.py, cron.py): task execution with retries
  and the cron tick.
  Kernel\_Workflow (kernel/workflow/spec.py, registry.py, models.py, runner.py): start, signals,
  claims, one step with all its branches, and the loops advance and run\_due.
  Kernel\_Properties, Workflow\_Runs, Workflow\_Correct, Workflow\_Properties: the step relation of
  the workflow tables and its invariant, stability of executed steps and terminal instances,
  termination and completion; the properties of the kernel.

  Points\_Model, Points\_Commands (capabilities/points): programs, accounts, balances, buckets,
  ledger entries; credit, debit, reversal, adjustment, expiry, freeze and rebuild.
  Points\_Invariant: balance, ledger sum and buckets of every account agree, kept by every command.
  Points\_Correct, Points\_Buckets, Points\_Reachable, Points\_Samples, Points\_Properties: what each
  command posts, how buckets are consumed and restored, the reachable states, a concrete run for
  the witnesses, and the properties. Points\_Queries, Points\_Admin: the queries, the statistics and
  diagnostics, and the administration of programs and accounts, none of which changes what the
  invariant speaks of.

  Payments\_Model, Payments\_Commands (capabilities/payments): orders, attempts, webhook receipts
  and refunds; creation, attempts, cancellation, webhooks, reconciliation, refunds and queries. A
  command that calls the provider between two transactions is the composition of its two parts, so
  that other transactions can run in between.
  Payments\_Invariant: the step relation of the payments tables and the invariant that ties the
  amounts of an order to its refund rows, its state and its events.
  Payments\_Correct, Payments\_Properties: refinement of an abstract payment, idempotence by the
  locale \<open>keyed_command\<close>, and the properties.

  Kernel\_Page (kernel/db/page.py): the page a query returns, and that the pages together are the
  list.
  Membership\_Model, Membership\_Levels, Membership\_Commands (capabilities/membership): levels with
  their registry and its administration; subscriptions and cycles with every command, the queries
  and the diagnostics. The registry is the state of one process beside the database.
  Membership\_Mirror: the registry of a process that hydrates and administers levels alone is a
  mirror of the table. Membership\_Invariant: a subscription, its current and its older cycles and
  the activation events agree. Membership\_Lifecycle: refinement of an abstract membership.
  Membership\_Properties: the properties, and what a process with an older registry does.

  Gift\_Cards\_Model, Gift\_Cards\_Commands (capabilities/gift\_cards): batches, cards, claims of
  external purchases and redemptions; every command, the queries, diagnostics and statistics.
  Gift\_Cards\_Invariant: the transactions as steps, and the abstract machine of the links between
  cards, claims and redemptions. Gift\_Cards\_Steps: every transaction refines that machine and keeps
  the key columns. Gift\_Cards\_Properties: the properties with a run of the commands.

  Kernel\_Secrets (kernel/security/redaction.py, envelope.py): the test of secret keys, redaction,
  and the envelope that protects, reveals and scrubs the secret values of a mapping.
  Notification\_Model, Notification\_Templates, Notification\_Commands, Notification\_Delivery
  (capabilities/notification): triggers with their registry, tables and ports; rendering of
  templates and the check of edited ones, which read the text in two different ways; requests,
  cancellation, retry, challenges, queries, diagnostics, retention and statistics; the activity
  that delivers, with the chain of providers. The runs the commands start are a table of keys.
  Notification\_Invariant: the transactions as steps, and what a step may do to the rows.
  Notification\_Properties: delivered once, requests by the locale \<open>keyed_command\<close>, what the
  template check gives, the envelope, and two gaps of the explicit retry.

  Workflow\_Script: the abstract reading of a workflow as its activities one after the other; the
  runner ends as that reading does, and starting a workflow is a \<open>keyed_command\<close>.
  User\_Catalog, User\_Workflows, User\_Service (features/user\_center, and the handler of payment
  events in api/container.py): the catalog, the activities and the six workflows over the tables of
  five capabilities, and the self-service operations. Here components meet: the world of the
  workflow tables is the record of the tables of points, membership, payments, gift cards and
  notifications with the reading of the clock.
  User\_System: what an activity may do to that world, and the steps of the whole system, in which
  every capability also makes transactions of its own between those of the runner.
  User\_Samples, User\_Properties, User\_Refunds: a concrete center; the invariants of all parts
  under composition; purchases, check-ins, refunds and gift cards from start to end, over every
  reachable state of the system.

  Access (src/inc/capabilities/access). Access\_Model has the permission registry, the tables of
  roles, keys and grants and the principals; Access\_Commands the commands, the decisions of
  authorize.py, the queries and the guard of the routes in src/inc/api/http/context.py. A flush
  inserts before it deletes, as the unit of work of SQLAlchemy does. Access\_Invariant states the
  consistency of the tables for every transaction; Access\_Properties shows that a decision over the
  joined rows is the one the grants give and what the guard decides, Access\_Bootstrap what the
  bootstrap of the administrator guarantees and when the keys of a role can be replaced.
  Python\_Text holds methods of Python's texts.

  Parameters. What is not under src is an argument: the schemas of Pydantic (a test per event key),
  the trigger of APScheduler, the handlers of events, tasks and activities, the provider of a
  payment, the random jitter of a delay, digests, random tokens, the platforms of the gift cards, the
  schemas of notification variables, the providers and the recipient resolver of notifications, the
  cipher of the envelope, and the text Python gives to lists and numbers. Hypotheses on
  them are named in the properties that need them and hold in the witnesses.

  Bounds and fuel. No definition uses fuel. The three loops of the code without an evident bound are
  \<open>partial_function (option)\<close>: \<open>skip_past\<close> of the cron tick, \<open>advance_loop\<close> of the workflow
  runner and \<open>draw_secrets\<close> of the gift cards. Kernel\_Properties, Workflow\_Properties and
  Gift\_Cards\_Properties prove that they return, the last one if the random source gives enough
  different digests.

  Not modelled. Logging and metrics; the isolation of concurrent transactions beyond the
  interleavings stated (claims in two statements, commands in two transactions, stale snapshots of
  a balance); two coroutines the code creates and does not await (a delete in the cron tick, a
  rollback in the webhook), which have no effect; several clock readings within one step of a
  workflow, which are one reading; the branch of the bootstrap that lost a race for its role. The other capabilities and features, the adapters and the HTTP
  interface are not modelled; the manifest lists them with the reason.
\<close>

end
